(* ===== verification/Prelude.thy ===== *)
theory Prelude
  imports Main "HOL-Library.Word" "HOL-Library.AList"
begin

section \<open>Prelude: machine types, errors, and the generic facts the components share\<close>

text \<open>
  The C++ types of the node and their HOL counterparts:
  \<^item> \<open>unsigned char\<close>, \<open>char\<close>, \<open>uint8_t\<close>: \<open>byte = 8 word\<close>;
  \<^item> \<open>std::string\<close>, \<open>std::vector<char>\<close> and \<open>std::vector<unsigned char>\<close>: \<open>bytes = byte list\<close>
    (the node uses its strings as byte buffers);
  \<^item> \<open>size_t\<close> and \<open>uint64_t\<close>: \<open>u64 = 64 word\<close>, with wrap-around; \<open>int64_t\<close> is the same word
    read through \<open>sint\<close>, since the code converts between the two freely;
  \<^item> \<open>std::optional\<close>: \<open>option\<close>; \<open>std::unordered_map\<close> and \<open>std::map\<close>: association lists
    (finite, and in the order an iteration visits them);
  \<^item> an exception: a value \<open>Inl e\<close> of the sum type, with \<open>Check\<close> for the macro \<open>CHECK\<close>
    and for \<open>throwErr\<close>, \<open>OutOfRange\<close> for the \<open>std::out_of_range\<close> that \<open>std::string::substr\<close>
    raises, \<open>Undefined\<close> for a read or write that C++ leaves undefined, and \<open>Diverges\<close> for a
    loop that has used up the fuel of its model (shown not to happen where it is used).
\<close>

type_synonym byte = "8 word"
type_synonym bytes = "byte list"
type_synonym u32 = "32 word"
type_synonym u64 = "64 word"

text \<open>\<open>std::numeric_limits<size_t>::max()\<close>.\<close>

abbreviation max_u64 :: u64 where
  "max_u64 \<equiv> - 1"

datatype error = Check string | OutOfRange | Undefined | Diverges

type_synonym 'a result = "error + 'a"

named_theorems result_simps \<open>rewriting of the error monad\<close>
named_theorems decoders \<open>round-trip rules of the deserialisers\<close>

subsection \<open>The error monad\<close>

fun bindE :: "'a result \<Rightarrow> ('a \<Rightarrow> 'b result) \<Rightarrow> 'b result" where
  "bindE (Inl e) f = Inl e"
| "bindE (Inr x) f = f x"

definition CHECK :: "bool \<Rightarrow> string \<Rightarrow> unit result" where
  "CHECK b msg = (if b then Inr () else Inl (Check msg))"

lemma bindE_Inr_iff [result_simps]:
  "bindE m f = Inr y \<longleftrightarrow> (\<exists>x. m = Inr x \<and> f x = Inr y)"
  by (cases m) auto

lemma bindE_Inl_iff: "bindE m f = Inl e \<longleftrightarrow> m = Inl e \<or> (\<exists>x. m = Inr x \<and> f x = Inl e)"
  by (cases m) auto

lemma CHECK_Inr_iff [result_simps]: "CHECK b msg = Inr u \<longleftrightarrow> b"
  by (simp add: CHECK_def)

lemma CHECK_True [simp]: "CHECK True msg = Inr ()"
  by (simp add: CHECK_def)

lemma CHECK_False [simp]: "CHECK False msg = Inl (Check msg)"
  by (simp add: CHECK_def)

lemma bindE_assoc: "bindE (bindE m f) g = bindE m (\<lambda>x. bindE (f x) g)"
  by (cases m) auto

subsection \<open>String literals\<close>

text \<open>A string literal of the source as the bytes it denotes.\<close>

definition lit :: "string \<Rightarrow> bytes" where
  "lit s = map of_char s"

lemma lit_Nil [simp]: "lit [] = []"
  by (simp add: lit_def)

lemma lit_Cons [simp]: "lit (c # cs) = of_char c # lit cs"
  by (simp add: lit_def)

lemma length_lit [simp]: "length (lit s) = length s"
  by (simp add: lit_def)

subsection \<open>Positions in a buffer\<close>

text \<open>
  \<open>at raw p s\<close>: position \<open>p\<close> of the buffer \<open>raw\<close> is in range, and \<open>s\<close> is what is left to
  read from there. Buffers are shorter than \<open>2^64\<close>, as \<open>std::string::max_size\<close> guarantees,
  so \<open>of_nat\<close> of a length loses nothing.
\<close>

definition at :: "bytes \<Rightarrow> u64 \<Rightarrow> bytes \<Rightarrow> bool" where
  "at raw p s \<longleftrightarrow> length raw < 2 ^ 64 \<and> unat p \<le> length raw \<and> drop (unat p) raw = s"

definition size_of :: "bytes \<Rightarrow> u64" where
  "size_of raw = of_nat (length raw)"

definition adv :: "u64 \<Rightarrow> bytes \<Rightarrow> u64" where
  "adv p bs = p + of_nat (length bs)"

lemma unat_size_of: "length raw < 2 ^ 64 \<Longrightarrow> unat (size_of raw) = length raw"
  by (simp add: size_of_def unat_of_nat)

lemma unat_u64_less: "unat (p :: u64) < 2 ^ 64"
  using unsigned_less [of p] by (simp add: unat_word_ariths)

lemma unat_add_u64:
  "unat (p :: u64) + n < 2 ^ 64 \<Longrightarrow> unat (p + of_nat n) = unat p + n"
  by (simp add: unat_word_ariths unat_of_nat)

lemma unat_of_nat_u64: "i < 2 ^ 64 \<Longrightarrow> unat (of_nat i :: u64) = i"
  by (simp add: unat_of_nat)

lemma of_nat_u64_inject: "i < 2 ^ 64 \<Longrightarrow> j < 2 ^ 64 \<Longrightarrow> (of_nat i :: u64) = of_nat j \<longleftrightarrow> i = j"
  by (metis unat_of_nat_u64)

lemma unat_pred_u64: "n \<noteq> 0 \<Longrightarrow> unat (n - 1 :: u64) = unat n - 1"
  by (simp add: unat_sub word_le_nat_alt unat_eq_0 Suc_le_eq unat_gt_0)

lemma at_length: "at raw p s \<Longrightarrow> unat p + length s = length raw"
  by (auto simp: at_def)

lemma at_zero: "length raw < 2 ^ 64 \<Longrightarrow> at raw 0 raw"
  by (simp add: at_def)

lemma at_unat_adv: "at raw p (bs @ rest) \<Longrightarrow> unat (adv p bs) = unat p + length bs"
  using at_length [of raw p "bs @ rest"] by (simp add: at_def adv_def unat_add_u64)

lemma at_adv:
  assumes "at raw p (bs @ rest)"
  shows "at raw (adv p bs) rest"
proof -
  have "drop (length bs) (drop (unat p) raw) = rest"
    using assms by (simp add: at_def)
  then show ?thesis
    using assms at_length [OF assms] by (simp add: at_def at_unat_adv [OF assms] add.commute)
qed

lemma at_size_less: "at raw p s \<Longrightarrow> p < size_of raw \<longleftrightarrow> s \<noteq> []"
  by (auto simp: at_def word_less_nat_alt unat_size_of)

lemma adv_Nil [simp]: "adv p [] = p"
  by (simp add: adv_def)

lemma adv_append: "adv p (b1 @ b2) = adv (adv p b1) b2"
  by (simp add: adv_def)

lemma adv_zero: "adv 0 bs = size_of bs"
  by (simp add: adv_def size_of_def)

lemma adv_neq:
  assumes "at raw p (bs @ rest)" and "bs \<noteq> []"
  shows "adv p bs \<noteq> p"
  using at_unat_adv [OF assms(1)] assms(2) by auto

subsection \<open>Deserialisers\<close>

text \<open>
  A function \<open>T deserialize(const std::string &raw, size_t &fromPos)\<close> is a \<open>'a parser\<close>: the
  position it is called with is an argument, the one it leaves in \<open>fromPos\<close> a result.
\<close>

type_synonym 'a parser = "bytes \<Rightarrow> u64 \<Rightarrow> ('a \<times> u64) result"

definition returnP :: "'a \<Rightarrow> 'a parser" where
  "returnP x raw p = Inr (x, p)"

definition bindP :: "'a parser \<Rightarrow> ('a \<Rightarrow> 'b parser) \<Rightarrow> 'b parser" where
  "bindP d f raw p = bindE (d raw p) (\<lambda>(x, q). f x raw q)"

text \<open>
  \<open>decodes d bs x\<close>: wherever the bytes \<open>bs\<close> stand in a buffer, \<open>d\<close> reads \<open>x\<close> there and stops
  right behind them. \<open>decodes_all\<close> is the same for a deserialiser that reads to the end.
\<close>

definition decodes :: "'a parser \<Rightarrow> bytes \<Rightarrow> 'a \<Rightarrow> bool" where
  "decodes d bs x \<longleftrightarrow> (\<forall>raw p rest. at raw p (bs @ rest) \<longrightarrow> d raw p = Inr (x, adv p bs))"

definition decodes_all :: "'a parser \<Rightarrow> bytes \<Rightarrow> 'a \<Rightarrow> bool" where
  "decodes_all d bs x \<longleftrightarrow> (\<forall>raw p. at raw p bs \<longrightarrow> d raw p = Inr (x, adv p bs))"

lemma decodesD: "decodes d bs x \<Longrightarrow> at raw p (bs @ rest) \<Longrightarrow> d raw p = Inr (x, adv p bs)"
  unfolding decodes_def by blast

lemma decodes_allD: "decodes_all d bs x \<Longrightarrow> at raw p bs \<Longrightarrow> d raw p = Inr (x, adv p bs)"
  by (simp add: decodes_all_def)

lemma decodes_return: "decodes (returnP x) [] x"
  by (simp add: decodes_def returnP_def)

lemma decodes_bind:
  assumes "decodes d b1 x" and "decodes (f x) b2 y"
  shows "decodes (bindP d f) (b1 @ b2) y"
  unfolding decodes_def
proof (intro allI impI)
  fix raw p rest
  assume "at raw p ((b1 @ b2) @ rest)"
  then have a: "at raw p (b1 @ (b2 @ rest))"
    by simp
  show "bindP d f raw p = Inr (y, adv p (b1 @ b2))"
    by (simp add: bindP_def decodesD [OF assms(1) a] decodesD [OF assms(2) at_adv [OF a]] adv_append)
qed

lemma decodes_map: "decodes d bs x \<Longrightarrow> decodes (bindP d (\<lambda>x. returnP (f x))) bs (f x)"
  using decodes_bind [where f = "\<lambda>x. returnP (f x)", OF _ decodes_return] by fastforce

lemma decodes_bind_CHECK:
  assumes "decodes d bs x" and "P x"
  shows "decodes (bindP d (\<lambda>x raw from. bindE (CHECK (P x) msg) (\<lambda>_. Inr (g x, from)))) bs (g x)"
  unfolding decodes_def
proof (intro allI impI)
  fix raw p rest
  assume a: "at raw p (bs @ rest)"
  show "bindP d (\<lambda>x raw from. bindE (CHECK (P x) msg) (\<lambda>_. Inr (g x, from))) raw p = Inr (g x, adv p bs)"
    by (simp add: bindP_def decodesD [OF assms(1) a] assms(2))
qed

lemma decodes_bind_all:
  assumes "decodes d b1 x" and "decodes_all (f x) b2 y"
  shows "decodes_all (bindP d f) (b1 @ b2) y"
  unfolding decodes_all_def
proof (intro allI impI)
  fix raw p
  assume a: "at raw p (b1 @ b2)"
  show "bindP d f raw p = Inr (y, adv p (b1 @ b2))"
    by (simp add: bindP_def decodesD [OF assms(1) a] decodes_allD [OF assms(2) at_adv [OF a]]
        adv_append)
qed

lemma decodes_imp_all: "decodes d bs x \<Longrightarrow> decodes_all d bs x"
  unfolding decodes_all_def using decodesD [where rest = "[]"] by fastforce

lemma decodes_whole: "decodes d bs x \<Longrightarrow> length bs < 2 ^ 64 \<Longrightarrow> d bs 0 = Inr (x, size_of bs)"
  using decodesD [where p = 0 and rest = "[]" and raw = bs] at_zero [of bs] by (simp add: adv_zero)

lemma decodes_all_whole:
  "decodes_all d bs x \<Longrightarrow> length bs < 2 ^ 64 \<Longrightarrow> d bs 0 = Inr (x, size_of bs)"
  using decodes_allD [where p = 0 and raw = bs] at_zero [of bs] by (simp add: adv_zero)

lemmas decodes_intros = decodes_bind decodes_map decodes_return

subsection \<open>Association lists\<close>

lemma map_of_update [simp]: "map_of (AList.update k v al) = (map_of al)(k \<mapsto> v)"
  by (rule AList.update_conv')

lemma map_of_delete [simp]: "map_of (AList.delete k al) = (map_of al)(k := None)"
  by (rule AList.delete_conv')

lemma update_append_new:
  "k \<notin> fst ` set al \<Longrightarrow> AList.update k v al = al @ [(k, v)]"
  by (induction al) auto

lemma delete_notin: "k \<notin> fst ` set al \<Longrightarrow> AList.delete k al = al"
  by (induction al) (auto simp: AList.delete_eq)

lemma delete_update_new:
  "k \<notin> fst ` set al \<Longrightarrow> AList.delete k (AList.update k v al) = al"
  by (force simp: update_append_new AList.delete_eq filter_id_conv)

lemma map_of_None_fst: "map_of al k = None \<longleftrightarrow> k \<notin> fst ` set al"
  by (simp add: map_of_eq_None_iff)

text \<open>\<open>std::unordered_map::emplace\<close> keeps the old value of a key that is already there;
  \<open>m[k]\<close> of a missing key gives the default value.\<close>

definition emplace :: "'k \<Rightarrow> 'v \<Rightarrow> ('k \<times> 'v) list \<Rightarrow> ('k \<times> 'v) list" where
  "emplace k v al = (case map_of al k of None \<Rightarrow> al @ [(k, v)] | Some _ \<Rightarrow> al)"

definition get_or :: "'v \<Rightarrow> ('k \<times> 'v) list \<Rightarrow> 'k \<Rightarrow> 'v" where
  "get_or d al k = (case map_of al k of None \<Rightarrow> d | Some v \<Rightarrow> v)"

lemma fold_emplace_distinct:
  "distinct (map fst (al @ xs)) \<Longrightarrow> fold (\<lambda>(k, v). emplace k v) xs al = al @ xs"
proof (induction xs arbitrary: al)
  case Nil
  then show ?case by simp
next
  case (Cons x xs)
  obtain k v where x: "x = (k, v)" by force
  have "map_of al k = None"
    using Cons.prems x by (simp add: map_of_None_fst)
  then have "emplace k v al = al @ [(k, v)]"
    by (simp add: emplace_def)
  then show ?case
    using Cons.IH [of "al @ [(k, v)]"] Cons.prems x by simp
qed

lemma map_of_emplace: "map_of (emplace k v al) = (case map_of al k of None \<Rightarrow> (map_of al)(k \<mapsto> v) | Some _ \<Rightarrow> map_of al)"
  by (auto simp: emplace_def map_add_def split: option.splits)

lemma get_or_update [simp]:
  "get_or d (AList.update k v al) k' = (if k' = k then v else get_or d al k')"
  by (simp add: get_or_def)

subsection \<open>Counted loops over a buffer\<close>

fun repeatP :: "nat \<Rightarrow> ('s \<Rightarrow> 's parser) \<Rightarrow> 's \<Rightarrow> 's parser" where
  "repeatP 0 f s = returnP s"
| "repeatP (Suc n) f s = bindP (f s) (\<lambda>s'. repeatP n f s')"

lemma decodes_repeatP:
  assumes "\<And>s x. decodes (f s) (enc x) (upd x s)"
  shows "decodes (repeatP (length xs) f s) (concat (map enc xs)) (fold upd xs s)"
  by (induction xs arbitrary: s) (auto intro: decodes_return decodes_bind assms)

end
