(* ===== verification/Serialize.thy ===== *)
theory Serialize
  imports Prelude
begin

section \<open>Binary serialisation (utils/serialize.h)\<close>

text \<open>
  The big-endian integers, length-prefixed strings and tagged variants every stored or
  transmitted structure of the node is made of. Each overload of the header has its own
  definition: the ones that append to a buffer have the suffix \<open>_buf\<close>, the ones that return
  the end position in a separate argument the suffix \<open>_end\<close>. Positions are \<open>u64\<close>, so
  the additions the header does on attacker-controlled lengths wrap around as they do in C++.
  The lemmas show that every writer is undone by its reader (\<open>decodes\<close>), and the locale
  \<open>codec\<close> states that contract once for all the structures built on top.
\<close>

subsection \<open>Integers\<close>

definition sizeof :: "'a::len itself \<Rightarrow> nat" where
  "sizeof T = LENGTH('a) div 8"

text \<open>The loop \<open>while (val != 0 && i >= 0)\<close>; the second argument is \<open>i + 1\<close>.\<close>

fun be_loop :: "nat \<Rightarrow> nat \<Rightarrow> nat \<Rightarrow> bytes \<Rightarrow> bytes" where
  "be_loop base 0 val buf = buf"
| "be_loop base (Suc i) val buf =
     (if val \<noteq> 0 then be_loop base i (val div 256) (buf[base + i := of_nat (val mod 256)]) else buf)"

definition toBinaryStringBigEndian :: "'a::len word \<Rightarrow> bytes" where
  "toBinaryStringBigEndian val =
     be_loop 0 (sizeof TYPE('a)) (unat val) (replicate (sizeof TYPE('a)) 0)"

definition toBinaryStringBigEndian_buf :: "'a::len word \<Rightarrow> bytes \<Rightarrow> bytes" where
  "toBinaryStringBigEndian_buf val buffer =
     be_loop (length buffer) (sizeof TYPE('a)) (unat val) (buffer @ replicate (sizeof TYPE('a)) 0)"

text \<open>\<open>raw[i]\<close> of a \<open>const std::string\<close>: position \<open>size()\<close> reads the terminating zero.\<close>

definition raw_at :: "bytes \<Rightarrow> u64 \<Rightarrow> byte result" where
  "raw_at raw i =
     (if unat i < length raw then Inr (raw ! unat i)
      else if unat i = length raw then Inr 0
      else Inl Undefined)"

fun be_read :: "bytes \<Rightarrow> u64 \<Rightarrow> nat \<Rightarrow> 'a::len word \<Rightarrow> 'a word result" where
  "be_read raw pos 0 val = Inr val"
| "be_read raw pos (Suc k) val =
     bindE (raw_at raw pos) (\<lambda>b. be_read raw (pos + 1) k (val * 256 + ucast b))"

definition fromBinaryStringBigEndian :: "'a::len word parser" where
  "fromBinaryStringBigEndian raw fromPos =
     (if size_of raw < of_nat (sizeof TYPE('a)) + fromPos then Inr (0, fromPos)
      else bindE (be_read raw fromPos (sizeof TYPE('a)) 0)
             (\<lambda>val. Inr (val, fromPos + of_nat (sizeof TYPE('a)))))"

definition serializeInt :: "'a::len word \<Rightarrow> bytes" where
  "serializeInt intValue = toBinaryStringBigEndian intValue"

definition serializeInt_buf :: "'a::len word \<Rightarrow> bytes \<Rightarrow> bytes" where
  "serializeInt_buf intValue buffer = toBinaryStringBigEndian_buf intValue buffer"

definition deserializeInt_end :: "'a::len word parser" where
  "deserializeInt_end raw fromPos = fromBinaryStringBigEndian raw fromPos"

definition deserializeInt :: "'a::len word parser" where
  "deserializeInt raw fromPos =
     bindE (deserializeInt_end raw fromPos) (\<lambda>(val, endPos).
     bindE (CHECK (endPos \<noteq> fromPos) ''Incorrect raw'') (\<lambda>_.
     Inr (val, endPos)))"

subsection \<open>Strings and vectors\<close>

definition serializeString :: "bytes \<Rightarrow> bytes" where
  "serializeString str = serializeInt (size_of str) @ str"

definition serializeVector :: "bytes \<Rightarrow> bytes" where
  "serializeVector str = serializeInt (size_of str) @ str"

definition serializeVector_buf :: "bytes \<Rightarrow> bytes \<Rightarrow> bytes" where
  "serializeVector_buf str buffer = serializeInt_buf (size_of str) buffer @ str"

definition serializeString_buf :: "bytes \<Rightarrow> bytes \<Rightarrow> bytes" where
  "serializeString_buf str buffer = serializeInt_buf (size_of str) buffer @ str"

text \<open>\<open>std::string::substr\<close>: raises behind the end, truncates at the end.\<close>

definition substr :: "bytes \<Rightarrow> u64 \<Rightarrow> u64 \<Rightarrow> bytes result" where
  "substr raw pos n =
     (if size_of raw < pos then Inl OutOfRange else Inr (take (unat n) (drop (unat pos) raw)))"

definition deserializeString_end :: "bytes parser" where
  "deserializeString_end raw fromPos =
     bindE (deserializeInt_end raw fromPos) (\<lambda>(sizeString, endPos).
     if fromPos = endPos then Inr ([], endPos)
     else bindE (substr raw endPos sizeString) (\<lambda>str. Inr (str, endPos + sizeString)))"

definition deserializeVector_end :: "bytes parser" where
  "deserializeVector_end raw fromPos =
     bindE (deserializeInt_end raw fromPos) (\<lambda>(sizeString, endPos).
     if fromPos = endPos then Inr ([], endPos)
     else bindE (substr raw endPos sizeString) (\<lambda>tmp. Inr (tmp, endPos + sizeString)))"

definition deserializeString :: "bytes parser" where
  "deserializeString raw fromPos =
     bindE (deserializeString_end raw fromPos) (\<lambda>(str, endPos).
     bindE (CHECK (endPos \<noteq> fromPos) ''Incorrect raw'') (\<lambda>_.
     Inr (str, endPos)))"

definition deserializeVector :: "bytes parser" where
  "deserializeVector raw fromPos =
     bindE (deserializeVector_end raw fromPos) (\<lambda>(str, endPos).
     bindE (CHECK (endPos \<noteq> fromPos) ''Incorrect raw'') (\<lambda>_.
     Inr (str, endPos)))"

subsection \<open>Variants\<close>

text \<open>
  \<open>serializeVariant\<close> writes the index of the alternative and then the alternative (nothing for
  \<open>std::monostate\<close>); \<open>deserializeVarint\<close> reads the index and runs the parser of that
  alternative, one per type of the variant.
\<close>

definition serializeVariant :: "u64 \<Rightarrow> (bytes \<Rightarrow> bytes result) \<Rightarrow> bytes \<Rightarrow> bytes result" where
  "serializeVariant index ser_arg buffer = ser_arg (serializeInt_buf index buffer)"

definition deserializeVarint :: "'a parser list \<Rightarrow> 'a parser" where
  "deserializeVarint alternatives = bindP deserializeInt (\<lambda>number raw fromPos.
     bindE (CHECK (unat (number :: u64) < length alternatives) ''Incorrect type in transaction status'')
       (\<lambda>_. (alternatives ! unat number) raw fromPos))"

subsection \<open>The writers agree with a reference encoding\<close>

text \<open>\<open>be_bytes n v\<close>: the \<open>n\<close> base-256 digits of \<open>v\<close>, most significant first.\<close>

primrec be_bytes :: "nat \<Rightarrow> nat \<Rightarrow> bytes" where
  "be_bytes 0 v = []"
| "be_bytes (Suc n) v = be_bytes n (v div 256) @ [of_nat (v mod 256)]"

definition be_val :: "'a::len word \<Rightarrow> bytes \<Rightarrow> 'a word" where
  "be_val w bs = foldl (\<lambda>acc b. acc * 256 + ucast b) w bs"

lemma length_be_bytes [simp]: "length (be_bytes n v) = n"
  by (induction n arbitrary: v) auto

lemma be_bytes_0: "be_bytes n 0 = replicate n 0"
  by (induction n) (simp_all add: replicate_append_same)

lemma be_loop_fill:
  "be_loop (length pre) n v (pre @ replicate n 0 @ post) = pre @ be_bytes n v @ post"
proof (induction n arbitrary: v post)
  case 0
  then show ?case by simp
next
  case (Suc n)
  have snoc: "replicate (Suc n) (0 :: byte) = replicate n 0 @ [0]"
    by (simp add: replicate_append_same)
  have *: "(pre @ replicate (Suc n) 0 @ post)[length pre + n := x] = pre @ replicate n 0 @ x # post"
    for x
    unfolding snoc by (simp add: list_update_append)
  show ?case
    by (cases "v = 0") (simp_all add: be_bytes_0 replicate_append_same * Suc.IH [of _ "_ # post", simplified]
        del: replicate.simps(2))
qed

lemma toBinaryStringBigEndian_eq:
  "toBinaryStringBigEndian (v :: 'a::len word) = be_bytes (sizeof TYPE('a)) (unat v)"
  using be_loop_fill [of "[]" _ _ "[]"] by (simp add: toBinaryStringBigEndian_def)

lemma toBinaryStringBigEndian_buf_eq:
  "toBinaryStringBigEndian_buf v buffer = buffer @ toBinaryStringBigEndian v"
  using be_loop_fill [of buffer _ _ "[]"]
  by (simp add: toBinaryStringBigEndian_buf_def toBinaryStringBigEndian_eq)

lemma length_serializeInt: "length (serializeInt (v :: 'a::len word)) = sizeof TYPE('a)"
  by (simp add: serializeInt_def toBinaryStringBigEndian_eq)

lemma length_serializeInt_u64 [simp]: "length (serializeInt (v :: u64)) = 8"
  by (simp add: length_serializeInt sizeof_def)

lemma length_serializeInt_byte [simp]: "length (serializeInt (v :: byte)) = 1"
  by (simp add: length_serializeInt sizeof_def)

lemma length_serializeInt_u32 [simp]: "length (serializeInt (v :: u32)) = 4"
  by (simp add: length_serializeInt sizeof_def)

lemma serializeInt_buf_eq [simp]: "serializeInt_buf v buffer = buffer @ serializeInt v"
  by (simp add: serializeInt_buf_def serializeInt_def toBinaryStringBigEndian_buf_eq)

lemma serializeString_buf_eq [simp]: "serializeString_buf s buffer = buffer @ serializeString s"
  by (simp add: serializeString_buf_def serializeString_def)

lemma serializeVector_buf_eq [simp]: "serializeVector_buf s buffer = buffer @ serializeVector s"
  by (simp add: serializeVector_buf_def serializeVector_def)

lemma serializeVector_eq_String: "serializeVector = serializeString"
  by (rule ext) (simp add: serializeVector_def serializeString_def)

lemma deserializeVector_eq_String: "deserializeVector = deserializeString"
  by (intro ext) (simp add: deserializeVector_def deserializeString_def deserializeVector_end_def
      deserializeString_end_def)

lemma length_serializeString [simp]: "length (serializeString s) = 8 + length s"
  by (simp add: serializeString_def)

subsection \<open>Every writer is undone by its reader\<close>

lemma be_read_at:
  "at raw p (bs @ rest) \<Longrightarrow> be_read raw p (length bs) w = Inr (be_val w bs)"
proof (induction bs arbitrary: p w)
  case Nil
  then show ?case by (simp add: be_val_def)
next
  case (Cons b bs)
  have nth: "raw_at raw p = Inr b"
    using Cons.prems at_length [OF Cons.prems]
    by (auto simp: at_def raw_at_def hd_drop_conv_nth dest!: arg_cong [where f = hd])
  have "at raw (adv p [b]) (bs @ rest)"
    using Cons.prems at_adv [of raw p "[b]" "bs @ rest"] by simp
  from Cons.IH [OF this] show ?case
    by (simp add: nth adv_def be_val_def)
qed

lemma word_of_nat_ucast: "ucast (of_nat (k mod 256) :: byte) = (of_nat (k mod 256) :: 'a::len word)"
proof -
  have "unat (of_nat (k mod 256) :: byte) = k mod 256"
    by (simp add: unat_of_nat)
  then show ?thesis
    by (metis unsigned_of_nat of_nat_unat)
qed

lemma be_val_be_bytes: "v < 256 ^ n \<Longrightarrow> be_val 0 (be_bytes n v) = (of_nat v :: 'a::len word)"
proof (induction n arbitrary: v)
  case 0
  then show ?case by (simp add: be_val_def)
next
  case (Suc n)
  have "v div 256 < 256 ^ n"
    using Suc.prems by (simp add: less_mult_imp_div_less mult.commute)
  then have "be_val 0 (be_bytes n (v div 256)) = (of_nat (v div 256) :: 'a word)"
    by (rule Suc.IH)
  moreover have "ucast (of_nat (v mod 256) :: byte) = (of_nat (v mod 256) :: 'a word)"
    by (rule word_of_nat_ucast)
  moreover have "(of_nat (v div 256) :: 'a word) * 256 + of_nat (v mod 256) = of_nat v"
    by (metis div_mult_mod_eq of_nat_add of_nat_mult of_nat_numeral)
  ultimately show ?case
    by (simp add: be_val_def)
qed

lemma unat_less_sizeof:
  assumes "8 dvd LENGTH('a)"
  shows "unat (v :: 'a::len word) < 256 ^ sizeof TYPE('a)"
proof -
  have "(2::nat) ^ LENGTH('a) = 256 ^ sizeof TYPE('a)"
    using assms by (auto simp: sizeof_def power_mult [symmetric] elim!: dvdE simp: power_mult)
  then show ?thesis
    using unsigned_less [of v, where 'a = nat] by simp
qed

lemma decodes_fromBinary:
  assumes "8 dvd LENGTH('a)"
  shows "decodes fromBinaryStringBigEndian (toBinaryStringBigEndian v) (v :: 'a::len word)"
  unfolding decodes_def
proof (intro allI impI)
  fix raw p rest
  let ?n = "sizeof TYPE('a)" and ?bs = "toBinaryStringBigEndian v"
  assume a: "at raw p (?bs @ rest)"
  have len: "length ?bs = ?n"
    by (simp add: toBinaryStringBigEndian_eq)
  have pos: "of_nat ?n + p = adv p ?bs"
    by (simp add: adv_def len add.commute)
  have "\<not> size_of raw < adv p ?bs"
    using at_adv [OF a] by (auto simp: at_def word_less_nat_alt unat_size_of)
  moreover have "be_read raw p ?n 0 = Inr v"
    using be_read_at [OF a, of "0 :: 'a word"]
      be_val_be_bytes [OF unat_less_sizeof [OF assms, of v], where 'a = 'a]
    by (simp add: len toBinaryStringBigEndian_eq)
  ultimately show "fromBinaryStringBigEndian raw p = Inr (v, adv p ?bs)"
    by (simp add: fromBinaryStringBigEndian_def pos) (simp add: pos [symmetric] add.commute)
qed

lemma decodes_CHECK_moved:
  assumes "decodes d bs x" and "bs \<noteq> []"
  shows "decodes (\<lambda>raw p. bindE (d raw p) (\<lambda>(v, e). bindE (CHECK (e \<noteq> p) msg) (\<lambda>_. Inr (v, e)))) bs x"
  unfolding decodes_def
  using decodesD [OF assms(1)] adv_neq [OF _ assms(2)] by (fastforce simp: CHECK_def)

lemma decodes_deserializeInt:
  assumes "8 dvd LENGTH('a)"
  shows "decodes deserializeInt (serializeInt v) (v :: 'a::len word)"
proof -
  have "decodes deserializeInt_end (serializeInt v) v"
    using decodes_fromBinary [OF assms, of v]
    by (simp add: deserializeInt_end_def serializeInt_def decodes_def)
  moreover have "serializeInt v \<noteq> []"
    using length_serializeInt [of v] assms by (auto simp: sizeof_def elim!: dvdE)
  ultimately show ?thesis
    unfolding deserializeInt_def by (rule decodes_CHECK_moved)
qed

lemma decodes_u64 [decoders]: "decodes deserializeInt (serializeInt v) (v :: u64)"
  by (rule decodes_deserializeInt) simp

lemma decodes_u32 [decoders]: "decodes deserializeInt (serializeInt v) (v :: u32)"
  by (rule decodes_deserializeInt) simp

lemma decodes_byte [decoders]: "decodes deserializeInt (serializeInt v) (v :: byte)"
  by (rule decodes_deserializeInt) simp

lemma decodes_deserializeString_end: "decodes deserializeString_end (serializeString s) s"
  unfolding decodes_def
proof (intro allI impI)
  fix raw p rest
  assume a: "at raw p (serializeString s @ rest)"
  let ?n = "serializeInt (size_of s)"
  have a1: "at raw p (?n @ (s @ rest))"
    using a by (simp add: serializeString_def)
  have int: "deserializeInt_end raw p = Inr (size_of s, adv p ?n)"
    using decodesD [OF decodes_fromBinary [where 'a = 64 and v = "size_of s"], of raw p "s @ rest"] a1
    by (simp add: deserializeInt_end_def serializeInt_def)
  have a2: "at raw (adv p ?n) (s @ rest)"
    using at_adv [OF a1] .
  have len: "length s < 2 ^ 64"
    using a2 at_length [OF a2] by (simp add: at_def)
  have "substr raw (adv p ?n) (size_of s) = Inr s"
    using a2 unfolding substr_def
    by (auto simp: at_def word_less_nat_alt unat_size_of unat_size_of [OF len])
  moreover have "p \<noteq> adv p ?n"
    using adv_neq [OF a1] length_serializeInt_u64 [of "size_of s"] by fastforce
  moreover have "adv p (serializeString s) = adv p ?n + size_of s"
    by (simp add: serializeString_def adv_append) (simp add: adv_def size_of_def)
  ultimately show "deserializeString_end raw p = Inr (s, adv p (serializeString s))"
    by (simp add: deserializeString_end_def int)
qed

lemma decodes_string [decoders]: "decodes deserializeString (serializeString s) s"
  unfolding deserializeString_def
  by (rule decodes_CHECK_moved [OF decodes_deserializeString_end])
     (use length_serializeString [of s] in fastforce)

lemma decodes_vector [decoders]: "decodes deserializeVector (serializeVector s) s"
  using decodes_string by (simp add: deserializeVector_eq_String serializeVector_eq_String)

lemma decodes_varint:
  assumes "unat (i :: u64) < length alts" and "decodes (alts ! unat i) bs x"
  shows "decodes (deserializeVarint alts) (serializeInt i @ bs) x"
proof -
  have "decodes (\<lambda>raw fromPos. bindE (CHECK (unat i < length alts) ''Incorrect type in transaction status'')
      (\<lambda>_. (alts ! unat i) raw fromPos)) bs x"
    using assms by (simp add: decodes_def)
  then show ?thesis
    unfolding deserializeVarint_def by (intro decodes_bind [where x = i] decodes_u64)
qed

subsection \<open>The contract of a serialisable structure\<close>

text \<open>
  A structure with a method \<open>serialize(buffer)\<close> and a static \<open>deserialize(raw, from)\<close> promises
  that the writer appends to the buffer, whatever it holds, and that the reader gives back what
  was written. \<open>proj x\<close> is the part of \<open>x\<close> the format stores (\<open>TransactionInfo\<close> stores its
  position and number only). What the clients of every such structure rely on follows once.
\<close>

locale codec =
  fixes ser :: "'a \<Rightarrow> bytes \<Rightarrow> bytes result"
    and des :: "'a parser"
    and proj :: "'a \<Rightarrow> 'a"
  assumes ser_append: "ser x buffer = bindE (ser x []) (\<lambda>bs. Inr (buffer @ bs))"
    and ser_decodes: "ser x [] = Inr bs \<Longrightarrow> decodes des bs (proj x)"
begin

lemma roundtrip: "ser x [] = Inr bs \<Longrightarrow> length bs < 2 ^ 64 \<Longrightarrow> des bs 0 = Inr (proj x, size_of bs)"
  by (rule decodes_whole [OF ser_decodes])

lemma ser_prefix_free:
  assumes x: "ser x [] = Inr b1" and y: "ser y [] = Inr b2"
    and eq: "b1 @ r1 = b2 @ r2" and short: "length (b1 @ r1) < 2 ^ 64"
  shows "b1 = b2 \<and> proj x = proj y"
proof -
  have "at (b1 @ r1) 0 (b1 @ r1)" and "at (b1 @ r1) 0 (b2 @ r2)"
    using at_zero [OF short] eq by simp_all
  then have "Inr (proj x, adv 0 b1) = (Inr (proj y, adv 0 b2) :: ('a \<times> u64) result)"
    using decodesD [OF ser_decodes [OF x]] decodesD [OF ser_decodes [OF y]] by metis
  then have p: "proj x = proj y" and "size_of b1 = size_of b2"
    by (simp_all add: adv_zero)
  moreover have "length b1 < 2 ^ 64" and "length b2 < 2 ^ 64"
    using short arg_cong [OF eq, of length] by simp_all
  ultimately have "length b1 = length b2"
    by (metis unat_size_of)
  then show ?thesis
    using eq p by simp
qed

lemma ser_inj:
  "ser x [] = Inr bs \<Longrightarrow> ser y [] = Inr bs \<Longrightarrow> length bs < 2 ^ 64 \<Longrightarrow> proj x = proj y"
  using ser_prefix_free [of x bs y bs "[]" "[]"] by simp

end

interpretation u64_codec: codec "\<lambda>v buffer. Inr (serializeInt_buf v buffer)" deserializeInt "\<lambda>v :: u64. v"
  by unfold_locales (auto intro: decodes_u64)

interpretation string_codec: codec "\<lambda>s buffer. Inr (serializeString_buf s buffer)" deserializeString "\<lambda>s. s"
  by unfold_locales (auto intro: decodes_string)

interpretation vector_codec: codec "\<lambda>s buffer. Inr (serializeVector_buf s buffer)" deserializeVector "\<lambda>s. s"
  by unfold_locales (auto intro: decodes_vector)

subsection \<open>What the readers do on every position\<close>

lemma at_take_drop:
  assumes "length raw < 2 ^ 64" and "unat p + n \<le> length raw"
  shows "at raw p (take n (drop (unat p) raw) @ drop (unat p + n) raw)"
  using assms by (simp add: at_def drop_drop [symmetric] add.commute del: drop_drop)

lemma fromBinary_fits:
  assumes "length raw < 2 ^ 64" and "unat p + 8 \<le> length raw"
  shows "fromBinaryStringBigEndian raw p = Inr (be_val 0 (take 8 (drop (unat p) raw)) :: u64, p + 8)"
proof -
  let ?bs = "take 8 (drop (unat p) raw)"
  have a: "at raw p (?bs @ drop (unat p + 8) raw)"
    using at_take_drop [OF assms] .
  have len: "length ?bs = 8"
    using assms by simp
  have "unat (p + 8) = unat p + 8"
    using unat_add_u64 [of p 8] assms by simp
  then have "\<not> size_of raw < 8 + p"
    using assms by (simp add: word_less_nat_alt unat_size_of add.commute)
  then show ?thesis
    using be_read_at [OF a, of "0 :: u64"] len
    by (simp add: fromBinaryStringBigEndian_def sizeof_def add.commute)
qed

lemma fromBinary_short:
  assumes "length raw < 2 ^ 64" and "length raw < unat p + 8" and "unat p + 8 < 2 ^ 64"
  shows "fromBinaryStringBigEndian raw p = Inr (0 :: u64, p)"
proof -
  have "unat (p + 8) = unat p + 8"
    using unat_add_u64 [of p 8] assms by simp
  then have "size_of raw < 8 + p"
    using assms by (simp add: word_less_nat_alt unat_size_of add.commute)
  then show ?thesis
    by (simp add: fromBinaryStringBigEndian_def sizeof_def)
qed

lemma be_read_fails: "raw_at raw p = Inl e \<Longrightarrow> 0 < n \<Longrightarrow> be_read raw p n v = Inl e"
  by (cases n) simp_all

lemma fromBinary_wrapped:
  assumes "length raw < 2 ^ 63" and "2 ^ 64 \<le> unat p + 8"
    and "unat p + 8 - 2 ^ 64 \<le> length raw"
  shows "fromBinaryStringBigEndian raw p = (Inl Undefined :: (u64 \<times> u64) result)"
proof -
  have "unat (8 + p) = unat p + 8 - 2 ^ 64"
  proof -
    have "unat (8 + p) = (unat p + 8) mod 2 ^ 64"
      by (subst add.commute) (simp add: unat_word_ariths(1))
    also have "\<dots> = (unat p + 8 - 2 ^ 64) mod 2 ^ 64"
      using assms(2) by (rule le_mod_geq)
    also have "\<dots> = unat p + 8 - 2 ^ 64"
      by (rule mod_less) (use unat_u64_less [of p] assms(2) in simp)
    finally show ?thesis .
  qed
  then have "\<not> size_of raw < 8 + p"
    using assms by (simp add: word_less_nat_alt unat_size_of)
  moreover have "length raw < unat p"
    using assms(1,2) by simp
  then have "raw_at raw p = Inl Undefined"
    by (simp add: raw_at_def)
  then have "be_read raw p 8 (0 :: u64) = Inl Undefined"
    by (rule be_read_fails) simp
  ultimately show ?thesis
    by (simp add: fromBinaryStringBigEndian_def sizeof_def)
qed

text \<open>
  Reading a 64-bit integer, at every position that cannot overflow when eight is added to
  it: if eight bytes are left the reader gives their big-endian value and moves eight bytes on,
  otherwise it raises. No read behind the end of the buffer happens in either case.
\<close>

theorem deserializeInt_spec:
  assumes "length raw < 2 ^ 64" and "unat p + 8 < 2 ^ 64"
  shows "deserializeInt raw p =
    (if unat p + 8 \<le> length raw
     then Inr (be_val 0 (take 8 (drop (unat p) raw)) :: u64, p + 8)
     else Inl (Check ''Incorrect raw''))"
  using fromBinary_fits [OF assms(1), of p] fromBinary_short [OF assms(1) _ assms(2)]
  by (simp add: deserializeInt_def deserializeInt_end_def)

theorem deserializeInt_spec_witness:
  "deserializeInt [0, 0, 0, 0, 0, 0, 1, 2, 9] 0 = Inr (258 :: u64, 8)
   \<and> deserializeInt [0, 0, 0, 0, 0, 0, 1, 2, 9] 2 = (Inl (Check ''Incorrect raw'') :: (u64 \<times> u64) result)"
  using deserializeInt_spec [of "[0, 0, 0, 0, 0, 0, 1, 2, 9]" 0]
    deserializeInt_spec [of "[0, 0, 0, 0, 0, 0, 1, 2, 9]" 2]
  by (simp add: be_val_def)

text \<open>
  A string written by \<open>serializeString\<close> is read back unchanged by \<open>deserializeString\<close>,
  wherever it stands in a buffer, and the position ends right behind it.
\<close>

theorem serializeString_roundtrip:
  assumes "length (pre @ serializeString s @ post) < 2 ^ 64"
  shows "deserializeString (pre @ serializeString s @ post) (of_nat (length pre)) =
    Inr (s, of_nat (length pre + 8 + length s))"
proof -
  have "unat (of_nat (length pre) :: u64) = length pre"
    using assms by (simp add: unat_of_nat)
  then have "at (pre @ serializeString s @ post) (of_nat (length pre)) (serializeString s @ post)"
    using assms by (simp add: at_def)
  from decodesD [OF decodes_string this] show ?thesis
    by (simp add: adv_def)
qed

theorem serializeString_roundtrip_witness:
  "deserializeString ([7] @ serializeString [104, 105] @ [9]) 1 = Inr ([104, 105], 11)"
  using serializeString_roundtrip [of "[7]" "[104, 105]" "[9]"] by simp

text \<open>
  No serialised string is a proper prefix of another: two serialised strings at the
  start of the same buffer are the same string. Keys and records that concatenate them are
  therefore read back unambiguously.
\<close>

theorem serializeString_prefix_free:
  assumes "serializeString s @ r1 = serializeString t @ r2"
    and "length (serializeString s @ r1) < 2 ^ 64"
  shows "s = t \<and> r1 = r2"
  using string_codec.ser_prefix_free [of s "serializeString s" t "serializeString t" r1 r2] assms
  by simp

theorem serializeString_prefix_free_witness:
  "serializeString [1] @ [2] = serializeString [1] @ [2] \<and> [1 :: byte] = [1]"
  using serializeString_prefix_free [of "[1]" "[2]" "[1]" "[2]"] by simp

text \<open>
  A length prefix that announces more bytes than the buffer holds is not an error:
  \<open>deserializeString\<close> returns what is there, and leaves the position behind the buffer.
\<close>

theorem deserializeString_truncates:
  assumes "length payload < unat n" and "unat n + 8 < 2 ^ 64"
  shows "deserializeString (serializeInt n @ payload) 0 = Inr (payload, 8 + n)"
proof -
  let ?raw = "serializeInt n @ payload"
  have a: "at ?raw 0 (serializeInt n @ payload)"
    using assms by (intro at_zero) simp
  have int: "deserializeInt_end ?raw 0 = Inr (n, 8)"
    using decodesD [OF decodes_fromBinary [where 'a = 64 and v = n], of ?raw 0 payload] a
    by (simp add: deserializeInt_end_def serializeInt_def [symmetric] adv_def)
  have "unat (8 + n) = 8 + unat n"
    using unat_add_u64 [of n 8] assms by (simp add: add.commute)
  then have "8 + n \<noteq> 0"
    by auto
  moreover have "substr ?raw 8 n = Inr payload"
    using assms by (simp add: substr_def word_less_nat_alt unat_size_of)
  ultimately show ?thesis
    by (simp add: deserializeString_def deserializeString_end_def int)
qed

theorem deserializeString_truncates_witness:
  "deserializeString (serializeInt (5 :: u64) @ [1, 2]) 0 = Inr ([1, 2], 13)"
  using deserializeString_truncates [of "[1, 2]" 5] by simp

text \<open>
  A crafted length makes the next read leave the buffer: with a string whose length prefix
  is \<open>2^64 - 16\<close> the position after the string is \<open>2^64 - 8\<close>, the bound check of the next
  integer overflows to \<open>0\<close>, and the bytes in front of the buffer are read.
\<close>

theorem deserialize_position_overflow:
  assumes "length payload < 2 ^ 62"
  shows "bindP deserializeString (\<lambda>s. deserializeInt) (serializeInt (- 16 :: u64) @ payload) 0 =
    (Inl Undefined :: (u64 \<times> u64) result)"
proof -
  let ?raw = "serializeInt (- 16 :: u64) @ payload"
  have n: "unat (- 16 :: u64) = 2 ^ 64 - 16"
    by simp
  have a: "at ?raw 0 (serializeInt (- 16 :: u64) @ payload)"
    using assms by (intro at_zero) simp
  have int: "deserializeInt_end ?raw 0 = Inr (- 16 :: u64, 8)"
    using decodesD [OF decodes_fromBinary [where 'a = 64 and v = "- 16"], of ?raw 0 payload] a
    by (simp add: deserializeInt_end_def serializeInt_def [symmetric] adv_def)
  have "substr ?raw 8 (- 16) = Inr payload"
    using assms by (simp add: substr_def word_less_nat_alt unat_size_of)
  then have "deserializeString ?raw 0 = Inr (payload, - 8)"
    by (simp add: deserializeString_def deserializeString_end_def int)
  moreover have "deserializeInt ?raw (- 8) = (Inl Undefined :: (u64 \<times> u64) result)"
    using fromBinary_wrapped [of ?raw "- 8"] assms
    by (simp add: deserializeInt_def deserializeInt_end_def)
  ultimately show ?thesis
    by (simp add: bindP_def)
qed

theorem deserialize_position_overflow_witness:
  "bindP deserializeString (\<lambda>s. deserializeInt) (serializeInt (- 16 :: u64) @ [1, 2, 3]) 0 =
    (Inl Undefined :: (u64 \<times> u64) result)"
  by (rule deserialize_position_overflow) simp

end
