(* ===== verification/Address.thy ===== *)
theory Address
  imports Serialize
begin

section \<open>Wallet addresses (blockchain_structs/Address)\<close>

text \<open>
  The class \<open>Address\<close>: 25 bytes (a type byte, a hash and a checksum), or the empty \<open>initial\<close>
  wallet money comes from. Every accessor first checks that the object was given a value. The
  hexadecimal conversions \<open>fromHex\<close> and \<open>toHex\<close> are not part of this repository: they are
  parameters of the definitions that call them.
\<close>

record Address =
  addr :: bytes
  isInitialW :: bool
  isSet :: bool

definition Address_default :: Address where
  "Address_default = \<lparr>addr = [], isInitialW = False, isSet = False\<rparr>"

definition INITIAL_WALLET_TRANSACTION :: bytes where
  "INITIAL_WALLET_TRANSACTION = lit ''InitialWalletTransaction''"

text \<open>
  The constructor from a vector overwrites the type byte of a blocked address; writing to
  \<open>address[0]\<close> of an empty string is undefined.
\<close>

definition Address_of_vector :: "bytes \<Rightarrow> bool \<Rightarrow> Address result" where
  "Address_of_vector address isBlockedAddress =
     (if isBlockedAddress
      then (if address = [] then Inl Undefined
            else Inr \<lparr>addr = address[0 := 1], isInitialW = False, isSet = True\<rparr>)
      else Inr \<lparr>addr = address, isInitialW = False, isSet = True\<rparr>)"

definition Address_of_range :: "bytes \<Rightarrow> Address" where
  "Address_of_range s = \<lparr>addr = s, isInitialW = False, isSet = True\<rparr>"

definition Address_of_hex :: "(bytes \<Rightarrow> bytes result) \<Rightarrow> bytes \<Rightarrow> Address result" where
  "Address_of_hex fromHex hexAddress =
     bindE (CHECK (hexAddress \<noteq> []) ''Empty address'') (\<lambda>_.
     bindE (CHECK (take 2 hexAddress = lit ''0x'') ''Incorrect address '') (\<lambda>_.
     bindE (fromHex hexAddress) (\<lambda>tmp.
     Inr \<lparr>addr = tmp, isInitialW = False, isSet = True\<rparr>)))"

definition Address_eq :: "Address \<Rightarrow> Address \<Rightarrow> bool result" where
  "Address_eq a b =
     bindE (CHECK (isSet a) ''Address not set'') (\<lambda>_.
     bindE (CHECK (isSet b) ''Address not set'') (\<lambda>_.
     Inr (addr a = addr b)))"

definition Address_less :: "Address \<Rightarrow> Address \<Rightarrow> bool result" where
  "Address_less a b =
     bindE (CHECK (isSet a) ''Address not set'') (\<lambda>_.
     bindE (CHECK (isSet b) ''Address not set'') (\<lambda>_.
     Inr (ord_class.lexordp (addr a) (addr b))))"

definition getBinaryString :: "Address \<Rightarrow> bytes result" where
  "getBinaryString a =
     bindE (CHECK (isSet a) ''Address not set'') (\<lambda>_.
     Inr (if addr a = [] then INITIAL_WALLET_TRANSACTION else addr a))"

definition toBdString :: "Address \<Rightarrow> bytes result" where
  "toBdString a = getBinaryString a"

definition calcHexString :: "(bytes \<Rightarrow> bytes) \<Rightarrow> Address \<Rightarrow> bytes result" where
  "calcHexString toHex a =
     bindE (CHECK (isSet a) ''Address not set'') (\<lambda>_.
     Inr (if addr a = [] then INITIAL_WALLET_TRANSACTION else lit ''0x'' @ toHex (addr a)))"

definition setEmpty :: "Address \<Rightarrow> Address" where
  "setEmpty a = a\<lparr>isSet := True, addr := [], isInitialW := True\<rparr>"

definition isEmpty :: "Address \<Rightarrow> bool result" where
  "isEmpty a = bindE (CHECK (isSet a) ''Address not set'') (\<lambda>_. Inr (addr a = []))"

definition isInitialWallet :: "Address \<Rightarrow> bool result" where
  "isInitialWallet a = bindE (CHECK (isSet a) ''Address not set'') (\<lambda>_. Inr (isInitialW a))"

text \<open>\<open>address[0]\<close> of an empty \<open>const\<close> string is the terminating zero.\<close>

definition first_byte :: "bytes \<Rightarrow> byte" where
  "first_byte s = (case s of [] \<Rightarrow> 0 | b # _ \<Rightarrow> b)"

definition isScriptAddress :: "Address \<Rightarrow> bool result" where
  "isScriptAddress a = bindE (CHECK (isSet a) ''Address not set'') (\<lambda>_. Inr (first_byte (addr a) = 8))"

definition isTokenAddress :: "Address \<Rightarrow> bool result" where
  "isTokenAddress a = bindE (CHECK (isSet a) ''Address not set'') (\<lambda>_. Inr (first_byte (addr a) = 6))"

lemma length_INITIAL_WALLET [simp]: "length INITIAL_WALLET_TRANSACTION = 24"
  by (simp add: INITIAL_WALLET_TRANSACTION_def)

lemma INITIAL_WALLET_neq_Nil [simp]: "INITIAL_WALLET_TRANSACTION \<noteq> []"
  using length_INITIAL_WALLET by fastforce

lemma toBdString_nonempty: "toBdString a = Inr s \<Longrightarrow> s \<noteq> []"
  by (auto simp: toBdString_def getBinaryString_def result_simps split: if_splits)

lemma toBdString_set: "isSet a \<Longrightarrow> \<exists>s. toBdString a = Inr s"
  by (auto simp: toBdString_def getBinaryString_def)

lemma Address_eq_set: "isSet a \<Longrightarrow> isSet b \<Longrightarrow> Address_eq a b = Inr (addr a = addr b)"
  by (simp add: Address_eq_def)

text \<open>
  The database key of an address determines it, unless its bytes spell the name of the initial
  wallet, which no 25-byte address does.
\<close>

lemma toBdString_inj:
  assumes "toBdString a = Inr s" and "toBdString b = Inr s"
    and "addr a \<noteq> INITIAL_WALLET_TRANSACTION" and "addr b \<noteq> INITIAL_WALLET_TRANSACTION"
  shows "addr a = addr b"
  using assms by (auto simp: toBdString_def getBinaryString_def result_simps split: if_splits)

end
