(* ===== verification/FilePosition.thy ===== *)
theory FilePosition
  imports Serialize
begin

section \<open>Positions in block files (blockchain_structs/FilePosition)\<close>

text \<open>
  Where a block or a transaction is stored: the file and the offset in it. The structure is the
  first field of most records of the database, so its codec is what their round trips rest on.
\<close>

record FilePosition =
  fp_pos :: u64
  fp_fileNameRelative :: bytes

definition FilePosition_serialize :: "FilePosition \<Rightarrow> bytes result" where
  "FilePosition_serialize f =
     bindE (CHECK (fp_fileNameRelative f \<noteq> []) ''FilePosition not initialized'') (\<lambda>_.
     Inr (serializeString (fp_fileNameRelative f) @ serializeInt (fp_pos f)))"

definition FilePosition_serialize_buf :: "FilePosition \<Rightarrow> bytes \<Rightarrow> bytes result" where
  "FilePosition_serialize_buf f buffer =
     bindE (CHECK (fp_fileNameRelative f \<noteq> []) ''FilePosition not initialized'') (\<lambda>_.
     Inr (serializeInt_buf (fp_pos f) (serializeString_buf (fp_fileNameRelative f) buffer)))"

definition FilePosition_deserialize_end :: "FilePosition parser" where
  "FilePosition_deserialize_end raw from =
     bindE (deserializeString_end raw from) (\<lambda>(name, nextFrom).
     bindE (CHECK (nextFrom \<noteq> from) ''Incorrect raw '') (\<lambda>_.
     bindE (deserializeInt_end raw nextFrom) (\<lambda>(pos, nextFrom2).
     bindE (CHECK (nextFrom2 \<noteq> nextFrom) ''Incorrect raw '') (\<lambda>_.
     Inr (\<lparr>fp_pos = pos, fp_fileNameRelative = name\<rparr>, nextFrom2)))))"

definition FilePosition_deserialize :: "FilePosition parser" where
  "FilePosition_deserialize raw from =
     bindE (FilePosition_deserialize_end raw from) (\<lambda>(res, endPos).
     bindE (CHECK (endPos \<noteq> from) ''Incorrect raw'') (\<lambda>_.
     Inr (res, endPos)))"

definition FilePosition_deserialize_raw :: "bytes \<Rightarrow> FilePosition result" where
  "FilePosition_deserialize_raw raw =
     bindE (FilePosition_deserialize_end raw 0) (\<lambda>(res, tmp). Inr res)"

abbreviation fp_bytes :: "FilePosition \<Rightarrow> bytes" where
  "fp_bytes f \<equiv> serializeString (fp_fileNameRelative f) @ serializeInt (fp_pos f)"

lemma FilePosition_serialize_Inr [result_simps]:
  "FilePosition_serialize f = Inr bs \<longleftrightarrow> fp_fileNameRelative f \<noteq> [] \<and> bs = fp_bytes f"
  by (auto simp: FilePosition_serialize_def result_simps)

lemma FilePosition_serialize_buf_eq:
  "FilePosition_serialize_buf f buffer = bindE (FilePosition_serialize f) (\<lambda>bs. Inr (buffer @ bs))"
  by (simp add: FilePosition_serialize_buf_def FilePosition_serialize_def CHECK_def)

lemma FilePosition_serialize_buf_Inr [result_simps]:
  "FilePosition_serialize_buf f buffer = Inr bs \<longleftrightarrow>
     fp_fileNameRelative f \<noteq> [] \<and> bs = buffer @ fp_bytes f"
  by (auto simp: FilePosition_serialize_buf_eq result_simps)

lemma decodes_string_checked:
  "decodes (\<lambda>raw p. bindE (deserializeString_end raw p) (\<lambda>(v, e).
      bindE (CHECK (e \<noteq> p) msg) (\<lambda>_. Inr (v, e)))) (serializeString s) s"
  by (rule decodes_CHECK_moved [OF decodes_deserializeString_end])
     (use length_serializeString [of s] in fastforce)

lemma decodes_int_checked:
  "decodes (\<lambda>raw p. bindE (deserializeInt_end raw p) (\<lambda>(v, e).
      bindE (CHECK (e \<noteq> p) msg) (\<lambda>_. Inr (v, e)))) (serializeInt v) (v :: u64)"
proof (rule decodes_CHECK_moved)
  show "decodes deserializeInt_end (serializeInt v) v"
    using decodes_fromBinary [where 'a = 64, of v]
    by (simp add: decodes_def deserializeInt_end_def serializeInt_def)
  show "serializeInt v \<noteq> []"
    using length_serializeInt_u64 [of v] by fastforce
qed

lemma FilePosition_deserialize_end_eq:
  "FilePosition_deserialize_end =
     bindP (\<lambda>raw p. bindE (deserializeString_end raw p) (\<lambda>(v, e).
              bindE (CHECK (e \<noteq> p) ''Incorrect raw '') (\<lambda>_. Inr (v, e)))) (\<lambda>name.
     bindP (\<lambda>raw p. bindE (deserializeInt_end raw p) (\<lambda>(v, e).
              bindE (CHECK (e \<noteq> p) ''Incorrect raw '') (\<lambda>_. Inr (v, e)))) (\<lambda>pos.
     returnP \<lparr>fp_pos = pos, fp_fileNameRelative = name\<rparr>))"
  by (intro ext) (simp add: FilePosition_deserialize_end_def bindP_def returnP_def bindE_assoc split_def)

lemma decodes_FilePosition_end: "decodes FilePosition_deserialize_end (fp_bytes f) f"
proof -
  have "decodes FilePosition_deserialize_end (fp_bytes f)
      \<lparr>fp_pos = fp_pos f, fp_fileNameRelative = fp_fileNameRelative f\<rparr>"
    unfolding FilePosition_deserialize_end_eq
    by (rule decodes_string_checked decodes_int_checked decodes_map decodes_bind)+
  then show ?thesis by (cases f) simp
qed

lemma decodes_FilePosition [decoders]: "decodes FilePosition_deserialize (fp_bytes f) f"
  unfolding FilePosition_deserialize_def
  by (rule decodes_CHECK_moved [OF decodes_FilePosition_end])
     (use length_serializeInt_u64 [of "fp_pos f"] in fastforce)

interpretation file_position: codec FilePosition_serialize_buf FilePosition_deserialize "\<lambda>f. f"
  by unfold_locales (auto simp: FilePosition_serialize_buf_eq bindE_assoc result_simps
      intro: decodes_FilePosition)

end
