(* ===== verification/StoredRecords.thy ===== *)
theory StoredRecords
  imports Address FilePosition
begin

section \<open>Small records of the database (blockchain_structs)\<close>

text \<open>
  \<open>AddressInfo\<close>, \<open>BlocksMetadata\<close>, \<open>FileInfo\<close>, \<open>CommonBalance\<close>, \<open>ForgingSums\<close>,
  \<open>DelegateState\<close> and \<open>Token\<close>: what the workers store under the keys of the database. Members
  that C++ leaves uninitialised in a default-constructed object are \<open>0\<close> here; no statement
  below depends on that choice.
\<close>

subsection \<open>AddressInfo: one transaction of an address\<close>

record AddressInfo =
  ai_filePos :: FilePosition
  ai_blockNumber :: u64
  ai_blockIndex :: u64
  ai_undelegateValue :: "u64 option"

definition AddressInfo_make :: "u64 \<Rightarrow> bytes \<Rightarrow> u64 \<Rightarrow> u64 \<Rightarrow> AddressInfo" where
  "AddressInfo_make pos fileName blockNumber index =
     \<lparr>ai_filePos = \<lparr>fp_pos = pos, fp_fileNameRelative = fileName\<rparr>, ai_blockNumber = blockNumber,
      ai_blockIndex = index, ai_undelegateValue = None\<rparr>"

definition AddressInfo_serialize :: "AddressInfo \<Rightarrow> bytes \<Rightarrow> bytes result" where
  "AddressInfo_serialize a buffer =
     bindE (CHECK (ai_blockNumber a \<noteq> 0) ''AddressInfo not initialized'') (\<lambda>_.
     bindE (FilePosition_serialize_buf (ai_filePos a) buffer) (\<lambda>b.
     let b = serializeInt_buf (ai_blockNumber a) b;
         b = serializeInt_buf (ai_blockIndex a) b
     in Inr (case ai_undelegateValue a of None \<Rightarrow> b | Some v \<Rightarrow> serializeInt_buf v b)))"

definition AddressInfo_parser :: "AddressInfo parser" where
  "AddressInfo_parser =
     bindP FilePosition_deserialize (\<lambda>fp.
     bindP deserializeInt (\<lambda>bn.
     bindP deserializeInt (\<lambda>bi raw from.
     let a = \<lparr>ai_filePos = fp, ai_blockNumber = bn, ai_blockIndex = bi, ai_undelegateValue = None\<rparr>
     in if from < size_of raw
        then bindP deserializeInt (\<lambda>v. returnP (a\<lparr>ai_undelegateValue := Some v\<rparr>)) raw from
        else Inr (a, from))))"

definition AddressInfo_deserialize :: "bytes \<Rightarrow> AddressInfo result" where
  "AddressInfo_deserialize raw = bindE (AddressInfo_parser raw 0) (\<lambda>(result, from). Inr result)"

subsection \<open>BlocksMetadata and FileInfo: how far the database has got\<close>

record BlocksMetadata =
  bm_blockHash :: bytes
  bm_prevBlockHash :: bytes

definition BlocksMetadata_serialize :: "BlocksMetadata \<Rightarrow> bytes result" where
  "BlocksMetadata_serialize m =
     bindE (CHECK (bm_blockHash m \<noteq> []) ''Incorrect metadata'') (\<lambda>_.
     bindE (CHECK (bm_prevBlockHash m \<noteq> []) ''Incorrect metadata'') (\<lambda>_.
     Inr (serializeVector (bm_blockHash m) @ serializeVector (bm_prevBlockHash m))))"

definition BlocksMetadata_deserialize :: "bytes \<Rightarrow> BlocksMetadata result" where
  "BlocksMetadata_deserialize raw =
     (if raw = [] then Inr \<lparr>bm_blockHash = [], bm_prevBlockHash = []\<rparr>
      else bindE (bindP deserializeVector (\<lambda>h.
                  bindP deserializeVector (\<lambda>p.
                  returnP \<lparr>bm_blockHash = h, bm_prevBlockHash = p\<rparr>)) raw 0)
             (\<lambda>(result, from). Inr result))"

record FileInfo =
  fi_filePos :: FilePosition

definition FileInfo_serialize :: "FileInfo \<Rightarrow> bytes result" where
  "FileInfo_serialize f = FilePosition_serialize (fi_filePos f)"

definition FileInfo_deserialize :: "bytes \<Rightarrow> FileInfo result" where
  "FileInfo_deserialize raw =
     bindE (FilePosition_deserialize_raw raw) (\<lambda>fp. Inr \<lparr>fi_filePos = fp\<rparr>)"

subsection \<open>CommonBalance and ForgingSums\<close>

record CommonBalance =
  cb_money :: u64
  cb_blockNumber :: u64

definition CommonBalance_serialize :: "CommonBalance \<Rightarrow> bytes \<Rightarrow> bytes result" where
  "CommonBalance_serialize c buffer =
     Inr (serializeInt_buf (cb_blockNumber c) (serializeInt_buf (cb_money c) buffer))"

definition CommonBalance_deserialize :: "bytes \<Rightarrow> CommonBalance result" where
  "CommonBalance_deserialize raw =
     (if raw = [] then Inr \<lparr>cb_money = 0, cb_blockNumber = 0\<rparr>
      else bindE (bindP deserializeInt (\<lambda>m.
                  bindP deserializeInt (\<lambda>n.
                  returnP \<lparr>cb_money = m, cb_blockNumber = n\<rparr>)) raw 0)
             (\<lambda>(result, from). Inr result))"

record ForgingSums =
  fs_sums :: "(u64 \<times> u64) list"
  fs_blockNumber :: u64

definition ForgingSums_default :: ForgingSums where
  "ForgingSums_default = \<lparr>fs_sums = [], fs_blockNumber = 0\<rparr>"

definition ForgingSums_serialize :: "ForgingSums \<Rightarrow> bytes" where
  "ForgingSums_serialize f =
     serializeInt (of_nat (length (fs_sums f)) :: u64) @
     concat (map (\<lambda>(key, value). serializeInt key @ serializeInt value) (fs_sums f)) @
     serializeInt (fs_blockNumber f)"

definition ForgingSums_parser :: "ForgingSums parser" where
  "ForgingSums_parser =
     bindP deserializeInt (\<lambda>size.
     bindP (repeatP (unat (size :: u64)) (\<lambda>sums.
              bindP deserializeInt (\<lambda>key.
              bindP deserializeInt (\<lambda>value.
              returnP (emplace key value sums)))) []) (\<lambda>sums.
     bindP deserializeInt (\<lambda>bn.
     returnP \<lparr>fs_sums = sums, fs_blockNumber = bn\<rparr>)))"

definition ForgingSums_deserialize :: "bytes \<Rightarrow> ForgingSums result" where
  "ForgingSums_deserialize raw =
     (if raw = [] then Inr ForgingSums_default
      else bindE (ForgingSums_parser raw 0) (\<lambda>(state, from). Inr state))"

definition ForgingSums_plus :: "ForgingSums \<Rightarrow> ForgingSums \<Rightarrow> ForgingSums" where
  "ForgingSums_plus a second =
     \<lparr>fs_sums = fold (\<lambda>(key, value) sums. AList.update key (get_or 0 sums key + value) sums)
                  (fs_sums second) (fs_sums a),
      fs_blockNumber = max (fs_blockNumber a) (fs_blockNumber second)\<rparr>"

subsection \<open>DelegateState and Token\<close>

record DelegateState =
  ds_value :: u64
  ds_hash :: bytes

definition DelegateState_default :: DelegateState where
  "DelegateState_default = \<lparr>ds_value = 0, ds_hash = []\<rparr>"

definition DelegateState_serialize :: "DelegateState \<Rightarrow> bytes \<Rightarrow> bytes result" where
  "DelegateState_serialize d buffer =
     bindE (CHECK (ds_hash d \<noteq> []) ''DelegateState not initialized'') (\<lambda>_.
     Inr (serializeString_buf (ds_hash d) (serializeInt_buf (ds_value d) buffer)))"

definition DelegateState_parser :: "DelegateState parser" where
  "DelegateState_parser =
     bindP deserializeInt (\<lambda>v. bindP deserializeString (\<lambda>h. returnP \<lparr>ds_value = v, ds_hash = h\<rparr>))"

definition DelegateState_deserialize :: "bytes \<Rightarrow> DelegateState result" where
  "DelegateState_deserialize raw =
     (if raw = [] then Inr DelegateState_default
      else bindE (DelegateState_parser raw 0) (\<lambda>(state, from). Inr state))"

record Token =
  tk_type :: bytes
  tk_owner :: Address
  tk_decimals :: u32
  tk_beginValue :: u64
  tk_allValue :: u64
  tk_symbol :: bytes
  tk_name :: bytes
  tk_emission :: bool
  tk_txHash :: bytes

definition Token_default :: Token where
  "Token_default = \<lparr>tk_type = [], tk_owner = Address_default, tk_decimals = 0, tk_beginValue = 0,
     tk_allValue = 0, tk_symbol = [], tk_name = [], tk_emission = False, tk_txHash = []\<rparr>"

definition Token_serialize :: "Token \<Rightarrow> bytes \<Rightarrow> bytes result" where
  "Token_serialize t buffer =
     bindE (toBdString (tk_owner t)) (\<lambda>owner.
     let b = serializeString_buf (tk_type t) buffer;
         b = serializeString_buf owner b;
         b = serializeInt_buf (tk_decimals t) b;
         b = serializeInt_buf (tk_beginValue t) b;
         b = serializeInt_buf (tk_allValue t) b;
         b = serializeString_buf (tk_symbol t) b;
         b = serializeString_buf (tk_name t) b;
         b = serializeInt_buf (if tk_emission t then 1 else 0 :: byte) b
     in Inr (serializeString_buf (tk_txHash t) b))"

definition Token_parser :: "Token parser" where
  "Token_parser =
     bindP deserializeString (\<lambda>type.
     bindP deserializeString (\<lambda>owner.
     bindP deserializeInt (\<lambda>decimals.
     bindP deserializeInt (\<lambda>beginValue.
     bindP deserializeInt (\<lambda>allValue.
     bindP deserializeString (\<lambda>symbol.
     bindP deserializeString (\<lambda>name.
     bindP deserializeInt (\<lambda>emission.
     bindP deserializeString (\<lambda>txHash.
     returnP \<lparr>tk_type = type, tk_owner = Address_of_range owner, tk_decimals = decimals,
       tk_beginValue = beginValue, tk_allValue = allValue, tk_symbol = symbol, tk_name = name,
       tk_emission = (emission = (1 :: byte)), tk_txHash = txHash\<rparr>)))))))))"

definition Token_deserialize :: "bytes \<Rightarrow> Token result" where
  "Token_deserialize raw =
     (if raw = [] then Inr Token_default
      else bindE (Token_parser raw 0) (\<lambda>(result, from). Inr result))"

subsection \<open>Round trips\<close>

lemma AddressInfo_serialize_Inr [result_simps]:
  "AddressInfo_serialize a buffer = Inr bs \<longleftrightarrow>
     ai_blockNumber a \<noteq> 0 \<and> fp_fileNameRelative (ai_filePos a) \<noteq> [] \<and>
     bs = buffer @ fp_bytes (ai_filePos a) @ serializeInt (ai_blockNumber a) @
       serializeInt (ai_blockIndex a) @
       (case ai_undelegateValue a of None \<Rightarrow> [] | Some v \<Rightarrow> serializeInt v)"
  by (auto simp: AddressInfo_serialize_def Let_def result_simps split: option.splits)

lemma decodes_all_AddressInfo_tail:
  fixes u :: "u64 option"
  shows "decodes_all (\<lambda>raw from. let a = \<lparr>ai_filePos = fp, ai_blockNumber = bn, ai_blockIndex = bi,
        ai_undelegateValue = None\<rparr>
      in if from < size_of raw
         then bindP deserializeInt (\<lambda>v. returnP (a\<lparr>ai_undelegateValue := Some v\<rparr>)) raw from
         else Inr (a, from))
    (case u of None \<Rightarrow> [] | Some v \<Rightarrow> serializeInt v)
    \<lparr>ai_filePos = fp, ai_blockNumber = bn, ai_blockIndex = bi, ai_undelegateValue = u\<rparr>"
proof (cases u)
  case None
  then show ?thesis
    by (simp add: decodes_all_def at_size_less)
next
  case (Some v)
  have ne: "serializeInt v \<noteq> []"
    using length_serializeInt_u64 [of v] by fastforce
  show ?thesis
    using decodes_allD [OF decodes_imp_all [OF decodes_map [OF decodes_u64 [of v], where f = "\<lambda>v.
          \<lparr>ai_filePos = fp, ai_blockNumber = bn, ai_blockIndex = bi, ai_undelegateValue = Some v\<rparr>"]]]
    by (simp add: decodes_all_def at_size_less Some ne Let_def)
qed

lemma decodes_AddressInfo:
  assumes "AddressInfo_serialize a [] = Inr bs"
  shows "decodes_all AddressInfo_parser bs a"
proof -
  have "decodes_all AddressInfo_parser
     (fp_bytes (ai_filePos a) @ serializeInt (ai_blockNumber a) @ serializeInt (ai_blockIndex a) @
       (case ai_undelegateValue a of None \<Rightarrow> [] | Some v \<Rightarrow> serializeInt v))
     \<lparr>ai_filePos = ai_filePos a, ai_blockNumber = ai_blockNumber a, ai_blockIndex = ai_blockIndex a,
       ai_undelegateValue = ai_undelegateValue a\<rparr>"
    unfolding AddressInfo_parser_def append_assoc
    using decodes_bind_all [OF decodes_FilePosition decodes_bind_all [OF decodes_u64
          decodes_bind_all [OF decodes_u64 decodes_all_AddressInfo_tail]]]
    by (simp add: append_assoc)
  then show ?thesis
    using assms by (cases a) (simp add: result_simps)
qed

lemma decodes_Token:
  assumes "toBdString (tk_owner t) = Inr owner"
  shows "decodes Token_parser
     (serializeString (tk_type t) @ serializeString owner @ serializeInt (tk_decimals t) @
      serializeInt (tk_beginValue t) @ serializeInt (tk_allValue t) @ serializeString (tk_symbol t) @
      serializeString (tk_name t) @ serializeInt (if tk_emission t then 1 else 0 :: byte) @
      serializeString (tk_txHash t)) (t\<lparr>tk_owner := Address_of_range owner\<rparr>)"
proof -
  have "decodes Token_parser
     (serializeString (tk_type t) @ serializeString owner @ serializeInt (tk_decimals t) @
      serializeInt (tk_beginValue t) @ serializeInt (tk_allValue t) @ serializeString (tk_symbol t) @
      serializeString (tk_name t) @ serializeInt (if tk_emission t then 1 else 0 :: byte) @
      serializeString (tk_txHash t))
     \<lparr>tk_type = tk_type t, tk_owner = Address_of_range owner, tk_decimals = tk_decimals t,
       tk_beginValue = tk_beginValue t, tk_allValue = tk_allValue t, tk_symbol = tk_symbol t,
       tk_name = tk_name t, tk_emission = ((if tk_emission t then 1 else 0 :: byte) = 1),
       tk_txHash = tk_txHash t\<rparr>"
    unfolding Token_parser_def
    by (rule decodes_string decodes_u64 decodes_u32 decodes_byte decodes_map decodes_bind)+
  then show ?thesis
    by (cases t; cases "tk_emission t") simp_all
qed

lemma decodes_ForgingSums:
  assumes "distinct (map fst (fs_sums f))" and "length (fs_sums f) < 2 ^ 64"
  shows "decodes ForgingSums_parser (ForgingSums_serialize f) f"
proof -
  let ?step = "\<lambda>sums. bindP deserializeInt (\<lambda>key. bindP deserializeInt (\<lambda>value.
                 returnP (emplace key (value :: u64) (sums :: (u64 \<times> u64) list))))"
  have step: "decodes (?step s) ((\<lambda>(k, v). serializeInt k @ serializeInt v) x) ((\<lambda>(k, v). emplace k v) x s)"
    for s x
    by (cases x, simp, (rule decodes_u64 decodes_map decodes_bind)+)
  have loop: "decodes (repeatP (unat (of_nat (length (fs_sums f)) :: u64)) ?step [])
      (concat (map (\<lambda>(k, v). serializeInt k @ serializeInt v) (fs_sums f))) (fs_sums f)"
    using decodes_repeatP [of ?step "\<lambda>(k, v). serializeInt k @ serializeInt v" "\<lambda>(k, v). emplace k v",
        OF step, of "fs_sums f" "[]"] assms
    by (simp add: fold_emplace_distinct unat_of_nat)
  have "decodes ForgingSums_parser (ForgingSums_serialize f)
      \<lparr>fs_sums = fs_sums f, fs_blockNumber = fs_blockNumber f\<rparr>"
    unfolding ForgingSums_parser_def ForgingSums_serialize_def
    by (rule decodes_u64 loop decodes_map decodes_bind)+
  then show ?thesis
    by (cases f) simp
qed

lemma map_of_fold_add:
  fixes ys :: "(u64 \<times> u64) list"
  assumes "distinct (map fst ys)"
  shows "get_or 0 (fold (\<lambda>(key, value) sums. AList.update key (get_or 0 sums key + value) sums) ys xs) k
     = get_or 0 xs k + get_or 0 ys k"
  using assms
proof (induction ys arbitrary: xs)
  case Nil
  then show ?case by (simp add: get_or_def)
next
  case (Cons y ys)
  obtain k' v where y: "y = (k', v)" by force
  have "get_or 0 ys k' = 0"
    using Cons.prems y by (force simp: get_or_def split: option.splits dest: map_of_SomeD)
  then show ?case
    using Cons.IH [of "AList.update k' (get_or 0 xs k' + v) xs"] Cons.prems y
    by (auto simp: get_or_def)
qed

end
