(* ===== verification/TransactionInfo.thy ===== *)
theory TransactionInfo
  imports StoredRecords
begin

section \<open>Transactions and their statuses (blockchain_structs/TransactionInfo)\<close>

text \<open>
  The parsed form of a transaction, the status the node computes for delegation and script
  transactions, and the classification of the status codes the network writes into a block.
\<close>

subsection \<open>TransactionStatus\<close>

datatype StatusVariant =
    Monostate
  | Delegate
  | UnDelegate (ud_value: u64) (ud_delegateHash: bytes)
  | V8Status (v8_isServerError: bool) (v8_isScriptError: bool) (v8_compiledContractAddress: Address)

record TransactionStatus =
  ts_isSuccess :: bool
  ts_transaction :: bytes
  ts_blockNumber :: u64
  ts_status :: StatusVariant

fun status_index :: "StatusVariant \<Rightarrow> u64" where
  "status_index Monostate = 0"
| "status_index Delegate = 1"
| "status_index (UnDelegate _ _) = 2"
| "status_index (V8Status _ _ _) = 3"

definition UnDelegate_serialize :: "u64 \<Rightarrow> bytes \<Rightarrow> bytes \<Rightarrow> bytes" where
  "UnDelegate_serialize value delegateHash buffer =
     serializeString_buf delegateHash (serializeInt_buf value buffer)"

definition UnDelegate_deserialize :: "StatusVariant parser" where
  "UnDelegate_deserialize =
     bindP deserializeInt (\<lambda>value. bindP deserializeString (\<lambda>h. returnP (UnDelegate value h)))"

definition byte_of_bool :: "bool \<Rightarrow> byte" where
  "byte_of_bool b = (if b then 1 else 0)"

definition V8Status_serialize :: "bool \<Rightarrow> bool \<Rightarrow> Address \<Rightarrow> bytes \<Rightarrow> bytes result" where
  "V8Status_serialize isServerError isScriptError address buffer =
     (let b = serializeInt_buf (byte_of_bool isServerError) buffer;
          b = serializeInt_buf (byte_of_bool isScriptError) b
      in bindE (isEmpty address) (\<lambda>e.
         if \<not> e then bindE (getBinaryString address) (\<lambda>s. Inr (serializeString_buf s b))
         else Inr (serializeString_buf [] b)))"

definition V8Status_deserialize :: "StatusVariant parser" where
  "V8Status_deserialize =
     bindP deserializeInt (\<lambda>serverError.
     bindP deserializeInt (\<lambda>scriptError.
     bindP deserializeString (\<lambda>addressString.
     returnP (V8Status (serverError \<noteq> (0 :: byte)) (scriptError \<noteq> (0 :: byte))
       (if addressString \<noteq> [] then Address_of_range addressString
        else setEmpty Address_default)))))"

fun status_serialize :: "StatusVariant \<Rightarrow> bytes \<Rightarrow> bytes result" where
  "status_serialize Monostate buffer = Inr buffer"
| "status_serialize Delegate buffer = Inr buffer"
| "status_serialize (UnDelegate v h) buffer = Inr (UnDelegate_serialize v h buffer)"
| "status_serialize (V8Status s c a) buffer = V8Status_serialize s c a buffer"

definition TransactionStatus_serialize :: "TransactionStatus \<Rightarrow> bytes \<Rightarrow> bytes result" where
  "TransactionStatus_serialize t buffer =
     (let b = serializeInt_buf (byte_of_bool (ts_isSuccess t)) buffer;
          b = serializeInt_buf (ts_blockNumber t) b;
          b = serializeString_buf (ts_transaction t) b
      in bindE (CHECK (status_index (ts_status t) \<noteq> 0) ''Status not set'') (\<lambda>_.
         serializeVariant (status_index (ts_status t)) (status_serialize (ts_status t)) b))"

definition status_parsers :: "StatusVariant parser list" where
  "status_parsers =
     [returnP Monostate, returnP Delegate, UnDelegate_deserialize, V8Status_deserialize]"

definition TransactionStatus_parser :: "TransactionStatus parser" where
  "TransactionStatus_parser =
     bindP deserializeInt (\<lambda>isSuccess.
     bindP deserializeInt (\<lambda>blockNumber.
     bindP deserializeString (\<lambda>transaction.
     bindP (deserializeVarint status_parsers) (\<lambda>status raw from.
     bindE (CHECK (status_index status \<noteq> 0) ''Incorrect deserialize'') (\<lambda>_.
     Inr (\<lparr>ts_isSuccess = (isSuccess \<noteq> (0 :: byte)), ts_transaction = transaction,
        ts_blockNumber = blockNumber, ts_status = status\<rparr>, from))))))"

definition TransactionStatus_deserialize :: "bytes \<Rightarrow> TransactionStatus result" where
  "TransactionStatus_deserialize raw =
     bindE (TransactionStatus_parser raw 0) (\<lambda>(result, from). Inr result)"

subsection \<open>TransactionInfo\<close>

record DelegateInfo =
  di_value :: u64
  di_isDelegate :: bool

datatype ScriptType = compile | run | pay | unknown

record ScriptInfo =
  si_txRaw :: bytes
  si_type :: ScriptType

record CreateToken =
  ct_type :: bytes
  ct_owner :: Address
  ct_decimals :: u32
  ct_value :: u64
  ct_symbol :: bytes
  ct_name :: bytes
  ct_emission :: bool
  ct_beginDistribution :: "(Address \<times> u64) list"

datatype TokenInfo =
    Create CreateToken
  | ChangeOwner (newOwner: Address)
  | ChangeEmission (newEmission: bool)
  | AddTokens (at_toAddress: Address) (at_value: u64)
  | MoveTokens (mt_toAddress: Address) (mt_value: u64)
  | BurnTokens (bt_value: u64)

record TransactionInfo =
  tx_hash :: bytes
  tx_fromAddress :: Address
  tx_toAddress :: Address
  tx_value :: u64
  tx_fees :: u64
  tx_nonce :: u64
  tx_blockNumber :: u64
  tx_blockIndex :: u64
  tx_sizeRawTx :: u64
  tx_isSignBlockTx :: bool
  tx_isModuleNotSet :: bool
  tx_intStatus :: "u64 option"
  tx_sign :: bytes
  tx_pubKey :: bytes
  tx_data :: bytes
  tx_allRawTx :: bytes
  tx_filePos :: FilePosition
  tx_delegate :: "DelegateInfo option"
  tx_scriptInfo :: "ScriptInfo option"
  tx_tokenInfo :: "TokenInfo option"
  tx_status :: "TransactionStatus option"

definition TransactionInfo_default :: TransactionInfo where
  "TransactionInfo_default = \<lparr>tx_hash = [], tx_fromAddress = Address_default,
     tx_toAddress = Address_default, tx_value = 0, tx_fees = 0, tx_nonce = 0, tx_blockNumber = 0,
     tx_blockIndex = 0, tx_sizeRawTx = 0, tx_isSignBlockTx = False, tx_isModuleNotSet = False,
     tx_intStatus = None, tx_sign = [], tx_pubKey = [], tx_data = [], tx_allRawTx = [],
     tx_filePos = \<lparr>fp_pos = 0, fp_fileNameRelative = []\<rparr>, tx_delegate = None,
     tx_scriptInfo = None, tx_tokenInfo = None, tx_status = None\<rparr>"

definition TX_STATE_WRONG_MONEY :: u64 where "TX_STATE_WRONG_MONEY = 30"
definition TX_STATE_WRONG_DATA :: u64 where "TX_STATE_WRONG_DATA = 40"
definition TX_STATE_FORGING :: u64 where "TX_STATE_FORGING = 100"
definition TX_STATE_FORGING_W :: u64 where "TX_STATE_FORGING_W = 101"
definition TX_STATE_FORGING_N :: u64 where "TX_STATE_FORGING_N = 102"
definition TX_STATE_FORGING_C :: u64 where "TX_STATE_FORGING_C = 103"
definition TX_STATE_FORGING_A :: u64 where "TX_STATE_FORGING_A = 104"
definition TX_STATE_TECH_NODE_STAT :: u64 where "TX_STATE_TECH_NODE_STAT = 0x1101"

lemmas tx_state_defs = TX_STATE_WRONG_MONEY_def TX_STATE_WRONG_DATA_def TX_STATE_FORGING_def
  TX_STATE_FORGING_W_def TX_STATE_FORGING_N_def TX_STATE_FORGING_C_def TX_STATE_FORGING_A_def
  TX_STATE_TECH_NODE_STAT_def

definition TransactionInfo_serialize :: "TransactionInfo \<Rightarrow> bytes \<Rightarrow> bytes result" where
  "TransactionInfo_serialize tx buffer =
     bindE (CHECK (tx_blockNumber tx \<noteq> 0) ''block number not setted'') (\<lambda>_.
     bindE (FilePosition_serialize_buf (tx_filePos tx) buffer) (\<lambda>b.
     Inr (serializeInt_buf (tx_blockIndex tx) (serializeInt_buf (tx_blockNumber tx) b))))"

definition TransactionInfo_parser :: "TransactionInfo parser" where
  "TransactionInfo_parser =
     bindP FilePosition_deserialize (\<lambda>fp.
     bindP deserializeInt (\<lambda>bn.
     bindP deserializeInt (\<lambda>bi.
     returnP (TransactionInfo_default\<lparr>tx_filePos := fp, tx_blockNumber := bn, tx_blockIndex := bi\<rparr>))))"

definition TransactionInfo_deserialize :: "bytes \<Rightarrow> TransactionInfo result" where
  "TransactionInfo_deserialize raw =
     bindE (TransactionInfo_parser raw 0) (\<lambda>(result, from). Inr result)"

definition realFee :: "TransactionInfo \<Rightarrow> u64 result" where
  "realFee tx =
     bindE (CHECK (tx_sizeRawTx tx > 0) ''Size raw tx not set'') (\<lambda>_.
     Inr (min (if tx_sizeRawTx tx > 255 then tx_sizeRawTx tx - 255 else 0) (tx_fees tx)))"

definition isStatusNeed :: "TransactionInfo \<Rightarrow> bool" where
  "isStatusNeed tx = (tx_delegate tx \<noteq> None \<or> tx_scriptInfo tx \<noteq> None)"

definition isIntStatusNoBalance :: "TransactionInfo \<Rightarrow> bool" where
  "isIntStatusNoBalance tx = (tx_intStatus tx = Some TX_STATE_WRONG_MONEY)"

definition isIntStatusNotSuccess :: "TransactionInfo \<Rightarrow> bool" where
  "isIntStatusNotSuccess tx =
     (tx_intStatus tx = Some TX_STATE_WRONG_MONEY \<or> tx_intStatus tx = Some TX_STATE_WRONG_DATA)"

text \<open>The \<open>std::set\<close> of forging statuses, in its iteration order.\<close>

definition getForgingIntStatuses :: "u64 list" where
  "getForgingIntStatuses = [TX_STATE_FORGING, TX_STATE_FORGING_W, TX_STATE_FORGING_N,
     TX_STATE_FORGING_C, TX_STATE_FORGING_A]"

definition isIntStatusForging :: "TransactionInfo \<Rightarrow> bool" where
  "isIntStatusForging tx =
     (case tx_intStatus tx of None \<Rightarrow> False | Some s \<Rightarrow> s \<in> set getForgingIntStatuses)"

definition isIntStatusNodeTest :: "TransactionInfo \<Rightarrow> bool" where
  "isIntStatusNodeTest tx = (tx_intStatus tx = Some TX_STATE_TECH_NODE_STAT)"

subsection \<open>Round trips and classification\<close>

text \<open>What the status format keeps of a status: the contract address without its wallet flag.\<close>

fun status_proj :: "StatusVariant \<Rightarrow> StatusVariant" where
  "status_proj (V8Status s c a) =
     V8Status s c (if addr a = [] then setEmpty Address_default else Address_of_range (addr a))"
| "status_proj v = v"

definition TransactionStatus_proj :: "TransactionStatus \<Rightarrow> TransactionStatus" where
  "TransactionStatus_proj t = t\<lparr>ts_status := status_proj (ts_status t)\<rparr>"

lemma byte_of_bool_neq_0 [simp]: "byte_of_bool b \<noteq> 0 \<longleftrightarrow> b" "0 \<noteq> byte_of_bool b \<longleftrightarrow> b"
  by (simp_all add: byte_of_bool_def)

lemma status_index_proj [simp]: "status_index (status_proj v) = status_index v"
  by (cases v) auto

lemma V8Status_serialize_eq:
  "V8Status_serialize s c a buffer =
     bindE (CHECK (isSet a) ''Address not set'') (\<lambda>_.
     Inr (buffer @ serializeInt (byte_of_bool s) @ serializeInt (byte_of_bool c) @ serializeString (addr a)))"
  by (simp add: V8Status_serialize_def Let_def isEmpty_def getBinaryString_def CHECK_def)

lemma status_serialize_append:
  "status_serialize v buffer = bindE (status_serialize v []) (\<lambda>bs. Inr (buffer @ bs))"
  by (cases v) (auto simp: UnDelegate_serialize_def V8Status_serialize_eq CHECK_def)

lemma decodes_UnDelegate:
  "decodes UnDelegate_deserialize (serializeInt v @ serializeString h) (UnDelegate v h)"
  unfolding UnDelegate_deserialize_def
  by (rule decodes_u64 decodes_string decodes_map decodes_bind)+

lemma decodes_V8Status:
  "decodes V8Status_deserialize
     (serializeInt (byte_of_bool s) @ serializeInt (byte_of_bool c) @ serializeString (addr a))
     (status_proj (V8Status s c a))"
proof -
  have "decodes V8Status_deserialize
     (serializeInt (byte_of_bool s) @ serializeInt (byte_of_bool c) @ serializeString (addr a))
     (V8Status (byte_of_bool s \<noteq> 0) (byte_of_bool c \<noteq> 0)
       (if addr a \<noteq> [] then Address_of_range (addr a) else setEmpty Address_default))"
    unfolding V8Status_deserialize_def
    by (rule decodes_byte decodes_string decodes_map decodes_bind)+
  then show ?thesis
    by (simp split: if_splits)
qed

lemma status_parsers_nth:
  "status_parsers ! 0 = returnP Monostate" "status_parsers ! 1 = returnP Delegate"
  "status_parsers ! 2 = UnDelegate_deserialize" "status_parsers ! 3 = V8Status_deserialize"
  by (simp_all add: status_parsers_def numeral_2_eq_2 numeral_3_eq_3)

lemma unat_status_index:
  "unat (status_index v) = (case v of Monostate \<Rightarrow> 0 | Delegate \<Rightarrow> 1 | UnDelegate _ _ \<Rightarrow> 2 | V8Status _ _ _ \<Rightarrow> 3)"
  by (cases v) simp_all

lemma decodes_status:
  assumes "status_serialize v [] = Inr bs"
  shows "decodes (deserializeVarint status_parsers) (serializeInt (status_index v) @ bs) (status_proj v)"
proof (rule decodes_varint)
  show "unat (status_index v) < length status_parsers"
    by (cases v) (simp_all add: status_parsers_def)
  show "decodes (status_parsers ! unat (status_index v)) bs (status_proj v)"
  proof (cases v)
    case (V8Status s c a)
    then have "bs = serializeInt (byte_of_bool s) @ serializeInt (byte_of_bool c) @ serializeString (addr a)"
      using assms by (simp add: V8Status_serialize_eq result_simps)
    then show ?thesis
      unfolding unat_status_index V8Status using decodes_V8Status by (simp add: status_parsers_nth)
  next
    case (UnDelegate n h)
    then show ?thesis
      using assms decodes_UnDelegate [of n h]
      by (simp add: unat_status_index status_parsers_nth UnDelegate_serialize_def)
  next
    case Delegate
    then show ?thesis
      using assms decodes_return by (simp add: unat_status_index status_parsers_nth del: One_nat_def)
  next
    case Monostate
    then show ?thesis
      using assms decodes_return by (simp add: unat_status_index status_parsers_nth)
  qed
qed

lemma decodes_TransactionStatus:
  assumes "TransactionStatus_serialize t [] = Inr bs"
  shows "decodes TransactionStatus_parser bs (TransactionStatus_proj t)"
proof -
  let ?hd = "serializeInt (byte_of_bool (ts_isSuccess t)) @ serializeInt (ts_blockNumber t) @
        serializeString (ts_transaction t) @ serializeInt (status_index (ts_status t))"
  obtain vs where idx: "status_index (ts_status t) \<noteq> 0"
    and vs: "status_serialize (ts_status t) [] = Inr vs" and bs: "bs = ?hd @ vs"
    using assms
    by (simp add: TransactionStatus_serialize_def serializeVariant_def Let_def result_simps
        status_serialize_append [of "ts_status t" "?hd", simplified]) blast
  let ?r = "\<lparr>ts_isSuccess = (byte_of_bool (ts_isSuccess t) \<noteq> 0), ts_transaction = ts_transaction t,
        ts_blockNumber = ts_blockNumber t, ts_status = status_proj (ts_status t)\<rparr>"
  have tail: "decodes (bindP (deserializeVarint status_parsers) (\<lambda>status raw from.
       bindE (CHECK (status_index status \<noteq> 0) ''Incorrect deserialize'') (\<lambda>_.
       Inr (\<lparr>ts_isSuccess = (byte_of_bool (ts_isSuccess t) \<noteq> 0), ts_transaction = ts_transaction t,
        ts_blockNumber = ts_blockNumber t, ts_status = status\<rparr>, from))))
     (serializeInt (status_index (ts_status t)) @ vs) ?r"
    by (rule decodes_bind_CHECK [OF decodes_status [OF vs]]) (simp add: idx)
  have "decodes TransactionStatus_parser bs ?r"
    unfolding TransactionStatus_parser_def bs append_assoc
    by (rule decodes_byte decodes_u64 decodes_string tail decodes_bind)+
  then show ?thesis
    by (cases t) (simp add: TransactionStatus_proj_def)
qed

lemma TransactionStatus_serialize_append:
  "TransactionStatus_serialize t buffer =
     bindE (TransactionStatus_serialize t []) (\<lambda>bs. Inr (buffer @ bs))"
proof -
  have "status_serialize (ts_status t) (buffer @ b) =
      bindE (status_serialize (ts_status t) b) (\<lambda>bs. Inr (buffer @ bs))" for b
    using status_serialize_append [of "ts_status t" "buffer @ b"]
      status_serialize_append [of "ts_status t" b] by (simp add: bindE_assoc)
  then show ?thesis
    by (simp add: TransactionStatus_serialize_def serializeVariant_def Let_def CHECK_def)
qed

interpretation transaction_status:
  codec TransactionStatus_serialize TransactionStatus_parser TransactionStatus_proj
  by unfold_locales (rule TransactionStatus_serialize_append, rule decodes_TransactionStatus)

definition TransactionInfo_proj :: "TransactionInfo \<Rightarrow> TransactionInfo" where
  "TransactionInfo_proj tx = TransactionInfo_default\<lparr>tx_filePos := tx_filePos tx,
     tx_blockNumber := tx_blockNumber tx, tx_blockIndex := tx_blockIndex tx\<rparr>"

lemma decodes_TransactionInfo:
  "decodes TransactionInfo_parser
     (fp_bytes (tx_filePos tx) @ serializeInt (tx_blockNumber tx) @ serializeInt (tx_blockIndex tx))
     (TransactionInfo_proj tx)"
  unfolding TransactionInfo_parser_def TransactionInfo_proj_def
  by (rule decodes_FilePosition decodes_u64 decodes_map decodes_bind)+

interpretation transaction_info:
  codec TransactionInfo_serialize TransactionInfo_parser TransactionInfo_proj
  using decodes_TransactionInfo
  by unfold_locales (auto simp: TransactionInfo_serialize_def result_simps bindE_assoc
      FilePosition_serialize_buf_eq FilePosition_serialize_def CHECK_def split: if_splits)

lemma realFee_le_fees: "realFee tx = Inr f \<Longrightarrow> f \<le> tx_fees tx"
  by (auto simp: realFee_def result_simps)

lemma realFee_small: "0 < tx_sizeRawTx tx \<Longrightarrow> tx_sizeRawTx tx \<le> 255 \<Longrightarrow> realFee tx = Inr 0"
  by (simp add: realFee_def leD min_def)

end
