(* ===== verification/BlockInfo.thy ===== *)
theory BlockInfo
  imports TransactionInfo
begin

section \<open>Block headers (blockchain_structs/BlockInfo, SignBlock, RejectedTxsBlock)\<close>

text \<open>
  The headers of the three kinds of blocks a file can hold (transaction blocks, signature
  blocks, blocks of rejected transactions), with their formats in the database. The number of
  a block is not stored: \<open>BlockChain\<close> computes it from the links.
\<close>

subsection \<open>Transaction blocks\<close>

record BlockHeader =
  bh_timestamp :: u64
  bh_blockSize :: u64
  bh_blockType :: u64
  bh_hash :: bytes
  bh_prevHash :: bytes
  bh_txsHash :: bytes
  bh_signature :: bytes
  bh_countTxs :: u64
  bh_countSignTx :: u64
  bh_filePos :: FilePosition
  bh_blockNumber :: "u64 option"
  bh_senderSign :: bytes
  bh_senderPubkey :: bytes
  bh_senderAddress :: bytes

definition BlockHeader_default :: BlockHeader where
  "BlockHeader_default = \<lparr>bh_timestamp = 0, bh_blockSize = 0, bh_blockType = 0, bh_hash = [],
     bh_prevHash = [], bh_txsHash = [], bh_signature = [], bh_countTxs = 0, bh_countSignTx = 0,
     bh_filePos = \<lparr>fp_pos = 0, fp_fileNameRelative = []\<rparr>, bh_blockNumber = None,
     bh_senderSign = [], bh_senderPubkey = [], bh_senderAddress = []\<rparr>"

definition BLOCK_TYPE :: u64 where "BLOCK_TYPE = 0xEFCDAB8967452301"
definition BLOCK_TYPE_COMMON :: u64 where "BLOCK_TYPE_COMMON = 0x0000000067452301"
definition BLOCK_TYPE_STATE :: u64 where "BLOCK_TYPE_STATE = 0x1100000067452301"
definition BLOCK_TYPE_FORGING :: u64 where "BLOCK_TYPE_FORGING = 0x2200000067452301"
definition BLOCK_TYPE_COMMON_2 :: u64 where "BLOCK_TYPE_COMMON_2 = 0x0001000067452301"
definition BLOCK_TYPE_STATE_2 :: u64 where "BLOCK_TYPE_STATE_2 = 0x1101000067452301"
definition BLOCK_TYPE_FORGING_2 :: u64 where "BLOCK_TYPE_FORGING_2 = 0x2201000067452301"

lemmas block_type_defs = BLOCK_TYPE_def BLOCK_TYPE_COMMON_def BLOCK_TYPE_STATE_def
  BLOCK_TYPE_FORGING_def BLOCK_TYPE_COMMON_2_def BLOCK_TYPE_STATE_2_def BLOCK_TYPE_FORGING_2_def

definition isStateBlock :: "BlockHeader \<Rightarrow> bool" where
  "isStateBlock b = (bh_blockType b = BLOCK_TYPE_STATE \<or> bh_blockType b = BLOCK_TYPE_STATE_2)"

definition isSimpleBlock :: "BlockHeader \<Rightarrow> bool" where
  "isSimpleBlock b = (bh_blockType b = BLOCK_TYPE \<or> bh_blockType b = BLOCK_TYPE_COMMON \<or>
     bh_blockType b = BLOCK_TYPE_COMMON_2)"

definition isForgingBlock :: "BlockHeader \<Rightarrow> bool" where
  "isForgingBlock b = (bh_blockType b = BLOCK_TYPE_FORGING \<or> bh_blockType b = BLOCK_TYPE_FORGING_2)"

definition getBlockType :: "BlockHeader \<Rightarrow> string result" where
  "getBlockType b =
     (if isStateBlock b then Inr ''state''
      else if isSimpleBlock b then Inr ''block''
      else if isForgingBlock b then Inr ''forging''
      else Inl (Check ''Unknown block type ''))"

definition BlockHeader_endBlockPos :: "BlockHeader \<Rightarrow> u64 result" where
  "BlockHeader_endBlockPos b =
     bindE (CHECK (bh_blockSize b \<noteq> 0) ''Incorrect block size'') (\<lambda>_.
     Inr (fp_pos (bh_filePos b) + bh_blockSize b + 8))"

definition BlockHeader_serialize :: "BlockHeader \<Rightarrow> bytes result" where
  "BlockHeader_serialize b =
     bindE (CHECK (bh_hash b \<noteq> []) ''empty hash'') (\<lambda>_.
     bindE (CHECK (bh_prevHash b \<noteq> []) ''empty prevHash'') (\<lambda>_.
     bindE (CHECK (bh_txsHash b \<noteq> []) ''empty txsHash'') (\<lambda>_.
     bindE (CHECK (bh_blockSize b \<noteq> 0) ''BlockHeader not initialized'') (\<lambda>_.
     bindE (CHECK (bh_blockType b \<noteq> 0) ''BlockHeader not initialized'') (\<lambda>_.
     bindE (FilePosition_serialize (bh_filePos b)) (\<lambda>fp.
     Inr (fp @ serializeVector (bh_prevHash b) @ serializeVector (bh_hash b) @
       serializeVector (bh_txsHash b) @ serializeString (bh_signature b) @
       serializeInt (bh_blockSize b) @ serializeInt (bh_blockType b) @
       serializeInt (bh_timestamp b) @ serializeInt (bh_countTxs b) @
       serializeInt (bh_countSignTx b) @ serializeString (bh_senderSign b) @
       serializeString (bh_senderPubkey b) @ serializeString (bh_senderAddress b))))))))"

definition BlockHeader_parser :: "BlockHeader parser" where
  "BlockHeader_parser =
     bindP FilePosition_deserialize (\<lambda>fp.
     bindP deserializeVector (\<lambda>prevHash.
     bindP deserializeVector (\<lambda>hash.
     bindP deserializeVector (\<lambda>txsHash.
     bindP deserializeString (\<lambda>sign.
     bindP deserializeInt (\<lambda>blockSize.
     bindP deserializeInt (\<lambda>blockType.
     bindP deserializeInt (\<lambda>timestamp.
     bindP deserializeInt (\<lambda>countTxs.
     bindP deserializeInt (\<lambda>countSignTx.
     bindP deserializeString (\<lambda>senderSign.
     bindP deserializeString (\<lambda>senderPubkey.
     bindP deserializeString (\<lambda>senderAddress.
     returnP \<lparr>bh_timestamp = timestamp, bh_blockSize = blockSize, bh_blockType = blockType,
       bh_hash = hash, bh_prevHash = prevHash, bh_txsHash = txsHash, bh_signature = sign,
       bh_countTxs = countTxs, bh_countSignTx = countSignTx, bh_filePos = fp, bh_blockNumber = None,
       bh_senderSign = senderSign, bh_senderPubkey = senderPubkey,
       bh_senderAddress = senderAddress\<rparr>)))))))))))))"

definition BlockHeader_deserialize :: "bytes \<Rightarrow> BlockHeader result" where
  "BlockHeader_deserialize raw = bindE (BlockHeader_parser raw 0) (\<lambda>(result, from). Inr result)"

record BlockInfo =
  bi_header :: BlockHeader
  bi_txs :: "TransactionInfo list"

definition BlockInfo_applyFileNameRelative :: "bytes \<Rightarrow> BlockInfo \<Rightarrow> BlockInfo" where
  "BlockInfo_applyFileNameRelative fileName b =
     b\<lparr>bi_header := (bi_header b)\<lparr>bh_filePos := (bh_filePos (bi_header b))\<lparr>fp_fileNameRelative := fileName\<rparr>\<rparr>,
       bi_txs := map (\<lambda>tx. tx\<lparr>tx_filePos := (tx_filePos tx)\<lparr>fp_fileNameRelative := fileName\<rparr>\<rparr>) (bi_txs b)\<rparr>"

definition getBlockSignatures :: "BlockInfo \<Rightarrow> TransactionInfo list" where
  "getBlockSignatures b = filter tx_isSignBlockTx (bi_txs b)"

definition BlockInfo_saveSenderInfo :: "bytes \<Rightarrow> bytes \<Rightarrow> bytes \<Rightarrow> BlockInfo \<Rightarrow> BlockInfo" where
  "BlockInfo_saveSenderInfo senderSign senderPubkey senderAddress b =
     b\<lparr>bi_header := (bi_header b)\<lparr>bh_senderSign := senderSign, bh_senderPubkey := senderPubkey,
        bh_senderAddress := senderAddress\<rparr>\<rparr>"

definition BlockInfo_saveFilePath :: "bytes \<Rightarrow> BlockInfo \<Rightarrow> BlockInfo" where
  "BlockInfo_saveFilePath path b =
     b\<lparr>bi_header := (bi_header b)\<lparr>bh_filePos := (bh_filePos (bi_header b))\<lparr>fp_fileNameRelative := path\<rparr>\<rparr>\<rparr>"

subsection \<open>Signature blocks\<close>

record MinimumSignBlockHeader =
  ms_hash :: bytes
  ms_filePos :: FilePosition
  ms_prevHash :: bytes

definition MinimumSignBlockHeader_serialize :: "MinimumSignBlockHeader \<Rightarrow> bytes \<Rightarrow> bytes result" where
  "MinimumSignBlockHeader_serialize m buffer =
     bindE (CHECK (ms_hash m \<noteq> []) ''empty hash'') (\<lambda>_.
     bindE (CHECK (fp_fileNameRelative (ms_filePos m) \<noteq> [])
              ''MinimumSignBlockHeader not setted fileName'') (\<lambda>_.
     bindE (FilePosition_serialize_buf (ms_filePos m) buffer) (\<lambda>b.
     Inr (serializeVector_buf (ms_prevHash m) (serializeVector_buf (ms_hash m) b)))))"

definition MinimumSignBlockHeader_deserialize :: "MinimumSignBlockHeader parser" where
  "MinimumSignBlockHeader_deserialize =
     bindP FilePosition_deserialize (\<lambda>fp.
     bindP deserializeVector (\<lambda>hash.
     bindP deserializeVector (\<lambda>prevHash.
     returnP \<lparr>ms_hash = hash, ms_filePos = fp, ms_prevHash = prevHash\<rparr>)))"

record SignBlockHeader =
  sh_timestamp :: u64
  sh_blockSize :: u64
  sh_hash :: bytes
  sh_prevHash :: bytes
  sh_filePos :: FilePosition
  sh_senderSign :: bytes
  sh_senderPubkey :: bytes
  sh_senderAddress :: bytes

definition SignBlockHeader_serialize :: "SignBlockHeader \<Rightarrow> bytes result" where
  "SignBlockHeader_serialize b =
     bindE (CHECK (sh_hash b \<noteq> []) ''empty hash'') (\<lambda>_.
     bindE (CHECK (sh_prevHash b \<noteq> []) ''empty prevHash'') (\<lambda>_.
     bindE (CHECK (sh_blockSize b \<noteq> 0) ''BlockHeader not initialized'') (\<lambda>_.
     bindE (CHECK (fp_fileNameRelative (sh_filePos b) \<noteq> []) ''SignBlockHeader not setted fileName'') (\<lambda>_.
     bindE (FilePosition_serialize (sh_filePos b)) (\<lambda>fp.
     Inr (fp @ serializeInt (sh_timestamp b) @ serializeInt (sh_blockSize b) @
       serializeVector (sh_hash b) @ serializeVector (sh_prevHash b) @
       serializeVector (sh_senderSign b) @ serializeVector (sh_senderPubkey b) @
       serializeVector (sh_senderAddress b)))))))"

definition SignBlockHeader_parser :: "SignBlockHeader parser" where
  "SignBlockHeader_parser =
     bindP FilePosition_deserialize (\<lambda>fp.
     bindP deserializeInt (\<lambda>timestamp.
     bindP deserializeInt (\<lambda>blockSize.
     bindP deserializeVector (\<lambda>hash.
     bindP deserializeVector (\<lambda>prevHash.
     bindP deserializeVector (\<lambda>senderSign.
     bindP deserializeVector (\<lambda>senderPubkey.
     bindP deserializeVector (\<lambda>senderAddress.
     returnP \<lparr>sh_timestamp = timestamp, sh_blockSize = blockSize, sh_hash = hash,
       sh_prevHash = prevHash, sh_filePos = fp, sh_senderSign = senderSign,
       sh_senderPubkey = senderPubkey, sh_senderAddress = senderAddress\<rparr>))))))))"

definition SignBlockHeader_deserialize :: "bytes \<Rightarrow> SignBlockHeader result" where
  "SignBlockHeader_deserialize raw = bindE (SignBlockHeader_parser raw 0) (\<lambda>(result, from). Inr result)"

definition SignBlockHeader_endBlockPos :: "SignBlockHeader \<Rightarrow> u64 result" where
  "SignBlockHeader_endBlockPos b =
     bindE (CHECK (sh_blockSize b \<noteq> 0) ''Incorrect block size'') (\<lambda>_.
     Inr (fp_pos (sh_filePos b) + sh_blockSize b + 8))"

record SignTransactionInfo =
  st_blockHash :: bytes
  st_sign :: bytes
  st_pubkey :: bytes
  st_address :: Address

record SignBlockInfo =
  sb_header :: SignBlockHeader
  sb_txs :: "SignTransactionInfo list"

definition SignBlockInfo_applyFileNameRelative :: "bytes \<Rightarrow> SignBlockInfo \<Rightarrow> SignBlockInfo" where
  "SignBlockInfo_applyFileNameRelative fileName b =
     b\<lparr>sb_header := (sb_header b)\<lparr>sh_filePos := (sh_filePos (sb_header b))\<lparr>fp_fileNameRelative := fileName\<rparr>\<rparr>\<rparr>"

definition SignBlockInfo_saveSenderInfo :: "bytes \<Rightarrow> bytes \<Rightarrow> bytes \<Rightarrow> SignBlockInfo \<Rightarrow> SignBlockInfo" where
  "SignBlockInfo_saveSenderInfo senderSign senderPubkey senderAddress b =
     b\<lparr>sb_header := (sb_header b)\<lparr>sh_senderSign := senderSign, sh_senderPubkey := senderPubkey,
        sh_senderAddress := senderAddress\<rparr>\<rparr>"

definition SignBlockInfo_saveFilePath :: "bytes \<Rightarrow> SignBlockInfo \<Rightarrow> SignBlockInfo" where
  "SignBlockInfo_saveFilePath path b =
     b\<lparr>sb_header := (sb_header b)\<lparr>sh_filePos := (sh_filePos (sb_header b))\<lparr>fp_fileNameRelative := path\<rparr>\<rparr>\<rparr>"

subsection \<open>Blocks of rejected transactions\<close>

record RejectedTxsMinimumBlockHeader =
  rm_blockSize :: u64
  rm_filePos :: FilePosition

definition RejectedTxsMinimumBlockHeader_applyFileNameRelative ::
  "bytes \<Rightarrow> RejectedTxsMinimumBlockHeader \<Rightarrow> RejectedTxsMinimumBlockHeader" where
  "RejectedTxsMinimumBlockHeader_applyFileNameRelative fileName b =
     b\<lparr>rm_filePos := (rm_filePos b)\<lparr>fp_fileNameRelative := fileName\<rparr>\<rparr>"

definition RejectedTxsMinimumBlockHeader_endBlockPos :: "RejectedTxsMinimumBlockHeader \<Rightarrow> u64 result" where
  "RejectedTxsMinimumBlockHeader_endBlockPos b =
     bindE (CHECK (rm_blockSize b \<noteq> 0) ''Incorrect block size'') (\<lambda>_.
     Inr (fp_pos (rm_filePos b) + rm_blockSize b + 8))"

record RejectedTxsBlockHeader =
  rh_blockSize :: u64
  rh_timestamp :: u64
  rh_filePos :: FilePosition
  rh_hash :: bytes
  rh_prevHash :: bytes
  rh_txsSign :: bytes
  rh_txsPubkey :: bytes

record RejectedTransactionInfo =
  rt_hash :: bytes
  rt_error :: u64

record RejectedTxsBlockInfo =
  rb_header :: RejectedTxsBlockHeader
  rb_txs :: "RejectedTransactionInfo list"

subsection \<open>Round trips and classification\<close>

text \<open>The three kinds of transaction blocks exclude each other.\<close>

lemma block_types_exclusive:
  "\<not> (isStateBlock b \<and> isSimpleBlock b)" "\<not> (isStateBlock b \<and> isForgingBlock b)"
  "\<not> (isSimpleBlock b \<and> isForgingBlock b)"
  by (auto simp: isStateBlock_def isSimpleBlock_def isForgingBlock_def block_type_defs)

lemma decodes_BlockHeader:
  assumes "BlockHeader_serialize b = Inr bs"
  shows "decodes BlockHeader_parser bs (b\<lparr>bh_blockNumber := None\<rparr>)"
proof -
  have bs: "bs = fp_bytes (bh_filePos b) @ serializeVector (bh_prevHash b) @ serializeVector (bh_hash b) @
       serializeVector (bh_txsHash b) @ serializeString (bh_signature b) @
       serializeInt (bh_blockSize b) @ serializeInt (bh_blockType b) @
       serializeInt (bh_timestamp b) @ serializeInt (bh_countTxs b) @
       serializeInt (bh_countSignTx b) @ serializeString (bh_senderSign b) @
       serializeString (bh_senderPubkey b) @ serializeString (bh_senderAddress b)"
    using assms by (auto simp: BlockHeader_serialize_def result_simps)
  have "decodes BlockHeader_parser bs \<lparr>bh_timestamp = bh_timestamp b, bh_blockSize = bh_blockSize b,
       bh_blockType = bh_blockType b, bh_hash = bh_hash b, bh_prevHash = bh_prevHash b,
       bh_txsHash = bh_txsHash b, bh_signature = bh_signature b, bh_countTxs = bh_countTxs b,
       bh_countSignTx = bh_countSignTx b, bh_filePos = bh_filePos b, bh_blockNumber = None,
       bh_senderSign = bh_senderSign b, bh_senderPubkey = bh_senderPubkey b,
       bh_senderAddress = bh_senderAddress b\<rparr>"
    unfolding BlockHeader_parser_def bs
    by (rule decodes_FilePosition decodes_vector decodes_string decodes_u64 decodes_map decodes_bind)+
  then show ?thesis
    by (cases b) simp
qed

lemma decodes_SignBlockHeader:
  assumes "SignBlockHeader_serialize b = Inr bs"
  shows "decodes SignBlockHeader_parser bs b"
proof -
  have bs: "bs = fp_bytes (sh_filePos b) @ serializeInt (sh_timestamp b) @ serializeInt (sh_blockSize b) @
       serializeVector (sh_hash b) @ serializeVector (sh_prevHash b) @
       serializeVector (sh_senderSign b) @ serializeVector (sh_senderPubkey b) @
       serializeVector (sh_senderAddress b)"
    using assms by (auto simp: SignBlockHeader_serialize_def result_simps)
  have "decodes SignBlockHeader_parser bs \<lparr>sh_timestamp = sh_timestamp b, sh_blockSize = sh_blockSize b,
       sh_hash = sh_hash b, sh_prevHash = sh_prevHash b, sh_filePos = sh_filePos b,
       sh_senderSign = sh_senderSign b, sh_senderPubkey = sh_senderPubkey b,
       sh_senderAddress = sh_senderAddress b\<rparr>"
    unfolding SignBlockHeader_parser_def bs
    by (rule decodes_FilePosition decodes_vector decodes_u64 decodes_map decodes_bind)+
  then show ?thesis
    by (cases b) simp
qed

lemma MinimumSignBlockHeader_serialize_Inr [result_simps]:
  "MinimumSignBlockHeader_serialize m buffer = Inr bs \<longleftrightarrow>
     ms_hash m \<noteq> [] \<and> fp_fileNameRelative (ms_filePos m) \<noteq> [] \<and>
     bs = buffer @ fp_bytes (ms_filePos m) @ serializeVector (ms_hash m) @ serializeVector (ms_prevHash m)"
  by (auto simp: MinimumSignBlockHeader_serialize_def result_simps)

lemma decodes_MinimumSignBlockHeader:
  "decodes MinimumSignBlockHeader_deserialize
     (fp_bytes (ms_filePos m) @ serializeVector (ms_hash m) @ serializeVector (ms_prevHash m)) m"
proof -
  have "decodes MinimumSignBlockHeader_deserialize
     (fp_bytes (ms_filePos m) @ serializeVector (ms_hash m) @ serializeVector (ms_prevHash m))
     \<lparr>ms_hash = ms_hash m, ms_filePos = ms_filePos m, ms_prevHash = ms_prevHash m\<rparr>"
    unfolding MinimumSignBlockHeader_deserialize_def
    by (rule decodes_FilePosition decodes_vector decodes_map decodes_bind)+
  then show ?thesis
    by (cases m) simp
qed

interpretation minimum_sign_block:
  codec MinimumSignBlockHeader_serialize MinimumSignBlockHeader_deserialize "\<lambda>m. m"
  using decodes_MinimumSignBlockHeader
  by unfold_locales
     (auto simp: MinimumSignBlockHeader_serialize_def FilePosition_serialize_buf_eq bindE_assoc
       result_simps CHECK_def)

end
