(* ===== verification/Accumulate.thy ===== *)
theory Accumulate
  imports Prelude
begin

section \<open>Collecting changes and merging them: the contract\<close>

text \<open>
  The worker never updates a stored object in place. It runs the operations of a block on a
  fresh object and merges the fresh object into the stored one afterwards. The locale states
  what that needs: a view in which merging adds, and operations that add the same amount to
  whatever they are applied to and fail for reasons that do not depend on it.
\<close>

fun run_all :: "('op \<Rightarrow> 'b \<Rightarrow> 'b result) \<Rightarrow> 'op list \<Rightarrow> 'b \<Rightarrow> 'b result" where
  "run_all step [] b = Inr b"
| "run_all step (x # xs) b = bindE (step x b) (run_all step xs)"

locale accumulator =
  fixes abs :: "'b \<Rightarrow> 'v"
    and add :: "'v \<Rightarrow> 'v \<Rightarrow> 'v"
    and fresh :: 'b
    and merge :: "'b \<Rightarrow> 'b \<Rightarrow> 'b"
    and ok :: "'b \<Rightarrow> bool"
    and step :: "'op \<Rightarrow> 'b \<Rightarrow> 'b result"
  assumes add_assoc: "add (add x y) z = add x (add y z)"
    and add_fresh: "add x (abs fresh) = x"
    and ok_fresh: "ok fresh"
    and merge_abs: "ok s \<Longrightarrow> abs (merge b s) = add (abs b) (abs s)"
    and step_fail: "step opr fresh = Inl e \<Longrightarrow> step opr b = Inl e"
    and step_add: "step opr fresh = Inr d \<Longrightarrow>
      \<exists>b'. step opr b = Inr b' \<and> abs b' = add (abs b) (abs d) \<and> (ok b \<longrightarrow> ok b')"
begin

lemma step_cases:
  obtains (fail) e where "\<And>b. step x b = Inl e"
  | (add) d where "step x fresh = Inr d"
proof (cases "step x fresh")
  case (Inl e)
  then show ?thesis
    using step_fail that(1) by blast
next
  case (Inr d)
  then show ?thesis
    by (rule that(2))
qed

text \<open>Running operations from \<open>b\<close> adds to \<open>b\<close> what running them from any other start added there.\<close>

lemma run_all_shift:
  assumes "run_all step xs c = Inr c'" and "abs c = add z (abs b)" and "ok c"
  shows "\<exists>b'. run_all step xs b = Inr b' \<and> abs c' = add z (abs b') \<and> ok c'"
  using assms
proof (induction xs arbitrary: b c)
  case Nil
  then show ?case by simp
next
  case (Cons x xs)
  from Cons.prems(1) obtain c1 where c1: "step x c = Inr c1" and rest: "run_all step xs c1 = Inr c'"
    by (auto simp: result_simps)
  obtain d where d: "step x fresh = Inr d"
    using c1 by (cases x rule: step_cases) auto
  obtain b1 where b1: "step x b = Inr b1" "abs b1 = add (abs b) (abs d)"
    using step_add [OF d] by blast
  have c1': "abs c1 = add (abs c) (abs d)" "ok c1"
    using step_add [OF d, of c] c1 Cons.prems(3) by auto
  have "abs c1 = add z (abs b1)"
    by (simp add: b1 c1' Cons.prems(2) add_assoc)
  from Cons.IH [OF rest this c1'(2)] show ?case
    by (simp add: b1)
qed

text \<open>Whether a run fails, and with what, does not depend on where it starts.\<close>

lemma run_all_fail: "run_all step xs c = Inl e \<Longrightarrow> run_all step xs b = Inl e"
proof (induction xs arbitrary: b c)
  case Nil
  then show ?case by simp
next
  case (Cons x xs)
  show ?case
  proof (cases x rule: step_cases)
    case (fail e')
    then show ?thesis using Cons.prems by simp
  next
    case (add d)
    obtain b1 c1 where "step x b = Inr b1" "step x c = Inr c1"
      using step_add [OF add] by meson
    then show ?thesis using Cons by simp
  qed
qed

text \<open>The batch is the sequence: collecting and merging means running on the stored object.\<close>

lemma batch_is_sequence:
  assumes "run_all step xs fresh = Inr c" and "ok stored"
  shows "\<exists>r. run_all step xs stored = Inr r \<and> abs r = abs (merge stored c) \<and> ok r"
proof -
  obtain r where r: "run_all step xs stored = Inr r"
    using run_all_fail [of xs stored _ fresh] assms(1) by (cases "run_all step xs stored") auto
  have "\<exists>c'. run_all step xs fresh = Inr c' \<and> abs r = add (abs stored) (abs c') \<and> ok r"
    using run_all_shift [OF r, of "abs stored" fresh] assms(2) add_fresh by simp
  moreover have "ok c"
    using run_all_shift [OF assms(1), of "abs fresh" fresh] add_fresh ok_fresh by auto
  ultimately show ?thesis
    using r assms(1) merge_abs by auto
qed

lemma batch_fails: "run_all step xs fresh = Inl e \<longleftrightarrow> run_all step xs stored = Inl e"
  using run_all_fail by blast

end

end
