(* ===== verification/BalanceInfo.thy ===== *)
theory BalanceInfo
  imports TransactionInfo Accumulate
begin

section \<open>Balances of addresses (blockchain_structs/BalanceInfo)\<close>

text \<open>
  What the node knows about an address: money received and spent, delegations, forging income
  and tokens. Amounts are \<open>size_t\<close>: the pair of counters is rebased when one of them would
  overflow. The worker collects the changes of one block in fresh \<open>BalanceInfo\<close> objects and
  adds them to the stored ones (\<open>operator+=\<close>); the theory shows that this gives what applying
  every transaction to the stored object would have given.
\<close>

subsection \<open>BalanceElement\<close>

record BalanceElement =
  el_received :: u64
  el_spent :: u64

definition BalanceElement_default :: BalanceElement where
  "BalanceElement_default = \<lparr>el_received = 0, el_spent = 0\<rparr>"

definition balance :: "BalanceElement \<Rightarrow> u64" where
  "balance e = el_received e - el_spent e"

definition receiveValue :: "u64 \<Rightarrow> BalanceElement \<Rightarrow> BalanceElement" where
  "receiveValue value e =
     (let e = (if el_received e \<ge> max_u64 - value
               then \<lparr>el_received = balance e, el_spent = 0\<rparr> else e)
      in e\<lparr>el_received := el_received e + value\<rparr>)"

definition spentValue :: "u64 \<Rightarrow> BalanceElement \<Rightarrow> BalanceElement" where
  "spentValue value e =
     (let e = (if el_spent e \<ge> max_u64 - value
               then \<lparr>el_received = balance e, el_spent = 0\<rparr> else e)
      in e\<lparr>el_spent := el_spent e + value\<rparr>)"

definition fill :: "u64 \<Rightarrow> u64 \<Rightarrow> BalanceElement" where
  "fill received spent = \<lparr>el_received = received, el_spent = spent\<rparr>"

subsection \<open>Delegation, forging and token balances\<close>

text \<open>
  \<open>DelegateElement\<close> and \<open>DelegatedElement\<close> wrap a \<open>BalanceElement\<close>: money delegated by this
  address counts as spent, money delegated to it as received.
\<close>

definition delegateValue :: "u64 \<Rightarrow> BalanceElement \<Rightarrow> BalanceElement" where
  "delegateValue v e = spentValue v e"

definition undelegateValue :: "u64 \<Rightarrow> BalanceElement \<Rightarrow> BalanceElement" where
  "undelegateValue v e = receiveValue v e"

definition delegatedValue :: "u64 \<Rightarrow> BalanceElement \<Rightarrow> BalanceElement" where
  "delegatedValue v e = receiveValue v e"

definition undelegatedValue :: "u64 \<Rightarrow> BalanceElement \<Rightarrow> BalanceElement" where
  "undelegatedValue v e = spentValue v e"

record DelegateBalance =
  db_delegate :: BalanceElement
  db_delegated :: BalanceElement
  db_reserved :: u64
  db_countOp :: u64

definition DelegateBalance_default :: DelegateBalance where
  "DelegateBalance_default = \<lparr>db_delegate = BalanceElement_default,
     db_delegated = BalanceElement_default, db_reserved = 0, db_countOp = 0\<rparr>"

record ForgedBalance =
  fb_forged :: u64
  fb_countOp :: u64

definition ForgedBalance_default :: ForgedBalance where
  "ForgedBalance_default = \<lparr>fb_forged = 0, fb_countOp = 0\<rparr>"

record TokenBalance =
  tb_balance :: BalanceElement
  tb_countOp :: u64
  tb_countReceived :: u64
  tb_countSpent :: u64

definition TokenBalance_default :: TokenBalance where
  "TokenBalance_default = \<lparr>tb_balance = BalanceElement_default, tb_countOp = 0,
     tb_countReceived = 0, tb_countSpent = 0\<rparr>"

record BalanceInfo =
  b_balance :: BalanceElement
  b_countReceived :: u64
  b_countSpent :: u64
  b_countTxs :: u64
  b_delegated :: "DelegateBalance option"
  b_forged :: "ForgedBalance option"
  b_hash :: "u64 option"
  b_blockNumber :: u64
  b_tokenBlockNumber :: "u64 option"
  b_tokens :: "(bytes \<times> TokenBalance) list"

definition BalanceInfo_default :: BalanceInfo where
  "BalanceInfo_default = \<lparr>b_balance = BalanceElement_default, b_countReceived = 0,
     b_countSpent = 0, b_countTxs = 0, b_delegated = None, b_forged = None, b_hash = None,
     b_blockNumber = 0, b_tokenBlockNumber = None, b_tokens = []\<rparr>"

definition opt_or :: "'a \<Rightarrow> 'a option \<Rightarrow> 'a" where
  "opt_or d x = (case x of None \<Rightarrow> d | Some v \<Rightarrow> v)"

subsection \<open>Applying a transaction\<close>

definition plusWithDelegate ::
  "TransactionInfo \<Rightarrow> Address \<Rightarrow> u64 option \<Rightarrow> bool \<Rightarrow> BalanceInfo \<Rightarrow> BalanceInfo result" where
  "plusWithDelegate tx address undelegateVal isOkStatus b =
     (case tx_delegate tx of
        None \<Rightarrow> Inl (Check ''Tx not delegate'')
      | Some d \<Rightarrow>
          let db = opt_or DelegateBalance_default (b_delegated b);
              db = db\<lparr>db_countOp := db_countOp db + 1\<rparr>
          in bindE
               (if isOkStatus then
                  bindE (Address_eq (tx_fromAddress tx) address) (\<lambda>isFrom.
                  bindE (if isFrom then
                           (if di_isDelegate d then
                              Inr (b\<lparr>b_balance := spentValue (di_value d) (b_balance b)\<rparr>,
                                   db\<lparr>db_delegate := delegateValue (di_value d) (db_delegate db)\<rparr>)
                            else case undelegateVal of
                                None \<Rightarrow> Inl (Check ''Undelegate value not set'')
                              | Some u \<Rightarrow>
                                  Inr (b\<lparr>b_balance := receiveValue u (b_balance b)\<rparr>,
                                       db\<lparr>db_delegate := undelegateValue u (db_delegate db)\<rparr>))
                         else Inr (b, db)) (\<lambda>(b, db).
                  bindE (Address_eq (tx_toAddress tx) address) (\<lambda>isTo.
                  if isTo then
                    (if di_isDelegate d then
                       Inr (b, db\<lparr>db_delegated := delegatedValue (di_value d) (db_delegated db)\<rparr>)
                     else case undelegateVal of
                         None \<Rightarrow> Inl (Check ''Undelegate value not set'')
                       | Some u \<Rightarrow> Inr (b, db\<lparr>db_delegated := undelegatedValue u (db_delegated db)\<rparr>))
                  else Inr (b, db))))
                else Inr (b, db)) (\<lambda>(b, db).
             bindE (Address_eq (tx_fromAddress tx) address) (\<lambda>isFrom.
             let db = (if isFrom \<and> di_isDelegate d
                       then db\<lparr>db_reserved := db_reserved db - di_value d\<rparr> else db)
             in Inr (b\<lparr>b_delegated := Some db\<rparr>))))"

definition plusWithoutDelegate ::
  "TransactionInfo \<Rightarrow> Address \<Rightarrow> bool \<Rightarrow> bool \<Rightarrow> BalanceInfo \<Rightarrow> BalanceInfo result" where
  "plusWithoutDelegate tx address changeBalance isForging b =
     bindE (Address_eq (tx_fromAddress tx) address) (\<lambda>isFrom.
     bindE (if isFrom then
              let b = b\<lparr>b_countSpent := b_countSpent b + 1\<rparr>
              in bindE (if changeBalance
                        then bindE (realFee tx) (\<lambda>fee.
                             Inr (b\<lparr>b_balance := spentValue (tx_value tx + fee) (b_balance b)\<rparr>))
                        else Inr b) (\<lambda>b.
                 Inr (b\<lparr>b_blockNumber := max (b_blockNumber b) (tx_blockNumber tx)\<rparr>))
            else Inr b) (\<lambda>b.
     bindE (Address_eq (tx_toAddress tx) address) (\<lambda>isTo.
     let b = (if isTo then
                let b = b\<lparr>b_countReceived := b_countReceived b + 1\<rparr>;
                    b = (if changeBalance
                         then b\<lparr>b_balance := receiveValue (tx_value tx) (b_balance b)\<rparr> else b)
                in b\<lparr>b_blockNumber := max (b_blockNumber b) (tx_blockNumber tx)\<rparr>
              else b);
         b = b\<lparr>b_countTxs := b_countTxs b + 1\<rparr>;
         b = (case tx_delegate tx of
                None \<Rightarrow> b
              | Some d \<Rightarrow>
                  let db = opt_or DelegateBalance_default (b_delegated b);
                      db = (if di_isDelegate d \<and> isFrom
                            then db\<lparr>db_reserved := db_reserved db + di_value d\<rparr> else db)
                  in b\<lparr>b_delegated := Some db\<rparr>);
         b = (if isForging then
                if isTo then
                  let fb = opt_or ForgedBalance_default (b_forged b)
                  in b\<lparr>b_forged := Some \<lparr>fb_forged = fb_forged fb + tx_value tx,
                                        fb_countOp = fb_countOp fb + 1\<rparr>\<rparr>
                else b
              else b)
     in Inr b)))"

definition addTokens :: "TransactionInfo \<Rightarrow> u64 \<Rightarrow> bool \<Rightarrow> BalanceInfo \<Rightarrow> BalanceInfo result" where
  "addTokens tx value isOkStatus b =
     (if \<not> isOkStatus then Inr b
      else if tx_tokenInfo tx \<noteq> None then
        bindE (getBinaryString (tx_toAddress tx)) (\<lambda>key.
        let t = get_or TokenBalance_default (b_tokens b) key;
            t = t\<lparr>tb_countOp := tb_countOp t + 1\<rparr>;
            t = t\<lparr>tb_countReceived := tb_countReceived t + 1\<rparr>;
            t = t\<lparr>tb_balance := receiveValue value (tb_balance t)\<rparr>
        in Inr (b\<lparr>b_tokens := AList.update key t (b_tokens b),
                  b_tokenBlockNumber := Some (tx_blockNumber tx)\<rparr>))
      else Inr b)"

definition moveTokens ::
  "TransactionInfo \<Rightarrow> Address \<Rightarrow> Address \<Rightarrow> u64 \<Rightarrow> bool \<Rightarrow> BalanceInfo \<Rightarrow> BalanceInfo result" where
  "moveTokens tx address toAddress value isOkStatus b =
     (if \<not> isOkStatus then Inr b
      else if tx_tokenInfo tx \<noteq> None then
        bindE (Address_eq (tx_fromAddress tx) address) (\<lambda>isFrom.
        bindE (getBinaryString (tx_toAddress tx)) (\<lambda>key.
        bindE (Address_eq toAddress address) (\<lambda>isTo.
        let t = get_or TokenBalance_default (b_tokens b) key;
            t = (if isFrom then t\<lparr>tb_countSpent := tb_countSpent t + 1,
                                  tb_balance := spentValue value (tb_balance t)\<rparr> else t);
            t = (if isTo then t\<lparr>tb_countReceived := tb_countReceived t + 1,
                                tb_balance := receiveValue value (tb_balance t)\<rparr> else t);
            t = t\<lparr>tb_countOp := tb_countOp t + 1\<rparr>
        in Inr (b\<lparr>b_tokens := AList.update key t (b_tokens b),
                  b_tokenBlockNumber := Some (tx_blockNumber tx)\<rparr>))))
      else Inr b)"

subsection \<open>Adding two balances\<close>

definition DelegateBalance_plus :: "DelegateBalance \<Rightarrow> DelegateBalance \<Rightarrow> DelegateBalance" where
  "DelegateBalance_plus a s =
     \<lparr>db_delegate = undelegateValue (el_received (db_delegate s))
                     (delegateValue (el_spent (db_delegate s)) (db_delegate a)),
      db_delegated = undelegatedValue (el_spent (db_delegated s))
                      (delegatedValue (el_received (db_delegated s)) (db_delegated a)),
      db_reserved = db_reserved a + db_reserved s,
      db_countOp = db_countOp a + db_countOp s\<rparr>"

definition TokenBalance_plus :: "TokenBalance \<Rightarrow> TokenBalance \<Rightarrow> TokenBalance" where
  "TokenBalance_plus a s =
     \<lparr>tb_balance = spentValue (el_spent (tb_balance s))
                    (receiveValue (el_received (tb_balance s)) (tb_balance a)),
      tb_countOp = tb_countOp a + tb_countOp s,
      tb_countReceived = tb_countReceived a + tb_countReceived s,
      tb_countSpent = tb_countSpent a + tb_countSpent s\<rparr>"

definition tokens_plus ::
  "(bytes \<times> TokenBalance) list \<Rightarrow> (bytes \<times> TokenBalance) list \<Rightarrow> (bytes \<times> TokenBalance) list" where
  "tokens_plus second tokens =
     fold (\<lambda>(token, bal) ts. AList.update token
             (TokenBalance_plus (get_or TokenBalance_default ts token) bal) ts) second tokens"

definition BalanceInfo_plus :: "BalanceInfo \<Rightarrow> BalanceInfo \<Rightarrow> BalanceInfo" where
  "BalanceInfo_plus b second =
     b\<lparr>b_balance := spentValue (el_spent (b_balance second))
          (receiveValue (el_received (b_balance second)) (b_balance b)),
       b_countReceived := b_countReceived b + b_countReceived second,
       b_countSpent := b_countSpent b + b_countSpent second,
       b_countTxs := b_countTxs b + b_countTxs second,
       b_delegated := (case b_delegated second of
           None \<Rightarrow> b_delegated b
         | Some s \<Rightarrow> Some (DelegateBalance_plus (opt_or DelegateBalance_default (b_delegated b)) s)),
       b_forged := (case b_forged second of
           None \<Rightarrow> b_forged b
         | Some s \<Rightarrow> (let f = opt_or ForgedBalance_default (b_forged b)
                     in Some \<lparr>fb_forged = fb_forged f + fb_forged s,
                              fb_countOp = fb_countOp f + fb_countOp s\<rparr>)),
       b_tokens := tokens_plus (b_tokens second) (b_tokens b),
       b_blockNumber := max (b_blockNumber b) (b_blockNumber second),
       b_tokenBlockNumber := (case (b_tokenBlockNumber second, b_tokenBlockNumber b) of
           (Some s, Some t) \<Rightarrow> Some (max t s)
         | (Some s, None) \<Rightarrow> Some s
         | (None, t) \<Rightarrow> t)\<rparr>"

definition calcBalance :: "BalanceInfo \<Rightarrow> u64" where
  "calcBalance b = el_received (b_balance b) - el_spent (b_balance b)"

definition calcBalanceWithoutDelegate :: "BalanceInfo \<Rightarrow> u64" where
  "calcBalanceWithoutDelegate b = el_received (b_balance b) - el_spent (b_balance b) +
     (case b_delegated b of
        None \<Rightarrow> 0
      | Some d \<Rightarrow> el_spent (db_delegate d) - el_received (db_delegate d))"

subsection \<open>The two counters of an element\<close>

lemma balance_receiveValue [simp]: "balance (receiveValue v e) = balance e + v"
  by (simp add: balance_def receiveValue_def Let_def)

lemma balance_spentValue [simp]: "balance (spentValue v e) = balance e - v"
  by (simp add: balance_def spentValue_def Let_def)

lemma balance_default [simp]: "balance BalanceElement_default = 0"
  by (simp add: balance_def BalanceElement_default_def)

lemma balance_received_spent: "el_received e - el_spent e = balance e"
  by (simp add: balance_def)

lemma max_minus_le_iff: "max_u64 - v \<le> x \<longleftrightarrow> 2 ^ 64 - 1 \<le> unat x + unat v"
proof -
  have "unat (max_u64 - v) = unat max_u64 - unat v"
    by (rule unat_sub) (rule word_order.extremum)
  also have "unat max_u64 = 2 ^ 64 - 1"
    by (simp add: unsigned_minus_1_eq_mask mask_eq_exp_minus_1)
  finally have "unat (max_u64 - v) = 2 ^ 64 - 1 - unat v" .
  then show ?thesis
    by (simp add: word_le_nat_alt le_diff_conv)
qed

lemma unat_add_no_overflow:
  "\<not> max_u64 - v \<le> x \<Longrightarrow> unat (x + v) = unat x + unat v"
  by (simp add: max_minus_le_iff unat_word_ariths)

lemma receiveValue_sound:
  assumes "el_spent e \<le> el_received e" and "unat (balance e) + unat v < 2 ^ 64"
  shows "el_spent (receiveValue v e) \<le> el_received (receiveValue v e)
    \<and> unat (balance (receiveValue v e)) = unat (balance e) + unat v"
proof -
  have "unat (balance e + v) = unat (balance e) + unat v"
    using assms(2) by (simp add: unat_word_ariths)
  moreover have "el_spent (receiveValue v e) \<le> el_received (receiveValue v e)"
  proof (cases "max_u64 - v \<le> el_received e")
    case True
    then show ?thesis by (simp add: receiveValue_def Let_def)
  next
    case False
    then show ?thesis
      using unat_add_no_overflow [OF False] assms(1)
      by (simp add: receiveValue_def Let_def word_le_nat_alt)
  qed
  ultimately show ?thesis by simp
qed

lemma spentValue_sound:
  assumes "el_spent e \<le> el_received e" and "v \<le> balance e"
  shows "el_spent (spentValue v e) \<le> el_received (spentValue v e)
    \<and> unat (balance (spentValue v e)) = unat (balance e) - unat v"
proof -
  have "unat (balance e - v) = unat (balance e) - unat v"
    using assms(2) by (rule unat_sub)
  moreover have "el_spent (spentValue v e) \<le> el_received (spentValue v e)"
  proof (cases "max_u64 - v \<le> el_spent e")
    case True
    then show ?thesis using assms(2) by (simp add: spentValue_def Let_def)
  next
    case False
    have "unat v \<le> unat (el_received e) - unat (el_spent e)"
      using assms by (simp add: balance_def word_le_nat_alt unat_sub)
    then show ?thesis
      using unat_add_no_overflow [OF False] assms(1) False
      by (simp add: spentValue_def Let_def word_le_nat_alt)
  qed
  ultimately show ?thesis by simp
qed

subsection \<open>What a balance means\<close>

text \<open>
  The meaning of a balance: the net amounts and the counters, without the way the two counters
  of an element are split. Balances add up in this view: \<open>view_plus\<close> adds the amounts, takes
  the later block number, and joins the optional parts.
\<close>

record balance_view =
  v_balance :: u64
  v_countReceived :: u64
  v_countSpent :: u64
  v_countTxs :: u64
  v_blockNumber :: u64
  v_delegated :: "(u64 \<times> u64 \<times> u64 \<times> u64) option"
  v_forged :: "(u64 \<times> u64) option"
  v_tokens :: "bytes \<Rightarrow> (u64 \<times> u64 \<times> u64 \<times> u64) option"

fun opt_plus :: "('a \<Rightarrow> 'a \<Rightarrow> 'a) \<Rightarrow> 'a option \<Rightarrow> 'a option \<Rightarrow> 'a option" where
  "opt_plus f None y = y"
| "opt_plus f x None = x"
| "opt_plus f (Some x) (Some y) = Some (f x y)"

fun quad_plus :: "u64 \<times> u64 \<times> u64 \<times> u64 \<Rightarrow> u64 \<times> u64 \<times> u64 \<times> u64 \<Rightarrow> u64 \<times> u64 \<times> u64 \<times> u64" where
  "quad_plus (a, b, c, d) (a', b', c', d') = (a + a', b + b', c + c', d + d')"

fun pair_plus :: "u64 \<times> u64 \<Rightarrow> u64 \<times> u64 \<Rightarrow> u64 \<times> u64" where
  "pair_plus (a, b) (a', b') = (a + a', b + b')"

definition view_delegate :: "DelegateBalance \<Rightarrow> u64 \<times> u64 \<times> u64 \<times> u64" where
  "view_delegate d = (balance (db_delegate d), balance (db_delegated d), db_reserved d, db_countOp d)"

definition view_token :: "TokenBalance \<Rightarrow> u64 \<times> u64 \<times> u64 \<times> u64" where
  "view_token t = (balance (tb_balance t), tb_countOp t, tb_countReceived t, tb_countSpent t)"

definition view :: "BalanceInfo \<Rightarrow> balance_view" where
  "view b = \<lparr>v_balance = balance (b_balance b), v_countReceived = b_countReceived b,
     v_countSpent = b_countSpent b, v_countTxs = b_countTxs b, v_blockNumber = b_blockNumber b,
     v_delegated = map_option view_delegate (b_delegated b),
     v_forged = map_option (\<lambda>f. (fb_forged f, fb_countOp f)) (b_forged b),
     v_tokens = (\<lambda>k. map_option view_token (map_of (b_tokens b) k))\<rparr>"

definition view_plus :: "balance_view \<Rightarrow> balance_view \<Rightarrow> balance_view" where
  "view_plus x y = \<lparr>v_balance = v_balance x + v_balance y,
     v_countReceived = v_countReceived x + v_countReceived y,
     v_countSpent = v_countSpent x + v_countSpent y,
     v_countTxs = v_countTxs x + v_countTxs y,
     v_blockNumber = max (v_blockNumber x) (v_blockNumber y),
     v_delegated = opt_plus quad_plus (v_delegated x) (v_delegated y),
     v_forged = opt_plus pair_plus (v_forged x) (v_forged y),
     v_tokens = (\<lambda>k. opt_plus quad_plus (v_tokens x k) (v_tokens y k))\<rparr>"

definition tokens_ok :: "BalanceInfo \<Rightarrow> bool" where
  "tokens_ok b \<longleftrightarrow> distinct (map fst (b_tokens b))"

lemma opt_plus_None [simp]: "opt_plus f x None = x"
  by (cases x) auto

lemma opt_plus_assoc:
  "(\<And>x y z. f (f x y) z = f x (f y z)) \<Longrightarrow> opt_plus f (opt_plus f x y) z = opt_plus f x (opt_plus f y z)"
  by (cases x; cases y; cases z) auto

lemma quad_plus_assoc: "quad_plus (quad_plus x y) z = quad_plus x (quad_plus y z)"
  by (cases x; cases y; cases z) (simp add: add.assoc)

lemma pair_plus_assoc: "pair_plus (pair_plus x y) z = pair_plus x (pair_plus y z)"
  by (cases x; cases y; cases z) (simp add: add.assoc)

lemma quad_plus_0 [simp]: "quad_plus (0, 0, 0, 0) x = x" "quad_plus x (0, 0, 0, 0) = x"
  by (cases x, simp)+

lemma pair_plus_0 [simp]: "pair_plus (0, 0) x = x" "pair_plus x (0, 0) = x"
  by (cases x, simp)+

lemma view_plus_assoc: "view_plus (view_plus x y) z = view_plus x (view_plus y z)"
  by (simp add: view_plus_def opt_plus_assoc quad_plus_assoc pair_plus_assoc add.assoc max.assoc)

lemma view_delegate_default: "view_delegate DelegateBalance_default = (0, 0, 0, 0)"
  by (simp add: view_delegate_def DelegateBalance_default_def)

lemma view_token_default: "view_token TokenBalance_default = (0, 0, 0, 0)"
  by (simp add: view_token_def TokenBalance_default_def)

lemma view_default_right: "view_plus x (view BalanceInfo_default) = x"
  by (cases x) (simp add: view_plus_def view_def BalanceInfo_default_def max_def)

lemma view_delegate_plus:
  "view_delegate (DelegateBalance_plus a s) = quad_plus (view_delegate a) (view_delegate s)"
  by (simp add: view_delegate_def DelegateBalance_plus_def delegateValue_def undelegateValue_def
      delegatedValue_def undelegatedValue_def) (simp add: balance_def)

lemma view_token_plus: "view_token (TokenBalance_plus a s) = quad_plus (view_token a) (view_token s)"
  by (simp add: view_token_def TokenBalance_plus_def) (simp add: balance_def)

lemma view_tokens_plus:
  assumes "distinct (map fst second)"
  shows "map_option view_token (map_of (tokens_plus second ts) k) =
    opt_plus quad_plus (map_option view_token (map_of ts k)) (map_option view_token (map_of second k))"
  using assms
proof (induction second arbitrary: ts)
  case Nil
  then show ?case by (simp add: tokens_plus_def)
next
  case (Cons x xs)
  obtain t bal where x: "x = (t, bal)" by force
  let ?ts = "AList.update t (TokenBalance_plus (get_or TokenBalance_default ts t) bal) ts"
  have step: "tokens_plus ((t, bal) # xs) ts = tokens_plus xs ?ts"
    by (simp add: tokens_plus_def)
  have fresh: "map_of xs t = None"
    using Cons.prems x by (simp add: map_of_None_fst)
  show ?case
    using Cons.IH [of ?ts] Cons.prems fresh
    by (auto simp: step x view_token_plus get_or_def view_token_default split: option.splits)
qed

lemma view_BalanceInfo_plus:
  "tokens_ok s \<Longrightarrow> view (BalanceInfo_plus b s) = view_plus (view b) (view s)"
  by (cases "b_delegated b"; cases "b_delegated s"; cases "b_forged b"; cases "b_forged s")
     (simp_all add: view_def view_plus_def BalanceInfo_plus_def tokens_ok_def view_tokens_plus
       view_delegate_plus view_delegate_default opt_or_def ForgedBalance_default_def balance_def [of "b_balance s"])

subsection \<open>The operations of a block on one address\<close>

datatype balance_op =
    PlusWithoutDelegate TransactionInfo Address bool bool
  | PlusWithDelegate TransactionInfo Address "u64 option" bool
  | AddTokensOp TransactionInfo u64 bool
  | MoveTokensOp TransactionInfo Address Address u64 bool

fun apply_op :: "balance_op \<Rightarrow> BalanceInfo \<Rightarrow> BalanceInfo result" where
  "apply_op (PlusWithoutDelegate tx address changeBalance isForging) b =
     plusWithoutDelegate tx address changeBalance isForging b"
| "apply_op (PlusWithDelegate tx address u isOk) b = plusWithDelegate tx address u isOk b"
| "apply_op (AddTokensOp tx value isOk) b = addTokens tx value isOk b"
| "apply_op (MoveTokensOp tx address toAddress value isOk) b =
     moveTokens tx address toAddress value isOk b"

text \<open>\<open>additive f\<close>: \<open>f\<close> adds to any balance what it adds to the empty one.\<close>

definition additive :: "(BalanceInfo \<Rightarrow> BalanceInfo result) \<Rightarrow> bool" where
  "additive f \<longleftrightarrow> (\<forall>b. case f BalanceInfo_default of
       Inl e \<Rightarrow> f b = Inl e
     | Inr d \<Rightarrow> (\<exists>b'. f b = Inr b' \<and> view b' = view_plus (view b) (view d) \<and> (tokens_ok b \<longrightarrow> tokens_ok b')))"

lemmas view_simps = view_def view_plus_def BalanceInfo_default_def opt_or_def view_delegate_def
  view_token_def DelegateBalance_default_def ForgedBalance_default_def TokenBalance_default_def
  delegateValue_def undelegateValue_def delegatedValue_def undelegatedValue_def tokens_ok_def

lemma Address_eq_cases:
  obtains (unset) e where "Address_eq a b = Inl e" | (differ) "Address_eq a b = Inr False"
  | (same) "Address_eq a b = Inr True"
proof (cases "Address_eq a b")
  case (Inr q)
  then show ?thesis using differ same by (cases q) simp_all
qed (rule unset)

lemma additive_plusWithoutDelegate: "additive (plusWithoutDelegate tx address changeBalance isForging)"
  unfolding additive_def plusWithoutDelegate_def
  by (rule Address_eq_cases [of "tx_fromAddress tx" address];
      rule Address_eq_cases [of "tx_toAddress tx" address];
      cases changeBalance; cases isForging; cases "realFee tx"; cases "tx_delegate tx")
     (simp_all add: view_simps Let_def split: option.split)

lemma additive_plusWithDelegate: "additive (plusWithDelegate tx address u isOkStatus)"
  unfolding additive_def plusWithDelegate_def
  by (cases "Address_eq (tx_fromAddress tx) address"; cases "Address_eq (tx_toAddress tx) address";
      cases "tx_delegate tx"; cases u)
     (simp_all add: view_simps Let_def split: option.splits)

lemma additive_addTokens: "additive (addTokens tx value isOkStatus)"
  unfolding additive_def addTokens_def
  by (cases "getBinaryString (tx_toAddress tx)")
     (auto simp: view_simps Let_def get_or_def AList.distinct_update fun_eq_iff split: option.splits)

lemma additive_moveTokens: "additive (moveTokens tx address toAddress value isOkStatus)"
  unfolding additive_def moveTokens_def
  by (cases "getBinaryString (tx_toAddress tx)"; cases "Address_eq (tx_fromAddress tx) address";
      cases "Address_eq toAddress address")
     (auto simp: view_simps Let_def get_or_def AList.distinct_update fun_eq_iff split: option.splits)

lemma additive_apply_op: "additive (apply_op x)"
proof (cases x)
  case (PlusWithoutDelegate tx a c f)
  then have "apply_op x = plusWithoutDelegate tx a c f" by auto
  then show ?thesis by (simp add: additive_plusWithoutDelegate)
next
  case (PlusWithDelegate tx a u k)
  then have "apply_op x = plusWithDelegate tx a u k" by auto
  then show ?thesis by (simp add: additive_plusWithDelegate)
next
  case (AddTokensOp tx v k)
  then have "apply_op x = addTokens tx v k" by auto
  then show ?thesis by (simp add: additive_addTokens)
next
  case (MoveTokensOp tx a t v k)
  then have "apply_op x = moveTokens tx a t v k" by auto
  then show ?thesis by (simp add: additive_moveTokens)
qed

interpretation balances:
  accumulator view view_plus BalanceInfo_default BalanceInfo_plus tokens_ok apply_op
proof unfold_locales
  show "tokens_ok BalanceInfo_default"
    by (simp add: tokens_ok_def BalanceInfo_default_def)
  fix x e b d
  show "apply_op x BalanceInfo_default = Inl e \<Longrightarrow> apply_op x b = Inl e"
    using additive_apply_op [of x] by (auto simp: additive_def)
  show "apply_op x BalanceInfo_default = Inr d \<Longrightarrow>
      \<exists>b'. apply_op x b = Inr b' \<and> view b' = view_plus (view b) (view d) \<and> (tokens_ok b \<longrightarrow> tokens_ok b')"
    using additive_apply_op [of x] by (simp add: additive_def)
qed (rule view_plus_assoc view_default_right view_BalanceInfo_plus, assumption?)+

subsection \<open>Properties\<close>

lemma net_of_plusWithoutDelegate:
  assumes "plusWithoutDelegate tx address True isForging b = Inr b'"
    and "isSet address" "isSet (tx_fromAddress tx)" "isSet (tx_toAddress tx)" and "realFee tx = Inr fee"
  shows "balance (b_balance b') = balance (b_balance b)
    - (if addr (tx_fromAddress tx) = addr address then tx_value tx + fee else 0)
    + (if addr (tx_toAddress tx) = addr address then tx_value tx else 0)"
proof -
  have "b_balance b' = (let e = (if addr (tx_fromAddress tx) = addr address
          then spentValue (tx_value tx + fee) (b_balance b) else b_balance b)
      in if addr (tx_toAddress tx) = addr address then receiveValue (tx_value tx) e else e)"
    using assms unfolding plusWithoutDelegate_def
    by (cases "addr (tx_fromAddress tx) = addr address"; cases "addr (tx_toAddress tx) = addr address";
        cases isForging; cases "tx_delegate tx") (auto simp: Address_eq_set Let_def)
  then show ?thesis
    by (simp add: Let_def)
qed



text \<open>
  As long as the real balance fits into 64 bits, receiving money never loses any: the net
  balance grows by exactly the amount, also when the two counters are rebased because the
  received total would overflow, and spent never exceeds received afterwards.
\<close>

theorem receiveValue_exact:
  assumes "el_spent e \<le> el_received e" and "unat (balance e) + unat v < 2 ^ 64"
  shows "el_spent (receiveValue v e) \<le> el_received (receiveValue v e)
    \<and> unat (balance (receiveValue v e)) = unat (balance e) + unat v"
  using assms by (rule receiveValue_sound)

theorem receiveValue_exact_witness:
  "unat (balance (receiveValue 10 \<lparr>el_received = - 5, el_spent = - 8\<rparr>)) = 13"
  using receiveValue_exact [of "\<lparr>el_received = - 5, el_spent = - 8\<rparr>" 10]
  by (simp add: balance_def)

text \<open>
  Spending no more than the balance never makes an address overdrawn, on both branches of
  the overflow test: the net balance falls by exactly the amount and spent stays below received.
\<close>

theorem spentValue_exact:
  assumes "el_spent e \<le> el_received e" and "v \<le> balance e"
  shows "el_spent (spentValue v e) \<le> el_received (spentValue v e)
    \<and> unat (balance (spentValue v e)) = unat (balance e) - unat v"
  using assms by (rule spentValue_sound)

theorem spentValue_exact_witness:
  "unat (balance (spentValue 2 \<lparr>el_received = - 1, el_spent = - 4\<rparr>)) = 1"
  using spentValue_exact [of "\<lparr>el_received = - 1, el_spent = - 4\<rparr>" 2]
  by (simp add: balance_def)

text \<open>
  A transfer conserves money: what the sender's balance loses is what the receiver's gains
  plus the fee, modulo \<open>2^64\<close>. A transfer to oneself costs the fee only.
\<close>

theorem transfer_conserves_money:
  assumes "isSet (tx_fromAddress tx)" and "isSet (tx_toAddress tx)" and "realFee tx = Inr fee"
    and "plusWithoutDelegate tx (tx_fromAddress tx) True isForging bf = Inr bf'"
    and "plusWithoutDelegate tx (tx_toAddress tx) True isForging bt = Inr bt'"
  shows "if addr (tx_fromAddress tx) = addr (tx_toAddress tx)
    then calcBalance bf' = calcBalance bf - fee
    else calcBalance bf' + calcBalance bt' = calcBalance bf + calcBalance bt - fee"
  using net_of_plusWithoutDelegate [OF assms(4) assms(1,1,2,3)]
    net_of_plusWithoutDelegate [OF assms(5) assms(2,1,2,3)]
  by (auto simp: calcBalance_def balance_received_spent)

theorem transfer_conserves_money_witness:
  "\<exists>bf' bt'. plusWithoutDelegate (TransactionInfo_default\<lparr>tx_fromAddress := Address_of_range [1],
       tx_toAddress := Address_of_range [2], tx_value := 30, tx_fees := 4, tx_sizeRawTx := 300\<rparr>)
       (Address_of_range [1]) True False BalanceInfo_default = Inr bf' \<and>
     plusWithoutDelegate (TransactionInfo_default\<lparr>tx_fromAddress := Address_of_range [1],
       tx_toAddress := Address_of_range [2], tx_value := 30, tx_fees := 4, tx_sizeRawTx := 300\<rparr>)
       (Address_of_range [2]) True False BalanceInfo_default = Inr bt' \<and>
     calcBalance bf' + calcBalance bt' = - 4"
proof -
  let ?tx = "TransactionInfo_default\<lparr>tx_fromAddress := Address_of_range [1],
       tx_toAddress := Address_of_range [2], tx_value := 30, tx_fees := 4, tx_sizeRawTx := 300\<rparr>"
  have fee: "realFee ?tx = Inr 4"
    by (simp add: realFee_def)
  obtain bf' where f: "plusWithoutDelegate ?tx (Address_of_range [1]) True False BalanceInfo_default = Inr bf'"
    by (simp add: plusWithoutDelegate_def Address_eq_def Address_of_range_def realFee_def Let_def
        TransactionInfo_default_def)
  obtain bt' where t: "plusWithoutDelegate ?tx (Address_of_range [2]) True False BalanceInfo_default = Inr bt'"
    by (simp add: plusWithoutDelegate_def Address_eq_def Address_of_range_def realFee_def Let_def
        TransactionInfo_default_def)
  have "calcBalance bf' + calcBalance bt' = - 4"
    using transfer_conserves_money [of ?tx 4 False BalanceInfo_default bf' BalanceInfo_default bt'] f t fee
    by (simp add: Address_of_range_def calcBalance_def BalanceInfo_default_def BalanceElement_default_def)
  then show ?thesis using f t by blast
qed

text \<open>
  The amount a delegation reserves when the transaction is counted is released when its
  status is: after both steps the reserved amount of the sender is what it was.
\<close>

theorem delegation_releases_reserve:
  assumes "tx_delegate tx = Some d"
    and "plusWithoutDelegate tx address changeBalance isForging b = Inr b1"
    and "plusWithDelegate tx address u isOk b1 = Inr b2"
  shows "\<exists>db. b_delegated b2 = Some db \<and>
    db_reserved db = db_reserved (opt_or DelegateBalance_default (b_delegated b))"
proof -
  obtain isFrom where f: "Address_eq (tx_fromAddress tx) address = Inr isFrom"
    using assms(2) by (auto simp: plusWithoutDelegate_def result_simps)
  have "\<exists>db1. b_delegated b1 = Some db1 \<and> db_reserved db1 =
      db_reserved (opt_or DelegateBalance_default (b_delegated b)) +
        (if di_isDelegate d \<and> isFrom then di_value d else 0)"
    using assms(1,2) f unfolding plusWithoutDelegate_def
    by (cases isFrom; cases changeBalance; cases isForging; cases "realFee tx";
        cases rule: Address_eq_cases [of "tx_toAddress tx" address])
       (auto simp: Let_def opt_or_def)
  moreover have "\<exists>db2. b_delegated b2 = Some db2 \<and> db_reserved db2 =
      db_reserved (opt_or DelegateBalance_default (b_delegated b1)) -
        (if di_isDelegate d \<and> isFrom then di_value d else 0)"
    using assms(1,3) f unfolding plusWithDelegate_def
    by (cases isFrom; cases isOk; cases "di_isDelegate d"; cases u;
        cases rule: Address_eq_cases [of "tx_toAddress tx" address])
       (auto simp: Let_def opt_or_def)
  ultimately show ?thesis
    by (auto simp: opt_or_def)
qed

theorem delegation_releases_reserve_witness:
  "\<exists>b1 b2. plusWithoutDelegate (TransactionInfo_default\<lparr>tx_fromAddress := Address_of_range [1],
       tx_toAddress := Address_of_range [2], tx_delegate := Some \<lparr>di_value = 5, di_isDelegate = True\<rparr>\<rparr>)
       (Address_of_range [1]) False False BalanceInfo_default = Inr b1 \<and>
     plusWithDelegate (TransactionInfo_default\<lparr>tx_fromAddress := Address_of_range [1],
       tx_toAddress := Address_of_range [2], tx_delegate := Some \<lparr>di_value = 5, di_isDelegate = True\<rparr>\<rparr>)
       (Address_of_range [1]) None True b1 = Inr b2 \<and>
     (\<exists>db. b_delegated b2 = Some db \<and> db_reserved db = 0)"
proof -
  let ?d = "\<lparr>di_value = 5, di_isDelegate = True\<rparr>"
  let ?tx = "TransactionInfo_default\<lparr>tx_fromAddress := Address_of_range [1],
       tx_toAddress := Address_of_range [2], tx_delegate := Some ?d\<rparr>"
  obtain b1 where 1: "plusWithoutDelegate ?tx (Address_of_range [1]) False False BalanceInfo_default = Inr b1"
    by (simp add: plusWithoutDelegate_def Address_eq_def Address_of_range_def Let_def)
  obtain b2 where 2: "plusWithDelegate ?tx (Address_of_range [1]) None True b1 = Inr b2"
    by (simp add: plusWithDelegate_def Address_eq_def Address_of_range_def Let_def)
  have "\<exists>db. b_delegated b2 = Some db \<and>
      db_reserved db = db_reserved (opt_or DelegateBalance_default (b_delegated BalanceInfo_default))"
    by (rule delegation_releases_reserve [OF _ 1 2]) simp
  then show ?thesis
    using 1 2 by (auto simp: opt_or_def BalanceInfo_default_def DelegateBalance_default_def)
qed

end
