(* ===== verification/BalanceStore.thy ===== *)
theory BalanceStore
  imports BalanceInfo
begin

section \<open>Balances in the database (BalanceInfo::serialize and deserialize)\<close>

text \<open>
  The stored form of a balance: fixed fields, the tokens, then tagged optional sections that are
  read until the buffer ends. The loop over the sections has the length of the buffer as fuel;
  every section takes at least one byte, so the fuel is never used up.
\<close>

definition token_bytes :: "bytes \<times> TokenBalance \<Rightarrow> bytes" where
  "token_bytes = (\<lambda>(address, bal).
     serializeString address @ serializeInt (el_received (tb_balance bal)) @
     serializeInt (el_spent (tb_balance bal)) @ serializeInt (tb_countOp bal) @
     serializeInt (tb_countReceived bal) @ serializeInt (tb_countSpent bal))"

definition BalanceInfo_serialize :: "BalanceInfo \<Rightarrow> bytes \<Rightarrow> bytes" where
  "BalanceInfo_serialize b buffer =
     (let buf = serializeInt_buf (el_received (b_balance b)) buffer;
          buf = serializeInt_buf (el_spent (b_balance b)) buf;
          buf = serializeInt_buf (b_countReceived b) buf;
          buf = serializeInt_buf (b_countSpent b) buf;
          buf = serializeInt_buf (b_blockNumber b) buf;
          buf = serializeInt_buf (b_countTxs b) buf;
          buf = serializeInt_buf (of_nat (length (b_tokens b)) :: u64) buf;
          buf = fold (\<lambda>t buf. buf @ token_bytes t) (b_tokens b) buf;
          buf = (case b_delegated b of
                   None \<Rightarrow> buf
                 | Some d \<Rightarrow>
                     let buf = serializeInt_buf (of_char (CHR ''d'') :: byte) buf;
                         buf = serializeInt_buf (db_countOp d) buf;
                         buf = serializeInt_buf (el_spent (db_delegate d)) buf;
                         buf = serializeInt_buf (el_received (db_delegate d)) buf;
                         buf = serializeInt_buf (el_received (db_delegated d)) buf;
                         buf = serializeInt_buf (el_spent (db_delegated d)) buf
                     in serializeInt_buf (db_reserved d) buf);
          buf = (case b_forged b of
                   None \<Rightarrow> buf
                 | Some f \<Rightarrow>
                     let buf = serializeInt_buf (of_char (CHR ''f'') :: byte) buf;
                         buf = serializeInt_buf (fb_countOp f) buf
                     in serializeInt_buf (fb_forged f) buf)
      in (case b_tokenBlockNumber b of
            None \<Rightarrow> buf
          | Some n \<Rightarrow> serializeInt_buf n (serializeInt_buf (of_char (CHR ''t'') :: byte) buf)))"

definition token_step :: "(bytes \<times> TokenBalance) list \<Rightarrow> (bytes \<times> TokenBalance) list parser" where
  "token_step tokens =
     bindP deserializeString (\<lambda>token.
     bindP deserializeInt (\<lambda>received.
     bindP deserializeInt (\<lambda>spent.
     bindP deserializeInt (\<lambda>countOp.
     bindP deserializeInt (\<lambda>countReceived.
     bindP deserializeInt (\<lambda>countSpent.
     returnP (emplace token \<lparr>tb_balance = fill received spent, tb_countOp = countOp,
       tb_countReceived = countReceived, tb_countSpent = countSpent\<rparr> tokens)))))))"

definition section_d :: "BalanceInfo \<Rightarrow> BalanceInfo parser" where
  "section_d b =
     bindP deserializeInt (\<lambda>countOp.
     bindP deserializeInt (\<lambda>delegate.
     bindP deserializeInt (\<lambda>undelegate.
     bindP deserializeInt (\<lambda>delegated.
     bindP deserializeInt (\<lambda>undelegated.
     bindP deserializeInt (\<lambda>reserved.
     returnP (b\<lparr>b_delegated := Some \<lparr>db_delegate = fill undelegate delegate,
       db_delegated = fill delegated undelegated, db_reserved = reserved,
       db_countOp = countOp\<rparr>\<rparr>)))))))"

definition section_f :: "BalanceInfo \<Rightarrow> BalanceInfo parser" where
  "section_f b =
     bindP deserializeInt (\<lambda>countOp.
     bindP deserializeInt (\<lambda>forged.
     returnP (b\<lparr>b_forged := Some \<lparr>fb_forged = forged, fb_countOp = countOp\<rparr>\<rparr>)))"

definition section_t :: "BalanceInfo \<Rightarrow> BalanceInfo parser" where
  "section_t b = bindP deserializeInt (\<lambda>n. returnP (b\<lparr>b_tokenBlockNumber := Some n\<rparr>))"

definition balance_section :: "BalanceInfo \<Rightarrow> BalanceInfo parser" where
  "balance_section b = bindP deserializeInt (\<lambda>nextType.
     if nextType = (of_char (CHR ''d'') :: byte) then section_d b
     else if nextType = of_char (CHR ''f'') then section_f b
     else if nextType = of_char (CHR ''t'') then section_t b
     else (\<lambda>raw from. Inl (Check ''Incorrect type balance '')))"

text \<open>\<open>while (raw.size() > from)\<close>.\<close>

fun balance_sections :: "nat \<Rightarrow> BalanceInfo \<Rightarrow> BalanceInfo parser" where
  "balance_sections 0 b raw from = (if from < size_of raw then Inl Diverges else Inr (b, from))"
| "balance_sections (Suc n) b raw from =
     (if from < size_of raw
      then bindE (balance_section b raw from) (\<lambda>(b', from'). balance_sections n b' raw from')
      else Inr (b, from))"

definition balance_fields :: "BalanceInfo parser" where
  "balance_fields =
     bindP deserializeInt (\<lambda>received.
     bindP deserializeInt (\<lambda>spent.
     bindP deserializeInt (\<lambda>countReceived.
     bindP deserializeInt (\<lambda>countSpent.
     bindP deserializeInt (\<lambda>blockNumber.
     bindP deserializeInt (\<lambda>countTxs.
     bindP deserializeInt (\<lambda>countTokens.
     bindP (repeatP (unat (countTokens :: u64)) token_step []) (\<lambda>tokens.
     returnP (BalanceInfo_default\<lparr>b_balance := fill received spent, b_countReceived := countReceived,
       b_countSpent := countSpent, b_blockNumber := blockNumber, b_countTxs := countTxs,
       b_tokens := tokens\<rparr>)))))))))"

definition BalanceInfo_parser :: "BalanceInfo parser" where
  "BalanceInfo_parser raw =
     bindP balance_fields (\<lambda>b. balance_sections (length raw) b) raw"

definition BalanceInfo_deserialize :: "bytes \<Rightarrow> BalanceInfo result" where
  "BalanceInfo_deserialize raw =
     (if raw = [] then Inr BalanceInfo_default
      else bindE (BalanceInfo_parser raw 0) (\<lambda>(result, from). Inr result))"

subsection \<open>The loop over the sections ends\<close>

lemma deserializeInt_advances:
  fixes v :: "'a::len word"
  assumes "deserializeInt raw p = Inr (v, q)" and "length raw < 2 ^ 63" and "unat p \<le> length raw"
    and "sizeof TYPE('a) \<le> 8"
  shows "unat q = unat p + sizeof TYPE('a) \<and> unat q \<le> length raw \<and> p \<noteq> q"
proof -
  let ?n = "sizeof TYPE('a)"
  have sum: "unat (p + of_nat ?n) = unat p + ?n"
    using assms by (intro unat_add_u64) simp
  have "\<not> size_of raw < of_nat ?n + p" and q: "q = p + of_nat ?n" and "p \<noteq> q"
    using assms(1)
    by (auto simp: deserializeInt_def deserializeInt_end_def fromBinaryStringBigEndian_def result_simps
        split: if_splits)
  then show ?thesis
    using assms sum by (simp add: word_less_nat_alt unat_size_of add.commute)
qed

definition stays_inside :: "'a parser \<Rightarrow> bool" where
  "stays_inside d \<longleftrightarrow> (\<forall>raw p x q. d raw p = Inr (x, q) \<longrightarrow> length raw < 2 ^ 63 \<longrightarrow>
     unat p \<le> length raw \<longrightarrow> unat p \<le> unat q \<and> unat q \<le> length raw)"

lemma stays_insideD:
  "stays_inside d \<Longrightarrow> d raw p = Inr (x, q) \<Longrightarrow> length raw < 2 ^ 63 \<Longrightarrow> unat p \<le> length raw \<Longrightarrow>
    unat p \<le> unat q \<and> unat q \<le> length raw"
  unfolding stays_inside_def by blast

lemma stays_inside_return: "stays_inside (returnP x)"
  by (simp add: stays_inside_def returnP_def)

lemma stays_inside_bind: "stays_inside d \<Longrightarrow> (\<And>x. stays_inside (f x)) \<Longrightarrow> stays_inside (bindP d f)"
  by (fastforce simp: stays_inside_def bindP_def result_simps)

lemma stays_inside_u64: "stays_inside (deserializeInt :: u64 parser)"
  unfolding stays_inside_def using deserializeInt_advances [where 'a = 64] by (fastforce simp: sizeof_def)

lemma stays_inside_sections:
  "stays_inside (section_d b)" "stays_inside (section_f b)" "stays_inside (section_t b)"
  unfolding section_d_def section_f_def section_t_def
  by (intro stays_inside_bind stays_inside_u64 stays_inside_return)+

lemma balance_section_advances:
  assumes "balance_section b raw p = Inr (b', q)" and "length raw < 2 ^ 63" and "unat p \<le> length raw"
  shows "unat p < unat q \<and> unat q \<le> length raw"
proof -
  obtain ty :: byte and p1 where ty: "deserializeInt raw p = Inr (ty, p1)"
    and rest: "(if ty = of_char (CHR ''d'') then section_d b
       else if ty = of_char (CHR ''f'') then section_f b
       else if ty = of_char (CHR ''t'') then section_t b
       else (\<lambda>raw from. Inl (Check ''Incorrect type balance ''))) raw p1 = Inr (b', q)"
    using assms(1) by (auto simp: balance_section_def bindP_def result_simps)
  have p1: "unat p1 = unat p + 1" "unat p1 \<le> length raw"
    using deserializeInt_advances [OF ty assms(2,3)] by (simp_all add: sizeof_def)
  then have "unat p1 \<le> unat q \<and> unat q \<le> length raw"
    using rest assms(2) stays_inside_sections [of b, THEN stays_insideD, of raw p1 b' q]
    by (simp split: if_splits)
  then show ?thesis
    using p1 by simp
qed

definition never_diverges :: "'a parser \<Rightarrow> bool" where
  "never_diverges d \<longleftrightarrow> (\<forall>raw p. d raw p \<noteq> Inl Diverges)"

lemma never_diverges_bind:
  "never_diverges d \<Longrightarrow> (\<And>x. never_diverges (f x)) \<Longrightarrow> never_diverges (bindP d f)"
  by (auto simp: never_diverges_def bindP_def bindE_Inl_iff)

lemma never_diverges_return: "never_diverges (returnP x)"
  by (simp add: never_diverges_def returnP_def)

lemma be_read_not_Diverges: "be_read raw p n v \<noteq> Inl Diverges"
  by (induction n arbitrary: p v) (auto simp: bindE_Inl_iff raw_at_def split: if_splits)

lemma never_diverges_int: "never_diverges (deserializeInt :: 'a::len word parser)"
  by (auto simp: never_diverges_def deserializeInt_def deserializeInt_end_def
      fromBinaryStringBigEndian_def bindE_Inl_iff CHECK_def be_read_not_Diverges split: if_splits)

lemma never_diverges_string: "never_diverges deserializeString"
  by (auto simp: never_diverges_def deserializeString_def deserializeString_end_def deserializeInt_end_def
      fromBinaryStringBigEndian_def bindE_Inl_iff CHECK_def be_read_not_Diverges substr_def split: if_splits)

lemma never_diverges_repeat: "(\<And>s. never_diverges (f s)) \<Longrightarrow> never_diverges (repeatP n f s)"
  by (induction n arbitrary: s) (simp_all add: never_diverges_return never_diverges_bind)

lemmas never_diverges_intros = never_diverges_bind never_diverges_return never_diverges_int
  never_diverges_string never_diverges_repeat

lemma never_diverges_fields: "never_diverges balance_fields"
  unfolding balance_fields_def token_step_def by (intro never_diverges_intros)

lemma never_diverges_throw: "never_diverges (\<lambda>raw from. Inl (Check msg))"
  by (simp add: never_diverges_def)

lemma never_diverges_sections:
  "never_diverges (section_d b)" "never_diverges (section_f b)" "never_diverges (section_t b)"
  unfolding section_d_def section_f_def section_t_def by (intro never_diverges_intros)+

lemma never_diverges_section: "never_diverges (balance_section b)"
  unfolding balance_section_def
  by (rule never_diverges_bind [OF never_diverges_int])
     (simp add: never_diverges_sections never_diverges_throw)

lemma balance_sections_end:
  "length raw < 2 ^ 63 \<Longrightarrow> length raw - unat p \<le> n \<Longrightarrow> balance_sections n b raw p \<noteq> Inl Diverges"
proof (induction n arbitrary: b p)
  case 0
  then show ?case by (simp add: word_less_nat_alt unat_size_of)
next
  case (Suc n)
  have "balance_sections n b' raw q \<noteq> Inl Diverges"
    if "balance_section b raw p = Inr (b', q)" and "p < size_of raw" for b' q
    using balance_section_advances [OF that(1)] that(2) Suc.prems
    by (intro Suc.IH) (auto simp: word_less_nat_alt unat_size_of)
  then show ?case
    using never_diverges_section [of b] by (auto simp: bindE_Inl_iff never_diverges_def)
qed

subsection \<open>A stored balance is read back\<close>

definition d_bytes :: "DelegateBalance option \<Rightarrow> bytes" where
  "d_bytes x = (case x of None \<Rightarrow> [] | Some d \<Rightarrow>
     serializeInt (of_char (CHR ''d'') :: byte) @ serializeInt (db_countOp d) @
     serializeInt (el_spent (db_delegate d)) @ serializeInt (el_received (db_delegate d)) @
     serializeInt (el_received (db_delegated d)) @ serializeInt (el_spent (db_delegated d)) @
     serializeInt (db_reserved d))"

definition f_bytes :: "ForgedBalance option \<Rightarrow> bytes" where
  "f_bytes x = (case x of None \<Rightarrow> [] | Some f \<Rightarrow>
     serializeInt (of_char (CHR ''f'') :: byte) @ serializeInt (fb_countOp f) @ serializeInt (fb_forged f))"

definition t_bytes :: "u64 option \<Rightarrow> bytes" where
  "t_bytes x = (case x of None \<Rightarrow> [] | Some n \<Rightarrow>
     serializeInt (of_char (CHR ''t'') :: byte) @ serializeInt n)"

definition fields_bytes :: "BalanceInfo \<Rightarrow> bytes" where
  "fields_bytes b =
     serializeInt (el_received (b_balance b)) @ serializeInt (el_spent (b_balance b)) @
     serializeInt (b_countReceived b) @ serializeInt (b_countSpent b) @
     serializeInt (b_blockNumber b) @ serializeInt (b_countTxs b) @
     serializeInt (of_nat (length (b_tokens b)) :: u64) @ concat (map token_bytes (b_tokens b))"

lemma fold_token_bytes: "fold (\<lambda>t buf. buf @ token_bytes t) ts buf = buf @ concat (map token_bytes ts)"
  by (induction ts arbitrary: buf) simp_all

lemma BalanceInfo_serialize_eq:
  "BalanceInfo_serialize b buffer = buffer @ fields_bytes b @ d_bytes (b_delegated b) @
     f_bytes (b_forged b) @ t_bytes (b_tokenBlockNumber b)"
  by (simp add: BalanceInfo_serialize_def fields_bytes_def d_bytes_def f_bytes_def t_bytes_def
      fold_token_bytes Let_def split: option.split)

lemma fill_sel [simp]: "fill (el_received e) (el_spent e) = e"
  by (cases e) (simp add: fill_def)

lemma decodes_token_step: "decodes (token_step s) (token_bytes t) ((\<lambda>(k, v). emplace k v) t s)"
proof -
  obtain k v where t: "t = (k, v)" by force
  have "decodes (token_step s) (token_bytes t)
     (emplace k \<lparr>tb_balance = fill (el_received (tb_balance v)) (el_spent (tb_balance v)),
       tb_countOp = tb_countOp v, tb_countReceived = tb_countReceived v, tb_countSpent = tb_countSpent v\<rparr> s)"
    unfolding token_step_def token_bytes_def t prod.case
    by (rule decodes_string decodes_u64 decodes_map decodes_bind)+
  then show ?thesis
    by (cases v) (simp add: t)
qed

lemma decodes_balance_fields:
  assumes "tokens_ok b" and "length (b_tokens b) < 2 ^ 64"
  shows "decodes balance_fields (fields_bytes b)
    (b\<lparr>b_delegated := None, b_forged := None, b_hash := None, b_tokenBlockNumber := None\<rparr>)"
proof -
  have loop: "decodes (repeatP (unat (of_nat (length (b_tokens b)) :: u64)) token_step [])
      (concat (map token_bytes (b_tokens b))) (b_tokens b)"
    using decodes_repeatP [of token_step token_bytes "\<lambda>(k, v). emplace k v",
        OF decodes_token_step, of "b_tokens b" "[]"] assms
    by (simp add: fold_emplace_distinct unat_of_nat tokens_ok_def)
  have "decodes balance_fields (fields_bytes b)
     (BalanceInfo_default\<lparr>b_balance := fill (el_received (b_balance b)) (el_spent (b_balance b)),
       b_countReceived := b_countReceived b, b_countSpent := b_countSpent b,
       b_blockNumber := b_blockNumber b, b_countTxs := b_countTxs b, b_tokens := b_tokens b\<rparr>)"
    unfolding balance_fields_def fields_bytes_def
    by (rule decodes_u64 loop decodes_map decodes_bind)+
  then show ?thesis
    by (cases b) (simp add: BalanceInfo_default_def)
qed

lemma decodes_section_d: "decodes (balance_section b) (d_bytes (Some d)) (b\<lparr>b_delegated := Some d\<rparr>)"
proof -
  have body: "decodes (section_d b) (serializeInt (db_countOp d) @ serializeInt (el_spent (db_delegate d)) @
       serializeInt (el_received (db_delegate d)) @ serializeInt (el_received (db_delegated d)) @
       serializeInt (el_spent (db_delegated d)) @ serializeInt (db_reserved d))
     (b\<lparr>b_delegated := Some \<lparr>db_delegate = fill (el_received (db_delegate d)) (el_spent (db_delegate d)),
       db_delegated = fill (el_received (db_delegated d)) (el_spent (db_delegated d)),
       db_reserved = db_reserved d, db_countOp = db_countOp d\<rparr>\<rparr>)"
    unfolding section_d_def by (rule decodes_u64 decodes_map decodes_bind)+
  show ?thesis
    unfolding balance_section_def d_bytes_def option.case
    by (rule decodes_bind [OF decodes_byte]) (use body in \<open>cases d, simp\<close>)
qed

lemma decodes_section_f: "decodes (balance_section b) (f_bytes (Some f)) (b\<lparr>b_forged := Some f\<rparr>)"
proof -
  have body: "decodes (section_f b) (serializeInt (fb_countOp f) @ serializeInt (fb_forged f))
     (b\<lparr>b_forged := Some \<lparr>fb_forged = fb_forged f, fb_countOp = fb_countOp f\<rparr>\<rparr>)"
    unfolding section_f_def by (rule decodes_u64 decodes_map decodes_bind)+
  show ?thesis
    unfolding balance_section_def f_bytes_def option.case
    by (rule decodes_bind [OF decodes_byte]) (use body in \<open>cases f, simp\<close>)
qed

lemma decodes_section_t: "decodes (balance_section b) (t_bytes (Some n)) (b\<lparr>b_tokenBlockNumber := Some n\<rparr>)"
proof -
  have body: "decodes (section_t b) (serializeInt n) (b\<lparr>b_tokenBlockNumber := Some n\<rparr>)"
    unfolding section_t_def by (rule decodes_map [OF decodes_u64])
  show ?thesis
    unfolding balance_section_def t_bytes_def option.case
    by (rule decodes_bind [OF decodes_byte]) (use body in simp)
qed

text \<open>One optional section: absent, or read by one turn of the loop.\<close>

lemma balance_sections_step:
  assumes "bs = [] \<and> b' = b \<or> bs \<noteq> [] \<and> decodes (balance_section b) bs b'"
    and "at raw p (bs @ rest)" and "k < n"
  shows "\<exists>m \<ge> k. at raw (adv p bs) rest \<and>
    balance_sections n b raw p = balance_sections m b' raw (adv p bs)"
proof (cases "bs = []")
  case True
  then show ?thesis
    using assms by (intro exI [of _ n]) auto
next
  case False
  then have dec: "balance_section b raw p = Inr (b', adv p bs)"
    using assms(1) decodesD [OF _ assms(2)] by simp
  obtain m where n: "n = Suc m" and "k \<le> m"
    using assms(3) by (cases n) auto
  moreover have "p < size_of raw"
    using assms(2) False by (simp add: at_size_less)
  ultimately show ?thesis
    using at_adv [OF assms(2)] dec by (intro exI [of _ m]) simp
qed

lemma balance_sections_done: "at raw p [] \<Longrightarrow> balance_sections n b raw p = Inr (b, p)"
  by (cases n) (simp_all add: at_size_less)

lemma serializeInt_byte_neq_Nil [simp]: "serializeInt (v :: byte) \<noteq> []"
  using length_serializeInt_byte [of v] by fastforce

lemma balance_sections_all:
  assumes "at raw p (d_bytes d @ f_bytes f @ t_bytes t)" and "3 \<le> n"
    and "b_delegated b = None" and "b_forged b = None" and "b_tokenBlockNumber b = None"
  shows "\<exists>q. balance_sections n b raw p =
    Inr (b\<lparr>b_delegated := d, b_forged := f, b_tokenBlockNumber := t\<rparr>, q)"
proof -
  let ?b1 = "b\<lparr>b_delegated := d\<rparr>" and ?b2 = "b\<lparr>b_delegated := d, b_forged := f\<rparr>"
    and ?b3 = "b\<lparr>b_delegated := d, b_forged := f, b_tokenBlockNumber := t\<rparr>"
  have d: "d_bytes d = [] \<and> ?b1 = b \<or> d_bytes d \<noteq> [] \<and> decodes (balance_section b) (d_bytes d) ?b1"
    using assms(3) decodes_section_d [of b] by (cases d) (simp_all add: d_bytes_def)
  obtain m1 where m1: "2 \<le> m1" "at raw (adv p (d_bytes d)) (f_bytes f @ t_bytes t)"
    "balance_sections n b raw p = balance_sections m1 ?b1 raw (adv p (d_bytes d))"
    using balance_sections_step [OF d assms(1), of 2 n] assms(2) by auto
  have f: "f_bytes f = [] \<and> ?b2 = ?b1 \<or> f_bytes f \<noteq> [] \<and> decodes (balance_section ?b1) (f_bytes f) ?b2"
    using assms(4) decodes_section_f [of ?b1] by (cases f) (simp_all add: f_bytes_def)
  obtain m2 p2 where m2: "1 \<le> m2" "at raw p2 (t_bytes t @ [])"
    "balance_sections m1 ?b1 raw (adv p (d_bytes d)) = balance_sections m2 ?b2 raw p2"
    using balance_sections_step [OF f m1(2), of 1 m1] m1(1) by auto
  have t: "t_bytes t = [] \<and> ?b3 = ?b2 \<or> t_bytes t \<noteq> [] \<and> decodes (balance_section ?b2) (t_bytes t) ?b3"
    using assms(5) decodes_section_t [of ?b2] by (cases t) (simp_all add: t_bytes_def)
  obtain m3 p3 where "at raw p3 []" "balance_sections m2 ?b2 raw p2 = balance_sections m3 ?b3 raw p3"
    using balance_sections_step [OF t m2(2), of 0 m2] m2(1) by auto
  then show ?thesis
    using m1 m2 balance_sections_done by simp
qed

lemma length_token_bytes: "length ts \<le> length (concat (map token_bytes ts))"
  by (induction ts) (auto simp: token_bytes_def)

lemma length_fields_bytes: "56 \<le> length (fields_bytes b)"
  by (simp add: fields_bytes_def)

text \<open>
  C10: A balance written to the database is read back with every field, all its tokens and all
  its optional sections; only the transient \<open>hash\<close> is not stored. The token map has unique keys,
  as every \<open>std::unordered_map\<close> has.
\<close>

theorem BalanceInfo_roundtrip:
  assumes "tokens_ok b" and "length (BalanceInfo_serialize b []) < 2 ^ 64"
  shows "BalanceInfo_deserialize (BalanceInfo_serialize b []) = Inr (b\<lparr>b_hash := None\<rparr>)"
proof -
  let ?raw = "BalanceInfo_serialize b []"
  let ?sections = "d_bytes (b_delegated b) @ f_bytes (b_forged b) @ t_bytes (b_tokenBlockNumber b)"
  let ?b0 = "b\<lparr>b_delegated := None, b_forged := None, b_hash := None, b_tokenBlockNumber := None\<rparr>"
  have raw: "?raw = fields_bytes b @ ?sections"
    by (simp add: BalanceInfo_serialize_eq)
  have few: "length (b_tokens b) < 2 ^ 64"
    using assms(2) length_token_bytes [of "b_tokens b"] by (simp add: raw fields_bytes_def)
  have a: "at ?raw 0 (fields_bytes b @ ?sections)"
    using at_zero [OF assms(2)] raw by simp
  have fields: "balance_fields ?raw 0 = Inr (?b0, adv 0 (fields_bytes b))"
    using decodesD [OF decodes_balance_fields [OF assms(1) few] a] .
  have "3 \<le> length ?raw"
    using length_fields_bytes [of b] by (simp add: raw)
  then obtain q where "balance_sections (length ?raw) ?b0 ?raw (adv 0 (fields_bytes b)) =
      Inr (?b0\<lparr>b_delegated := b_delegated b, b_forged := b_forged b,
        b_tokenBlockNumber := b_tokenBlockNumber b\<rparr>, q)"
    using balance_sections_all [OF at_adv [OF a], of "length ?raw" ?b0] by auto
  moreover have "?raw \<noteq> []"
    using \<open>3 \<le> length ?raw\<close> by auto
  moreover have "?b0\<lparr>b_delegated := b_delegated b, b_forged := b_forged b,
      b_tokenBlockNumber := b_tokenBlockNumber b\<rparr> = b\<lparr>b_hash := None\<rparr>"
    by (cases b) simp
  ultimately show ?thesis
    by (simp add: BalanceInfo_deserialize_def BalanceInfo_parser_def bindP_def fields)
qed

theorem BalanceInfo_roundtrip_witness:
  "BalanceInfo_deserialize (BalanceInfo_serialize (BalanceInfo_default\<lparr>b_balance := fill 7 2,
      b_tokens := [([6, 1], TokenBalance_default)], b_tokenBlockNumber := Some 9\<rparr>) [])
   = Inr (BalanceInfo_default\<lparr>b_balance := fill 7 2,
      b_tokens := [([6, 1], TokenBalance_default)], b_tokenBlockNumber := Some 9\<rparr>)"
  using BalanceInfo_roundtrip [of "BalanceInfo_default\<lparr>b_balance := fill 7 2,
      b_tokens := [([6, 1], TokenBalance_default)], b_tokenBlockNumber := Some 9\<rparr>"]
  by (simp add: tokens_ok_def BalanceInfo_default_def BalanceInfo_serialize_eq fields_bytes_def
      d_bytes_def f_bytes_def t_bytes_def token_bytes_def)

text \<open>
  Reading a stored balance always comes to an end, whatever the bytes are: the loop over the
  tagged sections takes at least one byte per turn, so a buffer cannot keep it running.
\<close>

theorem BalanceInfo_deserialize_terminates:
  assumes "length raw < 2 ^ 63"
  shows "BalanceInfo_deserialize raw \<noteq> Inl Diverges"
  using balance_sections_end [OF assms] never_diverges_fields
  by (auto simp: BalanceInfo_deserialize_def BalanceInfo_parser_def bindP_def bindE_Inl_iff
      never_diverges_def)

theorem BalanceInfo_deserialize_terminates_witness:
  "BalanceInfo_deserialize [0, 1, 2, 3, 4, 5, 6, 7, 8] \<noteq> Inl Diverges"
  by (rule BalanceInfo_deserialize_terminates) simp

end
