(* ===== verification/BlockChain.thy ===== *)
theory BlockChain
  imports BlockInfo
begin

section \<open>The chain of blocks in memory (BlockChain)\<close>

text \<open>
  \<open>blocks\<close> holds the headers by hash, \<open>hashes\<close> the chain by number. The entries of
  \<open>hashes\<close> are references into \<open>blocks\<close>: here they are the keys, so that a reference to an
  erased element is a key that is no longer there, and reading through it is \<open>Undefined\<close>.
  An operation returns the state it leaves behind beside its result, since the exceptions of
  \<open>calcBlockchain\<close> keep what was written before them. \<open>fromHex\<close> belongs to a library and is
  a parameter. The mutex makes every operation atomic.
\<close>

record BlockChain =
  bc_blocks :: "(bytes \<times> BlockHeader) list"
  bc_hashes :: "bytes list"
  bc_lastStateBlock :: u64

definition BlockChain_empty :: BlockChain where
  "BlockChain_empty = \<lparr>bc_blocks = [], bc_hashes = [], bc_lastStateBlock = 0\<rparr>"

definition GENESIS_BLOCK_HASH :: bytes where
  "GENESIS_BLOCK_HASH = lit (replicate 64 CHR ''0'')"

definition initialize :: "(bytes \<Rightarrow> bytes result) \<Rightarrow> BlockChain \<Rightarrow> BlockChain result" where
  "initialize fromHex bc =
     bindE (fromHex GENESIS_BLOCK_HASH) (\<lambda>h.
     let genesisBlock = BlockHeader_default\<lparr>bh_hash := h, bh_blockNumber := Some 0\<rparr>
     in Inr (bc\<lparr>bc_blocks := AList.update h genesisBlock (bc_blocks bc),
                bc_hashes := bc_hashes bc @ [h]\<rparr>))"

definition BlockChain_new :: "(bytes \<Rightarrow> bytes result) \<Rightarrow> BlockChain result" where
  "BlockChain_new fromHex = initialize fromHex BlockChain_empty"

definition clear :: "(bytes \<Rightarrow> bytes result) \<Rightarrow> BlockChain \<Rightarrow> BlockChain result" where
  "clear fromHex bc = initialize fromHex (bc\<lparr>bc_hashes := [], bc_blocks := []\<rparr>)"

definition addWithoutCalc :: "BlockHeader \<Rightarrow> BlockChain \<Rightarrow> (BlockChain \<times> bool) result" where
  "addWithoutCalc block bc =
     bindE (CHECK (bh_hash block \<noteq> []) ''Empty block hash'') (\<lambda>_.
     case map_of (bc_blocks bc) (bh_hash block) of
       Some _ \<Rightarrow> Inr (bc, True)
     | None \<Rightarrow> Inr (bc\<lparr>bc_blocks := AList.update (bh_hash block) block (bc_blocks bc)\<rparr>, False))"

definition removeBlock :: "BlockHeader \<Rightarrow> BlockChain \<Rightarrow> BlockChain result" where
  "removeBlock block bc =
     bindE (CHECK (bh_hash block \<noteq> []) ''Empty block hash'') (\<lambda>_.
     Inr (bc\<lparr>bc_blocks := AList.delete (bh_hash block) (bc_blocks bc)\<rparr>))"

subsection \<open>calcBlockchain\<close>

text \<open>
  The \<open>while\<close> loop: from a block back along \<open>prevHash\<close>, numbering the blocks downwards, until
  a block that has a number or whose parent is not known. \<open>key\<close> stands for the reference \<open>bh\<close>.
  Every turn numbers a block, so the loop ends.
\<close>

definition unnumbered :: "(bytes \<times> BlockHeader) list \<Rightarrow> nat" where
  "unnumbered blocks = length (filter (\<lambda>(k, b). bh_blockNumber b = None) blocks)"

lemma unnumbered_update:
  "map_of blocks key = Some b \<Longrightarrow> bh_blockNumber b = None \<Longrightarrow>
   unnumbered (AList.update key (b\<lparr>bh_blockNumber := Some c\<rparr>) blocks) < unnumbered blocks"
  by (induction blocks) (auto simp: unnumbered_def split: if_splits)

function calc_walk ::
  "(bytes \<times> BlockHeader) list \<Rightarrow> bytes \<Rightarrow> u64 \<Rightarrow> bytes list \<Rightarrow>
   (bytes \<times> BlockHeader) list \<times> (bytes \<times> u64 \<times> bytes list) result" where
  "calc_walk blocks key currNum processedBlocks =
     (case map_of blocks key of
        None \<Rightarrow> (blocks, Inl Undefined)
      | Some b \<Rightarrow>
          if bh_blockNumber b \<noteq> None then (blocks, Inr (key, currNum, processedBlocks))
          else
            let blocks' = AList.update key (b\<lparr>bh_blockNumber := Some currNum\<rparr>) blocks
            in if bh_prevHash b = [] then (blocks', Inl (Check ''Empty block hash''))
               else case map_of blocks' (bh_prevHash b) of
                 None \<Rightarrow> (blocks', Inr (key, currNum + 1, processedBlocks @ [key]))
               | Some _ \<Rightarrow> calc_walk blocks' (bh_prevHash b) (currNum + 1) (processedBlocks @ [key]))"
  by auto
termination
  by (relation "measure (\<lambda>(blocks, _). unnumbered blocks)")
    (use unnumbered_update in \<open>force+\<close>)

declare calc_walk.simps [simp del]

text \<open>The second loop: the blocks just visited, the oldest first, get their final numbers.\<close>

fun calc_number :: "u64 \<Rightarrow> bytes list \<Rightarrow> BlockChain \<Rightarrow> BlockChain \<times> u64 option result" where
  "calc_number allNum [] bc = (bc, Inr (Some allNum))"
| "calc_number allNum (key # keys) bc =
     (case map_of (bc_blocks bc) key of
        None \<Rightarrow> (bc, Inl Undefined)
      | Some b \<Rightarrow>
         (case bh_blockNumber b of
            None \<Rightarrow> (bc, Inl Undefined)
          | Some n \<Rightarrow>
              let number = allNum - n;
                  b' = b\<lparr>bh_blockNumber := Some number\<rparr>;
                  bc1 = bc\<lparr>bc_blocks := AList.update key b' (bc_blocks bc),
                           bc_lastStateBlock := (if isStateBlock b' then max number (bc_lastStateBlock bc)
                                                 else bc_lastStateBlock bc)\<rparr>
              in if number \<noteq> of_nat (length (bc_hashes bc1)) then (bc1, Inr None)
                 else calc_number allNum keys (bc1\<lparr>bc_hashes := bc_hashes bc1 @ [key]\<rparr>)))"

definition reset_number :: "bytes \<Rightarrow> (bytes \<times> BlockHeader) list \<Rightarrow> (bytes \<times> BlockHeader) list" where
  "reset_number key blocks =
     (case map_of blocks key of
        None \<Rightarrow> blocks
      | Some b \<Rightarrow> AList.update key (b\<lparr>bh_blockNumber := None\<rparr>) blocks)"

definition calcBlockchain :: "bytes \<Rightarrow> BlockChain \<Rightarrow> BlockChain \<times> u64 option result" where
  "calcBlockchain lastHash bc =
     (if lastHash = [] then (bc, Inl (Check ''Empty block hash''))
      else if map_of (bc_blocks bc) lastHash = None
        then (bc, Inl (Check ''Hash dont append to blockchain''))
      else
        case calc_walk (bc_blocks bc) lastHash 0 [] of
          (blocks', Inl e) \<Rightarrow> (bc\<lparr>bc_blocks := blocks'\<rparr>, Inl e)
        | (blocks', Inr (key, currNum, processedBlocks)) \<Rightarrow>
            let bc' = bc\<lparr>bc_blocks := blocks'\<rparr>
            in case map_of blocks' key of
                 None \<Rightarrow> (bc', Inl Undefined)
               | Some bh \<Rightarrow>
                   (case bh_blockNumber bh of
                      Some n \<Rightarrow> calc_number (currNum + n) (rev processedBlocks) bc'
                    | None \<Rightarrow> (bc'\<lparr>bc_blocks := fold reset_number processedBlocks blocks'\<rparr>,
                              Inr (Some 0))))"

text \<open>\<open>addBlock\<close> takes the block out again when it does not extend the chain; the handler
  catches the exceptions of \<open>CHECK\<close>.\<close>

definition removed :: "BlockHeader \<Rightarrow> BlockChain \<Rightarrow> 'a result \<Rightarrow> BlockChain \<times> 'a result" where
  "removed block bc r =
     (case removeBlock block bc of Inl e \<Rightarrow> (bc, Inl e) | Inr bc' \<Rightarrow> (bc', r))"

definition addBlock :: "BlockHeader \<Rightarrow> BlockChain \<Rightarrow> BlockChain \<times> u64 option result" where
  "addBlock block bc =
     (case addWithoutCalc block bc of
        Inl e \<Rightarrow> (bc, Inl e)
      | Inr (bc1, found) \<Rightarrow>
          if found then (bc1, Inl (Check ''Block already exist''))
          else
            (case calcBlockchain (bh_hash block) bc1 of
               (bc2, Inr None) \<Rightarrow> removed block bc2 (Inr None)
             | (bc2, Inr (Some n)) \<Rightarrow> (bc2, Inr (Some n))
             | (bc2, Inl (Check msg)) \<Rightarrow> removed block bc2 (Inl (Check msg))
             | (bc2, Inl e) \<Rightarrow> (bc2, Inl e)))"

subsection \<open>Reading\<close>

definition getBlockImpl_hash :: "bytes \<Rightarrow> BlockChain \<Rightarrow> BlockHeader" where
  "getBlockImpl_hash hash bc =
     (case map_of (bc_blocks bc) hash of None \<Rightarrow> BlockHeader_default | Some b \<Rightarrow> b)"

definition getBlock_hash :: "bytes \<Rightarrow> BlockChain \<Rightarrow> BlockHeader result" where
  "getBlock_hash hash bc =
     bindE (CHECK (hash \<noteq> []) ''Empty block hash'') (\<lambda>_. Inr (getBlockImpl_hash hash bc))"

definition getBlock_hex :: "(bytes \<Rightarrow> bytes result) \<Rightarrow> bytes \<Rightarrow> BlockChain \<Rightarrow> BlockHeader result" where
  "getBlock_hex fromHex hash bc = bindE (fromHex hash) (\<lambda>h. getBlock_hash h bc)"

text \<open>\<open>hashes[i]\<close> and the copy of the header behind the reference.\<close>

definition deref :: "u64 \<Rightarrow> BlockChain \<Rightarrow> BlockHeader result" where
  "deref i bc =
     (if unat i < length (bc_hashes bc)
      then (case map_of (bc_blocks bc) (bc_hashes bc ! unat i) of
              None \<Rightarrow> Inl Undefined | Some b \<Rightarrow> Inr b)
      else Inl Undefined)"

definition getBlockImpl_number :: "u64 \<Rightarrow> BlockChain \<Rightarrow> BlockHeader result" where
  "getBlockImpl_number blockNumber bc =
     (if of_nat (length (bc_hashes bc)) \<le> blockNumber then Inr BlockHeader_default
      else deref blockNumber bc)"

definition getBlock_number :: "u64 \<Rightarrow> BlockChain \<Rightarrow> BlockHeader result" where
  "getBlock_number blockNumber bc = getBlockImpl_number blockNumber bc"

definition getLastBlock :: "BlockChain \<Rightarrow> BlockHeader result" where
  "getLastBlock bc = getBlockImpl_number (of_nat (length (bc_hashes bc)) - 1) bc"

definition countBlocks :: "BlockChain \<Rightarrow> u64" where
  "countBlocks bc = of_nat (length (bc_hashes bc)) - 1"

definition getLastStateBlock :: "BlockChain \<Rightarrow> BlockHeader result" where
  "getLastStateBlock bc =
     bindE (CHECK (bc_lastStateBlock bc \<noteq> 0) ''Not found state block'') (\<lambda>_.
     deref (bc_lastStateBlock bc) bc)"

subsection \<open>Well-formed chains\<close>

text \<open>
  \<open>chain_inv\<close>: every entry of \<open>hashes\<close> refers to a header that is still there, carries its
  own number and hash, and (from block 2 on) is linked to the entry before it; the last state
  block is inside the chain. \<open>closed_chain\<close>: \<open>blocks\<close> holds the blocks of the chain and no
  other. The link of block 1 is not part of it: see \<open>orphan_becomes_first_block\<close>.
\<close>

definition entry_ok :: "BlockChain \<Rightarrow> nat \<Rightarrow> bool" where
  "entry_ok bc i =
     (case map_of (bc_blocks bc) (bc_hashes bc ! i) of
        None \<Rightarrow> False
      | Some b \<Rightarrow> bh_blockNumber b = Some (of_nat i) \<and> bh_hash b = bc_hashes bc ! i \<and> bh_hash b \<noteq> [] \<and>
          (2 \<le> i \<longrightarrow> bh_prevHash b = bc_hashes bc ! (i - 1)))"

definition chain_inv :: "BlockChain \<Rightarrow> bool" where
  "chain_inv bc \<longleftrightarrow> bc_hashes bc \<noteq> [] \<and> length (bc_hashes bc) < 2 ^ 64 \<and>
     (\<forall>i \<in> set [0..<length (bc_hashes bc)]. entry_ok bc i) \<and>
     unat (bc_lastStateBlock bc) < length (bc_hashes bc)"

definition closed_chain :: "BlockChain \<Rightarrow> bool" where
  "closed_chain bc \<longleftrightarrow> fst ` set (bc_blocks bc) \<subseteq> set (bc_hashes bc)"

lemma chain_invD:
  assumes "chain_inv bc" and "i < length (bc_hashes bc)"
  obtains b where "map_of (bc_blocks bc) (bc_hashes bc ! i) = Some b"
    and "bh_blockNumber b = Some (of_nat i)" and "bh_hash b = bc_hashes bc ! i" and "bh_hash b \<noteq> []"
    and "2 \<le> i \<Longrightarrow> bh_prevHash b = bc_hashes bc ! (i - 1)"
proof -
  have "entry_ok bc i"
    using assms by (simp add: chain_inv_def)
  then show ?thesis
    by (auto simp: entry_ok_def intro: that split: option.splits)
qed

lemma hashes_distinct:
  assumes "chain_inv bc"
  shows "distinct (bc_hashes bc)"
  unfolding distinct_conv_nth
proof (intro allI impI notI)
  fix i j
  assume ij: "i < length (bc_hashes bc)" "j < length (bc_hashes bc)" "i \<noteq> j"
    and eq: "bc_hashes bc ! i = bc_hashes bc ! j"
  have "i < 2 ^ 64" "j < 2 ^ 64"
    using assms ij by (auto simp: chain_inv_def)
  moreover obtain b where "map_of (bc_blocks bc) (bc_hashes bc ! i) = Some b"
      "bh_blockNumber b = Some (of_nat i)"
    using chain_invD [OF assms ij(1)] by blast
  moreover obtain b' where "map_of (bc_blocks bc) (bc_hashes bc ! j) = Some b'"
      "bh_blockNumber b' = Some (of_nat j)"
    using chain_invD [OF assms ij(2)] by blast
  ultimately show False
    using eq ij(3) of_nat_u64_inject [of i j] by simp
qed

lemma unat_length_hashes: "chain_inv bc \<Longrightarrow> unat (of_nat (length (bc_hashes bc)) :: u64) = length (bc_hashes bc)"
  by (simp add: chain_inv_def unat_of_nat)

subsection \<open>Extending a chain\<close>

text \<open>
  \<open>append_block\<close> is the reference for one step of a successful \<open>calcBlockchain\<close>: the block
  behind \<open>key\<close> becomes the next block of the chain. \<open>chained blocks p keys\<close>: the keys name
  blocks that are linked one to the other, the first of them to \<open>p\<close>.
\<close>

definition append_block :: "bytes \<Rightarrow> BlockChain \<Rightarrow> BlockChain" where
  "append_block key bc =
     (let n = of_nat (length (bc_hashes bc));
          b = (case map_of (bc_blocks bc) key of None \<Rightarrow> BlockHeader_default | Some b \<Rightarrow> b)
      in bc\<lparr>bc_blocks := AList.update key (b\<lparr>bh_blockNumber := Some n\<rparr>) (bc_blocks bc),
            bc_lastStateBlock := (if isStateBlock b then max n (bc_lastStateBlock bc)
                                  else bc_lastStateBlock bc),
            bc_hashes := bc_hashes bc @ [key]\<rparr>)"

fun chained :: "(bytes \<times> BlockHeader) list \<Rightarrow> bytes \<Rightarrow> bytes list \<Rightarrow> bool" where
  "chained blocks p [] = True"
| "chained blocks p (k # ks) =
     (case map_of blocks k of
        None \<Rightarrow> False
      | Some b \<Rightarrow> bh_hash b = k \<and> k \<noteq> [] \<and> bh_prevHash b = p \<and> chained blocks k ks)"

definition not_numbered :: "(bytes \<times> BlockHeader) list \<Rightarrow> bytes \<Rightarrow> bool" where
  "not_numbered blocks k =
     (case map_of blocks k of None \<Rightarrow> False | Some b \<Rightarrow> bh_blockNumber b = None)"

text \<open>What the numbering leaves alone.\<close>

definition links :: "(bytes \<times> BlockHeader) list \<Rightarrow> bytes \<Rightarrow> BlockHeader option" where
  "links blocks k = map_option (\<lambda>b. b\<lparr>bh_blockNumber := None\<rparr>) (map_of blocks k)"

lemma links_renumber [simp]:
  "map_of blocks k = Some b \<Longrightarrow> links (AList.update k (b\<lparr>bh_blockNumber := n\<rparr>) blocks) = links blocks"
  by (rule ext) (simp add: links_def)

lemma isStateBlock_number [simp]: "isStateBlock (b\<lparr>bh_blockNumber := n\<rparr>) = isStateBlock b"
  by (simp add: isStateBlock_def)

lemma links_sel:
  assumes "links bl = links bl'" and "map_of bl k = Some b"
  obtains b' where "map_of bl' k = Some b'" and "bh_hash b' = bh_hash b" and "bh_prevHash b' = bh_prevHash b"
    and "isStateBlock b' = isStateBlock b"
proof -
  have "links bl' k = Some (b\<lparr>bh_blockNumber := None\<rparr>)"
    using assms by (metis links_def option.simps(9))
  then obtain b' where b': "map_of bl' k = Some b'"
      and eq: "b'\<lparr>bh_blockNumber := None\<rparr> = b\<lparr>bh_blockNumber := None\<rparr>"
    by (auto simp: links_def)
  have "bh_hash b' = bh_hash b" "bh_prevHash b' = bh_prevHash b" "isStateBlock b' = isStateBlock b"
    using arg_cong [OF eq, of bh_hash] arg_cong [OF eq, of bh_prevHash]
      arg_cong [OF eq, of isStateBlock] by simp_all
  then show ?thesis
    using b' that by blast
qed

lemma chained_cong: "links bl = links bl' \<Longrightarrow> chained bl p ks \<Longrightarrow> chained bl' p ks"
proof (induction ks arbitrary: p)
  case Nil
  then show ?case by simp
next
  case (Cons k ks)
  then obtain b where b: "map_of bl k = Some b"
    by (auto split: option.splits)
  obtain b' where "map_of bl' k = Some b'" "bh_hash b' = bh_hash b" "bh_prevHash b' = bh_prevHash b"
    using links_sel [OF Cons.prems(1) b] by blast
  then show ?case
    using Cons b by simp
qed

lemma chained_snoc:
  "chained bl p (ks @ [k]) \<longleftrightarrow> chained bl p ks \<and>
     (case map_of bl k of None \<Rightarrow> False
      | Some b \<Rightarrow> bh_hash b = k \<and> k \<noteq> [] \<and> bh_prevHash b = last (p # ks))"
  by (induction ks arbitrary: p) (auto split: option.splits)

text \<open>The first loop along a path of unnumbered blocks.\<close>

fun number_all :: "u64 \<Rightarrow> bytes list \<Rightarrow> (bytes \<times> BlockHeader) list \<Rightarrow> (bytes \<times> BlockHeader) list" where
  "number_all c [] blocks = blocks"
| "number_all c (k # ks) blocks =
     number_all (c + 1) ks
       (AList.update k ((the (map_of blocks k))\<lparr>bh_blockNumber := Some c\<rparr>) blocks)"

lemma calc_walk_path:
  assumes "chained blocks p ks" and "\<forall>k \<in> set ks. not_numbered blocks k" and "distinct ks"
    and "p \<notin> set ks" and "p \<noteq> []" and "map_of blocks p = Some r" and "bh_blockNumber r \<noteq> None"
  shows "calc_walk blocks (last (p # ks)) c pr =
           (number_all c (rev ks) blocks, Inr (p, c + of_nat (length ks), pr @ rev ks))"
  using assms
proof (induction ks arbitrary: blocks c pr rule: rev_induct)
  case Nil
  then show ?case
    by (simp add: calc_walk.simps)
next
  case (snoc k ks)
  obtain b where b: "map_of blocks k = Some b" "bh_prevHash b = last (p # ks)" "bh_blockNumber b = None"
    using snoc.prems(1,2) by (auto simp: chained_snoc not_numbered_def split: option.splits)
  let ?bl = "AList.update k (b\<lparr>bh_blockNumber := Some c\<rparr>) blocks"
  have ne: "last (p # ks) \<noteq> k"
    using snoc.prems(3,4) by (auto split: if_splits)
  have ch0: "chained blocks p ks"
    using snoc.prems(1) by (simp add: chained_snoc)
  have prev: "last (p # ks) \<noteq> [] \<and> map_of blocks (last (p # ks)) \<noteq> None"
  proof (cases ks rule: rev_cases)
    case Nil
    then show ?thesis
      using snoc.prems(5,6) by simp
  next
    case (snoc ks' k')
    then show ?thesis
      using ch0 by (auto simp: chained_snoc split: option.splits)
  qed
  have ch: "chained ?bl p ks"
    using ch0 b(1) by (intro chained_cong [of blocks ?bl]) simp_all
  have "calc_walk ?bl (last (p # ks)) (c + 1) (pr @ [k]) =
      (number_all (c + 1) (rev ks) ?bl, Inr (p, c + 1 + of_nat (length ks), (pr @ [k]) @ rev ks))"
    using snoc.prems ch by (intro snoc.IH) (auto simp: not_numbered_def)
  moreover have "calc_walk blocks k c pr = calc_walk ?bl (last (p # ks)) (c + 1) (pr @ [k])"
    using b ne prev by (subst calc_walk.simps) (auto simp: Let_def split: option.splits)
  ultimately show ?case
    using b by (simp add: ac_simps)
qed

lemma map_of_number_all:
  assumes "distinct ks" and "\<forall>k \<in> set ks. map_of blocks k \<noteq> None" and "j < length ks"
  shows "map_of (number_all c ks blocks) (ks ! j) =
           Some ((the (map_of blocks (ks ! j)))\<lparr>bh_blockNumber := Some (c + of_nat j)\<rparr>)"
proof -
  have frame: "k \<notin> set ks \<Longrightarrow> map_of (number_all c ks blocks) k = map_of blocks k" for k c ks blocks
    by (induction c ks blocks rule: number_all.induct) auto
  show ?thesis
    using assms
  proof (induction c ks blocks arbitrary: j rule: number_all.induct)
    case (2 c k ks blocks)
    then show ?case
      by (cases j) (auto simp: frame add.assoc)
  qed simp
qed

lemma map_of_number_all_other:
  "k \<notin> set ks \<Longrightarrow> map_of (number_all c ks blocks) k = map_of blocks k"
  by (induction c ks blocks rule: number_all.induct) auto

lemma links_number_all:
  "\<forall>k \<in> set ks. map_of blocks k \<noteq> None \<Longrightarrow> links (number_all c ks blocks) = links blocks"
  by (induction c ks blocks rule: number_all.induct) auto

lemma keys_links: "links bl = links bl' \<Longrightarrow> fst ` set bl = fst ` set bl'"
proof -
  assume "links bl = links bl'"
  moreover have "dom (links bl) = fst ` set bl" for bl
    by (auto simp: links_def dom_def simp flip: dom_map_of_conv_image_fst)
  ultimately show ?thesis
    by metis
qed

text \<open>The second loop is a sequence of \<open>append_block\<close> when the numbers fit the chain.\<close>

lemma calc_number_fold:
  assumes "distinct ks"
    and "\<forall>j < length ks. \<exists>b. map_of (bc_blocks bc) (ks ! j) = Some b \<and>
           bh_blockNumber b = Some (allNum - of_nat (length (bc_hashes bc) + j))"
  shows "calc_number allNum ks bc = (fold append_block ks bc, Inr (Some allNum))"
  using assms
proof (induction ks arbitrary: bc)
  case Nil
  then show ?case by simp
next
  case (Cons k ks)
  obtain b where b: "map_of (bc_blocks bc) k = Some b"
      "bh_blockNumber b = Some (allNum - of_nat (length (bc_hashes bc)))"
    using Cons.prems(2) by fastforce
  have step: "calc_number allNum (k # ks) bc = calc_number allNum ks (append_block k bc)"
    using b by (simp add: append_block_def Let_def)
  have "\<exists>b. map_of (bc_blocks (append_block k bc)) (ks ! j) = Some b \<and>
      bh_blockNumber b = Some (allNum - of_nat (length (bc_hashes (append_block k bc)) + j))"
    if "j < length ks" for j
    using Cons.prems that by (auto simp: append_block_def Let_def dest: spec [of _ "Suc j"])
  then show ?case
    using Cons step by simp
qed

text \<open>One more block keeps the chain well-formed.\<close>

definition state_inv :: "BlockChain \<Rightarrow> bool" where
  "state_inv bc \<longleftrightarrow>
     (\<forall>i \<in> set [0..<length (bc_hashes bc)].
        case map_of (bc_blocks bc) (bc_hashes bc ! i) of
          None \<Rightarrow> True
        | Some b \<Rightarrow> (isStateBlock b \<longrightarrow> of_nat i \<le> bc_lastStateBlock bc) \<and>
            (bc_lastStateBlock bc = of_nat i \<and> i \<noteq> 0 \<longrightarrow> isStateBlock b))"

lemma append_block_sel:
  assumes "map_of (bc_blocks bc) k = Some b"
  shows "bc_hashes (append_block k bc) = bc_hashes bc @ [k]"
    and "map_of (bc_blocks (append_block k bc)) =
           (map_of (bc_blocks bc))(k \<mapsto> b\<lparr>bh_blockNumber := Some (of_nat (length (bc_hashes bc)))\<rparr>)"
    and "links (bc_blocks (append_block k bc)) = links (bc_blocks bc)"
    and "bc_lastStateBlock (append_block k bc) =
           (if isStateBlock b then max (of_nat (length (bc_hashes bc))) (bc_lastStateBlock bc)
            else bc_lastStateBlock bc)"
  using assms by (auto simp: append_block_def Let_def)

lemma chain_inv_append:
  assumes inv: "chain_inv bc" and b: "map_of (bc_blocks bc) k = Some b" "bh_hash b = k" "k \<noteq> []"
    and link: "length (bc_hashes bc) = 1 \<or> bh_prevHash b = last (bc_hashes bc)"
    and new: "k \<notin> set (bc_hashes bc)" and small: "length (bc_hashes bc) + 1 < 2 ^ 64"
  shows "chain_inv (append_block k bc)"
proof -
  let ?bc = "append_block k bc" and ?n = "length (bc_hashes bc)"
  note sel = append_block_sel [OF b(1)]
  have ne: "bc_hashes bc \<noteq> []"
    using inv by (simp add: chain_inv_def)
  have "entry_ok ?bc i" if i: "i < Suc ?n" for i
  proof (cases "i = ?n")
    case True
    then show ?thesis
      using b link ne by (auto simp: entry_ok_def sel nth_append last_conv_nth)
  next
    case False
    with i have i: "i < ?n" by simp
    then have "bc_hashes bc ! i \<noteq> k"
      using new nth_mem by blast
    moreover have "entry_ok bc i"
      using inv i by (simp add: chain_inv_def)
    moreover have "i - 1 < ?n"
      using i by simp
    ultimately show ?thesis
      using i by (cases "map_of (bc_blocks bc) (bc_hashes bc ! i)")
        (auto simp: entry_ok_def sel nth_append)
  qed
  moreover have "unat (bc_lastStateBlock ?bc) < Suc ?n"
  proof -
    have "unat (of_nat ?n :: u64) = ?n"
      using small by (intro unat_of_nat_u64) linarith
    moreover have "unat (bc_lastStateBlock bc) < ?n"
      using inv unfolding chain_inv_def by blast
    ultimately show ?thesis
      unfolding sel max_def by (simp split: if_split)
  qed
  ultimately show ?thesis
    using small unfolding chain_inv_def sel by simp
qed

lemma state_inv_append:
  assumes inv: "chain_inv bc" "state_inv bc" and b: "map_of (bc_blocks bc) k = Some b"
    and new: "k \<notin> set (bc_hashes bc)" and small: "length (bc_hashes bc) + 1 < 2 ^ 64"
  shows "state_inv (append_block k bc)"
  unfolding state_inv_def
proof (rule ballI)
  let ?n = "length (bc_hashes bc)"
  note sel = append_block_sel [OF b(1)]
  have last: "bc_lastStateBlock bc < of_nat ?n"
    using inv(1) by (simp add: chain_inv_def word_less_nat_alt unat_of_nat_u64)
  fix i
  assume "i \<in> set [0..<length (bc_hashes (append_block k bc))]"
  then have i: "i < Suc ?n" by (auto simp: sel)
  show "case map_of (bc_blocks (append_block k bc)) (bc_hashes (append_block k bc) ! i) of
          None \<Rightarrow> True
        | Some b \<Rightarrow> (isStateBlock b \<longrightarrow> of_nat i \<le> bc_lastStateBlock (append_block k bc)) \<and>
            (bc_lastStateBlock (append_block k bc) = of_nat i \<and> i \<noteq> 0 \<longrightarrow> isStateBlock b)"
  proof (cases "i = ?n")
    case True
    then show ?thesis
      using last by (auto simp: sel nth_append)
  next
    case False
    with i have i: "i < ?n" by simp
    then have ne: "bc_hashes bc ! i \<noteq> k"
      using new nth_mem by blast
    have "(of_nat i :: u64) < of_nat ?n"
      using i small by (simp add: word_less_nat_alt unat_of_nat_u64)
    then show ?thesis
      using inv(2) i ne last unfolding state_inv_def
      by (auto simp: sel nth_append max_def split: option.splits)
  qed
qed

lemma inv_frame:
  assumes "\<forall>k \<in> set (bc_hashes bc). map_of bl k = map_of (bc_blocks bc) k"
  shows "chain_inv bc \<Longrightarrow> chain_inv (bc\<lparr>bc_blocks := bl\<rparr>)"
    and "state_inv bc \<Longrightarrow> state_inv (bc\<lparr>bc_blocks := bl\<rparr>)"
  using assms by (simp_all add: chain_inv_def entry_ok_def state_inv_def cong: option.case_cong)

lemma fold_append_block:
  assumes "chain_inv bc" and "state_inv bc" and "chained (bc_blocks bc) (last (bc_hashes bc)) ks"
    and "distinct ks" and "set ks \<inter> set (bc_hashes bc) = {}"
    and "length (bc_hashes bc) + length ks < 2 ^ 64"
  shows "chain_inv (fold append_block ks bc) \<and> state_inv (fold append_block ks bc) \<and>
         bc_hashes (fold append_block ks bc) = bc_hashes bc @ ks \<and>
         links (bc_blocks (fold append_block ks bc)) = links (bc_blocks bc)"
  using assms
proof (induction ks arbitrary: bc)
  case Nil
  then show ?case by simp
next
  case (Cons k ks)
  obtain b where b: "map_of (bc_blocks bc) k = Some b" "bh_hash b = k" "k \<noteq> []"
      "bh_prevHash b = last (bc_hashes bc)" "chained (bc_blocks bc) k ks"
    using Cons.prems(3) by (auto split: option.splits)
  note sel = append_block_sel [OF b(1)]
  have new: "k \<notin> set (bc_hashes bc)" and small: "length (bc_hashes bc) + 1 < 2 ^ 64"
    using Cons.prems(5,6) by auto
  have "chained (bc_blocks (append_block k bc)) k ks"
    using chained_cong [OF sel(3) [symmetric] b(5)] .
  then have "chained (bc_blocks (append_block k bc)) (last (bc_hashes (append_block k bc))) ks"
    by (simp add: sel)
  then show ?case
    using Cons.IH [of "append_block k bc"] Cons.prems sel
      chain_inv_append [OF Cons.prems(1) b(1-3) _ new small] b(4)
      state_inv_append [OF Cons.prems(1,2) b(1) new small]
    by simp
qed

lemma chained_nth:
  "chained bl p ks \<Longrightarrow> i < length ks \<Longrightarrow>
   \<exists>b. map_of bl (ks ! i) = Some b \<and> bh_hash b = ks ! i \<and> ks ! i \<noteq> [] \<and> bh_prevHash b = (p # ks) ! i"
  by (induction ks arbitrary: p i) (auto simp: nth_Cons split: option.splits nat.splits)

lemma chained_distinct: "chained bl p ks \<Longrightarrow> p \<notin> set ks \<Longrightarrow> distinct ks"
proof (induction ks rule: rev_induct)
  case Nil
  then show ?case by simp
next
  case (snoc k ks)
  have ch: "chained bl p ks" and d: "distinct (p # ks)"
    using snoc by (auto simp: chained_snoc)
  have "k \<notin> set ks"
  proof
    assume "k \<in> set ks"
    then obtain i where i: "i < length ks" "k = ks ! i"
      by (auto simp: in_set_conv_nth)
    then have "(p # ks) ! i = last (p # ks)"
      using chained_nth [OF ch i(1)] snoc.prems(1) by (auto simp: chained_snoc)
    then have "(p # ks) ! i = (p # ks) ! length ks"
      by (simp add: last_conv_nth)
    then show False
      using d i(1) nth_eq_iff_index_eq [OF d, of i "length ks"] by simp
  qed
  then show ?case
    using d by simp
qed

text \<open>
  \<open>calcBlockchain\<close> on a path of unnumbered blocks that starts at the end of the chain: the
  whole path becomes part of the chain.
\<close>

lemma calcBlockchain_path:
  assumes inv: "chain_inv bc"
    and path: "chained (bc_blocks bc) (last (bc_hashes bc)) ks"
      "\<forall>k \<in> set ks. not_numbered (bc_blocks bc) k" "ks \<noteq> []"
  defines "bc' \<equiv> bc\<lparr>bc_blocks := number_all 0 (rev ks) (bc_blocks bc)\<rparr>"
  shows "calcBlockchain (last ks) bc =
           (fold append_block ks bc', Inr (Some (of_nat (length (bc_hashes bc) + length ks - 1))))"
    and "distinct ks" and "set ks \<inter> set (bc_hashes bc) = {}"
    and "\<forall>k \<in> set (bc_hashes bc). map_of (bc_blocks bc') k = map_of (bc_blocks bc) k"
    and "links (bc_blocks bc') = links (bc_blocks bc)"
proof -
  let ?hs = "bc_hashes bc" and ?bl = "bc_blocks bc"
  let ?n = "length ?hs" and ?p = "last ?hs" and ?all = "of_nat (length ks) + of_nat (length ?hs - 1) :: u64"
  have n: "0 < ?n"
    using inv by (simp add: chain_inv_def)
  obtain r where r: "map_of ?bl ?p = Some r" "bh_blockNumber r = Some (of_nat (?n - 1))" "?p \<noteq> []"
    using chain_invD [OF inv, of "?n - 1"] n by (metis diff_less last_conv_nth length_greater_0_conv zero_less_one)
  show disj: "set ks \<inter> set ?hs = {}"
  proof (rule ccontr)
    assume "set ks \<inter> set ?hs \<noteq> {}"
    then obtain i where "i < ?n" "?hs ! i \<in> set ks"
      by (metis disjoint_iff in_set_conv_nth)
    moreover then obtain b where "map_of ?bl (?hs ! i) = Some b" "bh_blockNumber b = Some (of_nat i)"
      using chain_invD [OF inv, of i] by blast
    ultimately show False
      using path(2) by (auto simp: not_numbered_def)
  qed
  have p: "?p \<notin> set ks"
    using disj n by (metis disjoint_iff last_in_set length_greater_0_conv)
  show dist: "distinct ks"
    using chained_distinct [OF path(1) p] .
  have known: "\<forall>k \<in> set (rev ks). map_of ?bl k \<noteq> None"
    using path(2) by (auto simp: not_numbered_def split: option.splits)
  show frame: "\<forall>k \<in> set ?hs. map_of (bc_blocks bc') k = map_of ?bl k"
    using disj by (auto simp: bc'_def disjoint_iff intro!: map_of_number_all_other)
  show "links (bc_blocks bc') = links ?bl"
    using links_number_all [OF known] by (simp add: bc'_def)
  have lastk: "last ks \<noteq> []" "map_of ?bl (last ks) \<noteq> None"
    using path chained_nth [OF path(1), of "length ks - 1"] by (auto simp: last_conv_nth)
  have rev_nth_num: "map_of (bc_blocks bc') (ks ! j) =
      Some ((the (map_of ?bl (ks ! j)))\<lparr>bh_blockNumber := Some (of_nat (length ks - 1 - j))\<rparr>)"
    if "j < length ks" for j
    using map_of_number_all [of "rev ks" ?bl "length ks - 1 - j" 0] dist known that
    by (simp add: bc'_def rev_nth)
  have num: "(of_nat (length ks - 1 - j) :: u64) = ?all - of_nat (?n + j)" if "j < length ks" for j
  proof -
    have "(of_nat (length ks - 1 - j) :: u64) + of_nat (?n + j) = of_nat (length ks - 1 - j + (?n + j))"
      by (simp only: of_nat_add)
    also have "length ks - 1 - j + (?n + j) = length ks + (?n - 1)"
      using that n by linarith
    finally show ?thesis
      by (simp add: algebra_simps)
  qed
  have "calc_number ?all ks bc' = (fold append_block ks bc', Inr (Some ?all))"
    using rev_nth_num num by (intro calc_number_fold dist) (simp add: bc'_def)
  moreover have "calc_walk ?bl (last ks) 0 [] = (bc_blocks bc', Inr (?p, of_nat (length ks), rev ks))"
    using calc_walk_path [OF path(1,2) dist p r(3) r(1), of 0 "[]"] r(2) path(3) by (simp add: bc'_def)
  moreover have "map_of (bc_blocks bc') ?p = Some r"
    using frame n r(1) by simp
  moreover have "?all = of_nat (?n + length ks - 1)"
  proof -
    have "?n + length ks - 1 = length ks + (?n - 1)"
      using n by linarith
    then show ?thesis
      by (simp only: of_nat_add)
  qed
  ultimately show "calcBlockchain (last ks) bc =
      (fold append_block ks bc', Inr (Some (of_nat (?n + length ks - 1))))"
    using lastk r(2) by (simp add: calcBlockchain_def Let_def bc'_def)
qed

subsection \<open>Adding one block\<close>

definition parent_number :: "BlockHeader \<Rightarrow> BlockChain \<Rightarrow> u64" where
  "parent_number block bc =
     (case map_of (bc_blocks bc) (bh_prevHash block) of
        None \<Rightarrow> 0
      | Some b \<Rightarrow> (case bh_blockNumber b of None \<Rightarrow> 0 | Some n \<Rightarrow> n))"

definition fresh_block :: "BlockHeader \<Rightarrow> BlockChain \<Rightarrow> bool" where
  "fresh_block block bc \<longleftrightarrow> bh_hash block \<noteq> [] \<and> bh_blockNumber block = None \<and>
     map_of (bc_blocks bc) (bh_hash block) = None"

lemma update_snoc: "k \<notin> fst ` set al \<Longrightarrow> AList.update k v (al @ [(k, w)]) = al @ [(k, v)]"
  by (induction al) auto

lemma delete_snoc: "k \<notin> fst ` set al \<Longrightarrow> AList.delete k (al @ [(k, w)]) = al"
  by (force simp: AList.delete_eq filter_id_conv)

lemma calc_walk_one:
  assumes "fresh_block block bc"
    and "\<forall>b. map_of (bc_blocks bc) (bh_prevHash block) = Some b \<longrightarrow> bh_blockNumber b \<noteq> None"
  defines "bl \<equiv> bc_blocks bc @ [(bh_hash block, block\<lparr>bh_blockNumber := Some 0\<rparr>)]"
  shows "bh_prevHash block = [] \<Longrightarrow>
           calc_walk (bc_blocks bc @ [(bh_hash block, block)]) (bh_hash block) 0 [] =
             (bl, Inl (Check ''Empty block hash''))"
    and "bh_prevHash block \<noteq> [] \<Longrightarrow> \<exists>key b.
           calc_walk (bc_blocks bc @ [(bh_hash block, block)]) (bh_hash block) 0 [] =
             (bl, Inr (key, 1, [bh_hash block])) \<and>
           map_of bl key = Some b \<and> bh_blockNumber b = Some (parent_number block bc)"
proof -
  let ?h = "bh_hash block" and ?p = "bh_prevHash block"
  have new: "?h \<notin> fst ` set (bc_blocks bc)"
    using assms(1) by (simp add: fresh_block_def map_of_None_fst)
  have at_h: "map_of (bc_blocks bc @ [(?h, x)]) ?h = Some x" for x
    using assms(1) by (simp add: fresh_block_def map_add_def)
  have other: "k \<noteq> ?h \<Longrightarrow> map_of bl k = map_of (bc_blocks bc) k" for k
    by (simp add: bl_def map_add_def split: option.split)
  note walk = calc_walk.simps [of "bc_blocks bc @ [(?h, block)]"]
  have upd: "AList.update ?h (block\<lparr>bh_blockNumber := Some 0\<rparr>) (bc_blocks bc @ [(?h, block)]) = bl"
    using update_snoc [OF new] by (simp add: bl_def)
  show "?p = [] \<Longrightarrow> calc_walk (bc_blocks bc @ [(?h, block)]) ?h 0 [] = (bl, Inl (Check ''Empty block hash''))"
    using assms(1) by (simp add: walk at_h upd fresh_block_def del: map_of_append)
  assume p: "?p \<noteq> []"
  have step: "calc_walk (bc_blocks bc @ [(?h, block)]) ?h 0 [] =
      (case map_of bl ?p of None \<Rightarrow> (bl, Inr (?h, 1, [?h])) | Some _ \<Rightarrow> calc_walk bl ?p 1 [?h])"
    using assms(1) p
    by (simp add: walk at_h upd fresh_block_def del: map_of_append split: option.split)
  have bl_h: "map_of bl ?h = Some (block\<lparr>bh_blockNumber := Some 0\<rparr>)"
    unfolding bl_def by (rule at_h)
  show "\<exists>key b. calc_walk (bc_blocks bc @ [(?h, block)]) ?h 0 [] = (bl, Inr (key, 1, [?h])) \<and>
      map_of bl key = Some b \<and> bh_blockNumber b = Some (parent_number block bc)"
  proof (cases "?p = ?h")
    case True
    then show ?thesis
      using assms(1) bl_h by (simp add: step calc_walk.simps [of bl] parent_number_def fresh_block_def)
  next
    case False
    show ?thesis
    proof (cases "map_of (bc_blocks bc) ?p")
      case None
      then show ?thesis
        using other [OF False] bl_h by (simp add: step parent_number_def)
    next
      case (Some b)
      then obtain n where "bh_blockNumber b = Some n"
        using assms(2) by blast
      then show ?thesis
        using Some other [OF False] by (simp add: step calc_walk.simps [of bl] parent_number_def)
    qed
  qed
qed

lemma addBlock_eq:
  assumes fresh: "fresh_block block bc"
    and num: "\<forall>b. map_of (bc_blocks bc) (bh_prevHash block) = Some b \<longrightarrow> bh_blockNumber b \<noteq> None"
  defines "n \<equiv> 1 + parent_number block bc"
  defines "state \<equiv> (if isStateBlock block then max n (bc_lastStateBlock bc) else bc_lastStateBlock bc)"
  shows "addBlock block bc =
    (if bh_prevHash block = [] then (bc, Inl (Check ''Empty block hash''))
     else if n \<noteq> of_nat (length (bc_hashes bc)) then (bc\<lparr>bc_lastStateBlock := state\<rparr>, Inr None)
     else (bc\<lparr>bc_blocks := bc_blocks bc @ [(bh_hash block, block\<lparr>bh_blockNumber := Some n\<rparr>)],
              bc_lastStateBlock := state, bc_hashes := bc_hashes bc @ [bh_hash block]\<rparr>, Inr (Some n)))"
proof -
  let ?h = "bh_hash block" and ?p = "bh_prevHash block"
  let ?bl = "bc_blocks bc @ [(?h, block\<lparr>bh_blockNumber := Some 0\<rparr>)]"
  have h: "?h \<noteq> []" and new: "?h \<notin> fst ` set (bc_blocks bc)"
    using fresh by (auto simp: fresh_block_def map_of_None_fst)
  have at_h: "map_of (bc_blocks bc @ [(?h, x)]) ?h = Some x" for x
    using fresh by (simp add: fresh_block_def map_add_def)
  have add: "addWithoutCalc block bc = Inr (bc\<lparr>bc_blocks := bc_blocks bc @ [(?h, block)]\<rparr>, False)"
    using fresh new by (simp add: addWithoutCalc_def fresh_block_def update_append_new)
  note simps = addBlock_def add calcBlockchain_def h at_h removed_def removeBlock_def
    delete_snoc [OF new] update_snoc [OF new] Let_def
  show ?thesis
  proof (cases "?p = []")
    case True
    then show ?thesis
      using calc_walk_one(1) [OF fresh num True] by (simp add: simps del: map_of_append)
  next
    case False
    obtain key b where w: "calc_walk (bc_blocks bc @ [(?h, block)]) ?h 0 [] = (?bl, Inr (key, 1, [?h]))"
        "map_of ?bl key = Some b" "bh_blockNumber b = Some (parent_number block bc)"
      using calc_walk_one(2) [OF fresh num False] by blast
    show ?thesis
      using w False by (auto simp: simps n_def state_def simp del: map_of_append)
  qed
qed

text \<open>\<open>addBlock\<close> extends a chain by a child of its last block, and by any block whose parent is
  unknown while there is nothing but the genesis block.\<close>

definition extends :: "BlockHeader \<Rightarrow> BlockChain \<Rightarrow> bool" where
  "extends block bc \<longleftrightarrow> bh_prevHash block = last (bc_hashes bc) \<or>
     length (bc_hashes bc) = 1 \<and> bh_prevHash block \<notin> set (bc_hashes bc)"

lemma parent_number_cases:
  assumes inv: "chain_inv bc" "closed_chain bc"
  obtains (known) i where "i < length (bc_hashes bc)" and "bh_prevHash block = bc_hashes bc ! i"
      and "parent_number block bc = of_nat i"
    | (unknown) "bh_prevHash block \<notin> set (bc_hashes bc)" and "parent_number block bc = 0"
proof (cases "bh_prevHash block \<in> set (bc_hashes bc)")
  case True
  then obtain i where i: "i < length (bc_hashes bc)" "bh_prevHash block = bc_hashes bc ! i"
    by (auto simp: in_set_conv_nth)
  obtain b where "map_of (bc_blocks bc) (bc_hashes bc ! i) = Some b" "bh_blockNumber b = Some (of_nat i)"
    using chain_invD [OF inv(1) i(1)] by blast
  then show ?thesis
    using i known by (simp add: parent_number_def)
next
  case False
  then have "map_of (bc_blocks bc) (bh_prevHash block) = None"
    using inv(2) by (auto simp: map_of_None_fst closed_chain_def)
  then show ?thesis
    using False unknown by (simp add: parent_number_def)
qed

lemma closed_numbered:
  assumes inv: "chain_inv bc" "closed_chain bc" and b: "map_of (bc_blocks bc) k = Some b"
  shows "bh_blockNumber b \<noteq> None"
proof -
  have "k \<in> set (bc_hashes bc)"
    using inv(2) map_of_SomeD [OF b] unfolding closed_chain_def by force
  then obtain i where i: "i < length (bc_hashes bc)" "k = bc_hashes bc ! i"
    by (auto simp: in_set_conv_nth)
  obtain b' where "map_of (bc_blocks bc) (bc_hashes bc ! i) = Some b'" "bh_blockNumber b' = Some (of_nat i)"
    using chain_invD [OF inv(1) i(1)] by blast
  then show ?thesis
    using b i(2) by simp
qed

lemma parent_number_extends:
  assumes inv: "chain_inv bc" "closed_chain bc"
  shows "1 + parent_number block bc = of_nat (length (bc_hashes bc)) \<longleftrightarrow> extends block bc"
    and "\<not> extends block bc \<Longrightarrow> unat (1 + parent_number block bc) < length (bc_hashes bc)"
proof -
  let ?n = "length (bc_hashes bc)"
  have n: "0 < ?n" "?n < 2 ^ 64"
    using inv(1) by (simp_all add: chain_inv_def)
  obtain i where i: "i < ?n" "parent_number block bc = of_nat i" "Suc i = ?n \<longleftrightarrow> extends block bc"
    using inv
  proof (cases rule: parent_number_cases [where block = block])
    case (known i)
    have "bc_hashes bc ! i = bc_hashes bc ! (?n - 1) \<longleftrightarrow> i = ?n - 1"
      using hashes_distinct [OF inv(1)] known(1) n by (simp add: nth_eq_iff_index_eq)
    moreover have "bh_prevHash block \<in> set (bc_hashes bc)"
      using known by simp
    ultimately have "Suc i = ?n \<longleftrightarrow> extends block bc"
      using known n by (auto simp: extends_def last_conv_nth)
    then show ?thesis
      using known that by blast
  next
    case unknown
    then have "bh_prevHash block \<noteq> last (bc_hashes bc)"
      using n by (metis last_in_set length_greater_0_conv)
    then have "Suc 0 = ?n \<longleftrightarrow> extends block bc"
      using unknown(1) by (auto simp: extends_def)
    then show ?thesis
      using unknown(2) n(1) by (intro that [of 0]) auto
  qed
  have suc: "1 + parent_number block bc = of_nat (Suc i)"
    using i(2) by simp
  have "Suc i < 2 ^ 64"
    using i(1) n(2) by linarith
  then show "1 + parent_number block bc = of_nat ?n \<longleftrightarrow> extends block bc"
    unfolding suc using of_nat_u64_inject [of "Suc i" ?n] n(2) i(3) by metis
  show "\<not> extends block bc \<Longrightarrow> unat (1 + parent_number block bc) < ?n"
    unfolding suc using unat_of_nat_u64 [OF \<open>Suc i < 2 ^ 64\<close>] i(1,3) by linarith
qed

lemma addBlock_closed:
  assumes inv: "chain_inv bc" "closed_chain bc" and fresh: "fresh_block block bc"
  defines "n \<equiv> of_nat (length (bc_hashes bc))"
  shows "addBlock block bc =
    (if bh_prevHash block = [] then (bc, Inl (Check ''Empty block hash''))
     else if extends block bc
       then (bc\<lparr>bc_blocks := bc_blocks bc @ [(bh_hash block, block\<lparr>bh_blockNumber := Some n\<rparr>)],
                bc_lastStateBlock := (if isStateBlock block then max n (bc_lastStateBlock bc) else bc_lastStateBlock bc),
                bc_hashes := bc_hashes bc @ [bh_hash block]\<rparr>, Inr (Some n))
     else (bc\<lparr>bc_lastStateBlock :=
                (if isStateBlock block then max (1 + parent_number block bc) (bc_lastStateBlock bc)
                 else bc_lastStateBlock bc)\<rparr>, Inr None))"
proof -
  have num: "\<forall>b. map_of (bc_blocks bc) (bh_prevHash block) = Some b \<longrightarrow> bh_blockNumber b \<noteq> None"
    using closed_numbered [OF inv] by blast
  show ?thesis
    using parent_number_extends(1) [OF inv, of block]
    by (cases "extends block bc") (simp_all add: addBlock_eq [OF fresh num] n_def)
qed

lemma addBlock_invariant:
  assumes inv: "chain_inv bc" "closed_chain bc" and fresh: "fresh_block block bc"
    and small: "length (bc_hashes bc) + 1 < 2 ^ 64"
  shows "chain_inv (fst (addBlock block bc)) \<and> closed_chain (fst (addBlock block bc))"
proof (cases "bh_prevHash block = []")
  case True
  then show ?thesis
    using addBlock_closed [OF inv fresh] inv by simp
next
  case False
  let ?h = "bh_hash block" and ?n = "length (bc_hashes bc)"
  show ?thesis
  proof (cases "extends block bc")
    case True
    let ?bc = "bc\<lparr>bc_blocks := bc_blocks bc @ [(?h, block)]\<rparr>"
    have new: "?h \<notin> fst ` set (bc_blocks bc)" and h: "?h \<noteq> []"
      using fresh by (auto simp: fresh_block_def map_of_None_fst)
    have known: "map_of (bc_blocks bc) k \<noteq> None" if "k \<in> set (bc_hashes bc)" for k
      using chain_invD [OF inv(1)] that by (metis in_set_conv_nth option.distinct(1))
    have new': "?h \<notin> set (bc_hashes bc)"
      using known [of ?h] fresh by (auto simp: fresh_block_def)
    have "chain_inv ?bc"
      using known by (intro inv_frame inv(1)) (fastforce simp: map_add_def)
    moreover have at_h: "map_of (bc_blocks ?bc) ?h = Some block"
      using fresh by (simp add: fresh_block_def map_add_def)
    ultimately have "chain_inv (append_block ?h ?bc)"
      using True h new' small by (intro chain_inv_append) (auto simp: extends_def)
    moreover have "append_block ?h ?bc = fst (addBlock block bc)"
      using addBlock_closed [OF inv fresh] True False at_h
      by (simp add: append_block_def Let_def update_snoc [OF new] del: map_of_append)
    moreover have "closed_chain (fst (addBlock block bc))"
      using addBlock_closed [OF inv fresh] True False inv(2) by (auto simp: closed_chain_def)
    ultimately show ?thesis
      by simp
  next
    case ext: False
    have "unat (bc_lastStateBlock (fst (addBlock block bc))) < ?n"
      using inv(1) parent_number_extends(2) [OF inv ext] addBlock_closed [OF inv fresh] ext False
      by (simp add: chain_inv_def max_def)
    then show ?thesis
      using addBlock_closed [OF inv fresh] ext False inv
      by (simp add: chain_inv_def closed_chain_def entry_ok_def cong: option.case_cong)
  qed
qed

subsection \<open>The read interface\<close>

text \<open>
  \<open>BlockChainReadInterface\<close> is what the workers and the server see of the chain. Its contract:
  the blocks up to \<open>count\<close> are found by number and by hash and are linked; there is nothing
  beyond. \<open>walk_back\<close> is how a client follows the links.
\<close>

fun walk_back :: "(bytes \<Rightarrow> BlockHeader result) \<Rightarrow> nat \<Rightarrow> BlockHeader \<Rightarrow> BlockHeader result" where
  "walk_back look 0 b = Inr b"
| "walk_back look (Suc k) b = bindE (look (bh_prevHash b)) (walk_back look k)"

locale chain_reader =
  fixes inv :: "'c \<Rightarrow> bool"
    and by_hash :: "bytes \<Rightarrow> 'c \<Rightarrow> BlockHeader result"
    and by_number :: "u64 \<Rightarrow> 'c \<Rightarrow> BlockHeader result"
    and last_block :: "'c \<Rightarrow> BlockHeader result"
    and count :: "'c \<Rightarrow> u64"
  assumes found: "inv c \<Longrightarrow> n \<le> count c \<Longrightarrow>
      \<exists>b. by_number n c = Inr b \<and> bh_blockNumber b = Some n \<and> by_hash (bh_hash b) c = Inr b"
    and beyond: "inv c \<Longrightarrow> count c < n \<Longrightarrow> by_number n c = Inr BlockHeader_default"
    and last_is_count: "inv c \<Longrightarrow> last_block c = by_number (count c) c"
    and linked: "inv c \<Longrightarrow> 2 \<le> n \<Longrightarrow> n \<le> count c \<Longrightarrow> by_number n c = Inr b \<Longrightarrow>
      by_number (n - 1) c = Inr a \<Longrightarrow> bh_prevHash b = bh_hash a"
begin

lemma hash_determines_number:
  assumes "inv c" and "n \<le> count c" and "m \<le> count c"
    and "by_number n c = Inr a" and "by_number m c = Inr b" and "bh_hash a = bh_hash b"
  shows "n = m"
  using found [OF assms(1,2)] found [OF assms(1,3)] assms(4-6) by fastforce

lemma parent_by_hash:
  assumes "inv c" and "2 \<le> n" and "n \<le> count c" and "by_number n c = Inr b"
  shows "by_hash (bh_prevHash b) c = by_number (n - 1) c"
proof -
  have "n \<noteq> 0"
    using assms(2) by auto
  then have "n - 1 \<le> n"
    by (simp add: word_le_nat_alt unat_pred_u64)
  then have "n - 1 \<le> count c"
    using assms(3) by simp
  then obtain a where "by_number (n - 1) c = Inr a" "by_hash (bh_hash a) c = Inr a"
    using found [OF assms(1)] by blast
  then show ?thesis
    using linked [OF assms] by simp
qed

lemma walk_back_numbers:
  assumes "inv c" and "n \<le> count c" and "k < unat n" and "by_number n c = Inr b"
  shows "walk_back (\<lambda>h. by_hash h c) k b = by_number (n - of_nat k) c"
  using assms(2-)
proof (induction k arbitrary: n b)
  case 0
  then show ?case by simp
next
  case (Suc k)
  have n: "2 \<le> n" "n \<noteq> 0"
    using Suc.prems(2) by (auto simp: word_le_nat_alt)
  have le: "n - 1 \<le> count c"
    using Suc.prems(1) n(2) by (simp add: word_le_nat_alt unat_pred_u64)
  then obtain a where a: "by_number (n - 1) c = Inr a"
    using found [OF assms(1)] by blast
  have "k < unat (n - 1)"
    using Suc.prems(2) n(2) by (simp add: unat_pred_u64)
  then have "walk_back (\<lambda>h. by_hash h c) k a = by_number (n - 1 - of_nat k) c"
    using Suc.IH le a by blast
  moreover have "by_hash (bh_prevHash b) c = Inr a"
    using parent_by_hash [OF assms(1) n(1) Suc.prems(1,3)] a by simp
  ultimately show ?case
    by (simp add: algebra_simps)
qed

end

lemma deref_ok:
  assumes "chain_inv bc" and "n \<le> countBlocks bc"
  obtains b where "unat n < length (bc_hashes bc)"
    and "map_of (bc_blocks bc) (bc_hashes bc ! unat n) = Some b" and "getBlock_number n bc = Inr b"
    and "bh_blockNumber b = Some n" and "bh_hash b = bc_hashes bc ! unat n" and "bh_hash b \<noteq> []"
    and "2 \<le> unat n \<Longrightarrow> bh_prevHash b = bc_hashes bc ! (unat n - 1)"
proof -
  let ?len = "length (bc_hashes bc)"
  have ne: "(of_nat ?len :: u64) \<noteq> 0" and len: "unat (of_nat ?len :: u64) = ?len" "0 < ?len"
    using assms(1) unat_length_hashes [OF assms(1)] by (auto simp: chain_inv_def)
  have "unat n \<le> ?len - 1"
    using assms(2) len(1) unat_pred_u64 [OF ne] by (simp add: countBlocks_def word_le_nat_alt)
  then have lt: "unat n < ?len"
    using len(2) by linarith
  then have "getBlock_number n bc = deref n bc"
    using len by (simp add: getBlock_number_def getBlockImpl_number_def word_le_nat_alt)
  moreover obtain b where "map_of (bc_blocks bc) (bc_hashes bc ! unat n) = Some b"
      "bh_blockNumber b = Some (of_nat (unat n))" "bh_hash b = bc_hashes bc ! unat n" "bh_hash b \<noteq> []"
      "2 \<le> unat n \<Longrightarrow> bh_prevHash b = bc_hashes bc ! (unat n - 1)"
    using chain_invD [OF assms(1) lt] by blast
  ultimately show ?thesis
    using lt that by (simp add: deref_def)
qed

interpretation read_interface:
  chain_reader chain_inv getBlock_hash getBlock_number getLastBlock countBlocks
proof
  fix bc n
  assume inv: "chain_inv bc" and n: "n \<le> countBlocks bc"
  obtain b where "map_of (bc_blocks bc) (bc_hashes bc ! unat n) = Some b"
      "getBlock_number n bc = Inr b" "bh_blockNumber b = Some n" "bh_hash b = bc_hashes bc ! unat n"
      "bh_hash b \<noteq> []"
    by (rule deref_ok [OF inv n])
  then show "\<exists>b. getBlock_number n bc = Inr b \<and> bh_blockNumber b = Some n \<and>
      getBlock_hash (bh_hash b) bc = Inr b"
    by (simp add: getBlock_hash_def getBlockImpl_hash_def)
next
  fix bc n
  assume inv: "chain_inv bc" and n: "countBlocks bc < n"
  have "(of_nat (length (bc_hashes bc)) :: u64) \<noteq> 0"
    using inv unat_length_hashes [OF inv] by (auto simp: chain_inv_def)
  then have "of_nat (length (bc_hashes bc)) \<le> n"
    using n unat_pred_u64 by (simp add: countBlocks_def word_le_nat_alt word_less_nat_alt)
  then show "getBlock_number n bc = Inr BlockHeader_default"
    by (simp add: getBlock_number_def getBlockImpl_number_def)
next
  fix bc
  show "getLastBlock bc = getBlock_number (countBlocks bc) bc"
    by (simp add: getLastBlock_def countBlocks_def getBlock_number_def)
next
  fix bc n b a
  assume inv: "chain_inv bc" and n: "2 \<le> n" "n \<le> countBlocks bc"
    and b: "getBlock_number n bc = Inr b" and a: "getBlock_number (n - 1) bc = Inr a"
  have ne: "n \<noteq> 0" and two: "2 \<le> unat n"
    using n(1) by (auto simp: word_le_nat_alt)
  have le: "n - 1 \<le> countBlocks bc"
    using n(2) ne by (simp add: word_le_nat_alt unat_pred_u64)
  obtain b' where "getBlock_number n bc = Inr b'" "bh_prevHash b' = bc_hashes bc ! (unat n - 1)"
    by (rule deref_ok [OF inv n(2)]) (use two in blast)
  moreover obtain a' where "getBlock_number (n - 1) bc = Inr a'" "bh_hash a' = bc_hashes bc ! unat (n - 1)"
    by (rule deref_ok [OF inv le])
  ultimately show "bh_prevHash b = bh_hash a"
    using a b two ne by (simp add: unat_pred_u64)
qed

subsection \<open>Reachable chains\<close>

inductive chain_reachable :: "(bytes \<Rightarrow> bytes result) \<Rightarrow> BlockChain \<Rightarrow> bool" for fromHex where
  created: "BlockChain_new fromHex = Inr bc \<Longrightarrow> chain_reachable fromHex bc"
| added: "chain_reachable fromHex bc \<Longrightarrow> bh_blockNumber block = None \<Longrightarrow>
    length (bc_hashes bc) + 1 < 2 ^ 64 \<Longrightarrow> chain_reachable fromHex (fst (addBlock block bc))"

lemma addBlock_refused:
  assumes "bh_blockNumber block = None" and "\<not> fresh_block block bc"
  shows "fst (addBlock block bc) = bc"
  using assms by (auto simp: fresh_block_def addBlock_def addWithoutCalc_def CHECK_def split: option.splits)

lemma new_chain:
  assumes "fromHex GENESIS_BLOCK_HASH = Inr h" and "h \<noteq> []" and "BlockChain_new fromHex = Inr bc"
  shows "chain_inv bc \<and> closed_chain bc"
  using assms by (auto simp: BlockChain_new_def initialize_def BlockChain_empty_def Let_def
      chain_inv_def closed_chain_def entry_ok_def)

lemma reachable_inv:
  assumes "chain_reachable fromHex bc" and "fromHex GENESIS_BLOCK_HASH = Inr h" and "h \<noteq> []"
  shows "chain_inv bc \<and> closed_chain bc"
  using assms(1)
proof induction
  case (created bc)
  then show ?case
    using new_chain [of fromHex h bc] assms(2,3) by blast
next
  case (added bc block)
  then show ?case
    using addBlock_invariant [of bc block] addBlock_refused [of block bc] by metis
qed

subsection \<open>Properties\<close>

text \<open>
  C11: Loading a chain from the database. When the headers read with \<open>addWithoutCalc\<close> contain a
  path of unnumbered blocks that starts at the end of the present chain and ends in the block
  \<open>calcBlockchain\<close> is called with, the whole path is appended in order, \<open>calcBlockchain\<close> returns
  the number of the last block, the headers keep everything but their numbers, and the chain
  and the number of its last state block are right afterwards.
\<close>

theorem calcBlockchain_loads:
  assumes "chain_inv bc" and "state_inv bc"
    and "chained (bc_blocks bc) (last (bc_hashes bc)) ks"
    and "\<forall>k \<in> set ks. not_numbered (bc_blocks bc) k" and "ks \<noteq> []"
    and "length (bc_hashes bc) + length ks < 2 ^ 64"
  shows "\<exists>bc'. calcBlockchain (last ks) bc =
             (bc', Inr (Some (of_nat (length (bc_hashes bc) + length ks - 1)))) \<and>
           bc_hashes bc' = bc_hashes bc @ ks \<and> chain_inv bc' \<and> state_inv bc' \<and>
           links (bc_blocks bc') = links (bc_blocks bc)"
proof -
  let ?bc = "bc\<lparr>bc_blocks := number_all 0 (rev ks) (bc_blocks bc)\<rparr>"
  note path = calcBlockchain_path [OF assms(1,3,4,5)]
  have "chained (bc_blocks ?bc) (last (bc_hashes ?bc)) ks"
    using chained_cong [OF path(5) [symmetric] assms(3)] by simp
  then show ?thesis
    using fold_append_block [of ?bc ks] path inv_frame [OF path(4)] assms by simp
qed

definition sample_block :: "byte \<Rightarrow> byte \<Rightarrow> u64 \<Rightarrow> BlockHeader" where
  "sample_block h p t = BlockHeader_default\<lparr>bh_hash := [h], bh_prevHash := [p], bh_blockType := t\<rparr>"

definition sample_chain :: "BlockHeader list \<Rightarrow> BlockChain" where
  "sample_chain bs = \<lparr>bc_blocks = ([9], BlockHeader_default\<lparr>bh_hash := [9], bh_blockNumber := Some 0\<rparr>) #
       map (\<lambda>b. (bh_hash b, b)) bs,
     bc_hashes = [[9]], bc_lastStateBlock = 0\<rparr>"

theorem calcBlockchain_loads_witness:
  "bc_hashes (fst (calcBlockchain [3] (sample_chain [sample_block 2 1 BLOCK_TYPE_STATE, sample_block 3 2 0, sample_block 1 9 0])))
     = [[9], [1], [2], [3]]"
proof -
  let ?bc = "sample_chain [sample_block 2 1 BLOCK_TYPE_STATE, sample_block 3 2 0, sample_block 1 9 0]"
  have "chain_inv ?bc" "state_inv ?bc" "chained (bc_blocks ?bc) (last (bc_hashes ?bc)) [[1], [2], [3]]"
      "\<forall>k \<in> set [[1], [2], [3]]. not_numbered (bc_blocks ?bc) k"
      "length (bc_hashes ?bc) + length [[1], [2], [3] :: bytes] < 2 ^ 64"
    by (simp_all add: sample_chain_def sample_block_def chain_inv_def state_inv_def entry_ok_def
        not_numbered_def isStateBlock_def block_type_defs BlockHeader_default_def)
  then show ?thesis
    using calcBlockchain_loads [of ?bc "[[1], [2], [3]]"] by (auto simp: sample_chain_def)
qed


lemmas sample_simps = sample_chain_def sample_block_def chain_inv_def closed_chain_def state_inv_def
  entry_ok_def fresh_block_def extends_def isStateBlock_def block_type_defs BlockHeader_default_def




text \<open>
  A client that follows the parent hashes from the last block, \<open>k\<close> steps back, looking the
  parents up by hash, reads the block that stands \<open>k\<close> numbers before it.
\<close>

theorem walk_back_from_last:
  assumes "chain_inv bc" and "k < unat (countBlocks bc)" and "getLastBlock bc = Inr b"
  shows "walk_back (\<lambda>h. getBlock_hash h bc) k b = getBlock_number (countBlocks bc - of_nat k) bc"
  using read_interface.walk_back_numbers [OF assms(1) _ assms(2)] assms(3)
    read_interface.last_is_count [OF assms(1)] by simp

definition sample_loaded :: BlockChain where
  "sample_loaded = \<lparr>bc_blocks = [([9], BlockHeader_default\<lparr>bh_hash := [9], bh_blockNumber := Some 0\<rparr>),
     ([1], (sample_block 1 9 0)\<lparr>bh_blockNumber := Some 1\<rparr>),
     ([2], (sample_block 2 1 0)\<lparr>bh_blockNumber := Some 2\<rparr>)],
     bc_hashes = [[9], [1], [2]], bc_lastStateBlock = 0\<rparr>"

theorem walk_back_from_last_witness:
  "walk_back (\<lambda>h. getBlock_hash h sample_loaded) 1 ((sample_block 2 1 0)\<lparr>bh_blockNumber := Some 2\<rparr>) =
     getBlock_number 1 sample_loaded"
proof -
  have "chain_inv sample_loaded" "1 < unat (countBlocks sample_loaded)"
      "getLastBlock sample_loaded = Inr ((sample_block 2 1 0)\<lparr>bh_blockNumber := Some 2\<rparr>)"
    by (auto simp: sample_loaded_def sample_simps countBlocks_def getLastBlock_def
        getBlockImpl_number_def deref_def nth_Cons' less_Suc_eq)
  from walk_back_from_last [OF this] show ?thesis
    by (simp add: sample_loaded_def countBlocks_def)
qed

text \<open>
  A defect of \<open>calcBlockchain\<close>: the loop gives a block its provisional number before it looks
  for the parent, so the test behind the loop never sees a missing parent. Beside the genesis
  block alone, a block with an unknown parent (or with itself as its parent) is accepted as
  block 1.
\<close>

theorem orphan_becomes_first_block:
  assumes "chain_inv bc" and "closed_chain bc" and "fresh_block block bc"
    and "length (bc_hashes bc) = 1" and "bh_prevHash block \<notin> set (bc_hashes bc)" and "bh_prevHash block \<noteq> []"
  shows "snd (addBlock block bc) = Inr (Some 1) \<and>
         bc_hashes (fst (addBlock block bc)) = bc_hashes bc @ [bh_hash block]"
  using assms(4-) by (simp add: addBlock_closed [OF assms(1-3)] extends_def)

theorem orphan_becomes_first_block_witness:
  "snd (addBlock (sample_block 1 77 0) (sample_chain [])) = Inr (Some 1) \<and>
   snd (addBlock (sample_block 1 1 0) (sample_chain [])) = Inr (Some 1)"
proof -
  have "chain_inv (sample_chain [])" "closed_chain (sample_chain [])"
      "fresh_block (sample_block 1 p 0) (sample_chain [])" "length (bc_hashes (sample_chain [])) = 1"
      "p \<noteq> 9 \<Longrightarrow> bh_prevHash (sample_block 1 p 0) \<notin> set (bc_hashes (sample_chain []))"
      "bh_prevHash (sample_block 1 p 0) \<noteq> []" for p
    by (simp_all add: sample_simps)
  from orphan_becomes_first_block [OF this(1,2,3,4) this(5,6)] show ?thesis
    by simp
qed

text \<open>
  A defect of \<open>calcBlockchain\<close>: the number of the last state block is moved before the block
  is refused. After a state block that forks off block \<open>i\<close> has been refused,
  \<open>getLastStateBlock\<close> returns block \<open>i + 1\<close> of the chain, whatever its type.
\<close>

theorem refused_state_block_moves_last_state:
  assumes "chain_inv bc" and "closed_chain bc" and "fresh_block block bc" and "isStateBlock block"
    and "Suc i < length (bc_hashes bc)" and "bh_prevHash block = bc_hashes bc ! i"
    and "unat (bc_lastStateBlock bc) < Suc i"
  shows "snd (addBlock block bc) = Inr None \<and>
         getLastStateBlock (fst (addBlock block bc)) = getBlock_number (of_nat (Suc i)) bc"
proof -
  let ?n = "length (bc_hashes bc)"
  have n: "?n < 2 ^ 64" "bc_hashes bc \<noteq> []"
    using assms(1) by (auto simp: chain_inv_def)
  have i: "i < ?n"
    using assms(5) by simp
  obtain b where b: "map_of (bc_blocks bc) (bc_hashes bc ! i) = Some b"
      "bh_blockNumber b = Some (of_nat i)" "bh_hash b = bc_hashes bc ! i" "bh_hash b \<noteq> []"
    using chain_invD [OF assms(1) i] by blast
  have p: "parent_number block bc = of_nat i"
    using b assms(6) by (simp add: parent_number_def)
  have suc: "unat (1 + of_nat i :: u64) = Suc i"
    using unat_of_nat_u64 [of "Suc i"] assms(5) n(1) by simp
  have "bc_hashes bc ! i \<noteq> last (bc_hashes bc)"
    using hashes_distinct [OF assms(1)] assms(5) n(2) by (simp add: last_conv_nth nth_eq_iff_index_eq)
  then have "\<not> extends block bc" and "bh_prevHash block \<noteq> []"
    using assms(5,6) b(3,4) by (auto simp: extends_def)
  moreover have "max (1 + of_nat i) (bc_lastStateBlock bc) = 1 + of_nat i"
    using assms(7) suc by (simp add: max_def word_le_nat_alt)
  moreover have "(1 + of_nat i :: u64) \<noteq> 0"
    using suc by auto
  moreover have "getBlock_number (1 + of_nat i) bc = deref (1 + of_nat i) bc"
    using suc assms(5) unat_length_hashes [OF assms(1)]
    by (simp add: getBlock_number_def getBlockImpl_number_def word_le_nat_alt)
  ultimately show ?thesis
    using assms(4) p by (simp add: addBlock_closed [OF assms(1-3)] getLastStateBlock_def deref_def)
qed

theorem refused_state_block_moves_last_state_witness:
  "getLastStateBlock (fst (addBlock (sample_block 5 9 BLOCK_TYPE_STATE) sample_loaded)) =
     getBlock_number (of_nat (Suc 0)) sample_loaded"
proof -
  have "chain_inv sample_loaded" "closed_chain sample_loaded"
      "fresh_block (sample_block 5 9 BLOCK_TYPE_STATE) sample_loaded"
      "isStateBlock (sample_block 5 9 BLOCK_TYPE_STATE)" "Suc 0 < length (bc_hashes sample_loaded)"
      "bh_prevHash (sample_block 5 9 BLOCK_TYPE_STATE) = bc_hashes sample_loaded ! 0"
      "unat (bc_lastStateBlock sample_loaded) < Suc 0"
    by (auto simp: sample_loaded_def sample_simps nth_Cons' less_Suc_eq)
  from refused_state_block_moves_last_state [OF this] show ?thesis
    by simp
qed

text \<open>
  A defect of \<open>clear\<close>: it forgets the blocks but not the number of the last state block, so
  that the next \<open>getLastStateBlock\<close> reads outside of \<open>hashes\<close>.
\<close>

theorem clear_leaves_last_state:
  assumes "fromHex GENESIS_BLOCK_HASH = Inr h" and "bc_lastStateBlock bc \<noteq> 0"
  shows "\<exists>bc'. clear fromHex bc = Inr bc' \<and> bc_hashes bc' = [h] \<and> getLastStateBlock bc' = Inl Undefined"
  using assms by (simp add: clear_def initialize_def Let_def getLastStateBlock_def deref_def unat_eq_0)

theorem clear_leaves_last_state_witness:
  "\<exists>bc'. clear (\<lambda>_. Inr [9]) (sample_loaded\<lparr>bc_lastStateBlock := 2\<rparr>) = Inr bc' \<and>
     getLastStateBlock bc' = Inl Undefined"
  using clear_leaves_last_state [of "\<lambda>_. Inr [9]" "[9]" "sample_loaded\<lparr>bc_lastStateBlock := 2\<rparr>"] by auto

end
