(* ===== verification/BlocksTimeline.thy ===== *)
theory BlocksTimeline
  imports BlockInfo
begin

section \<open>The timeline of blocks and signatures (BlocksTimeline)\<close>

text \<open>
  The order in which transaction blocks and signature blocks were met. The elements stand in a
  \<open>std::list\<close> that only grows at its end, so an iterator is modelled by an index, and the past-the-end
  iterator by the length of the list; the two maps lead from a hash to an iterator. The elements
  are kept in the database under their number and read back by \<open>deserialize\<close>.
\<close>

datatype Element = SignBlockElement MinimumSignBlockHeader | SimpleBlockElement bytes

record BlocksTimeline =
  tl_initialized :: bool
  tl_timeline :: "Element list"
  tl_hashes :: "(bytes \<times> nat) list"
  tl_signsParent :: "(bytes \<times> nat) list"

definition BlocksTimeline_empty :: BlocksTimeline where
  "BlocksTimeline_empty = \<lparr>tl_initialized = False, tl_timeline = [], tl_hashes = [], tl_signsParent = []\<rparr>"

fun el_hash :: "Element \<Rightarrow> bytes" where
  "el_hash (SignBlockElement m) = ms_hash m"
| "el_hash (SimpleBlockElement h) = h"

fun is_simple :: "Element \<Rightarrow> bool" where
  "is_simple (SignBlockElement m) = False"
| "is_simple (SimpleBlockElement h) = True"

subsection \<open>The stored form of an element\<close>

definition SimpleBlockElement_serialize :: "bytes \<Rightarrow> bytes \<Rightarrow> bytes result" where
  "SimpleBlockElement_serialize hash buffer =
     bindE (CHECK (hash \<noteq> []) ''empty hash'') (\<lambda>_. Inr (serializeVector_buf hash buffer))"

definition SimpleBlockElement_deserialize :: "bytes parser" where
  "SimpleBlockElement_deserialize = deserializeVector"

fun serializeElement :: "Element \<Rightarrow> bytes result" where
  "serializeElement (SignBlockElement m) = serializeVariant 0 (MinimumSignBlockHeader_serialize m) []"
| "serializeElement (SimpleBlockElement h) = serializeVariant 1 (SimpleBlockElement_serialize h) []"

definition element_parsers :: "Element parser list" where
  "element_parsers =
     [bindP MinimumSignBlockHeader_deserialize (\<lambda>m. returnP (SignBlockElement m)),
      bindP SimpleBlockElement_deserialize (\<lambda>h. returnP (SimpleBlockElement h))]"

subsection \<open>Operations\<close>

text \<open>\<open>timeline.insert(end, el)\<close> with the entries of the two maps.\<close>

definition insert_element :: "Element \<Rightarrow> BlocksTimeline \<Rightarrow> BlocksTimeline" where
  "insert_element el t =
     (let iter = length (tl_timeline t)
      in t\<lparr>tl_timeline := tl_timeline t @ [el],
           tl_hashes := emplace (el_hash el) iter (tl_hashes t),
           tl_signsParent := (case el of SignBlockElement m \<Rightarrow> emplace (ms_prevHash m) iter (tl_signsParent t)
                              | SimpleBlockElement _ \<Rightarrow> tl_signsParent t)\<rparr>)"

fun deserialize_elements :: "(u64 \<times> bytes) list \<Rightarrow> BlocksTimeline \<Rightarrow> BlocksTimeline \<times> unit result" where
  "deserialize_elements [] t = (t, Inr ())"
| "deserialize_elements ((number, element) # elements) t =
     (if number \<noteq> of_nat (length (tl_hashes t)) then (t, Inl (Check ''Incorrect sequence''))
      else case deserializeVarint element_parsers element 0 of
             Inl e \<Rightarrow> (t, Inl e)
           | Inr (el, _) \<Rightarrow> deserialize_elements elements (insert_element el t))"

definition BlocksTimeline_deserialize :: "(u64 \<times> bytes) list \<Rightarrow> BlocksTimeline \<Rightarrow> BlocksTimeline \<times> unit result" where
  "BlocksTimeline_deserialize elements t =
     (case deserialize_elements elements t of
        (t', Inl e) \<Rightarrow> (t', Inl e)
      | (t', Inr _) \<Rightarrow> (t'\<lparr>tl_initialized := True\<rparr>, Inr ()))"

definition BlocksTimeline_size :: "BlocksTimeline \<Rightarrow> u64" where
  "BlocksTimeline_size t = of_nat (length (tl_hashes t))"

text \<open>What the two ways of adding have in common. A failing serialisation leaves the element in
  the timeline.\<close>

definition add_element :: "Element \<Rightarrow> BlocksTimeline \<Rightarrow> BlocksTimeline \<times> (u64 \<times> bytes) result" where
  "add_element el t =
     (if map_of (tl_hashes t) (el_hash el) \<noteq> None then (t, Inl (Check ''Element already exist''))
      else let t' = insert_element el t
           in (t', bindE (serializeElement el) (\<lambda>bs. Inr (of_nat (length (tl_hashes t')) - 1, bs))))"

definition addSimpleBlock :: "BlockHeader \<Rightarrow> BlocksTimeline \<Rightarrow> BlocksTimeline \<times> (u64 \<times> bytes) result" where
  "addSimpleBlock bh t = add_element (SimpleBlockElement (bh_hash bh)) t"

definition addSignBlock :: "SignBlockHeader \<Rightarrow> BlocksTimeline \<Rightarrow> BlocksTimeline \<times> (u64 \<times> bytes) result" where
  "addSignBlock bh t =
     add_element (SignBlockElement \<lparr>ms_hash = sh_hash bh, ms_filePos = sh_filePos bh, ms_prevHash = sh_prevHash bh\<rparr>) t"

definition findSignForBlock :: "bytes \<Rightarrow> BlocksTimeline \<Rightarrow> MinimumSignBlockHeader option result" where
  "findSignForBlock hash t =
     bindE (CHECK (tl_initialized t) ''Not initialized'') (\<lambda>_.
     case map_of (tl_signsParent t) hash of
       None \<Rightarrow> Inr None
     | Some iter \<Rightarrow>
         if iter < length (tl_timeline t)
         then (case tl_timeline t ! iter of
                 SignBlockElement m \<Rightarrow> Inr (Some m)
               | SimpleBlockElement _ \<Rightarrow> Inl (Check ''Incorrect block element''))
         else Inl Undefined)"

definition findSignature :: "bytes \<Rightarrow> BlocksTimeline \<Rightarrow> MinimumSignBlockHeader option result" where
  "findSignature hash t =
     bindE (CHECK (tl_initialized t) ''Not initialized'') (\<lambda>_.
     case map_of (tl_hashes t) hash of
       None \<Rightarrow> Inr None
     | Some iter \<Rightarrow>
         if iter < length (tl_timeline t)
         then (case tl_timeline t ! iter of
                 SignBlockElement m \<Rightarrow> Inr (Some m)
               | SimpleBlockElement _ \<Rightarrow> Inr None)
         else Inl Undefined)"

definition filter_known :: "('t \<Rightarrow> bytes) \<Rightarrow> 't list \<Rightarrow> BlocksTimeline \<Rightarrow> 't list" where
  "filter_known getter elements t = filter (\<lambda>e. map_of (tl_hashes t) (getter e) = None) elements"

subsection \<open>getSignaturesBetween\<close>

text \<open>The loop that steps back to the last transaction block, at most to the first element.\<close>

fun back_to_simple :: "Element list \<Rightarrow> nat \<Rightarrow> nat" where
  "back_to_simple timeline 0 = 0"
| "back_to_simple timeline (Suc i) =
     (if is_simple (timeline ! i) then i else back_to_simple timeline i)"

text \<open>The loop that steps forward to the next transaction block.\<close>

function forward_to_simple :: "Element list \<Rightarrow> nat \<Rightarrow> nat" where
  "forward_to_simple timeline iter =
     (if iter < length timeline
      then (if is_simple (timeline ! iter) then iter else forward_to_simple timeline (Suc iter))
      else iter)"
  by auto
termination
  by (relation "measure (\<lambda>(timeline, iter). length timeline - iter)") auto

declare forward_to_simple.simps [simp del]

text \<open>\<open>std::for_each\<close>: it runs past the end when the range is not one.\<close>

function sign_range :: "Element list \<Rightarrow> nat \<Rightarrow> nat \<Rightarrow> MinimumSignBlockHeader list result" where
  "sign_range timeline iter iterSecond =
     (if iter = iterSecond then Inr []
      else if length timeline \<le> iter then Inl Undefined
      else case timeline ! iter of
             SimpleBlockElement _ \<Rightarrow> Inl (Check ''Incorrect block type '')
           | SignBlockElement m \<Rightarrow>
               bindE (sign_range timeline (Suc iter) iterSecond) (\<lambda>ms. Inr (m # ms)))"
  by auto
termination
  by (relation "measure (\<lambda>(timeline, iter, _). length timeline - iter)") auto

declare sign_range.simps [simp del]

definition found_iter :: "bytes \<Rightarrow> BlocksTimeline \<Rightarrow> nat result" where
  "found_iter hash t =
     (case map_of (tl_hashes t) hash of
        None \<Rightarrow> Inl (Check ''Block not found in timeline '')
      | Some iter \<Rightarrow> Inr iter)"

definition first_iter :: "bytes option \<Rightarrow> bytes option \<Rightarrow> BlocksTimeline \<Rightarrow> nat result" where
  "first_iter firstBlock secondBlock t =
     (case firstBlock of
        Some h \<Rightarrow> bindE (found_iter h t) (\<lambda>iter. Inr (Suc iter))
      | None \<Rightarrow>
          (case secondBlock of
             None \<Rightarrow> Inl Undefined
           | Some h \<Rightarrow>
               bindE (found_iter h t) (\<lambda>iter.
               Inr (if iter = 0 then iter else Suc (back_to_simple (tl_timeline t) iter)))))"

definition second_iter :: "bytes option \<Rightarrow> nat \<Rightarrow> BlocksTimeline \<Rightarrow> nat result" where
  "second_iter secondBlock iterFirst t =
     (case secondBlock of
        Some h \<Rightarrow> found_iter h t
      | None \<Rightarrow> Inr (forward_to_simple (tl_timeline t) iterFirst))"

definition getSignaturesBetween ::
  "bytes option \<Rightarrow> bytes option \<Rightarrow> BlocksTimeline \<Rightarrow> MinimumSignBlockHeader list result" where
  "getSignaturesBetween firstBlock secondBlock t =
     bindE (CHECK (firstBlock \<noteq> None \<or> secondBlock \<noteq> None) ''Not setted fields'') (\<lambda>_.
     bindE (CHECK (tl_initialized t) ''Not initialized'') (\<lambda>_.
     bindE (first_iter firstBlock secondBlock t) (\<lambda>iterFirst.
     bindE (second_iter secondBlock iterFirst t) (\<lambda>iterSecond.
     sign_range (tl_timeline t) iterFirst iterSecond))))"

subsection \<open>Invariant\<close>

text \<open>
  The maps are what a scan of the list finds: \<open>hashes\<close> the position of every element,
  \<open>signsParent\<close> the first signature block with the given parent.
\<close>

definition signs_for :: "bytes \<Rightarrow> Element \<Rightarrow> bool" where
  "signs_for h el = (case el of SignBlockElement m \<Rightarrow> ms_prevHash m = h | SimpleBlockElement _ \<Rightarrow> False)"

fun position :: "('a \<Rightarrow> bool) \<Rightarrow> 'a list \<Rightarrow> nat option" where
  "position P [] = None"
| "position P (x # xs) = (if P x then Some 0 else map_option Suc (position P xs))"

definition timeline_inv :: "BlocksTimeline \<Rightarrow> bool" where
  "timeline_inv t \<longleftrightarrow> distinct (map el_hash (tl_timeline t)) \<and>
     map fst (tl_hashes t) = map el_hash (tl_timeline t) \<and>
     map_of (tl_hashes t) = (\<lambda>h. position (\<lambda>el. el_hash el = h) (tl_timeline t)) \<and>
     map_of (tl_signsParent t) = (\<lambda>h. position (signs_for h) (tl_timeline t))"

lemma position_snoc:
  "position P (xs @ [x]) =
     (case position P xs of None \<Rightarrow> if P x then Some (length xs) else None | Some i \<Rightarrow> Some i)"
  by (induction xs) (auto split: option.splits)

lemma position_None: "position P xs = None \<longleftrightarrow> (\<forall>x \<in> set xs. \<not> P x)"
  by (induction xs) auto

lemma position_Some:
  "position P xs = Some i \<Longrightarrow> i < length xs \<and> P (xs ! i) \<and> find P xs = Some (xs ! i)"
  by (induction xs arbitrary: i) (auto split: if_splits)

lemma position_append_notin: "\<forall>x \<in> set xs. \<not> P x \<Longrightarrow> position P (xs @ ys) = map_option ((+) (length xs)) (position P ys)"
  by (induction xs) (cases "position P ys"; simp)+

lemma timeline_insert_element [simp]: "tl_timeline (insert_element el t) = tl_timeline t @ [el]"
  by (simp add: insert_element_def Let_def)

lemma timeline_inv_empty: "timeline_inv BlocksTimeline_empty"
  by (simp add: timeline_inv_def BlocksTimeline_empty_def)

lemma timeline_inv_insert:
  assumes "timeline_inv t" and "map_of (tl_hashes t) (el_hash el) = None"
  shows "timeline_inv (insert_element el t)"
proof -
  have new: "el_hash el \<notin> el_hash ` set (tl_timeline t)"
    using assms by (auto simp: timeline_inv_def position_None)
  have h: "tl_hashes (insert_element el t) = tl_hashes t @ [(el_hash el, length (tl_timeline t))]"
    using assms(2) by (simp add: insert_element_def Let_def emplace_def)
  have "map_of (tl_hashes (insert_element el t)) k = position (\<lambda>e. el_hash e = k) (tl_timeline t @ [el])" for k
    using assms by (auto simp: h timeline_inv_def position_snoc map_add_def split: option.splits)
  moreover have "map_of (tl_signsParent (insert_element el t)) k = position (signs_for k) (tl_timeline t @ [el])" for k
    using assms by (cases el) (auto simp: insert_element_def Let_def timeline_inv_def position_snoc
        map_of_emplace signs_for_def split: option.splits)
  ultimately show ?thesis
    using assms(1) new h by (auto simp: timeline_inv_def insert_element_def Let_def fun_eq_iff)
qed

lemma add_element_inv: "timeline_inv t \<Longrightarrow> timeline_inv (fst (add_element el t))"
  by (simp add: add_element_def Let_def timeline_inv_insert)

subsection \<open>Ranges of signatures\<close>

lemma found_iter_at:
  assumes "timeline_inv t" and "tl_timeline t = pre @ el # post"
  shows "found_iter (el_hash el) t = Inr (length pre)"
proof -
  have "el_hash el \<notin> el_hash ` set pre"
    using assms by (simp add: timeline_inv_def)
  then have "\<forall>e \<in> set pre. el_hash e \<noteq> el_hash el"
    by (metis imageI)
  then have "map_of (tl_hashes t) (el_hash el) = Some (length pre)"
    using assms by (simp add: timeline_inv_def position_append_notin)
  then show ?thesis
    by (simp add: found_iter_def)
qed

lemma sign_range_signs:
  "sign_range (pre @ map SignBlockElement ms @ post) (length pre) (length pre + length ms) = Inr ms"
proof (induction ms arbitrary: pre)
  case Nil
  then show ?case
    by (simp add: sign_range.simps)
next
  case (Cons m ms)
  then show ?case
    using Cons.IH [of "pre @ [SignBlockElement m]"] by (subst sign_range.simps) (simp add: nth_append)
qed

lemma sign_range_past_end:
  "j < length pre \<Longrightarrow> sign_range (pre @ map SignBlockElement ms) (length pre) j = Inl Undefined"
proof (induction ms arbitrary: pre)
  case Nil
  then show ?case
    by (simp add: sign_range.simps)
next
  case (Cons m ms)
  then show ?case
    using Cons.IH [of "pre @ [SignBlockElement m]"] by (subst sign_range.simps) (simp add: nth_append)
qed

lemma forward_to_simple_signs:
  assumes "post = [] \<or> is_simple (hd post)"
  shows "forward_to_simple (pre @ map SignBlockElement ms @ post) (length pre) = length pre + length ms"
proof (induction ms arbitrary: pre)
  case Nil
  then show ?case
    using assms by (cases post) (auto simp: forward_to_simple.simps)
next
  case (Cons m ms)
  then show ?case
    using Cons.IH [of "pre @ [SignBlockElement m]"] by (subst forward_to_simple.simps) (simp add: nth_append)
qed

lemma back_to_simple_signs:
  "back_to_simple (pre @ SimpleBlockElement a # map SignBlockElement ms @ post) (Suc (length pre + length ms)) = length pre"
proof (induction ms arbitrary: post rule: rev_induct)
  case Nil
  then show ?case by simp
next
  case (snoc m ms)
  then show ?case
    using snoc.IH [of "SignBlockElement m # post"] by (simp add: nth_append)
qed

lemma back_to_simple_none: "back_to_simple (map SignBlockElement ms @ post) (length ms) = 0"
proof (induction ms arbitrary: post rule: rev_induct)
  case Nil
  then show ?case by simp
next
  case (snoc m ms)
  then show ?case
    using snoc.IH [of "SignBlockElement m # post"] by (simp add: nth_append)
qed

subsection \<open>Storing and restoring\<close>

lemma decodes_element:
  assumes "serializeElement el = Inr bs"
  shows "decodes (deserializeVarint element_parsers) bs el"
proof (cases el)
  case (SignBlockElement m)
  then obtain b where b: "MinimumSignBlockHeader_serialize m [] = Inr b" and bs: "bs = serializeInt (0 :: u64) @ b"
    using assms minimum_sign_block.ser_append [of m "serializeInt (0 :: u64)"]
    by (auto simp: serializeVariant_def result_simps)
  show ?thesis
    unfolding bs using minimum_sign_block.ser_decodes [OF b]
    by (intro decodes_varint) (auto simp: element_parsers_def SignBlockElement intro: decodes_map)
next
  case (SimpleBlockElement h)
  then have bs: "bs = serializeInt (1 :: u64) @ serializeVector h"
    using assms by (auto simp: serializeVariant_def SimpleBlockElement_serialize_def result_simps)
  show ?thesis
    unfolding bs using decodes_vector [of h]
    by (intro decodes_varint)
      (auto simp: element_parsers_def SimpleBlockElement SimpleBlockElement_deserialize_def intro: decodes_map)
qed

text \<open>A sequence of additions, with the records it hands to the database.\<close>

fun add_elements :: "Element list \<Rightarrow> BlocksTimeline \<Rightarrow> (BlocksTimeline \<times> (u64 \<times> bytes) list) result" where
  "add_elements [] t = Inr (t, [])"
| "add_elements (el # els) t =
     (case add_element el t of
        (t', Inl e) \<Rightarrow> Inl e
      | (t', Inr r) \<Rightarrow> bindE (add_elements els t') (\<lambda>(t'', rs). Inr (t'', r # rs)))"

lemma deserialize_step:
  assumes "add_element el t = (t', Inr (n, bs))" and "length bs < 2 ^ 64"
  shows "deserialize_elements ((n, bs) # rest) t = deserialize_elements rest t'"
proof -
  have new: "map_of (tl_hashes t) (el_hash el) = None" and t': "t' = insert_element el t"
    and ser: "serializeElement el = Inr bs" and n: "n = of_nat (length (tl_hashes t')) - 1"
    using assms(1) by (auto simp: add_element_def Let_def result_simps split: if_splits)
  have "length (tl_hashes t') = Suc (length (tl_hashes t))"
    using new t' by (simp add: insert_element_def Let_def emplace_def)
  then show ?thesis
    using n t' decodes_whole [OF decodes_element [OF ser] assms(2)] by simp
qed

lemma deserialize_add_elements:
  assumes "add_elements els t = Inr (t', rs)" and "\<forall>(n, bs) \<in> set rs. length bs < 2 ^ 64"
  shows "deserialize_elements rs t = (t', Inr ())"
  using assms
proof (induction els arbitrary: t rs)
  case Nil
  then show ?case by simp
next
  case (Cons el els)
  then obtain t1 n bs rs' where 1: "add_element el t = (t1, Inr (n, bs))" "add_elements els t1 = Inr (t', rs')"
      "rs = (n, bs) # rs'"
    by (auto simp: result_simps split: prod.splits sum.splits)
  then show ?case
    using deserialize_step [OF 1(1)] Cons by simp
qed

lemma add_elements_numbers:
  "add_elements els t = Inr (t', rs) \<Longrightarrow>
     length (tl_hashes t') = length (tl_hashes t) + length rs \<and>
     map fst rs = map of_nat [length (tl_hashes t)..<length (tl_hashes t')]"
proof (induction els arbitrary: t rs)
  case (Cons el els)
  obtain t1 n bs rs' where 1: "add_element el t = (t1, Inr (n, bs))" "add_elements els t1 = Inr (t', rs')"
      "rs = (n, bs) # rs'"
    using Cons.prems by (auto simp: result_simps split: prod.splits sum.splits)
  have "length (tl_hashes t1) = Suc (length (tl_hashes t))" "n = of_nat (length (tl_hashes t))"
    using 1(1) by (auto simp: add_element_def insert_element_def emplace_def Let_def result_simps split: if_splits)
  then show ?case
    using Cons.IH [OF 1(2)] 1(3) by (simp add: upt_conv_Cons del: upt_Suc)
qed simp

lemma add_elements_append:
  "add_elements els t = Inr (t1, rs) \<Longrightarrow> add_elements els' t1 = Inr (t2, rs') \<Longrightarrow>
     add_elements (els @ els') t = Inr (t2, rs @ rs')"
proof (induction els arbitrary: t rs)
  case (Cons el els)
  then show ?case
    by (auto simp: result_simps split: prod.splits sum.splits)
qed simp

lemma add_elements_inv:
  "add_elements els t = Inr (t', rs) \<Longrightarrow> timeline_inv t \<Longrightarrow> timeline_inv t'"
proof (induction els arbitrary: t rs)
  case Nil
  then show ?case by simp
next
  case (Cons el els)
  then show ?case
    using add_element_inv [of t el] by (auto simp: result_simps split: prod.splits sum.splits)
qed

subsection \<open>Properties\<close>

definition sample_sign :: "byte \<Rightarrow> byte \<Rightarrow> MinimumSignBlockHeader" where
  "sample_sign h p = \<lparr>ms_hash = [h], ms_filePos = \<lparr>fp_pos = 0, fp_fileNameRelative = [1]\<rparr>, ms_prevHash = [p]\<rparr>"


definition sample_timeline :: "Element list \<Rightarrow> BlocksTimeline" where
  "sample_timeline els = (fold insert_element els BlocksTimeline_empty)\<lparr>tl_initialized := True\<rparr>"

lemma sample_timeline_inv:
  "distinct (map el_hash els) \<Longrightarrow> timeline_inv (sample_timeline els) \<and> tl_timeline (sample_timeline els) = els"
proof (induction els rule: rev_induct)
  case Nil
  then show ?case
    using timeline_inv_empty by (simp add: sample_timeline_def timeline_inv_def BlocksTimeline_empty_def)
next
  case (snoc el els)
  let ?t = "fold insert_element els BlocksTimeline_empty"
  have "timeline_inv ?t" "tl_timeline ?t = els"
    using snoc by (auto simp: sample_timeline_def timeline_inv_def)
  moreover then have "map_of (tl_hashes ?t) (el_hash el) = None"
    using snoc.prems by (simp add: timeline_inv_def position_None) (metis imageI)
  ultimately have "timeline_inv (insert_element el ?t)" "tl_timeline (insert_element el ?t) = els @ [el]"
    using timeline_inv_insert [of ?t el] by simp_all
  then show ?case
    by (simp add: sample_timeline_def timeline_inv_def)
qed

lemma sample_timeline_initialized [simp]: "tl_initialized (sample_timeline els)"
  by (simp add: sample_timeline_def)


text \<open>
  The signatures between two neighbouring transaction blocks. When signature blocks \<open>ms\<close> stand
  between the transaction block \<open>a\<close> and the block \<open>b\<close>, all three ways of asking (both hashes, only
  the first, only the second) return exactly \<open>ms\<close>, in order.
\<close>

theorem signatures_between_blocks:
  assumes "timeline_inv t" and "tl_initialized t"
    and "tl_timeline t = pre @ SimpleBlockElement a # map SignBlockElement ms @ SimpleBlockElement b # post"
  shows "getSignaturesBetween (Some a) (Some b) t = Inr ms \<and>
         getSignaturesBetween (Some a) None t = Inr ms \<and>
         getSignaturesBetween None (Some b) t = Inr ms"
proof -
  let ?n = "length pre + length ms"
  have a: "found_iter a t = Inr (length pre)"
    using found_iter_at [OF assms(1,3)] by simp
  have b: "found_iter b t = Inr (Suc ?n)"
    using found_iter_at [OF assms(1), of "pre @ SimpleBlockElement a # map SignBlockElement ms"
        "SimpleBlockElement b" post] assms(3) by simp
  have r: "sign_range (tl_timeline t) (Suc (length pre)) (Suc ?n) = Inr ms"
    using sign_range_signs [of "pre @ [SimpleBlockElement a]" ms "SimpleBlockElement b # post"] assms(3)
    by simp
  have f: "forward_to_simple (tl_timeline t) (Suc (length pre)) = Suc ?n"
    using forward_to_simple_signs [of "SimpleBlockElement b # post" "pre @ [SimpleBlockElement a]" ms]
      assms(3) by simp
  have k: "back_to_simple (tl_timeline t) (Suc ?n) = length pre"
    using back_to_simple_signs [of pre a ms "SimpleBlockElement b # post"] assms(3) by simp
  show ?thesis
    using assms(2) a b r f k by (simp add: getSignaturesBetween_def first_iter_def second_iter_def)
qed

theorem signatures_between_blocks_witness:
  "getSignaturesBetween None (Some [3])
     (sample_timeline [SimpleBlockElement [1], SignBlockElement (sample_sign 2 1), SimpleBlockElement [3]]) =
   Inr [sample_sign 2 1]"
  using signatures_between_blocks [of "sample_timeline [SimpleBlockElement [1], SignBlockElement (sample_sign 2 1),
      SimpleBlockElement [3]]" "[]" "[1]" "[sample_sign 2 1]" "[3]" "[]"]
    sample_timeline_inv [of "[SimpleBlockElement [1], SignBlockElement (sample_sign 2 1), SimpleBlockElement [3]]"]
  by (simp add: sample_sign_def)

text \<open>
  A defect of \<open>getSignaturesBetween\<close>: asked for the signatures before the first transaction
  block of the timeline, it steps back to the first element and then past it, so that the first
  signature is left out.
\<close>

theorem first_signature_is_skipped:
  assumes "timeline_inv t" and "tl_initialized t"
    and "tl_timeline t = map SignBlockElement (m # ms) @ SimpleBlockElement b # post"
  shows "getSignaturesBetween None (Some b) t = Inr ms"
proof -
  have b: "found_iter b t = Inr (Suc (length ms))"
    using found_iter_at [OF assms(1), of "map SignBlockElement (m # ms)" "SimpleBlockElement b" post] assms(3)
    by simp
  have k: "back_to_simple (tl_timeline t) (Suc (length ms)) = 0"
    using back_to_simple_none [of "m # ms" "SimpleBlockElement b # post"] assms(3) by simp
  have r: "sign_range (tl_timeline t) (Suc 0) (Suc (length ms)) = Inr ms"
    using sign_range_signs [of "[SignBlockElement m]" ms "SimpleBlockElement b # post"] assms(3) by simp
  show ?thesis
    using assms(2) b k r by (simp add: getSignaturesBetween_def first_iter_def second_iter_def)
qed

theorem first_signature_is_skipped_witness:
  "getSignaturesBetween None (Some [3]) (sample_timeline [SignBlockElement (sample_sign 2 1), SimpleBlockElement [3]]) =
   Inr []"
  using first_signature_is_skipped [of "sample_timeline [SignBlockElement (sample_sign 2 1), SimpleBlockElement [3]]"
      "sample_sign 2 1" "[]" "[3]" "[]"]
    sample_timeline_inv [of "[SignBlockElement (sample_sign 2 1), SimpleBlockElement [3]]"]
  by (simp add: sample_sign_def)

text \<open>
  A defect of \<open>getSignaturesBetween\<close>: the order of the two blocks is not checked. When the
  second block does not stand behind the first and only signature blocks follow the first, the
  loop runs past the end of the list.
\<close>

theorem reversed_range_leaves_timeline:
  assumes "timeline_inv t" and "tl_initialized t"
    and "tl_timeline t = pre @ SimpleBlockElement a # map SignBlockElement ms"
    and "SimpleBlockElement b \<in> set (pre @ [SimpleBlockElement a])"
  shows "getSignaturesBetween (Some a) (Some b) t = Inl Undefined"
proof -
  obtain p q where pq: "pre @ [SimpleBlockElement a] = p @ SimpleBlockElement b # q"
    using split_list [OF assms(4)] by blast
  then have "tl_timeline t = p @ SimpleBlockElement b # q @ map SignBlockElement ms"
    using assms(3) arg_cong [OF pq, of "\<lambda>l. l @ map SignBlockElement ms"] by simp
  then have b: "found_iter b t = Inr (length p)"
    using found_iter_at [OF assms(1)] by fastforce
  have a: "found_iter a t = Inr (length pre)"
    using found_iter_at [OF assms(1,3)] by simp
  have "length p < Suc (length pre)"
    using arg_cong [OF pq, of length] by simp
  then have r: "sign_range (tl_timeline t) (Suc (length pre)) (length p) = Inl Undefined"
    using sign_range_past_end [of "length p" "pre @ [SimpleBlockElement a]" ms] assms(3) by simp
  show ?thesis
    using assms(2) a b r by (simp add: getSignaturesBetween_def first_iter_def second_iter_def)
qed

theorem reversed_range_leaves_timeline_witness:
  "getSignaturesBetween (Some [2]) (Some [1]) (sample_timeline [SimpleBlockElement [1], SimpleBlockElement [2]]) =
   Inl Undefined"
  using reversed_range_leaves_timeline [of "sample_timeline [SimpleBlockElement [1], SimpleBlockElement [2]]"
      "[SimpleBlockElement [1]]" "[2]" "[]" "[1]"]
    sample_timeline_inv [of "[SimpleBlockElement [1], SimpleBlockElement [2]]"]
  by simp

end
