(* ===== verification/BlockchainUtils.thy ===== *)
theory BlockchainUtils
  imports Address
begin

unbundle bit_operations_syntax

section \<open>Addresses from keys, hexadecimal and RLP (BlockchainUtils)\<close>

text \<open>
  The digests (SHA-256, RIPEMD-160, SHA3-256), the decoding of a DER key or signature (\<open>None\<close> for a
  null pointer) and \<open>ECDSA_do_verify\<close> are calls into OpenSSL; they are parameters, collected in the
  record \<open>crypto\<close> together with the flag \<open>isInitialized\<close> of the file. What the code relies on is the
  length of the digests (\<open>digests_ok\<close>). Everything the file computes around them is modelled:
  hexadecimal decoding, the address of a public key in text and in binary, the check of a
  signature, the RLP encoding and the address of a contract or a token.
\<close>

record crypto =
  cr_isInitialized :: bool
  cr_SHA256 :: "bytes \<Rightarrow> bytes"
  cr_RIPEMD160 :: "bytes \<Rightarrow> bytes"
  cr_keccak :: "bytes \<Rightarrow> bytes"
  cr_d2i_PUBKEY :: "bytes \<Rightarrow> bytes option"
  cr_d2i_ECDSA_SIG :: "bytes \<Rightarrow> bytes option"
  cr_ECDSA_do_verify :: "bytes \<Rightarrow> bytes \<Rightarrow> bytes \<Rightarrow> bool"

definition digests_ok :: "crypto \<Rightarrow> bool" where
  "digests_ok cr \<longleftrightarrow> (\<forall>d. length (cr_SHA256 cr d) = 32) \<and> (\<forall>d. length (cr_RIPEMD160 cr d) = 20) \<and>
     (\<forall>d. length (cr_keccak cr d) = 32)"

subsection \<open>Hexadecimal\<close>

text \<open>The table \<open>DecLookup\<close>: the value of a hexadecimal digit, 0 for every other byte.\<close>

definition DecLookup :: "byte \<Rightarrow> byte" where
  "DecLookup c =
     (if 48 \<le> c \<and> c \<le> 57 then c - 48
      else if 65 \<le> c \<and> c \<le> 70 then c - 55
      else if 97 \<le> c \<and> c \<le> 102 then c - 87
      else 0)"

text \<open>The loop of \<open>hex2bin\<close>. In a string of odd length the last digit is paired with the terminating
  zero. (The counter is a 32-bit \<open>uint\<close>: strings of 4 GiB and more are not covered.)\<close>

fun hex_pairs :: "bytes \<Rightarrow> bytes" where
  "hex_pairs [] = []"
| "hex_pairs [c] = [push_bit 4 (DecLookup c) OR DecLookup 0]"
| "hex_pairs (c # d # cs) = (push_bit 4 (DecLookup c) OR DecLookup d) # hex_pairs cs"

definition hex2bin :: "bytes \<Rightarrow> bytes" where
  "hex2bin src =
     (if 2 < length src \<and> src ! 0 = of_char CHR ''0'' \<and> src ! 1 = of_char CHR ''x''
      then hex_pairs (drop 2 src) else hex_pairs src)"

text \<open>One entry of the table \<open>HexLookup\<close>: the two lower-case digits of a byte.\<close>

definition hex_digit :: "byte \<Rightarrow> byte" where
  "hex_digit v = (if v < 10 then v + 48 else v + 87)"

definition HexLookup :: "byte \<Rightarrow> bytes" where
  "HexLookup b = [hex_digit (drop_bit 4 b), hex_digit (b AND 15)]"

subsection \<open>Digests\<close>

definition get_double_sha256 :: "crypto \<Rightarrow> bytes \<Rightarrow> bytes result" where
  "get_double_sha256 cr data =
     bindE (CHECK (cr_isInitialized cr) ''Not initialized'') (\<lambda>_.
     Inr (cr_SHA256 cr (cr_SHA256 cr data)))"

definition doubleSha :: "crypto \<Rightarrow> bytes \<Rightarrow> bytes" where
  "doubleSha cr data = cr_SHA256 cr (cr_SHA256 cr data)"

definition CheckBufferSignature :: "crypto \<Rightarrow> bytes \<Rightarrow> bytes \<Rightarrow> bytes \<Rightarrow> bool" where
  "CheckBufferSignature cr publicKey data signature =
     cr_ECDSA_do_verify cr (cr_SHA256 cr data) signature publicKey"

definition check_sign :: "crypto \<Rightarrow> bytes \<Rightarrow> bytes \<Rightarrow> bytes \<Rightarrow> bool" where
  "check_sign cr data sign pubk =
     (case cr_d2i_PUBKEY cr pubk of
        None \<Rightarrow> False
      | Some pubkey \<Rightarrow>
         (case cr_d2i_ECDSA_SIG cr sign of
            None \<Rightarrow> False
          | Some signature \<Rightarrow> CheckBufferSignature cr pubkey data signature))"

definition crypto_check_sign_data :: "crypto \<Rightarrow> bytes \<Rightarrow> bytes \<Rightarrow> bytes \<Rightarrow> bool" where
  "crypto_check_sign_data cr sign public_key data = check_sign cr data sign public_key"

subsection \<open>The address of a public key\<close>

text \<open>\<open>get_address_comp\<close> hashes the last 65 bytes of the key, the first of them set to 4; \<open>None\<close> is
  the result \<open>false\<close>.\<close>

definition get_address_comp :: "crypto \<Rightarrow> bytes \<Rightarrow> (bytes \<times> bytes) option result" where
  "get_address_comp cr bpubk =
     bindE (CHECK (cr_isInitialized cr) ''Not initialized'') (\<lambda>_.
     Inr (if 65 \<le> length bpubk
          then let data = bpubk[length bpubk - 65 := 4];
                   sha_1 = cr_SHA256 cr (take 65 (drop (length data - 65) data));
                   r160 = cr_RIPEMD160 cr sha_1;
                   wide_h = 0 # r160;
                   hash1 = cr_SHA256 cr wide_h;
                   hash2 = cr_SHA256 cr hash1
               in Some (wide_h, hash2)
          else None))"

definition get_address :: "crypto \<Rightarrow> bytes \<Rightarrow> bytes result" where
  "get_address cr bpubk =
     bindE (get_address_comp cr bpubk) (\<lambda>res.
     case res of
       None \<Rightarrow> Inr (lit ''Invalid'')
     | Some (wide_h, hash2) \<Rightarrow>
         Inr (lit ''0x'' @ concat (map HexLookup wide_h) @ concat (map HexLookup (take 4 hash2))))"

definition get_address_hex :: "crypto \<Rightarrow> bytes \<Rightarrow> bytes result" where
  "get_address_hex cr pubk = get_address cr (hex2bin pubk)"

definition get_address_bin :: "crypto \<Rightarrow> bytes \<Rightarrow> bytes result" where
  "get_address_bin cr bpubk =
     bindE (get_address_comp cr bpubk) (\<lambda>res.
     case res of
       None \<Rightarrow> Inr []
     | Some (wide_h, hash2) \<Rightarrow> Inr (wide_h @ take 4 hash2))"

subsection \<open>RLP\<close>

function NumberSize :: "u64 \<Rightarrow> u64" where
  "NumberSize val = (if val = 0 then 0 else 1 + NumberSize (val div 256))"
  by auto
termination
  by (relation "measure unat") (auto simp: unat_div unat_gt_0)

declare NumberSize.simps [simp del]

text \<open>\<open>IntegerToBuffer\<close>: the eight bytes of a number, the least significant first.\<close>

fun le_loop :: "nat \<Rightarrow> u64 \<Rightarrow> bytes" where
  "le_loop 0 value = []"
| "le_loop (Suc n) value = ucast (value mod 256) # le_loop n (value div 256)"

definition IntegerToBuffer :: "u64 \<Rightarrow> bytes" where
  "IntegerToBuffer val = le_loop 8 val"

definition EncodeField :: "bytes \<Rightarrow> bytes" where
  "EncodeField field =
     (let fs = size_of field
      in if fs = 1 \<and> field ! 0 \<le> 0x7F
         then (if field ! 0 = 0 then [0x80] else field)
         else if fs \<le> 55 then (0x80 + ucast fs) # field
         else if fs < 0xFFFFFFFFFFFFFFFF
           then let sizelen = NumberSize fs
                in (0xB7 + ucast sizelen) # take (unat sizelen) (IntegerToBuffer fs) @ field
         else [])"

definition CalcTotalSize :: "bytes \<Rightarrow> bytes" where
  "CalcTotalSize dump =
     (let ds = size_of dump
      in if ds \<le> 55 then (0xC0 + ucast ds) # dump
         else let sizelen = NumberSize ds
              in (0xF7 + ucast sizelen) # take (unat sizelen) (IntegerToBuffer ds) @ dump)"

definition RLP :: "bytes list \<Rightarrow> bytes" where
  "RLP fs = CalcTotalSize (concat (map EncodeField fs))"

text \<open>\<open>IntToRLP\<close>: the bytes of a 32-bit number from the most significant one down, without the
  leading zeros.\<close>

definition int_bytes :: "u32 \<Rightarrow> bytes" where
  "int_bytes val = [ucast (drop_bit 24 val), ucast (drop_bit 16 val), ucast (drop_bit 8 val), ucast val]"

definition IntToRLP :: "u32 \<Rightarrow> bytes" where
  "IntToRLP val = (if val = 0 then [0] else dropWhile (\<lambda>b. b = 0) (int_bytes val))"

text \<open>The string that \<open>create_custom_address\<close> hashes, and the address.\<close>

definition custom_preimage :: "bytes \<Rightarrow> u32 \<Rightarrow> bytes" where
  "custom_preimage binowner nonce = RLP [binowner, if 0 < sint nonce then IntToRLP nonce else []]"

definition create_custom_address :: "crypto \<Rightarrow> bytes \<Rightarrow> u32 \<Rightarrow> byte \<Rightarrow> bytes" where
  "create_custom_address cr binowner nonce number =
     (let hs = cr_keccak cr (custom_preimage binowner nonce);
          address = [number] @ take 20 (drop 12 hs)
      in address @ take 4 (doubleSha cr address))"

subsection \<open>Lemmas\<close>

lemma hex_digit_value: "v < 16 \<Longrightarrow> DecLookup (hex_digit v) = v"
proof -
  assume "v < 16"
  then have "unat v < 16"
    by (simp add: word_less_nat_alt)
  then have "v = of_nat (unat v)" and "unat v \<in> set [0..<16]"
    by simp_all
  moreover have "\<forall>n \<in> set [0..<16]. DecLookup (hex_digit (of_nat n)) = of_nat n"
    by code_simp
  ultimately show ?thesis
    by metis
qed

lemma nibbles: "push_bit 4 (drop_bit 4 b) OR (b AND 15) = (b :: byte)"
proof -
  have "(15 :: byte) = mask 4"
    by (simp add: mask_eq_exp_minus_1)
  then show ?thesis
    by (simp only: bit_eq_iff) (auto simp: bit_simps)
qed

lemma hex_pairs_HexLookup: "hex_pairs (concat (map HexLookup bs)) = bs"
proof (induction bs)
  case Nil
  then show ?case by simp
next
  case (Cons b bs)
  have "unat b < 2 ^ LENGTH(8)"
    by (rule unsigned_less)
  then have "drop_bit 4 b < 16"
    by (simp add: word_less_nat_alt drop_bit_eq_div unat_div)
  moreover have "b AND 15 < 16"
    by (rule order.strict_trans1 [OF word_and_le1]) simp
  ultimately show ?case
    using Cons nibbles [of b] by (simp add: HexLookup_def hex_digit_value)
qed

lemma length_digests:
  assumes "digests_ok cr"
  shows "length (cr_SHA256 cr d) = 32" "length (cr_RIPEMD160 cr d) = 20" "length (cr_keccak cr d) = 32"
  using assms by (auto simp: digests_ok_def)

text \<open>RLP of a short field: its first byte tells a single byte from a length.\<close>

lemma size_of_small: "length f \<le> 55 \<Longrightarrow> size_of f \<le> 55 \<and> unat (size_of f) = length f"
  by (simp add: size_of_def word_le_nat_alt unat_of_nat)

lemma ucast_size_of: "length f \<le> 55 \<Longrightarrow> (ucast (size_of f) :: byte) = of_nat (length f)"
  by (simp add: size_of_def unsigned_of_nat take_bit_nat_eq_self)

lemma size_of_one: "length f \<le> 55 \<Longrightarrow> size_of f = 1 \<longleftrightarrow> length f = 1"
  using of_nat_u64_inject [of "length f" 1] by (simp add: size_of_def)

lemma EncodeField_short:
  assumes "length f \<le> 55"
  shows "EncodeField f =
    (if length f = 1 \<and> f ! 0 \<le> 0x7F then (if f ! 0 = 0 then [0x80] else f)
     else (0x80 + of_nat (length f)) # f)"
  using assms size_of_small [OF assms]
  by (simp add: EncodeField_def Let_def size_of_one ucast_size_of)

lemma of_nat_byte_inject: "i < 256 \<Longrightarrow> j < 256 \<Longrightarrow> (of_nat i :: byte) = of_nat j \<longleftrightarrow> i = j"
proof -
  assume "i < 256" "j < 256"
  then have "unat (of_nat i :: byte) = i" "unat (of_nat j :: byte) = j"
    by (simp_all add: unat_of_nat)
  then show ?thesis
    by metis
qed

lemma length_byte_high: "n \<le> 55 \<Longrightarrow> \<not> (0x80 + of_nat n :: byte) \<le> 0x7F"
  by (simp add: word_le_nat_alt unat_word_ariths unat_of_nat)

lemma EncodeField_inj:
  assumes "length f \<le> 55" and "length g \<le> 55" and "f \<noteq> [0]" and "g \<noteq> [0]"
    and eq: "EncodeField f @ r = EncodeField g @ s"
  shows "f = g \<and> r = s"
proof -
  have single: "\<exists>x. h = [x] \<and> x \<noteq> 0 \<and> EncodeField h = [x]"
    if "length h = 1" "h ! 0 \<le> 0x7F" "h \<noteq> [0]" for h
    using that EncodeField_short [of h] by (auto simp: length_Suc_conv)
  have long: "EncodeField h = (0x80 + of_nat (length h)) # h"
    if "\<not> (length h = 1 \<and> h ! 0 \<le> 0x7F)" "length h \<le> 55" for h
    using that EncodeField_short [of h] by auto
  show ?thesis
  proof (cases "length f = 1 \<and> f ! 0 \<le> 0x7F")
    case f: True
    then obtain x where x: "f = [x]" "EncodeField f = [x]" "x \<le> 0x7F"
      using single [of f] assms(3) by auto
    show ?thesis
    proof (cases "length g = 1 \<and> g ! 0 \<le> 0x7F")
      case True
      then show ?thesis
        using single [of g] assms(4) x eq by auto
    next
      case False
      then show ?thesis
        using long [OF False assms(2)] x eq length_byte_high [OF assms(2)] by auto
    qed
  next
    case f: False
    show ?thesis
    proof (cases "length g = 1 \<and> g ! 0 \<le> 0x7F")
      case True
      then obtain y where "g = [y]" "EncodeField g = [y]" "y \<le> 0x7F"
        using single [of g] assms(4) by auto
      then show ?thesis
        using long [OF f assms(1)] eq length_byte_high [OF assms(1)] by auto
    next
      case False
      have "(of_nat (length f) :: byte) = of_nat (length g)" and tail: "f @ r = g @ s"
        using long [OF f assms(1)] long [OF False assms(2)] eq by auto
      then have "length f = length g"
        using of_nat_byte_inject [of "length f" "length g"] assms(1,2) by simp
      then show ?thesis
        using tail by simp
    qed
  qed
qed

lemma length_EncodeField: "length f \<le> 55 \<Longrightarrow> length (EncodeField f) \<le> length f + 1"
  by (simp add: EncodeField_short)

lemma dropWhile_zero_inj:
  "length xs = length ys \<Longrightarrow> dropWhile (\<lambda>b. b = (0 :: byte)) xs = dropWhile (\<lambda>b. b = 0) ys \<Longrightarrow> xs = ys"
proof (induction xs ys rule: list_induct2)
  case Nil
  then show ?case by simp
next
  case (Cons x xs y ys)
  have len: "length (dropWhile (\<lambda>b. b = (0 :: byte)) zs) \<le> length zs" for zs
    by (rule length_dropWhile_le)
  show ?case
    using Cons len [of xs] len [of ys] by (auto split: if_splits dest: arg_cong [of _ _ length])
qed

lemma int_bytes_inj: "int_bytes x = int_bytes y \<Longrightarrow> x = y"
proof (rule bit_word_eqI)
  fix n
  assume eq: "int_bytes x = int_bytes y" and n: "n < LENGTH(32)"
  have "bit (ucast (drop_bit (8 * k) x) :: byte) m = bit (ucast (drop_bit (8 * k) y) :: byte) m"
    if "k < 4" for k m
  proof -
    have "k = 0 \<or> k = 1 \<or> k = 2 \<or> k = 3"
      using that by auto
    then show ?thesis
      using eq by (auto simp: int_bytes_def)
  qed
  from this [of "n div 8" "n mod 8"] show "bit x n = bit y n"
    using n by (simp add: bit_simps)
qed

lemma IntToRLP_inj:
  assumes "0 < sint n" and "0 < sint m" and "IntToRLP n = IntToRLP m"
  shows "n = m"
proof -
  have "n \<noteq> 0" "m \<noteq> 0"
    using assms by auto
  then show ?thesis
    using assms(3) dropWhile_zero_inj [of "int_bytes n" "int_bytes m"] int_bytes_inj
    by (auto simp: IntToRLP_def int_bytes_def)
qed

lemma IntToRLP_field:
  assumes "0 < sint n"
  shows "IntToRLP n \<noteq> [] \<and> IntToRLP n \<noteq> [0] \<and> length (IntToRLP n) \<le> 4"
proof -
  have "n \<noteq> 0"
    using assms by auto
  moreover have "dropWhile (\<lambda>b. b = (0 :: byte)) xs \<noteq> [0]" for xs
    by (induction xs) auto
  moreover have "dropWhile (\<lambda>b. b = 0) (int_bytes n) \<noteq> []"
    using int_bytes_inj [of n 0] \<open>n \<noteq> 0\<close> by (auto simp: int_bytes_def)
  moreover have "length (dropWhile (\<lambda>b. b = 0) (int_bytes n)) \<le> 4"
    using length_dropWhile_le [of "\<lambda>b. b = 0" "int_bytes n"] by (simp add: int_bytes_def)
  ultimately show ?thesis
    by (simp add: IntToRLP_def)
qed

subsection \<open>Properties\<close>

text \<open>
  The two forms of an address agree: for a public key of at least 65 bytes the text that
  \<open>get_address\<close> returns is decoded by \<open>hex2bin\<close> to the bytes that \<open>get_address_bin\<close> returns, a
  zero byte, the 20 bytes of the digest and 4 bytes of checksum.
\<close>

theorem address_text_and_binary_agree:
  assumes "digests_ok cr" and "cr_isInitialized cr" and "65 \<le> length bpubk"
  shows "\<exists>t b. get_address cr bpubk = Inr t \<and> get_address_bin cr bpubk = Inr b \<and>
           hex2bin t = b \<and> length b = 25 \<and> b ! 0 = 0"
proof -
  obtain w h where c: "get_address_comp cr bpubk = Inr (Some (0 # w, h))" and "length w = 20" "length h = 32"
    using assms length_digests [OF assms(1)] by (simp add: get_address_comp_def Let_def)
  moreover have "hex_pairs (concat (map HexLookup (0 # w)) @ concat (map HexLookup (take 4 h))) = (0 # w) @ take 4 h"
    using hex_pairs_HexLookup [of "(0 # w) @ take 4 h"] by simp
  ultimately show ?thesis
    by (simp add: get_address_def get_address_bin_def hex2bin_def HexLookup_def)
qed

definition sample_crypto :: crypto where
  "sample_crypto = \<lparr>cr_isInitialized = True, cr_SHA256 = (\<lambda>d. replicate 32 (of_nat (length d))),
     cr_RIPEMD160 = (\<lambda>d. replicate 20 7), cr_keccak = (\<lambda>d. replicate 32 5),
     cr_d2i_PUBKEY = (\<lambda>k. Some k), cr_d2i_ECDSA_SIG = (\<lambda>s. Some s), cr_ECDSA_do_verify = (\<lambda>h s k. True)\<rparr>"

theorem address_text_and_binary_agree_witness:
  "\<exists>t b. get_address sample_crypto (replicate 65 1) = Inr t \<and>
     get_address_bin sample_crypto (replicate 65 1) = Inr b \<and> hex2bin t = b \<and> length b = 25"
  using address_text_and_binary_agree [of sample_crypto "replicate 65 1"]
  by (auto simp: sample_crypto_def digests_ok_def)

text \<open>
  The address of a contract or token is derived from a string that determines the owner and the
  nonce: two addresses of 25 bytes and two positive nonces with the same RLP encoding are equal
  (nonces that are not positive all count as the same).
\<close>

theorem custom_preimage_injective:
  assumes "length o1 = 25" and "length o2 = 25" and "custom_preimage o1 n1 = custom_preimage o2 n2"
  shows "o1 = o2 \<and> (n1 = n2 \<or> sint n1 \<le> 0 \<and> sint n2 \<le> 0)"
proof -
  define field where "field n = (if 0 < sint n then IntToRLP n else [])" for n :: u32
  have f: "length (field n) \<le> 55" "field n \<noteq> [0]" "length (field n) \<le> 4" for n
    using IntToRLP_field [of n] by (auto simp: field_def)
  have pre: "\<exists>x. custom_preimage ow n = x # EncodeField ow @ EncodeField (field n)" if "length ow = 25" for ow n
  proof -
    let ?d = "EncodeField ow @ EncodeField (field n)"
    have "length ?d \<le> 55"
      using length_EncodeField [of ow] length_EncodeField [of "field n"] f [of n] that by simp
    then show ?thesis
      using size_of_small [of ?d] by (simp add: custom_preimage_def RLP_def CalcTotalSize_def field_def)
  qed
  have "EncodeField o1 @ EncodeField (field n1) = EncodeField o2 @ EncodeField (field n2)"
    using pre [OF assms(1), of n1] pre [OF assms(2), of n2] assms(3) by auto
  moreover have "o1 \<noteq> [0]" "o2 \<noteq> [0]"
    using assms(1,2) by auto
  ultimately have o: "o1 = o2" and "EncodeField (field n1) = EncodeField (field n2)"
    using EncodeField_inj [of o1 o2 "EncodeField (field n1)" "EncodeField (field n2)"] assms(1,2) by simp_all
  then have "field n1 = field n2"
    using EncodeField_inj [of "field n1" "field n2" "[]" "[]"] f by simp
  then show ?thesis
    using o IntToRLP_inj [of n1 n2] IntToRLP_field [of n1] IntToRLP_field [of n2]
    by (auto simp: field_def split: if_splits)
qed

theorem custom_preimage_injective_witness:
  "custom_preimage (replicate 25 1) 1 \<noteq> custom_preimage (replicate 25 1) 2 \<and>
   custom_preimage (replicate 25 1) 0 = custom_preimage (replicate 25 1) (- 1) \<and>
   (0 = (- 1 :: u32) \<or> sint (0 :: u32) \<le> 0 \<and> sint (- 1 :: u32) \<le> 0)"
proof -
  have eq: "custom_preimage (replicate 25 1) 0 = custom_preimage (replicate 25 1) (- 1)"
    by (simp add: custom_preimage_def)
  show ?thesis
    using custom_preimage_injective [of "replicate 25 1" "replicate 25 1" 1 2]
      custom_preimage_injective [OF _ _ eq] eq by auto
qed

end
