(* ===== verification/Reader.thy ===== *)
theory Reader
  imports Prelude
begin

unbundle bit_operations_syntax

section \<open>Reading a buffer through pointers (BlockchainRead, low level)\<close>

text \<open>
  The block parser walks over a buffer with raw pointers. Here a pointer is a 64-bit address and
  the buffer an object of the memory, \<open>mem_data\<close> at address \<open>mem_base\<close>. The sum \<open>cur_pos + n\<close> in a
  bounds check wraps around as it does on the machine; a load outside of the object is
  \<open>Undefined\<close>. A \<open>reader\<close> gets the end pointer and the current position and returns a value and
  the new position. \<open>mem_ok\<close>: the object does not stand at the very end of the address space.
\<close>

record Mem =
  mem_base :: u64
  mem_data :: bytes

type_synonym 'a reader = "Mem \<Rightarrow> u64 \<Rightarrow> u64 \<Rightarrow> ('a \<times> u64) result"

definition load :: "Mem \<Rightarrow> u64 \<Rightarrow> nat \<Rightarrow> bytes result" where
  "load m p n =
     (let off = unat (p - mem_base m)
      in if off + n \<le> length (mem_data m) then Inr (take n (drop off (mem_data m)))
         else Inl Undefined)"

definition returnR :: "'a \<Rightarrow> 'a reader" where
  "returnR x m end_pos cur_pos = Inr (x, cur_pos)"

definition bindR :: "'a reader \<Rightarrow> ('a \<Rightarrow> 'b reader) \<Rightarrow> 'b reader" where
  "bindR d f m end_pos cur_pos = bindE (d m end_pos cur_pos) (\<lambda>(x, pos). f x m end_pos pos)"

definition checkR :: "bool \<Rightarrow> string \<Rightarrow> unit reader" where
  "checkR b msg m end_pos cur_pos = bindE (CHECK b msg) (\<lambda>_. Inr ((), cur_pos))"

definition liftR :: "'a result \<Rightarrow> 'a reader" where
  "liftR r m end_pos cur_pos = bindE r (\<lambda>x. Inr (x, cur_pos))"

text \<open>\<open>vector(cur_pos, cur_pos + n)\<close> and \<open>cur_pos += n\<close>, without and with the check before it.\<close>

definition takeBytes :: "u64 \<Rightarrow> bytes reader" where
  "takeBytes n m end_pos cur_pos = bindE (load m cur_pos (unat n)) (\<lambda>bs. Inr (bs, cur_pos + n))"

definition readBytes :: "u64 \<Rightarrow> bytes reader" where
  "readBytes n m end_pos cur_pos =
     bindE (CHECK (cur_pos + n \<le> end_pos) ''Out of the array'') (\<lambda>_.
     takeBytes n m end_pos cur_pos)"

text \<open>A little-endian number.\<close>

fun le_val :: "bytes \<Rightarrow> u64" where
  "le_val [] = 0"
| "le_val (b # bs) = ucast b + 256 * le_val bs"

definition readInt :: "u64 \<Rightarrow> u64 reader" where
  "readInt sz = bindR (readBytes sz) (\<lambda>bs. returnR (le_val bs))"

definition readVarInt :: "u64 reader" where
  "readVarInt =
     bindR (readInt 1) (\<lambda>len.
     if len \<le> 249 then returnR len
     else if len = 250 then readInt 2
     else if len = 251 then readInt 4
     else if len = 252 then readInt 8
     else (\<lambda>m end_pos cur_pos. Inl (Check ''Not supported varint value'')))"

subsection \<open>Readers move forward inside the buffer\<close>

definition off :: "Mem \<Rightarrow> u64 \<Rightarrow> nat" where
  "off m p = unat (p - mem_base m)"

definition in_buf :: "Mem \<Rightarrow> u64 \<Rightarrow> bool" where
  "in_buf m p \<longleftrightarrow> off m p \<le> length (mem_data m)"

definition mem_ok :: "Mem \<Rightarrow> bool" where
  "mem_ok m \<longleftrightarrow> unat (mem_base m) + length (mem_data m) + 64 < 2 ^ 64"

definition mem_end :: "Mem \<Rightarrow> u64" where
  "mem_end m = mem_base m + of_nat (length (mem_data m))"

text \<open>\<open>forward d k\<close>: whatever end pointer it is given, a successful \<open>d\<close> ends inside the buffer, at least
  \<open>k\<close> bytes further on.\<close>

definition forward :: "'a reader \<Rightarrow> nat \<Rightarrow> bool" where
  "forward d k \<longleftrightarrow> (\<forall>m e c x c'. mem_ok m \<longrightarrow> in_buf m c \<longrightarrow> d m e c = Inr (x, c') \<longrightarrow>
     in_buf m c' \<and> off m c + k \<le> off m c')"

lemma forwardD:
  "forward d k \<Longrightarrow> mem_ok m \<Longrightarrow> in_buf m c \<Longrightarrow> d m e c = Inr (x, c') \<Longrightarrow> in_buf m c' \<and> off m c + k \<le> off m c'"
  unfolding forward_def by blast

lemma forward_weaken: "forward d k \<Longrightarrow> j \<le> k \<Longrightarrow> forward d j"
  unfolding forward_def by fastforce

lemma forward_return: "forward (returnR x) 0"
  by (simp add: forward_def returnR_def)

lemma forward_check: "forward (checkR b msg) 0"
  by (auto simp: forward_def checkR_def result_simps)

lemma forward_lift: "forward (liftR r) 0"
  by (auto simp: forward_def liftR_def result_simps)

lemma forward_bind:
  assumes "forward d j" and "\<And>x. forward (f x) k"
  shows "forward (bindR d f) (j + k)"
  unfolding forward_def
proof (intro allI impI)
  fix m e c x c'
  assume a: "mem_ok m" "in_buf m c" "bindR d f m e c = Inr (x, c')"
  then obtain y c1 where 1: "d m e c = Inr (y, c1)" "f y m e c1 = Inr (x, c')"
    by (auto simp: bindR_def result_simps)
  then show "in_buf m c' \<and> off m c + (j + k) \<le> off m c'"
    using forwardD [OF assms(1) a(1,2) 1(1)] forwardD [OF assms(2) a(1) _ 1(2)] by fastforce
qed

lemma forward_bind_left: "forward d k \<Longrightarrow> (\<And>x. forward (f x) 0) \<Longrightarrow> forward (bindR d f) k"
  using forward_bind [of d k f 0] by simp

lemma off_add:
  assumes "mem_ok m" and "off m c + n \<le> length (mem_data m)"
  shows "off m (c + of_nat n) = off m c + n"
proof -
  have "off m c + n < 2 ^ 64"
    using assms unfolding mem_ok_def by linarith
  then have "unat ((c - mem_base m) + of_nat n) = off m c + n"
    unfolding off_def by (rule unat_add_u64)
  then show ?thesis
    by (simp add: off_def algebra_simps)
qed

lemma forward_takeBytes: "forward (takeBytes n) (unat n)"
proof -
  have "in_buf m (c + n) \<and> off m c + unat n \<le> off m (c + n)"
    if "mem_ok m" "off m c + unat n \<le> length (mem_data m)" for m c
    using off_add [OF that] that(2) by (simp add: in_buf_def)
  then show ?thesis
    by (auto simp: forward_def takeBytes_def load_def Let_def off_def result_simps split: if_splits)
qed

lemma forward_readBytes: "forward (readBytes n) (unat n)"
  using forward_takeBytes [of n] by (auto simp: forward_def readBytes_def result_simps)

lemma forward_readInt: "forward (readInt n) (unat n)"
  unfolding readInt_def using forward_bind_left [OF forward_readBytes forward_return] .

lemma forward_readVarInt: "forward readVarInt 1"
proof -
  have fail: "forward (\<lambda>m end_pos cur_pos. Inl e) 0" for e
    by (simp add: forward_def)
  have "forward (readInt n) 0" for n
    using forward_readInt forward_weaken by blast
  then have "forward readVarInt (unat (1 :: u64))"
    unfolding readVarInt_def using fail
    by (intro forward_bind_left forward_readInt) (auto intro: forward_return)
  then show ?thesis
    by simp
qed

subsection \<open>Safe readers\<close>

text \<open>\<open>safe d\<close>: with the end pointer at the end of the buffer or before, \<open>d\<close> never leaves it.\<close>

definition safe :: "'a reader \<Rightarrow> bool" where
  "safe d \<longleftrightarrow> (\<forall>m e c. mem_ok m \<longrightarrow> in_buf m e \<longrightarrow> in_buf m c \<longrightarrow> d m e c \<noteq> Inl Undefined)"

lemma unat_addr:
  assumes "mem_ok m" and "in_buf m p"
  shows "unat p = unat (mem_base m) + off m p"
proof -
  have "unat (mem_base m) + off m p < 2 ^ 64"
    using assms unfolding mem_ok_def in_buf_def by linarith
  then have "unat (mem_base m + of_nat (off m p)) = unat (mem_base m) + off m p"
    by (rule unat_add_u64)
  then show ?thesis
    by (simp add: off_def)
qed

lemma safe_readBytes:
  assumes "unat n \<le> 64"
  shows "safe (readBytes n)"
  unfolding safe_def
proof (intro allI impI notI)
  fix m e c
  assume a: "mem_ok m" "in_buf m e" "in_buf m c" and u: "readBytes n m e c = Inl Undefined"
  have "unat c + unat n < 2 ^ 64"
    using unat_addr [OF a(1,3)] a(1,3) assms unfolding mem_ok_def in_buf_def by linarith
  then have "unat (c + n) = unat c + unat n"
    using unat_add_u64 [of c "unat n"] by simp
  then have "c + n \<le> e \<Longrightarrow> off m c + unat n \<le> off m e"
    using unat_addr [OF a(1,2)] unat_addr [OF a(1,3)] by (simp add: word_le_nat_alt)
  then show False
    using u a(2) by (auto simp: readBytes_def takeBytes_def load_def Let_def off_def in_buf_def CHECK_def
        split: if_splits)
qed

lemma safe_return: "safe (returnR x)"
  by (simp add: safe_def returnR_def)

lemma safe_check: "safe (checkR b msg)"
  by (simp add: safe_def checkR_def CHECK_def)

lemma safe_lift: "r \<noteq> Inl Undefined \<Longrightarrow> safe (liftR r)"
  by (cases r) (auto simp: safe_def liftR_def)

lemma safe_bind:
  assumes "safe d" and "forward d k" and "\<And>x. safe (f x)"
  shows "safe (bindR d f)"
  unfolding safe_def
proof (intro allI impI)
  fix m e c
  assume a: "mem_ok m" "in_buf m e" "in_buf m c"
  show "bindR d f m e c \<noteq> Inl Undefined"
  proof (cases "d m e c")
    case (Inl err)
    then show ?thesis
      using assms(1) a by (auto simp: bindR_def safe_def)
  next
    case (Inr r)
    obtain y c' where r: "r = (y, c')"
      by force
    then have "in_buf m c'"
      using forwardD [OF assms(2) a(1,3)] Inr by blast
    then show ?thesis
      using assms(3) a Inr r by (simp add: bindR_def safe_def)
  qed
qed

lemma safe_readInt: "unat n \<le> 64 \<Longrightarrow> safe (readInt n)"
  unfolding readInt_def by (intro safe_bind [OF _ forward_readBytes] safe_readBytes safe_return)

lemma safe_readVarInt: "safe readVarInt"
proof -
  have fail: "safe (\<lambda>m end_pos cur_pos. Inl (Check msg))" for msg
    by (simp add: safe_def)
  show ?thesis
    unfolding readVarInt_def using fail
    by (intro safe_bind [OF _ forward_readInt] safe_readInt) (auto intro: safe_return safe_readInt)
qed

subsection \<open>Reading back\<close>

text \<open>
  \<open>reads d bs x\<close>: wherever the bytes \<open>bs\<close> stand in a buffer and before the end pointer, \<open>d\<close> reads
  \<open>x\<close> there and stops behind them. \<open>here m c s\<close>: what is left of the buffer at \<open>c\<close>.
\<close>

definition here :: "Mem \<Rightarrow> u64 \<Rightarrow> bytes \<Rightarrow> bool" where
  "here m c s \<longleftrightarrow> mem_ok m \<and> in_buf m c \<and> drop (off m c) (mem_data m) = s"

definition reads :: "'a reader \<Rightarrow> bytes \<Rightarrow> 'a \<Rightarrow> bool" where
  "reads d bs x \<longleftrightarrow> (\<forall>m e c rest. here m c (bs @ rest) \<longrightarrow> in_buf m e \<longrightarrow>
     off m c + length bs \<le> off m e \<longrightarrow> d m e c = Inr (x, c + of_nat (length bs)))"

lemma readsD:
  "reads d bs x \<Longrightarrow> here m c (bs @ rest) \<Longrightarrow> in_buf m e \<Longrightarrow> off m c + length bs \<le> off m e \<Longrightarrow>
   d m e c = Inr (x, c + of_nat (length bs))"
  unfolding reads_def by blast

lemma here_length: "here m c s \<Longrightarrow> off m c + length s = length (mem_data m)"
  by (auto simp: here_def in_buf_def)

lemma here_off: "here m c (bs @ rest) \<Longrightarrow> off m (c + of_nat (length bs)) = off m c + length bs"
  using here_length [of m c "bs @ rest"] by (intro off_add) (auto simp: here_def)

lemma here_step:
  assumes "here m c (bs @ rest)"
  shows "here m (c + of_nat (length bs)) rest"
proof -
  have "drop (length bs) (drop (off m c) (mem_data m)) = rest"
    using assms by (simp add: here_def)
  then show ?thesis
    using assms here_off [OF assms] here_length [OF assms] by (simp add: here_def in_buf_def add.commute)
qed

lemma reads_return: "reads (returnR x) [] x"
  by (simp add: reads_def returnR_def)

lemma reads_check: "b \<Longrightarrow> reads (checkR b msg) [] ()"
  by (simp add: reads_def checkR_def)

lemma reads_lift: "reads (liftR (Inr x)) [] x"
  by (simp add: reads_def liftR_def)

lemma reads_bind:
  assumes "reads d b1 x" and "reads (f x) b2 y"
  shows "reads (bindR d f) (b1 @ b2) y"
  unfolding reads_def
proof (intro allI impI)
  fix m e c rest
  assume h: "here m c ((b1 @ b2) @ rest)" and e: "in_buf m e" "off m c + length (b1 @ b2) \<le> off m e"
  have h1: "here m c (b1 @ (b2 @ rest))"
    using h by simp
  have d: "d m e c = Inr (x, c + of_nat (length b1))"
    using readsD [OF assms(1) h1 e(1)] e(2) by simp
  have "f x m e (c + of_nat (length b1)) = Inr (y, c + of_nat (length b1) + of_nat (length b2))"
    using readsD [OF assms(2) here_step [OF h1] e(1)] e(2) here_off [OF h1] by simp
  then show "bindR d f m e c = Inr (y, c + of_nat (length (b1 @ b2)))"
    by (simp add: bindR_def d add.assoc)
qed

lemma reads_bind_nil: "reads d [] x \<Longrightarrow> reads (f x) bs y \<Longrightarrow> reads (bindR d f) bs y"
  using reads_bind [of d "[]" x f bs y] by simp

lemma reads_map: "reads d bs x \<Longrightarrow> reads (bindR d (\<lambda>x. returnR (f x))) bs (f x)"
  using reads_bind [of d bs x "\<lambda>x. returnR (f x)" "[]" "f x"] reads_return [of "f x"] by simp

lemma reads_readBytes:
  assumes "length bs = unat n"
  shows "reads (readBytes n) bs bs"
  unfolding reads_def
proof (intro allI impI)
  fix m e c rest
  assume h: "here m c (bs @ rest)" and e: "in_buf m e" "off m c + length bs \<le> off m e"
  have ok: "mem_ok m" "in_buf m c"
    using h by (simp_all add: here_def)
  have n: "(of_nat (length bs) :: u64) = n"
    using assms by simp
  have "in_buf m (c + n)" "off m (c + n) = off m c + length bs"
    using here_off [OF h] here_length [OF h] by (simp_all add: n in_buf_def)
  then have "c + n \<le> e"
    using unat_addr [OF ok(1) e(1)] unat_addr [OF ok(1), of "c + n"] e(2) by (simp add: word_le_nat_alt)
  moreover have "load m c (unat n) = Inr bs"
    using h here_length [OF h] assms by (simp add: load_def Let_def here_def flip: off_def)
  ultimately show "readBytes n m e c = Inr (bs, c + of_nat (length bs))"
    by (simp add: readBytes_def takeBytes_def n)
qed

text \<open>The reference encoding of a varint.\<close>

fun le_bytes :: "nat \<Rightarrow> u64 \<Rightarrow> bytes" where
  "le_bytes 0 v = []"
| "le_bytes (Suc n) v = ucast v # le_bytes n (drop_bit 8 v)"

definition varint :: "u64 \<Rightarrow> bytes" where
  "varint v =
     (if v \<le> 249 then [ucast v]
      else if v < 2 ^ 16 then 250 # le_bytes 2 v
      else if v < 2 ^ 32 then 251 # le_bytes 4 v
      else 252 # le_bytes 8 v)"

lemma length_le_bytes [simp]: "length (le_bytes n v) = n"
  by (induction n arbitrary: v) auto

lemma le_val_le_bytes: "le_val (le_bytes n v) = take_bit (8 * n) v"
proof (induction n arbitrary: v)
  case 0
  then show ?case by simp
next
  case (Suc n)
  have "256 * w = push_bit 8 (w :: u64)" for w
    by (simp add: push_bit_eq_mult)
  moreover have "(ucast (ucast v :: byte) :: u64) = take_bit 8 v"
    by (simp add: unsigned_ucast_eq)
  moreover have "take_bit 8 v + push_bit 8 (take_bit (8 * n) (drop_bit 8 v)) = take_bit (8 * Suc n) v"
  proof -
    have "take_bit 8 v + push_bit 8 (take_bit (8 * n) (drop_bit 8 v)) =
        take_bit 8 v OR push_bit 8 (take_bit (8 * n) (drop_bit 8 v))"
      by (rule disjunctive_add) (auto simp: bit_simps)
    also have "\<dots> = take_bit (8 * Suc n) v"
      by (rule bit_word_eqI) (auto simp: bit_simps)
    finally show ?thesis .
  qed
  ultimately show ?case
    by (simp add: Suc)
qed

lemma reads_readInt: "length bs = unat n \<Longrightarrow> le_val bs = v \<Longrightarrow> reads (readInt n) bs v"
  unfolding readInt_def using reads_map [OF reads_readBytes, of bs n le_val] by simp

lemma take_bit_less: "unat v < 2 ^ n \<Longrightarrow> take_bit n (v :: u64) = v"
  by (simp add: word_unat_eq_iff unsigned_take_bit_eq take_bit_nat_eq_self)

lemma reads_readVarInt: "reads readVarInt (varint v) v"
proof -
  have tail: "reads readVarInt (b # bs) v"
    if "reads (readInt 1) [b] l" "reads (if l \<le> 249 then returnR l else if l = 250 then readInt 2
        else if l = 251 then readInt 4 else if l = 252 then readInt 8
        else (\<lambda>m end_pos cur_pos. Inl (Check ''Not supported varint value''))) bs v" for b l bs
  proof -
    have "reads readVarInt ([b] @ bs) v"
      unfolding readVarInt_def by (rule reads_bind [OF that(1)]) (rule that(2))
    then show ?thesis
      by simp
  qed
  have one: "reads (readInt 1) [b] (ucast b)" for b
    by (rule reads_readInt) simp_all
  consider (a) "v \<le> 249" | (b) "\<not> v \<le> 249" "v < 2 ^ 16" | (c) "\<not> v < 2 ^ 16" "\<not> v \<le> 249" "v < 2 ^ 32"
    | (d) "\<not> v < 2 ^ 32" "\<not> v < 2 ^ 16" "\<not> v \<le> 249"
    by blast
  then show ?thesis
  proof cases
    case a
    have "(ucast (ucast v :: byte) :: u64) = take_bit 8 v"
      by (simp add: unsigned_ucast_eq)
    also have "\<dots> = v"
      using a by (intro take_bit_less) (simp add: word_le_nat_alt)
    finally have v: "(ucast (ucast v :: byte) :: u64) = v" .
    have "varint v = [ucast v]"
      using a by (simp add: varint_def)
    then show ?thesis
      using tail [OF one, of "ucast v" "[]"] a reads_return [of v] by (simp add: v)
  next
    case b
    then have "reads (readInt 2) (le_bytes 2 v) v"
      by (intro reads_readInt) (simp_all add: le_val_le_bytes take_bit_less word_less_nat_alt)
    then show ?thesis
      using b tail [OF one, of 250 "le_bytes 2 v"] by (simp add: varint_def)
  next
    case c
    then have "reads (readInt 4) (le_bytes 4 v) v"
      by (intro reads_readInt) (simp_all add: le_val_le_bytes take_bit_less word_less_nat_alt)
    then show ?thesis
      using c tail [OF one, of 251 "le_bytes 4 v"] by (simp add: varint_def)
  next
    case d
    have "take_bit 64 v = v"
      by (rule take_bit_word_eq_self) simp
    then have "reads (readInt 8) (le_bytes 8 v) v"
      by (intro reads_readInt) (simp_all add: le_val_le_bytes)
    then show ?thesis
      using d tail [OF one, of 252 "le_bytes 8 v"] by (simp add: varint_def)
  qed
qed

end
