(* ===== verification/BlockchainRead.thy ===== *)
theory BlockchainRead
  imports BlockInfo BlockchainUtils Reader
begin

section \<open>Parsing blocks and transactions (BlockchainRead)\<close>

text \<open>
  The parser of the files and network messages: headers, transactions, and the three kinds of
  blocks, over the readers of theory \<open>Reader\<close>. rapidjson and the JSON helpers of the common
  library are parameters, as are the digests, the check of a signature and \<open>fromHex\<close>; they are
  fields of the record \<open>lib\<close>:
  \<^item> \<open>lib_Parse\<close>: \<open>Document::Parse\<close>, \<open>None\<close> when it reports an error;
  \<^item> \<open>lib_memberString d k\<close>: \<open>d.HasMember(k) && d[k].IsString()\<close> and then \<open>d[k].GetString()\<close>;
    \<open>lib_memberObject\<close> the same for \<open>IsObject\<close>;
  \<^item> \<open>lib_getOptObject\<close>, \<open>lib_getString\<close>, \<open>lib_getObject\<close>: \<open>getOpt<JsonObject>\<close> and \<open>get<..>\<close> of jsonUtils;
  \<^item> \<open>lib_moduleV8\<close>: the entry of \<open>modules\<close>; \<open>lib_uninit\<close>: what the uninitialised member \<open>value\<close> of a
    local \<open>DelegateInfo\<close> holds.
\<close>

record 'd lib =
  lib_crypto :: crypto
  lib_fromHex :: "bytes \<Rightarrow> bytes result"
  lib_moduleV8 :: bool
  lib_uninit :: u64
  lib_Parse :: "bytes \<Rightarrow> 'd option"
  lib_memberString :: "'d \<Rightarrow> bytes \<Rightarrow> bytes option"
  lib_memberObject :: "'d \<Rightarrow> bytes \<Rightarrow> 'd option"
  lib_getOptObject :: "'d \<Rightarrow> 'd option"
  lib_getString :: "'d \<Rightarrow> bytes \<Rightarrow> bytes result"
  lib_getObject :: "'d \<Rightarrow> bytes \<Rightarrow> 'd result"

subsection \<open>Numbers in text: \<open>std::stoull\<close> and \<open>std::stoi\<close>\<close>

definition is_space :: "byte \<Rightarrow> bool" where
  "is_space c = (c = 32 \<or> 9 \<le> c \<and> c \<le> 13)"

definition is_digit :: "byte \<Rightarrow> bool" where
  "is_digit c = (48 \<le> c \<and> c \<le> 57)"

fun split_sign :: "bytes \<Rightarrow> bool \<times> bytes" where
  "split_sign [] = (False, [])"
| "split_sign (c # cs) = (if c = 45 then (True, cs) else if c = 43 then (False, cs) else (False, c # cs))"

definition magnitude :: "bytes \<Rightarrow> nat" where
  "magnitude ds = foldl (\<lambda>n d. 10 * n + unat (d - 48)) 0 ds"

text \<open>\<open>None\<close>: \<open>std::invalid_argument\<close>. Otherwise the sign and the magnitude.\<close>

definition parse_number :: "bytes \<Rightarrow> (bool \<times> nat) option" where
  "parse_number s =
     (let (neg, cs) = split_sign (dropWhile is_space s);
          ds = takeWhile is_digit cs
      in if ds = [] then None else Some (neg, magnitude ds))"

definition stoull :: "bytes \<Rightarrow> u64 result" where
  "stoull s =
     (case parse_number s of
        None \<Rightarrow> Inl (Check ''stoull'')
      | Some (neg, n) \<Rightarrow>
          if 2 ^ 64 \<le> n then Inl OutOfRange
          else Inr (if neg then - of_nat n else of_nat n))"

definition stoi :: "bytes \<Rightarrow> u32 result" where
  "stoi s =
     (case parse_number s of
        None \<Rightarrow> Inl (Check ''stoi'')
      | Some (neg, n) \<Rightarrow>
          if (if neg then n \<le> 2 ^ 31 else n < 2 ^ 31)
          then Inr (if neg then - of_nat n else of_nat n)
          else Inl OutOfRange)"

subsection \<open>Headers\<close>

definition SIGN_BLOCK_TYPE :: u64 where "SIGN_BLOCK_TYPE = 0x1100111167452301"
definition REJECTED_TXS_BLOCK_TYPE :: u64 where "REJECTED_TXS_BLOCK_TYPE = 0x3300111167452301"
definition BLOCK_SIZE_SIZE :: u64 where "BLOCK_SIZE_SIZE = 8"
definition SIMPLE_BLOCK_HEADER_SIZE :: u64 where "SIMPLE_BLOCK_HEADER_SIZE = 3 * 8 + 64"
definition SIGN_BLOCK_HEADER_SIZE :: u64 where "SIGN_BLOCK_HEADER_SIZE = 3 * 8 + 32"

definition readSimpleBlockHeaderWithoutSize :: "BlockHeader \<Rightarrow> BlockHeader reader" where
  "readSimpleBlockHeaderWithoutSize bi =
     bindR (readInt 8) (\<lambda>blockType.
     bindR (readInt 8) (\<lambda>timestamp.
     bindR (readBytes 32) (\<lambda>prevHash.
     bindR (readBytes 32) (\<lambda>txsHash.
     returnR (bi\<lparr>bh_blockType := blockType, bh_timestamp := timestamp, bh_prevHash := prevHash,
       bh_txsHash := txsHash\<rparr>)))))"

definition readSignBlockHeaderWithoutSize :: "SignBlockHeader \<Rightarrow> SignBlockHeader reader" where
  "readSignBlockHeaderWithoutSize bh =
     bindR (readInt 8) (\<lambda>blockType.
     bindR (checkR (blockType = SIGN_BLOCK_TYPE) ''Incorrect block type'') (\<lambda>_.
     bindR (readInt 8) (\<lambda>timestamp.
     bindR (readBytes 32) (\<lambda>prevHash.
     returnR (bh\<lparr>sh_timestamp := timestamp, sh_prevHash := prevHash\<rparr>)))))"

definition readRejectedTxsBlockHeaderWithoutSize :: "RejectedTxsBlockHeader \<Rightarrow> RejectedTxsBlockHeader reader" where
  "readRejectedTxsBlockHeaderWithoutSize bi =
     bindR (readInt 8) (\<lambda>blockType.
     bindR (checkR (blockType = REJECTED_TXS_BLOCK_TYPE) ''Incorrect block type'') (\<lambda>_.
     bindR (readInt 8) (\<lambda>timestamp.
     bindR (readBytes 32) (\<lambda>prevHash.
     bindR readVarInt (\<lambda>txsSignSize.
     bindR (readBytes txsSignSize) (\<lambda>txsSign.
     bindR readVarInt (\<lambda>txsPubkeySize.
     bindR (readBytes txsPubkeySize) (\<lambda>txsPubkey.
     returnR (bi\<lparr>rh_timestamp := timestamp, rh_prevHash := prevHash, rh_txsSign := txsSign,
       rh_txsPubkey := txsPubkey\<rparr>)))))))))"

subsection \<open>Signature and rejected transactions\<close>

text \<open>
  The three functions that read a transaction return whether it was read, its size and the next
  position; the transaction is an out parameter. They move \<open>end_pos\<close> to the end of the transaction.
\<close>

type_synonym 'a tx_result = "((bool \<times> u64 \<times> u64) \<times> 'a) result"

definition readSignTransactionInfo ::
  "crypto \<Rightarrow> SignTransactionInfo \<Rightarrow> Mem \<Rightarrow> u64 \<Rightarrow> u64 \<Rightarrow> SignTransactionInfo tx_result" where
  "readSignTransactionInfo cr txInfo m end_pos cur_pos =
     bindE (readVarInt m end_pos cur_pos) (\<lambda>(tx_size, cur_pos).
     if tx_size = 0 then Inr ((False, 0, cur_pos), txInfo)
     else
       bindE (CHECK (cur_pos + tx_size \<le> end_pos) ''Out of the array'') (\<lambda>_.
       let end_pos = cur_pos + tx_size in
       bindE (bindR (readBytes 32) (\<lambda>blockHash.
              bindR readVarInt (\<lambda>signSize.
              bindR (readBytes signSize) (\<lambda>sign.
              bindR readVarInt (\<lambda>pubkSize.
              bindR (readBytes pubkSize) (\<lambda>pubkey.
              returnR (blockHash, sign, pubkey)))))) m end_pos cur_pos) (\<lambda>((blockHash, sign, pubkey), cur_pos).
       bindE (get_address_bin cr pubkey) (\<lambda>binAddress.
       bindE (CHECK (binAddress \<noteq> []) ''incorrect pubkey script'') (\<lambda>_.
       bindE (Address_of_vector binAddress False) (\<lambda>address.
       bindE (CHECK (crypto_check_sign_data cr sign pubkey blockHash) ''Not validate'') (\<lambda>_.
       Inr ((True, tx_size, cur_pos),
         \<lparr>st_blockHash = blockHash, st_sign = sign, st_pubkey = pubkey, st_address = address\<rparr>))))))))"

definition readRedjectedTransactionInfo ::
  "RejectedTransactionInfo \<Rightarrow> Mem \<Rightarrow> u64 \<Rightarrow> u64 \<Rightarrow> RejectedTransactionInfo tx_result" where
  "readRedjectedTransactionInfo txInfo m end_pos cur_pos =
     bindE (readVarInt m end_pos cur_pos) (\<lambda>(tx_size, cur_pos).
     if tx_size = 0 then Inr ((False, 0, cur_pos), txInfo)
     else
       bindE (CHECK (cur_pos + tx_size \<le> end_pos) ''Out of the array'') (\<lambda>_.
       let end_pos = cur_pos + tx_size in
       bindE (bindR (readBytes 32) (\<lambda>hash.
              bindR readVarInt (\<lambda>err.
              returnR (hash, err))) m end_pos cur_pos) (\<lambda>((hash, err), cur_pos).
       Inr ((True, tx_size, cur_pos), \<lparr>rt_hash = hash, rt_error = err\<rparr>))))"

subsection \<open>Transactions\<close>

record PrevTransactionSignHelper =
  ph_isFirst :: bool
  ph_isPrevSign :: bool
  ph_prevTxData :: bytes

definition PrevTransactionSignHelper_default :: PrevTransactionSignHelper where
  "PrevTransactionSignHelper_default = \<lparr>ph_isFirst = False, ph_isPrevSign = False, ph_prevTxData = []\<rparr>"

definition isSignBlockTx :: "TransactionInfo \<Rightarrow> PrevTransactionSignHelper \<Rightarrow> bool result" where
  "isSignBlockTx txInfo helper =
     (if \<not> ph_isPrevSign helper then Inr False
      else bindE (Address_eq (tx_fromAddress txInfo) (tx_toAddress txInfo)) (\<lambda>eq.
           Inr (eq \<and> tx_value txInfo = 0 \<and>
             (ph_isFirst helper \<or> tx_data txInfo = ph_prevTxData helper \<and> tx_data txInfo \<noteq> []))))"

text \<open>The fields in the order in which they stand in the buffer. \<open>raw_endClear\<close> is the pointer
  \<open>endClearTx\<close>, \<open>raw_status\<close> the status with the number of bytes it takes.\<close>

record RawTx =
  raw_to :: bytes
  raw_value :: u64
  raw_fees :: u64
  raw_nonce :: u64
  raw_data :: bytes
  raw_endClear :: u64
  raw_sign :: bytes
  raw_pubKey :: bytes
  raw_status :: "(u64 \<times> u64) option"

definition posR :: "u64 reader" where
  "posR m end_pos cur_pos = Inr (cur_pos, cur_pos)"

definition readStatus :: "(u64 \<times> u64) option reader" where
  "readStatus m end_pos cur_pos =
     (if cur_pos < end_pos
      then bindE (readVarInt m end_pos cur_pos) (\<lambda>(st, pos). Inr (Some (st, pos - cur_pos), pos))
      else Inr (None, cur_pos))"

definition readRawHead :: "(bytes \<times> u64 \<times> u64 \<times> u64 \<times> u64) reader" where
  "readRawHead =
     bindR (readBytes 25) (\<lambda>to.
     bindR readVarInt (\<lambda>value.
     bindR readVarInt (\<lambda>fees.
     bindR readVarInt (\<lambda>nonce.
     bindR readVarInt (\<lambda>dataSize.
     returnR (to, value, fees, nonce, dataSize))))))"

definition readRawTail :: "bytes \<Rightarrow> u64 \<Rightarrow> u64 \<Rightarrow> u64 \<Rightarrow> u64 \<Rightarrow> RawTx reader" where
  "readRawTail to value fees nonce dataSize =
     bindR (takeBytes dataSize) (\<lambda>data.
     bindR posR (\<lambda>endClearTx.
     bindR readVarInt (\<lambda>signSize.
     bindR (readBytes signSize) (\<lambda>sign.
     bindR readVarInt (\<lambda>pubkeySize.
     bindR (readBytes pubkeySize) (\<lambda>pubKey.
     bindR readStatus (\<lambda>status.
     returnR \<lparr>raw_to = to, raw_value = value, raw_fees = fees, raw_nonce = nonce, raw_data = data,
       raw_endClear = endClearTx, raw_sign = sign, raw_pubKey = pubKey, raw_status = status\<rparr>)))))))"

definition readRawTx :: "RawTx reader" where
  "readRawTx = bindR readRawHead (\<lambda>(to, value, fees, nonce, dataSize). readRawTail to value fees nonce dataSize)"

definition parse_docData :: "'d lib \<Rightarrow> bytes \<Rightarrow> 'd option" where
  "parse_docData l data =
     (if data \<noteq> [] \<and> data ! 0 = of_char CHR ''{'' \<and> last data = of_char CHR ''}''
      then lib_Parse l data else None)"

definition isBlockedFrom :: "bytes \<Rightarrow> bool" where
  "isBlockedFrom data = (length data = 9 \<and> data ! 0 = 1)"

definition parse_delegate :: "'d lib \<Rightarrow> bytes \<Rightarrow> 'd option \<Rightarrow> DelegateInfo option" where
  "parse_delegate l data docData =
     (if data = [] \<or> isBlockedFrom data then None
      else case docData of
        None \<Rightarrow> None
      | Some doc \<Rightarrow>
         (case lib_memberString l doc (lit ''method'') of
            None \<Rightarrow> None
          | Some method \<Rightarrow>
              if method = lit ''delegate''
              then (case lib_memberObject l doc (lit ''params'') of
                      None \<Rightarrow> None
                    | Some params \<Rightarrow>
                       (case lib_memberString l params (lit ''value'') of
                          None \<Rightarrow> None
                        | Some v \<Rightarrow>
                           (case stoull v of
                              Inl _ \<Rightarrow> None
                            | Inr n \<Rightarrow> Some \<lparr>di_value = n, di_isDelegate = True\<rparr>)))
              else if method = lit ''undelegate'' then Some \<lparr>di_value = lib_uninit l, di_isDelegate = False\<rparr>
              else None))"

definition parse_script_type :: "'d lib \<Rightarrow> 'd option \<Rightarrow> ScriptType" where
  "parse_script_type l docData =
     (case docData of
        None \<Rightarrow> pay
      | Some doc \<Rightarrow>
         (case lib_memberString l doc (lit ''method'') of
            None \<Rightarrow> unknown
          | Some method \<Rightarrow>
              if method = lit ''compile'' then compile
              else if method = lit ''run'' then run
              else unknown))"

text \<open>The lambda \<open>parseTokenInfo\<close> catches every exception: \<open>catch_all\<close>.\<close>

definition catch_all :: "'a option result \<Rightarrow> 'a option" where
  "catch_all r = (case r of Inl _ \<Rightarrow> None | Inr x \<Rightarrow> x)"

definition parse_token_create :: "'d lib \<Rightarrow> TransactionInfo \<Rightarrow> 'd \<Rightarrow> TokenInfo result" where
  "parse_token_create l txInfo params =
     bindE (lib_getString l params (lit ''type'')) (\<lambda>type.
     bindE (CHECK (type = lit ''M1'') ''Incorrect type'') (\<lambda>_.
     bindE (lib_getString l params (lit ''owner'')) (\<lambda>ownerStr.
     bindE (Address_of_hex (lib_fromHex l) ownerStr) (\<lambda>owner.
     bindE (lib_getString l params (lit ''decimals'')) (\<lambda>decimalsStr.
     bindE (stoi decimalsStr) (\<lambda>decimals.
     bindE (lib_getString l params (lit ''symbol'')) (\<lambda>symbol.
     bindE (lib_getString l params (lit ''name'')) (\<lambda>name.
     bindE (lib_getString l params (lit ''emission'')) (\<lambda>emissionStr.
     bindE (stoull emissionStr) (\<lambda>value.
     bindE (Address_eq owner (tx_fromAddress txInfo)) (\<lambda>eq.
     bindE (CHECK eq ''Incorrect contract owner'') (\<lambda>_.
     Inr (Create \<lparr>ct_type = type, ct_owner = owner, ct_decimals = decimals, ct_value = value,
       ct_symbol = symbol, ct_name = name, ct_emission = False, ct_beginDistribution = []\<rparr>)))))))))))))"

definition parse_token_move :: "'d lib \<Rightarrow> 'd \<Rightarrow> TokenInfo result" where
  "parse_token_move l params =
     bindE (lib_getString l params (lit ''to'')) (\<lambda>toStr.
     bindE (Address_of_hex (lib_fromHex l) toStr) (\<lambda>toAddress.
     bindE (lib_getString l params (lit ''value'')) (\<lambda>valueStr.
     bindE (stoull valueStr) (\<lambda>value.
     Inr (MoveTokens toAddress value)))))"

definition parse_token_burn :: "'d lib \<Rightarrow> 'd \<Rightarrow> TokenInfo result" where
  "parse_token_burn l params =
     bindE (lib_getString l params (lit ''value'')) (\<lambda>valueStr.
     bindE (stoull valueStr) (\<lambda>value.
     Inr (BurnTokens value)))"

definition parseTokenInfo :: "'d lib \<Rightarrow> TransactionInfo \<Rightarrow> 'd option \<Rightarrow> TokenInfo option" where
  "parseTokenInfo l txInfo docData =
     (case docData of
        None \<Rightarrow> None
      | Some doc \<Rightarrow>
         (case lib_getOptObject l doc of
            None \<Rightarrow> None
          | Some tokenJson \<Rightarrow>
              catch_all (
                bindE (lib_getString l tokenJson (lit ''method'')) (\<lambda>method.
                if method = lit ''token-create''
                then bindE (lib_getObject l tokenJson (lit ''params'')) (\<lambda>params.
                     bindE (parse_token_create l txInfo params) (\<lambda>t. Inr (Some t)))
                else if method = lit ''token-transfer''
                then bindE (lib_getObject l tokenJson (lit ''params'')) (\<lambda>params.
                     bindE (parse_token_move l params) (\<lambda>t. Inr (Some t)))
                else if method = lit ''burn-tokens''
                then bindE (lib_getObject l tokenJson (lit ''params'')) (\<lambda>params.
                     bindE (parse_token_burn l params) (\<lambda>t. Inr (Some t)))
                else Inr None))))"

text \<open>The sender: nobody for an empty key, otherwise the address of the key.\<close>

definition tx_sender :: "crypto \<Rightarrow> RawTx \<Rightarrow> Address result" where
  "tx_sender cr r =
     (if raw_pubKey r = [] then Inr (setEmpty Address_default)
      else bindE (get_address_bin cr (raw_pubKey r)) (\<lambda>binAddress.
           bindE (CHECK (binAddress \<noteq> []) ''incorrect pubkey script'') (\<lambda>_.
           Address_of_vector binAddress (isBlockedFrom (raw_data r)))))"

text \<open>What \<open>readSimpleTransactionInfo\<close> computes from the fields. \<open>tx_start\<close> and \<open>allTxStart\<close> point behind
  and at the size of the transaction, \<open>allTxEnd\<close> behind the last field.\<close>

definition finish_tx ::
  "'d lib \<Rightarrow> bool \<Rightarrow> PrevTransactionSignHelper \<Rightarrow> bool \<Rightarrow> TransactionInfo \<Rightarrow> Mem \<Rightarrow> u64 \<Rightarrow> u64 \<Rightarrow> u64 \<Rightarrow> u64 \<Rightarrow>
   RawTx \<Rightarrow> TransactionInfo result" where
  "finish_tx l isSaveAllTx helper isValidate txInfo m allTxStart tx_start tx_size allTxEnd r =
     (let docData = parse_docData l (raw_data r);
          toAddress = Address_of_range (raw_to r);
          tx_hash_size = (case raw_status r of None \<Rightarrow> tx_size | Some (_, n) \<Rightarrow> tx_size - n)
      in
      bindE (isScriptAddress toAddress) (\<lambda>isScript.
      bindE (tx_sender (lib_crypto l) r) (\<lambda>fromAddress.
      bindE (load m tx_start (unat tx_hash_size)) (\<lambda>hashed.
      bindE (get_double_sha256 (lib_crypto l) hashed) (\<lambda>hash.
      bindE (load m tx_start (unat (raw_endClear r - tx_start))) (\<lambda>clearTx.
      bindE (if isSaveAllTx then load m allTxStart (unat (allTxEnd - allTxStart)) else Inr (tx_allRawTx txInfo)) (\<lambda>allRaw.
      let tx = txInfo\<lparr>tx_toAddress := toAddress, tx_value := raw_value r, tx_fees := raw_fees r,
            tx_nonce := raw_nonce r, tx_data := raw_data r,
            tx_delegate := (case parse_delegate l (raw_data r) docData of
                              None \<Rightarrow> tx_delegate txInfo | Some d \<Rightarrow> Some d),
            tx_scriptInfo := (if isScript then Some \<lparr>si_txRaw = clearTx, si_type = parse_script_type l docData\<rparr>
                              else tx_scriptInfo txInfo),
            tx_isModuleNotSet := (if isScript \<and> \<not> lib_moduleV8 l then True else tx_isModuleNotSet txInfo),
            tx_sign := raw_sign r, tx_pubKey := raw_pubKey r,
            tx_intStatus := (case raw_status r of None \<Rightarrow> tx_intStatus txInfo | Some (st, _) \<Rightarrow> Some st),
            tx_fromAddress := fromAddress, tx_hash := hash, tx_sizeRawTx := tx_size, tx_allRawTx := allRaw\<rparr>
      in
      bindE (isSignBlockTx tx helper) (\<lambda>isSign.
      bindE (if isValidate
             then bindE (isInitialWallet fromAddress) (\<lambda>initial.
                  if initial then Inr ()
                  else CHECK (crypto_check_sign_data (lib_crypto l) (raw_sign r) (raw_pubKey r) clearTx)
                         ''Not validate'')
             else Inr ()) (\<lambda>_.
      bindE (isTokenAddress toAddress) (\<lambda>isToken.
      Inr (tx\<lparr>tx_isSignBlockTx := isSign,
             tx_tokenInfo := (if isToken then parseTokenInfo l tx docData else tx_tokenInfo txInfo)\<rparr>)))))))))))"

definition readSimpleTransactionInfo ::
  "'d lib \<Rightarrow> bool \<Rightarrow> bool \<Rightarrow> PrevTransactionSignHelper \<Rightarrow> bool \<Rightarrow> TransactionInfo \<Rightarrow> Mem \<Rightarrow> u64 \<Rightarrow> u64 \<Rightarrow>
   TransactionInfo tx_result" where
  "readSimpleTransactionInfo l isParseTx isSaveAllTx helper isValidate txInfo m end_pos allTxStart =
     bindE (readVarInt m end_pos allTxStart) (\<lambda>(tx_size, tx_start).
     if tx_size = 0 then Inr ((False, 0, tx_start), txInfo)
     else
       bindE (CHECK (tx_start + tx_size \<le> end_pos) ''Out of the array'') (\<lambda>_.
       let end_pos = tx_start + tx_size in
       if \<not> isParseTx then Inr ((False, tx_size, end_pos), txInfo)
       else
         bindE (readRawTx m end_pos tx_start) (\<lambda>(r, cur_pos).
         bindE (finish_tx l isSaveAllTx helper isValidate txInfo m allTxStart tx_start tx_size cur_pos r) (\<lambda>tx.
         Inr ((True, tx_size, cur_pos), tx)))))"

subsection \<open>The transactions of a block\<close>

text \<open>
  The \<open>do ... while\<close> loops, with fuel: every turn reads at least the size of a transaction, so
  one more turn than the buffer has bytes is enough (\<open>parse_terminates\<close>).
\<close>

fun simple_txs ::
  "nat \<Rightarrow> 'd lib \<Rightarrow> bool \<Rightarrow> u64 \<Rightarrow> u64 \<Rightarrow> bool \<Rightarrow> u64 \<Rightarrow> Mem \<Rightarrow> u64 \<Rightarrow> u64 \<Rightarrow> u64 \<Rightarrow>
   PrevTransactionSignHelper \<Rightarrow> u64 \<Rightarrow> TransactionInfo list \<Rightarrow> (TransactionInfo list \<times> u64) result" where
  "simple_txs 0 l isSaveAllTx beginTx countTx isValidate posInFile m end_pos cur_pos txIndex helper countSignTxs txs =
     Inl Diverges"
| "simple_txs (Suc fuel) l isSaveAllTx beginTx countTx isValidate posInFile m end_pos cur_pos txIndex helper countSignTxs txs =
     (let txInfo = TransactionInfo_default\<lparr>tx_filePos := \<lparr>fp_pos = cur_pos - mem_base m + posInFile + BLOCK_SIZE_SIZE,
            fp_fileNameRelative = []\<rparr>\<rparr>;
          isReadTransaction = (beginTx \<le> txIndex)
      in
      bindE (readSimpleTransactionInfo l isReadTransaction isSaveAllTx helper isValidate txInfo m end_pos cur_pos)
        (\<lambda>((isInitialized, tx_size, newPos), txInfo).
      let txInfo = txInfo\<lparr>tx_blockIndex := txIndex\<rparr>;
          txs = (if isInitialized \<and> isReadTransaction then txs @ [txInfo] else txs)
      in if countTx \<noteq> 0 \<and> countTx \<le> of_nat (length txs) then Inr (txs, countSignTxs)
         else
           let helper = \<lparr>ph_isFirst = False, ph_isPrevSign = tx_isSignBlockTx txInfo, ph_prevTxData = tx_data txInfo\<rparr>;
               countSignTxs = (if tx_isSignBlockTx txInfo then countSignTxs + 1 else countSignTxs)
           in if 0 < tx_size
              then simple_txs fuel l isSaveAllTx beginTx countTx isValidate posInFile m end_pos newPos (txIndex + 1)
                     helper countSignTxs txs
              else Inr (txs, countSignTxs)))"

definition readSimpleBlockTxs ::
  "'d lib \<Rightarrow> u64 \<Rightarrow> bool \<Rightarrow> u64 \<Rightarrow> u64 \<Rightarrow> bool \<Rightarrow> BlockInfo \<Rightarrow> Mem \<Rightarrow> BlockInfo result" where
  "readSimpleBlockTxs l posInFile isSaveAllTx beginTx countTx isValidate bi m =
     (let end_pos = mem_end m;
          cur_pos = mem_base m + (SIMPLE_BLOCK_HEADER_SIZE - BLOCK_SIZE_SIZE)
      in
      bindE (load m (mem_base m) (unat (end_pos - mem_base m))) (\<lambda>whole.
      bindE (get_double_sha256 (lib_crypto l) whole) (\<lambda>block_hash.
      bindE (load m cur_pos (unat (end_pos - cur_pos))) (\<lambda>txsBytes.
      bindE (get_double_sha256 (lib_crypto l) txsBytes) (\<lambda>txs_hash.
      bindE (CHECK (bh_txsHash (bi_header bi) = txs_hash) ''Incorrect txs hash'') (\<lambda>_.
      bindE (simple_txs (Suc (length (mem_data m))) l isSaveAllTx beginTx countTx isValidate posInFile m end_pos cur_pos 0
               \<lparr>ph_isFirst = True, ph_isPrevSign = True, ph_prevTxData = []\<rparr> 0 (bi_txs bi)) (\<lambda>(txs, countSignTxs).
      let header = (bi_header bi)\<lparr>bh_hash := block_hash\<rparr>;
          header = (if countTx = 0
                    then header\<lparr>bh_countTxs := of_nat (length txs), bh_countSignTx := countSignTxs\<rparr>
                    else header)
      in case txs of
           [] \<Rightarrow> Inr (bi\<lparr>bi_header := header, bi_txs := txs\<rparr>)
         | tx # _ \<Rightarrow>
             bindE (Address_eq (tx_fromAddress tx) (tx_toAddress tx)) (\<lambda>eq.
             Inr (bi\<lparr>bi_header := (if eq \<and> tx_value tx = 0 then header\<lparr>bh_signature := tx_data tx\<rparr> else header),
                     bi_txs := txs\<rparr>)))))))))"

fun sign_txs ::
  "nat \<Rightarrow> crypto \<Rightarrow> SignTransactionInfo \<Rightarrow> Mem \<Rightarrow> u64 \<Rightarrow> u64 \<Rightarrow> SignTransactionInfo list \<Rightarrow>
   SignTransactionInfo list result" where
  "sign_txs 0 cr fresh m end_pos cur_pos txs = Inl Diverges"
| "sign_txs (Suc fuel) cr fresh m end_pos cur_pos txs =
     bindE (readSignTransactionInfo cr fresh m end_pos cur_pos) (\<lambda>((isInitialized, tx_size, newPos), txInfo).
     let txs = (if isInitialized then txs @ [txInfo] else txs)
     in if 0 < tx_size then sign_txs fuel cr fresh m end_pos newPos txs else Inr txs)"

definition SignTransactionInfo_default :: SignTransactionInfo where
  "SignTransactionInfo_default = \<lparr>st_blockHash = [], st_sign = [], st_pubkey = [], st_address = Address_default\<rparr>"

definition readSignBlockTxs :: "crypto \<Rightarrow> SignBlockInfo \<Rightarrow> Mem \<Rightarrow> SignBlockInfo result" where
  "readSignBlockTxs cr bi m =
     (let end_pos = mem_end m;
          cur_pos = mem_base m + (SIGN_BLOCK_HEADER_SIZE - BLOCK_SIZE_SIZE)
      in
      bindE (load m (mem_base m) (unat (end_pos - mem_base m))) (\<lambda>whole.
      bindE (get_double_sha256 cr whole) (\<lambda>block_hash.
      bindE (sign_txs (Suc (length (mem_data m))) cr SignTransactionInfo_default m end_pos cur_pos (sb_txs bi)) (\<lambda>txs.
      Inr (bi\<lparr>sb_header := (sb_header bi)\<lparr>sh_hash := block_hash\<rparr>, sb_txs := txs\<rparr>)))))"

fun rejected_txs ::
  "nat \<Rightarrow> RejectedTransactionInfo \<Rightarrow> Mem \<Rightarrow> u64 \<Rightarrow> u64 \<Rightarrow> RejectedTransactionInfo list \<Rightarrow>
   RejectedTransactionInfo list result" where
  "rejected_txs 0 fresh m end_pos cur_pos txs = Inl Diverges"
| "rejected_txs (Suc fuel) fresh m end_pos cur_pos txs =
     bindE (readRedjectedTransactionInfo fresh m end_pos cur_pos) (\<lambda>((isInitialized, tx_size, newPos), txInfo).
     let txs = (if isInitialized then txs @ [txInfo] else txs)
     in if 0 < tx_size then rejected_txs fuel fresh m end_pos newPos txs else Inr txs)"

definition readRejectedTxs :: "crypto \<Rightarrow> u64 \<Rightarrow> u64 \<Rightarrow> RejectedTxsBlockInfo \<Rightarrow> Mem \<Rightarrow> RejectedTxsBlockInfo result" where
  "readRejectedTxs cr uninit txs_pos bi m =
     (let end_pos = mem_end m
      in
      bindE (load m (mem_base m) (unat (end_pos - mem_base m))) (\<lambda>whole.
      bindE (get_double_sha256 cr whole) (\<lambda>block_hash.
      bindE (rejected_txs (Suc (length (mem_data m))) \<lparr>rt_hash = [], rt_error = uninit\<rparr> m end_pos txs_pos (rb_txs bi)) (\<lambda>txs.
      Inr (bi\<lparr>rb_header := (rb_header bi)\<lparr>rh_hash := block_hash\<rparr>, rb_txs := txs\<rparr>)))))"

subsection \<open>Blocks\<close>

datatype NextBlock =
    SimpleBlock BlockInfo
  | SignBlock SignBlockInfo
  | RejectedBlock RejectedTxsMinimumBlockHeader

definition SignBlockHeader_fresh :: "u64 \<Rightarrow> SignBlockHeader" where
  "SignBlockHeader_fresh uninit = \<lparr>sh_timestamp = uninit, sh_blockSize = 0, sh_hash = [], sh_prevHash = [],
     sh_filePos = \<lparr>fp_pos = 0, fp_fileNameRelative = []\<rparr>, sh_senderSign = [], sh_senderPubkey = [],
     sh_senderAddress = []\<rparr>"

definition RejectedTxsBlockHeader_fresh :: "u64 \<Rightarrow> RejectedTxsBlockHeader" where
  "RejectedTxsBlockHeader_fresh uninit = \<lparr>rh_blockSize = 0, rh_timestamp = uninit,
     rh_filePos = \<lparr>fp_pos = 0, fp_fileNameRelative = []\<rparr>, rh_hash = [], rh_prevHash = [], rh_txsSign = [],
     rh_txsPubkey = []\<rparr>"

definition parseSignBlock :: "'d lib \<Rightarrow> u64 \<Rightarrow> Mem \<Rightarrow> SignBlockInfo result" where
  "parseSignBlock l posInFile m =
     bindE (readSignBlockHeaderWithoutSize (SignBlockHeader_fresh (lib_uninit l)) m (mem_end m) (mem_base m)) (\<lambda>(header, _).
     bindE (readSignBlockTxs (lib_crypto l) \<lparr>sb_header = header, sb_txs = []\<rparr> m) (\<lambda>b.
     Inr (b\<lparr>sb_header := (sb_header b)\<lparr>sh_blockSize := mem_end m - mem_base m,
       sh_filePos := (sh_filePos (sb_header b))\<lparr>fp_pos := posInFile\<rparr>\<rparr>\<rparr>)))"

definition parseSimpleBlock ::
  "'d lib \<Rightarrow> u64 \<Rightarrow> bool \<Rightarrow> bool \<Rightarrow> u64 \<Rightarrow> u64 \<Rightarrow> Mem \<Rightarrow> BlockInfo result" where
  "parseSimpleBlock l posInFile isValidate isSaveAllTx beginTx countTx m =
     bindE (readSimpleBlockHeaderWithoutSize BlockHeader_default m (mem_end m) (mem_base m)) (\<lambda>(header, _).
     bindE (readSimpleBlockTxs l posInFile isSaveAllTx beginTx countTx isValidate \<lparr>bi_header = header, bi_txs = []\<rparr> m) (\<lambda>b.
     Inr (b\<lparr>bi_header := (bi_header b)\<lparr>bh_blockSize := mem_end m - mem_base m,
       bh_filePos := (bh_filePos (bi_header b))\<lparr>fp_pos := posInFile\<rparr>\<rparr>\<rparr>)))"

definition parseNextBlockInfo ::
  "'d lib \<Rightarrow> u64 \<Rightarrow> bool \<Rightarrow> bool \<Rightarrow> u64 \<Rightarrow> u64 \<Rightarrow> Mem \<Rightarrow> NextBlock result" where
  "parseNextBlockInfo l posInFile isValidate isSaveAllTx beginTx countTx m =
     bindE (load m (mem_base m) 8) (\<lambda>typeBytes.
     let block_type = le_val typeBytes
     in if block_type = SIGN_BLOCK_TYPE
        then bindE (parseSignBlock l posInFile m) (\<lambda>b. Inr (SignBlock b))
        else if block_type = REJECTED_TXS_BLOCK_TYPE
        then Inr (RejectedBlock \<lparr>rm_blockSize = mem_end m - mem_base m,
               rm_filePos = \<lparr>fp_pos = posInFile, fp_fileNameRelative = []\<rparr>\<rparr>)
        else bindE (parseSimpleBlock l posInFile isValidate isSaveAllTx beginTx countTx m) (\<lambda>b. Inr (SimpleBlock b)))"

definition parseRejectedTxsBlockInfo :: "'d lib \<Rightarrow> u64 \<Rightarrow> Mem \<Rightarrow> RejectedTxsBlockInfo result" where
  "parseRejectedTxsBlockInfo l posInFile m =
     bindE (readRejectedTxsBlockHeaderWithoutSize (RejectedTxsBlockHeader_fresh (lib_uninit l)) m (mem_end m) (mem_base m))
       (\<lambda>(header, cur_pos).
     bindE (readRejectedTxs (lib_crypto l) (lib_uninit l) cur_pos \<lparr>rb_header = header, rb_txs = []\<rparr> m) (\<lambda>b.
     Inr (b\<lparr>rb_header := (rb_header b)\<lparr>rh_blockSize := mem_end m - mem_base m,
       rh_filePos := (rh_filePos (rb_header b))\<lparr>fp_pos := posInFile\<rparr>\<rparr>\<rparr>)))"

subsection \<open>Files\<close>

text \<open>
  A file is its content. \<open>IfStream::seek\<close> raises for a position that is not a valid \<open>long\<close>;
  \<open>IfStream::read\<close> fills a zeroed buffer with what the file has from there on. A string or vector
  of more than \<open>2^63 - 1\<close> bytes cannot be made: \<open>std::length_error\<close>, here \<open>OutOfRange\<close>. Buffers of
  the parser are allocated at an address \<open>base\<close>.
\<close>

definition seek :: "u64 \<Rightarrow> unit result" where
  "seek pos = CHECK (unat pos < 2 ^ 63) ''Not seekeng ''"

definition fread :: "bytes \<Rightarrow> u64 \<Rightarrow> u64 \<Rightarrow> bytes" where
  "fread file pos n =
     (let bs = take (unat n) (drop (unat pos) file) in bs @ replicate (unat n - length bs) 0)"

definition buffer_size :: "u64 \<Rightarrow> unit result" where
  "buffer_size n = (if unat n < 2 ^ 63 then Inr () else Inl OutOfRange)"

definition saveBlockToFileBinary :: "bytes \<Rightarrow> bytes \<Rightarrow> bytes \<times> u64" where
  "saveBlockToFileBinary file data = (file @ le_bytes 8 (size_of data) @ data, size_of file)"

definition getBlockDump :: "bytes \<Rightarrow> u64 \<Rightarrow> u64 \<Rightarrow> u64 \<Rightarrow> (u64 \<times> bytes) result" where
  "getBlockDump file currPos fromByte toByte =
     (let f_size = size_of file
      in if f_size < currPos + BLOCK_SIZE_SIZE then Inr (0, [])
         else
           bindE (seek currPos) (\<lambda>_.
           let block_size = le_val (fread file currPos BLOCK_SIZE_SIZE)
           in if f_size < block_size + BLOCK_SIZE_SIZE + currPos then Inr (0, [])
              else if block_size \<le> fromByte then Inr (0, [])
              else
                let toByte = (if block_size < toByte then block_size else toByte)
                in bindE (buffer_size (toByte - fromByte)) (\<lambda>_.
                   bindE (seek (currPos + BLOCK_SIZE_SIZE + fromByte)) (\<lambda>_.
                   Inr (block_size, fread file (currPos + BLOCK_SIZE_SIZE + fromByte) (toByte - fromByte))))))"

definition readNextBlockDump :: "bytes \<Rightarrow> u64 \<Rightarrow> bytes \<Rightarrow> (u64 \<times> bytes) result" where
  "readNextBlockDump file currPos blockDump =
     bindE (getBlockDump file currPos 0 max_u64) (\<lambda>(block_size, dump).
     if block_size = 0 then Inr (currPos, blockDump)
     else Inr (currPos + block_size + BLOCK_SIZE_SIZE, dump))"

definition getSizeSimpleTransaction :: "u64 \<Rightarrow> bytes \<Rightarrow> u64 \<Rightarrow> u64 result" where
  "getSizeSimpleTransaction base file currPos =
     (let m = \<lparr>mem_base = base, mem_data = fread file currPos 9\<rparr>
      in bindE (readVarInt m (mem_end m) base) (\<lambda>(sizeTx, _). Inr sizeTx))"

definition readOneSimpleTransactionInfo ::
  "'d lib \<Rightarrow> u64 \<Rightarrow> u64 \<Rightarrow> bytes \<Rightarrow> u64 \<Rightarrow> TransactionInfo \<Rightarrow> bool \<Rightarrow> (bool \<times> TransactionInfo) result" where
  "readOneSimpleTransactionInfo l base1 base2 file currPos txInfo isSaveAllTx =
     (let f_size = size_of file
      in if f_size \<le> currPos then Inr (False, txInfo)
         else if 8 \<le> f_size - currPos
         then
           bindE (seek currPos) (\<lambda>_.
           bindE (getSizeSimpleTransaction base1 file currPos) (\<lambda>sizeTx.
           bindE (buffer_size (sizeTx + 2 * 8)) (\<lambda>_.
           let m = \<lparr>mem_base = base2, mem_data = fread file currPos (sizeTx + 2 * 8)\<rparr>
           in bindE (readSimpleTransactionInfo l True isSaveAllTx PrevTransactionSignHelper_default False txInfo
                       m (mem_end m) base2) (\<lambda>((isRead, _, _), tx). Inr (isRead, tx)))))
         else Inr (False, txInfo))"

subsection \<open>Termination of the loops\<close>

definition returns :: "'a reader \<Rightarrow> bool" where
  "returns d \<longleftrightarrow> (\<forall>m e c. d m e c \<noteq> Inl Diverges)"

lemma CHECK_not_Diverges [simp]: "CHECK b msg \<noteq> Inl Diverges" "CHECK b msg \<noteq> Inl Undefined"
  by (simp_all add: CHECK_def)

lemma returns_bind: "returns d \<Longrightarrow> (\<And>x. returns (f x)) \<Longrightarrow> returns (bindR d f)"
  unfolding returns_def bindR_def by (auto simp: bindE_Inl_iff)

lemma returns_return: "returns (returnR x)"
  by (simp add: returns_def returnR_def)

lemma returns_check: "returns (checkR b msg)"
  unfolding returns_def checkR_def by (auto simp: bindE_Inl_iff)

lemma returns_takeBytes: "returns (takeBytes n)"
  by (auto simp: returns_def takeBytes_def load_def Let_def)

lemma returns_readBytes: "returns (readBytes n)"
  using returns_takeBytes unfolding returns_def readBytes_def by (auto simp: bindE_Inl_iff)

lemma returns_readInt: "returns (readInt n)"
  unfolding readInt_def by (intro returns_bind returns_readBytes returns_return)

lemma returns_readVarInt: "returns readVarInt"
proof -
  have "returns (\<lambda>m end_pos cur_pos. Inl (Check msg))" for msg
    by (simp add: returns_def)
  then show ?thesis
    unfolding readVarInt_def by (auto intro!: returns_bind returns_readInt returns_return)
qed

lemma returns_posR: "returns posR"
  by (simp add: returns_def posR_def)

lemma returns_readStatus: "returns readStatus"
  using returns_readVarInt unfolding returns_def readStatus_def by (auto simp: bindE_Inl_iff)

lemmas returns_intros = returns_bind returns_return returns_check returns_takeBytes returns_readBytes
  returns_readInt returns_readVarInt returns_posR returns_readStatus

lemma returnsD: "returns d \<Longrightarrow> d m e c \<noteq> Inl Diverges"
  by (simp add: returns_def)

lemma forward_posR: "forward posR 0"
  by (simp add: forward_def posR_def)

lemma forward_readStatus: "forward readStatus 0"
  unfolding forward_def readStatus_def
  using forwardD [OF forward_readVarInt] by (auto simp: result_simps split: if_splits) fastforce+

lemma forward0: "forward d k \<Longrightarrow> forward d 0"
  using forward_weaken by blast

lemmas forward_intros = forward_return forward_check forward_lift forward0 [OF forward_takeBytes]
  forward0 [OF forward_readBytes] forward0 [OF forward_readInt] forward0 [OF forward_readVarInt]
  forward_posR forward_readStatus forward_bind_left

text \<open>A transaction reader that returns has moved on, inside the buffer.\<close>

definition tx_moves :: "(Mem \<Rightarrow> u64 \<Rightarrow> u64 \<Rightarrow> 'a tx_result) \<Rightarrow> bool" where
  "tx_moves d \<longleftrightarrow> (\<forall>m e c i n c' t. mem_ok m \<longrightarrow> in_buf m c \<longrightarrow> d m e c = Inr ((i, n, c'), t) \<longrightarrow>
     in_buf m c' \<and> off m c < off m c')"

lemma tx_movesI:
  assumes "\<And>m e c i n c' t. mem_ok m \<Longrightarrow> in_buf m c \<Longrightarrow> d m e c = Inr ((i, n, c'), t) \<Longrightarrow>
      \<exists>c1. in_buf m c1 \<and> off m c < off m c1 \<and> in_buf m c' \<and> off m c1 \<le> off m c'"
  shows "tx_moves d"
  using assms unfolding tx_moves_def by (meson order.strict_trans2)

lemma sign_tx_moves: "tx_moves (readSignTransactionInfo cr t0)"
proof (rule tx_movesI)
  fix m e c i n c' t
  assume m: "mem_ok m" "in_buf m c" and r: "readSignTransactionInfo cr t0 m e c = Inr ((i, n, c'), t)"
  let ?body = "bindR (readBytes 32) (\<lambda>blockHash. bindR readVarInt (\<lambda>signSize. bindR (readBytes signSize) (\<lambda>sign.
      bindR readVarInt (\<lambda>pubkSize. bindR (readBytes pubkSize) (\<lambda>pubkey. returnR (blockHash, sign, pubkey))))))"
  obtain sz c1 where 1: "readVarInt m e c = Inr (sz, c1)"
    using r by (auto simp: readSignTransactionInfo_def result_simps)
  have c1: "in_buf m c1" "off m c < off m c1"
    using forwardD [OF forward_readVarInt m 1] by simp_all
  have "forward ?body 0"
    by (intro forward_intros)
  then have "?body m (c1 + sz) c1 = Inr (x, c2) \<Longrightarrow> in_buf m c2 \<and> off m c1 \<le> off m c2" for x c2
    using forwardD [OF _ m(1) c1(1)] by fastforce
  then have "in_buf m c' \<and> off m c1 \<le> off m c'"
    using r c1(1) by (cases "sz = 0") (auto simp: readSignTransactionInfo_def 1 Let_def result_simps)
  then show "\<exists>c1. in_buf m c1 \<and> off m c < off m c1 \<and> in_buf m c' \<and> off m c1 \<le> off m c'"
    using c1 by blast
qed

lemma rejected_tx_moves: "tx_moves (readRedjectedTransactionInfo t0)"
proof (rule tx_movesI)
  fix m e c i n c' t
  assume m: "mem_ok m" "in_buf m c" and r: "readRedjectedTransactionInfo t0 m e c = Inr ((i, n, c'), t)"
  let ?body = "bindR (readBytes 32) (\<lambda>hash. bindR readVarInt (\<lambda>err. returnR (hash, err)))"
  obtain sz c1 where 1: "readVarInt m e c = Inr (sz, c1)"
    using r by (auto simp: readRedjectedTransactionInfo_def result_simps)
  have c1: "in_buf m c1" "off m c < off m c1"
    using forwardD [OF forward_readVarInt m 1] by simp_all
  have "forward ?body 0"
    by (intro forward_intros)
  then have "?body m (c1 + sz) c1 = Inr (x, c2) \<Longrightarrow> in_buf m c2 \<and> off m c1 \<le> off m c2" for x c2
    using forwardD [OF _ m(1) c1(1)] by fastforce
  then have "in_buf m c' \<and> off m c1 \<le> off m c'"
    using r c1(1) by (cases "sz = 0") (auto simp: readRedjectedTransactionInfo_def 1 Let_def result_simps)
  then show "\<exists>c1. in_buf m c1 \<and> off m c < off m c1 \<and> in_buf m c' \<and> off m c1 \<le> off m c'"
    using c1 by blast
qed

lemma forward_readRawTx: "forward readRawTx 0"
proof -
  have "forward readRawHead 0"
    unfolding readRawHead_def by (intro forward_intros)
  moreover have "forward (readRawTail a b c d k) 0" for a b c d k
    unfolding readRawTail_def by (intro forward_intros)
  ultimately show ?thesis
    unfolding readRawTx_def by (intro forward_bind_left) (auto split: prod.splits)
qed

lemma simple_tx_moves: "tx_moves (readSimpleTransactionInfo l True saveAll helper validate t0)"
proof (rule tx_movesI)
  fix m e c i n c' t
  assume m: "mem_ok m" "in_buf m c"
    and r: "readSimpleTransactionInfo l True saveAll helper validate t0 m e c = Inr ((i, n, c'), t)"
  obtain sz c1 where 1: "readVarInt m e c = Inr (sz, c1)"
    using r by (auto simp: readSimpleTransactionInfo_def result_simps)
  have c1: "in_buf m c1" "off m c < off m c1"
    using forwardD [OF forward_readVarInt m 1] by simp_all
  have "readRawTx m (c1 + sz) c1 = Inr (x, c2) \<Longrightarrow> in_buf m c2 \<and> off m c1 \<le> off m c2" for x c2
    using forwardD [OF forward_readRawTx m(1) c1(1)] by fastforce
  then have "in_buf m c' \<and> off m c1 \<le> off m c'"
    using r c1(1) by (cases "sz = 0") (auto simp: readSimpleTransactionInfo_def 1 Let_def result_simps)
  then show "\<exists>c1. in_buf m c1 \<and> off m c < off m c1 \<and> in_buf m c' \<and> off m c1 \<le> off m c'"
    using c1 by blast
qed

lemma get_address_bin_returns: "get_address_bin cr k \<noteq> Inl Diverges"
  by (auto simp: get_address_bin_def get_address_comp_def bindE_Inl_iff Let_def split: option.splits)

lemma Address_of_vector_returns: "Address_of_vector a b \<noteq> Inl Diverges"
  by (simp add: Address_of_vector_def)

lemma get_double_sha256_returns: "get_double_sha256 cr d \<noteq> Inl Diverges"
  by (simp add: get_double_sha256_def bindE_Inl_iff)

lemma load_returns: "load m p n \<noteq> Inl Diverges"
  by (simp add: load_def Let_def)

lemma Address_eq_returns: "Address_eq a b \<noteq> Inl Diverges"
  by (simp add: Address_eq_def bindE_Inl_iff)

lemmas no_div = get_address_bin_returns Address_of_vector_returns get_double_sha256_returns load_returns
  Address_eq_returns

lemma sign_tx_returns: "readSignTransactionInfo cr t0 m e c \<noteq> Inl Diverges"
proof -
  have "returns (bindR (readBytes 32) (\<lambda>blockHash. bindR readVarInt (\<lambda>signSize. bindR (readBytes signSize) (\<lambda>sign.
      bindR readVarInt (\<lambda>pubkSize. bindR (readBytes pubkSize) (\<lambda>pubkey. returnR (blockHash, sign, pubkey)))))))"
    by (intro returns_intros)
  from returnsD [OF this] show ?thesis
    using returnsD [OF returns_readVarInt] no_div
    by (auto simp: readSignTransactionInfo_def bindE_Inl_iff Let_def split: if_splits)
qed

lemma rejected_tx_returns: "readRedjectedTransactionInfo t0 m e c \<noteq> Inl Diverges"
proof -
  have "returns (bindR (readBytes 32) (\<lambda>hash. bindR readVarInt (\<lambda>err. returnR (hash, err))))"
    by (intro returns_intros)
  from returnsD [OF this] show ?thesis
    using returnsD [OF returns_readVarInt]
    by (auto simp: readRedjectedTransactionInfo_def bindE_Inl_iff Let_def split: if_splits)
qed

lemma returns_readRawTx: "returns readRawTx"
proof -
  have "returns readRawHead"
    unfolding readRawHead_def by (intro returns_intros)
  moreover have "returns (readRawTail a b c d k)" for a b c d k
    unfolding readRawTail_def by (intro returns_intros)
  ultimately show ?thesis
    unfolding readRawTx_def by (intro returns_bind) (auto split: prod.splits)
qed

lemma finish_tx_returns: "finish_tx l saveAll helper validate t0 m a b c d r \<noteq> Inl Diverges"
  using no_div
  by (auto simp: finish_tx_def Let_def bindE_Inl_iff isScriptAddress_def isTokenAddress_def isSignBlockTx_def
      isInitialWallet_def tx_sender_def split: if_splits)

lemma simple_tx_returns:
  "readSimpleTransactionInfo l parse saveAll helper validate t0 m e c \<noteq> Inl Diverges"
  using finish_tx_returns [of l] returnsD [OF returns_readVarInt] returnsD [OF returns_readRawTx]
  by (auto simp: readSimpleTransactionInfo_def bindE_Inl_iff Let_def split: if_splits)

lemma tx_movesD:
  "tx_moves d \<Longrightarrow> mem_ok m \<Longrightarrow> in_buf m c \<Longrightarrow> d m e c = Inr ((i, n, c'), t) \<Longrightarrow>
   in_buf m c' \<and> length (mem_data m) - off m c' < length (mem_data m) - off m c"
  unfolding tx_moves_def in_buf_def by (meson diff_less_mono2 less_le_trans)

lemma sign_txs_returns:
  assumes "mem_ok m"
  shows "in_buf m c \<Longrightarrow> length (mem_data m) - off m c < fuel \<Longrightarrow> sign_txs fuel cr t0 m e c txs \<noteq> Inl Diverges"
proof (induction fuel arbitrary: c txs)
  case 0
  then show ?case by simp
next
  case (Suc fuel)
  have "in_buf m c' \<and> length (mem_data m) - off m c' < fuel"
    if "readSignTransactionInfo cr t0 m e c = Inr ((i, n, c'), t)" for i n c' t
    using tx_movesD [OF sign_tx_moves assms Suc.prems(1) that] Suc.prems(2) by linarith
  then show ?case
    using Suc.IH sign_tx_returns by (auto simp: bindE_Inl_iff Let_def split: if_splits)
qed

lemma rejected_txs_returns:
  assumes "mem_ok m"
  shows "in_buf m c \<Longrightarrow> length (mem_data m) - off m c < fuel \<Longrightarrow> rejected_txs fuel t0 m e c txs \<noteq> Inl Diverges"
proof (induction fuel arbitrary: c txs)
  case 0
  then show ?case by simp
next
  case (Suc fuel)
  have "in_buf m c' \<and> length (mem_data m) - off m c' < fuel"
    if "readRedjectedTransactionInfo t0 m e c = Inr ((i, n, c'), t)" for i n c' t
    using tx_movesD [OF rejected_tx_moves assms Suc.prems(1) that] Suc.prems(2) by linarith
  then show ?case
    using Suc.IH rejected_tx_returns by (auto simp: bindE_Inl_iff Let_def split: if_splits)
qed

lemma simple_txs_returns:
  assumes "mem_ok m"
  shows "in_buf m c \<Longrightarrow> length (mem_data m) - off m c < fuel \<Longrightarrow>
    simple_txs fuel l saveAll 0 countTx validate pos m e c i helper k txs \<noteq> Inl Diverges"
proof (induction fuel arbitrary: c i helper k txs)
  case 0
  then show ?case by simp
next
  case (Suc fuel)
  have "in_buf m c' \<and> length (mem_data m) - off m c' < fuel"
    if "readSimpleTransactionInfo l True saveAll helper validate t0 m e c = Inr ((j, n, c'), t)" for j n c' t t0
    using tx_movesD [OF simple_tx_moves assms Suc.prems(1) that] Suc.prems(2) by linarith
  then show ?case
    using Suc.IH simple_tx_returns [of l] by (auto simp: bindE_Inl_iff Let_def split: if_splits)
qed

text \<open>The headers take 80 and 48 bytes.\<close>

lemma in_buf_base: "in_buf m (mem_base m)"
  by (simp add: in_buf_def off_def)

lemma off_base_add:
  assumes "mem_ok m" and "unat n \<le> length (mem_data m)"
  shows "off m (mem_base m + n) = unat n"
  using off_add [of m "mem_base m" "unat n"] assms by (simp add: off_def)

lemma in_buf_end: "mem_ok m \<Longrightarrow> in_buf m (mem_end m) \<and> off m (mem_end m) = length (mem_data m)"
  using off_add [of m "mem_base m" "length (mem_data m)"] by (simp add: mem_end_def in_buf_def off_def)

lemma forward_simple_header: "forward (readSimpleBlockHeaderWithoutSize bi) 80"
proof -
  have "forward (readSimpleBlockHeaderWithoutSize bi)
      (unat (8 :: u64) + (unat (8 :: u64) + (unat (32 :: u64) + (unat (32 :: u64) + 0))))"
    unfolding readSimpleBlockHeaderWithoutSize_def
    by (intro forward_bind forward_readInt forward_readBytes forward_return)
  then show ?thesis
    by simp
qed

lemma forward_sign_header: "forward (readSignBlockHeaderWithoutSize bi) 48"
proof -
  have "forward (readSignBlockHeaderWithoutSize bi)
      (unat (8 :: u64) + (0 + (unat (8 :: u64) + (unat (32 :: u64) + 0))))"
    unfolding readSignBlockHeaderWithoutSize_def
    by (intro forward_bind forward_readInt forward_readBytes forward_return forward_check)
  then show ?thesis
    by simp
qed

lemma forward_rejected_header: "forward (readRejectedTxsBlockHeaderWithoutSize bi) 0"
  unfolding readRejectedTxsBlockHeaderWithoutSize_def by (intro forward_intros)

lemma header_length:
  assumes "forward d k" and "mem_ok m" and "d m e (mem_base m) = Inr (x, c)"
  shows "k \<le> length (mem_data m)"
  using forwardD [OF assms(1,2) in_buf_base assms(3)] by (simp add: in_buf_def)

lemma returns_headers:
  "returns (readSimpleBlockHeaderWithoutSize bi)" "returns (readSignBlockHeaderWithoutSize bs)"
  "returns (readRejectedTxsBlockHeaderWithoutSize br)"
  unfolding readSimpleBlockHeaderWithoutSize_def readSignBlockHeaderWithoutSize_def
    readRejectedTxsBlockHeaderWithoutSize_def
  by (intro returns_intros)+

lemma parseSignBlock_returns:
  assumes "mem_ok m"
  shows "parseSignBlock l pos m \<noteq> Inl Diverges"
proof
  assume d: "parseSignBlock l pos m = Inl Diverges"
  then obtain h c where h: "readSignBlockHeaderWithoutSize (SignBlockHeader_fresh (lib_uninit l)) m (mem_end m) (mem_base m) = Inr (h, c)"
      and t: "readSignBlockTxs (lib_crypto l) \<lparr>sb_header = h, sb_txs = []\<rparr> m = Inl Diverges"
    using returnsD [OF returns_headers(2)] by (auto simp: parseSignBlock_def bindE_Inl_iff)
  have "in_buf m (mem_base m + 48)"
    using off_base_add [OF assms, of 48] header_length [OF forward_sign_header assms h]
    by (simp add: in_buf_def)
  then show False
    using t sign_txs_returns [OF assms, of "mem_base m + 48" "Suc (length (mem_data m))"] no_div
    by (auto simp: readSignBlockTxs_def bindE_Inl_iff Let_def SIGN_BLOCK_HEADER_SIZE_def BLOCK_SIZE_SIZE_def)
qed

lemma parseSimpleBlock_returns:
  assumes "mem_ok m"
  shows "parseSimpleBlock l pos validate saveAll 0 countTx m \<noteq> Inl Diverges"
proof
  assume d: "parseSimpleBlock l pos validate saveAll 0 countTx m = Inl Diverges"
  then obtain h c where h: "readSimpleBlockHeaderWithoutSize BlockHeader_default m (mem_end m) (mem_base m) = Inr (h, c)"
      and t: "readSimpleBlockTxs l pos saveAll 0 countTx validate \<lparr>bi_header = h, bi_txs = []\<rparr> m = Inl Diverges"
    using returnsD [OF returns_headers(1)] by (auto simp: parseSimpleBlock_def bindE_Inl_iff)
  have "in_buf m (mem_base m + 80)"
    using off_base_add [OF assms, of 80] header_length [OF forward_simple_header assms h]
    by (simp add: in_buf_def)
  then show False
    using t simple_txs_returns [where l = l, OF assms, of "mem_base m + 80" "Suc (length (mem_data m))"] no_div
    by (auto simp: readSimpleBlockTxs_def bindE_Inl_iff Let_def SIMPLE_BLOCK_HEADER_SIZE_def BLOCK_SIZE_SIZE_def
        simp del: simple_txs.simps split: if_splits list.splits)
qed

lemma parseRejected_returns:
  assumes "mem_ok m"
  shows "parseRejectedTxsBlockInfo l pos m \<noteq> Inl Diverges"
proof
  assume d: "parseRejectedTxsBlockInfo l pos m = Inl Diverges"
  then obtain h c where h: "readRejectedTxsBlockHeaderWithoutSize (RejectedTxsBlockHeader_fresh (lib_uninit l)) m (mem_end m) (mem_base m) = Inr (h, c)"
      and t: "readRejectedTxs (lib_crypto l) (lib_uninit l) c \<lparr>rb_header = h, rb_txs = []\<rparr> m = Inl Diverges"
    using returnsD [OF returns_headers(3)] by (auto simp: parseRejectedTxsBlockInfo_def bindE_Inl_iff)
  have "in_buf m c"
    using forwardD [OF forward_rejected_header assms in_buf_base h] by simp
  then show False
    using t rejected_txs_returns [OF assms, of c "Suc (length (mem_data m))"] no_div
    by (auto simp: readRejectedTxs_def bindE_Inl_iff Let_def simp del: rejected_txs.simps)
qed

subsection \<open>Reading back what is written\<close>

lemma reads_readRawHead:
  assumes "length to = 25"
  shows "reads readRawHead (to @ varint v @ varint f @ varint n @ varint d) (to, v, f, n, d)"
proof -
  have to: "reads (readBytes 25) to to"
    using assms by (intro reads_readBytes) simp
  show ?thesis
    unfolding readRawHead_def by (rule to reads_readVarInt reads_map reads_bind)+
qed

lemma here_inside:
  assumes "here m c (bs @ rest)" and "in_buf m e" and "off m c + length bs \<le> off m e"
  shows "c + of_nat (length bs) \<le> e" and "in_buf m (c + of_nat (length bs))"
proof -
  have ok: "mem_ok m"
    using assms(1) by (simp add: here_def)
  show i: "in_buf m (c + of_nat (length bs))"
    using here_off [OF assms(1)] here_length [OF assms(1)] by (simp add: in_buf_def)
  show "c + of_nat (length bs) \<le> e"
    using unat_addr [OF ok i] unat_addr [OF ok assms(2)] here_off [OF assms(1)] assms(3)
    by (simp add: word_le_nat_alt)
qed

text \<open>The reference form of a signature transaction and of a signature block.\<close>

definition sign_tx_body :: "SignTransactionInfo \<Rightarrow> bytes" where
  "sign_tx_body t = st_blockHash t @ varint (size_of (st_sign t)) @ st_sign t @
     varint (size_of (st_pubkey t)) @ st_pubkey t"

definition sign_tx_bytes :: "SignTransactionInfo \<Rightarrow> bytes" where
  "sign_tx_bytes t = varint (size_of (sign_tx_body t)) @ sign_tx_body t"

definition sign_block_bytes :: "u64 \<Rightarrow> bytes \<Rightarrow> SignTransactionInfo list \<Rightarrow> bytes" where
  "sign_block_bytes timestamp prevHash txs =
     le_bytes 8 SIGN_BLOCK_TYPE @ le_bytes 8 timestamp @ prevHash @ concat (map sign_tx_bytes txs) @ [0]"

text \<open>A signature transaction that the node accepts: the address is the one of the key, and the
  signature is valid.\<close>

definition sign_tx_valid :: "crypto \<Rightarrow> SignTransactionInfo \<Rightarrow> bool" where
  "sign_tx_valid cr t \<longleftrightarrow> length (st_blockHash t) = 32 \<and> addr (st_address t) \<noteq> [] \<and>
     get_address_bin cr (st_pubkey t) = Inr (addr (st_address t)) \<and>
     st_address t = Address_of_range (addr (st_address t)) \<and>
     crypto_check_sign_data cr (st_sign t) (st_pubkey t) (st_blockHash t)"

lemma reads_sized:
  assumes "length bs < 2 ^ 64"
  shows "reads (bindR readVarInt readBytes) (varint (size_of bs) @ bs) bs"
  using assms by (intro reads_bind [OF reads_readVarInt] reads_readBytes) (simp add: unat_size_of)

lemma readSignTransactionInfo_bytes:
  assumes v: "sign_tx_valid cr t" and h: "here m c (sign_tx_bytes t @ rest)" and e: "in_buf m e"
    and le: "off m c + length (sign_tx_bytes t) \<le> off m e"
  shows "readSignTransactionInfo cr t0 m e c =
           Inr ((True, size_of (sign_tx_body t), c + of_nat (length (sign_tx_bytes t))), t)"
proof -
  let ?b = "sign_tx_body t" and ?n = "size_of (sign_tx_body t)"
  let ?c1 = "c + of_nat (length (varint ?n))"
  let ?d = "bindR (readBytes 32) (\<lambda>blockHash. bindR readVarInt (\<lambda>signSize. bindR (readBytes signSize) (\<lambda>sign.
      bindR readVarInt (\<lambda>pubkSize. bindR (readBytes pubkSize) (\<lambda>pubkey. returnR (blockHash, sign, pubkey))))))"
  have len: "length ?b < 2 ^ 64" "length (st_sign t) < 2 ^ 64" "length (st_pubkey t) < 2 ^ 64"
    using here_length [OF h] h by (auto simp: sign_tx_bytes_def sign_tx_body_def here_def mem_ok_def)
  have n: "(of_nat (length ?b) :: u64) = ?n"
    by (simp add: size_of_def)
  have h0: "here m c (varint ?n @ (?b @ rest))"
    using h by (simp add: sign_tx_bytes_def)
  have r1: "readVarInt m e c = Inr (?n, ?c1)"
    using readsD [OF reads_readVarInt h0 e] le by (simp add: sign_tx_bytes_def)
  have h1: "here m ?c1 (?b @ rest)" and o1: "off m ?c1 = off m c + length (varint ?n)"
    using here_step [OF h0] here_off [OF h0] by simp_all
  have "off m ?c1 + length ?b \<le> off m e"
    using o1 le by (simp add: sign_tx_bytes_def)
  note e1 = here_inside [OF h1 e this]
  have "reads (readBytes 32) (st_blockHash t) (st_blockHash t)"
    "reads (readBytes (size_of (st_sign t))) (st_sign t) (st_sign t)"
    "reads (readBytes (size_of (st_pubkey t))) (st_pubkey t) (st_pubkey t)"
    using v len by (auto intro!: reads_readBytes simp: sign_tx_valid_def unat_size_of)
  note rb = this
  have "reads ?d ?b (st_blockHash t, st_sign t, st_pubkey t)"
    unfolding sign_tx_body_def by (rule rb reads_readVarInt reads_map reads_bind)+
  then have r2: "?d m (?c1 + ?n) ?c1 = Inr ((st_blockHash t, st_sign t, st_pubkey t), ?c1 + ?n)"
    using readsD [OF _ h1, of ?d] e1(2) here_off [OF h1] by (simp add: n)
  have "?n \<noteq> 0"
    using v len(1) unat_size_of [OF len(1)] by (auto simp: sign_tx_valid_def sign_tx_body_def)
  moreover have "Address_of_vector (addr (st_address t)) False = Inr (st_address t)"
    using v by (metis Address_of_range_def Address_of_vector_def sign_tx_valid_def)
  ultimately show ?thesis
    using v r1 r2 e1(1)
    by (simp add: readSignTransactionInfo_def Let_def sign_tx_valid_def n sign_tx_bytes_def add.assoc)
qed

lemma sign_txs_bytes:
  assumes "\<forall>t \<in> set txs. sign_tx_valid cr t" and e: "e = mem_end m"
  shows "here m c (concat (map sign_tx_bytes txs) @ [0]) \<Longrightarrow> length txs < fuel \<Longrightarrow>
    sign_txs fuel cr t0 m e c acc = Inr (acc @ txs)"
  using assms(1)
proof (induction txs arbitrary: c fuel acc)
  case Nil
  then obtain n where n: "fuel = Suc n"
    by (cases fuel) auto
  have h: "here m c (varint 0 @ [])"
    using Nil.prems(1) by (simp add: varint_def)
  have "readVarInt m e c = Inr (0, c + of_nat (length (varint 0)))"
    using readsD [OF reads_readVarInt h, of e] in_buf_end [of m] here_length [OF h] h e
    by (simp add: here_def)
  then show ?case
    by (simp add: n readSignTransactionInfo_def)
next
  case (Cons t txs)
  then obtain n where n: "fuel = Suc n" "length txs < n"
    by (cases fuel) auto
  have h: "here m c (sign_tx_bytes t @ (concat (map sign_tx_bytes txs) @ [0]))"
    using Cons.prems(1) by simp
  have ok: "mem_ok m"
    using h by (simp add: here_def)
  have r: "readSignTransactionInfo cr t0 m e c =
      Inr ((True, size_of (sign_tx_body t), c + of_nat (length (sign_tx_bytes t))), t)"
    using Cons.prems(3) in_buf_end [OF ok] here_length [OF h] e
    by (intro readSignTransactionInfo_bytes [OF _ h]) auto
  have "length (sign_tx_body t) < 2 ^ 64" "sign_tx_body t \<noteq> []"
    using here_length [OF h] h Cons.prems(3)
    by (auto simp: sign_tx_bytes_def here_def mem_ok_def sign_tx_valid_def sign_tx_body_def)
  then have "0 < size_of (sign_tx_body t)"
    using unat_size_of [of "sign_tx_body t"] by (simp add: word_less_nat_alt)
  then show ?case
    using Cons.IH [OF here_step [OF h] n(2), of "acc @ [t]"] Cons.prems(3) by (simp add: n(1) r)
qed

lemma length_sign_txs: "length txs \<le> length (concat (map sign_tx_bytes txs))"
proof (induction txs)
  case Nil
  then show ?case by simp
next
  case (Cons t txs)
  have "1 \<le> length (varint (size_of (sign_tx_body t)))"
    by (simp add: varint_def)
  moreover have "length (concat (map sign_tx_bytes (t # txs))) =
      length (varint (size_of (sign_tx_body t))) + length (sign_tx_body t) + length (concat (map sign_tx_bytes txs))"
    by (simp add: sign_tx_bytes_def)
  ultimately show ?case
    using Cons.IH unfolding length_Cons by linarith
qed

subsection \<open>Properties\<close>


definition sample_lib :: "unit lib" where
  "sample_lib = \<lparr>lib_crypto = sample_crypto, lib_fromHex = (\<lambda>s. Inr (hex2bin s)), lib_moduleV8 = False,
     lib_uninit = 0, lib_Parse = (\<lambda>_. None), lib_memberString = (\<lambda>_ _. None), lib_memberObject = (\<lambda>_ _. None),
     lib_getOptObject = (\<lambda>_. None), lib_getString = (\<lambda>_ _. Inl (Check ''no field'')),
     lib_getObject = (\<lambda>_ _. Inl (Check ''no field''))\<rparr>"


text \<open>
  The readers of the headers of transaction and signature blocks stay inside the buffer, whatever
  bytes they meet and wherever the end pointer stands in it: they return or raise.
\<close>

theorem header_readers_stay_inside:
  assumes "mem_ok m" and "in_buf m e" and "in_buf m c"
  shows "readSimpleBlockHeaderWithoutSize bi m e c \<noteq> Inl Undefined \<and>
         readSignBlockHeaderWithoutSize bs m e c \<noteq> Inl Undefined \<and>
         readVarInt m e c \<noteq> Inl Undefined"
proof -
  have "safe (readSimpleBlockHeaderWithoutSize bi)"
    unfolding readSimpleBlockHeaderWithoutSize_def
    by (intro safe_bind [OF _ forward_readInt] safe_bind [OF _ forward_readBytes] safe_readInt safe_readBytes
        safe_return) simp_all
  moreover have "safe (readSignBlockHeaderWithoutSize bs)"
    unfolding readSignBlockHeaderWithoutSize_def
    by (intro safe_bind [OF _ forward_readInt] safe_bind [OF _ forward_readBytes] safe_bind [OF _ forward_check]
        safe_readInt safe_readBytes safe_check safe_return) simp_all
  ultimately show ?thesis
    using assms safe_readVarInt by (simp add: safe_def)
qed

theorem header_readers_stay_inside_witness:
  "readSignBlockHeaderWithoutSize (SignBlockHeader_fresh 0) \<lparr>mem_base = 4096, mem_data = [1, 2, 3]\<rparr> 4099 4096 \<noteq> Inl Undefined"
  using header_readers_stay_inside [of "\<lparr>mem_base = 4096, mem_data = [1, 2, 3]\<rparr>" 4099 4096]
  by (simp add: mem_ok_def in_buf_def off_def)

text \<open>
  A defect of \<open>readSimpleTransactionInfo\<close>: the size of the data field is not checked. A transaction
  whose data size is larger than what is left of the buffer makes the parser read beyond it,
  instead of raising \<open>Out of the array\<close>.
\<close>

theorem oversized_data_leaves_buffer:
  assumes "here m c (varint tx_size @ to @ varint value @ varint fees @ varint nonce @ varint dataSize @ rest)"
    and "length to = 25" and "in_buf m e" and "tx_size \<noteq> 0"
    and "off m c + length (varint tx_size) + unat tx_size \<le> off m e"
    and "length to + length (varint value @ varint fees @ varint nonce @ varint dataSize) \<le> unat tx_size"
    and "length rest < unat dataSize"
  shows "readSimpleTransactionInfo l True saveAll helper validate t0 m e c = Inl Undefined"
proof -
  let ?c1 = "c + of_nat (length (varint tx_size))"
  let ?head = "to @ varint value @ varint fees @ varint nonce @ varint dataSize"
  let ?e1 = "?c1 + tx_size" and ?c2 = "?c1 + of_nat (length ?head)"
  have ok: "mem_ok m"
    using assms(1) by (simp add: here_def)
  have h0: "here m c (varint tx_size @ (?head @ rest))"
    using assms(1) by simp
  have v: "readVarInt m e c = Inr (tx_size, ?c1)"
    using readsD [OF reads_readVarInt h0 assms(3)] assms(5) by simp
  have h1: "here m ?c1 (?head @ rest)" and o1: "off m ?c1 = off m c + length (varint tx_size)"
    using here_step [OF h0] here_off [OF h0] by simp_all
  have e1: "in_buf m ?e1" "off m ?e1 = off m ?c1 + unat tx_size"
    using off_add [OF ok, of ?c1 "unat tx_size"] assms(3,5) o1 by (simp_all add: in_buf_def)
  have le: "?e1 \<le> e"
    using unat_addr [OF ok e1(1)] unat_addr [OF ok assms(3)] e1(2) o1 assms(5) by (simp add: word_le_nat_alt)
  have "reads readRawHead (to @ varint value @ varint fees @ varint nonce @ varint dataSize)
      (to, value, fees, nonce, dataSize)"
    by (rule reads_readRawHead [OF assms(2)])
  then have "readRawHead m ?e1 ?c1 = Inr ((to, value, fees, nonce, dataSize), ?c2)"
    using readsD [OF _ h1 e1(1)] e1(2) assms(6) by simp
  then have raw: "readRawTx m ?e1 ?c1 = readRawTail to value fees nonce dataSize m ?e1 ?c2"
    by (simp add: readRawTx_def bindR_def)
  have "here m ?c2 rest"
    using here_step [OF h1] .
  then have "load m ?c2 (unat dataSize) = Inl Undefined"
    using here_length [of m ?c2 rest] assms(7) by (simp add: load_def Let_def flip: off_def)
  then have "readRawTx m ?e1 ?c1 = Inl Undefined"
    by (simp add: raw readRawTail_def bindR_def takeBytes_def)
  then show ?thesis
    using v le assms(4) by (simp add: readSimpleTransactionInfo_def Let_def)
qed

definition sample_mem :: "bytes \<Rightarrow> Mem" where
  "sample_mem bs = \<lparr>mem_base = 4096, mem_data = bs\<rparr>"

lemma sample_mem_ok: "length bs < 1000 \<Longrightarrow> mem_ok (sample_mem bs)"
  by (simp add: sample_mem_def mem_ok_def)

lemma sample_here: "length bs < 1000 \<Longrightarrow> here (sample_mem bs) 4096 bs"
  using sample_mem_ok [of bs] by (simp add: here_def in_buf_def off_def) (simp add: sample_mem_def)

theorem oversized_data_leaves_buffer_witness:
  "readSimpleTransactionInfo sample_lib True False PrevTransactionSignHelper_default False TransactionInfo_default
     (sample_mem (varint 30 @ replicate 25 0 @ varint 1 @ varint 1 @ varint 1 @ varint 200 @ [9])) 4127 4096 =
   Inl Undefined"
proof -
  let ?m = "sample_mem (varint 30 @ replicate 25 0 @ varint 1 @ varint 1 @ varint 1 @ varint 200 @ [9])"
  have v: "varint 30 = [30]" "varint 1 = [1]" "varint 200 = [200]"
    by (simp_all add: varint_def)
  have "off ?m 4127 = 31" "off ?m 4096 = 0" "in_buf ?m 4127"
    by (simp_all add: sample_mem_def off_def in_buf_def v)
  moreover have "here ?m 4096 (varint 30 @ replicate 25 0 @ varint 1 @ varint 1 @ varint 1 @ varint 200 @ [9])"
    by (rule sample_here) (simp add: v)
  ultimately show ?thesis
    using oversized_data_leaves_buffer [of ?m 4096 30 "replicate 25 0" 1 1 1 200 "[9]" 4127] by (simp add: v)
qed

text \<open>
  C39: A signature block that is laid out as the format says is parsed back completely: the parser
  returns the timestamp, the hash of the parent and all the transactions in order, computes the
  hash of the block over the whole buffer, and records the size and the position in the file.
\<close>

theorem sign_block_parsed_back:
  assumes "mem_ok m" and "mem_data m = sign_block_bytes timestamp prevHash txs" and "length prevHash = 32"
    and "cr_isInitialized (lib_crypto l)" and "\<forall>t \<in> set txs. sign_tx_valid (lib_crypto l) t"
  shows "parseNextBlockInfo l posInFile isValidate isSaveAllTx beginTx countTx m =
    Inr (SignBlock \<lparr>sb_header = (SignBlockHeader_fresh (lib_uninit l))\<lparr>
        sh_timestamp := timestamp, sh_prevHash := prevHash,
        sh_hash := cr_SHA256 (lib_crypto l) (cr_SHA256 (lib_crypto l) (mem_data m)),
        sh_blockSize := of_nat (length (mem_data m)),
        sh_filePos := \<lparr>fp_pos = posInFile, fp_fileNameRelative = []\<rparr>\<rparr>, sb_txs = txs\<rparr>)"
proof -
  let ?cr = "lib_crypto l" and ?txs = "concat (map sign_tx_bytes txs) @ [0]"
  let ?hd = "le_bytes 8 SIGN_BLOCK_TYPE @ le_bytes 8 timestamp @ prevHash"
  let ?h0 = "SignBlockHeader_fresh (lib_uninit l)"
  have h: "here m (mem_base m) (?hd @ ?txs)"
    using assms(1,2) in_buf_base [of m] by (simp add: here_def sign_block_bytes_def off_def)
  have ends: "in_buf m (mem_end m)" "off m (mem_end m) = length (mem_data m)"
    using in_buf_end [OF assms(1)] by simp_all
  have hd: "length ?hd = 48"
    using assms(3) by simp
  have t64: "take_bit 64 v = (v :: u64)" for v
    by (rule take_bit_word_eq_self) simp
  have ints: "reads (readInt 8) (le_bytes 8 v) v" for v
    by (intro reads_readInt) (simp_all add: le_val_le_bytes t64)
  have pv: "reads (readBytes 32) prevHash prevHash"
    using assms(3) by (intro reads_readBytes) simp
  have ty: "reads (checkR (SIGN_BLOCK_TYPE = SIGN_BLOCK_TYPE) ''Incorrect block type'') [] ()"
    by (rule reads_check) simp
  have "reads (readSignBlockHeaderWithoutSize ?h0) (le_bytes 8 SIGN_BLOCK_TYPE @ [] @ le_bytes 8 timestamp @ prevHash)
      (?h0\<lparr>sh_timestamp := timestamp, sh_prevHash := prevHash\<rparr>)"
    unfolding readSignBlockHeaderWithoutSize_def by (rule ints pv ty reads_map reads_bind)+
  then have r: "readSignBlockHeaderWithoutSize ?h0 m (mem_end m) (mem_base m) =
      Inr (?h0\<lparr>sh_timestamp := timestamp, sh_prevHash := prevHash\<rparr>, mem_base m + 48)"
    using readsD [OF _ h ends(1), of "readSignBlockHeaderWithoutSize ?h0"] ends(2) here_length [OF h] hd
    by (simp add: off_def)
  have "length txs < Suc (length (mem_data m))"
    using length_sign_txs [of txs] assms(2) by (simp add: sign_block_bytes_def)
  then have t: "sign_txs (Suc (length (mem_data m))) ?cr SignTransactionInfo_default m (mem_end m) (mem_base m + 48) [] = Inr txs"
    using sign_txs_bytes [OF assms(5) refl, of m "mem_base m + 48"] here_step [OF h] hd by (simp del: sign_txs.simps)
  have size: "unat (mem_end m - mem_base m) = length (mem_data m)" "mem_end m - mem_base m = of_nat (length (mem_data m))"
    using ends(2) by (simp_all add: off_def mem_end_def)
  have whole: "load m (mem_base m) (length (mem_data m)) = Inr (mem_data m)"
    by (simp add: load_def)
  have "load m (mem_base m) 8 = Inr (le_bytes 8 SIGN_BLOCK_TYPE)"
    using assms(2) by (simp add: load_def sign_block_bytes_def Let_def)
  moreover have "le_val (le_bytes 8 SIGN_BLOCK_TYPE) = SIGN_BLOCK_TYPE"
    by (simp add: le_val_le_bytes t64)
  ultimately show ?thesis
    using r t assms(4) size(1) whole
    by (simp add: parseNextBlockInfo_def parseSignBlock_def readSignBlockTxs_def Let_def get_double_sha256_def
        SIGN_BLOCK_HEADER_SIZE_def BLOCK_SIZE_SIZE_def SignBlockHeader_fresh_def size(2) del: sign_txs.simps)
qed

definition sample_sign_tx :: SignTransactionInfo where
  "sample_sign_tx = \<lparr>st_blockHash = replicate 32 5, st_sign = [1, 2, 3], st_pubkey = replicate 65 4,
     st_address = Address_of_range (0 # replicate 20 7 @ replicate 4 32)\<rparr>"

theorem sign_block_parsed_back_witness:
  "\<exists>h. parseNextBlockInfo sample_lib 0 True True 0 0
     (sample_mem (sign_block_bytes 9 (replicate 32 1) [sample_sign_tx])) =
   Inr (SignBlock \<lparr>sb_header = h, sb_txs = [sample_sign_tx]\<rparr>)"
proof -
  have "sign_tx_valid (lib_crypto sample_lib) sample_sign_tx"
    by (simp add: sign_tx_valid_def sample_sign_tx_def sample_lib_def sample_crypto_def get_address_bin_def
        get_address_comp_def Let_def Address_of_range_def crypto_check_sign_data_def
        check_sign_def CheckBufferSignature_def)
  moreover have "mem_ok (sample_mem (sign_block_bytes 9 (replicate 32 1) [sample_sign_tx]))"
    by (rule sample_mem_ok)
      (simp add: sign_block_bytes_def sign_tx_bytes_def sign_tx_body_def sample_sign_tx_def varint_def size_of_def)
  ultimately show ?thesis
    using sign_block_parsed_back [of "sample_mem (sign_block_bytes 9 (replicate 32 1) [sample_sign_tx])" 9
        "replicate 32 1" "[sample_sign_tx]" sample_lib]
    by (simp add: sample_lib_def sample_crypto_def) (simp add: sample_mem_def)
qed

lemma readNextBlockDump_saved:
  assumes "data \<noteq> []" and "saveBlockToFileBinary file data = (file', pos)" and "length (file' @ later) < 2 ^ 63"
  shows "readNextBlockDump (file' @ later) pos dump = Inr (size_of file', data)"
proof -
  let ?f = "file @ le_bytes 8 (size_of data) @ data @ later"
  have f: "file' @ later = ?f" and file': "file' = file @ le_bytes 8 (size_of data) @ data" and pos: "pos = size_of file"
    using assms(2) by (auto simp: saveBlockToFileBinary_def)
  have len: "length file + 8 + length data + length later < 2 ^ 63"
    using assms(3) by (simp add: f)
  have u: "unat (size_of data) = length data" "unat (size_of file) = length file"
      "unat (size_of ?f) = length file + 8 + length data + length later"
    using len by (simp_all add: unat_size_of)
  have t64: "take_bit 64 v = (v :: u64)" for v
    by (rule take_bit_word_eq_self) simp
  have head: "fread ?f (size_of file) 8 = le_bytes 8 (size_of data)"
    by (simp add: fread_def u)
  have sum: "unat (size_of file + 8) = length file + 8"
      "unat (size_of data + 8 + size_of file) = length data + 8 + length file"
    using len unat_add_u64 [of "size_of file" 8] unat_add_u64 [of "size_of file" "8 + length data"] u
    by (simp_all add: size_of_def algebra_simps)
  have body: "fread ?f (size_of file + 8) (size_of data) = data"
    by (simp add: fread_def u sum)
  have ne: "size_of data \<noteq> 0"
    using u(1) assms(1) by auto
  have le: "\<not> size_of ?f < size_of file + 8" "\<not> size_of ?f < size_of data + 8 + size_of file"
    using len by (simp_all add: word_less_nat_alt sum u)
  have pos0: "\<not> size_of data \<le> 0" "0 < size_of data"
    using ne by (simp_all add: word_gt_0)
  have "(of_nat (length data + 1) :: u64) \<noteq> 0"
    using len unat_of_nat_u64 [of "length data + 1"] by auto
  then have "size_of data \<noteq> max_u64"
    by (simp add: size_of_def eq_neg_iff_add_eq_0 add.commute)
  then have to: "size_of data < max_u64"
    by (simp add: word_order.not_eq_extremum)
  have "size_of file' = size_of file + size_of data + 8"
    by (simp add: file' size_of_def algebra_simps)
  moreover have "getBlockDump ?f (size_of file) 0 max_u64 = Inr (size_of data, data)"
    unfolding getBlockDump_def Let_def BLOCK_SIZE_SIZE_def head le_val_le_bytes
    using len le pos0(1) by (simp add: t64 to seek_def buffer_size_def u sum body)
  ultimately show ?thesis
    using ne unfolding f pos by (simp add: readNextBlockDump_def BLOCK_SIZE_SIZE_def)
qed

text \<open>
  A block written to a file is read back: after \<open>saveBlockToFileBinary\<close> the position it returns
  gives, with \<open>readNextBlockDump\<close>, exactly the bytes of the block and the position behind it, and
  it still does when more is appended to the file.
\<close>

theorem saved_block_read_back:
  assumes "data \<noteq> []" and "saveBlockToFileBinary file data = (file', pos)" and "length (file' @ later) < 2 ^ 63"
  shows "readNextBlockDump (file' @ later) pos dump = Inr (size_of file', data)"
  by (rule readNextBlockDump_saved [OF assms])

theorem saved_block_read_back_witness:
  "readNextBlockDump (fst (saveBlockToFileBinary [1, 2] [7, 8, 9]) @ [4]) 2 [] = Inr (13, [7, 8, 9])"
  using saved_block_read_back [of "[7, 8, 9]" "[1, 2]" "fst (saveBlockToFileBinary [1, 2] [7, 8, 9])" 2 "[4]" "[]"]
  by (simp add: saveBlockToFileBinary_def size_of_def)

text \<open>
  A defect of the bounds checks: the sum \<open>cur_pos + signSize\<close> wraps around for a huge size, the
  check passes, and the parser reads outside of the buffer. A signature transaction with such a
  signature size is not refused.
\<close>

theorem wrapping_size_passes_check:
  assumes "here m c (varint tx_size @ hash @ varint signSize @ rest)" and "length hash = 32" and "in_buf m e"
    and "off m c + length (varint tx_size) + unat tx_size \<le> off m e"
    and "length (hash @ varint signSize) \<le> unat tx_size"
    and "2 ^ 64 \<le> unat (c + of_nat (length (varint tx_size @ hash @ varint signSize))) + unat signSize"
  shows "readSignTransactionInfo cr t0 m e c = Inl Undefined"
proof -
  let ?c1 = "c + of_nat (length (varint tx_size))"
  let ?c2 = "?c1 + of_nat (length (hash @ varint signSize))" and ?e1 = "?c1 + tx_size"
  have ok: "mem_ok m"
    using assms(1) by (simp add: here_def)
  have h0: "here m c (varint tx_size @ ((hash @ varint signSize) @ rest))"
    using assms(1) by simp
  have v: "readVarInt m e c = Inr (tx_size, ?c1)"
    using readsD [OF reads_readVarInt h0 assms(3)] assms(4) by simp
  have h1: "here m ?c1 ((hash @ varint signSize) @ rest)" and o1: "off m ?c1 = off m c + length (varint tx_size)"
    using here_step [OF h0] here_off [OF h0] by simp_all
  have e1: "in_buf m ?e1" "off m ?e1 = off m ?c1 + unat tx_size"
    using off_add [OF ok, of ?c1 "unat tx_size"] assms(3,4) o1 by (simp_all add: in_buf_def)
  have le: "?e1 \<le> e"
    using unat_addr [OF ok e1(1)] unat_addr [OF ok assms(3)] e1(2) o1 assms(4) by (simp add: word_le_nat_alt)
  have rh: "reads (readBytes 32) hash hash"
    using assms(2) by (intro reads_readBytes) simp
  have "reads (bindR (readBytes 32) (\<lambda>h. bindR readVarInt (\<lambda>n. returnR (h, n)))) (hash @ varint signSize) (hash, signSize)"
    by (rule rh reads_readVarInt reads_map reads_bind)+
  then have r: "bindR (readBytes 32) (\<lambda>h. bindR readVarInt (\<lambda>n. returnR (h, n))) m ?e1 ?c1 = Inr ((hash, signSize), ?c2)"
    using readsD [OF _ h1 e1(1)] e1(2) assms(5) by simp
  then obtain x where x: "readBytes 32 m ?e1 ?c1 = Inr (hash, x)" "readVarInt m ?e1 x = Inr (signSize, ?c2)"
    by (auto simp: bindR_def returnR_def result_simps)
  have c2: "in_buf m ?c2" "off m ?c2 \<le> off m ?e1"
    using here_inside(2) [OF h1 e1(1)] here_off [OF h1] e1(2) assms(5) by simp_all
  have c2u: "unat ?c2 + unat signSize < 2 * 2 ^ 64" "2 ^ 64 \<le> unat ?c2 + unat signSize"
    using assms(6) unat_u64_less [of ?c2] unat_u64_less [of signSize] by (simp_all add: add.assoc)
  moreover have wrap: "x mod N = x - N" if "N \<le> x" "x < 2 * N" for x N :: nat
    using that by (simp add: le_mod_geq)
  moreover have "unat (?c2 + signSize) = (unat ?c2 + unat signSize) mod 2 ^ 64"
    by (simp add: unat_word_ariths)
  ultimately have "unat (?c2 + signSize) = unat ?c2 + unat signSize - 2 ^ 64"
    by metis
  then have "unat (?c2 + signSize) \<le> unat ?c2"
    using unat_u64_less [of signSize] by linarith
  then have pass: "?c2 + signSize \<le> ?e1"
    using unat_addr [OF ok c2(1)] unat_addr [OF ok e1(1)] c2(2) by (simp add: word_le_nat_alt)
  have "length (mem_data m) < off m ?c2 + unat signSize"
    using c2u(2) unat_addr [OF ok c2(1)] ok unfolding mem_ok_def by linarith
  then have "readBytes signSize m ?e1 ?c2 = Inl Undefined"
    using pass by (simp add: readBytes_def takeBytes_def load_def Let_def flip: off_def)
  moreover have "tx_size \<noteq> 0"
    using assms(2,5) by auto
  ultimately show ?thesis
    using v le x by (simp add: readSignTransactionInfo_def bindR_def Let_def)
qed

lemma length_varint_huge: "length (varint (- 1)) = 9" "length (varint (- 9)) = 9"
  by (simp_all add: varint_def word_le_nat_alt word_less_nat_alt unsigned_minus_1_eq_mask mask_eq_exp_minus_1)

theorem wrapping_size_passes_check_witness:
  "readSignTransactionInfo sample_crypto SignTransactionInfo_default
     (sample_mem (varint 50 @ replicate 32 5 @ varint (- 1) @ replicate 9 0)) 4147 4096 = Inl Undefined"
proof -
  let ?bs = "varint 50 @ replicate 32 5 @ varint (- 1) @ replicate 9 0"
  have v: "varint 50 = [50]"
    by (simp add: varint_def)
  have len: "length ?bs = 51"
    by (simp add: v length_varint_huge)
  have "off (sample_mem ?bs) 4147 = 51" "off (sample_mem ?bs) 4096 = 0"
    by (simp_all add: sample_mem_def off_def)
  moreover have "in_buf (sample_mem ?bs) 4147"
    unfolding in_buf_def calculation using len by (simp add: sample_mem_def)
  moreover have "here (sample_mem ?bs) 4096 ?bs"
    by (rule sample_here) (simp only: len)
  moreover have "2 ^ 64 \<le> unat ((4096 :: u64) + of_nat (length (varint 50 @ replicate 32 5 @ varint (- 1)))) + unat (- 1 :: u64)"
    by (simp add: v length_varint_huge unsigned_minus_1_eq_mask mask_eq_exp_minus_1)
  ultimately show ?thesis
    using wrapping_size_passes_check [of "sample_mem ?bs" 4096 50 "replicate 32 5" "- 1" "replicate 9 0" 4147]
    by (simp add: v length_varint_huge)
qed

text \<open>
  A defect of the loop over transactions that are skipped (\<open>beginTx > 0\<close>): a transaction that
  announces the size \<open>2^64 - 9\<close> ends, by wrap-around, where it starts. The loop over the block then
  stays at this position for as long as transactions are skipped.
\<close>

theorem skipped_transaction_stands_still:
  assumes "here m c (varint (- 9) @ rest)" and "in_buf m e" and "off m c + 9 \<le> off m e"
  shows "readSimpleTransactionInfo l False saveAll helper validate t0 m e c = Inr ((False, - 9, c), t0)"
proof -
  note len = length_varint_huge(2)
  have ok: "mem_ok m" "in_buf m c"
    using assms(1) by (simp_all add: here_def)
  have "readVarInt m e c = Inr (- 9, c + 9)"
    using readsD [OF reads_readVarInt assms(1,2)] assms(3) len by simp
  moreover have "c \<le> e"
    using unat_addr [OF ok] unat_addr [OF ok(1) assms(2)] assms(3) by (simp add: word_le_nat_alt)
  ultimately show ?thesis
    by (simp add: readSimpleTransactionInfo_def Let_def)
qed

theorem skipped_transaction_stands_still_witness:
  "readSimpleTransactionInfo sample_lib False False PrevTransactionSignHelper_default False TransactionInfo_default
     (sample_mem (varint (- 9) @ [0])) 4106 4096 = Inr ((False, - 9, 4096), TransactionInfo_default)"
proof -
  let ?bs = "varint (- 9) @ [0 :: byte]"
  have len: "length ?bs = 10"
    by (simp add: length_varint_huge)
  have "off (sample_mem ?bs) 4106 = 10" "off (sample_mem ?bs) 4096 = 0"
    by (simp_all add: sample_mem_def off_def)
  moreover have "in_buf (sample_mem ?bs) 4106"
    unfolding in_buf_def calculation using len by (simp add: sample_mem_def)
  moreover have "here (sample_mem ?bs) 4096 ?bs"
    by (rule sample_here) (simp only: len)
  ultimately show ?thesis
    using skipped_transaction_stands_still [of "sample_mem ?bs" 4096 "[0]" 4106] by simp
qed

end
