(* ===== verification/OrderedMap.thy ===== *)
theory OrderedMap
  imports Prelude "HOL-Library.List_Lexorder"
begin

section \<open>Ordered containers\<close>

text \<open>
  \<open>std::map\<close> and \<open>std::set\<close> with string keys iterate in the lexicographic order of unsigned
  bytes, which is also the order of a database iterator. A map is an association list with
  strictly increasing keys, a set a strictly increasing list (kept by \<^const>\<open>List.insort_insert\<close>).
  The order on byte strings is the one of \<^verbatim>\<open>List_Lexorder\<close>.
\<close>

fun map_put :: "'k::linorder \<Rightarrow> 'v \<Rightarrow> ('k \<times> 'v) list \<Rightarrow> ('k \<times> 'v) list" where
  "map_put k v [] = [(k, v)]"
| "map_put k v ((k', v') # m) =
     (if k < k' then (k, v) # (k', v') # m
      else if k = k' then (k, v) # m
      else (k', v') # map_put k v m)"

definition map_emplace :: "'k::linorder \<Rightarrow> 'v \<Rightarrow> ('k \<times> 'v) list \<Rightarrow> ('k \<times> 'v) list" where
  "map_emplace k v m = (case map_of m k of None \<Rightarrow> map_put k v m | Some _ \<Rightarrow> m)"

definition map_erase :: "'k::linorder \<Rightarrow> ('k \<times> 'v) list \<Rightarrow> ('k \<times> 'v) list" where
  "map_erase k m = filter (\<lambda>(k', v). k' \<noteq> k) m"

definition ordered :: "('k::linorder \<times> 'v) list \<Rightarrow> bool" where
  "ordered m = sorted_wrt (<) (map fst m)"

lemma ordered_Nil [simp]: "ordered []"
  by (simp add: ordered_def)

lemma ordered_Cons: "ordered ((k, v) # m) \<longleftrightarrow> (\<forall>k' \<in> fst ` set m. k < k') \<and> ordered m"
  by (simp add: ordered_def)

lemma map_of_put: "ordered m \<Longrightarrow> map_of (map_put k v m) = (map_of m)(k \<mapsto> v)"
proof (induction k v m rule: map_put.induct)
  case (2 k v k' v' m)
  then show ?case
    by (auto simp: ordered_Cons fun_eq_iff)
qed simp

lemma keys_map_put: "fst ` set (map_put k v m) = insert k (fst ` set m)"
  by (induction k v m rule: map_put.induct) auto

lemma ordered_put: "ordered m \<Longrightarrow> ordered (map_put k v m)"
proof (induction k v m rule: map_put.induct)
  case (2 k v k' v' m)
  then show ?case
    by (auto simp: ordered_Cons keys_map_put)
qed (simp add: ordered_def)

lemma map_of_erase: "map_of (map_erase k m) = (map_of m)(k := None)"
  by (induction m) (auto simp: map_erase_def fun_eq_iff)

lemma ordered_erase: "ordered m \<Longrightarrow> ordered (map_erase k m)"
  by (auto simp: ordered_def map_erase_def sorted_wrt_map intro: sorted_wrt_filter)

lemma ordered_distinct: "ordered m \<Longrightarrow> distinct (map fst m)"
  by (simp add: ordered_def strict_sorted_iff)

lemma ordered_emplace: "ordered m \<Longrightarrow> ordered (map_emplace k v m)"
  by (simp add: map_emplace_def ordered_put split: option.splits)

lemma map_of_map_emplace:
  "ordered m \<Longrightarrow> map_of (map_emplace k v m) = (case map_of m k of None \<Rightarrow> (map_of m)(k \<mapsto> v) | Some _ \<Rightarrow> map_of m)"
  by (simp add: map_emplace_def map_of_put split: option.splits)

lemma ordered_map_unique:
  assumes "ordered m" "ordered m'" "map_of m = map_of m'"
  shows "m = m'"
proof -
  have "map fst m = map fst m'"
  proof (rule sorted_distinct_set_unique)
    show "set (map fst m) = set (map fst m')"
      using arg_cong [OF assms(3), of dom] by (simp add: dom_map_of_conv_image_fst)
  qed (use assms in \<open>auto simp: ordered_def strict_sorted_iff\<close>)
  moreover have "map snd m = map snd m'"
  proof -
    have "map snd n = map (\<lambda>k. the (map_of n k)) (map fst n)" if "ordered n" for n :: "('a \<times> 'b) list"
      using ordered_distinct [OF that] by (auto intro!: map_cong)
    then show ?thesis
      using assms calculation by metis
  qed
  ultimately show ?thesis
    by (metis zip_map_fst_snd)
qed

lemma fold_put_map_of:
  "ordered m \<Longrightarrow> ordered (fold (\<lambda>(k, v). map_put k v) xs m) \<and>
     map_of (fold (\<lambda>(k, v). map_put k v) xs m) = fold (\<lambda>(k, v) f. f(k \<mapsto> v)) xs (map_of m)"
  by (induction xs arbitrary: m) (auto simp: ordered_put map_of_put)

lemma fold_upd_map_of:
  "distinct (map fst xs) \<Longrightarrow> fold (\<lambda>(k, v) f. f(k \<mapsto> v)) xs f = f ++ map_of xs"
proof (induction xs arbitrary: f)
  case (Cons x xs)
  obtain k v where x: "x = (k, v)" by force
  have "map_of xs k = None"
    using Cons.prems x by (simp add: map_of_None_fst)
  then show ?case
    using Cons x by (auto simp: fun_eq_iff map_add_def split: option.splits)
qed simp

lemma fold_put_ordered: "ordered xs \<Longrightarrow> fold (\<lambda>(k, v). map_put k v) xs [] = xs"
proof (rule ordered_map_unique)
  assume "ordered xs"
  then show "map_of (fold (\<lambda>(k, v). map_put k v) xs []) = map_of xs"
    by (simp add: fold_put_map_of fold_upd_map_of ordered_distinct)
qed (use fold_put_map_of [of "[]"] in auto)

lemma set_fold_insort: "set (fold List.insort_insert xs ys) = set xs \<union> set ys"
  by (induction xs arbitrary: ys) (auto simp: set_insort_insert)

lemma sorted_fold_insort:
  "sorted ys \<Longrightarrow> distinct ys \<Longrightarrow> sorted (fold List.insort_insert xs ys) \<and> distinct (fold List.insort_insert xs ys)"
  by (induction xs arbitrary: ys) (auto simp: sorted_insort_insert distinct_insort_insert)

lemma fold_insort_sorted:
  assumes "sorted xs" "distinct xs" shows "fold List.insort_insert xs [] = xs"
  by (rule sorted_distinct_set_unique)
     (use assms sorted_fold_insort [of "[]" xs] set_fold_insort [of xs "[]"] in auto)

subsection \<open>Keys with a common prefix\<close>

text \<open>The range from \<open>p @ [c]\<close> to \<open>p @ [c + 1]\<close> holds exactly the keys that begin with \<open>p @ [c]\<close>.\<close>

lemma list_le_append: "(p :: 'a::linorder list) \<le> p @ s"
  by (induction p) auto

lemma append_less_same [simp]: "(p @ xs < p @ ys) = ((xs :: 'a::linorder list) < ys)"
  by (induction p) auto

lemma append_le_same [simp]: "(p @ xs \<le> p @ ys) = ((xs :: 'a::linorder list) \<le> ys)"
  by (induction p) auto

lemma prefix_range:
  fixes c d :: "'a::linorder"
  assumes "\<And>x. c < x \<Longrightarrow> d \<le> x" and "c < d"
  shows "p @ [c] \<le> k \<and> k < p @ [d] \<longleftrightarrow> (\<exists>s. k = p @ c # s)"
proof (induction p arbitrary: k)
  case Nil
  show ?case
    using assms by (cases k) (auto simp: list_less_def less_le_not_le)
next
  case (Cons a p)
  show ?case
  proof (cases k)
    case (Cons b k')
    then show ?thesis
      using Cons.IH [of k'] by auto
  qed auto
qed

lemma byte_prefix_range:
  fixes c :: byte
  assumes "c \<noteq> - 1"
  shows "p @ [c] \<le> k \<and> k < p @ [c + 1] \<longleftrightarrow> (\<exists>s. k = p @ c # s)"
proof (rule prefix_range)
  show "c < c + 1"
    using assms inc_less_eq_self_iff_eq [of c] by (simp add: not_le [symmetric])
  show "c + 1 \<le> x" if "c < x" for x
    using that by (simp add: inc_le)
qed

end
