(* ===== verification/WorkerRecords.thy ===== *)
theory WorkerRecords
  imports StoredRecords OrderedMap
begin

section \<open>Records of the workers (Workers/MainBlockInfo, ScriptBlockInfo, NodeTestsBlockInfo)\<close>

text \<open>
  What each worker stores of its own progress and results: the last processed block of the three
  workers, the state, details and code of scripts, and the results of the tests of nodes. The
  types with \<open>std::map\<close> and \<open>std::set\<close> members use the ordered containers.
\<close>

subsection \<open>Progress of a worker\<close>

text \<open>\<open>MainBlockInfo\<close>, \<open>ScriptBlockInfo\<close> and \<open>NodeStatBlockInfo\<close> have the same members and the
  same layout, and differ in the message of the failed check.\<close>

record MainBlockInfo =
  mb_blockNumber :: u64
  mb_blockHash :: bytes
  mb_countVal :: u64

type_synonym ScriptBlockInfo = MainBlockInfo
type_synonym NodeStatBlockInfo = MainBlockInfo

definition MainBlockInfo_default :: MainBlockInfo where
  "MainBlockInfo_default = \<lparr>mb_blockNumber = 0, mb_blockHash = [], mb_countVal = 0\<rparr>"

definition MainBlockInfo_serialize :: "MainBlockInfo \<Rightarrow> bytes result" where
  "MainBlockInfo_serialize m =
     bindE (CHECK (mb_blockHash m \<noteq> []) ''Incorrect metadata'') (\<lambda>_.
     bindE (CHECK (mb_blockNumber m \<noteq> 0) ''MainBlockInfo not initialized'') (\<lambda>_.
     Inr (serializeVector (mb_blockHash m) @ serializeInt (mb_blockNumber m) @ serializeInt (mb_countVal m))))"

definition MainBlockInfo_parser :: "MainBlockInfo parser" where
  "MainBlockInfo_parser =
     bindP deserializeVector (\<lambda>hash.
     bindP deserializeInt (\<lambda>number.
     bindP deserializeInt (\<lambda>countVal.
     returnP \<lparr>mb_blockNumber = number, mb_blockHash = hash, mb_countVal = countVal\<rparr>)))"

definition MainBlockInfo_deserialize :: "bytes \<Rightarrow> MainBlockInfo result" where
  "MainBlockInfo_deserialize raw =
     (if raw = [] then Inr MainBlockInfo_default
      else bindE (MainBlockInfo_parser raw 0) (\<lambda>(result, from). Inr result))"

definition ScriptBlockInfo_serialize :: "ScriptBlockInfo \<Rightarrow> bytes result" where
  "ScriptBlockInfo_serialize m =
     bindE (CHECK (mb_blockHash m \<noteq> []) ''Incorrect metadata'') (\<lambda>_.
     bindE (CHECK (mb_blockNumber m \<noteq> 0) ''ScriptBlockInfo not initialized'') (\<lambda>_.
     Inr (serializeVector (mb_blockHash m) @ serializeInt (mb_blockNumber m) @ serializeInt (mb_countVal m))))"

definition ScriptBlockInfo_deserialize :: "bytes \<Rightarrow> ScriptBlockInfo result" where
  "ScriptBlockInfo_deserialize raw =
     (if raw = [] then Inr MainBlockInfo_default
      else bindE (MainBlockInfo_parser raw 0) (\<lambda>(result, from). Inr result))"

definition NodeStatBlockInfo_serialize :: "NodeStatBlockInfo \<Rightarrow> bytes result" where
  "NodeStatBlockInfo_serialize m =
     bindE (CHECK (mb_blockHash m \<noteq> []) ''Incorrect metadata'') (\<lambda>_.
     bindE (CHECK (mb_blockNumber m \<noteq> 0) ''NodeStatBlockInfo not initialized'') (\<lambda>_.
     Inr (serializeVector (mb_blockHash m) @ serializeInt (mb_blockNumber m) @ serializeInt (mb_countVal m))))"

definition NodeStatBlockInfo_deserialize :: "bytes \<Rightarrow> NodeStatBlockInfo result" where
  "NodeStatBlockInfo_deserialize raw =
     (if raw = [] then Inr MainBlockInfo_default
      else bindE (MainBlockInfo_parser raw 0) (\<lambda>(result, from). Inr result))"

subsection \<open>Scripts: V8State, V8Details, V8Code\<close>

datatype V8ErrorType = V8_OK | USER_ERROR | SERVER_ERROR | SCRIPT_ERROR

record V8State =
  vs_address :: Address
  vs_state :: bytes
  vs_blockNumber :: u64
  vs_details :: bytes
  vs_errorCode :: u64
  vs_errorType :: V8ErrorType
  vs_errorMessage :: bytes

definition V8State_make :: "u64 \<Rightarrow> V8State" where
  "V8State_make blockNumber = \<lparr>vs_address = Address_default, vs_state = [], vs_blockNumber = blockNumber,
     vs_details = [], vs_errorCode = 0, vs_errorType = V8_OK, vs_errorMessage = []\<rparr>"

definition V8State_serialize :: "V8State \<Rightarrow> bytes result" where
  "V8State_serialize s =
     bindE (CHECK (vs_blockNumber s \<noteq> 0) ''V8State not initialized'') (\<lambda>_.
     Inr (serializeString (vs_state s) @ serializeString (vs_details s) @ serializeInt (vs_blockNumber s)))"

definition V8State_parser :: "V8State parser" where
  "V8State_parser =
     bindP deserializeString (\<lambda>st.
     bindP deserializeString (\<lambda>details.
     bindP deserializeInt (\<lambda>number.
     returnP ((V8State_make 0)\<lparr>vs_state := st, vs_details := details, vs_blockNumber := number\<rparr>))))"

definition V8State_deserialize :: "bytes \<Rightarrow> V8State result" where
  "V8State_deserialize raw =
     (if raw = [] then Inr (V8State_make 0)
      else bindE (V8State_parser raw 0) (\<lambda>(result, from). Inr result))"

record V8Details =
  vd_details :: bytes
  vd_lastError :: bytes

definition V8Details_serialize :: "V8Details \<Rightarrow> bytes" where
  "V8Details_serialize s = serializeString (vd_details s) @ serializeString (vd_lastError s)"

definition V8Details_parser :: "V8Details parser" where
  "V8Details_parser =
     bindP deserializeString (\<lambda>details.
     bindP deserializeString (\<lambda>lastError.
     returnP \<lparr>vd_details = details, vd_lastError = lastError\<rparr>))"

definition V8Details_deserialize :: "bytes \<Rightarrow> V8Details result" where
  "V8Details_deserialize raw =
     (if raw = [] then Inr \<lparr>vd_details = [], vd_lastError = []\<rparr>
      else bindE (V8Details_parser raw 0) (\<lambda>(result, from). Inr result))"

record V8Code =
  vc_code :: bytes

definition V8Code_serialize :: "V8Code \<Rightarrow> bytes" where
  "V8Code_serialize s = serializeString (vc_code s)"

definition V8Code_deserialize :: "bytes \<Rightarrow> V8Code result" where
  "V8Code_deserialize raw =
     (if raw = [] then Inr \<lparr>vc_code = []\<rparr>
      else bindE (deserializeString raw 0) (\<lambda>(code, from). Inr \<lparr>vc_code = code\<rparr>))"

subsection \<open>Results of the tests of a node\<close>

record BestNodeElement =
  be_timestamp :: u64
  be_geo :: bytes
  be_rps :: u64
  be_txPos :: FilePosition
  be_empty :: bool

definition BestNodeElement_default :: BestNodeElement where
  "BestNodeElement_default = \<lparr>be_timestamp = 0, be_geo = [], be_rps = 0,
     be_txPos = \<lparr>fp_pos = 0, fp_fileNameRelative = []\<rparr>, be_empty = True\<rparr>"

definition BestNodeElement_make :: "u64 \<Rightarrow> bytes \<Rightarrow> u64 \<Rightarrow> FilePosition \<Rightarrow> BestNodeElement" where
  "BestNodeElement_make timestamp geo rps txPos =
     \<lparr>be_timestamp = timestamp, be_geo = geo, be_rps = rps, be_txPos = txPos, be_empty = False\<rparr>"

definition BestNodeElement_serialize :: "BestNodeElement \<Rightarrow> bytes \<Rightarrow> bytes result" where
  "BestNodeElement_serialize e buffer =
     FilePosition_serialize_buf (be_txPos e)
       (serializeInt_buf (be_rps e) (serializeString_buf (be_geo e) (serializeInt_buf (be_timestamp e) buffer)))"

definition BestNodeElement_deserialize :: "BestNodeElement parser" where
  "BestNodeElement_deserialize raw from =
     (if raw = [] then Inr (BestNodeElement_default, from)
      else bindP deserializeInt (\<lambda>timestamp.
           bindP deserializeString (\<lambda>geo.
           bindP deserializeInt (\<lambda>rps.
           bindP FilePosition_deserialize (\<lambda>txPos.
           returnP (BestNodeElement_make timestamp geo rps txPos))))) raw from)"

definition BestNodeElement_less :: "BestNodeElement \<Rightarrow> BestNodeElement \<Rightarrow> bool" where
  "BestNodeElement_less first second = (be_rps first < be_rps second)"

record NodeTestCount2 =
  nc_countAll :: u64
  nc_countFailure :: u64
  nc_day :: u64

definition countSuccess :: "NodeTestCount2 \<Rightarrow> u64" where
  "countSuccess c = nc_countAll c - nc_countFailure c"

record BestNodeTest =
  bt_tests :: "BestNodeElement list"
  bt_day :: u64
  bt_isMaxElement :: bool
  bt_deserialized :: bool

definition BestNodeTest_make :: "bool \<Rightarrow> BestNodeTest" where
  "BestNodeTest_make isMaxElement =
     \<lparr>bt_tests = [], bt_day = 0, bt_isMaxElement = isMaxElement, bt_deserialized = False\<rparr>"

text \<open>\<open>geos\<close> maps a place to the sum and the number of its successful tests; \<open>bestElement\<close> is the
  first place with the largest (or smallest) average, as \<open>std::max_element\<close> and
  \<open>std::min_element\<close> find it.\<close>

definition count_geo :: "BestNodeElement \<Rightarrow> (bytes \<times> u64 \<times> u64) list \<Rightarrow> (bytes \<times> u64 \<times> u64) list" where
  "count_geo res geos =
     (if be_rps res \<noteq> 0
      then let (s, n) = get_or (0, 0) geos (be_geo res) in map_put (be_geo res) (s + be_rps res, n + 1) geos
      else geos)"

definition average :: "bytes \<times> u64 \<times> u64 \<Rightarrow> u64" where
  "average p = fst (snd p) div snd (snd p)"

fun max_element :: "('a \<Rightarrow> 'a \<Rightarrow> bool) \<Rightarrow> 'a \<Rightarrow> 'a list \<Rightarrow> 'a" where
  "max_element cmp largest [] = largest"
| "max_element cmp largest (x # xs) = max_element cmp (if cmp largest x then x else largest) xs"

fun min_element :: "('a \<Rightarrow> 'a \<Rightarrow> bool) \<Rightarrow> 'a \<Rightarrow> 'a list \<Rightarrow> 'a" where
  "min_element cmp smallest [] = smallest"
| "min_element cmp smallest (x # xs) = min_element cmp (if cmp x smallest then x else smallest) xs"

definition best_geo :: "bool \<Rightarrow> (bytes \<times> u64 \<times> u64) list \<Rightarrow> bytes option" where
  "best_geo isMax geos =
     (case geos of [] \<Rightarrow> None
      | g # gs \<Rightarrow> Some (fst ((if isMax then max_element else min_element)
                              (\<lambda>first second. average first < average second) g gs)))"

definition getMax :: "BestNodeTest \<Rightarrow> u64 \<Rightarrow> BestNodeElement" where
  "getMax t currDay =
     (if currDay \<noteq> bt_day t then BestNodeElement_default
      else case best_geo (bt_isMaxElement t) (fold count_geo (bt_tests t) []) of
             None \<Rightarrow> BestNodeElement_default
           | Some geo \<Rightarrow>
               (case find (\<lambda>r. be_geo r = geo) (rev (bt_tests t)) of
                  None \<Rightarrow> BestNodeElement_default
                | Some r \<Rightarrow> r))"

definition countTests :: "BestNodeTest \<Rightarrow> u64 \<Rightarrow> NodeTestCount2" where
  "countTests t currDay =
     (let bestNode = getMax t currDay
      in fold (\<lambda>res result.
           if be_geo res \<noteq> be_geo bestNode then result
           else let result = result\<lparr>nc_countAll := nc_countAll result + 1\<rparr>
                in if be_rps res = 0 then result\<lparr>nc_countFailure := nc_countFailure result + 1\<rparr> else result)
         (bt_tests t) \<lparr>nc_countAll = 0, nc_countFailure = 0, nc_day = currDay\<rparr>)"

definition BestNodeTest_addElement :: "BestNodeTest \<Rightarrow> BestNodeElement \<Rightarrow> u64 \<Rightarrow> BestNodeTest" where
  "BestNodeTest_addElement t element currDay =
     (let t = (if bt_day t \<noteq> currDay then t\<lparr>bt_tests := [], bt_day := currDay\<rparr> else t)
      in t\<lparr>bt_tests := bt_tests t @ [element]\<rparr>)"

fun serialize_tests :: "BestNodeElement list \<Rightarrow> bytes \<Rightarrow> bytes result" where
  "serialize_tests [] buffer = Inr buffer"
| "serialize_tests (test # tests) buffer = bindE (BestNodeElement_serialize test buffer) (serialize_tests tests)"

definition BestNodeTest_serialize :: "BestNodeTest \<Rightarrow> bytes \<Rightarrow> bytes result" where
  "BestNodeTest_serialize t buffer =
     bindE (serialize_tests (bt_tests t) (serializeInt_buf (of_nat (length (bt_tests t)) :: u64) buffer)) (\<lambda>buffer.
     Inr (serializeInt_buf (if bt_isMaxElement t then 1 else 0 :: byte) (serializeInt_buf (bt_day t) buffer)))"

definition BestNodeTest_parser :: "BestNodeTest parser" where
  "BestNodeTest_parser =
     bindP deserializeInt (\<lambda>testsSize :: u64.
     bindP (repeatP (unat testsSize) (\<lambda>tests. bindP BestNodeElement_deserialize (\<lambda>e. returnP (tests @ [e]))) []) (\<lambda>tests.
     bindP deserializeInt (\<lambda>day.
     bindP deserializeInt (\<lambda>isMax :: byte.
     returnP \<lparr>bt_tests = tests, bt_day = day, bt_isMaxElement = (isMax = 1), bt_deserialized = True\<rparr>))))"

definition BestNodeTest_deserialize :: "bytes \<Rightarrow> BestNodeTest result" where
  "BestNodeTest_deserialize raw =
     (if raw = [] then Inr (BestNodeTest_make True)
      else bindE (BestNodeTest_parser raw 0) (\<lambda>(result, from). Inr result))"

subsection \<open>Trust, days, sets of nodes and request rates\<close>

text \<open>\<open>trust\<close> is an \<open>int\<close> that is stored as a \<open>size_t\<close>: it is sign-extended and truncated back.\<close>

record NodeTestTrust =
  nt_trustJson :: bytes
  nt_timestamp :: u64
  nt_trust :: u32

definition NodeTestTrust_default :: NodeTestTrust where
  "NodeTestTrust_default = \<lparr>nt_trustJson = [], nt_timestamp = 0, nt_trust = 1\<rparr>"

definition NodeTestTrust_serialize :: "NodeTestTrust \<Rightarrow> bytes" where
  "NodeTestTrust_serialize t =
     serializeString (nt_trustJson t) @ serializeInt (nt_timestamp t) @ serializeInt (scast (nt_trust t) :: u64)"

definition NodeTestTrust_parser :: "NodeTestTrust parser" where
  "NodeTestTrust_parser =
     bindP deserializeString (\<lambda>json.
     bindP deserializeInt (\<lambda>timestamp.
     bindP deserializeInt (\<lambda>trust :: u64.
     returnP \<lparr>nt_trustJson = json, nt_timestamp = timestamp, nt_trust = ucast trust\<rparr>)))"

definition NodeTestTrust_deserialize :: "bytes \<Rightarrow> NodeTestTrust result" where
  "NodeTestTrust_deserialize raw =
     (if raw = [] then Inr NodeTestTrust_default
      else bindE (NodeTestTrust_parser raw 0) (\<lambda>(result, from). Inr result))"

definition NodeTestDayNumber_serialize :: "u64 \<Rightarrow> bytes" where
  "NodeTestDayNumber_serialize dayNumber = serializeInt dayNumber"

definition NodeTestDayNumber_deserialize :: "bytes \<Rightarrow> u64 result" where
  "NodeTestDayNumber_deserialize raw =
     (if raw = [] then Inr 0 else bindE (deserializeInt raw 0) (\<lambda>(result, pos). Inr result))"

record AllTestedNodes =
  an_nodes :: "bytes list"
  an_day :: u64

definition AllTestedNodes_make :: "u64 \<Rightarrow> AllTestedNodes" where
  "AllTestedNodes_make day = \<lparr>an_nodes = [], an_day = day\<rparr>"

definition AllTestedNodes_serialize :: "AllTestedNodes \<Rightarrow> bytes \<Rightarrow> bytes" where
  "AllTestedNodes_serialize a buffer =
     fold serializeString_buf (an_nodes a)
       (serializeInt_buf (of_nat (length (an_nodes a)) :: u64) (serializeInt_buf (an_day a) buffer))"

definition AllTestedNodes_parser :: "AllTestedNodes parser" where
  "AllTestedNodes_parser =
     bindP deserializeInt (\<lambda>day.
     bindP deserializeInt (\<lambda>count :: u64.
     bindP (repeatP (unat count) (\<lambda>nodes. bindP deserializeString (\<lambda>node. returnP (List.insort_insert node nodes))) []) (\<lambda>nodes.
     returnP \<lparr>an_nodes = nodes, an_day = day\<rparr>)))"

definition AllTestedNodes_deserialize :: "bytes \<Rightarrow> AllTestedNodes result" where
  "AllTestedNodes_deserialize raw =
     (if raw = [] then Inr (AllTestedNodes_make 0)
      else bindE (AllTestedNodes_parser raw 0) (\<lambda>(result, pos). Inr result))"

definition AllTestedNodes_plus :: "AllTestedNodes \<Rightarrow> AllTestedNodes \<Rightarrow> AllTestedNodes" where
  "AllTestedNodes_plus a second = a\<lparr>an_nodes := fold List.insort_insert (an_nodes second) (an_nodes a)\<rparr>"

record AllNodesNode =
  nn_name :: bytes
  nn_type :: bytes

type_synonym AllNodes = "(bytes \<times> AllNodesNode) list"

definition serialize_node :: "bytes \<times> AllNodesNode \<Rightarrow> bytes \<Rightarrow> bytes" where
  "serialize_node p buffer =
     serializeString_buf (nn_type (snd p)) (serializeString_buf (nn_name (snd p)) (serializeString_buf (fst p) buffer))"

definition AllNodes_serialize :: "AllNodes \<Rightarrow> bytes \<Rightarrow> bytes" where
  "AllNodes_serialize nodes buffer =
     fold serialize_node nodes (serializeInt_buf (of_nat (length nodes) :: u64) buffer)"

definition AllNodes_parser :: "AllNodes parser" where
  "AllNodes_parser =
     bindP deserializeInt (\<lambda>count :: u64.
     repeatP (unat count) (\<lambda>nodes.
       bindP deserializeString (\<lambda>node.
       bindP deserializeString (\<lambda>name.
       bindP deserializeString (\<lambda>type.
       returnP (map_put node \<lparr>nn_name = name, nn_type = type\<rparr> nodes))))) [])"

definition AllNodes_deserialize :: "bytes \<Rightarrow> AllNodes result" where
  "AllNodes_deserialize raw =
     (if raw = [] then Inr [] else bindE (AllNodes_parser raw 0) (\<lambda>(result, pos). Inr result))"

definition AllNodes_plus :: "AllNodes \<Rightarrow> AllNodes \<Rightarrow> AllNodes" where
  "AllNodes_plus nodes second = fold (\<lambda>(key, value). map_emplace key value) second nodes"

definition NodeRps_serialize :: "u64 list \<Rightarrow> bytes \<Rightarrow> bytes" where
  "NodeRps_serialize rps buffer = fold serializeInt_buf rps (serializeInt_buf (of_nat (length rps) :: u64) buffer)"

definition NodeRps_parser :: "u64 list parser" where
  "NodeRps_parser =
     bindP deserializeInt (\<lambda>count :: u64.
     repeatP (unat count) (\<lambda>rps. bindP deserializeInt (\<lambda>rp. returnP (rps @ [rp]))) [])"

definition NodeRps_deserialize :: "bytes \<Rightarrow> u64 list result" where
  "NodeRps_deserialize raw =
     (if raw = [] then Inr [] else bindE (NodeRps_parser raw 0) (\<lambda>(result, pos). Inr result))"


subsection \<open>Round trips\<close>

text \<open>Every record is non-empty when written, so the empty value that stands for a missing key is
  never what a stored record serialises to.\<close>

lemma fold_buf:
  assumes "\<And>x b. f x b = b @ g x"
  shows "fold f xs b = b @ concat (map g xs)"
  by (induction xs arbitrary: b) (auto simp: assms)

lemma decodes_record:
  assumes "decodes d bs x" "bs \<noteq> []" "length bs < 2 ^ 64"
  shows "(if bs = [] then z else bindE (d bs 0) (\<lambda>(result, from). Inr result)) = Inr x"
  using decodes_whole [OF assms(1,3)] assms(2) by simp

lemma decodes_loop:
  assumes "\<And>x. decodes d (enc x) (dec x)" and "length xs < 2 ^ 64"
  shows "decodes (repeatP (unat (of_nat (length xs) :: u64)) (\<lambda>s. bindP d (\<lambda>e. returnP (upd e s))) s)
     (concat (map enc xs)) (fold (\<lambda>x. upd (dec x)) xs s)"
  unfolding unat_of_nat_u64 [OF assms(2)]
  by (rule decodes_repeatP) (rule decodes_map [OF assms(1)])

lemma serializeInt_neq_Nil [simp]: "serializeInt (v :: u64) \<noteq> []"
  using length_serializeInt_u64 [of v] by fastforce

lemma serializeString_neq_Nil [simp]: "serializeString s \<noteq> []"
  using length_serializeString [of s] by fastforce

lemma decodes_MainBlockInfo:
  "decodes MainBlockInfo_parser
     (serializeVector (mb_blockHash m) @ serializeInt (mb_blockNumber m) @ serializeInt (mb_countVal m)) m"
proof -
  have "decodes MainBlockInfo_parser
     (serializeVector (mb_blockHash m) @ serializeInt (mb_blockNumber m) @ serializeInt (mb_countVal m))
     \<lparr>mb_blockNumber = mb_blockNumber m, mb_blockHash = mb_blockHash m, mb_countVal = mb_countVal m\<rparr>"
    unfolding MainBlockInfo_parser_def by (rule decodes_vector decodes_u64 decodes_map decodes_bind)+
  then show ?thesis by (cases m) simp
qed

lemma MainBlockInfo_roundtrip:
  assumes "MainBlockInfo_serialize m = Inr bs" "length bs < 2 ^ 64"
  shows "MainBlockInfo_deserialize bs = Inr m"
  using assms decodes_record [OF decodes_MainBlockInfo [of m]]
  by (auto simp: MainBlockInfo_serialize_def MainBlockInfo_deserialize_def result_simps)

lemma ScriptBlockInfo_roundtrip:
  assumes "ScriptBlockInfo_serialize m = Inr bs" "length bs < 2 ^ 64"
  shows "ScriptBlockInfo_deserialize bs = Inr m"
  using assms decodes_record [OF decodes_MainBlockInfo [of m]]
  by (auto simp: ScriptBlockInfo_serialize_def ScriptBlockInfo_deserialize_def result_simps)

lemma NodeStatBlockInfo_roundtrip:
  assumes "NodeStatBlockInfo_serialize m = Inr bs" "length bs < 2 ^ 64"
  shows "NodeStatBlockInfo_deserialize bs = Inr m"
  using assms decodes_record [OF decodes_MainBlockInfo [of m]]
  by (auto simp: NodeStatBlockInfo_serialize_def NodeStatBlockInfo_deserialize_def result_simps)

lemma V8State_roundtrip:
  assumes "V8State_serialize s = Inr bs" "length bs < 2 ^ 64"
  shows "V8State_deserialize bs = Inr ((V8State_make (vs_blockNumber s))\<lparr>vs_state := vs_state s, vs_details := vs_details s\<rparr>)"
proof -
  have "decodes V8State_parser (serializeString (vs_state s) @ serializeString (vs_details s) @ serializeInt (vs_blockNumber s))
     ((V8State_make 0)\<lparr>vs_state := vs_state s, vs_details := vs_details s, vs_blockNumber := vs_blockNumber s\<rparr>)"
    unfolding V8State_parser_def by (rule decodes_string decodes_u64 decodes_map decodes_bind)+
  from decodes_record [OF this] show ?thesis
    using assms by (auto simp: V8State_serialize_def V8State_deserialize_def V8State_make_def result_simps)
qed

lemma V8Details_roundtrip:
  assumes "length (V8Details_serialize s) < 2 ^ 64"
  shows "V8Details_deserialize (V8Details_serialize s) = Inr s"
proof -
  have "decodes V8Details_parser (V8Details_serialize s) \<lparr>vd_details = vd_details s, vd_lastError = vd_lastError s\<rparr>"
    unfolding V8Details_parser_def V8Details_serialize_def by (rule decodes_string decodes_map decodes_bind)+
  from decodes_record [OF this _ assms] show ?thesis
    by (cases s) (auto simp: V8Details_deserialize_def V8Details_serialize_def)
qed

lemma V8Code_roundtrip:
  assumes "length (V8Code_serialize s) < 2 ^ 64"
  shows "V8Code_deserialize (V8Code_serialize s) = Inr s"
  using decodes_whole [OF decodes_string [of "vc_code s"]] assms
  by (cases s) (simp add: V8Code_deserialize_def V8Code_serialize_def)

abbreviation element_bytes :: "BestNodeElement \<Rightarrow> bytes" where
  "element_bytes e \<equiv> serializeInt (be_timestamp e) @ serializeString (be_geo e) @ serializeInt (be_rps e) @ fp_bytes (be_txPos e)"

lemma BestNodeElement_serialize_Inr [result_simps]:
  "BestNodeElement_serialize e buffer = Inr bs \<longleftrightarrow>
     fp_fileNameRelative (be_txPos e) \<noteq> [] \<and> bs = buffer @ element_bytes e"
  by (auto simp: BestNodeElement_serialize_def result_simps)

lemma serialize_tests_Inr [result_simps]:
  "serialize_tests tests buffer = Inr bs \<longleftrightarrow>
     (\<forall>e \<in> set tests. fp_fileNameRelative (be_txPos e) \<noteq> []) \<and> bs = buffer @ concat (map element_bytes tests)"
  by (induction tests arbitrary: buffer) (auto simp: result_simps)

lemma at_neq_Nil: "at raw p (bs @ rest) \<Longrightarrow> bs \<noteq> [] \<Longrightarrow> raw \<noteq> []"
  using at_length by fastforce

lemma decodes_BestNodeElement:
  "decodes BestNodeElement_deserialize (element_bytes e) (e\<lparr>be_empty := False\<rparr>)"
proof -
  have "decodes (bindP deserializeInt (\<lambda>timestamp. bindP deserializeString (\<lambda>geo. bindP deserializeInt (\<lambda>rps.
       bindP FilePosition_deserialize (\<lambda>txPos. returnP (BestNodeElement_make timestamp geo rps txPos))))))
     (element_bytes e) (BestNodeElement_make (be_timestamp e) (be_geo e) (be_rps e) (be_txPos e))"
    by (rule decodes_u64 decodes_string decodes_FilePosition decodes_map decodes_bind)+
  then show ?thesis
    by (cases e) (auto simp: decodes_def BestNodeElement_deserialize_def BestNodeElement_make_def
        dest: at_neq_Nil)
qed

lemma fold_append_map: "fold (\<lambda>x xs. xs @ [f x]) ys xs = xs @ map f ys"
  by (induction ys arbitrary: xs) auto

lemma BestNodeTest_roundtrip:
  assumes ser: "BestNodeTest_serialize t [] = Inr bs" and len: "length bs < 2 ^ 64"
    and n: "length (bt_tests t) < 2 ^ 64"
  shows "BestNodeTest_deserialize bs =
     Inr (t\<lparr>bt_tests := map (\<lambda>e. e\<lparr>be_empty := False\<rparr>) (bt_tests t), bt_deserialized := True\<rparr>)"
proof -
  let ?step = "\<lambda>tests. bindP BestNodeElement_deserialize (\<lambda>e. returnP (tests @ [e]))"
  let ?tests = "map (\<lambda>e. e\<lparr>be_empty := False\<rparr>) (bt_tests t)"
  have loop: "decodes (repeatP (unat (of_nat (length (bt_tests t)) :: u64)) ?step [])
      (concat (map element_bytes (bt_tests t))) ?tests"
    using decodes_loop [OF decodes_BestNodeElement n, of "\<lambda>e s. s @ [e]" "[]"]
    by (simp only: fold_append_map append_Nil)
  have "decodes BestNodeTest_parser (serializeInt (of_nat (length (bt_tests t)) :: u64) @
      concat (map element_bytes (bt_tests t)) @ serializeInt (bt_day t) @
      serializeInt (if bt_isMaxElement t then 1 else 0 :: byte))
     \<lparr>bt_tests = ?tests, bt_day = bt_day t, bt_isMaxElement = ((if bt_isMaxElement t then 1 else 0 :: byte) = 1),
       bt_deserialized = True\<rparr>"
    unfolding BestNodeTest_parser_def by (rule decodes_u64 loop decodes_byte decodes_map decodes_bind)+
  moreover have "bs = serializeInt (of_nat (length (bt_tests t)) :: u64) @
      concat (map element_bytes (bt_tests t)) @ serializeInt (bt_day t) @
      serializeInt (if bt_isMaxElement t then 1 else 0 :: byte)"
    using ser by (auto simp: BestNodeTest_serialize_def result_simps)
  ultimately show ?thesis
    using decodes_record len by (cases t) (fastforce simp: BestNodeTest_deserialize_def)
qed

lemma ucast_scast_trust: "ucast (scast (x :: u32) :: u64) = x"
  by (rule bit_word_eqI) (auto simp: bit_simps)

lemma NodeTestTrust_roundtrip:
  assumes "length (NodeTestTrust_serialize t) < 2 ^ 64"
  shows "NodeTestTrust_deserialize (NodeTestTrust_serialize t) = Inr t"
proof -
  have "decodes NodeTestTrust_parser (NodeTestTrust_serialize t)
     \<lparr>nt_trustJson = nt_trustJson t, nt_timestamp = nt_timestamp t, nt_trust = ucast (scast (nt_trust t) :: u64)\<rparr>"
    unfolding NodeTestTrust_parser_def NodeTestTrust_serialize_def
    by (rule decodes_string decodes_u64 decodes_map decodes_bind)+
  from decodes_record [OF this _ assms] show ?thesis
    by (cases t) (auto simp: NodeTestTrust_deserialize_def NodeTestTrust_serialize_def ucast_scast_trust)
qed

lemma AllTestedNodes_roundtrip:
  assumes "sorted (an_nodes a)" "distinct (an_nodes a)" and n: "length (an_nodes a) < 2 ^ 64"
    and len: "length (AllTestedNodes_serialize a []) < 2 ^ 64"
  shows "AllTestedNodes_deserialize (AllTestedNodes_serialize a []) = Inr a"
proof -
  let ?step = "\<lambda>nodes. bindP deserializeString (\<lambda>node. returnP (List.insort_insert node nodes))"
  have eq: "AllTestedNodes_serialize a [] = serializeInt (an_day a) @
      serializeInt (of_nat (length (an_nodes a)) :: u64) @ concat (map serializeString (an_nodes a))"
    by (simp add: AllTestedNodes_serialize_def fold_buf [of serializeString_buf])
  have loop: "decodes (repeatP (unat (of_nat (length (an_nodes a)) :: u64)) ?step [])
      (concat (map serializeString (an_nodes a))) (an_nodes a)"
    using decodes_loop [where dec = "\<lambda>x. x", OF decodes_string n, of List.insort_insert "[]"] assms(1,2)
    by (simp only: fold_insort_sorted)
  have "decodes AllTestedNodes_parser (AllTestedNodes_serialize a []) \<lparr>an_nodes = an_nodes a, an_day = an_day a\<rparr>"
    unfolding AllTestedNodes_parser_def eq by (rule decodes_u64 loop decodes_map decodes_bind)+
  from decodes_record [OF this _ len] show ?thesis
    by (simp add: AllTestedNodes_deserialize_def eq)
qed

lemma AllNodes_roundtrip:
  assumes "ordered nodes" "length nodes < 2 ^ 64" and len: "length (AllNodes_serialize nodes []) < 2 ^ 64"
  shows "AllNodes_deserialize (AllNodes_serialize nodes []) = Inr nodes"
proof -
  let ?step = "\<lambda>nodes. bindP deserializeString (\<lambda>node. bindP deserializeString (\<lambda>name.
       bindP deserializeString (\<lambda>type. returnP (map_put node \<lparr>nn_name = name, nn_type = type\<rparr> nodes))))"
  let ?enc = "\<lambda>p. serializeString (fst p) @ serializeString (nn_name (snd p)) @ serializeString (nn_type (snd p))"
  have eq: "AllNodes_serialize nodes [] =
      serializeInt (of_nat (length nodes) :: u64) @ concat (map ?enc nodes)"
    by (simp add: AllNodes_serialize_def fold_buf [of serialize_node ?enc] serialize_node_def)
  have step: "decodes (?step s) (?enc x) ((\<lambda>(k, v). map_put k v) x s)" for s x
  proof -
    have "decodes (?step s) (?enc x) (map_put (fst x) \<lparr>nn_name = nn_name (snd x), nn_type = nn_type (snd x)\<rparr> s)"
      by (rule decodes_string decodes_map decodes_bind)+
    then show ?thesis by (cases x, cases "snd x") simp
  qed
  have loop: "decodes (repeatP (unat (of_nat (length nodes) :: u64)) ?step []) (concat (map ?enc nodes)) nodes"
    using decodes_repeatP [where f = ?step and enc = ?enc and upd = "\<lambda>(k, v). map_put k v", OF step, of nodes "[]"] assms(1)
    unfolding unat_of_nat_u64 [OF assms(2)] by (simp only: fold_put_ordered)
  have "decodes AllNodes_parser (AllNodes_serialize nodes []) nodes"
    unfolding AllNodes_parser_def eq
    by (rule decodes_bind, rule decodes_u64, rule loop)
  from decodes_record [OF this _ len] show ?thesis
    by (simp add: AllNodes_deserialize_def eq)
qed

lemma NodeRps_roundtrip:
  assumes "length rps < 2 ^ 64" and len: "length (NodeRps_serialize rps []) < 2 ^ 64"
  shows "NodeRps_deserialize (NodeRps_serialize rps []) = Inr rps"
proof -
  let ?step = "\<lambda>rps. bindP deserializeInt (\<lambda>rp. returnP (rps @ [rp :: u64]))"
  have eq: "NodeRps_serialize rps [] = serializeInt (of_nat (length rps) :: u64) @ concat (map serializeInt rps)"
    by (simp add: NodeRps_serialize_def fold_buf [of serializeInt_buf])
  have loop: "decodes (repeatP (unat (of_nat (length rps) :: u64)) ?step []) (concat (map serializeInt rps)) rps"
    using decodes_loop [where dec = "\<lambda>x. x", OF decodes_u64 assms(1), of "\<lambda>e s. s @ [e]" "[]"]
    by (simp only: fold_append_map append_Nil map_ident)
  have "decodes NodeRps_parser (NodeRps_serialize rps []) rps"
    unfolding NodeRps_parser_def eq
    by (rule decodes_bind, rule decodes_u64, rule loop)
  from decodes_record [OF this _ len] show ?thesis
    by (simp add: NodeRps_deserialize_def eq)
qed


subsection \<open>The best place of a node\<close>

definition geo_tests :: "BestNodeElement list \<Rightarrow> bytes \<Rightarrow> BestNodeElement list" where
  "geo_tests tests g = filter (\<lambda>r. be_geo r = g \<and> be_rps r \<noteq> 0) tests"

definition geo_average :: "BestNodeElement list \<Rightarrow> bytes \<Rightarrow> nat" where
  "geo_average tests g = sum_list (map (\<lambda>r. unat (be_rps r)) (geo_tests tests g)) div length (geo_tests tests g)"

lemma geos_of_tests:
  "ordered (fold count_geo tests []) \<and>
   map_of (fold count_geo tests []) g =
     (if geo_tests tests g = [] then None
      else Some (sum_list (map be_rps (geo_tests tests g)), of_nat (length (geo_tests tests g))))"
proof (induction tests arbitrary: g rule: rev_induct)
  case Nil
  then show ?case by (simp add: geo_tests_def)
next
  case (snoc r tests)
  have ord: "ordered (fold count_geo tests [])"
    using snoc by blast
  show ?case
    using snoc [of g] snoc [of "be_geo r"] ord
    by (auto simp: count_geo_def geo_tests_def get_or_def Let_def map_of_put ordered_put split: if_splits)
qed

lemma sum_u64_exact:
  fixes f :: "'a \<Rightarrow> u64"
  assumes "sum_list (map (\<lambda>x. unat (f x)) xs) < 2 ^ 64"
  shows "unat (sum_list (map f xs)) = sum_list (map (\<lambda>x. unat (f x)) xs)"
  using assms by (induction xs) (auto simp: unat_word_ariths)

lemma max_element_spec:
  fixes f :: "'a \<Rightarrow> 'b::linorder"
  shows "max_element (\<lambda>a b. f a < f b) g gs \<in> set (g # gs) \<and>
     (\<forall>x \<in> set (g # gs). f x \<le> f (max_element (\<lambda>a b. f a < f b) g gs))"
  by (induction gs arbitrary: g) (auto, (metis le_cases le_less_trans not_less order_trans)+)

lemma min_element_spec:
  fixes f :: "'a \<Rightarrow> 'b::linorder"
  shows "min_element (\<lambda>a b. f a < f b) g gs \<in> set (g # gs) \<and>
     (\<forall>x \<in> set (g # gs). f (min_element (\<lambda>a b. f a < f b) g gs) \<le> f x)"
  by (induction gs arbitrary: g) (auto, (metis le_cases le_less_trans not_less order_trans)+)


lemma geo_tests_bounds:
  "sum_list (map (\<lambda>r. unat (be_rps r)) (geo_tests tests g)) \<le> sum_list (map (\<lambda>r. unat (be_rps r)) tests)"
  "length (geo_tests tests g) \<le> sum_list (map (\<lambda>r. unat (be_rps r)) tests)"
proof -
  show "sum_list (map (\<lambda>r. unat (be_rps r)) (geo_tests tests g)) \<le> sum_list (map (\<lambda>r. unat (be_rps r)) tests)"
    by (induction tests) (auto simp: geo_tests_def)
  show "length (geo_tests tests g) \<le> sum_list (map (\<lambda>r. unat (be_rps r)) tests)"
  proof (induction tests)
    case (Cons r tests)
    have "be_rps r \<noteq> 0 \<Longrightarrow> 0 < unat (be_rps r)"
      by (simp add: unat_gt_0)
    then show ?case
      using Cons by (auto simp: geo_tests_def)
  qed (simp add: geo_tests_def)
qed

lemma average_of_geo:
  assumes total: "sum_list (map (\<lambda>r. unat (be_rps r)) tests) < 2 ^ 64"
    and mem: "p \<in> set (fold count_geo tests [])"
  shows "geo_tests tests (fst p) \<noteq> []" and "unat (average p) = geo_average tests (fst p)"
proof -
  have "map_of (fold count_geo tests []) (fst p) = Some (snd p)"
    using mem conjunct1 [OF geos_of_tests [of tests]] by (intro map_of_is_SomeI) (auto intro: ordered_distinct)
  then have p: "geo_tests tests (fst p) \<noteq> []"
    "snd p = (sum_list (map be_rps (geo_tests tests (fst p))), of_nat (length (geo_tests tests (fst p))))"
    using geos_of_tests [of tests "fst p"] by (auto split: if_splits)
  show "geo_tests tests (fst p) \<noteq> []" by (rule p)
  have small: "sum_list (map (\<lambda>r. unat (be_rps r)) (geo_tests tests (fst p))) < 2 ^ 64"
    "length (geo_tests tests (fst p)) < 2 ^ 64"
    using geo_tests_bounds [of tests "fst p"] total by linarith+
  show "unat (average p) = geo_average tests (fst p)"
    using sum_u64_exact [OF small(1)] unat_of_nat_u64 [OF small(2)]
    by (simp add: average_def geo_average_def p(2) unat_div)
qed

lemma best_geo_Some:
  assumes total: "sum_list (map (\<lambda>r. unat (be_rps r)) tests) < 2 ^ 64"
    and x: "x \<in> set tests" "be_rps x \<noteq> 0"
  obtains g where "best_geo isMax (fold count_geo tests []) = Some g" "geo_tests tests g \<noteq> []"
    "\<And>y. y \<in> set tests \<Longrightarrow> be_rps y \<noteq> 0 \<Longrightarrow>
       (if isMax then geo_average tests (be_geo y) \<le> geo_average tests g
        else geo_average tests g \<le> geo_average tests (be_geo y))"
proof -
  let ?geos = "fold count_geo tests []"
  let ?sel = "(if isMax then max_element else min_element) (\<lambda>a b. average a < average b)"
  have listed: "\<exists>v. (be_geo y, v) \<in> set ?geos" if "y \<in> set tests" "be_rps y \<noteq> 0" for y
  proof -
    have "geo_tests tests (be_geo y) \<noteq> []"
      using that by (auto simp: geo_tests_def filter_empty_conv)
    then show ?thesis
      using geos_of_tests [of tests "be_geo y"] map_of_SomeD by fastforce
  qed
  obtain g gs where geos: "?geos = g # gs"
    using listed [OF x] by (cases ?geos) auto
  have sel: "?sel g gs \<in> set ?geos"
    "\<And>p. p \<in> set ?geos \<Longrightarrow> if isMax then average p \<le> average (?sel g gs) else average (?sel g gs) \<le> average p"
    using max_element_spec [of average g gs] min_element_spec [of average g gs] geos by (cases isMax; force)+
  show thesis
  proof (rule that)
    show "best_geo isMax ?geos = Some (fst (?sel g gs))"
      by (simp add: best_geo_def geos)
    show "geo_tests tests (fst (?sel g gs)) \<noteq> []"
      by (rule average_of_geo(1) [OF total sel(1)])
    fix y assume y: "y \<in> set tests" "be_rps y \<noteq> 0"
    obtain v where v: "(be_geo y, v) \<in> set ?geos"
      using listed [OF y] by blast
    show "if isMax then geo_average tests (be_geo y) \<le> geo_average tests (fst (?sel g gs))
        else geo_average tests (fst (?sel g gs)) \<le> geo_average tests (be_geo y)"
      using sel(2) [OF v] average_of_geo(2) [OF total v] average_of_geo(2) [OF total sel(1)]
      by (simp add: word_le_nat_alt split: if_splits)
  qed
qed

lemma find_rev_split:
  assumes "x \<in> set xs" "P x"
  shows "\<exists>ys y zs. xs = ys @ y # zs \<and> find P (rev xs) = Some y \<and> P y \<and> (\<forall>z \<in> set zs. \<not> P z)"
  using assms
proof (induction xs rule: rev_induct)
  case (snoc a xs)
  show ?case
  proof (cases "P a")
    case True
    then show ?thesis by force
  next
    case False
    then obtain ys y zs where "xs = ys @ y # zs" "find P (rev xs) = Some y" "P y" "\<forall>z \<in> set zs. \<not> P z"
      using snoc by auto
    then show ?thesis
      using False by (intro exI [of _ ys] exI [of _ y] exI [of _ "zs @ [a]"]) auto
  qed
qed simp

text \<open>The result a node is judged by. When the tests of the day contain a successful one and
  their rates do not overflow together, \<open>getMax\<close> returns the latest test of a place that has
  successful tests and whose average rate is the highest of all places (the lowest when the tests
  are sorted the other way).\<close>

theorem getMax_best_place:
  assumes "sum_list (map (\<lambda>r. unat (be_rps r)) (bt_tests t)) < 2 ^ 64"
    and "x \<in> set (bt_tests t)" and "be_rps x \<noteq> 0"
  shows "\<exists>before e after. bt_tests t = before @ e # after \<and> getMax t (bt_day t) = e \<and>
     geo_tests (bt_tests t) (be_geo e) \<noteq> [] \<and> (\<forall>r \<in> set after. be_geo r \<noteq> be_geo e) \<and>
     (\<forall>y \<in> set (bt_tests t). be_rps y \<noteq> 0 \<longrightarrow>
        (if bt_isMaxElement t
         then geo_average (bt_tests t) (be_geo y) \<le> geo_average (bt_tests t) (be_geo e)
         else geo_average (bt_tests t) (be_geo e) \<le> geo_average (bt_tests t) (be_geo y)))"
proof -
  obtain g where g: "best_geo (bt_isMaxElement t) (fold count_geo (bt_tests t) []) = Some g"
    "geo_tests (bt_tests t) g \<noteq> []"
    "\<And>y. y \<in> set (bt_tests t) \<Longrightarrow> be_rps y \<noteq> 0 \<Longrightarrow>
       (if bt_isMaxElement t then geo_average (bt_tests t) (be_geo y) \<le> geo_average (bt_tests t) g
        else geo_average (bt_tests t) g \<le> geo_average (bt_tests t) (be_geo y))"
    using best_geo_Some [OF assms] by blast
  have "\<exists>r \<in> set (bt_tests t). be_geo r = g"
    using g(2) by (auto simp: geo_tests_def filter_empty_conv)
  then obtain before e after where e: "bt_tests t = before @ e # after"
    "find (\<lambda>r. be_geo r = g) (rev (bt_tests t)) = Some e" "be_geo e = g" "\<forall>r \<in> set after. be_geo r \<noteq> g"
    using find_rev_split [of _ "bt_tests t" "\<lambda>r. be_geo r = g"] by blast
  have "getMax t (bt_day t) = e"
    unfolding getMax_def g(1) option.case e(2) by simp
  then show ?thesis
    using e(1,4) g(2,3) unfolding e(3) [symmetric] by blast
qed

definition sample_tests :: BestNodeTest where
  "sample_tests = BestNodeTest_addElement
     (BestNodeTest_addElement (BestNodeTest_make True) (BestNodeElement_make 1 (lit ''eu'') 10 \<lparr>fp_pos = 0, fp_fileNameRelative = lit ''f''\<rparr>) 7)
     (BestNodeElement_make 2 (lit ''us'') 30 \<lparr>fp_pos = 9, fp_fileNameRelative = lit ''f''\<rparr>) 7"

theorem getMax_best_place_witness:
  "\<exists>before e after. bt_tests sample_tests = before @ e # after \<and> getMax sample_tests 7 = e \<and>
     (\<forall>r \<in> set after. be_geo r \<noteq> be_geo e)"
proof -
  have "sum_list (map (\<lambda>r. unat (be_rps r)) (bt_tests sample_tests)) < 2 ^ 64"
    "bt_tests sample_tests ! 1 \<in> set (bt_tests sample_tests)" "be_rps (bt_tests sample_tests ! 1) \<noteq> 0"
    and day: "bt_day sample_tests = 7"
    by (simp_all add: sample_tests_def BestNodeTest_addElement_def BestNodeTest_make_def BestNodeElement_make_def)
  from getMax_best_place [OF this(1-3)] show ?thesis
    unfolding day by blast
qed

end
