(* ===== verification/LevelDb.thy ===== *)
theory LevelDb
  imports WorkerRecords TransactionInfo BlockInfo BalanceStore
begin

section \<open>The database (LevelDb)\<close>

text \<open>
  The typed layer over LevelDB: batches of writes and look-ups of every kind of record, each
  under a key made of a prefix and the name of the record. LevelDB itself is the parameter
  \<open>L\<close>, a record of its operations on a store of type \<open>'d\<close>; \<open>leveldb_ok\<close> states what its header
  documents of them. An iterator is the list of the entries it visits from the key it seeks.
  The thread-local key buffers are cleared before every use and are not part of the state.
\<close>

subsection \<open>LevelDB\<close>

datatype status = StOK | StNotFound | StError

datatype write_op = Put bytes bytes | Delete bytes

record 'd leveldb =
  db_Put :: "bool \<Rightarrow> bytes \<Rightarrow> bytes \<Rightarrow> 'd \<Rightarrow> 'd \<times> status"
  db_Get :: "bytes \<Rightarrow> 'd \<Rightarrow> status \<times> bytes"
  db_Delete :: "bytes \<Rightarrow> 'd \<Rightarrow> 'd \<times> status"
  db_Write :: "write_op list \<Rightarrow> 'd \<Rightarrow> 'd \<times> status"
  db_Seek :: "bytes \<Rightarrow> 'd \<Rightarrow> (bytes \<times> bytes) list"

subsection \<open>Prefixes and fixed keys\<close>

definition KEY_BLOCK_METADATA :: bytes where "KEY_BLOCK_METADATA = lit ''?block_meta''"
definition VERSION_DB :: bytes where "VERSION_DB = lit ''?version_db''"
definition ADDRESS_PREFIX :: bytes where "ADDRESS_PREFIX = lit ''a_''"
definition ADDRESS_TOKEN_PREFIX :: bytes where "ADDRESS_TOKEN_PREFIX = lit ''ti_''"
definition ADDRESS_STATUS_PREFIX :: bytes where "ADDRESS_STATUS_PREFIX = lit ''A_''"
definition BALANCE_PREFIX :: bytes where "BALANCE_PREFIX = lit ''i_''"
definition TRANSACTION_PREFIX :: bytes where "TRANSACTION_PREFIX = lit ''t_''"
definition TOKEN_PREFIX :: bytes where "TOKEN_PREFIX = lit ''to_''"
definition V8_STATE_PREFIX :: bytes where "V8_STATE_PREFIX = lit ''v_''"
definition V8_DETAILS_PREFIX :: bytes where "V8_DETAILS_PREFIX = lit ''vd_''"
definition V8_CODE_PREFIX :: bytes where "V8_CODE_PREFIX = lit ''vc_''"
definition TRANSACTION_STATUS_PREFIX :: bytes where "TRANSACTION_STATUS_PREFIX = lit ''T_''"
definition ADDRESS_POSTFIX :: byte where "ADDRESS_POSTFIX = of_char (CHR ''!'')"
definition BLOCK_PREFIX :: bytes where "BLOCK_PREFIX = lit ''b_''"
definition SCRIPT_BLOCK_NUMBER_PREFIX :: bytes where "SCRIPT_BLOCK_NUMBER_PREFIX = lit ''ss_''"
definition MAIN_BLOCK_NUMBER_PREFIX :: bytes where "MAIN_BLOCK_NUMBER_PREFIX = lit ''ms_''"
definition NODE_STAT_BLOCK_NUMBER_PREFIX :: bytes where "NODE_STAT_BLOCK_NUMBER_PREFIX = lit ''ns_''"
definition FILE_PREFIX :: bytes where "FILE_PREFIX = lit ''f_''"
definition DELEGATE_PREFIX :: bytes where "DELEGATE_PREFIX = lit ''d_''"
definition DELEGATE_POSTFIX :: byte where "DELEGATE_POSTFIX = of_char (CHR ''!'')"
definition MODULES_KEY :: bytes where "MODULES_KEY = lit ''modules''"
definition DELEGATE_KEY_PAIR_DELIMITER :: byte where "DELEGATE_KEY_PAIR_DELIMITER = of_char (CHR '';'')"
definition COMMON_BALANCE_KEY :: bytes where "COMMON_BALANCE_KEY = lit ''commno_balance''"
definition NODE_STAT_RESULT_PREFIX :: bytes where "NODE_STAT_RESULT_PREFIX = lit ''nr2_''"
definition NODE_STAT_TRUST_PREFIX :: bytes where "NODE_STAT_TRUST_PREFIX = lit ''nt_''"
definition NODE_STAT_DAY_NUMBER :: bytes where "NODE_STAT_DAY_NUMBER = lit ''nsdn''"
definition NODE_STAT_COUNT_POSTFIX :: byte where "NODE_STAT_COUNT_POSTFIX = of_char (CHR ''!'')"
definition NODES_TESTED_STATS_ALL_DAY_POSTFIX :: byte where
  "NODES_TESTED_STATS_ALL_DAY_POSTFIX = of_char (CHR ''!'')"
definition NODE_STAT_RPS_POSTFIX :: byte where "NODE_STAT_RPS_POSTFIX = of_char (CHR ''!'')"
definition NODES_TESTED_STATS_ALL_DAY :: bytes where "NODES_TESTED_STATS_ALL_DAY = lit ''nsta_''"
definition NODES_STATS_ALL :: bytes where "NODES_STATS_ALL = lit ''nsaa2_''"
definition NODE_STAT_RPS_PREFIX :: bytes where "NODE_STAT_RPS_PREFIX = lit ''nrps_''"
definition FORGING_SUMS_ALL :: bytes where "FORGING_SUMS_ALL = lit ''fsa_''"
definition SIGNS_BLOCK_NUMBER_PREFIX :: bytes where "SIGNS_BLOCK_NUMBER_PREFIX = lit ''signs_''"
definition BLOCKS_TIMELINE_PREFIX :: bytes where "BLOCKS_TIMELINE_PREFIX = lit ''timeline_''"

lemmas prefix_defs = KEY_BLOCK_METADATA_def VERSION_DB_def ADDRESS_PREFIX_def ADDRESS_TOKEN_PREFIX_def
  ADDRESS_STATUS_PREFIX_def BALANCE_PREFIX_def TRANSACTION_PREFIX_def TOKEN_PREFIX_def V8_STATE_PREFIX_def
  V8_DETAILS_PREFIX_def V8_CODE_PREFIX_def TRANSACTION_STATUS_PREFIX_def BLOCK_PREFIX_def
  SCRIPT_BLOCK_NUMBER_PREFIX_def MAIN_BLOCK_NUMBER_PREFIX_def NODE_STAT_BLOCK_NUMBER_PREFIX_def
  FILE_PREFIX_def DELEGATE_PREFIX_def MODULES_KEY_def COMMON_BALANCE_KEY_def NODE_STAT_RESULT_PREFIX_def
  NODE_STAT_TRUST_PREFIX_def NODE_STAT_DAY_NUMBER_def NODES_TESTED_STATS_ALL_DAY_def NODES_STATS_ALL_def
  NODE_STAT_RPS_PREFIX_def FORGING_SUMS_ALL_def SIGNS_BLOCK_NUMBER_PREFIX_def BLOCKS_TIMELINE_PREFIX_def

lemmas postfix_defs = ADDRESS_POSTFIX_def DELEGATE_POSTFIX_def DELEGATE_KEY_PAIR_DELIMITER_def
  NODE_STAT_COUNT_POSTFIX_def NODES_TESTED_STATS_ALL_DAY_POSTFIX_def NODE_STAT_RPS_POSTFIX_def

subsection \<open>Building keys\<close>

datatype key_arg = Str bytes | Chr byte | SerInt u64

fun addToBuf :: "bytes \<Rightarrow> key_arg \<Rightarrow> bytes result" where
  "addToBuf buffer (Str arg) = bindE (CHECK (arg \<noteq> []) ''Incorrect parameter'') (\<lambda>_. Inr (buffer @ arg))"
| "addToBuf buffer (Chr arg) = Inr (buffer @ [arg])"
| "addToBuf buffer (SerInt t) = Inr (serializeInt_buf t buffer)"

fun addAllToBuf :: "bytes \<Rightarrow> key_arg list \<Rightarrow> bytes result" where
  "addAllToBuf buffer [] = Inr buffer"
| "addAllToBuf buffer (arg # args) = bindE (addToBuf buffer arg) (\<lambda>buffer. addAllToBuf buffer args)"

definition makeKey :: "key_arg list \<Rightarrow> bytes result" where
  "makeKey args = addAllToBuf [] args"

definition makeKeyDelegatePair :: "bytes \<Rightarrow> bytes \<Rightarrow> bytes" where
  "makeKeyDelegatePair keyFrom keyTo = keyFrom @ [DELEGATE_KEY_PAIR_DELIMITER] @ keyTo"

text \<open>\<open>operator[]\<close> of a string gives the terminating zero at its size and is undefined beyond it.\<close>

definition str_at :: "bytes \<Rightarrow> nat \<Rightarrow> byte result" where
  "str_at s i = (if i < length s then Inr (s ! i) else if i = length s then Inr 0 else Inl Undefined)"

definition getSecondOnKeyDelegatePair :: "bytes \<Rightarrow> bytes \<Rightarrow> bytes result" where
  "getSecondOnKeyDelegatePair keyFrom delegateKeyPair =
     (let n = length keyFrom; p = length DELEGATE_PREFIX;
          fail = Check ''Incorrect delegateKeyPair''
      in if length delegateKeyPair < n + 1 + p then Inl fail
         else bindE (str_at delegateKeyPair (n + p)) (\<lambda>c.
              if c \<noteq> DELEGATE_KEY_PAIR_DELIMITER then Inl fail
              else bindE (str_at delegateKeyPair (n + p + 1 + n)) (\<lambda>c.
              if c \<noteq> DELEGATE_POSTFIX then Inl fail
              else Inr (take n (drop (n + 1 + p) delegateKeyPair)))))"

definition makeAddressStatusKey :: "bytes \<Rightarrow> bytes \<Rightarrow> bytes" where
  "makeAddressStatusKey address txHash = ADDRESS_STATUS_PREFIX @ address @ [ADDRESS_POSTFIX] @ txHash"

subsection \<open>Batches\<close>

text \<open>\<open>save\<close> is an \<open>unordered_map\<close> (\<open>emplace\<close> keeps an existing entry), \<open>deleted\<close> an
  \<open>unordered_set\<close>. A call that fails has not touched the batch.\<close>

record Batch =
  wb_batch :: "write_op list"
  wb_save :: "(bytes \<times> bytes) list"
  wb_deleted :: "bytes list"

definition Batch_new :: Batch where
  "Batch_new = \<lparr>wb_batch = [], wb_save = [], wb_deleted = []\<rparr>"

definition addKeyInternal :: "bytes \<Rightarrow> bytes \<Rightarrow> bool \<Rightarrow> Batch \<Rightarrow> Batch" where
  "addKeyInternal key val isSave b =
     (let b = b\<lparr>wb_batch := wb_batch b @ [Put key val]\<rparr>
      in if isSave then b\<lparr>wb_save := emplace key val (wb_save b)\<rparr> else b)"

definition addKey :: "bytes \<Rightarrow> bytes result \<Rightarrow> bool \<Rightarrow> Batch \<Rightarrow> Batch result" where
  "addKey key serialized isSave b = bindE serialized (\<lambda>bufferValue. Inr (addKeyInternal key bufferValue isSave b))"

definition findValueInBatch :: "(bytes \<Rightarrow> 'v result) \<Rightarrow> bytes \<Rightarrow> Batch \<Rightarrow> 'v option result" where
  "findValueInBatch deserialize key b =
     (case map_of (wb_save b) key of
        None \<Rightarrow> Inr None
      | Some found \<Rightarrow> bindE (deserialize found) (\<lambda>v. Inr (Some v)))"

definition removeValue :: "bytes \<Rightarrow> bool \<Rightarrow> Batch \<Rightarrow> Batch" where
  "removeValue key isSave b =
     (let b = b\<lparr>wb_batch := wb_batch b @ [Delete key]\<rparr>
      in if isSave then b\<lparr>wb_save := AList.delete key (wb_save b), wb_deleted := List.insert key (wb_deleted b)\<rparr> else b)"

definition addBlockHeader :: "bytes \<Rightarrow> BlockHeader \<Rightarrow> Batch \<Rightarrow> Batch result" where
  "addBlockHeader blockHash val b =
     bindE (makeKey [Str BLOCK_PREFIX, Str blockHash]) (\<lambda>key. addKey key (BlockHeader_serialize val) False b)"

definition addSignBlockHeader :: "bytes \<Rightarrow> SignBlockHeader \<Rightarrow> Batch \<Rightarrow> Batch result" where
  "addSignBlockHeader blockHash val b =
     bindE (makeKey [Str SIGNS_BLOCK_NUMBER_PREFIX, Str blockHash]) (\<lambda>key. addKey key (SignBlockHeader_serialize val) False b)"

definition addBlockMetadata :: "BlocksMetadata \<Rightarrow> Batch \<Rightarrow> Batch result" where
  "addBlockMetadata val b = addKey KEY_BLOCK_METADATA (BlocksMetadata_serialize val) False b"

definition addFileMetadata :: "bytes \<Rightarrow> FileInfo \<Rightarrow> Batch \<Rightarrow> Batch result" where
  "addFileMetadata fileName val b =
     bindE (makeKey [Str FILE_PREFIX, Str fileName]) (\<lambda>key. addKey key (FileInfo_serialize val) False b)"

definition addMainBlock :: "MainBlockInfo \<Rightarrow> Batch \<Rightarrow> Batch result" where
  "addMainBlock val b = addKey MAIN_BLOCK_NUMBER_PREFIX (MainBlockInfo_serialize val) False b"

definition addScriptBlock :: "ScriptBlockInfo \<Rightarrow> Batch \<Rightarrow> Batch result" where
  "addScriptBlock val b = addKey SCRIPT_BLOCK_NUMBER_PREFIX (ScriptBlockInfo_serialize val) False b"

definition addAllNodes :: "AllNodes \<Rightarrow> Batch \<Rightarrow> Batch result" where
  "addAllNodes val b = addKey NODES_STATS_ALL (Inr (AllNodes_serialize val [])) False b"

definition addAddress :: "bytes \<Rightarrow> AddressInfo \<Rightarrow> u64 \<Rightarrow> Batch \<Rightarrow> Batch result" where
  "addAddress address val counter b =
     bindE (makeKey [Str ADDRESS_PREFIX, Str address, Chr ADDRESS_POSTFIX, SerInt counter]) (\<lambda>key.
     addKey key (AddressInfo_serialize val []) False b)"

definition addAddressToken :: "bytes \<Rightarrow> AddressInfo \<Rightarrow> u64 \<Rightarrow> Batch \<Rightarrow> Batch result" where
  "addAddressToken address val counter b =
     bindE (makeKey [Str ADDRESS_TOKEN_PREFIX, Str address, Chr ADDRESS_POSTFIX, SerInt counter]) (\<lambda>key.
     addKey key (AddressInfo_serialize val []) False b)"

definition addAddressStatus :: "bytes \<Rightarrow> TransactionStatus \<Rightarrow> Batch \<Rightarrow> Batch result" where
  "addAddressStatus addressAndHash val b = addKey addressAndHash (TransactionStatus_serialize val []) False b"

definition addTransaction :: "bytes \<Rightarrow> TransactionInfo \<Rightarrow> Batch \<Rightarrow> Batch result" where
  "addTransaction txHash val b =
     bindE (makeKey [Str TRANSACTION_PREFIX, Str txHash]) (\<lambda>key. addKey key (TransactionInfo_serialize val []) False b)"

definition addTransactionStatus :: "bytes \<Rightarrow> TransactionStatus \<Rightarrow> Batch \<Rightarrow> Batch result" where
  "addTransactionStatus txHash val b =
     bindE (makeKey [Str TRANSACTION_STATUS_PREFIX, Str txHash]) (\<lambda>key.
     addKey key (TransactionStatus_serialize val []) False b)"

definition addToken :: "bytes \<Rightarrow> Token \<Rightarrow> Batch \<Rightarrow> Batch result" where
  "addToken address val b =
     bindE (makeKey [Str TOKEN_PREFIX, Str address]) (\<lambda>key. addKey key (Token_serialize val []) False b)"

definition addV8State :: "bytes \<Rightarrow> V8State \<Rightarrow> Batch \<Rightarrow> Batch result" where
  "addV8State v8Address v8State b =
     bindE (makeKey [Str V8_STATE_PREFIX, Str v8Address]) (\<lambda>key. addKey key (V8State_serialize v8State) False b)"

definition addV8Details :: "bytes \<Rightarrow> V8Details \<Rightarrow> Batch \<Rightarrow> Batch result" where
  "addV8Details v8Address v8Details b =
     bindE (makeKey [Str V8_DETAILS_PREFIX, Str v8Address]) (\<lambda>key. addKey key (Inr (V8Details_serialize v8Details)) True b)"

definition addV8Code :: "bytes \<Rightarrow> V8Code \<Rightarrow> Batch \<Rightarrow> Batch result" where
  "addV8Code v8Address v8Code b =
     bindE (makeKey [Str V8_CODE_PREFIX, Str v8Address]) (\<lambda>key. addKey key (Inr (V8Code_serialize v8Code)) True b)"

definition Batch_findV8State :: "bytes \<Rightarrow> Batch \<Rightarrow> V8State option result" where
  "Batch_findV8State v8Address b =
     bindE (makeKey [Str V8_STATE_PREFIX, Str v8Address]) (\<lambda>key. findValueInBatch V8State_deserialize key b)"

definition Batch_findToken :: "bytes \<Rightarrow> Batch \<Rightarrow> Token option result" where
  "Batch_findToken address b =
     bindE (makeKey [Str TOKEN_PREFIX, Str address]) (\<lambda>key. findValueInBatch Token_deserialize key b)"

definition removeToken :: "bytes \<Rightarrow> Batch \<Rightarrow> Batch result" where
  "removeToken address b =
     bindE (makeKey [Str TOKEN_PREFIX, Str address]) (\<lambda>key. Inr (removeValue key True b))"

definition addDelegateKey :: "bytes \<Rightarrow> DelegateState \<Rightarrow> u64 \<Rightarrow> Batch \<Rightarrow> (Batch \<times> bytes) result" where
  "addDelegateKey delegatePair val counter b =
     bindE (makeKey [Str DELEGATE_PREFIX, Str delegatePair, Chr DELEGATE_POSTFIX, SerInt counter]) (\<lambda>bufferKey.
     bindE (addKey bufferKey (DelegateState_serialize val []) True b) (\<lambda>b.
     Inr (b, bufferKey)))"

definition Batch_findDelegateKey :: "bytes \<Rightarrow> Batch \<Rightarrow> DelegateState option result" where
  "Batch_findDelegateKey delegateKey b = findValueInBatch DelegateState_deserialize delegateKey b"

definition removeDelegateKey :: "bytes \<Rightarrow> Batch \<Rightarrow> Batch" where
  "removeDelegateKey delegateKey b = removeValue delegateKey True b"

definition getDeletedDelegate :: "Batch \<Rightarrow> bytes list" where
  "getDeletedDelegate b = wb_deleted b"

definition addNodeTestLastResults :: "bytes \<Rightarrow> BestNodeTest \<Rightarrow> Batch \<Rightarrow> Batch result" where
  "addNodeTestLastResults address result b =
     bindE (makeKey [Str NODE_STAT_RESULT_PREFIX, Str address]) (\<lambda>key. addKey key (BestNodeTest_serialize result []) False b)"

definition addNodeTestTrust :: "bytes \<Rightarrow> NodeTestTrust \<Rightarrow> Batch \<Rightarrow> Batch result" where
  "addNodeTestTrust address result b =
     bindE (makeKey [Str NODE_STAT_TRUST_PREFIX, Str address]) (\<lambda>key. addKey key (Inr (NodeTestTrust_serialize result)) False b)"

definition addNodeTestDayNumber :: "u64 \<Rightarrow> Batch \<Rightarrow> Batch result" where
  "addNodeTestDayNumber result b = addKey NODE_STAT_DAY_NUMBER (Inr (NodeTestDayNumber_serialize result)) False b"

definition addAllTestedNodesForDay :: "AllTestedNodes \<Rightarrow> u64 \<Rightarrow> Batch \<Rightarrow> Batch result" where
  "addAllTestedNodesForDay result dayNumber b =
     bindE (makeKey [Str NODES_TESTED_STATS_ALL_DAY, Chr NODES_TESTED_STATS_ALL_DAY_POSTFIX, SerInt (- dayNumber)]) (\<lambda>key.
     addKey key (Inr (AllTestedNodes_serialize result [])) False b)"

definition addNodeTestRpsForDay :: "bytes \<Rightarrow> u64 list \<Rightarrow> u64 \<Rightarrow> Batch \<Rightarrow> Batch result" where
  "addNodeTestRpsForDay address result dayNumber b =
     bindE (makeKey [Str NODE_STAT_RPS_PREFIX, Str address, Chr NODE_STAT_RPS_POSTFIX, SerInt (- dayNumber)]) (\<lambda>key.
     addKey key (Inr (NodeRps_serialize result [])) False b)"

definition addAllForgedSums :: "ForgingSums \<Rightarrow> Batch \<Rightarrow> Batch result" where
  "addAllForgedSums result b = addKey FORGING_SUMS_ALL (Inr (ForgingSums_serialize result)) False b"

definition addCommonBalance :: "CommonBalance \<Rightarrow> Batch \<Rightarrow> Batch result" where
  "addCommonBalance val b = addKey COMMON_BALANCE_KEY (CommonBalance_serialize val []) False b"

definition addBalance :: "bytes \<Rightarrow> BalanceInfo \<Rightarrow> Batch \<Rightarrow> Batch result" where
  "addBalance address val b =
     bindE (makeKey [Str BALANCE_PREFIX, Str address]) (\<lambda>key. addKey key (Inr (BalanceInfo_serialize val [])) False b)"

definition addNodeStatBlock :: "NodeStatBlockInfo \<Rightarrow> Batch \<Rightarrow> Batch result" where
  "addNodeStatBlock val b = addKey NODE_STAT_BLOCK_NUMBER_PREFIX (NodeStatBlockInfo_serialize val) False b"

definition saveBlockTimeline :: "u64 \<Rightarrow> bytes \<Rightarrow> Batch \<Rightarrow> Batch result" where
  "saveBlockTimeline key dat b =
     bindE (makeKey [Str BLOCKS_TIMELINE_PREFIX, SerInt key]) (\<lambda>bufferKey. Inr (addKeyInternal bufferKey dat False b))"


subsection \<open>Access to the store\<close>

definition saveValue :: "'d leveldb \<Rightarrow> bytes \<Rightarrow> bytes \<Rightarrow> bool \<Rightarrow> 'd \<Rightarrow> 'd \<times> unit result" where
  "saveValue L key val isSync d =
     (case db_Put L isSync key val d of
        (d', s) \<Rightarrow> (d', CHECK (s = StOK) ''dont add key to bd ''))"

fun scan_range :: "(bytes \<times> bytes \<Rightarrow> 'r result) \<Rightarrow> bytes \<Rightarrow> u64 \<Rightarrow> u64 \<Rightarrow> u64 \<Rightarrow> 'r list
    \<Rightarrow> (bytes \<times> bytes) list \<Rightarrow> 'r list result" where
  "scan_range func keyTo from count index result [] = Inr result"
| "scan_range func keyTo from count index result (it # its) =
     (if \<not> fst it < keyTo then Inr result
      else if count \<noteq> 0 \<and> index \<ge> from + count then Inr result
      else if index \<ge> from
           then bindE (func it) (\<lambda>r. scan_range func keyTo from count (index + 1) (result @ [r]) its)
           else scan_range func keyTo from count (index + 1) result its)"

definition findKeyInternal :: "'d leveldb \<Rightarrow> bytes \<Rightarrow> bytes \<Rightarrow> u64 \<Rightarrow> u64 \<Rightarrow> (bytes \<times> bytes \<Rightarrow> 'r result)
    \<Rightarrow> 'd \<Rightarrow> 'r list result" where
  "findKeyInternal L keyFrom keyTo from count func d =
     scan_range func keyTo from count 0 [] (db_Seek L keyFrom d)"

definition findKey :: "'d leveldb \<Rightarrow> bytes \<Rightarrow> bytes \<Rightarrow> u64 \<Rightarrow> u64 \<Rightarrow> 'd \<Rightarrow> bytes list result" where
  "findKey L keyFrom keyTo from count = findKeyInternal L keyFrom keyTo from count (\<lambda>iter. Inr (snd iter))"

definition findKeyValue :: "'d leveldb \<Rightarrow> (bytes \<Rightarrow> 'v result) \<Rightarrow> bytes \<Rightarrow> bytes \<Rightarrow> u64 \<Rightarrow> u64 \<Rightarrow> 'd \<Rightarrow> 'v list result" where
  "findKeyValue L deserialize keyFrom keyTo from count =
     findKeyInternal L keyFrom keyTo from count (\<lambda>iter. deserialize (snd iter))"

definition findKey2 :: "'d leveldb \<Rightarrow> bytes \<Rightarrow> bytes \<Rightarrow> u64 \<Rightarrow> u64 \<Rightarrow> 'd \<Rightarrow> (bytes \<times> bytes) list result" where
  "findKey2 L keyFrom keyTo from count = findKeyInternal L keyFrom keyTo from count Inr"

definition findOneValueInternal :: "'d leveldb \<Rightarrow> bytes \<Rightarrow> bool \<Rightarrow> 'd \<Rightarrow> bytes result" where
  "findOneValueInternal L key isCheck d =
     (case db_Get L key d of
        (s, val) \<Rightarrow>
          if \<not> isCheck \<and> s = StNotFound then Inr []
          else bindE (CHECK (s = StOK) ''dont add key to bd count val '') (\<lambda>_. Inr val))"

definition findOneValueWithoutCheck :: "'d leveldb \<Rightarrow> bytes \<Rightarrow> 'd \<Rightarrow> bytes result" where
  "findOneValueWithoutCheck L key d = findOneValueInternal L key False d"

definition findOneValueWithoutCheckOpt :: "'d leveldb \<Rightarrow> (bytes \<Rightarrow> 'v result) \<Rightarrow> bytes \<Rightarrow> 'd \<Rightarrow> 'v option result" where
  "findOneValueWithoutCheckOpt L deserialize key d =
     bindE (findOneValueInternal L key False d) (\<lambda>res.
     if res = [] then Inr None else bindE (deserialize res) (\<lambda>v. Inr (Some v)))"

definition findOneValueWithoutCheckValue :: "'d leveldb \<Rightarrow> (bytes \<Rightarrow> 'v result) \<Rightarrow> bytes \<Rightarrow> 'd \<Rightarrow> 'v result" where
  "findOneValueWithoutCheckValue L deserialize key d = bindE (findOneValueInternal L key False d) deserialize"

definition beginWith :: "bytes \<Rightarrow> bytes \<Rightarrow> bool" where
  "beginWith first second = (length second \<le> length first \<and> take (length second) first = second)"

fun first_of :: "bytes \<Rightarrow> bytes list \<Rightarrow> (bytes \<times> bytes) list \<Rightarrow> bytes \<times> bytes" where
  "first_of key excluded [] = ([], [])"
| "first_of key excluded (it # its) =
     (if beginWith (fst it) key
      then if fst it \<in> set excluded then first_of key excluded its else it
      else ([], []))"

definition findFirstOf :: "'d leveldb \<Rightarrow> bytes \<Rightarrow> bytes list \<Rightarrow> 'd \<Rightarrow> bytes \<times> bytes" where
  "findFirstOf L key excluded d = first_of key excluded (db_Seek L key d)"

definition addBatch :: "'d leveldb \<Rightarrow> Batch \<Rightarrow> 'd \<Rightarrow> 'd \<times> unit result" where
  "addBatch L b d = (case db_Write L (wb_batch b) d of (d', s) \<Rightarrow> (d', CHECK (s = StOK) ''dont add key to bd. ''))"

definition removeKey :: "'d leveldb \<Rightarrow> bytes \<Rightarrow> 'd \<Rightarrow> 'd \<times> unit result" where
  "removeKey L key d = (case db_Delete L key d of (d', s) \<Rightarrow> (d', CHECK (s = StOK) ''dont delete key to bd. ''))"

subsection \<open>Look-ups\<close>

definition saveModules :: "'d leveldb \<Rightarrow> bytes \<Rightarrow> 'd \<Rightarrow> 'd \<times> unit result" where
  "saveModules L modules d = saveValue L MODULES_KEY modules True d"

definition findAddress :: "'d leveldb \<Rightarrow> bytes \<Rightarrow> u64 \<Rightarrow> u64 \<Rightarrow> 'd \<Rightarrow> AddressInfo list result" where
  "findAddress L address from count d =
     bindE (makeKey [Str ADDRESS_PREFIX, Str address]) (\<lambda>keyPrefix.
     findKeyValue L AddressInfo_deserialize (keyPrefix @ [ADDRESS_POSTFIX]) (keyPrefix @ [ADDRESS_POSTFIX + 1]) from count d)"

definition findAddressTokens :: "'d leveldb \<Rightarrow> bytes \<Rightarrow> u64 \<Rightarrow> u64 \<Rightarrow> 'd \<Rightarrow> AddressInfo list result" where
  "findAddressTokens L address from count d =
     bindE (makeKey [Str ADDRESS_TOKEN_PREFIX, Str address]) (\<lambda>keyPrefix.
     findKeyValue L AddressInfo_deserialize (keyPrefix @ [ADDRESS_POSTFIX]) (keyPrefix @ [ADDRESS_POSTFIX + 1]) from count d)"

definition findAddressStatus :: "'d leveldb \<Rightarrow> bytes \<Rightarrow> 'd \<Rightarrow> TransactionStatus list result" where
  "findAddressStatus L address d =
     bindE (makeKey [Str ADDRESS_STATUS_PREFIX, Str address]) (\<lambda>keyPrefix.
     findKeyValue L TransactionStatus_deserialize (keyPrefix @ [ADDRESS_POSTFIX]) (keyPrefix @ [ADDRESS_POSTFIX + 1]) 0 0 d)"

definition findBalance :: "'d leveldb \<Rightarrow> bytes \<Rightarrow> 'd \<Rightarrow> BalanceInfo result" where
  "findBalance L address d =
     bindE (makeKey [Str BALANCE_PREFIX, Str address]) (\<lambda>key. findOneValueWithoutCheckValue L BalanceInfo_deserialize key d)"

definition findTx :: "'d leveldb \<Rightarrow> bytes \<Rightarrow> 'd \<Rightarrow> TransactionInfo option result" where
  "findTx L txHash d =
     bindE (makeKey [Str TRANSACTION_PREFIX, Str txHash]) (\<lambda>key. findOneValueWithoutCheckOpt L TransactionInfo_deserialize key d)"

definition findToken :: "'d leveldb \<Rightarrow> bytes \<Rightarrow> 'd \<Rightarrow> Token result" where
  "findToken L address d =
     bindE (makeKey [Str TOKEN_PREFIX, Str address]) (\<lambda>key. findOneValueWithoutCheckValue L Token_deserialize key d)"

definition findTxStatus :: "'d leveldb \<Rightarrow> bytes \<Rightarrow> 'd \<Rightarrow> TransactionStatus option result" where
  "findTxStatus L txHash d =
     bindE (makeKey [Str TRANSACTION_STATUS_PREFIX, Str txHash]) (\<lambda>key.
     findOneValueWithoutCheckOpt L TransactionStatus_deserialize key d)"

definition findDelegateKey :: "'d leveldb \<Rightarrow> bytes \<Rightarrow> bytes list \<Rightarrow> 'd \<Rightarrow> (bytes \<times> DelegateState) result" where
  "findDelegateKey L delegatePair excluded d =
     bindE (makeKey [Str DELEGATE_PREFIX, Str delegatePair, Chr DELEGATE_POSTFIX]) (\<lambda>key.
     let result = findFirstOf L key excluded d
     in bindE (DelegateState_deserialize (snd result)) (\<lambda>st. Inr (fst result, st)))"

definition findBlockMetadata :: "'d leveldb \<Rightarrow> 'd \<Rightarrow> BlocksMetadata result" where
  "findBlockMetadata L d = findOneValueWithoutCheckValue L BlocksMetadata_deserialize KEY_BLOCK_METADATA d"

text \<open>The end of the range of a prefix: its last character is replaced by the next one.\<close>

definition prefix_end :: "bytes \<Rightarrow> bytes" where
  "prefix_end from = take (length from - 1) from @ [last from + 1]"

definition getAllFiles :: "'d leveldb \<Rightarrow> (bytes \<Rightarrow> bytes) \<Rightarrow> 'd \<Rightarrow> (bytes \<times> FileInfo) list result" where
  "getAllFiles L getBasename d =
     bindE (findKeyValue L FileInfo_deserialize FILE_PREFIX (prefix_end FILE_PREFIX) 0 0 d) (\<lambda>found.
     Inr (fold (\<lambda>fi result. AList.update (getBasename (fp_fileNameRelative (fi_filePos fi))) fi result) found []))"

definition getAllBlocks :: "'d leveldb \<Rightarrow> 'd \<Rightarrow> bytes list result" where
  "getAllBlocks L d =
     bindE (findKey L BLOCK_PREFIX (prefix_end BLOCK_PREFIX) 0 0 d) (\<lambda>res.
     Inr (fold List.insort_insert res []))"

definition saveTransactionStatus :: "'d leveldb \<Rightarrow> bytes \<Rightarrow> TransactionStatus \<Rightarrow> 'd \<Rightarrow> 'd \<times> unit result" where
  "saveTransactionStatus L txHash val d =
     (case bindE (makeKey [Str TRANSACTION_STATUS_PREFIX, Str txHash]) (\<lambda>key.
           bindE (TransactionStatus_serialize val []) (\<lambda>bufferValue. Inr (key, bufferValue))) of
        Inl e \<Rightarrow> (d, Inl e)
      | Inr (key, bufferValue) \<Rightarrow> saveValue L key bufferValue False d)"

definition saveAddressStatus :: "'d leveldb \<Rightarrow> bytes \<Rightarrow> TransactionStatus \<Rightarrow> 'd \<Rightarrow> 'd \<times> unit result" where
  "saveAddressStatus L addressAndHash val d =
     (case TransactionStatus_serialize val [] of
        Inl e \<Rightarrow> (d, Inl e)
      | Inr buffer \<Rightarrow> saveValue L addressAndHash buffer False d)"

definition saveVersionDb :: "'d leveldb \<Rightarrow> bytes \<Rightarrow> 'd \<Rightarrow> 'd \<times> unit result" where
  "saveVersionDb L val d = saveValue L VERSION_DB val False d"

text \<open>\<open>std::sort\<close> leaves the order of equal keys open; the keys of the entries are all different.\<close>

fun timeline_entries :: "(bytes \<times> bytes) list \<Rightarrow> (u64 \<times> bytes) list result" where
  "timeline_entries [] = Inr []"
| "timeline_entries ((key, val) # found) =
     (let n = length BLOCKS_TIMELINE_PREFIX
      in bindE (CHECK (n < length key) ''Incorrect data'') (\<lambda>_.
         bindE (CHECK (take n key = BLOCKS_TIMELINE_PREFIX) ''Incorrect data'') (\<lambda>_.
         bindE (deserializeInt (drop n key) 0) (\<lambda>(keyInt, pos).
         bindE (timeline_entries found) (\<lambda>result.
         Inr ((keyInt, val) # result))))))"

definition findAllBlocksTimeline :: "'d leveldb \<Rightarrow> 'd \<Rightarrow> (u64 \<times> bytes) list result" where
  "findAllBlocksTimeline L d =
     bindE (findKey2 L BLOCKS_TIMELINE_PREFIX (prefix_end BLOCKS_TIMELINE_PREFIX) 0 0 d) (\<lambda>found.
     bindE (timeline_entries found) (\<lambda>result.
     Inr (sort_key fst result)))"

definition findModules :: "'d leveldb \<Rightarrow> 'd \<Rightarrow> bytes result" where
  "findModules L d = findOneValueWithoutCheck L MODULES_KEY d"

definition findMainBlock :: "'d leveldb \<Rightarrow> 'd \<Rightarrow> MainBlockInfo result" where
  "findMainBlock L d = findOneValueWithoutCheckValue L MainBlockInfo_deserialize MAIN_BLOCK_NUMBER_PREFIX d"

definition findScriptBlock :: "'d leveldb \<Rightarrow> 'd \<Rightarrow> ScriptBlockInfo result" where
  "findScriptBlock L d = findOneValueWithoutCheckValue L ScriptBlockInfo_deserialize SCRIPT_BLOCK_NUMBER_PREFIX d"

definition findV8State :: "'d leveldb \<Rightarrow> bytes \<Rightarrow> 'd \<Rightarrow> V8State result" where
  "findV8State L v8Address d =
     bindE (makeKey [Str V8_STATE_PREFIX, Str v8Address]) (\<lambda>key. findOneValueWithoutCheckValue L V8State_deserialize key d)"

definition findAllDelegatedPairKeys :: "'d leveldb \<Rightarrow> bytes \<Rightarrow> 'd \<Rightarrow> (bytes \<times> bytes) list result" where
  "findAllDelegatedPairKeys L keyFrom d =
     bindE (CHECK (keyFrom \<noteq> []) ''Incorrect delegatePair'') (\<lambda>_.
     findKey2 L (DELEGATE_PREFIX @ keyFrom @ [DELEGATE_KEY_PAIR_DELIMITER])
       (DELEGATE_PREFIX @ keyFrom @ [DELEGATE_KEY_PAIR_DELIMITER + 1]) 0 0 d)"

definition findV8DetailsAddress :: "'d leveldb \<Rightarrow> bytes \<Rightarrow> 'd \<Rightarrow> V8Details result" where
  "findV8DetailsAddress L address d =
     bindE (makeKey [Str V8_DETAILS_PREFIX, Str address]) (\<lambda>key. findOneValueWithoutCheckValue L V8Details_deserialize key d)"

definition findV8CodeAddress :: "'d leveldb \<Rightarrow> bytes \<Rightarrow> 'd \<Rightarrow> V8Code result" where
  "findV8CodeAddress L address d =
     bindE (makeKey [Str V8_CODE_PREFIX, Str address]) (\<lambda>key. findOneValueWithoutCheckValue L V8Code_deserialize key d)"

definition findCommonBalance :: "'d leveldb \<Rightarrow> 'd \<Rightarrow> CommonBalance result" where
  "findCommonBalance L d = findOneValueWithoutCheckValue L CommonBalance_deserialize COMMON_BALANCE_KEY d"

definition findVersionDb :: "'d leveldb \<Rightarrow> 'd \<Rightarrow> bytes result" where
  "findVersionDb L d = findOneValueWithoutCheck L VERSION_DB d"

definition findNodeStatBlock :: "'d leveldb \<Rightarrow> 'd \<Rightarrow> NodeStatBlockInfo result" where
  "findNodeStatBlock L d = findOneValueWithoutCheckValue L NodeStatBlockInfo_deserialize NODE_STAT_BLOCK_NUMBER_PREFIX d"

definition findNodeStatLastResults :: "'d leveldb \<Rightarrow> bytes \<Rightarrow> 'd \<Rightarrow> BestNodeTest result" where
  "findNodeStatLastResults L address d =
     bindE (makeKey [Str NODE_STAT_RESULT_PREFIX, Str address]) (\<lambda>key.
     findOneValueWithoutCheckValue L BestNodeTest_deserialize key d)"

definition findNodeStatLastTrust :: "'d leveldb \<Rightarrow> bytes \<Rightarrow> 'd \<Rightarrow> NodeTestTrust result" where
  "findNodeStatLastTrust L address d =
     bindE (makeKey [Str NODE_STAT_TRUST_PREFIX, Str address]) (\<lambda>key.
     findOneValueWithoutCheckValue L NodeTestTrust_deserialize key d)"

definition findNodeStatRps :: "'d leveldb \<Rightarrow> bytes \<Rightarrow> u64 \<Rightarrow> 'd \<Rightarrow> u64 list result" where
  "findNodeStatRps L address dayNumber d =
     bindE (makeKey [Str NODE_STAT_RPS_PREFIX, Str address, Chr NODE_STAT_RPS_POSTFIX, SerInt (- dayNumber)]) (\<lambda>key.
     findOneValueWithoutCheckValue L NodeRps_deserialize key d)"

definition findNodeStatDayNumber :: "'d leveldb \<Rightarrow> 'd \<Rightarrow> u64 result" where
  "findNodeStatDayNumber L d = findOneValueWithoutCheckValue L NodeTestDayNumber_deserialize NODE_STAT_DAY_NUMBER d"

definition findAllTestedNodesForDay :: "'d leveldb \<Rightarrow> u64 \<Rightarrow> 'd \<Rightarrow> AllTestedNodes result" where
  "findAllTestedNodesForDay L day d =
     bindE (makeKey [Str NODES_TESTED_STATS_ALL_DAY, Chr NODES_TESTED_STATS_ALL_DAY_POSTFIX, SerInt (- day)]) (\<lambda>key.
     findOneValueWithoutCheckValue L AllTestedNodes_deserialize key d)"

definition findAllTestedNodesForLastDay :: "'d leveldb \<Rightarrow> 'd \<Rightarrow> AllTestedNodes result" where
  "findAllTestedNodesForLastDay L d =
     bindE (makeKey [Str NODES_TESTED_STATS_ALL_DAY, Chr NODE_STAT_COUNT_POSTFIX]) (\<lambda>key.
     AllTestedNodes_deserialize (snd (findFirstOf L key [] d)))"

definition findForgingSumsAll :: "'d leveldb \<Rightarrow> 'd \<Rightarrow> ForgingSums result" where
  "findForgingSumsAll L d = findOneValueWithoutCheckValue L ForgingSums_deserialize FORGING_SUMS_ALL d"

definition findAllNodes :: "'d leveldb \<Rightarrow> 'd \<Rightarrow> AllNodes result" where
  "findAllNodes L d = findOneValueWithoutCheckValue L AllNodes_deserialize NODES_STATS_ALL d"

end
