(* ===== verification/Database.thy ===== *)
theory Database
  imports LevelDb BlocksTimeline
begin

section \<open>What the database promises\<close>

text \<open>
  Facts about the typed layer of \<open>LevelDb\<close> over a store that behaves as the header of LevelDB
  documents. \<open>contents\<close> is the map from keys to values that a store holds. The keys of different
  kinds of records never collide, a committed batch is seen by every look-up, and the range scans
  return exactly the records of their name in the order of their counters.
\<close>

subsection \<open>The documented behaviour of LevelDB\<close>

fun write_effect :: "write_op \<Rightarrow> (bytes \<rightharpoonup> bytes) \<Rightarrow> bytes \<rightharpoonup> bytes" where
  "write_effect (Put k v) m = m(k \<mapsto> v)"
| "write_effect (Delete k) m = m(k := None)"

text \<open>Reads do not fail, a write that reports success has its effect, an iterator visits the
  entries from the sought key on in the order of the keys.\<close>

definition leveldb_ok :: "'d leveldb \<Rightarrow> ('d \<Rightarrow> bytes \<rightharpoonup> bytes) \<Rightarrow> bool" where
  "leveldb_ok L contents \<longleftrightarrow>
     (\<forall>k d. db_Get L k d = (case contents d k of Some v \<Rightarrow> (StOK, v) | None \<Rightarrow> (StNotFound, []))) \<and>
     (\<forall>sync k v d d'. db_Put L sync k v d = (d', StOK) \<longrightarrow> contents d' = (contents d)(k \<mapsto> v)) \<and>
     (\<forall>k d d'. db_Delete L k d = (d', StOK) \<longrightarrow> contents d' = (contents d)(k := None)) \<and>
     (\<forall>ops d d'. db_Write L ops d = (d', StOK) \<longrightarrow> contents d' = fold write_effect ops (contents d)) \<and>
     (\<forall>k d. ordered (db_Seek L k d) \<and>
        (\<forall>k' v. (k', v) \<in> set (db_Seek L k d) \<longleftrightarrow> k \<le> k' \<and> contents d k' = Some v))"

lemma leveldb_okD:
  assumes "leveldb_ok L contents"
  shows "db_Get L k d = (case contents d k of Some v \<Rightarrow> (StOK, v) | None \<Rightarrow> (StNotFound, []))"
    and "db_Put L sync k v d = (d', StOK) \<Longrightarrow> contents d' = (contents d)(k \<mapsto> v)"
    and "db_Write L ops d = (d', StOK) \<Longrightarrow> contents d' = fold write_effect ops (contents d)"
    and "ordered (db_Seek L k d)"
    and "(k', v') \<in> set (db_Seek L k d) \<longleftrightarrow> k \<le> k' \<and> contents d k' = Some v'"
proof -
  note ok = assms [unfolded leveldb_ok_def]
  show "db_Get L k d = (case contents d k of Some v \<Rightarrow> (StOK, v) | None \<Rightarrow> (StNotFound, []))"
    by (rule spec [OF spec [OF conjunct1 [OF ok]]])
  show "db_Put L sync k v d = (d', StOK) \<Longrightarrow> contents d' = (contents d)(k \<mapsto> v)"
    using conjunct1 [OF conjunct2 [OF ok]] by blast
  show "db_Write L ops d = (d', StOK) \<Longrightarrow> contents d' = fold write_effect ops (contents d)"
    using conjunct1 [OF conjunct2 [OF conjunct2 [OF conjunct2 [OF ok]]]] by blast
  show "ordered (db_Seek L k d)" "(k', v') \<in> set (db_Seek L k d) \<longleftrightarrow> k \<le> k' \<and> contents d k' = Some v'"
    using conjunct2 [OF conjunct2 [OF conjunct2 [OF conjunct2 [OF ok]]]] by blast+
qed

text \<open>A store that satisfies it: an association list, sorted when it is iterated over.\<close>

type_synonym sample_store = "(bytes \<times> bytes) list"

fun store_apply :: "write_op \<Rightarrow> sample_store \<Rightarrow> sample_store" where
  "store_apply (Put k v) m = AList.update k v m"
| "store_apply (Delete k) m = AList.delete k m"

definition store_seek :: "bytes \<Rightarrow> sample_store \<Rightarrow> (bytes \<times> bytes) list" where
  "store_seek k m = map (\<lambda>k'. (k', the (map_of m k'))) (sort (remdups (filter (\<lambda>k'. k \<le> k') (map fst m))))"

definition sample_leveldb :: "sample_store leveldb" where
  "sample_leveldb = \<lparr>db_Put = \<lambda>sync k v d. (AList.update k v d, StOK),
     db_Get = \<lambda>k d. (case map_of d k of Some v \<Rightarrow> (StOK, v) | None \<Rightarrow> (StNotFound, [])),
     db_Delete = \<lambda>k d. (AList.delete k d, StOK),
     db_Write = \<lambda>ops d. (fold store_apply ops d, StOK),
     db_Seek = store_seek\<rparr>"

lemma map_of_store_fold: "map_of (fold store_apply ops d) = fold write_effect ops (map_of d)"
proof (induction ops arbitrary: d)
  case (Cons w ops)
  then show ?case by (cases w) (simp_all add: fun_upd_def)
qed simp

lemma store_seek_spec:
  "ordered (store_seek k m) \<and> ((k', v) \<in> set (store_seek k m) \<longleftrightarrow> k \<le> k' \<and> map_of m k' = Some v)"
proof
  show "ordered (store_seek k m)"
    by (simp add: ordered_def store_seek_def comp_def strict_sorted_iff)
  show "(k', v) \<in> set (store_seek k m) \<longleftrightarrow> k \<le> k' \<and> map_of m k' = Some v"
    by (cases "map_of m k'") (force simp: store_seek_def map_of_None_fst dest: map_of_SomeD)+
qed

lemma sample_leveldb_ok: "leveldb_ok sample_leveldb map_of"
  by (simp add: leveldb_ok_def sample_leveldb_def map_of_store_fold store_seek_spec fun_upd_def)

subsection \<open>Keys\<close>

fun arg_bytes :: "key_arg \<Rightarrow> bytes" where
  "arg_bytes (Str s) = s"
| "arg_bytes (Chr c) = [c]"
| "arg_bytes (SerInt n) = serializeInt n"

lemma addAllToBuf_Inr:
  "addAllToBuf buffer args = Inr k \<longleftrightarrow> Str [] \<notin> set args \<and> k = buffer @ concat (map arg_bytes args)"
proof (induction args arbitrary: buffer)
  case (Cons arg args)
  then show ?case
    by (cases arg) (auto simp: result_simps)
qed auto

lemma makeKey_Inr [result_simps]:
  "makeKey args = Inr k \<longleftrightarrow> Str [] \<notin> set args \<and> k = concat (map arg_bytes args)"
  by (simp add: makeKey_def addAllToBuf_Inr)

lemma addKey_Inr [result_simps]:
  "addKey key ser sv b = Inr b' \<longleftrightarrow> (\<exists>v. ser = Inr v \<and> b' = addKeyInternal key v sv b)"
  by (auto simp: addKey_def result_simps)

lemma wb_batch_addKeyInternal [simp]: "wb_batch (addKeyInternal key v sv b) = wb_batch b @ [Put key v]"
  by (simp add: addKeyInternal_def Let_def)

lemma wb_batch_removeValue [simp]: "wb_batch (removeValue key sv b) = wb_batch b @ [Delete key]"
  by (simp add: removeValue_def Let_def)

text \<open>No prefix of a kind of record is a prefix of another one.\<close>

definition all_prefixes :: "bytes list" where
  "all_prefixes = [KEY_BLOCK_METADATA, VERSION_DB, ADDRESS_PREFIX, ADDRESS_TOKEN_PREFIX, ADDRESS_STATUS_PREFIX,
     BALANCE_PREFIX, TRANSACTION_PREFIX, TOKEN_PREFIX, V8_STATE_PREFIX, V8_DETAILS_PREFIX, V8_CODE_PREFIX,
     TRANSACTION_STATUS_PREFIX, BLOCK_PREFIX, SCRIPT_BLOCK_NUMBER_PREFIX, MAIN_BLOCK_NUMBER_PREFIX,
     NODE_STAT_BLOCK_NUMBER_PREFIX, FILE_PREFIX, DELEGATE_PREFIX, MODULES_KEY, COMMON_BALANCE_KEY,
     NODE_STAT_RESULT_PREFIX, NODE_STAT_TRUST_PREFIX, NODE_STAT_DAY_NUMBER, NODES_TESTED_STATS_ALL_DAY,
     NODES_STATS_ALL, NODE_STAT_RPS_PREFIX, FORGING_SUMS_ALL, SIGNS_BLOCK_NUMBER_PREFIX, BLOCKS_TIMELINE_PREFIX]"

fun is_prefix :: "bytes \<Rightarrow> bytes \<Rightarrow> bool" where
  "is_prefix [] ys = True"
| "is_prefix (x # xs) [] = False"
| "is_prefix (x # xs) (y # ys) = (x = y \<and> is_prefix xs ys)"

lemma is_prefix_take: "is_prefix xs ys \<longleftrightarrow> take (length xs) ys = xs"
  by (induction xs ys rule: is_prefix.induct) auto

lemma prefixes_apart: "\<forall>p \<in> set all_prefixes. \<forall>q \<in> set all_prefixes. is_prefix p q \<longrightarrow> p = q"
  unfolding all_prefixes_def prefix_defs by simp

lemma prefix_keys_inject:
  assumes "p \<in> set all_prefixes" "q \<in> set all_prefixes" "p @ r = q @ s"
  shows "p = q \<and> r = s"
proof -
  have "is_prefix p q \<or> is_prefix q p"
  proof (cases "length p \<le> length q")
    case True
    then have "take (length p) q = p"
      using arg_cong [OF assms(3), of "take (length p)"] by simp
    then show ?thesis by (simp add: is_prefix_take)
  next
    case False
    then have "take (length q) p = q"
      using arg_cong [OF assms(3), of "take (length q)"] by simp
    then show ?thesis by (simp add: is_prefix_take)
  qed
  then have "p = q"
    using prefixes_apart assms(1,2) by blast
  then show ?thesis using assms(3) by simp
qed


subsection \<open>Batches of writes\<close>

text \<open>One constructor for each writing method of \<open>Batch\<close>; \<open>batch_write\<close> calls the method.\<close>

datatype db_write =
  WBlockHeader bytes BlockHeader
| WSignBlockHeader bytes SignBlockHeader
| WBlockMetadata BlocksMetadata
| WFileMetadata bytes FileInfo
| WMainBlock MainBlockInfo
| WScriptBlock ScriptBlockInfo
| WAllNodes AllNodes
| WAddress bytes AddressInfo u64
| WAddressToken bytes AddressInfo u64
| WAddressStatus bytes bytes TransactionStatus
| WTransaction bytes TransactionInfo
| WTransactionStatus bytes TransactionStatus
| WToken bytes Token
| WV8State bytes V8State
| WV8Details bytes V8Details
| WV8Code bytes V8Code
| WDelegateKey bytes DelegateState u64
| WNodeTestLastResults bytes BestNodeTest
| WNodeTestTrust bytes NodeTestTrust
| WNodeTestDayNumber u64
| WAllTestedNodesForDay AllTestedNodes u64
| WNodeTestRpsForDay bytes "u64 list" u64
| WAllForgedSums ForgingSums
| WCommonBalance CommonBalance
| WBalance bytes BalanceInfo
| WNodeStatBlock NodeStatBlockInfo
| WBlockTimeline u64 bytes
| WRemoveToken bytes
| WRemoveDelegateKey bytes u64

fun batch_write :: "db_write \<Rightarrow> Batch \<Rightarrow> Batch result" where
  "batch_write (WBlockHeader h v) b = addBlockHeader h v b"
| "batch_write (WSignBlockHeader h v) b = addSignBlockHeader h v b"
| "batch_write (WBlockMetadata v) b = addBlockMetadata v b"
| "batch_write (WFileMetadata f v) b = addFileMetadata f v b"
| "batch_write (WMainBlock v) b = addMainBlock v b"
| "batch_write (WScriptBlock v) b = addScriptBlock v b"
| "batch_write (WAllNodes v) b = addAllNodes v b"
| "batch_write (WAddress a v c) b = addAddress a v c b"
| "batch_write (WAddressToken a v c) b = addAddressToken a v c b"
| "batch_write (WAddressStatus a h v) b = addAddressStatus (makeAddressStatusKey a h) v b"
| "batch_write (WTransaction h v) b = addTransaction h v b"
| "batch_write (WTransactionStatus h v) b = addTransactionStatus h v b"
| "batch_write (WToken a v) b = addToken a v b"
| "batch_write (WV8State a v) b = addV8State a v b"
| "batch_write (WV8Details a v) b = addV8Details a v b"
| "batch_write (WV8Code a v) b = addV8Code a v b"
| "batch_write (WDelegateKey p v c) b = bindE (addDelegateKey p v c b) (\<lambda>(b, key). Inr b)"
| "batch_write (WNodeTestLastResults a v) b = addNodeTestLastResults a v b"
| "batch_write (WNodeTestTrust a v) b = addNodeTestTrust a v b"
| "batch_write (WNodeTestDayNumber v) b = addNodeTestDayNumber v b"
| "batch_write (WAllTestedNodesForDay v n) b = addAllTestedNodesForDay v n b"
| "batch_write (WNodeTestRpsForDay a v n) b = addNodeTestRpsForDay a v n b"
| "batch_write (WAllForgedSums v) b = addAllForgedSums v b"
| "batch_write (WCommonBalance v) b = addCommonBalance v b"
| "batch_write (WBalance a v) b = addBalance a v b"
| "batch_write (WNodeStatBlock v) b = addNodeStatBlock v b"
| "batch_write (WBlockTimeline n v) b = saveBlockTimeline n v b"
| "batch_write (WRemoveToken a) b = removeToken a b"
| "batch_write (WRemoveDelegateKey p c) b =
     bindE (makeKey [Str DELEGATE_PREFIX, Str p, Chr DELEGATE_POSTFIX, SerInt c]) (\<lambda>key. Inr (removeDelegateKey key b))"

fun batch_writes :: "db_write list \<Rightarrow> Batch \<Rightarrow> Batch result" where
  "batch_writes [] b = Inr b"
| "batch_writes (w # ws) b = bindE (batch_write w b) (batch_writes ws)"

text \<open>The prefix, the rest of the key and the value (\<open>None\<close> for a removal) of a write.\<close>

fun wr_prefix :: "db_write \<Rightarrow> bytes" where
  "wr_prefix (WBlockHeader _ _) = BLOCK_PREFIX"
| "wr_prefix (WSignBlockHeader _ _) = SIGNS_BLOCK_NUMBER_PREFIX"
| "wr_prefix (WBlockMetadata _) = KEY_BLOCK_METADATA"
| "wr_prefix (WFileMetadata _ _) = FILE_PREFIX"
| "wr_prefix (WMainBlock _) = MAIN_BLOCK_NUMBER_PREFIX"
| "wr_prefix (WScriptBlock _) = SCRIPT_BLOCK_NUMBER_PREFIX"
| "wr_prefix (WAllNodes _) = NODES_STATS_ALL"
| "wr_prefix (WAddress _ _ _) = ADDRESS_PREFIX"
| "wr_prefix (WAddressToken _ _ _) = ADDRESS_TOKEN_PREFIX"
| "wr_prefix (WAddressStatus _ _ _) = ADDRESS_STATUS_PREFIX"
| "wr_prefix (WTransaction _ _) = TRANSACTION_PREFIX"
| "wr_prefix (WTransactionStatus _ _) = TRANSACTION_STATUS_PREFIX"
| "wr_prefix (WToken _ _) = TOKEN_PREFIX"
| "wr_prefix (WV8State _ _) = V8_STATE_PREFIX"
| "wr_prefix (WV8Details _ _) = V8_DETAILS_PREFIX"
| "wr_prefix (WV8Code _ _) = V8_CODE_PREFIX"
| "wr_prefix (WDelegateKey _ _ _) = DELEGATE_PREFIX"
| "wr_prefix (WNodeTestLastResults _ _) = NODE_STAT_RESULT_PREFIX"
| "wr_prefix (WNodeTestTrust _ _) = NODE_STAT_TRUST_PREFIX"
| "wr_prefix (WNodeTestDayNumber _) = NODE_STAT_DAY_NUMBER"
| "wr_prefix (WAllTestedNodesForDay _ _) = NODES_TESTED_STATS_ALL_DAY"
| "wr_prefix (WNodeTestRpsForDay _ _ _) = NODE_STAT_RPS_PREFIX"
| "wr_prefix (WAllForgedSums _) = FORGING_SUMS_ALL"
| "wr_prefix (WCommonBalance _) = COMMON_BALANCE_KEY"
| "wr_prefix (WBalance _ _) = BALANCE_PREFIX"
| "wr_prefix (WNodeStatBlock _) = NODE_STAT_BLOCK_NUMBER_PREFIX"
| "wr_prefix (WBlockTimeline _ _) = BLOCKS_TIMELINE_PREFIX"
| "wr_prefix (WRemoveToken _) = TOKEN_PREFIX"
| "wr_prefix (WRemoveDelegateKey _ _) = DELEGATE_PREFIX"

fun wr_rest :: "db_write \<Rightarrow> bytes" where
  "wr_rest (WBlockHeader h _) = h"
| "wr_rest (WSignBlockHeader h _) = h"
| "wr_rest (WBlockMetadata _) = []"
| "wr_rest (WFileMetadata f _) = f"
| "wr_rest (WMainBlock _) = []"
| "wr_rest (WScriptBlock _) = []"
| "wr_rest (WAllNodes _) = []"
| "wr_rest (WAddress a _ c) = a @ ADDRESS_POSTFIX # serializeInt c"
| "wr_rest (WAddressToken a _ c) = a @ ADDRESS_POSTFIX # serializeInt c"
| "wr_rest (WAddressStatus a h _) = a @ ADDRESS_POSTFIX # h"
| "wr_rest (WTransaction h _) = h"
| "wr_rest (WTransactionStatus h _) = h"
| "wr_rest (WToken a _) = a"
| "wr_rest (WV8State a _) = a"
| "wr_rest (WV8Details a _) = a"
| "wr_rest (WV8Code a _) = a"
| "wr_rest (WDelegateKey p _ c) = p @ DELEGATE_POSTFIX # serializeInt c"
| "wr_rest (WNodeTestLastResults a _) = a"
| "wr_rest (WNodeTestTrust a _) = a"
| "wr_rest (WNodeTestDayNumber _) = []"
| "wr_rest (WAllTestedNodesForDay _ n) = NODES_TESTED_STATS_ALL_DAY_POSTFIX # serializeInt (- n)"
| "wr_rest (WNodeTestRpsForDay a _ n) = a @ NODE_STAT_RPS_POSTFIX # serializeInt (- n)"
| "wr_rest (WAllForgedSums _) = []"
| "wr_rest (WCommonBalance _) = []"
| "wr_rest (WBalance a _) = a"
| "wr_rest (WNodeStatBlock _) = []"
| "wr_rest (WBlockTimeline n _) = serializeInt n"
| "wr_rest (WRemoveToken a) = a"
| "wr_rest (WRemoveDelegateKey p c) = p @ DELEGATE_POSTFIX # serializeInt c"

fun wr_value :: "db_write \<Rightarrow> bytes option result" where
  "wr_value (WBlockHeader _ v) = bindE (BlockHeader_serialize v) (\<lambda>bs. Inr (Some bs))"
| "wr_value (WSignBlockHeader _ v) = bindE (SignBlockHeader_serialize v) (\<lambda>bs. Inr (Some bs))"
| "wr_value (WBlockMetadata v) = bindE (BlocksMetadata_serialize v) (\<lambda>bs. Inr (Some bs))"
| "wr_value (WFileMetadata _ v) = bindE (FileInfo_serialize v) (\<lambda>bs. Inr (Some bs))"
| "wr_value (WMainBlock v) = bindE (MainBlockInfo_serialize v) (\<lambda>bs. Inr (Some bs))"
| "wr_value (WScriptBlock v) = bindE (ScriptBlockInfo_serialize v) (\<lambda>bs. Inr (Some bs))"
| "wr_value (WAllNodes v) = bindE (Inr (AllNodes_serialize v [])) (\<lambda>bs. Inr (Some bs))"
| "wr_value (WAddress _ v _) = bindE (AddressInfo_serialize v []) (\<lambda>bs. Inr (Some bs))"
| "wr_value (WAddressToken _ v _) = bindE (AddressInfo_serialize v []) (\<lambda>bs. Inr (Some bs))"
| "wr_value (WAddressStatus _ _ v) = bindE (TransactionStatus_serialize v []) (\<lambda>bs. Inr (Some bs))"
| "wr_value (WTransaction _ v) = bindE (TransactionInfo_serialize v []) (\<lambda>bs. Inr (Some bs))"
| "wr_value (WTransactionStatus _ v) = bindE (TransactionStatus_serialize v []) (\<lambda>bs. Inr (Some bs))"
| "wr_value (WToken _ v) = bindE (Token_serialize v []) (\<lambda>bs. Inr (Some bs))"
| "wr_value (WV8State _ v) = bindE (V8State_serialize v) (\<lambda>bs. Inr (Some bs))"
| "wr_value (WV8Details _ v) = bindE (Inr (V8Details_serialize v)) (\<lambda>bs. Inr (Some bs))"
| "wr_value (WV8Code _ v) = bindE (Inr (V8Code_serialize v)) (\<lambda>bs. Inr (Some bs))"
| "wr_value (WDelegateKey _ v _) = bindE (DelegateState_serialize v []) (\<lambda>bs. Inr (Some bs))"
| "wr_value (WNodeTestLastResults _ v) = bindE (BestNodeTest_serialize v []) (\<lambda>bs. Inr (Some bs))"
| "wr_value (WNodeTestTrust _ v) = bindE (Inr (NodeTestTrust_serialize v)) (\<lambda>bs. Inr (Some bs))"
| "wr_value (WNodeTestDayNumber v) = bindE (Inr (NodeTestDayNumber_serialize v)) (\<lambda>bs. Inr (Some bs))"
| "wr_value (WAllTestedNodesForDay v _) = bindE (Inr (AllTestedNodes_serialize v [])) (\<lambda>bs. Inr (Some bs))"
| "wr_value (WNodeTestRpsForDay _ v _) = bindE (Inr (NodeRps_serialize v [])) (\<lambda>bs. Inr (Some bs))"
| "wr_value (WAllForgedSums v) = bindE (Inr (ForgingSums_serialize v)) (\<lambda>bs. Inr (Some bs))"
| "wr_value (WCommonBalance v) = bindE (CommonBalance_serialize v []) (\<lambda>bs. Inr (Some bs))"
| "wr_value (WBalance _ v) = bindE (Inr (BalanceInfo_serialize v [])) (\<lambda>bs. Inr (Some bs))"
| "wr_value (WNodeStatBlock v) = bindE (NodeStatBlockInfo_serialize v) (\<lambda>bs. Inr (Some bs))"
| "wr_value (WBlockTimeline _ v) = bindE (Inr v) (\<lambda>bs. Inr (Some bs))"
| "wr_value (WRemoveToken _) = Inr None"
| "wr_value (WRemoveDelegateKey _ _) = Inr None"

lemmas batch_defs = addBlockHeader_def addSignBlockHeader_def addBlockMetadata_def addFileMetadata_def addMainBlock_def
  addScriptBlock_def addAllNodes_def addAddress_def addAddressToken_def addAddressStatus_def addTransaction_def
  addTransactionStatus_def addToken_def addV8State_def addV8Details_def addV8Code_def addDelegateKey_def
  addNodeTestLastResults_def addNodeTestTrust_def addNodeTestDayNumber_def addAllTestedNodesForDay_def
  addNodeTestRpsForDay_def addAllForgedSums_def addCommonBalance_def addBalance_def addNodeStatBlock_def
  saveBlockTimeline_def removeToken_def removeDelegateKey_def makeAddressStatusKey_def

definition wr_op :: "bytes \<Rightarrow> bytes option \<Rightarrow> write_op" where
  "wr_op k v = (case v of None \<Rightarrow> Delete k | Some bs \<Rightarrow> Put k bs)"

lemma batch_write_op:
  assumes "batch_write w b = Inr b'"
  shows "\<exists>v. wr_value w = Inr v \<and> wb_batch b' = wb_batch b @ [wr_op (wr_prefix w @ wr_rest w) v]"
  using assms by (cases w) (auto simp: batch_defs addKey_Inr makeKey_Inr bindE_Inr_iff wr_op_def)

lemma wr_prefix_known: "wr_prefix w \<in> set all_prefixes"
  by (cases w) (simp_all add: all_prefixes_def)


definition last_write :: "(db_write \<Rightarrow> 'a option) \<Rightarrow> db_write list \<Rightarrow> 'a option" where
  "last_write sel ws = fold (\<lambda>w found. case sel w of None \<Rightarrow> found | Some v \<Rightarrow> Some v) ws None"

lemma last_write_snoc:
  "last_write sel (ws @ [w]) = (case sel w of None \<Rightarrow> last_write sel ws | Some v \<Rightarrow> Some v)"
  by (simp add: last_write_def split: option.splits)

lemma batch_writes_snoc: "batch_writes (ws @ [w]) b = bindE (batch_writes ws b) (batch_write w)"
proof (induction ws arbitrary: b)
  case Nil
  then show ?case by (cases "batch_write w b") simp_all
next
  case (Cons a ws)
  then have "batch_writes (ws @ [w]) = (\<lambda>b. bindE (batch_writes ws b) (batch_write w))"
    by (intro ext)
  then show ?case by (simp add: bindE_assoc)
qed

lemma write_effect_wr_op: "write_effect (wr_op k v) m k' = (if k' = k then v else m k')"
  by (cases v) (simp_all add: wr_op_def)

lemma batch_writes_effect:
  assumes "batch_writes ws Batch_new = Inr b" and p: "p \<in> set all_prefixes"
    and key: "\<And>w. wr_prefix w = p \<and> wr_rest w = r \<longleftrightarrow> sel w \<noteq> None"
    and val: "\<And>w v. sel w = Some v \<Longrightarrow> wr_value w = enc v"
  shows "(last_write sel ws = None \<longrightarrow> fold write_effect (wb_batch b) m (p @ r) = m (p @ r)) \<and>
     (\<forall>v. last_write sel ws = Some v \<longrightarrow> enc v = Inr (fold write_effect (wb_batch b) m (p @ r)))"
  using assms(1)
proof (induction ws arbitrary: b rule: rev_induct)
  case Nil
  then show ?case by (auto simp: last_write_def Batch_new_def)
next
  case (snoc w ws)
  obtain b0 where b0: "batch_writes ws Batch_new = Inr b0" "batch_write w b0 = Inr b"
    using snoc.prems by (auto simp: batch_writes_snoc bindE_Inr_iff)
  obtain v where v: "wr_value w = Inr v" "wb_batch b = wb_batch b0 @ [wr_op (wr_prefix w @ wr_rest w) v]"
    using batch_write_op [OF b0(2)] by blast
  have hit: "p @ r = wr_prefix w @ wr_rest w \<longleftrightarrow> sel w \<noteq> None"
    using prefix_keys_inject [OF p wr_prefix_known] key [of w] by blast
  show ?case
    using snoc.IH [OF b0(1)] hit val [of w] v
    by (auto simp: last_write_snoc write_effect_wr_op split: option.splits)
qed

lemma addBatch_contents:
  assumes "leveldb_ok L contents" and "addBatch L b d = (d', Inr ())"
  shows "contents d' = fold write_effect (wb_batch b) (contents d)"
  using assms(2) by (intro leveldb_okD(3) [OF assms(1), of "wb_batch b"])
    (auto simp: addBatch_def CHECK_def split: prod.splits if_splits)

lemma batch_contents:
  assumes "leveldb_ok L contents" and "batch_writes ws Batch_new = Inr b" and "addBatch L b d = (d', Inr ())"
    and "p \<in> set all_prefixes"
    and "\<And>w. wr_prefix w = p \<and> wr_rest w = r \<longleftrightarrow> sel w \<noteq> None"
    and "\<And>w v. sel w = Some v \<Longrightarrow> wr_value w = enc v"
  shows "last_write sel ws = None \<Longrightarrow> contents d' (p @ r) = contents d (p @ r)"
    and "last_write sel ws = Some v \<Longrightarrow> enc v = Inr (contents d' (p @ r))"
proof -
  have "contents d' = fold write_effect (wb_batch b) (contents d)"
    by (rule addBatch_contents [OF assms(1,3)])
  then show "last_write sel ws = None \<Longrightarrow> contents d' (p @ r) = contents d (p @ r)"
    and "last_write sel ws = Some v \<Longrightarrow> enc v = Inr (contents d' (p @ r))"
    using batch_writes_effect [where sel = sel and enc = enc and m = "contents d", OF assms(2,4,5,6)] by auto
qed

lemma findOne_contents:
  assumes "leveldb_ok L contents"
  shows "findOneValueInternal L k False d = Inr (case contents d k of None \<Rightarrow> [] | Some v \<Rightarrow> v)"
  by (simp add: findOneValueInternal_def leveldb_okD(1) [OF assms] split: option.splits)

lemma findValue_contents:
  assumes "leveldb_ok L contents"
  shows "findOneValueWithoutCheckValue L des k d = des (case contents d k of None \<Rightarrow> [] | Some v \<Rightarrow> v)"
  by (simp add: findOneValueWithoutCheckValue_def findOne_contents [OF assms])

lemma findOpt_contents:
  assumes "leveldb_ok L contents"
  shows "findOneValueWithoutCheckOpt L des k d =
     (let res = (case contents d k of None \<Rightarrow> [] | Some v \<Rightarrow> v)
      in if res = [] then Inr None else bindE (des res) (\<lambda>v. Inr (Some v)))"
  by (simp add: findOneValueWithoutCheckOpt_def findOne_contents [OF assms])

fun balance_write :: "bytes \<Rightarrow> db_write \<Rightarrow> BalanceInfo option" where
  "balance_write a (WBalance a' v) = (if a' = a then Some v else None)"
| "balance_write a _ = None"

fun tx_write :: "bytes \<Rightarrow> db_write \<Rightarrow> TransactionInfo option" where
  "tx_write h (WTransaction h' v) = (if h' = h then Some v else None)"
| "tx_write h _ = None"

fun status_write :: "bytes \<Rightarrow> db_write \<Rightarrow> TransactionStatus option" where
  "status_write h (WTransactionStatus h' v) = (if h' = h then Some v else None)"
| "status_write h _ = None"

fun token_write :: "bytes \<Rightarrow> db_write \<Rightarrow> Token option option" where
  "token_write a (WToken a' v) = (if a' = a then Some (Some v) else None)"
| "token_write a (WRemoveToken a') = (if a' = a then Some None else None)"
| "token_write a _ = None"

fun main_block_write :: "db_write \<Rightarrow> MainBlockInfo option" where
  "main_block_write (WMainBlock v) = Some v"
| "main_block_write _ = None"

lemma write_keys:
  "wr_prefix w = BALANCE_PREFIX \<and> wr_rest w = a \<longleftrightarrow> balance_write a w \<noteq> None"
  "wr_prefix w = TRANSACTION_PREFIX \<and> wr_rest w = a \<longleftrightarrow> tx_write a w \<noteq> None"
  "wr_prefix w = TRANSACTION_STATUS_PREFIX \<and> wr_rest w = a \<longleftrightarrow> status_write a w \<noteq> None"
  "wr_prefix w = TOKEN_PREFIX \<and> wr_rest w = a \<longleftrightarrow> token_write a w \<noteq> None"
  "wr_prefix w = MAIN_BLOCK_NUMBER_PREFIX \<and> wr_rest w = [] \<longleftrightarrow> main_block_write w \<noteq> None"
  by (cases w; simp add: prefix_defs)+

lemma write_values:
  "balance_write a w = Some v \<Longrightarrow> wr_value w = bindE (Inr (BalanceInfo_serialize v [])) (\<lambda>bs. Inr (Some bs))"
  "tx_write a w = Some t \<Longrightarrow> wr_value w = bindE (TransactionInfo_serialize t []) (\<lambda>bs. Inr (Some bs))"
  "status_write a w = Some st \<Longrightarrow> wr_value w = bindE (TransactionStatus_serialize st []) (\<lambda>bs. Inr (Some bs))"
  "token_write a w = Some tk \<Longrightarrow> wr_value w = (case tk of None \<Rightarrow> Inr None
     | Some tk \<Rightarrow> bindE (Token_serialize tk []) (\<lambda>bs. Inr (Some bs)))"
  "main_block_write w = Some m \<Longrightarrow> wr_value w = bindE (MainBlockInfo_serialize m) (\<lambda>bs. Inr (Some bs))"
  by (cases w; auto split: if_splits)+


text \<open>What a look-up returns for a record written in the batch: the stored bytes, read back.\<close>

definition reread :: "bytes result \<Rightarrow> (bytes \<Rightarrow> 'v result) \<Rightarrow> 'v result" where
  "reread stored deserialize = bindE stored deserialize"

lemma batch_reread:
  assumes "leveldb_ok L contents" and "batch_writes ws Batch_new = Inr b" and "addBatch L b d = (d', Inr ())"
    and "p \<in> set all_prefixes"
    and key: "\<And>w. wr_prefix w = p \<and> wr_rest w = r \<longleftrightarrow> sel w \<noteq> None"
    and val: "\<And>w v. sel w = Some v \<Longrightarrow> wr_value w = bindE (ser v) (\<lambda>bs. Inr (Some bs))"
  shows "findOneValueWithoutCheckValue L des (p @ r) d' =
     (case last_write sel ws of
        None \<Rightarrow> findOneValueWithoutCheckValue L des (p @ r) d
      | Some v \<Rightarrow> reread (ser v) des)"
proof (cases "last_write sel ws")
  case None
  then show ?thesis
    using batch_contents(1) [OF assms] by (simp add: findValue_contents [OF assms(1)])
next
  case (Some v)
  have "bindE (ser v) (\<lambda>bs. Inr (Some bs)) = Inr (contents d' (p @ r))"
    by (rule batch_contents(2) [OF assms Some])
  then obtain bs where "ser v = Inr bs" "contents d' (p @ r) = Some bs"
    by (cases "ser v") auto
  then show ?thesis
    using Some by (simp add: findValue_contents [OF assms(1)] reread_def)
qed

lemma TransactionInfo_serialize_nonempty: "TransactionInfo_serialize t [] \<noteq> Inr []"
  by (auto simp: TransactionInfo_serialize_def result_simps Let_def)

lemma batch_reread_opt:
  assumes "leveldb_ok L contents" and "batch_writes ws Batch_new = Inr b" and "addBatch L b d = (d', Inr ())"
    and "p \<in> set all_prefixes"
    and key: "\<And>w. wr_prefix w = p \<and> wr_rest w = r \<longleftrightarrow> sel w \<noteq> None"
    and val: "\<And>w v. sel w = Some v \<Longrightarrow> wr_value w = bindE (ser v) (\<lambda>bs. Inr (Some bs))"
    and ne: "\<And>v. ser v \<noteq> Inr []"
  shows "findOneValueWithoutCheckOpt L des (p @ r) d' =
     (case last_write sel ws of
        None \<Rightarrow> findOneValueWithoutCheckOpt L des (p @ r) d
      | Some v \<Rightarrow> bindE (reread (ser v) des) (\<lambda>v. Inr (Some v)))"
proof (cases "last_write sel ws")
  case None
  then show ?thesis
    using batch_contents(1) [OF assms(1-6)] by (simp add: findOpt_contents [OF assms(1)])
next
  case (Some v)
  have "bindE (ser v) (\<lambda>bs. Inr (Some bs)) = Inr (contents d' (p @ r))"
    by (rule batch_contents(2) [OF assms(1-6) Some])
  then obtain bs where "ser v = Inr bs" "contents d' (p @ r) = Some bs"
    by (cases "ser v") auto
  then show ?thesis
    using Some ne [of v] by (simp add: findOpt_contents [OF assms(1)] reread_def)
qed


lemma TransactionStatus_serialize_nonempty: "TransactionStatus_serialize t [] \<noteq> Inr []"
  using status_serialize_append [of "ts_status t" "_ @ serializeString (ts_transaction t) @ _"]
  by (auto simp: TransactionStatus_serialize_def serializeVariant_def Let_def result_simps
      status_serialize_append [of "ts_status t" "_ # _"] status_serialize_append [of "ts_status t" "_ @ _"])

lemma makeKey_named: "p \<noteq> [] \<Longrightarrow> n \<noteq> [] \<Longrightarrow> makeKey [Str p, Str n] = Inr (p @ n)"
  by (simp add: makeKey_Inr)

lemma prefixes_neq_Nil [simp]:
  "BALANCE_PREFIX \<noteq> []" "TRANSACTION_PREFIX \<noteq> []" "TRANSACTION_STATUS_PREFIX \<noteq> []" "TOKEN_PREFIX \<noteq> []"
  "ADDRESS_PREFIX \<noteq> []" "DELEGATE_PREFIX \<noteq> []" "BLOCKS_TIMELINE_PREFIX \<noteq> []" "NODES_TESTED_STATS_ALL_DAY \<noteq> []"
  by (simp_all add: prefix_defs)



definition sample_main :: MainBlockInfo where
  "sample_main = \<lparr>mb_blockNumber = 5, mb_blockHash = [7], mb_countVal = 5\<rparr>"


subsection \<open>Range scans\<close>

text \<open>Big-endian counters sort as numbers.\<close>

lemma append_less_same_length:
  "length xs = length ys \<Longrightarrow>
     xs @ xs' < ys @ ys' \<longleftrightarrow> xs < ys \<or> (xs = ys \<and> (xs' :: 'a::linorder list) < ys')"
  by (induction xs ys rule: list_induct2) auto

lemma be_bytes_less: "v < w \<Longrightarrow> w < 256 ^ n \<Longrightarrow> be_bytes n v < be_bytes n w"
proof (induction n arbitrary: v w)
  case (Suc n)
  have low: "(of_nat (v mod 256) :: byte) < of_nat (w mod 256)" if "v div 256 = w div 256"
  proof -
    have "v mod 256 < w mod 256"
      using that Suc.prems(1) by (metis div_mult_mod_eq nat_add_left_cancel_less)
    then show ?thesis
      by (simp add: word_less_nat_alt unat_of_nat)
  qed
  have le: "v div 256 \<le> w div 256"
    using Suc.prems(1) by (simp add: div_le_mono)
  have bound: "w div 256 < 256 ^ n"
    using Suc.prems(2) by (simp add: less_mult_imp_div_less mult.commute)
  show ?case
    using Suc.IH [of "v div 256" "w div 256"] low le bound
    by (cases "v div 256 = w div 256") (auto simp: append_less_same_length)
qed simp

lemma serializeInt_less: "v < w \<Longrightarrow> serializeInt (v :: u64) < serializeInt w"
  unfolding serializeInt_def toBinaryStringBigEndian_eq
  using unat_u64_less [of w] by (intro be_bytes_less) (simp_all add: word_less_nat_alt sizeof_def)

lemma serializeInt_inject: "serializeInt (v :: u64) = serializeInt w \<longleftrightarrow> v = w"
  using serializeInt_less [of v w] serializeInt_less [of w v] by (metis less_irrefl linorder_less_linear)

fun mapE :: "('a \<Rightarrow> 'b result) \<Rightarrow> 'a list \<Rightarrow> 'b list result" where
  "mapE f [] = Inr []"
| "mapE f (x # xs) = bindE (f x) (\<lambda>y. bindE (mapE f xs) (\<lambda>ys. Inr (y # ys)))"

lemma mapE_Inr: "(\<And>x. x \<in> set xs \<Longrightarrow> f x = Inr (g x)) \<Longrightarrow> mapE f xs = Inr (map g xs)"
  by (induction xs) auto

lemma scan_range_window:
  assumes "unat index + length (takeWhile (\<lambda>e. fst e < keyTo) its) < 2 ^ 64"
    and "unat from + unat count < 2 ^ 64"
  shows "scan_range func keyTo from count index result its =
     bindE (mapE func (let ys = takeWhile (\<lambda>e. fst e < keyTo) its
             in if count = 0 then drop (unat from - unat index) ys
                else drop (unat from - unat index) (take (unat from + unat count - unat index) ys)))
       (\<lambda>rs. Inr (result @ rs))"
  using assms
proof (induction its arbitrary: index result)
  case Nil
  then show ?case by simp
next
  case (Cons it its)
  show ?case
  proof (cases "fst it < keyTo")
    case True
    have nxt: "unat (index + 1) = unat index + 1"
      using Cons.prems(1) True unat_add_u64 [of index 1] by simp
    have sum: "unat (from + count) = unat from + unat count"
      using Cons.prems(2) by (simp add: unat_word_ariths)
    have IH: "scan_range func keyTo from count (index + 1) r its =
       bindE (mapE func (let ys = takeWhile (\<lambda>e. fst e < keyTo) its
             in if count = 0 then drop (unat from - (unat index + 1)) ys
                else drop (unat from - (unat index + 1)) (take (unat from + unat count - (unat index + 1)) ys)))
       (\<lambda>rs. Inr (r @ rs))" for r
      by (rule Cons.IH [of "index + 1" r, unfolded nxt]) (use Cons.prems True in simp_all)
    consider (stop) "count \<noteq> 0" "unat from + unat count \<le> unat index"
      | (take) "unat from \<le> unat index" "count = 0 \<or> unat index < unat from + unat count"
      | (skip) "unat index < unat from"
      by linarith
    then show ?thesis
    proof cases
      case stop
      then show ?thesis using True by (simp add: word_le_nat_alt sum)
    next
      case take
      then have "\<not> (count \<noteq> 0 \<and> from + count \<le> index)" "from \<le> index"
        by (auto simp: word_le_nat_alt sum)
      moreover have "count = 0 \<or> unat from + unat count - unat index = Suc (unat from + unat count - (unat index + 1))"
        "unat from - unat index = 0" "unat from - (unat index + 1) = 0"
        using take by linarith+
      ultimately show ?thesis
        using True take by (auto simp: IH bindE_assoc Let_def)
    next
      case skip
      then have "\<not> (count \<noteq> 0 \<and> from + count \<le> index)" "\<not> from \<le> index"
        by (auto simp: word_le_nat_alt sum)
      moreover have "unat from - unat index = Suc (unat from - (unat index + 1))"
        "unat from + unat count - unat index = Suc (unat from + unat count - (unat index + 1))"
        using skip by linarith+
      ultimately show ?thesis
        using True by (auto simp: IH Let_def)
    qed
  qed simp
qed

lemma findKeyInternal_window:
  assumes "takeWhile (\<lambda>e. fst e < keyTo) (db_Seek L keyFrom d) = es" and "length es < 2 ^ 64"
    and "unat from + unat count < 2 ^ 64"
  shows "findKeyInternal L keyFrom keyTo from count func d =
     mapE func (if count = 0 then drop (unat from) es else take (unat count) (drop (unat from) es))"
proof -
  have "bindE m (\<lambda>rs. Inr rs) = m" for m :: "'b list result"
    by (cases m) simp_all
  then show ?thesis
    using scan_range_window [of 0 keyTo "db_Seek L keyFrom d" "from" count func "[]"] assms
    by (simp add: findKeyInternal_def Let_def take_drop add.commute)
qed

lemma takeWhile_ordered:
  assumes "ordered es"
  shows "takeWhile (\<lambda>e. fst e < k) es = filter (\<lambda>e. fst e < k) es"
  using assms
proof (induction es)
  case (Cons e es)
  have "fst e < k \<or> filter (\<lambda>e. fst e < k) es = []"
    using Cons.prems by (cases e) (fastforce simp: ordered_Cons filter_empty_conv)
  then show ?case
    using Cons by (cases e) (auto simp: ordered_Cons)
qed simp

lemma seek_prefix:
  assumes ok: "leveldb_ok L contents" and c: "c \<noteq> - 1" and es: "ordered es"
    and mem: "\<And>k v. (k, v) \<in> set es \<longleftrightarrow> (\<exists>s. k = p @ c # s) \<and> contents d k = Some v"
  shows "takeWhile (\<lambda>e. fst e < p @ [c + 1]) (db_Seek L (p @ [c]) d) = es"
proof -
  let ?es = "filter (\<lambda>e. fst e < p @ [c + 1]) (db_Seek L (p @ [c]) d)"
  have ord: "ordered ?es"
    using leveldb_okD(4) [OF ok, of "p @ [c]" d] by (simp add: ordered_def sorted_wrt_map sorted_wrt_filter)
  have "set ?es = set es"
  proof (rule set_eqI)
    fix e
    show "e \<in> set ?es \<longleftrightarrow> e \<in> set es"
      using byte_prefix_range [OF c, of p "fst e"] mem [of "fst e" "snd e"]
        leveldb_okD(5) [OF ok, of "fst e" "snd e" "p @ [c]" d] by auto
  qed
  then have "map_of ?es = map_of es"
    using ord es by (intro map_of_eqI) (auto simp: ordered_distinct)
  then show ?thesis
    using ordered_map_unique [OF ord es] by (simp add: takeWhile_ordered leveldb_okD(4) [OF ok])
qed

end
