(* ===== verification/DatabaseScans.thy ===== *)
theory DatabaseScans
  imports Database
begin

section \<open>Range scans of the database\<close>

text \<open>
  The look-ups that walk over a range of keys: the log of the transactions of an address, the
  last day of node tests, the delegations of a pair that have not been taken back, and the stored
  timeline. All of them are entries under a common beginning of the key, ordered by a counter.
  The main worker counts down (\<open>Counter<false>\<close>), so that later entries come first.
\<close>

subsection \<open>Entries with a counter\<close>

definition holds_entries :: "(bytes \<rightharpoonup> bytes) \<Rightarrow> bytes \<Rightarrow> (u64 \<times> bytes) list \<Rightarrow> bool" where
  "holds_entries m key es \<longleftrightarrow> sorted_wrt (<) (map fst es) \<and>
     (\<forall>s v. m (key @ s) = Some v \<longleftrightarrow> (\<exists>n. s = serializeInt n \<and> (n, v) \<in> set es))"

definition entry_keys :: "bytes \<Rightarrow> (u64 \<times> bytes) list \<Rightarrow> (bytes \<times> bytes) list" where
  "entry_keys key es = map (\<lambda>(n, v). (key @ serializeInt n, v)) es"

lemma ordered_entry_keys: "sorted_wrt (<) (map fst es) \<Longrightarrow> ordered (entry_keys key es)"
  unfolding ordered_def entry_keys_def sorted_wrt_map
  by (erule sorted_wrt_mono_rel [rotated]) (auto simp: serializeInt_less)

lemma seek_entries:
  assumes ok: "leveldb_ok L contents" and c: "c \<noteq> - 1" and es: "holds_entries (contents d) (p @ [c]) es"
  shows "takeWhile (\<lambda>e. fst e < p @ [c + 1]) (db_Seek L (p @ [c]) d) = entry_keys (p @ [c]) es"
proof (rule seek_prefix [OF ok c])
  show "ordered (entry_keys (p @ [c]) es)"
    using es by (intro ordered_entry_keys) (simp add: holds_entries_def)
  show "(k, v) \<in> set (entry_keys (p @ [c]) es) \<longleftrightarrow> (\<exists>s. k = p @ c # s) \<and> contents d k = Some v" for k v
  proof -
    have "contents d (p @ c # s) = Some v \<longleftrightarrow> (\<exists>n. s = serializeInt n \<and> (n, v) \<in> set es)" for s
      using es unfolding holds_entries_def by (metis append.assoc append_Cons append_Nil)
    then show ?thesis
      by (auto simp: entry_keys_def)
  qed
qed

lemma holds_entries_other:
  assumes "holds_entries m key es" and "\<And>s. k \<noteq> key @ s"
  shows "holds_entries (write_effect (wr_op k v) m) key es"
proof -
  have "write_effect (wr_op k v) m (key @ s) = m (key @ s)" for s
    using assms(2) [of s] by (auto simp: write_effect_wr_op)
  then show ?thesis
    using assms(1) by (simp add: holds_entries_def)
qed

lemma holds_entries_put:
  assumes es: "holds_entries m key es" and n: "\<And>e. e \<in> set es \<Longrightarrow> n < fst e"
  shows "holds_entries (m(key @ serializeInt n \<mapsto> v)) key ((n, v) # es)"
  unfolding holds_entries_def
proof (intro conjI allI)
  show "sorted_wrt (<) (map fst ((n, v) # es))"
    using es n by (auto simp: holds_entries_def)
  fix s w
  have "m (key @ s) = Some w \<longleftrightarrow> (\<exists>n. s = serializeInt n \<and> (n, w) \<in> set es)"
    using es by (simp add: holds_entries_def)
  moreover have "(n, w) \<notin> set es"
    using n by fastforce
  ultimately show "(m(key @ serializeInt n \<mapsto> v)) (key @ s) = Some w \<longleftrightarrow>
      (\<exists>n'. s = serializeInt n' \<and> (n', w) \<in> set ((n, v) # es))"
    by (auto simp: serializeInt_inject)
qed

lemma holds_entries_remove:
  assumes es: "holds_entries m key es"
  shows "holds_entries (m(key @ serializeInt n := None)) key (filter (\<lambda>e. fst e \<noteq> n) es)"
  unfolding holds_entries_def
proof (intro conjI allI)
  show "sorted_wrt (<) (map fst (filter (\<lambda>e. fst e \<noteq> n) es))"
    using es by (simp add: holds_entries_def sorted_wrt_map sorted_wrt_filter)
  fix s w
  have "m (key @ s) = Some w \<longleftrightarrow> (\<exists>n. s = serializeInt n \<and> (n, w) \<in> set es)"
    using es by (simp add: holds_entries_def)
  then show "(m(key @ serializeInt n := None)) (key @ s) = Some w \<longleftrightarrow>
      (\<exists>n'. s = serializeInt n' \<and> (n', w) \<in> set (filter (\<lambda>e. fst e \<noteq> n) es))"
    by (auto simp: serializeInt_inject)
qed

lemma holds_entriesD: "holds_entries m key es \<Longrightarrow> (n, v) \<in> set es \<Longrightarrow> m (key @ serializeInt n) = Some v"
  unfolding holds_entries_def by blast

lemma holds_entries_unique:
  assumes "holds_entries m key es" "(n, v) \<in> set es" "(n, w) \<in> set es"
  shows "v = w"
proof -
  show ?thesis
    using holds_entriesD [OF assms(1,2)] holds_entriesD [OF assms(1,3)] by simp
qed

lemma batch_writes_ops:
  assumes "batch_writes ws b = Inr b'"
  shows "\<exists>ops. wb_batch b' = wb_batch b @ ops \<and>
     list_all2 (\<lambda>w op. \<exists>v. wr_value w = Inr v \<and> op = wr_op (wr_prefix w @ wr_rest w) v) ws ops"
  using assms
proof (induction ws arbitrary: b)
  case Nil
  then show ?case by auto
next
  case (Cons w ws)
  obtain b1 where b1: "batch_write w b = Inr b1" "batch_writes ws b1 = Inr b'"
    using Cons.prems by (auto simp: bindE_Inr_iff)
  obtain v where v: "wr_value w = Inr v" "wb_batch b1 = wb_batch b @ [wr_op (wr_prefix w @ wr_rest w) v]"
    using batch_write_op [OF b1(1)] by blast
  obtain ops where "wb_batch b' = wb_batch b1 @ ops"
    "list_all2 (\<lambda>w op. \<exists>v. wr_value w = Inr v \<and> op = wr_op (wr_prefix w @ wr_rest w) v) ws ops"
    using Cons.IH [OF b1(2)] by blast
  then show ?case
    using v by (intro exI [of _ "wr_op (wr_prefix w @ wr_rest w) v # ops"]) auto
qed

lemma other_prefix:
  assumes "wr_prefix w \<noteq> p" "p \<in> set all_prefixes"
  shows "wr_prefix w @ wr_rest w \<noteq> p @ s"
  using prefix_keys_inject [OF wr_prefix_known assms(2)] assms(1) by blast

subsection \<open>The log of an address\<close>

definition address_key :: "bytes \<Rightarrow> bytes" where
  "address_key a = ADDRESS_PREFIX @ a @ [ADDRESS_POSTFIX]"

definition entry_bytes :: "AddressInfo \<Rightarrow> bytes" where
  "entry_bytes x = (case AddressInfo_serialize x [] of Inl e \<Rightarrow> [] | Inr bs \<Rightarrow> bs)"

definition holds_log :: "(bytes \<rightharpoonup> bytes) \<Rightarrow> bytes \<Rightarrow> (u64 \<times> AddressInfo) list \<Rightarrow> bool" where
  "holds_log m a xs \<longleftrightarrow> holds_entries m (address_key a) (map (\<lambda>(n, x). (n, entry_bytes x)) xs) \<and>
     (\<forall>(n, x) \<in> set xs. \<exists>bs. AddressInfo_serialize x [] = Inr bs \<and> length bs < 2 ^ 64)"

lemma AddressInfo_read_back:
  "AddressInfo_serialize x [] = Inr bs \<Longrightarrow> length bs < 2 ^ 64 \<Longrightarrow> AddressInfo_deserialize (entry_bytes x) = Inr x"
  using decodes_all_whole [OF decodes_AddressInfo] by (simp add: AddressInfo_deserialize_def entry_bytes_def)

lemma findAddress_log:
  assumes ok: "leveldb_ok L contents" and log: "holds_log (contents d) a xs"
    and n: "length xs < 2 ^ 64" and w: "unat from + unat count < 2 ^ 64" and a: "a \<noteq> []"
  shows "findAddress L a from count d = Inr (map snd
     (if count = 0 then drop (unat from) xs else take (unat count) (drop (unat from) xs)))"
proof -
  let ?es = "map (\<lambda>(n, x). (n, entry_bytes x)) xs"
  have "holds_entries (contents d) ((ADDRESS_PREFIX @ a) @ [ADDRESS_POSTFIX]) ?es"
    using log by (simp add: holds_log_def address_key_def)
  note es = seek_entries [OF ok _ this]
  have win: "findKeyInternal L ((ADDRESS_PREFIX @ a) @ [ADDRESS_POSTFIX]) ((ADDRESS_PREFIX @ a) @ [ADDRESS_POSTFIX + 1]) from count f d =
      mapE f (if count = 0 then drop (unat from) (entry_keys ((ADDRESS_PREFIX @ a) @ [ADDRESS_POSTFIX]) ?es)
        else take (unat count) (drop (unat from) (entry_keys ((ADDRESS_PREFIX @ a) @ [ADDRESS_POSTFIX]) ?es)))"
    for f :: "bytes \<times> bytes \<Rightarrow> AddressInfo result"
    by (rule findKeyInternal_window [OF es _ w]) (use n in \<open>simp_all add: postfix_defs entry_keys_def\<close>)
  have dec: "mapE (\<lambda>iter. AddressInfo_deserialize (snd iter)) (map (\<lambda>(n, x). (k n, entry_bytes x)) ys) = Inr (map snd ys)"
    if "set ys \<subseteq> set xs" for ys and k :: "u64 \<Rightarrow> bytes"
  proof -
    have "mapE (\<lambda>iter. AddressInfo_deserialize (snd iter)) (map (\<lambda>(n, x). (k n, entry_bytes x)) ys) =
        mapE (\<lambda>e. AddressInfo_deserialize (entry_bytes (snd e))) ys"
      by (induction ys) auto
    then show ?thesis
      using log that AddressInfo_read_back unfolding holds_log_def by (fastforce intro!: mapE_Inr)
  qed
  have keys: "entry_keys key ?es = map (\<lambda>(n, x). (key @ serializeInt n, entry_bytes x)) xs" for key
    by (simp add: entry_keys_def split_def)
  have key: "makeKey [Str ADDRESS_PREFIX, Str a] = Inr (ADDRESS_PREFIX @ a)"
    using a by (simp add: makeKey_named)
  have sub: "set (drop m xs) \<subseteq> set xs" "set (take k (drop m xs)) \<subseteq> set xs" for k m
    using set_drop_subset [of m xs] set_take_subset [of k "drop m xs"] by blast+
  show ?thesis
    unfolding findAddress_def findKeyValue_def key bindE.simps win keys drop_map take_map
    using dec [OF sub(1)] dec [OF sub(2)] by simp
qed

text \<open>The log after the writes of a batch, provided every new entry has a smaller counter than the
  entries so far and all addresses have the same length.\<close>

fun log_after :: "bytes \<Rightarrow> (u64 \<times> AddressInfo) list \<Rightarrow> db_write list \<Rightarrow> (u64 \<times> AddressInfo) list option" where
  "log_after a xs [] = Some xs"
| "log_after a xs (w # ws) =
     (case w of
        WAddress a' x c \<Rightarrow>
          if length a' \<noteq> length a then None
          else if a' \<noteq> a then log_after a xs ws
          else if (\<forall>e \<in> set xs. c < fst e) then log_after a ((c, x) # xs) ws
          else None
      | _ \<Rightarrow> log_after a xs ws)"

lemma log_after_WAddress:
  "log_after a xs (WAddress a' x c # ws) =
     (if length a' \<noteq> length a then None
      else if a' \<noteq> a then log_after a xs ws
      else if (\<forall>e \<in> set xs. c < fst e) then log_after a ((c, x) # xs) ws else None)"
  by simp

lemma log_after_subset: "log_after a xs ws = Some ys \<Longrightarrow> set xs \<subseteq> set ys"
proof (induction ws arbitrary: xs)
  case (Cons w ws)
  then show ?case
    by (cases w) (fastforce split: if_splits)+
qed simp

lemma log_grows:
  assumes "list_all2 (\<lambda>w op. \<exists>v. wr_value w = Inr v \<and> op = wr_op (wr_prefix w @ wr_rest w) v) ws ops"
    and "log_after a xs ws = Some ys" and "holds_log m a xs"
    and "\<forall>(n, y) \<in> set ys. length (entry_bytes y) < 2 ^ 64"
  shows "holds_log (fold write_effect ops m) a ys"
  using assms
proof (induction ws ops arbitrary: xs m rule: list_all2_induct)
  case Nil
  then show ?case by simp
next
  case (Cons w ws op ops)
  obtain v where v: "wr_value w = Inr v" "op = wr_op (wr_prefix w @ wr_rest w) v"
    using Cons.hyps(1) by blast
  have other: "holds_log (write_effect op m) a xs" if "\<And>s. wr_prefix w @ wr_rest w \<noteq> address_key a @ s"
    using holds_entries_other that Cons.prems(2) unfolding holds_log_def v(2) by blast
  show ?case
  proof (cases "\<exists>a' x c. w = WAddress a' x c")
    case False
    then have "log_after a xs ws = Some ys"
      using Cons.prems(1) by (cases w) auto
    moreover have "wr_prefix w \<noteq> ADDRESS_PREFIX"
      using False by (cases w) (simp_all add: prefix_defs)
    then have "wr_prefix w @ wr_rest w \<noteq> address_key a @ s" for s
      using other_prefix [of w ADDRESS_PREFIX] by (simp add: address_key_def all_prefixes_def)
    ultimately show ?thesis
      using Cons.IH other Cons.prems(3) by simp
  next
    case True
    then obtain a' x c where w: "w = WAddress a' x c" by blast
    obtain bs where bs: "AddressInfo_serialize x [] = Inr bs" "v = Some bs"
      using v(1) by (auto simp: w bindE_Inr_iff)
    have len: "length a' = length a"
      using Cons.prems(1) unfolding w log_after_WAddress by (simp split: if_splits)
    show ?thesis
    proof (cases "a' = a")
      case False
      then have "log_after a xs ws = Some ys"
        using Cons.prems(1) len unfolding w log_after_WAddress by simp
      then show ?thesis
        using Cons.IH other False len Cons.prems(3) by (simp add: w address_key_def)
    next
      case True
      then have new: "log_after a ((c, x) # xs) ws = Some ys" "\<forall>e \<in> set xs. c < fst e"
        using Cons.prems(1) unfolding w log_after_WAddress by (simp_all split: if_splits)
      have "(c, x) \<in> set ys"
        using log_after_subset [OF new(1)] by simp
      then have "length (entry_bytes x) < 2 ^ 64"
        using Cons.prems(3) by blast
      then have "holds_log (write_effect op m) a ((c, x) # xs)"
        using holds_entries_put [of m "address_key a" "map (\<lambda>(n, x). (n, entry_bytes x)) xs" c bs] new(2) Cons.prems(2) bs
        by (fastforce simp: holds_log_def v(2) w True wr_op_def address_key_def entry_bytes_def)
      then show ?thesis
        using Cons.IH [OF new(1)] Cons.prems(3) by simp
    qed
  qed
qed


text \<open>C20: The history of an address is a log that can be read page by page. When the database holds a
  log for an address and a committed batch, among its other writes, adds entries whose counters
  count down, \<open>findAddress\<close> returns the newest entries first, those of the batch before those of the
  old log, from the requested position on and at most the requested number of them (all of them for
  the count 0), whatever else the batch and the database hold.\<close>

theorem address_history_pages:
  assumes "leveldb_ok L contents" and "holds_log (contents d) a xs" and "a \<noteq> []"
    and "batch_writes ws Batch_new = Inr b" and "addBatch L b d = (d', Inr ())"
    and "log_after a xs ws = Some ys" and "\<forall>(n, y) \<in> set ys. length (entry_bytes y) < 2 ^ 64"
    and "length ys < 2 ^ 64" and "unat from + unat count < 2 ^ 64"
  shows "findAddress L a from count d' = Inr (map snd
     (if count = 0 then drop (unat from) ys else take (unat count) (drop (unat from) ys)))"
proof (rule findAddress_log [OF assms(1) _ assms(8,9,3)])
  obtain ops where ops: "wb_batch b = wb_batch Batch_new @ ops"
    "list_all2 (\<lambda>w op. \<exists>v. wr_value w = Inr v \<and> op = wr_op (wr_prefix w @ wr_rest w) v) ws ops"
    using batch_writes_ops [OF assms(4)] by blast
  have "contents d' = fold write_effect (wb_batch b) (contents d)"
    by (rule addBatch_contents [OF assms(1,5)])
  then show "holds_log (contents d') a ys"
    using log_grows [OF ops(2) assms(6,2,7)] ops(1) by (simp add: Batch_new_def)
qed

definition sample_entry :: "u64 \<Rightarrow> AddressInfo" where
  "sample_entry n = AddressInfo_make n [1] 7 n"

theorem address_history_pages_witness:
  "\<exists>b d'. batch_writes [WAddress [9] (sample_entry 4) 8, WAddress [7] (sample_entry 1) 7, WAddress [9] (sample_entry 5) 6] Batch_new = Inr b \<and>
     addBatch sample_leveldb b [] = (d', Inr ()) \<and>
     findAddress sample_leveldb [9] 0 1 d' = Inr [sample_entry 5]"
proof -
  let ?ws = "[WAddress [9] (sample_entry 4) 8, WAddress [7] (sample_entry 1) 7, WAddress [9] (sample_entry 5) 6]"
  have "\<exists>b. batch_writes ?ws Batch_new = Inr b"
    by (simp add: batch_defs makeKey_def addKey_def sample_entry_def AddressInfo_make_def AddressInfo_serialize_def
        FilePosition_serialize_buf_def)
  then obtain b where b: "batch_writes ?ws Batch_new = Inr b" by blast
  have commit: "addBatch sample_leveldb b [] = (fold store_apply (wb_batch b) [], Inr ())"
    by (simp add: addBatch_def sample_leveldb_def)
  have empty: "holds_log (map_of []) [9] []"
    by (simp add: holds_log_def holds_entries_def)
  have log: "log_after [9] [] ?ws = Some [(6, sample_entry 5), (8, sample_entry 4)]"
    by simp
  have small: "\<forall>(n, y) \<in> set [(6 :: u64, sample_entry 5), (8, sample_entry 4)]. length (entry_bytes y) < 2 ^ 64"
    by (simp add: entry_bytes_def AddressInfo_serialize_def FilePosition_serialize_buf_def sample_entry_def AddressInfo_make_def)
  from address_history_pages [OF sample_leveldb_ok empty _ b commit log small, of 0 1] b commit show ?thesis
    by simp
qed

subsection \<open>The first entry that is not excluded\<close>

lemma first_of_find:
  "first_of key excluded es =
     (case find (\<lambda>e. fst e \<notin> set excluded) (takeWhile (\<lambda>e. beginWith (fst e) key) es) of
        None \<Rightarrow> ([], []) | Some e \<Rightarrow> e)"
  by (induction es) auto

lemma beginWith_iff: "beginWith k p \<longleftrightarrow> (\<exists>s. k = p @ s)"
  unfolding beginWith_def by (metis append_eq_conv_conj append_take_drop_id length_append le_add1)

lemma findFirstOf_entries:
  assumes ok: "leveldb_ok L contents" and c: "c \<noteq> - 1" and es: "holds_entries (contents d) (p @ [c]) es"
  shows "findFirstOf L (p @ [c]) excluded d =
     (case find (\<lambda>(n, v). (p @ [c]) @ serializeInt n \<notin> set excluded) es of
        None \<Rightarrow> ([], []) | Some (n, v) \<Rightarrow> ((p @ [c]) @ serializeInt n, v))"
proof -
  have "takeWhile (\<lambda>e. beginWith (fst e) (p @ [c])) (db_Seek L (p @ [c]) d) =
      takeWhile (\<lambda>e. fst e < p @ [c + 1]) (db_Seek L (p @ [c]) d)"
  proof (rule takeWhile_cong [OF refl])
    fix e assume "e \<in> set (db_Seek L (p @ [c]) d)"
    then have "p @ [c] \<le> fst e"
      using leveldb_okD(5) [OF ok, of "fst e" "snd e" "p @ [c]" d] by simp
    then show "beginWith (fst e) (p @ [c]) = (fst e < p @ [c + 1])"
      using byte_prefix_range [OF c, of p "fst e"] by (simp add: beginWith_iff)
  qed
  then have list: "takeWhile (\<lambda>e. beginWith (fst e) (p @ [c])) (db_Seek L (p @ [c]) d) = entry_keys (p @ [c]) es"
    using seek_entries [OF ok c es] by simp
  have "find (\<lambda>e. fst e \<notin> set excluded) (entry_keys key es) =
      map_option (\<lambda>(n, v). (key @ serializeInt n, v)) (find (\<lambda>(n, v). key @ serializeInt n \<notin> set excluded) es)" for key
    by (induction es) (auto simp: entry_keys_def)
  then show ?thesis
    unfolding findFirstOf_def first_of_find list by (simp split: option.splits prod.splits)
qed


subsection \<open>The last day of node tests\<close>

text \<open>The node tests of the last day. The sets of tested nodes are stored under the negated
  number of their day, so that the first entry of the range is the latest one: when no set has been
  stored for day 0, looking up the last day is looking up the greatest day that has been stored.\<close>

theorem last_day_is_greatest:
  assumes "leveldb_ok L contents"
    and "holds_entries (contents d) (NODES_TESTED_STATS_ALL_DAY @ [NODES_TESTED_STATS_ALL_DAY_POSTFIX]) es"
    and "es \<noteq> []" and "0 \<notin> fst ` set es"
  shows "findAllTestedNodesForLastDay L d = findAllTestedNodesForDay L (Max ((\<lambda>e. - fst e) ` set es)) d"
proof -
  let ?p = "NODES_TESTED_STATS_ALL_DAY" and ?c = "NODES_TESTED_STATS_ALL_DAY_POSTFIX"
  obtain n v es' where es: "es = (n, v) # es'"
    using assms(3) by (metis list.exhaust surj_pair)
  have neg: "- m \<le> - n" if "n \<le> m" "n \<noteq> 0" for m n :: u64
    using that unat_sub_if_size [of 0 m] unat_sub_if_size [of 0 n]
    by (auto simp: word_le_nat_alt word_size unat_eq_0 split: if_splits)
  have "Max ((\<lambda>e. - fst e) ` set es) = - n"
  proof (rule Max_eqI)
    show "- n \<in> (\<lambda>e. - fst e) ` set es" by (force simp: es)
    fix day assume "day \<in> (\<lambda>e. - fst e) ` set es"
    then obtain e where e: "e \<in> set es" "day = - fst e" by blast
    have "n \<le> fst e"
      using assms(2) e(1) by (auto simp: holds_entries_def es)
    moreover have "n \<noteq> 0"
      using assms(4) by (auto simp: es)
    ultimately show "day \<le> - n"
      unfolding e(2) by (rule neg)
  qed simp
  moreover have "contents d ((?p @ [?c]) @ serializeInt n) = Some v"
    by (rule holds_entriesD [OF assms(2)]) (simp add: es)
  moreover have "findFirstOf L (?p @ [?c]) [] d = ((?p @ [?c]) @ serializeInt n, v)"
    using findFirstOf_entries [OF assms(1) _ assms(2)] by (simp add: es postfix_defs)
  ultimately show ?thesis
    by (simp add: findAllTestedNodesForLastDay_def findAllTestedNodesForDay_def makeKey_def findValue_contents [OF assms(1)]
        NODE_STAT_COUNT_POSTFIX_def NODES_TESTED_STATS_ALL_DAY_POSTFIX_def)
qed

definition sample_days :: sample_store where
  "sample_days = AList.update ((NODES_TESTED_STATS_ALL_DAY @ [NODES_TESTED_STATS_ALL_DAY_POSTFIX]) @ serializeInt (- 5 :: u64)) [2]
     (AList.update ((NODES_TESTED_STATS_ALL_DAY @ [NODES_TESTED_STATS_ALL_DAY_POSTFIX]) @ serializeInt (- 3 :: u64)) [1] [])"

theorem last_day_is_greatest_witness:
  "findAllTestedNodesForLastDay sample_leveldb sample_days = findAllTestedNodesForDay sample_leveldb 5 sample_days"
proof -
  let ?key = "NODES_TESTED_STATS_ALL_DAY @ [NODES_TESTED_STATS_ALL_DAY_POSTFIX]"
  have "holds_entries (map_of []) ?key []"
    by (simp add: holds_entries_def)
  then have "holds_entries ((map_of [])(?key @ serializeInt (- 3 :: u64) \<mapsto> [1])) ?key [(- 3, [1])]"
    by (rule holds_entries_put) simp
  then have "holds_entries (((map_of [])(?key @ serializeInt (- 3 :: u64) \<mapsto> [1]))(?key @ serializeInt (- 5 :: u64) \<mapsto> [2]))
      ?key [(- 5, [2]), (- 3, [1])]"
    by (rule holds_entries_put) simp
  then have "holds_entries (map_of sample_days) ?key [(- 5, [2]), (- 3, [1])]"
    unfolding sample_days_def map_of_update .
  from last_day_is_greatest [OF sample_leveldb_ok this] show ?thesis
    by (simp add: max_def)
qed

subsection \<open>The stored timeline\<close>

definition timeline_split :: "bytes \<times> byte" where
  "timeline_split = (lit ''timeline'', of_char (CHR ''_''))"

lemma timeline_prefix:
  "BLOCKS_TIMELINE_PREFIX = fst timeline_split @ [snd timeline_split]"
  "prefix_end BLOCKS_TIMELINE_PREFIX = fst timeline_split @ [snd timeline_split + 1]"
  "snd timeline_split \<noteq> - 1"
  by (simp_all add: timeline_split_def prefix_defs prefix_end_def)

lemma timeline_entries_keys: "timeline_entries (entry_keys BLOCKS_TIMELINE_PREFIX es) = Inr es"
proof (induction es)
  case (Cons e es)
  obtain n v where e: "e = (n, v)" by force
  have "deserializeInt (serializeInt n) 0 = Inr (n :: u64, size_of (serializeInt n))"
    by (rule decodes_whole [OF decodes_u64]) simp
  moreover have "length BLOCKS_TIMELINE_PREFIX < length (BLOCKS_TIMELINE_PREFIX @ serializeInt n)"
    by simp
  ultimately show ?case
    using Cons by (simp add: e entry_keys_def)
qed (simp add: entry_keys_def)

lemma findAllBlocksTimeline_entries:
  assumes ok: "leveldb_ok L contents" and es: "holds_entries (contents d) BLOCKS_TIMELINE_PREFIX es"
    and n: "length es < 2 ^ 64"
  shows "findAllBlocksTimeline L d = Inr es"
proof -
  have tw: "takeWhile (\<lambda>e. fst e < prefix_end BLOCKS_TIMELINE_PREFIX) (db_Seek L BLOCKS_TIMELINE_PREFIX d) =
      entry_keys BLOCKS_TIMELINE_PREFIX es"
    using seek_entries [OF ok timeline_prefix(3) es [unfolded timeline_prefix(1)]]
    by (simp only: timeline_prefix(1,2) [symmetric])
  have "findKey2 L BLOCKS_TIMELINE_PREFIX (prefix_end BLOCKS_TIMELINE_PREFIX) 0 0 d =
      mapE Inr (entry_keys BLOCKS_TIMELINE_PREFIX es)"
    unfolding findKey2_def using findKeyInternal_window [OF tw, of 0 0] n by (simp add: entry_keys_def)
  also have "\<dots> = Inr (entry_keys BLOCKS_TIMELINE_PREFIX es)"
    using mapE_Inr [of _ Inr "\<lambda>x. x"] by simp
  finally show ?thesis
    using es sorted_sort_id [of "map fst es"]
    by (simp add: findAllBlocksTimeline_def timeline_entries_keys holds_entries_def strict_sorted_iff sorted_map sort_key_id_if_sorted)
qed


lemma holds_entries_append:
  assumes es: "holds_entries m key es" and n: "\<And>e. e \<in> set es \<Longrightarrow> fst e < n"
  shows "holds_entries (m(key @ serializeInt n \<mapsto> v)) key (es @ [(n, v)])"
  unfolding holds_entries_def
proof (intro conjI allI)
  show "sorted_wrt (<) (map fst (es @ [(n, v)]))"
    using es n by (auto simp: holds_entries_def sorted_wrt_append)
  fix s w
  have "m (key @ s) = Some w \<longleftrightarrow> (\<exists>n. s = serializeInt n \<and> (n, w) \<in> set es)"
    using es by (simp add: holds_entries_def)
  moreover have "(n, w) \<notin> set es"
    using n by fastforce
  ultimately show "(m(key @ serializeInt n \<mapsto> v)) (key @ s) = Some w \<longleftrightarrow>
      (\<exists>n'. s = serializeInt n' \<and> (n', w) \<in> set (es @ [(n, v)]))"
    by (auto simp: serializeInt_inject)
qed

fun timeline_writes :: "db_write list \<Rightarrow> (u64 \<times> bytes) list" where
  "timeline_writes [] = []"
| "timeline_writes (w # ws) = (case w of WBlockTimeline n bs \<Rightarrow> (n, bs) # timeline_writes ws | _ \<Rightarrow> timeline_writes ws)"

lemma timeline_grows:
  assumes "list_all2 (\<lambda>w op. \<exists>v. wr_value w = Inr v \<and> op = wr_op (wr_prefix w @ wr_rest w) v) ws ops"
    and "holds_entries m BLOCKS_TIMELINE_PREFIX es" and "sorted_wrt (<) (map fst (es @ timeline_writes ws))"
  shows "holds_entries (fold write_effect ops m) BLOCKS_TIMELINE_PREFIX (es @ timeline_writes ws)"
  using assms
proof (induction ws ops arbitrary: es m rule: list_all2_induct)
  case Nil
  then show ?case by simp
next
  case (Cons w ws op ops)
  obtain v where v: "wr_value w = Inr v" "op = wr_op (wr_prefix w @ wr_rest w) v"
    using Cons.hyps(1) by blast
  show ?case
  proof (cases "\<exists>n bs. w = WBlockTimeline n bs")
    case False
    then have rest: "timeline_writes (w # ws) = timeline_writes ws"
      by (cases w) auto
    have "wr_prefix w \<noteq> BLOCKS_TIMELINE_PREFIX"
      using False by (cases w) (simp_all add: prefix_defs)
    then have "holds_entries (write_effect op m) BLOCKS_TIMELINE_PREFIX es"
      unfolding v(2) by (intro holds_entries_other [OF Cons.prems(1)] other_prefix) (simp_all add: all_prefixes_def)
    then show ?thesis
      using Cons.IH Cons.prems(2) unfolding rest by simp
  next
    case True
    then obtain n bs where w: "w = WBlockTimeline n bs" by blast
    have "holds_entries (write_effect op m) BLOCKS_TIMELINE_PREFIX (es @ [(n, bs)])"
      using holds_entries_append [OF Cons.prems(1), of n bs] Cons.prems(2) v
      by (auto simp: w wr_op_def sorted_wrt_append)
    then show ?thesis
      using Cons.IH [of "write_effect op m" "es @ [(n, bs)]"] Cons.prems(2) by (simp add: w)
  qed
qed

lemma timeline_committed:
  assumes ok: "leveldb_ok L contents" and es: "holds_entries (contents d) BLOCKS_TIMELINE_PREFIX es"
    and b: "batch_writes ws Batch_new = Inr b" "addBatch L b d = (d', Inr ())"
    and sorted: "sorted_wrt (<) (map fst (es @ timeline_writes ws))"
  shows "holds_entries (contents d') BLOCKS_TIMELINE_PREFIX (es @ timeline_writes ws)"
proof -
  obtain ops where ops: "wb_batch b = wb_batch Batch_new @ ops"
    "list_all2 (\<lambda>w op. \<exists>v. wr_value w = Inr v \<and> op = wr_op (wr_prefix w @ wr_rest w) v) ws ops"
    using batch_writes_ops [OF b(1)] by blast
  show ?thesis
    using timeline_grows [OF ops(2) es sorted] addBatch_contents [OF ok b(2)] ops(1) by (simp add: Batch_new_def)
qed

end
