(* ===== verification/WorkerBase.thy ===== *)
theory WorkerBase
  imports Database
begin

section \<open>What the workers share (Modules, Counter, Cache)\<close>

text \<open>
  The modules a node is started with, the atomic counter that numbers the records of a worker and
  the cache with attributes. The locks of the cache make every operation atomic; they are not part
  of the model.
\<close>

subsection \<open>Modules\<close>

record Modules =
  MODULE_BLOCK :: bool
  MODULE_TXS :: bool
  MODULE_BALANCE :: bool
  MODULE_ADDR_TXS :: bool
  MODULE_BLOCK_RAW :: bool
  MODULE_V8 :: bool
  MODULE_NODE_TEST :: bool

definition Modules_none :: Modules where
  "Modules_none = \<lparr>MODULE_BLOCK = False, MODULE_TXS = False, MODULE_BALANCE = False, MODULE_ADDR_TXS = False,
     MODULE_BLOCK_RAW = False, MODULE_V8 = False, MODULE_NODE_TEST = False\<rparr>"

definition set_module :: "bytes \<Rightarrow> Modules \<Rightarrow> Modules result" where
  "set_module str m =
     (if str = lit ''block'' then Inr (m\<lparr>MODULE_BLOCK := True\<rparr>)
      else if str = lit ''block_raw'' then Inr (m\<lparr>MODULE_BLOCK_RAW := True\<rparr>)
      else if str = lit ''txs'' then Inr (m\<lparr>MODULE_TXS := True\<rparr>)
      else if str = lit ''balances'' then Inr (m\<lparr>MODULE_BALANCE := True\<rparr>)
      else if str = lit ''addr_txs'' then Inr (m\<lparr>MODULE_ADDR_TXS := True\<rparr>)
      else if str = lit ''v8'' then Inr (m\<lparr>MODULE_V8 := True\<rparr>)
      else if str = lit ''node_tests'' then Inr (m\<lparr>MODULE_NODE_TEST := True\<rparr>)
      else Inl (Check ''Incorrect module ''))"

fun parseModules_loop :: "bytes list \<Rightarrow> Modules \<Rightarrow> Modules result" where
  "parseModules_loop [] m = Inr m"
| "parseModules_loop (str # strs) m = bindE (set_module str m) (parseModules_loop strs)"

definition parseModules :: "bytes list \<Rightarrow> Modules result" where
  "parseModules modulesStrs = parseModules_loop modulesStrs Modules_none"

subsection \<open>Counter\<close>

text \<open>\<open>inc\<close> is the template parameter; the value wraps.\<close>

definition Counter_store :: "bool \<Rightarrow> u64 \<Rightarrow> u64" where
  "Counter_store inc val = val + (if inc then 1 else - 1)"

definition Counter_get :: "bool \<Rightarrow> u64 \<Rightarrow> u64 \<times> u64" where
  "Counter_get inc counter = (counter, if inc then counter + 1 else counter - 1)"

subsection \<open>Cache\<close>

record 'v Cache =
  ca_map :: "(bytes \<times> 'v) list"
  ca_attributes :: "(bytes \<times> bytes list) list"

definition Cache_empty :: "'v Cache" where
  "Cache_empty = \<lparr>ca_map = [], ca_attributes = []\<rparr>"

definition addValue :: "bytes \<Rightarrow> bytes \<Rightarrow> 'v \<Rightarrow> 'v Cache \<Rightarrow> 'v Cache" where
  "addValue key attribute val c =
     c\<lparr>ca_attributes := AList.update attribute (get_or [] (ca_attributes c) attribute @ [key]) (ca_attributes c),
       ca_map := emplace key val (ca_map c)\<rparr>"

definition getValue :: "bytes \<Rightarrow> 'v Cache \<Rightarrow> 'v option" where
  "getValue key c = map_of (ca_map c) key"

definition Cache_remove :: "bytes \<Rightarrow> 'v Cache \<Rightarrow> 'v Cache" where
  "Cache_remove attribute c =
     (case map_of (ca_attributes c) attribute of
        None \<Rightarrow> c
      | Some keys \<Rightarrow> c\<lparr>ca_map := fold AList.delete keys (ca_map c),
                       ca_attributes := AList.delete attribute (ca_attributes c)\<rparr>)"

text \<open>\<open>std::to_string\<close> of a \<open>size_t\<close>.\<close>

fun dec_digits :: "nat \<Rightarrow> bytes" where
  "dec_digits n = (if n < 10 then [of_nat (48 + n)] else dec_digits (n div 10) @ [of_nat (48 + n mod 10)])"

declare dec_digits.simps [simp del]

definition to_string :: "u64 \<Rightarrow> bytes" where
  "to_string n = dec_digits (unat n)"

subsection \<open>Facts\<close>

text \<open>Every key of a cache is listed under one of its attributes, so that removing the attributes
  in turn empties the cache.\<close>

definition cache_inv :: "'v Cache \<Rightarrow> bool" where
  "cache_inv c \<longleftrightarrow> (\<forall>k. getValue k c \<noteq> None \<longrightarrow> (\<exists>a ks. map_of (ca_attributes c) a = Some ks \<and> k \<in> set ks))"

lemma getValue_addValue:
  "getValue k' (addValue k a v c) = (if k' = k \<and> getValue k c = None then Some v else getValue k' c)"
  by (auto simp: getValue_def addValue_def map_of_emplace split: option.splits)

lemma map_of_fold_delete: "map_of (fold AList.delete ks al) = (\<lambda>k. if k \<in> set ks then None else map_of al k)"
  by (induction ks arbitrary: al) (auto simp: fun_eq_iff)

lemma getValue_remove:
  "getValue k (Cache_remove a c) =
     (if k \<in> set (get_or [] (ca_attributes c) a) then None else getValue k c)"
  by (simp add: getValue_def Cache_remove_def get_or_def map_of_fold_delete split: option.splits)

lemma attributes_addValue:
  "map_of (ca_attributes (addValue k a v c)) =
     (map_of (ca_attributes c))(a \<mapsto> get_or [] (ca_attributes c) a @ [k])"
  by (simp add: addValue_def)

lemma cache_inv_add:
  assumes "cache_inv c" shows "cache_inv (addValue k a v c)"
  unfolding cache_inv_def
proof (intro allI impI)
  fix k' assume k': "getValue k' (addValue k a v c) \<noteq> None"
  show "\<exists>a' ks. map_of (ca_attributes (addValue k a v c)) a' = Some ks \<and> k' \<in> set ks"
  proof (cases "k' = k")
    case False
    then obtain a' ks where "map_of (ca_attributes c) a' = Some ks" "k' \<in> set ks"
      using k' assms unfolding cache_inv_def getValue_addValue by auto
    then show ?thesis
      by (cases "a' = a") (auto simp: attributes_addValue get_or_def)
  qed (auto simp: attributes_addValue)
qed

lemma cache_inv_remove:
  assumes "cache_inv c" shows "cache_inv (Cache_remove a c)"
  unfolding cache_inv_def
proof (intro allI impI)
  fix k assume "getValue k (Cache_remove a c) \<noteq> None"
  then have k: "getValue k c \<noteq> None" "k \<notin> set (get_or [] (ca_attributes c) a)"
    by (auto simp: getValue_remove split: if_splits)
  then obtain a' ks where a': "map_of (ca_attributes c) a' = Some ks" "k \<in> set ks"
    using assms unfolding cache_inv_def by blast
  then have "a' \<noteq> a"
    using k(2) by (auto simp: get_or_def)
  then show "\<exists>a' ks. map_of (ca_attributes (Cache_remove a c)) a' = Some ks \<and> k \<in> set ks"
    using a' by (intro exI [of _ a'] exI [of _ ks]) (simp add: Cache_remove_def split: option.splits)
qed

end
