(* ===== verification/WorkerMain.thy ===== *)
theory WorkerMain
  imports WorkerBase
begin

section \<open>The main worker: processing a block (Workers/WorkerMain)\<close>

text \<open>
  What one turn of the loop of \<open>worker\<close> does with a block: it collects balances, statuses,
  delegations, tokens and the logs of addresses in a batch and commits it together with the number
  of the block. The members that outlive the turn are the record \<open>WorkerMain\<close>; what the turn
  collects is the record \<open>MainRun\<close>. An exception ends the turn: the loop logs it and goes on with
  the next block, while the counter and the cache of statuses keep what the turn has done to them;
  so the functions below return the state also with an error.

  Parameters: LevelDB (\<open>L\<close>) and, in \<open>main_env\<close>, the order in which \<open>parallelFor\<close> visits the
  balances, the hex conversions and the JSON of state blocks, beside the settings of the node. The blocking queue, the threads and the stop signal are
  not modelled.
\<close>

text \<open>\<open>env_delegate_to\<close>: what rapidjson finds in the data of a state transaction: \<open>None\<close> when it
  does not parse or \<open>delegate_to\<close> is not an array, otherwise its elements.\<close>

datatype json_delegate = NotObject | Delegated (jd_a: "bytes option") (jd_v: "u64 option")

record main_env =
  env_modules :: Modules
  env_validateState :: bool
  env_maxCountElementsTxsCache :: u64
  env_parallelFor :: "(bytes \<times> BalanceInfo) list \<Rightarrow> (bytes \<times> BalanceInfo) list"
  env_fromHex :: "bytes \<Rightarrow> bytes result"
  env_toHex :: "bytes \<Rightarrow> bytes"
  env_delegate_to :: "bytes \<Rightarrow> json_delegate list option"

subsection \<open>State and effects\<close>

record WorkerMain =
  wm_lastSavedBlock :: u64
  wm_lastTxs :: "TransactionInfo list"
  wm_countVal :: u64
  wm_statusCache :: "TransactionStatus Cache"

record MainRun =
  r_batch :: Batch
  r_countVal :: u64
  r_delegateCache :: "(bytes \<times> bytes list) list"
  r_balances :: "(bytes \<times> BalanceInfo) list"
  r_commonBalance :: CommonBalance
  r_statusCache :: "TransactionStatus Cache"

type_synonym 'a run = "MainRun \<Rightarrow> 'a result \<times> MainRun"

definition returnM :: "'a \<Rightarrow> 'a run" where
  "returnM x r = (Inr x, r)"

definition bindM :: "'a run \<Rightarrow> ('a \<Rightarrow> 'b run) \<Rightarrow> 'b run" where
  "bindM m f r = (case m r of (Inl e, r') \<Rightarrow> (Inl e, r') | (Inr x, r') \<Rightarrow> f x r')"

definition liftM :: "'a result \<Rightarrow> 'a run" where
  "liftM x r = (x, r)"

definition getM :: "(MainRun \<Rightarrow> 'a) \<Rightarrow> 'a run" where
  "getM f r = (Inr (f r), r)"

definition modifyM :: "(MainRun \<Rightarrow> MainRun) \<Rightarrow> unit run" where
  "modifyM f r = (Inr (), f r)"

definition whenM :: "bool \<Rightarrow> unit run \<Rightarrow> unit run" where
  "whenM b m = (if b then m else returnM ())"

fun forM :: "'a list \<Rightarrow> ('a \<Rightarrow> unit run) \<Rightarrow> unit run" where
  "forM [] f = returnM ()"
| "forM (x # xs) f = bindM (f x) (\<lambda>_. forM xs f)"

definition onBatch :: "(Batch \<Rightarrow> Batch result) \<Rightarrow> unit run" where
  "onBatch f r = (case f (r_batch r) of Inl e \<Rightarrow> (Inl e, r) | Inr b \<Rightarrow> (Inr (), r\<lparr>r_batch := b\<rparr>))"

definition onBalance :: "bytes \<Rightarrow> (BalanceInfo \<Rightarrow> BalanceInfo result) \<Rightarrow> unit run" where
  "onBalance address f r =
     (case f (get_or BalanceInfo_default (r_balances r) address) of
        Inl e \<Rightarrow> (Inl e, r)
      | Inr b \<Rightarrow> (Inr (), r\<lparr>r_balances := AList.update address b (r_balances r)\<rparr>))"

definition countVal_get :: "u64 run" where
  "countVal_get r = (let (c, c') = Counter_get False (r_countVal r) in (Inr c, r\<lparr>r_countVal := c'\<rparr>))"

subsection \<open>Delegations\<close>

text \<open>The stack of a pair has its top first.\<close>

definition push_delegate :: "bytes \<Rightarrow> bytes \<Rightarrow> MainRun \<Rightarrow> MainRun" where
  "push_delegate delegateKey key r =
     r\<lparr>r_delegateCache := AList.update delegateKey (key # get_or [] (r_delegateCache r) delegateKey) (r_delegateCache r)\<rparr>"

definition pop_delegate :: "bytes \<Rightarrow> MainRun \<Rightarrow> MainRun" where
  "pop_delegate delegateKey r =
     r\<lparr>r_delegateCache := AList.update delegateKey (tl (get_or [] (r_delegateCache r) delegateKey)) (r_delegateCache r)\<rparr>"

definition add_delegate :: "bytes \<Rightarrow> DelegateState \<Rightarrow> unit run" where
  "add_delegate delegateKey dState =
     bindM countVal_get (\<lambda>counter r.
     case addDelegateKey delegateKey dState counter (r_batch r) of
       Inl e \<Rightarrow> (Inl e, r)
     | Inr (b, resultKey) \<Rightarrow> (Inr (), push_delegate delegateKey resultKey (r\<lparr>r_batch := b\<rparr>)))"

definition take_delegate :: "'d leveldb \<Rightarrow> 'd \<Rightarrow> bytes \<Rightarrow> DelegateState run" where
  "take_delegate L d delegateKey =
     bindM (getM (\<lambda>r. get_or [] (r_delegateCache r) delegateKey)) (\<lambda>stack.
     if stack \<noteq> [] then
       bindM (modifyM (pop_delegate delegateKey)) (\<lambda>_.
       bindM (\<lambda>r. (Batch_findDelegateKey (hd stack) (r_batch r), r)) (\<lambda>foundValue.
       bindM (liftM (CHECK (\<exists>v. foundValue = Some v \<and> ds_hash v \<noteq> []) ''Incorrect batch delegate'')) (\<lambda>_.
       bindM (onBatch (\<lambda>b. Inr (removeDelegateKey (hd stack) b))) (\<lambda>_.
       returnM (the foundValue)))))
     else
       bindM (\<lambda>r. (findDelegateKey L delegateKey (getDeletedDelegate (r_batch r)) d, r)) (\<lambda>(key, val).
       if key \<noteq> [] then
         bindM (liftM (CHECK (ds_hash val \<noteq> []) ''Incorrect delegated value'')) (\<lambda>_.
         bindM (onBatch (\<lambda>b. Inr (removeDelegateKey key b))) (\<lambda>_.
         returnM val))
       else returnM DelegateState_default))"

definition calcTransactionStatusDelegate :: "'d leveldb \<Rightarrow> 'd \<Rightarrow> TransactionInfo \<Rightarrow> u64 \<Rightarrow> TransactionStatus run" where
  "calcTransactionStatusDelegate L d tx blockNumber =
     (case tx_delegate tx of
        None \<Rightarrow> liftM (Inl (Check ''Is not delegate transaction''))
      | Some delegate \<Rightarrow>
          bindM (liftM (getBinaryString (tx_fromAddress tx))) (\<lambda>keyFrom.
          bindM (liftM (getBinaryString (tx_toAddress tx))) (\<lambda>keyTo.
          let delegateKey = makeKeyDelegatePair keyFrom keyTo;
              txStatus = \<lparr>ts_isSuccess = False, ts_transaction = tx_hash tx, ts_blockNumber = blockNumber,
                          ts_status = Monostate\<rparr>
          in if di_isDelegate delegate then
               let txStatus = txStatus\<lparr>ts_isSuccess := \<not> isIntStatusNotSuccess tx, ts_status := Delegate\<rparr>
               in bindM (whenM (ts_isSuccess txStatus)
                    (add_delegate delegateKey \<lparr>ds_value = di_value delegate, ds_hash = tx_hash tx\<rparr>)) (\<lambda>_.
                  returnM txStatus)
             else
               bindM (take_delegate L d delegateKey) (\<lambda>dState.
               returnM (txStatus\<lparr>ts_isSuccess := True, ts_status := UnDelegate (ds_value dState) (ds_hash dState)\<rparr>)))))"

definition getInstantDelegateStatus :: "'d leveldb \<Rightarrow> 'd \<Rightarrow> TransactionInfo \<Rightarrow> u64 \<Rightarrow> TransactionStatus option run" where
  "getInstantDelegateStatus L d tx blockNumber =
     (if tx_delegate tx \<noteq> None then
        bindM (liftM (CHECK (tx_intStatus tx \<noteq> None) ''delegate status not seted'')) (\<lambda>_.
        bindM (calcTransactionStatusDelegate L d tx blockNumber) (\<lambda>st. returnM (Some st)))
      else returnM None)"

subsection \<open>Forging sums\<close>

definition add_forging :: "TransactionInfo \<Rightarrow> ForgingSums \<Rightarrow> ForgingSums" where
  "add_forging tx result =
     (if isIntStatusForging tx
      then result\<lparr>fs_sums := AList.update (the (tx_intStatus tx))
             (get_or 0 (fs_sums result) (the (tx_intStatus tx)) + tx_value tx) (fs_sums result)\<rparr>
      else result)"

definition makeForgingSums :: "BlockInfo \<Rightarrow> ForgingSums result" where
  "makeForgingSums bi =
     (case bh_blockNumber (bi_header bi) of
        None \<Rightarrow> Inl OutOfRange
      | Some blockNumber \<Rightarrow>
          let result = \<lparr>fs_sums = fold (\<lambda>status sums. AList.update status 0 sums) getForgingIntStatuses [],
                        fs_blockNumber = blockNumber\<rparr>
          in Inr (fold add_forging (bi_txs bi) result))"

subsection \<open>Saving into the batch\<close>

definition save_status :: "TransactionStatus \<Rightarrow> bytes \<Rightarrow> unit run" where
  "save_status txStatus attributeTxStatusCache =
     bindM (onBatch (addTransactionStatus (ts_transaction txStatus) txStatus)) (\<lambda>_.
     modifyM (\<lambda>r. r\<lparr>r_statusCache := addValue (ts_transaction txStatus) attributeTxStatusCache txStatus (r_statusCache r)\<rparr>))"

definition saveTransaction :: "TransactionInfo \<Rightarrow> unit run" where
  "saveTransaction tx = onBatch (addTransaction (tx_hash tx) tx)"

definition saveAddressTransaction :: "TransactionInfo \<Rightarrow> Address \<Rightarrow> unit run" where
  "saveAddressTransaction tx address =
     (let addrInfo = AddressInfo_make (fp_pos (tx_filePos tx)) (fp_fileNameRelative (tx_filePos tx))
                       (tx_blockNumber tx) (tx_blockIndex tx)
      in bindM (liftM (toBdString address)) (\<lambda>addr.
         bindM countVal_get (\<lambda>counter.
         onBatch (addAddress addr addrInfo counter))))"

definition saveAddressTokenTransaction :: "TransactionInfo \<Rightarrow> Address \<Rightarrow> unit run" where
  "saveAddressTokenTransaction tx address =
     (let addrInfo = AddressInfo_make (fp_pos (tx_filePos tx)) (fp_fileNameRelative (tx_filePos tx))
                       (tx_blockNumber tx) (tx_blockIndex tx)
      in bindM (liftM (toBdString address)) (\<lambda>addr.
         bindM countVal_get (\<lambda>counter.
         onBatch (addAddressToken addr addrInfo counter))))"

definition save_address_status :: "TransactionStatus \<Rightarrow> Address \<Rightarrow> unit run" where
  "save_address_status status address =
     bindM (liftM (toBdString address)) (\<lambda>addr.
     onBatch (addAddressStatus (makeAddressStatusKey addr (ts_transaction status)) status))"

definition saveAddressBalance :: "TransactionInfo \<Rightarrow> Address \<Rightarrow> bool \<Rightarrow> unit run" where
  "saveAddressBalance tx address isForging =
     bindM (liftM (toBdString address)) (\<lambda>addr.
     onBalance addr (plusWithoutDelegate tx address (\<not> isIntStatusNoBalance tx) isForging))"

definition saveAddressBalanceDelegate :: "TransactionInfo \<Rightarrow> TransactionStatus \<Rightarrow> Address \<Rightarrow> unit run" where
  "saveAddressBalanceDelegate tx status address =
     (case tx_delegate tx of
        None \<Rightarrow> liftM (Inl (Check ''Transaction not delegate''))
      | Some delegate \<Rightarrow>
          bindM (liftM (if di_isDelegate delegate then Inr None
                        else case ts_status status of
                               UnDelegate val hash \<Rightarrow> Inr (Some val)
                             | _ \<Rightarrow> Inl (Check ''Transaction status incorrect''))) (\<lambda>undelegateVal.
          bindM (liftM (toBdString address)) (\<lambda>addr.
          onBalance addr (plusWithDelegate tx address undelegateVal (ts_isSuccess status)))))"

fun distribute :: "TransactionInfo \<Rightarrow> (Address \<times> u64) list \<Rightarrow> u64 \<Rightarrow> u64 run" where
  "distribute tx [] rest = returnM rest"
| "distribute tx ((address, val) # ds) rest =
     bindM (liftM (toBdString address)) (\<lambda>addr.
     bindM (onBalance addr (addTokens tx val (\<not> isIntStatusNotSuccess tx))) (\<lambda>_.
     distribute tx ds (rest - val)))"

definition saveAddressBalanceCreateToken :: "TransactionInfo \<Rightarrow> unit run" where
  "saveAddressBalanceCreateToken tx =
     (case tx_tokenInfo tx of
        Some (Create c) \<Rightarrow>
          bindM (distribute tx (ct_beginDistribution c) (ct_value c)) (\<lambda>rest.
          bindM (liftM (toBdString (ct_owner c))) (\<lambda>addr.
          onBalance addr (addTokens tx rest (\<not> isIntStatusNotSuccess tx))))
      | _ \<Rightarrow> returnM ())"

definition saveAddressBalanceAddToken :: "TransactionInfo \<Rightarrow> unit run" where
  "saveAddressBalanceAddToken tx =
     (case tx_tokenInfo tx of
        Some (AddTokens toAddress val) \<Rightarrow>
          bindM (liftM (toBdString toAddress)) (\<lambda>addr.
          onBalance addr (addTokens tx val (\<not> isIntStatusNotSuccess tx)))
      | _ \<Rightarrow> returnM ())"

definition saveAddressBalanceMoveToken :: "TransactionInfo \<Rightarrow> unit run" where
  "saveAddressBalanceMoveToken tx =
     (case tx_tokenInfo tx of
        Some (MoveTokens toAddress val) \<Rightarrow>
          bindM (liftM (toBdString toAddress)) (\<lambda>addr.
          bindM (onBalance addr (moveTokens tx toAddress toAddress val (\<not> isIntStatusNotSuccess tx))) (\<lambda>_.
          bindM (liftM (Address_eq toAddress (tx_fromAddress tx))) (\<lambda>same.
          whenM (\<not> same)
            (bindM (liftM (toBdString (tx_fromAddress tx))) (\<lambda>addr.
             onBalance addr (moveTokens tx (tx_fromAddress tx) toAddress val (\<not> isIntStatusNotSuccess tx)))))))
      | _ \<Rightarrow> returnM ())"

definition ZERO_ADDRESS :: "main_env \<Rightarrow> Address result" where
  "ZERO_ADDRESS env = Address_of_hex (env_fromHex env) (lit ''0x'' @ replicate 50 (of_char (CHR ''0'')))"

definition saveAddressBalanceBurnToken :: "main_env \<Rightarrow> TransactionInfo \<Rightarrow> unit run" where
  "saveAddressBalanceBurnToken env tx =
     (case tx_tokenInfo tx of
        Some (BurnTokens val) \<Rightarrow>
          bindM (liftM (ZERO_ADDRESS env)) (\<lambda>zero.
          bindM (liftM (toBdString (tx_fromAddress tx))) (\<lambda>addr.
          onBalance addr (moveTokens tx (tx_fromAddress tx) zero val (\<not> isIntStatusNotSuccess tx))))
      | _ \<Rightarrow> returnM ())"

subsection \<open>Tokens\<close>

definition processTokenOperation :: "'d leveldb \<Rightarrow> 'd \<Rightarrow> Address \<Rightarrow> (Token \<Rightarrow> Token) \<Rightarrow> unit run" where
  "processTokenOperation L d token process =
     bindM (liftM (toBdString token)) (\<lambda>key.
     bindM (\<lambda>r. (Batch_findToken key (r_batch r), r)) (\<lambda>tokenStr1.
     bindM (case tokenStr1 of
              Some tokenInfo \<Rightarrow> bindM (onBatch (removeToken key)) (\<lambda>_. returnM tokenInfo)
            | None \<Rightarrow> liftM (findToken L key d)) (\<lambda>tokenInfo.
     if tk_type tokenInfo = [] then returnM ()
     else onBatch (addToken key (process tokenInfo)))))"

definition changeTokenOwner :: "'d leveldb \<Rightarrow> 'd \<Rightarrow> TransactionInfo \<Rightarrow> unit run" where
  "changeTokenOwner L d tx =
     (if isIntStatusNotSuccess tx then returnM ()
      else case tx_tokenInfo tx of
             Some (ChangeOwner owner) \<Rightarrow> processTokenOperation L d (tx_toAddress tx) (\<lambda>t. t\<lparr>tk_owner := owner\<rparr>)
           | _ \<Rightarrow> returnM ())"

definition changeTokenEmission :: "'d leveldb \<Rightarrow> 'd \<Rightarrow> TransactionInfo \<Rightarrow> unit run" where
  "changeTokenEmission L d tx =
     (if isIntStatusNotSuccess tx then returnM ()
      else case tx_tokenInfo tx of
             Some (ChangeEmission emission) \<Rightarrow>
               processTokenOperation L d (tx_toAddress tx) (\<lambda>t. t\<lparr>tk_emission := emission\<rparr>)
           | _ \<Rightarrow> returnM ())"

definition changeTokenValue :: "'d leveldb \<Rightarrow> 'd \<Rightarrow> TransactionInfo \<Rightarrow> unit run" where
  "changeTokenValue L d tx =
     (if isIntStatusNotSuccess tx then returnM ()
      else case tx_tokenInfo tx of
             Some (AddTokens to val) \<Rightarrow>
               processTokenOperation L d (tx_toAddress tx) (\<lambda>t. t\<lparr>tk_allValue := tk_allValue t + val\<rparr>)
           | Some (BurnTokens val) \<Rightarrow>
               processTokenOperation L d (tx_toAddress tx) (\<lambda>t. t\<lparr>tk_allValue := tk_allValue t - val\<rparr>)
           | _ \<Rightarrow> returnM ())"

definition save_token_info :: "'d leveldb \<Rightarrow> 'd \<Rightarrow> TransactionInfo \<Rightarrow> TokenInfo \<Rightarrow> unit run" where
  "save_token_info L d tx info =
     (case info of
        Create c \<Rightarrow>
          bindM (liftM (toBdString (tx_toAddress tx))) (\<lambda>key.
          bindM (onBatch (addToken key \<lparr>tk_type = ct_type c, tk_owner = ct_owner c, tk_decimals = ct_decimals c,
             tk_beginValue = ct_value c, tk_allValue = ct_value c, tk_symbol = ct_symbol c, tk_name = ct_name c,
             tk_emission = ct_emission c, tk_txHash = tx_hash tx\<rparr>)) (\<lambda>_.
          bindM (saveAddressTokenTransaction tx (ct_owner c)) (\<lambda>_.
          forM (ct_beginDistribution c) (\<lambda>(address, val). saveAddressTokenTransaction tx address))))
      | ChangeOwner owner \<Rightarrow>
          bindM (changeTokenOwner L d tx) (\<lambda>_.
          bindM (saveAddressTokenTransaction tx (tx_fromAddress tx)) (\<lambda>_.
          saveAddressTokenTransaction tx owner))
      | ChangeEmission emission \<Rightarrow>
          bindM (changeTokenEmission L d tx) (\<lambda>_.
          saveAddressTokenTransaction tx (tx_fromAddress tx))
      | AddTokens to val \<Rightarrow>
          bindM (changeTokenValue L d tx) (\<lambda>_.
          saveAddressTokenTransaction tx to)
      | MoveTokens to val \<Rightarrow>
          bindM (saveAddressTokenTransaction tx (tx_fromAddress tx)) (\<lambda>_.
          bindM (liftM (Address_eq (tx_fromAddress tx) to)) (\<lambda>same.
          whenM (\<not> same) (saveAddressTokenTransaction tx to)))
      | BurnTokens val \<Rightarrow>
          bindM (changeTokenValue L d tx) (\<lambda>_.
          saveAddressTokenTransaction tx (tx_fromAddress tx)))"

subsection \<open>One transaction\<close>

definition toLeveldb :: "main_env \<Rightarrow> BlockHeader \<Rightarrow> Address \<Rightarrow> TransactionInfo \<Rightarrow> TransactionStatus option \<Rightarrow> unit run" where
  "toLeveldb env header address tx statusDelegate =
     bindM (liftM (isInitialWallet address)) (\<lambda>initial.
     if initial then returnM ()
     else if isIntStatusNodeTest tx then returnM ()
     else
       bindM (whenM (MODULE_ADDR_TXS (env_modules env))
         (bindM (saveAddressTransaction tx address) (\<lambda>_.
          case statusDelegate of None \<Rightarrow> returnM () | Some st \<Rightarrow> save_address_status st address))) (\<lambda>_.
       whenM (MODULE_BALANCE (env_modules env))
         (bindM (saveAddressBalance tx address (isForgingBlock header)) (\<lambda>_.
          case statusDelegate of
            Some st \<Rightarrow> whenM (tx_delegate tx \<noteq> None) (saveAddressBalanceDelegate tx st address)
          | None \<Rightarrow> returnM ()))))"

definition save_tx_records :: "'d leveldb \<Rightarrow> 'd \<Rightarrow> TransactionInfo \<Rightarrow> TransactionStatus option \<Rightarrow> bytes \<Rightarrow> unit run" where
  "save_tx_records L d tx txStatusDelegate attributeTxStatusCache =
     bindM (saveTransaction tx) (\<lambda>_.
     bindM (case txStatusDelegate of None \<Rightarrow> returnM () | Some st \<Rightarrow> save_status st attributeTxStatusCache) (\<lambda>_.
     case tx_tokenInfo tx of
       None \<Rightarrow> returnM ()
     | Some info \<Rightarrow> whenM (\<not> isIntStatusNotSuccess tx) (save_token_info L d tx info)))"

definition save_token_balances :: "main_env \<Rightarrow> TransactionInfo \<Rightarrow> unit run" where
  "save_token_balances env tx =
     (case tx_tokenInfo tx of
        Some (Create c) \<Rightarrow> saveAddressBalanceCreateToken tx
      | Some (AddTokens to val) \<Rightarrow> saveAddressBalanceAddToken tx
      | Some (MoveTokens to val) \<Rightarrow> saveAddressBalanceMoveToken tx
      | Some (BurnTokens val) \<Rightarrow> saveAddressBalanceBurnToken env tx
      | _ \<Rightarrow> returnM ())"

definition save_common_balance :: "BlockHeader \<Rightarrow> u64 \<Rightarrow> bool \<Rightarrow> TransactionInfo \<Rightarrow> unit run" where
  "save_common_balance header blockNumber updateCommonBalance tx =
     whenM updateCommonBalance
       (bindM (liftM (isInitialWallet (tx_fromAddress tx))) (\<lambda>initial.
        whenM (initial \<or> isForgingBlock header)
          (modifyM (\<lambda>r. r\<lparr>r_commonBalance := \<lparr>cb_money = cb_money (r_commonBalance r) + tx_value tx,
             cb_blockNumber = blockNumber\<rparr>\<rparr>))))"

definition process_tx :: "main_env \<Rightarrow> 'd leveldb \<Rightarrow> 'd \<Rightarrow> BlockHeader \<Rightarrow> u64 \<Rightarrow> bool \<Rightarrow> TransactionInfo \<Rightarrow> unit run" where
  "process_tx env L d header blockNumber updateCommonBalance tx =
     (let m = env_modules env
      in bindM (whenM (MODULE_BALANCE m \<or> MODULE_TXS m \<or> MODULE_ADDR_TXS m)
           (bindM (getInstantDelegateStatus L d tx blockNumber) (\<lambda>txStatusDelegate.
            bindM (toLeveldb env header (tx_fromAddress tx) tx txStatusDelegate) (\<lambda>_.
            bindM (liftM (Address_eq (tx_fromAddress tx) (tx_toAddress tx))) (\<lambda>same.
            bindM (whenM (\<not> same) (toLeveldb env header (tx_toAddress tx) tx txStatusDelegate)) (\<lambda>_.
            bindM (whenM (MODULE_TXS m) (save_tx_records L d tx txStatusDelegate (to_string blockNumber))) (\<lambda>_.
            whenM (MODULE_BALANCE m) (save_token_balances env tx)))))))) (\<lambda>_.
         whenM (MODULE_BLOCK m) (save_common_balance header blockNumber updateCommonBalance tx)))"


subsection \<open>State blocks\<close>

fun delegate_states :: "bytes \<Rightarrow> (bytes \<times> bytes) list \<Rightarrow> (Address \<times> DelegateState) list result" where
  "delegate_states fromAddress [] = Inr []"
| "delegate_states fromAddress ((key, val) # elements) =
     bindE (getSecondOnKeyDelegatePair fromAddress key) (\<lambda>secondAddress.
     bindE (CHECK (secondAddress \<noteq> []) ''Delegate pair address empty'') (\<lambda>_.
     bindE (DelegateState_deserialize val) (\<lambda>st.
     bindE (delegate_states fromAddress elements) (\<lambda>r.
     Inr ((Address_of_range secondAddress, st) # r)))))"

definition getDelegateStates :: "'d leveldb \<Rightarrow> 'd \<Rightarrow> Address \<Rightarrow> (Address \<times> DelegateState) list result" where
  "getDelegateStates L d fromAddress =
     bindE (getBinaryString fromAddress) (\<lambda>from.
     bindE (findAllDelegatedPairKeys L from d) (\<lambda>result.
     delegate_states from result))"

fun json_states :: "(bytes \<Rightarrow> bytes result) \<Rightarrow> json_delegate list \<Rightarrow> (Address \<times> DelegateState) list result" where
  "json_states fromHex [] = Inr []"
| "json_states fromHex (j # js) =
     (let incorrect = Inl (Check ''Incorrect state delegate value in address '')
      in case j of
           Delegated (Some a) (Some v) \<Rightarrow>
             bindE (Address_of_hex fromHex a) (\<lambda>address.
             bindE (json_states fromHex js) (\<lambda>r.
             Inr ((address, \<lparr>ds_value = v, ds_hash = []\<rparr>) # r)))
         | _ \<Rightarrow> incorrect)"

fun compare_states :: "(bytes \<Rightarrow> bytes) \<Rightarrow> (Address \<times> DelegateState) list \<Rightarrow> (Address \<times> DelegateState) list \<Rightarrow> unit result" where
  "compare_states toHex ((a, s) # xs) ((a2, s2) # ys) =
     bindE (calcHexString toHex a2) (\<lambda>h2.
     bindE (calcHexString toHex a) (\<lambda>h.
     bindE (CHECK (h2 = h) ''Incorrect state delegate value in address '') (\<lambda>_.
     bindE (CHECK (ds_value s = ds_value s2) ''Incorrect state delegate value in address '') (\<lambda>_.
     compare_states toHex xs ys))))"
| "compare_states toHex _ _ = Inr ()"

text \<open>\<open>delegateStates\<close> is sorted downwards and read from its end, \<open>delegateStates2\<close> upwards; the sorts
  are stable. All addresses in them are set.\<close>

definition sort_down :: "(Address \<times> DelegateState) list \<Rightarrow> (Address \<times> DelegateState) list" where
  "sort_down xs = rev (sort_key (\<lambda>p. addr (fst p)) (rev xs))"

definition validate_tx :: "main_env \<Rightarrow> 'd leveldb \<Rightarrow> 'd \<Rightarrow> TransactionInfo \<Rightarrow> unit result" where
  "validate_tx env L d tx =
     (let address = tx_toAddress tx
      in bindE (ZERO_ADDRESS env) (\<lambda>zero.
         bindE (Address_eq address zero) (\<lambda>isZero.
         if isZero then Inr ()
         else
           bindE (toBdString address) (\<lambda>key.
           bindE (findBalance L key d) (\<lambda>bal.
           bindE (getDelegateStates L d address) (\<lambda>states.
           let delegateStates = sort_down states
           in bindE (CHECK (calcBalanceWithoutDelegate bal = tx_value tx) ''Incorrect state balance value in address '') (\<lambda>_.
              case env_delegate_to env (tx_data tx) of
                None \<Rightarrow> Inr ()
              | Some delegated \<Rightarrow>
                  bindE (CHECK (length delegateStates = length delegated) ''Incorrect state delegate value in address '') (\<lambda>_.
                  bindE (json_states (env_fromHex env) delegated) (\<lambda>states2.
                  let delegateStates2 = sort_key (\<lambda>p. addr (fst p)) states2
                  in compare_states (env_toHex env) (rev delegateStates) delegateStates2)))))))))"

fun validate_txs :: "main_env \<Rightarrow> 'd leveldb \<Rightarrow> 'd \<Rightarrow> TransactionInfo list \<Rightarrow> unit result" where
  "validate_txs env L d [] = Inr ()"
| "validate_txs env L d (tx # txs) = bindE (validate_tx env L d tx) (\<lambda>_. validate_txs env L d txs)"

definition validateStateBlock :: "main_env \<Rightarrow> 'd leveldb \<Rightarrow> 'd \<Rightarrow> BlockInfo \<Rightarrow> unit result" where
  "validateStateBlock env L d bi =
     (if \<not> env_validateState env then Inr () else validate_txs env L d (bi_txs bi))"

subsection \<open>One turn of the worker\<close>

definition save_forging_sums :: "'d leveldb \<Rightarrow> 'd \<Rightarrow> BlockInfo \<Rightarrow> unit run" where
  "save_forging_sums L d bi =
     bindM (liftM (makeForgingSums bi)) (\<lambda>fs.
     bindM (liftM (findForgingSumsAll L d)) (\<lambda>oldForgingSums.
     onBatch (addAllForgedSums (ForgingSums_plus fs oldForgingSums))))"

definition save_balance :: "'d leveldb \<Rightarrow> 'd \<Rightarrow> u64 \<Rightarrow> bytes \<times> BalanceInfo \<Rightarrow> unit run" where
  "save_balance L d blockNumber balanceIter =
     bindM (liftM (findBalance L (fst balanceIter) d)) (\<lambda>oldBalance.
     whenM (b_blockNumber oldBalance < blockNumber)
       (onBatch (addBalance (fst balanceIter) (BalanceInfo_plus oldBalance (snd balanceIter)))))"

definition collect_block :: "main_env \<Rightarrow> 'd leveldb \<Rightarrow> 'd \<Rightarrow> BlockInfo \<Rightarrow> u64 \<Rightarrow> bool \<Rightarrow> unit run" where
  "collect_block env L d bi blockNumber updateCommonBalance =
     (let header = bi_header bi
      in bindM (if isForgingBlock header \<or> isSimpleBlock header
                then forM (bi_txs bi) (process_tx env L d header blockNumber updateCommonBalance)
                else if isStateBlock header then liftM (validateStateBlock env L d bi)
                else returnM ()) (\<lambda>_.
         bindM (whenM (isForgingBlock header) (save_forging_sums L d bi)) (\<lambda>_.
         bindM (whenM (MODULE_BALANCE (env_modules env))
           (bindM (getM r_balances) (\<lambda>balances. forM (env_parallelFor env balances) (save_balance L d blockNumber)))) (\<lambda>_.
         bindM (whenM (MODULE_BLOCK (env_modules env))
           (bindM (getM r_commonBalance) (\<lambda>commonBalance. onBatch (addCommonBalance commonBalance)))) (\<lambda>_.
         bindM (getM r_countVal) (\<lambda>countVal.
         onBatch (addMainBlock \<lparr>mb_blockNumber = blockNumber, mb_blockHash = bh_hash header, mb_countVal = countVal\<rparr>)))))))"

datatype outcome = Skipped | Saved | Failed error

definition update_lastTxs :: "TransactionInfo list \<Rightarrow> TransactionInfo list \<Rightarrow> TransactionInfo list" where
  "update_lastTxs txs lastTxs = take 100 (take (min 100 (length txs)) txs @ lastTxs)"

text \<open>The beginning of a turn: the number of the block and the stored common balance, \<open>None\<close> when the
  block is not newer than the stored one.\<close>

definition turn_start :: "'d leveldb \<Rightarrow> 'd \<Rightarrow> BlockHeader \<Rightarrow> (u64 \<times> CommonBalance) option result" where
  "turn_start L d header =
     bindE (case bh_blockNumber header of None \<Rightarrow> Inl OutOfRange | Some n \<Rightarrow> Inr n) (\<lambda>blockNumber.
     bindE (findMainBlock L d) (\<lambda>oldMetadata.
     if blockNumber \<le> mb_blockNumber oldMetadata then Inr None
     else bindE (CHECK (mb_blockHash oldMetadata = [] \<or> mb_blockHash oldMetadata = bh_prevHash header)
                   ''Incorrect prev hash. Expected '') (\<lambda>_.
          bindE (findCommonBalance L d) (\<lambda>commonBalance.
          Inr (Some (blockNumber, commonBalance))))))"

definition worker_turn :: "main_env \<Rightarrow> 'd leveldb \<Rightarrow> BlockInfo \<Rightarrow> WorkerMain \<times> 'd \<Rightarrow> outcome \<times> WorkerMain \<times> 'd" where
  "worker_turn env L bi wd =
     (let (w, d) = wd
      in case turn_start L d (bi_header bi) of
           Inl e \<Rightarrow> (Failed e, w, d)
         | Inr None \<Rightarrow> (Skipped, w, d)
         | Inr (Some (blockNumber, commonBalance)) \<Rightarrow>
             (case collect_block env L d bi blockNumber (cb_blockNumber commonBalance < blockNumber)
                     \<lparr>r_batch = Batch_new, r_countVal = wm_countVal w, r_delegateCache = [], r_balances = [],
                      r_commonBalance = commonBalance, r_statusCache = wm_statusCache w\<rparr> of
                (res, r) \<Rightarrow>
                  let w = w\<lparr>wm_countVal := r_countVal r, wm_statusCache := r_statusCache r\<rparr>
                  in case res of
                       Inl e \<Rightarrow> (Failed e, w, d)
                     | Inr _ \<Rightarrow>
                         (case addBatch L (r_batch r) d of
                            (d', Inl e) \<Rightarrow> (Failed e, w, d')
                          | (d', Inr _) \<Rightarrow>
                              (Saved,
                               w\<lparr>wm_statusCache := Cache_remove (to_string (blockNumber - env_maxCountElementsTxsCache env)) (wm_statusCache w),
                                 wm_lastTxs := update_lastTxs (bi_txs bi) (wm_lastTxs w)\<rparr>,
                               d'))))"

definition WorkerMain_new :: "'d leveldb \<Rightarrow> TransactionStatus Cache \<Rightarrow> 'd \<Rightarrow> WorkerMain result" where
  "WorkerMain_new L caches d =
     bindE (findMainBlock L d) (\<lambda>oldMetadata.
     Inr \<lparr>wm_lastSavedBlock = mb_blockNumber oldMetadata, wm_lastTxs = [],
          wm_countVal = Counter_store False (mb_countVal oldMetadata), wm_statusCache = caches\<rparr>)"

text \<open>\<open>process\<close>: whether the block is put into the queue of the worker.\<close>

definition main_process :: "WorkerMain \<Rightarrow> BlockInfo \<Rightarrow> bool result" where
  "main_process w bi =
     (case bh_blockNumber (bi_header bi) of
        None \<Rightarrow> Inl OutOfRange
      | Some n \<Rightarrow> Inr (wm_lastSavedBlock w < n))"

definition getInitBlockNumber :: "WorkerMain \<Rightarrow> u64 option" where
  "getInitBlockNumber w = Some (wm_lastSavedBlock w)"

end
