(* ===== verification/WorkerMainProps.thy ===== *)
theory WorkerMainProps
  imports WorkerMain DatabaseScans
begin

section \<open>What the main worker guarantees\<close>

text \<open>
  A block is processed at most once and committed as a whole, the delegations of a pair of addresses
  are a stack over all blocks, the forging sums add up, and two changes of a token in one block
  lose the first one.
\<close>

subsection \<open>Blocks are processed once\<close>

lemma bindM_Inr: "bindM m f r = (Inr y, r2) \<longleftrightarrow> (\<exists>x r1. m r = (Inr x, r1) \<and> f x r1 = (Inr y, r2))"
  by (auto simp: bindM_def split: prod.splits sum.splits)

lemma onBatch_Inr: "onBatch f r = (Inr u, r') \<longleftrightarrow> (\<exists>b. f (r_batch r) = Inr b \<and> r' = r\<lparr>r_batch := b\<rparr>)"
  by (auto simp: onBatch_def split: sum.splits)

lemma collect_block_ends:
  assumes "collect_block env L d bi n up r = (Inr (), r')"
  shows "\<exists>ops bs. wb_batch (r_batch r') = ops @ [Put MAIN_BLOCK_NUMBER_PREFIX bs] \<and>
     MainBlockInfo_serialize \<lparr>mb_blockNumber = n, mb_blockHash = bh_hash (bi_header bi), mb_countVal = r_countVal r'\<rparr> = Inr bs"
  using assms unfolding collect_block_def Let_def
  by (auto simp: bindM_Inr onBatch_Inr getM_def addMainBlock_def addKey_Inr)

lemma addBatch_MainBlock:
  assumes ok: "leveldb_ok L contents" and commit: "addBatch L b d = (d', Inr u)"
    and last: "wb_batch b = ops @ [Put MAIN_BLOCK_NUMBER_PREFIX bs]"
    and ser: "MainBlockInfo_serialize m = Inr bs" and len: "length bs < 2 ^ 64"
  shows "findMainBlock L d' = Inr m"
proof -
  have "contents d' MAIN_BLOCK_NUMBER_PREFIX = Some bs"
    using addBatch_contents [OF ok, of b d d'] commit last by simp
  then show ?thesis
    by (simp add: findMainBlock_def findValue_contents [OF ok] MainBlockInfo_roundtrip [OF ser len])
qed

lemma length_MainBlockInfo:
  "MainBlockInfo_serialize m = Inr bs \<Longrightarrow> length bs = 24 + length (mb_blockHash m)"
  by (auto simp: MainBlockInfo_serialize_def result_simps serializeVector_eq_String)

lemma turn_start_Some:
  assumes "turn_start L d header = Inr (Some (n, cb))"
  shows "bh_blockNumber header = Some n \<and> (\<exists>old. findMainBlock L d = Inr old \<and> mb_blockNumber old < n \<and>
     (mb_blockHash old = [] \<or> mb_blockHash old = bh_prevHash header))"
  using assms by (auto simp: turn_start_def bindE_Inr_iff CHECK_Inr_iff split: option.splits if_splits)

text \<open>C1: A block is processed at most once, and as a whole. A turn of the main worker skips a block
  that is not newer than the one stored and changes nothing; a turn that fails has not written to
  the database, unless LevelDB itself reported the failure of the write; a turn that succeeds was
  given the successor of the stored block (or the store had none), leaves that block's number and
  hash as the stored progress, and every later turn with the same or an older block skips it.\<close>

theorem block_processed_once:
  assumes "leveldb_ok L contents" and "worker_turn env L bi (w, d) = (out, w', d')"
    and "bh_blockNumber (bi_header bi) = Some n" and "length (bh_hash (bi_header bi)) < 2 ^ 63"
  shows "(out = Skipped \<longrightarrow> w' = w \<and> d' = d)
    \<and> (\<forall>e. out = Failed e \<longrightarrow> d' = d \<or> (\<exists>ops st. db_Write L ops d = (d', st) \<and> st \<noteq> StOK))
    \<and> (out = Saved \<longrightarrow>
        (\<exists>old new. findMainBlock L d = Inr old \<and> mb_blockNumber old < n \<and>
           (mb_blockHash old = [] \<or> mb_blockHash old = bh_prevHash (bi_header bi)) \<and>
           findMainBlock L d' = Inr new \<and> mb_blockNumber new = n \<and> mb_blockHash new = bh_hash (bi_header bi)) \<and>
        (\<forall>bi' n' w2. bh_blockNumber (bi_header bi') = Some n' \<longrightarrow> n' \<le> n \<longrightarrow>
           worker_turn env L bi' (w2, d') = (Skipped, w2, d')))"
proof -
  note turn = assms(2) [unfolded worker_turn_def Let_def prod.case]
  have failed: "d' = d \<or> (\<exists>ops st. db_Write L ops d = (d', st) \<and> st \<noteq> StOK)" if "out = Failed e" for e
    using turn that by (auto simp: addBatch_def CHECK_def split: sum.splits option.splits prod.splits if_splits)
  have skipped: "w' = w \<and> d' = d" if "out = Skipped"
    using turn that by (auto split: sum.splits option.splits prod.splits)
  have "(\<exists>old new. findMainBlock L d = Inr old \<and> mb_blockNumber old < n \<and>
      (mb_blockHash old = [] \<or> mb_blockHash old = bh_prevHash (bi_header bi)) \<and>
      findMainBlock L d' = Inr new \<and> mb_blockNumber new = n \<and> mb_blockHash new = bh_hash (bi_header bi)) \<and>
    (\<forall>bi' n' w2. bh_blockNumber (bi_header bi') = Some n' \<longrightarrow> n' \<le> n \<longrightarrow>
      worker_turn env L bi' (w2, d') = (Skipped, w2, d'))" if s: "out = Saved"
  proof -
    obtain n1 up r0 r where start: "turn_start L d (bi_header bi) = Inr (Some (n1, up))"
      and run: "collect_block env L d bi n1 (cb_blockNumber up < n1) r0 = (Inr (), r)"
      and commit: "addBatch L (r_batch r) d = (d', Inr ())"
      using turn s by (auto split: sum.splits option.splits prod.splits)
    have n1: "n1 = n"
      using turn_start_Some [OF start] assms(3) by simp
    obtain old where old: "findMainBlock L d = Inr old" "mb_blockNumber old < n"
      "mb_blockHash old = [] \<or> mb_blockHash old = bh_prevHash (bi_header bi)"
      using turn_start_Some [OF start] n1 by blast
    let ?m = "\<lparr>mb_blockNumber = n, mb_blockHash = bh_hash (bi_header bi), mb_countVal = r_countVal r\<rparr>"
    obtain ops bs where ops: "wb_batch (r_batch r) = ops @ [Put MAIN_BLOCK_NUMBER_PREFIX bs]"
      and ser: "MainBlockInfo_serialize ?m = Inr bs"
      using collect_block_ends [OF run] n1 by blast
    have "length bs < 2 ^ 64"
      using length_MainBlockInfo [OF ser] assms(4) by simp
    then have main: "findMainBlock L d' = Inr ?m"
      by (rule addBatch_MainBlock [OF assms(1) commit ops ser])
    have "worker_turn env L bi' (w2, d') = (Skipped, w2, d')"
      if "bh_blockNumber (bi_header bi') = Some n'" "n' \<le> n" for bi' n' w2
      using that main by (simp add: worker_turn_def turn_start_def)
    then show ?thesis
      using old main by fastforce
  qed
  then show ?thesis
    using failed skipped by blast
qed


definition sample_env :: main_env where
  "sample_env = \<lparr>env_modules = Modules_none\<lparr>MODULE_TXS := True\<rparr>, env_validateState = False, env_maxCountElementsTxsCache = 0,
     env_parallelFor = (\<lambda>xs. xs), env_fromHex = (\<lambda>s. Inr s), env_toHex = (\<lambda>s. s), env_delegate_to = (\<lambda>s. None)\<rparr>"

definition sample_empty_block :: BlockInfo where
  "sample_empty_block = \<lparr>bi_header = BlockHeader_default\<lparr>bh_hash := [7], bh_blockNumber := Some 1\<rparr>, bi_txs = []\<rparr>"

definition sample_worker :: WorkerMain where
  "sample_worker = \<lparr>wm_lastSavedBlock = 0, wm_lastTxs = [], wm_countVal = - 1, wm_statusCache = Cache_empty\<rparr>"

theorem block_processed_once_witness:
  "\<exists>w' d'. worker_turn sample_env sample_leveldb sample_empty_block (sample_worker, []) = (Saved, w', d') \<and>
     worker_turn sample_env sample_leveldb sample_empty_block (w', d') = (Skipped, w', d')"
proof -
  obtain w' d' where t: "worker_turn sample_env sample_leveldb sample_empty_block (sample_worker, []) = (Saved, w', d')"
    by (simp add: worker_turn_def turn_start_def sample_env_def sample_leveldb_def sample_empty_block_def sample_worker_def
        findMainBlock_def findCommonBalance_def findOneValueWithoutCheckValue_def findOneValueInternal_def
        MainBlockInfo_deserialize_def MainBlockInfo_default_def CommonBalance_deserialize_def collect_block_def
        BlockHeader_default_def isForgingBlock_def isSimpleBlock_def isStateBlock_def block_type_defs
        bindM_def whenM_def returnM_def getM_def onBatch_def addMainBlock_def addKey_def MainBlockInfo_serialize_def
        addBatch_def Modules_none_def)
  from block_processed_once [OF sample_leveldb_ok t, of 1] t show ?thesis
    by (simp add: sample_empty_block_def BlockHeader_default_def)
qed

subsection \<open>Forging sums\<close>

lemma add_forging_get:
  "get_or 0 (fs_sums (add_forging tx fs)) s =
     get_or 0 (fs_sums fs) s + (if tx_intStatus tx = Some s \<and> s \<in> set getForgingIntStatuses then tx_value tx else 0)"
  by (cases "tx_intStatus tx") (auto simp: add_forging_def isIntStatusForging_def)

lemma add_forging_keys:
  "set getForgingIntStatuses \<subseteq> fst ` set (fs_sums fs) \<Longrightarrow>
     fst ` set (fs_sums (add_forging tx fs)) = fst ` set (fs_sums fs)"
  by (cases "tx_intStatus tx") (auto simp: add_forging_def isIntStatusForging_def update_conv' simp flip: dom_map_of_conv_image_fst)

lemma fold_forging:
  assumes "set getForgingIntStatuses \<subseteq> fst ` set (fs_sums fs)"
  shows "get_or 0 (fs_sums (fold add_forging txs fs)) s =
     get_or 0 (fs_sums fs) s + (if s \<in> set getForgingIntStatuses
       then sum_list (map tx_value (filter (\<lambda>tx. tx_intStatus tx = Some s) txs)) else 0)"
    and "fst ` set (fs_sums (fold add_forging txs fs)) = fst ` set (fs_sums fs)"
    and "fs_blockNumber (fold add_forging txs fs) = fs_blockNumber fs"
proof -
  show "get_or 0 (fs_sums (fold add_forging txs fs)) s =
     get_or 0 (fs_sums fs) s + (if s \<in> set getForgingIntStatuses
       then sum_list (map tx_value (filter (\<lambda>tx. tx_intStatus tx = Some s) txs)) else 0)"
    by (induction txs arbitrary: fs) (auto simp: add_forging_get)
  show "fst ` set (fs_sums (fold add_forging txs fs)) = fst ` set (fs_sums fs)"
    using assms by (induction txs arbitrary: fs) (simp_all add: add_forging_keys)
  show "fs_blockNumber (fold add_forging txs fs) = fs_blockNumber fs"
    by (induction txs arbitrary: fs) (simp_all add: add_forging_def)
qed

text \<open>The forging sums of a block: for every forging status the sum (in machine arithmetic) of the
  values of the transactions with that status, an entry for each of these statuses even when there
  is no such transaction, and no other entry.\<close>

theorem makeForgingSums_spec:
  assumes "bh_blockNumber (bi_header bi) = Some n"
  shows "\<exists>fs. makeForgingSums bi = Inr fs \<and> fs_blockNumber fs = n \<and>
     fst ` set (fs_sums fs) = set getForgingIntStatuses \<and>
     (\<forall>s \<in> set getForgingIntStatuses. map_of (fs_sums fs) s =
        Some (sum_list (map tx_value (filter (\<lambda>tx. tx_intStatus tx = Some s) (bi_txs bi)))))"
proof -
  let ?init = "\<lparr>fs_sums = fold (\<lambda>status sums. AList.update status (0 :: u64) sums) getForgingIntStatuses [], fs_blockNumber = n\<rparr>"
  let ?fs = "fold add_forging (bi_txs bi) ?init"
  have keys0: "fst ` set (fs_sums ?init) = set getForgingIntStatuses" and zero: "get_or 0 (fs_sums ?init) s = 0" for s
    by (auto simp: getForgingIntStatuses_def tx_state_defs get_or_def)
  have keys: "fst ` set (fs_sums ?fs) = set getForgingIntStatuses"
    using fold_forging(2) [of ?init] keys0 by simp
  moreover have "map_of (fs_sums ?fs) s = Some (sum_list (map tx_value (filter (\<lambda>tx. tx_intStatus tx = Some s) (bi_txs bi))))"
    if "s \<in> set getForgingIntStatuses" for s
  proof -
    have "map_of (fs_sums ?fs) s \<noteq> None"
      using that unfolding map_of_None_fst keys by simp
    then obtain v where v: "map_of (fs_sums ?fs) s = Some v"
      by blast
    then show ?thesis
      using fold_forging(1) [of ?init "bi_txs bi" s] keys0 zero [of s] that by (simp add: get_or_def)
  qed
  ultimately show ?thesis
    using assms fold_forging(3) [of ?init "bi_txs bi"] keys0 by (simp add: makeForgingSums_def)
qed

theorem makeForgingSums_spec_witness:
  "\<exists>fs. makeForgingSums sample_empty_block = Inr fs \<and> fs_blockNumber fs = 1 \<and>
     fst ` set (fs_sums fs) = set getForgingIntStatuses"
  using makeForgingSums_spec [of sample_empty_block 1]
  by (auto simp: sample_empty_block_def BlockHeader_default_def)


subsection \<open>Two changes of a token in one block\<close>

lemma Token_read_back:
  assumes "Token_serialize t [] = Inr bs" and "length bs < 2 ^ 64"
  shows "\<exists>t'. Token_deserialize bs = Inr t' \<and> tk_allValue t' = tk_allValue t"
proof -
  obtain owner where owner: "toBdString (tk_owner t) = Inr owner"
    and bs: "bs = serializeString (tk_type t) @ serializeString owner @ serializeInt (tk_decimals t) @
      serializeInt (tk_beginValue t) @ serializeInt (tk_allValue t) @ serializeString (tk_symbol t) @
      serializeString (tk_name t) @ serializeInt (if tk_emission t then 1 else 0 :: byte) @ serializeString (tk_txHash t)"
    using assms(1) by (auto simp: Token_serialize_def Let_def bindE_Inr_iff)
  have "decodes Token_parser bs (t\<lparr>tk_owner := Address_of_range owner\<rparr>)"
    unfolding bs by (rule decodes_Token [OF owner])
  from decodes_whole [OF this assms(2)] show ?thesis
    by (auto simp: Token_deserialize_def bs)
qed

lemma add_tokens_step:
  assumes "changeTokenValue L d tx r = (Inr (), r')" and "tx_tokenInfo tx = Some (AddTokens to val)"
    and "\<not> isIntStatusNotSuccess tx" and "toBdString (tx_toAddress tx) = Inr key"
    and "map_of (wb_save (r_batch r)) (TOKEN_PREFIX @ key) = None"
    and "findToken L key d = Inr t" and "tk_type t \<noteq> []"
  shows "\<exists>bs. Token_serialize (t\<lparr>tk_allValue := tk_allValue t + val\<rparr>) [] = Inr bs \<and>
     wb_batch (r_batch r') = wb_batch (r_batch r) @ [Put (TOKEN_PREFIX @ key) bs] \<and>
     wb_save (r_batch r') = wb_save (r_batch r)"
proof -
  have k: "makeKey [Str TOKEN_PREFIX, Str key] = Inr (TOKEN_PREFIX @ key)"
    using toBdString_nonempty [OF assms(4)] by (simp add: makeKey_named)
  show ?thesis
    using assms by (auto simp: changeTokenValue_def processTokenOperation_def bindM_Inr liftM_def Batch_findToken_def
        findValueInBatch_def k onBatch_Inr addToken_def addKey_Inr addKeyInternal_def Let_def)
qed

text \<open>Two changes of a token in one block lose the first one. \<open>processTokenOperation\<close> looks for the
  token in the batch before it reads the database, but \<open>addToken\<close> does not keep what it writes for
  that look-up: after a block that emits twice, the stored amount of the token has grown by the
  second emission only.\<close>

theorem second_token_change_is_lost:
  assumes "leveldb_ok L contents"
    and "bindM (changeTokenValue L d tx1) (\<lambda>_. changeTokenValue L d tx2) r = (Inr (), r')" and "r_batch r = Batch_new"
    and "addBatch L (r_batch r') d = (d', Inr ())"
    and "tx_tokenInfo tx1 = Some (AddTokens to1 v1)" and "\<not> isIntStatusNotSuccess tx1"
    and "tx_tokenInfo tx2 = Some (AddTokens to2 v2)" and "\<not> isIntStatusNotSuccess tx2"
    and "toBdString (tx_toAddress tx1) = Inr key" and "toBdString (tx_toAddress tx2) = Inr key"
    and "findToken L key d = Inr t" and "tk_type t \<noteq> []"
    and "\<forall>bs. Token_serialize (t\<lparr>tk_allValue := tk_allValue t + v2\<rparr>) [] = Inr bs \<longrightarrow> length bs < 2 ^ 64"
  shows "\<exists>t'. findToken L key d' = Inr t' \<and> tk_allValue t' = tk_allValue t + v2"
proof -
  obtain r1 where r1: "changeTokenValue L d tx1 r = (Inr (), r1)" "changeTokenValue L d tx2 r1 = (Inr (), r')"
    using assms(2) by (auto simp: bindM_Inr)
  have "map_of (wb_save (r_batch r)) (TOKEN_PREFIX @ key) = None"
    by (simp add: assms(3) Batch_new_def)
  from add_tokens_step [OF r1(1) assms(5,6,9) this assms(11,12)]
  have "map_of (wb_save (r_batch r1)) (TOKEN_PREFIX @ key) = None"
    by (auto simp: assms(3) Batch_new_def)
  from add_tokens_step [OF r1(2) assms(7,8,10) this assms(11,12)]
  obtain bs where bs: "Token_serialize (t\<lparr>tk_allValue := tk_allValue t + v2\<rparr>) [] = Inr bs"
    and batch: "wb_batch (r_batch r') = wb_batch (r_batch r1) @ [Put (TOKEN_PREFIX @ key) bs]"
    by blast
  have "contents d' (TOKEN_PREFIX @ key) = Some bs"
    using addBatch_contents [OF assms(1,4)] batch by simp
  moreover have "makeKey [Str TOKEN_PREFIX, Str key] = Inr (TOKEN_PREFIX @ key)"
    using toBdString_nonempty [OF assms(9)] by (simp add: makeKey_named)
  ultimately have "findToken L key d' = Token_deserialize bs"
    by (simp add: findToken_def findValue_contents [OF assms(1)])
  then show ?thesis
    using Token_read_back [OF bs] assms(13) bs by simp
qed

definition sample_token :: Token where
  "sample_token = Token_default\<lparr>tk_type := [1], tk_owner := Address_of_range [2], tk_allValue := 10\<rparr>"

definition sample_token_bytes :: bytes where
  "sample_token_bytes = serializeString [1] @ serializeString [2] @ serializeInt (0 :: u32) @ serializeInt (0 :: u64) @
     serializeInt (10 :: u64) @ serializeString [] @ serializeString [] @ serializeInt (0 :: byte) @ serializeString []"

definition sample_emit :: "u64 \<Rightarrow> TransactionInfo" where
  "sample_emit v = TransactionInfo_default\<lparr>tx_toAddress := Address_of_range [3],
     tx_tokenInfo := Some (AddTokens (Address_of_range [2]) v)\<rparr>"

definition sample_run :: MainRun where
  "sample_run = \<lparr>r_batch = Batch_new, r_countVal = 0, r_delegateCache = [], r_balances = [],
     r_commonBalance = \<lparr>cb_money = 0, cb_blockNumber = 0\<rparr>, r_statusCache = Cache_empty\<rparr>"

lemma sample_token_stored: "findToken sample_leveldb [3] [(TOKEN_PREFIX @ [3], sample_token_bytes)] = Inr sample_token"
proof -
  have "decodes Token_parser sample_token_bytes (sample_token\<lparr>tk_owner := Address_of_range [2]\<rparr>)"
    using decodes_Token [of sample_token "[2]"]
    by (simp add: sample_token_bytes_def sample_token_def Token_default_def toBdString_def getBinaryString_def Address_of_range_def)
  from decodes_whole [OF this] have "Token_deserialize sample_token_bytes = Inr sample_token"
    by (simp add: Token_deserialize_def sample_token_bytes_def sample_token_def)
  moreover have "makeKey [Str TOKEN_PREFIX, Str [3]] = Inr (TOKEN_PREFIX @ [3])"
    by (simp add: makeKey_named)
  ultimately show ?thesis
    by (simp add: findToken_def findValue_contents [OF sample_leveldb_ok])
qed

theorem second_token_change_is_lost_witness:
  "\<exists>r' d' t'. bindM (changeTokenValue sample_leveldb [(TOKEN_PREFIX @ [3], sample_token_bytes)] (sample_emit 5))
       (\<lambda>_. changeTokenValue sample_leveldb [(TOKEN_PREFIX @ [3], sample_token_bytes)] (sample_emit 7)) sample_run = (Inr (), r') \<and>
     addBatch sample_leveldb (r_batch r') [(TOKEN_PREFIX @ [3], sample_token_bytes)] = (d', Inr ()) \<and>
     findToken sample_leveldb [3] d' = Inr t' \<and> tk_allValue t' = 17"
proof -
  let ?d = "[(TOKEN_PREFIX @ [3], sample_token_bytes)]"
  have key: "toBdString (Address_of_range [3]) = Inr [3]" and owner: "toBdString (Address_of_range [2]) = Inr [2]"
    by (simp_all add: toBdString_def getBinaryString_def Address_of_range_def)
  have k: "makeKey [Str TOKEN_PREFIX, Str [3]] = Inr (TOKEN_PREFIX @ [3])"
    by (simp add: makeKey_named)
  obtain r' where r': "bindM (changeTokenValue sample_leveldb ?d (sample_emit 5))
      (\<lambda>_. changeTokenValue sample_leveldb ?d (sample_emit 7)) sample_run = (Inr (), r')"
    using sample_token_stored
    by (simp add: bindM_def changeTokenValue_def sample_emit_def isIntStatusNotSuccess_def TransactionInfo_default_def
        processTokenOperation_def key owner liftM_def Batch_findToken_def findValueInBatch_def k sample_run_def Batch_new_def
        sample_token_def Token_default_def onBatch_def addToken_def addKey_def addKeyInternal_def Token_serialize_def Let_def)
  have commit: "addBatch sample_leveldb (r_batch r') ?d = (fold store_apply (wb_batch (r_batch r')) ?d, Inr ())"
    by (simp add: addBatch_def sample_leveldb_def)
  have "\<forall>bs. Token_serialize (sample_token\<lparr>tk_allValue := tk_allValue sample_token + 7\<rparr>) [] = Inr bs \<longrightarrow> length bs < 2 ^ 64"
    by (simp add: Token_serialize_def sample_token_def Token_default_def owner)
  from second_token_change_is_lost [OF sample_leveldb_ok r' _ commit _ _ _ _ _ _ sample_token_stored _ this,
      of "Address_of_range [2]" 5 "Address_of_range [2]"] r' commit
  show ?thesis
    by (simp add: sample_run_def sample_emit_def key isIntStatusNotSuccess_def TransactionInfo_default_def sample_token_def)
qed

end
