(* ===== verification/WorkerDelegates.thy ===== *)
theory WorkerDelegates
  imports WorkerMain DatabaseScans
begin

section \<open>Delegations are stacks\<close>

text \<open>
  What the main worker promises of delegations: for every pair of addresses a stack, over all
  blocks. A transaction that delegates pushes its value, one that takes a delegation back pops the
  newest one, or gets an empty one when there is none. The code keeps a stack in three places: the
  database, whose entries are ordered by a counter that counts down; the entries of the batch of the
  block that is being processed; and the list of the entries of the batch that have been taken back
  and are to be skipped in the database. \<open>delegate_stack\<close> is the abstraction relation.
\<close>

subsection \<open>The abstract stacks\<close>

definition db_name :: "Address \<Rightarrow> bytes" where
  "db_name a = (if addr a = [] then INITIAL_WALLET_TRANSACTION else addr a)"

definition delegate_pair :: "TransactionInfo \<Rightarrow> bytes" where
  "delegate_pair tx = makeKeyDelegatePair (db_name (tx_fromAddress tx)) (db_name (tx_toAddress tx))"

type_synonym stacks = "bytes \<Rightarrow> DelegateState list"

definition pushes :: "TransactionInfo \<Rightarrow> DelegateState option" where
  "pushes tx = (case tx_delegate tx of
     Some dl \<Rightarrow> (if di_isDelegate dl \<and> \<not> isIntStatusNotSuccess tx then Some \<lparr>ds_value = di_value dl, ds_hash = tx_hash tx\<rparr> else None)
   | None \<Rightarrow> None)"

definition pops :: "TransactionInfo \<Rightarrow> bool" where
  "pops tx = (case tx_delegate tx of Some dl \<Rightarrow> \<not> di_isDelegate dl | None \<Rightarrow> False)"

definition stacks_after :: "TransactionInfo \<Rightarrow> stacks \<Rightarrow> stacks" where
  "stacks_after tx S = (let p = delegate_pair tx in
     case pushes tx of Some st \<Rightarrow> S(p := st # S p) | None \<Rightarrow> if pops tx then S(p := tl (S p)) else S)"

definition top :: "DelegateState list \<Rightarrow> DelegateState" where
  "top sts = (case sts of [] \<Rightarrow> DelegateState_default | st # _ \<Rightarrow> st)"

definition status_of :: "u64 \<Rightarrow> TransactionInfo \<Rightarrow> stacks \<Rightarrow> TransactionStatus" where
  "status_of n tx S = (let st = top (S (delegate_pair tx)) in
     \<lparr>ts_isSuccess = pops tx \<or> pushes tx \<noteq> None, ts_transaction = tx_hash tx, ts_blockNumber = n,
      ts_status = (if pops tx then UnDelegate (ds_value st) (ds_hash st) else Delegate)\<rparr>)"

subsection \<open>How the stacks are stored\<close>

definition delegate_key :: "bytes \<Rightarrow> bytes" where
  "delegate_key p = DELEGATE_PREFIX @ p @ [DELEGATE_POSTFIX]"

definition entry_key :: "bytes \<Rightarrow> u64 \<Rightarrow> bytes" where
  "entry_key p n = delegate_key p @ serializeInt n"

definition reads_as :: "DelegateState \<Rightarrow> u64 \<times> bytes \<Rightarrow> bool" where
  "reads_as st e \<longleftrightarrow> DelegateState_deserialize (snd e) = Inr st \<and> ds_hash st \<noteq> []"

definition stored_stack :: "(bytes \<rightharpoonup> bytes) \<Rightarrow> u64 \<Rightarrow> bytes \<Rightarrow> DelegateState list \<Rightarrow> bool" where
  "stored_stack m c p sts \<longleftrightarrow>
     (\<exists>es. holds_entries m (delegate_key p) es \<and> (\<forall>e \<in> set es. c < fst e) \<and> list_all2 reads_as sts es)"

definition live :: "bytes \<Rightarrow> Batch \<Rightarrow> (u64 \<times> bytes) list \<Rightarrow> (u64 \<times> bytes) list" where
  "live p b es = filter (\<lambda>e. entry_key p (fst e) \<notin> set (wb_deleted b)) es"

text \<open>\<open>es\<close> are the entries of the database, \<open>cs\<close> those of the batch.\<close>

definition stack_entries :: "(bytes \<rightharpoonup> bytes) \<Rightarrow> MainRun \<Rightarrow> bytes \<Rightarrow> (u64 \<times> bytes) list \<Rightarrow> (u64 \<times> bytes) list \<Rightarrow> bool" where
  "stack_entries m r p cs es \<longleftrightarrow>
     holds_entries m (delegate_key p) es \<and>
     holds_entries (fold write_effect (wb_batch (r_batch r)) m) (delegate_key p) (cs @ live p (r_batch r) es) \<and>
     get_or [] (r_delegateCache r) p = map (\<lambda>e. entry_key p (fst e)) cs \<and>
     (\<forall>e \<in> set cs. map_of (wb_save (r_batch r)) (entry_key p (fst e)) = Some (snd e)) \<and>
     (\<forall>n. n \<le> r_countVal r \<longrightarrow> map_of (wb_save (r_batch r)) (entry_key p n) = None) \<and>
     (\<forall>e \<in> set (cs @ es). r_countVal r < fst e) \<and>
     (\<forall>c \<in> set cs. \<forall>e \<in> set es. fst c < fst e)"

definition delegate_stack :: "(bytes \<rightharpoonup> bytes) \<Rightarrow> MainRun \<Rightarrow> bytes \<Rightarrow> DelegateState list \<Rightarrow> bool" where
  "delegate_stack m r p sts \<longleftrightarrow>
     (\<exists>cs es. stack_entries m r p cs es \<and> list_all2 reads_as sts (cs @ live p (r_batch r) es))"

lemma entry_key_inject [simp]: "entry_key p n = entry_key p n' \<longleftrightarrow> n = n'"
  by (simp add: entry_key_def serializeInt_inject)

lemma entry_key_other: "length p = length q \<Longrightarrow> entry_key p n = delegate_key q @ s \<Longrightarrow> p = q"
  by (simp add: entry_key_def delegate_key_def)

lemma makeKey_delegate: "p \<noteq> [] \<Longrightarrow> makeKey [Str DELEGATE_PREFIX, Str p, Chr DELEGATE_POSTFIX] = Inr (delegate_key p)"
  "p \<noteq> [] \<Longrightarrow> makeKey [Str DELEGATE_PREFIX, Str p, Chr DELEGATE_POSTFIX, SerInt n] = Inr (entry_key p n)"
  by (simp_all add: makeKey_Inr entry_key_def delegate_key_def prefixes_neq_Nil [THEN not_sym])

lemma stored_stack_start:
  assumes "stored_stack m (r_countVal r) p sts" and "r_batch r = Batch_new" and "r_delegateCache r = []"
  shows "delegate_stack m r p sts"
proof -
  obtain es where es: "holds_entries m (delegate_key p) es" "\<forall>e \<in> set es. r_countVal r < fst e" "list_all2 reads_as sts es"
    using assms(1) by (auto simp: stored_stack_def)
  have "live p (r_batch r) es = es"
    by (simp add: live_def assms(2) Batch_new_def)
  then show ?thesis
    using es assms(2,3) by (intro delegate_stack_def [THEN iffD2] exI [of _ "[]"] exI [of _ es])
      (simp add: stack_entries_def Batch_new_def get_or_def)
qed

lemma stored_stack_commit:
  assumes ok: "leveldb_ok L contents" and commit: "addBatch L (r_batch r) d = (d', Inr ())"
    and stack: "delegate_stack (contents d) r p sts"
  shows "stored_stack (contents d') (r_countVal r) p sts"
proof -
  obtain cs es where e: "stack_entries (contents d) r p cs es" "list_all2 reads_as sts (cs @ live p (r_batch r) es)"
    using stack by (auto simp: delegate_stack_def)
  have "contents d' = fold write_effect (wb_batch (r_batch r)) (contents d)"
    by (rule addBatch_contents [OF ok commit])
  then show ?thesis
    using e unfolding stored_stack_def
    by (intro exI [of _ "cs @ live p (r_batch r) es"]) (auto simp: stack_entries_def live_def)
qed

subsection \<open>What leaves a stack alone\<close>

fun op_key :: "write_op \<Rightarrow> bytes" where
  "op_key (Put k v) = k"
| "op_key (Delete k) = k"

definition leaves :: "bytes \<Rightarrow> MainRun \<Rightarrow> MainRun \<Rightarrow> bool" where
  "leaves p r r' \<longleftrightarrow>
     (\<exists>ops. wb_batch (r_batch r') = wb_batch (r_batch r) @ ops \<and> (\<forall>w \<in> set ops. \<forall>s. op_key w \<noteq> delegate_key p @ s)) \<and>
     (\<forall>n. entry_key p n \<in> set (wb_deleted (r_batch r')) \<longleftrightarrow> entry_key p n \<in> set (wb_deleted (r_batch r))) \<and>
     (\<forall>n. map_of (wb_save (r_batch r')) (entry_key p n) = map_of (wb_save (r_batch r)) (entry_key p n)) \<and>
     get_or [] (r_delegateCache r') p = get_or [] (r_delegateCache r) p \<and>
     r_countVal r' \<le> r_countVal r"

lemma other_writes:
  assumes "\<forall>w \<in> set ops. \<forall>s. op_key w \<noteq> key @ s"
  shows "fold write_effect ops m (key @ s) = m (key @ s)"
  using assms
proof (induction ops arbitrary: m)
  case (Cons w ops)
  then show ?case by (cases w) auto
qed simp

lemma delegate_stack_leaves:
  assumes stack: "delegate_stack m r p sts" and l: "leaves p r r'"
  shows "delegate_stack m r' p sts"
proof -
  obtain cs es where e: "stack_entries m r p cs es" "list_all2 reads_as sts (cs @ live p (r_batch r) es)"
    using stack by (auto simp: delegate_stack_def)
  obtain ops where ops: "wb_batch (r_batch r') = wb_batch (r_batch r) @ ops" "\<forall>w \<in> set ops. \<forall>s. op_key w \<noteq> delegate_key p @ s"
    using l unfolding leaves_def by blast
  have live: "live p (r_batch r') es = live p (r_batch r) es"
    using l by (simp add: live_def leaves_def)
  have "holds_entries (fold write_effect (wb_batch (r_batch r')) m) (delegate_key p) (cs @ live p (r_batch r') es)"
    using e(1) unfolding live stack_entries_def holds_entries_def ops(1) fold_append comp_apply
    by (simp add: other_writes [OF ops(2)])
  moreover have "r_countVal r' \<le> r_countVal r"
    using l by (simp add: leaves_def)
  ultimately have "stack_entries m r' p cs es"
    using e(1) l unfolding stack_entries_def leaves_def
    by (auto simp del: set_append intro: order.trans le_less_trans)
  then show ?thesis
    using e(2) unfolding delegate_stack_def live [symmetric] by blast
qed

subsection \<open>Pushing\<close>

lemma decodes_DelegateState:
  "decodes DelegateState_parser (serializeInt (ds_value st) @ serializeString (ds_hash st)) st"
proof -
  have "decodes DelegateState_parser (serializeInt (ds_value st) @ serializeString (ds_hash st))
      \<lparr>ds_value = ds_value st, ds_hash = ds_hash st\<rparr>"
    unfolding DelegateState_parser_def by (rule decodes_string decodes_u64 decodes_map decodes_bind)+
  then show ?thesis by (cases st) simp
qed

lemma DelegateState_read_back:
  assumes "DelegateState_serialize st [] = Inr bs" and "length bs < 2 ^ 64"
  shows "reads_as st (n, bs)"
proof -
  have bs: "bs = serializeInt (ds_value st) @ serializeString (ds_hash st)" and hash: "ds_hash st \<noteq> []"
    using assms(1) by (auto simp: DelegateState_serialize_def Let_def result_simps)
  have "bs \<noteq> []"
    using bs length_serializeInt_u64 [of "ds_value st"] by auto
  then show ?thesis
    using decodes_whole [OF decodes_DelegateState] assms(2) hash
    by (simp add: reads_as_def DelegateState_deserialize_def bs)
qed

lemma add_delegate_step:
  assumes "add_delegate p st r = (Inr u, r')" and "p \<noteq> []"
  shows "\<exists>bs b. DelegateState_serialize st [] = Inr bs \<and> b = addKeyInternal (entry_key p (r_countVal r)) bs True (r_batch r) \<and>
     r' = push_delegate p (entry_key p (r_countVal r)) (r\<lparr>r_countVal := r_countVal r - 1, r_batch := b\<rparr>)"
  using assms
  by (auto simp: add_delegate_def bindM_def countVal_get_def Counter_get_def addDelegateKey_def makeKey_delegate
      addKey_def bindE_Inr_iff split: sum.splits prod.splits if_splits)

lemma add_delegate_stack:
  assumes "add_delegate p st r = (Inr u, r')" and "p \<noteq> []" and "delegate_stack m r p sts"
    and "length (ds_hash st) < 2 ^ 63" and "r_countVal r \<noteq> 0"
  shows "delegate_stack m r' p (st # sts)"
proof -
  let ?n = "r_countVal r"
  obtain cs es where e: "stack_entries m r p cs es" "list_all2 reads_as sts (cs @ live p (r_batch r) es)"
    using assms(3) by (auto simp: delegate_stack_def)
  obtain bs b where bs: "DelegateState_serialize st [] = Inr bs"
    and b: "b = addKeyInternal (entry_key p ?n) bs True (r_batch r)"
    and r': "r' = push_delegate p (entry_key p ?n) (r\<lparr>r_countVal := ?n - 1, r_batch := b\<rparr>)"
    using add_delegate_step [OF assms(1,2)] by blast
  have live: "live p b es = live p (r_batch r) es"
    by (simp add: live_def b addKeyInternal_def)
  have less: "?n - 1 < ?n"
    using assms(5) by (simp add: word_less_nat_alt unat_gt_0 unat_minus_one)
  have none: "map_of (wb_save (r_batch r)) (entry_key p ?n) = None"
    and fresh: "\<forall>x \<in> set (cs @ es). ?n < fst x"
    using e(1) by (simp_all add: stack_entries_def)
  have below: "?n < fst x" if "x \<in> set (cs @ live p (r_batch r) es)" for x
    using fresh that by (auto simp: live_def)
  have "stack_entries m r' p ((?n, bs) # cs) es"
  proof -
    have "holds_entries (fold write_effect (wb_batch (r_batch r)) m) (delegate_key p) (cs @ live p (r_batch r) es)"
      using e(1) by (simp add: stack_entries_def)
    from holds_entries_put [OF this below]
    have "holds_entries (fold write_effect (wb_batch b) m) (delegate_key p) (((?n, bs) # cs) @ live p b es)"
      unfolding live by (simp add: b entry_key_def)
    moreover have "map_of (wb_save b) (entry_key p n) =
        (if n = ?n then Some bs else map_of (wb_save (r_batch r)) (entry_key p n))" for n
      by (simp add: b addKeyInternal_def map_of_emplace none)
    moreover have "?n \<noteq> fst x" "?n - 1 < fst x" if "x \<in> set (cs @ es)" for x
      using fresh that less by (fastforce intro: less_trans)+
    ultimately show ?thesis
      using e(1) less fresh by (auto simp: stack_entries_def r' push_delegate_def get_or_def update_conv')
  qed
  moreover have "live p (r_batch r') es = live p (r_batch r) es"
    by (simp add: r' push_delegate_def live)
  moreover have "length bs < 2 ^ 64"
    using assms(4) bs by (auto simp: DelegateState_serialize_def Let_def result_simps)
  ultimately show ?thesis
    using e(2) DelegateState_read_back [OF bs]
    unfolding delegate_stack_def by (intro exI [of _ "(?n, bs) # cs"] exI [of _ es]) simp
qed

subsection \<open>Popping\<close>

lemma findDelegateKey_live:
  assumes ok: "leveldb_ok L contents" and p: "p \<noteq> []" and es: "holds_entries (contents d) (delegate_key p) es"
  shows "findDelegateKey L p (getDeletedDelegate b) d =
     (case live p b es of
        [] \<Rightarrow> Inr ([], DelegateState_default)
      | e # _ \<Rightarrow> bindE (DelegateState_deserialize (snd e)) (\<lambda>st. Inr (entry_key p (fst e), st)))"
proof -
  have c: "DELEGATE_POSTFIX \<noteq> - 1"
    by (simp add: DELEGATE_POSTFIX_def)
  have key: "(DELEGATE_PREFIX @ p) @ [DELEGATE_POSTFIX] = delegate_key p"
    by (simp add: delegate_key_def)
  have first: "findFirstOf L (delegate_key p) (wb_deleted b) d =
     (case find (\<lambda>(n, v). entry_key p n \<notin> set (wb_deleted b)) es of
        None \<Rightarrow> ([], []) | Some (n, v) \<Rightarrow> (entry_key p n, v))"
    using findFirstOf_entries [OF ok c, of d "DELEGATE_PREFIX @ p" es "wb_deleted b", unfolded key] es
    by (simp only: entry_key_def)
  have "find (\<lambda>(n, v). entry_key p n \<notin> set (wb_deleted b)) es = (case live p b es of [] \<Rightarrow> None | e # _ \<Rightarrow> Some e)"
    unfolding live_def by (induction es) (auto split: list.splits)
  then show ?thesis
    using first p
    by (auto simp: findDelegateKey_def makeKey_delegate getDeletedDelegate_def DelegateState_deserialize_def split: list.splits)
qed

text \<open>What \<open>take_delegate\<close> does when the newest entry is in the batch, and when it is in the database.\<close>

definition taken :: "bytes \<Rightarrow> u64 \<Rightarrow> MainRun \<Rightarrow> MainRun" where
  "taken p n r = r\<lparr>r_batch := removeDelegateKey (entry_key p n) (r_batch r)\<rparr>"

lemma take_delegate_cached:
  assumes "stack_entries m r p (e # cs) es" and "reads_as st e"
  shows "take_delegate L d p r = (Inr st, taken p (fst e) (pop_delegate p r))"
proof -
  have "get_or [] (r_delegateCache r) p = entry_key p (fst e) # map (\<lambda>e. entry_key p (fst e)) cs"
    and "map_of (wb_save (r_batch r)) (entry_key p (fst e)) = Some (snd e)"
    using assms(1) by (simp_all add: stack_entries_def)
  then show ?thesis
    using assms(2)
    by (simp add: take_delegate_def bindM_def getM_def modifyM_def Batch_findDelegateKey_def findValueInBatch_def
        pop_delegate_def reads_as_def liftM_def onBatch_def returnM_def taken_def)
qed

lemma take_delegate_stored:
  assumes "leveldb_ok L contents" and "p \<noteq> []" and "stack_entries (contents d) r p [] es"
    and "live p (r_batch r) es = e # rest" and "reads_as st e"
  shows "take_delegate L d p r = (Inr st, taken p (fst e) r)"
proof -
  have "holds_entries (contents d) (delegate_key p) es" and "get_or [] (r_delegateCache r) p = []"
    using assms(3) by (simp_all add: stack_entries_def)
  then show ?thesis
    using assms(5) findDelegateKey_live [OF assms(1,2), of d es "r_batch r"]
    by (simp add: take_delegate_def bindM_def getM_def assms(4) reads_as_def liftM_def onBatch_def returnM_def
        taken_def entry_key_def)
qed

lemma take_delegate_none:
  assumes "leveldb_ok L contents" and "p \<noteq> []" and "stack_entries (contents d) r p [] es"
    and "live p (r_batch r) es = []"
  shows "take_delegate L d p r = (Inr DelegateState_default, r)"
proof -
  have "holds_entries (contents d) (delegate_key p) es" and "get_or [] (r_delegateCache r) p = []"
    using assms(3) by (simp_all add: stack_entries_def)
  then show ?thesis
    using findDelegateKey_live [OF assms(1,2), of d es "r_batch r"]
    by (simp add: take_delegate_def bindM_def getM_def assms(4) returnM_def)
qed

lemma removed_lookup [simp]:
  "wb_batch (removeDelegateKey k b) = wb_batch b @ [Delete k]"
  "map_of (wb_save (removeDelegateKey k b)) = (map_of (wb_save b))(k := None)"
  "set (wb_deleted (removeDelegateKey k b)) = insert k (set (wb_deleted b))"
  by (simp_all add: removeDelegateKey_def removeValue_def Let_def AList.delete_conv' fun_upd_def)

lemma live_removed: "live p (removeDelegateKey (entry_key p n) b) es = filter (\<lambda>e. fst e \<noteq> n) (live p b es)"
  by (auto simp: live_def intro: filter_cong)

lemma filter_first:
  fixes e :: "u64 \<times> bytes"
  assumes "sorted_wrt (<) (map fst (e # es))"
  shows "filter (\<lambda>x. fst x \<noteq> fst e) (e # es) = es"
proof -
  have "\<forall>x \<in> set es. fst x \<noteq> fst e"
    using assms by fastforce
  then show ?thesis
    by (simp add: filter_id_conv)
qed

lemma entry_key_apart:
  assumes "length q = length p" and "q \<noteq> p"
  shows "entry_key p n \<noteq> delegate_key q @ s" and "entry_key q n' \<noteq> entry_key p n"
  using entry_key_other [of p q n] assms unfolding entry_key_def by metis+

lemma leaves_refl: "leaves q r r"
  by (simp add: leaves_def)

lemma leaves_taken:
  assumes "length q = length p" and "q \<noteq> p"
  shows "leaves q r (taken p n r)" and "leaves q r (taken p n (pop_delegate p r))"
  using entry_key_apart [OF assms] assms(2)
  by (auto simp: leaves_def taken_def pop_delegate_def get_or_def update_conv')

lemma leaves_push:
  assumes "add_delegate p st r = (Inr u, r')" and "p \<noteq> []" and "r_countVal r \<noteq> 0"
    and "length q = length p" and "q \<noteq> p"
  shows "leaves q r r'"
proof -
  have "r_countVal r - 1 \<le> r_countVal r"
    using assms(3) by (simp add: word_le_nat_alt unat_gt_0 unat_minus_one)
  then show ?thesis
    using add_delegate_step [OF assms(1,2)] entry_key_apart [OF assms(4,5)] assms(5)
    by (auto simp: leaves_def push_delegate_def get_or_def update_conv' addKeyInternal_def map_of_emplace split: option.splits)
qed

lemma take_delegate_stack:
  assumes ok: "leveldb_ok L contents" and p: "p \<noteq> []" and stack: "delegate_stack (contents d) r p sts"
  shows "\<exists>r'. take_delegate L d p r = (Inr (top sts), r') \<and> delegate_stack (contents d) r' p (tl sts) \<and>
     r_countVal r' = r_countVal r \<and> (\<forall>q. length q = length p \<longrightarrow> q \<noteq> p \<longrightarrow> leaves q r r')"
proof -
  obtain cs es where e: "stack_entries (contents d) r p cs es" and reads: "list_all2 reads_as sts (cs @ live p (r_batch r) es)"
    using stack by (auto simp: delegate_stack_def)
  have now: "holds_entries (fold write_effect (wb_batch (r_batch r)) (contents d)) (delegate_key p) (cs @ live p (r_batch r) es)"
    using e by (simp add: stack_entries_def)
  show ?thesis
  proof (cases cs)
    case (Cons x xs)
    obtain st sts' where sts: "sts = st # sts'" "reads_as st x" "list_all2 reads_as sts' (xs @ live p (r_batch r) es)"
      using reads Cons by (auto simp: list_all2_Cons2)
    let ?r = "taken p (fst x) (pop_delegate p r)"
    have live: "live p (r_batch ?r) es = live p (r_batch r) es"
    proof -
      have "fst x \<noteq> fst y" if "y \<in> set es" for y
        using e Cons that by (fastforce simp: stack_entries_def)
      then show ?thesis
        by (force simp: taken_def pop_delegate_def live_removed live_def intro!: filter_cong)
    qed
    have "xs @ live p (r_batch r) es = filter (\<lambda>y. fst y \<noteq> fst x) (x # xs @ live p (r_batch r) es)"
      using now Cons filter_first [of x "xs @ live p (r_batch r) es"] by (simp add: holds_entries_def)
    then have "holds_entries (fold write_effect (wb_batch (r_batch ?r)) (contents d)) (delegate_key p) (xs @ live p (r_batch ?r) es)"
      using holds_entries_remove [OF now, of "fst x"] Cons
      unfolding live by (simp add: taken_def pop_delegate_def entry_key_def del: filter.simps)
    moreover have "\<forall>y \<in> set xs. fst x < fst y"
      using now Cons by (simp add: holds_entries_def)
    then have "\<forall>y \<in> set xs. fst x \<noteq> fst y"
      by (metis less_irrefl)
    ultimately have "stack_entries (contents d) ?r p xs es"
      using e Cons \<open>\<forall>y \<in> set xs. fst x \<noteq> fst y\<close> by (auto simp: stack_entries_def taken_def pop_delegate_def get_or_def update_conv')
    moreover have "take_delegate L d p r = (Inr (top sts), ?r)"
      using take_delegate_cached [of "contents d" r p x xs es st] e Cons sts by (simp add: top_def)
    ultimately show ?thesis
      using sts live leaves_taken(2) by (fastforce simp: delegate_stack_def taken_def pop_delegate_def)
  next
    case Nil
    show ?thesis
    proof (cases "live p (r_batch r) es")
      case empty: Nil
      then have "sts = []"
        using reads \<open>cs = []\<close> by simp
      then show ?thesis
        using take_delegate_none [OF ok p _ empty] e stack \<open>cs = []\<close> by (simp add: top_def leaves_refl)
    next
      case (Cons x rest)
      obtain st sts' where sts: "sts = st # sts'" "reads_as st x" "list_all2 reads_as sts' rest"
        using reads Cons \<open>cs = []\<close> by (auto simp: list_all2_Cons2)
      let ?r = "taken p (fst x) r"
      have rest: "filter (\<lambda>y. fst y \<noteq> fst x) (live p (r_batch r) es) = rest"
        using now Cons \<open>cs = []\<close> filter_first [of x rest] by (simp add: holds_entries_def)
      then have live: "live p (r_batch ?r) es = rest"
        by (simp add: taken_def live_removed)
      have "holds_entries (fold write_effect (wb_batch (r_batch ?r)) (contents d)) (delegate_key p) ([] @ live p (r_batch ?r) es)"
        using holds_entries_remove [OF now, of "fst x"] rest \<open>cs = []\<close>
        unfolding live by (simp add: taken_def entry_key_def)
      then have "stack_entries (contents d) ?r p [] es"
        using e \<open>cs = []\<close> by (auto simp: stack_entries_def taken_def)
      moreover have "take_delegate L d p r = (Inr (top sts), ?r)"
        using take_delegate_stored [OF ok p _ Cons sts(2)] e sts(1) \<open>cs = []\<close> by (simp add: top_def)
      ultimately show ?thesis
        using sts live leaves_taken(1) by (fastforce simp: delegate_stack_def taken_def)
    qed
  qed
qed

subsection \<open>One transaction\<close>

lemma getBinaryString_name: "getBinaryString a = Inr s \<Longrightarrow> s = db_name a"
  by (auto simp: getBinaryString_def db_name_def bindE_Inr_iff)

definition delegate_stacks :: "(bytes \<rightharpoonup> bytes) \<Rightarrow> nat \<Rightarrow> MainRun \<Rightarrow> stacks \<Rightarrow> bool" where
  "delegate_stacks m k r S \<longleftrightarrow> (\<forall>p. length p = k \<longrightarrow> delegate_stack m r p (S p))"

definition stored_stacks :: "(bytes \<rightharpoonup> bytes) \<Rightarrow> nat \<Rightarrow> u64 \<Rightarrow> stacks \<Rightarrow> bool" where
  "stored_stacks m k c S \<longleftrightarrow> (\<forall>p. length p = k \<longrightarrow> stored_stack m c p (S p))"

lemma delegate_stacks_update:
  assumes "delegate_stacks m k r S" and "length p = k" and "delegate_stack m r' p sts"
    and "\<forall>q. length q = length p \<longrightarrow> q \<noteq> p \<longrightarrow> leaves q r r'"
  shows "delegate_stacks m k r' (S(p := sts))"
  using assms delegate_stack_leaves unfolding delegate_stacks_def by (metis fun_upd_apply)

lemma delegate_pair_nonempty: "delegate_pair tx \<noteq> []"
  by (simp add: delegate_pair_def makeKeyDelegatePair_def)

lemma calcTransactionStatusDelegate_stacks:
  assumes ok: "leveldb_ok L contents" and calc: "calcTransactionStatusDelegate L d tx n r = (Inr st, r')"
    and stacks: "delegate_stacks (contents d) k r S" and k: "length (delegate_pair tx) = k"
    and count: "r_countVal r \<noteq> 0" and hash: "length (tx_hash tx) < 2 ^ 63"
  shows "st = status_of n tx S \<and> delegate_stacks (contents d) k r' (stacks_after tx S) \<and>
     unat (r_countVal r) \<le> unat (r_countVal r') + 1"
proof -
  obtain dl where dl: "tx_delegate tx = Some dl"
    using calc by (auto simp: calcTransactionStatusDelegate_def liftM_def split: option.splits)
  let ?p = "delegate_pair tx"
  have p: "delegate_stack (contents d) r ?p (S ?p)"
    using stacks k by (simp add: delegate_stacks_def)
  note unf = calc [unfolded calcTransactionStatusDelegate_def dl option.case]
  obtain a b where a: "getBinaryString (tx_fromAddress tx) = Inr a" and b: "getBinaryString (tx_toAddress tx) = Inr b"
    using unf by (auto simp: bindM_def liftM_def split: sum.splits)
  have pair: "makeKeyDelegatePair a b = ?p"
    using getBinaryString_name [OF a] getBinaryString_name [OF b] by (simp add: delegate_pair_def)
  show ?thesis
  proof (cases "di_isDelegate dl")
    case taking: False
    obtain r1 where r1: "take_delegate L d ?p r = (Inr (top (S ?p)), r1)" "delegate_stack (contents d) r1 ?p (tl (S ?p))"
      "r_countVal r1 = r_countVal r" "\<forall>q. length q = length ?p \<longrightarrow> q \<noteq> ?p \<longrightarrow> leaves q r r1"
      using take_delegate_stack [OF ok delegate_pair_nonempty p] by blast
    have "r' = r1" and "st = status_of n tx S"
      using unf taking r1(1) by (auto simp: bindM_def liftM_def a b pair Let_def returnM_def status_of_def pops_def pushes_def dl)
    then show ?thesis
      using delegate_stacks_update [OF stacks k r1(2,4)] r1(3) taking
      by (simp add: stacks_after_def pushes_def pops_def dl Let_def)
  next
    case giving: True
    show ?thesis
    proof (cases "isIntStatusNotSuccess tx")
      case True
      then show ?thesis
        using unf giving stacks
        by (auto simp: bindM_def liftM_def a b Let_def returnM_def whenM_def status_of_def pops_def pushes_def dl stacks_after_def)
    next
      case False
      let ?st = "\<lparr>ds_value = di_value dl, ds_hash = tx_hash tx\<rparr>"
      have add: "add_delegate ?p ?st r = (Inr (), r')" and st: "st = status_of n tx S"
        using unf giving False
        by (auto simp: bindM_def liftM_def a b pair Let_def returnM_def whenM_def status_of_def pops_def pushes_def dl
            split: prod.splits sum.splits)
      have "delegate_stack (contents d) r' ?p (?st # S ?p)"
        by (rule add_delegate_stack [OF add delegate_pair_nonempty p]) (use hash count in simp_all)
      then have "delegate_stacks (contents d) k r' (S(?p := ?st # S ?p))"
        by (rule delegate_stacks_update [OF stacks k]) (use leaves_push [OF add delegate_pair_nonempty count] in blast)
      moreover have "r_countVal r' = r_countVal r - 1"
        using add_delegate_step [OF add delegate_pair_nonempty] by (auto simp: push_delegate_def)
      ultimately show ?thesis
        using st giving False count by (simp add: stacks_after_def pushes_def dl unat_minus_one Let_def)
    qed
  qed
qed

end
