(* ===== verification/WorkerTurns.thy ===== *)
theory WorkerTurns
  imports WorkerDelegates WorkerMainProps
begin

section \<open>The turns of the main worker keep the stacks of delegations\<close>

text \<open>
  Everything else a turn does (the logs of the addresses, the tokens, the balances, the sums) leaves
  the stacks alone: \<open>frames\<close> says so of a part of a turn, together with a bound on the numbers it
  takes from the counter. With it, a turn that saves a block refines the abstract stacks.
\<close>

subsection \<open>Framing\<close>

definition frames :: "nat \<Rightarrow> bytes \<Rightarrow> 'a run \<Rightarrow> bool" where
  "frames B p m \<longleftrightarrow> (\<forall>r x r'. m r = (x, r') \<longrightarrow> B \<le> unat (r_countVal r) \<longrightarrow>
     r_countVal r' \<le> r_countVal r \<and> unat (r_countVal r) \<le> unat (r_countVal r') + B \<and>
     ((\<exists>y. x = Inr y) \<longrightarrow> leaves p r r'))"

lemma leaves_trans: "leaves p r r1 \<Longrightarrow> leaves p r1 r2 \<Longrightarrow> leaves p r r2"
proof -
  assume a: "leaves p r r1" "leaves p r1 r2"
  obtain o1 where o1: "wb_batch (r_batch r1) = wb_batch (r_batch r) @ o1" "\<forall>w \<in> set o1. \<forall>s. op_key w \<noteq> delegate_key p @ s"
    using a(1) unfolding leaves_def by blast
  obtain o2 where o2: "wb_batch (r_batch r2) = wb_batch (r_batch r1) @ o2" "\<forall>w \<in> set o2. \<forall>s. op_key w \<noteq> delegate_key p @ s"
    using a(2) unfolding leaves_def by blast
  have "wb_batch (r_batch r2) = wb_batch (r_batch r) @ (o1 @ o2)" "\<forall>w \<in> set (o1 @ o2). \<forall>s. op_key w \<noteq> delegate_key p @ s"
    using o1 o2 by auto
  then show ?thesis
    using a unfolding leaves_def by (intro conjI exI [of _ "o1 @ o2"]) auto
qed

lemma frames_weaken:
  assumes "frames B p m" and "B \<le> C"
  shows "frames C p m"
proof -
  have step: "r_countVal r' \<le> r_countVal r \<and> unat (r_countVal r) \<le> unat (r_countVal r') + B \<and> ((\<exists>y. x = Inr y) \<longrightarrow> leaves p r r')"
    if "m r = (x, r')" "B \<le> unat (r_countVal r)" for r x r'
    using assms(1) that unfolding frames_def by blast
  show ?thesis
    unfolding frames_def
  proof (intro allI impI)
    fix r x r' assume "m r = (x, r')" "C \<le> unat (r_countVal r)"
    then show "r_countVal r' \<le> r_countVal r \<and> unat (r_countVal r) \<le> unat (r_countVal r') + C \<and>
        ((\<exists>y. x = Inr y) \<longrightarrow> leaves p r r')"
      using step [of r x r'] assms(2) by simp
  qed
qed

lemma frames_bind:
  assumes "frames B p m" and "\<And>x. frames C p (f x)"
  shows "frames (B + C) p (bindM m f)"
  unfolding frames_def
proof (intro allI impI)
  fix r x r' assume run: "bindM m f r = (x, r')" and count: "B + C \<le> unat (r_countVal r)"
  obtain y r1 where y: "m r = (y, r1)"
    by fastforce
  have B: "r_countVal r1 \<le> r_countVal r" "unat (r_countVal r) \<le> unat (r_countVal r1) + B"
    "(\<exists>z. y = Inr z) \<longrightarrow> leaves p r r1"
    using assms(1) y count unfolding frames_def by auto
  show "r_countVal r' \<le> r_countVal r \<and> unat (r_countVal r) \<le> unat (r_countVal r') + (B + C) \<and> ((\<exists>y. x = Inr y) \<longrightarrow> leaves p r r')"
  proof (cases y)
    case (Inl e)
    then show ?thesis
      using run y B by (auto simp: bindM_def)
  next
    case (Inr z)
    then have "f z r1 = (x, r')"
      using run y by (simp add: bindM_def)
    then have "r_countVal r' \<le> r_countVal r1" "unat (r_countVal r1) \<le> unat (r_countVal r') + C"
      "(\<exists>z. x = Inr z) \<longrightarrow> leaves p r1 r'"
      using assms(2) [of z] B(2) count unfolding frames_def by auto
    then show ?thesis
      using B Inr by (auto intro: order.trans leaves_trans)
  qed
qed

lemma frames_bind0: "frames 0 p m \<Longrightarrow> (\<And>x. frames C p (f x)) \<Longrightarrow> frames C p (bindM m f)"
  using frames_bind [of 0 p m C f] by simp

text \<open>Parts that do not touch the run, or only other members of it.\<close>

lemma frames_pure: "(\<And>r. snd (m r) = r) \<Longrightarrow> frames 0 p m"
  by (auto simp: frames_def leaves_refl dest: arg_cong [where f = snd])

lemma frames_basic [simp]: "frames 0 p (returnM x)" "frames 0 p (liftM y)" "frames 0 p (getM g)"
  by (rule frames_pure; simp add: returnM_def liftM_def getM_def)+

lemma frames_return [simp]: "frames B p (returnM x)"
  by (rule frames_weaken [of 0]) simp_all

lemma frames_when: "frames B p m \<Longrightarrow> frames B p (whenM c m)"
  by (simp add: whenM_def)

lemma frames_count: "frames 1 p countVal_get"
proof -
  have "r_countVal r - 1 \<le> r_countVal r \<and> unat (r_countVal r) \<le> unat (r_countVal r - 1) + 1" if "1 \<le> unat (r_countVal r)" for r
  proof -
    have "r_countVal r \<noteq> 0"
      using that by auto
    then show ?thesis
      using that by (simp add: word_le_nat_alt unat_minus_one)
  qed
  then show ?thesis
    by (auto simp: frames_def countVal_get_def Counter_get_def leaves_def)
qed

lemma frames_balance [simp]: "frames 0 p (onBalance a f)"
  by (auto simp: frames_def onBalance_def leaves_def split: sum.splits)

lemma frames_forM: "(\<And>x. x \<in> set xs \<Longrightarrow> frames (B x) p (f x)) \<Longrightarrow> frames (sum_list (map B xs)) p (forM xs f)"
  by (induction xs) (auto intro!: frames_bind)

lemma frames_forM0: "(\<And>x. frames 0 p (f x)) \<Longrightarrow> frames 0 p (forM xs f)"
  by (induction xs) (auto intro!: frames_bind0)

text \<open>Writes of other kinds.\<close>

lemma batch_write_shape:
  assumes "batch_write w b = Inr b'"
  shows "\<exists>sv. b' = removeValue (wr_prefix w @ wr_rest w) sv b \<or> (\<exists>bs. b' = addKeyInternal (wr_prefix w @ wr_rest w) bs sv b)"
  using assms by (cases w) (auto simp: batch_defs addKey_def makeKey_Inr bindE_Inr_iff)

lemma frames_write:
  assumes "wr_prefix w \<noteq> DELEGATE_PREFIX"
  shows "frames 0 p (onBatch (batch_write w))"
proof -
  have apart: "wr_prefix w @ wr_rest w \<noteq> DELEGATE_PREFIX @ s" for s
    by (rule other_prefix [OF assms]) (simp add: all_prefixes_def)
  then have key: "wr_prefix w @ wr_rest w \<noteq> delegate_key p @ s" and key': "entry_key p n \<noteq> wr_prefix w @ wr_rest w" for s n
    by (simp_all add: delegate_key_def entry_key_def not_sym)
  have "leaves p r (r\<lparr>r_batch := b\<rparr>)" if "batch_write w (r_batch r) = Inr b" for r b
    using batch_write_shape [OF that]
  proof (elim exE disjE)
    fix sv assume "b = removeValue (wr_prefix w @ wr_rest w) sv (r_batch r)"
    then show ?thesis
      using key key' by (simp add: leaves_def removeValue_def Let_def AList.delete_conv')
  next
    fix sv bs assume "b = addKeyInternal (wr_prefix w @ wr_rest w) bs sv (r_batch r)"
    then show ?thesis
      using key key' by (simp add: leaves_def addKeyInternal_def Let_def map_of_emplace split: option.splits)
  qed
  then show ?thesis
    by (auto simp: frames_def onBatch_def split: sum.splits)
qed

subsection \<open>The parts of a turn\<close>

lemma frames_writeI: "wr_prefix w \<noteq> DELEGATE_PREFIX \<Longrightarrow> (\<And>b. f b = batch_write w b) \<Longrightarrow> frames 0 p (onBatch f)"
  using frames_write [of w p] by (simp add: onBatch_def [abs_def])

lemma frames_writes:
  "frames 0 p (onBatch (addTransaction h tx))" "frames 0 p (onBatch (addTransactionStatus h st))"
  "frames 0 p (onBatch (addAddress a i c))" "frames 0 p (onBatch (addAddressToken a i c))"
  "frames 0 p (onBatch (addAddressStatus (makeAddressStatusKey a h) st))" "frames 0 p (onBatch (addToken a t))"
  "frames 0 p (onBatch (removeToken a))" "frames 0 p (onBatch (addAllForgedSums fs))"
  "frames 0 p (onBatch (addBalance a bal))" "frames 0 p (onBatch (addCommonBalance cb))" "frames 0 p (onBatch (addMainBlock mb))"
  using frames_writeI [of "WTransaction h tx"] frames_writeI [of "WTransactionStatus h st"] frames_writeI [of "WAddress a i c"]
    frames_writeI [of "WAddressToken a i c"] frames_writeI [of "WAddressStatus a h st"] frames_writeI [of "WToken a t"]
    frames_writeI [of "WRemoveToken a"] frames_writeI [of "WAllForgedSums fs"] frames_writeI [of "WBalance a bal"]
    frames_writeI [of "WCommonBalance cb"] frames_writeI [of "WMainBlock mb"]
  by (simp_all add: prefix_defs)

lemma frames_modify:
  "frames 0 p (modifyM (\<lambda>r. r\<lparr>r_statusCache := f r\<rparr>))" "frames 0 p (modifyM (\<lambda>r. r\<lparr>r_commonBalance := g r\<rparr>))"
  by (simp_all add: frames_def modifyM_def leaves_def)

lemma frames_find: "frames 0 p (\<lambda>r. (f r, r))"
  by (rule frames_pure) simp

lemmas frames_rules = frames_bind0 frames_when frames_writes frames_modify frames_find frames_basic frames_return frames_balance

lemma frames_saves:
  "frames 0 p (saveTransaction tx)" "frames 0 p (save_status st att)" "frames 0 p (save_address_status st a)"
  "frames 0 p (saveAddressBalance tx a forging)"
  by (simp_all add: saveTransaction_def save_status_def save_address_status_def saveAddressBalance_def frames_rules)

lemma frames_logs: "frames 1 p (saveAddressTransaction tx a)" "frames 1 p (saveAddressTokenTransaction tx a)"
proof -
  have count: "frames 1 p (bindM countVal_get f)" if "\<And>c. frames 0 p (f c)" for f :: "u64 \<Rightarrow> unit run"
    using frames_bind [OF frames_count that] by simp
  show "frames 1 p (saveAddressTransaction tx a)" "frames 1 p (saveAddressTokenTransaction tx a)"
    unfolding saveAddressTransaction_def saveAddressTokenTransaction_def Let_def
    by (intro frames_bind0 frames_basic count frames_writes)+
qed

lemma frames_balances:
  "frames 0 p (saveAddressBalanceDelegate tx st a)" "frames 0 p (save_token_balances env tx)"
proof -
  have "frames 0 p (distribute tx ds rest)" for ds rest
    by (induction tx ds rest rule: distribute.induct) (simp_all add: frames_rules)
  then show "frames 0 p (saveAddressBalanceDelegate tx st a)" "frames 0 p (save_token_balances env tx)"
    by (auto simp: saveAddressBalanceDelegate_def save_token_balances_def saveAddressBalanceCreateToken_def
        saveAddressBalanceAddToken_def saveAddressBalanceMoveToken_def saveAddressBalanceBurnToken_def frames_rules
        split: option.split TokenInfo.split)
qed

lemma frames_token_op: "frames 0 p (processTokenOperation L d token f)"
  by (auto simp: processTokenOperation_def frames_rules split: option.split)

lemma frames_changes:
  "frames 0 p (changeTokenOwner L d tx)" "frames 0 p (changeTokenEmission L d tx)" "frames 0 p (changeTokenValue L d tx)"
  by (auto simp: changeTokenOwner_def changeTokenEmission_def changeTokenValue_def frames_token_op split: option.split TokenInfo.split)

text \<open>How many numbers a transaction takes from the counter.\<close>

fun token_uses :: "TokenInfo \<Rightarrow> nat" where
  "token_uses (Create c) = 1 + length (ct_beginDistribution c)"
| "token_uses (ChangeOwner _) = 2"
| "token_uses (ChangeEmission _) = 1"
| "token_uses (AddTokens _ _) = 1"
| "token_uses (MoveTokens _ _) = 2"
| "token_uses (BurnTokens _) = 1"

definition tx_uses :: "TransactionInfo \<Rightarrow> nat" where
  "tx_uses tx = 3 + (case tx_tokenInfo tx of None \<Rightarrow> 0 | Some info \<Rightarrow> token_uses info)"

lemma frames_token_info: "frames (token_uses info) p (save_token_info L d tx info)"
proof (cases info)
  case (Create c)
  have "frames (sum_list (map (\<lambda>_. 1) (ct_beginDistribution c))) p
      (forM (ct_beginDistribution c) (\<lambda>(address, val). saveAddressTokenTransaction tx address))"
    by (rule frames_forM) (auto simp del: One_nat_def intro: frames_logs)
  then have "frames (length (ct_beginDistribution c)) p
      (forM (ct_beginDistribution c) (\<lambda>(address, val). saveAddressTokenTransaction tx address))"
    by (simp add: sum_list_triv)
  then show ?thesis
    unfolding save_token_info_def Create TokenInfo.case token_uses.simps
    by (intro frames_bind0 frames_basic frames_writes frames_bind [OF frames_logs(2)])
next
  case (ChangeOwner x)
  have "frames (1 + 1) p (bindM (saveAddressTokenTransaction tx (tx_fromAddress tx)) (\<lambda>_. saveAddressTokenTransaction tx x))"
    by (intro frames_bind frames_logs)
  then show ?thesis
    by (simp add: save_token_info_def ChangeOwner frames_bind0 frames_changes numeral_2_eq_2)
next
  case (MoveTokens to v)
  have "frames (1 + 1) p (bindM (saveAddressTokenTransaction tx (tx_fromAddress tx)) (\<lambda>_.
      bindM (liftM (Address_eq (tx_fromAddress tx) to)) (\<lambda>same. whenM (\<not> same) (saveAddressTokenTransaction tx to))))"
    by (intro frames_bind frames_bind0 frames_basic frames_when frames_logs)
  then show ?thesis
    by (simp add: save_token_info_def MoveTokens numeral_2_eq_2)
qed (simp_all add: save_token_info_def frames_bind0 frames_changes frames_logs [simplified])

lemma frames_toLeveldb: "frames 1 p (toLeveldb env header address tx st)"
proof -
  have X: "frames (1 + 0) p (bindM (saveAddressTransaction tx address) (\<lambda>_.
      case st of None \<Rightarrow> returnM () | Some st \<Rightarrow> save_address_status st address))"
    by (intro frames_bind frames_logs) (auto simp: frames_saves split: option.split)
  have "frames (1 + 0 + 0) p (bindM (whenM (MODULE_ADDR_TXS (env_modules env)) (bindM (saveAddressTransaction tx address) (\<lambda>_.
      case st of None \<Rightarrow> returnM () | Some st \<Rightarrow> save_address_status st address))) (\<lambda>_.
      whenM (MODULE_BALANCE (env_modules env)) (bindM (saveAddressBalance tx address (isForgingBlock header)) (\<lambda>_.
        case st of Some st \<Rightarrow> whenM (tx_delegate tx \<noteq> None) (saveAddressBalanceDelegate tx st address) | None \<Rightarrow> returnM ()))))"
    by (intro frames_bind [OF frames_when [OF X]] frames_when frames_bind0 frames_saves)
      (auto simp: frames_balances frames_when split: option.split)
  then show ?thesis
    unfolding toLeveldb_def by (intro frames_bind0 frames_basic) simp_all
qed

lemma frames_tx_records:
  "frames (case tx_tokenInfo tx of None \<Rightarrow> 0 | Some info \<Rightarrow> token_uses info) p (save_tx_records L d tx st att)"
  unfolding save_tx_records_def
  by (intro frames_bind0 frames_saves) (auto intro!: frames_when simp: frames_token_info frames_saves split: option.split)

lemma frames_common_balance: "frames 0 p (save_common_balance header n up tx)"
  by (simp add: save_common_balance_def frames_rules)

text \<open>A transaction after its delegation.\<close>

definition tx_rest :: "main_env \<Rightarrow> 'd leveldb \<Rightarrow> 'd \<Rightarrow> BlockHeader \<Rightarrow> u64 \<Rightarrow> TransactionInfo \<Rightarrow> TransactionStatus option \<Rightarrow> unit run" where
  "tx_rest env L d header blockNumber tx st =
     bindM (toLeveldb env header (tx_fromAddress tx) tx st) (\<lambda>_.
     bindM (liftM (Address_eq (tx_fromAddress tx) (tx_toAddress tx))) (\<lambda>same.
     bindM (whenM (\<not> same) (toLeveldb env header (tx_toAddress tx) tx st)) (\<lambda>_.
     bindM (whenM (MODULE_TXS (env_modules env)) (save_tx_records L d tx st (to_string blockNumber))) (\<lambda>_.
     whenM (MODULE_BALANCE (env_modules env)) (save_token_balances env tx)))))"

lemma frames_tx_rest: "frames (tx_uses tx - 1) p (tx_rest env L d header n tx st)"
proof -
  let ?u = "case tx_tokenInfo tx of None \<Rightarrow> 0 | Some info \<Rightarrow> token_uses info"
  have "frames (1 + (1 + (?u + 0))) p (tx_rest env L d header n tx st)"
    unfolding tx_rest_def
    by (intro frames_bind0 frames_basic frames_bind frames_toLeveldb frames_when frames_tx_records frames_balances)
  then show ?thesis
    by (simp add: tx_uses_def)
qed

subsection \<open>The counter\<close>

text \<open>The counter only goes down, also in a turn that fails.\<close>

definition counts :: "nat \<Rightarrow> 'a run \<Rightarrow> bool" where
  "counts B m \<longleftrightarrow> (\<forall>r x r'. m r = (x, r') \<longrightarrow> B \<le> unat (r_countVal r) \<longrightarrow>
     r_countVal r' \<le> r_countVal r \<and> unat (r_countVal r) \<le> unat (r_countVal r') + B)"

lemma frames_counts: "frames B p m \<Longrightarrow> counts B m"
  unfolding frames_def counts_def by blast

lemma counts_bind:
  assumes "counts B m" and "\<And>x. counts C (f x)"
  shows "counts (B + C) (bindM m f)"
  unfolding counts_def
proof (intro allI impI)
  fix r x r' assume run: "bindM m f r = (x, r')" and count: "B + C \<le> unat (r_countVal r)"
  obtain y r1 where y: "m r = (y, r1)"
    by fastforce
  have B: "r_countVal r1 \<le> r_countVal r" "unat (r_countVal r) \<le> unat (r_countVal r1) + B"
    using assms(1) y count unfolding counts_def by auto
  show "r_countVal r' \<le> r_countVal r \<and> unat (r_countVal r) \<le> unat (r_countVal r') + (B + C)"
  proof (cases y)
    case (Inl e)
    then show ?thesis
      using run y B by (simp add: bindM_def)
  next
    case (Inr z)
    then have "f z r1 = (x, r')"
      using run y by (simp add: bindM_def)
    then have "r_countVal r' \<le> r_countVal r1" "unat (r_countVal r1) \<le> unat (r_countVal r') + C"
      using assms(2) [of z] B(2) count unfolding counts_def by auto
    then show ?thesis
      using B by (auto intro: order.trans)
  qed
qed

lemma counts_bind0: "counts 0 m \<Longrightarrow> (\<And>x. counts C (f x)) \<Longrightarrow> counts C (bindM m f)"
  using counts_bind [of 0 m C f] by simp

lemma counts_return: "counts B (returnM x)"
  by (rule frames_counts) simp

lemma counts_when: "counts B m \<Longrightarrow> counts B (whenM c m)"
  by (simp add: whenM_def counts_return)

lemma counts_forM: "(\<And>x. x \<in> set xs \<Longrightarrow> counts (B x) (f x)) \<Longrightarrow> counts (sum_list (map B xs)) (forM xs f)"
  by (induction xs) (auto intro!: counts_bind counts_return)

lemma counts_weaken0: "counts 0 m \<Longrightarrow> counts B m"
  unfolding counts_def by (simp add: trans_le_add1)

lemma counts_still: "(\<And>r. r_countVal (snd (m r)) = r_countVal r) \<Longrightarrow> counts 0 m"
  unfolding counts_def by (metis add.right_neutral order.refl snd_conv)

lemmas counts_basic = frames_basic [THEN frames_counts]

lemma counts_on_batch: "counts 0 (onBatch f)"
  by (rule counts_still) (simp add: onBatch_def split: sum.split)

lemma counts_pop: "counts 0 (modifyM (pop_delegate p))"
  by (rule counts_still) (simp add: modifyM_def pop_delegate_def)

lemma counts_find: "counts 0 (\<lambda>r. (f r, r))"
  by (rule counts_still) simp

lemma counts_if: "counts B m \<Longrightarrow> counts B m' \<Longrightarrow> counts B (if c then m else m')"
  by simp

lemma counts_delegate: "counts 1 (add_delegate p st)" "counts 0 (take_delegate L d p)"
proof -
  have "counts 0 (\<lambda>r. case addDelegateKey p st c (r_batch r) of Inl e \<Rightarrow> (Inl e, r)
      | Inr (b, resultKey) \<Rightarrow> (Inr (), push_delegate p resultKey (r\<lparr>r_batch := b\<rparr>)))" for c
    by (rule counts_still) (simp add: push_delegate_def split: sum.split prod.split)
  then have "counts (1 + 0) (add_delegate p st)"
    unfolding add_delegate_def by (intro counts_bind frames_counts [OF frames_count])
  then show "counts 1 (add_delegate p st)"
    by simp
  have stored: "counts 0 (if key \<noteq> [] then bindM (liftM (CHECK (ds_hash val \<noteq> []) ''Incorrect delegated value'')) (\<lambda>_.
      bindM (onBatch (\<lambda>b. Inr (removeDelegateKey key b))) (\<lambda>_. returnM val)) else returnM DelegateState_default)" for key val
    by (simp add: counts_bind0 counts_basic counts_on_batch counts_return)
  show "counts 0 (take_delegate L d p)"
    unfolding take_delegate_def
  proof (rule counts_bind0 [OF counts_basic(3)], rule counts_if)
    fix stack :: "bytes list"
    show "counts 0 (bindM (modifyM (pop_delegate p)) (\<lambda>_.
       bindM (\<lambda>r. (Batch_findDelegateKey (hd stack) (r_batch r), r)) (\<lambda>foundValue.
       bindM (liftM (CHECK (\<exists>v. foundValue = Some v \<and> ds_hash v \<noteq> []) ''Incorrect batch delegate'')) (\<lambda>_.
       bindM (onBatch (\<lambda>b. Inr (removeDelegateKey (hd stack) b))) (\<lambda>_.
       returnM (the foundValue))))))"
      by (intro counts_bind0 counts_pop counts_find counts_basic counts_on_batch counts_return)
    show "counts 0 (bindM (\<lambda>r. (findDelegateKey L p (getDeletedDelegate (r_batch r)) d, r)) (\<lambda>(key, val).
       if key \<noteq> [] then bindM (liftM (CHECK (ds_hash val \<noteq> []) ''Incorrect delegated value'')) (\<lambda>_.
         bindM (onBatch (\<lambda>b. Inr (removeDelegateKey key b))) (\<lambda>_. returnM val))
       else returnM DelegateState_default))"
      by (rule counts_bind0 [OF counts_find]) (simp only: prod.case_eq_if stored)
  qed
qed

lemma counts_instant: "counts 1 (getInstantDelegateStatus L d tx n)"
proof -
  have give: "counts 1 (bindM (whenM c (add_delegate p st)) (\<lambda>_. returnM x))" for c p st and x :: TransactionStatus
    using counts_bind [OF counts_when [OF counts_delegate(1)] counts_return, of 0] by simp
  have take: "counts 1 (bindM (take_delegate L d p) (\<lambda>st. returnM (f st)))" for p and f :: "DelegateState \<Rightarrow> TransactionStatus"
    by (rule counts_weaken0) (intro counts_bind0 counts_delegate counts_return)
  have "counts 1 (calcTransactionStatusDelegate L d tx n)"
    unfolding calcTransactionStatusDelegate_def Let_def
    by (auto intro!: counts_bind0 [OF counts_basic(2)] counts_weaken0 [OF counts_basic(2)] give take
        split: option.split simp del: One_nat_def)
  then have "counts (1 + 0) (bindM (calcTransactionStatusDelegate L d tx n) (\<lambda>st. returnM (Some st)))"
    by (intro counts_bind counts_return)
  then show ?thesis
    unfolding getInstantDelegateStatus_def by (auto intro!: counts_bind0 [OF counts_basic(2)] counts_return)
qed

subsection \<open>A block\<close>

abbreviation delegations_on :: "main_env \<Rightarrow> bool" where
  "delegations_on env \<equiv> MODULE_BALANCE (env_modules env) \<or> MODULE_TXS (env_modules env) \<or> MODULE_ADDR_TXS (env_modules env)"

lemma process_tx_eq:
  assumes "delegations_on env"
  shows "process_tx env L d header n up tx =
     bindM (bindM (getInstantDelegateStatus L d tx n) (tx_rest env L d header n tx)) (\<lambda>_.
       whenM (MODULE_BLOCK (env_modules env)) (save_common_balance header n up tx))"
proof -
  have "whenM (delegations_on env) m = m" for m
    using assms by (simp add: whenM_def)
  then show ?thesis
    by (simp add: process_tx_def Let_def tx_rest_def [abs_def])
qed

lemma counts_process_tx:
  assumes "delegations_on env"
  shows "counts (tx_uses tx) (process_tx env L d header n up tx)"
proof -
  have "counts (1 + (tx_uses tx - 1) + 0) (process_tx env L d header n up tx)"
    unfolding process_tx_eq [OF assms]
    by (intro counts_bind counts_instant counts_when frames_counts frames_tx_rest frames_common_balance)
  moreover have "1 + (tx_uses tx - 1) + 0 = tx_uses tx"
    by (simp add: tx_uses_def)
  ultimately show ?thesis
    by simp
qed

lemma delegate_stacks_frame: "delegate_stacks m k r S \<Longrightarrow> (\<And>p. leaves p r r') \<Longrightarrow> delegate_stacks m k r' S"
  using delegate_stack_leaves unfolding delegate_stacks_def by blast

text \<open>The pairs of addresses with names of full length: all their keys have one length.\<close>

definition full_delegation :: "nat \<Rightarrow> TransactionInfo \<Rightarrow> bool" where
  "full_delegation k tx \<longleftrightarrow> (tx_delegate tx \<noteq> None \<longrightarrow> length (delegate_pair tx) = k \<and> length (tx_hash tx) < 2 ^ 63)"

lemma instant_stacks:
  assumes ok: "leveldb_ok L contents" and run: "getInstantDelegateStatus L d tx n r = (Inr st, r')"
    and stacks: "delegate_stacks (contents d) k r S" and full: "full_delegation k tx" and count: "r_countVal r \<noteq> 0"
  shows "delegate_stacks (contents d) k r' (stacks_after tx S)"
proof (cases "tx_delegate tx")
  case None
  then show ?thesis
    using run stacks by (simp add: getInstantDelegateStatus_def returnM_def stacks_after_def pushes_def pops_def Let_def)
next
  case (Some dl)
  then obtain st' where "calcTransactionStatusDelegate L d tx n r = (Inr st', r')"
    using run by (auto simp: getInstantDelegateStatus_def bindM_def liftM_def returnM_def split: sum.splits prod.splits)
  then show ?thesis
    using calcTransactionStatusDelegate_stacks [OF ok _ stacks _ count] full Some by (simp add: full_delegation_def)
qed

lemma process_tx_stacks:
  assumes ok: "leveldb_ok L contents" and on: "delegations_on env"
    and run: "process_tx env L d header n up tx r = (Inr (), r')"
    and stacks: "delegate_stacks (contents d) k r S" and full: "full_delegation k tx"
    and count: "tx_uses tx \<le> unat (r_countVal r)"
  shows "delegate_stacks (contents d) k r' (stacks_after tx S)"
proof -
  have pos: "1 \<le> unat (r_countVal r)" and rest: "tx_uses tx - 1 \<le> unat (r_countVal r) - 1"
    using count by (simp_all add: tx_uses_def)
  obtain st r1 r2 where r1: "getInstantDelegateStatus L d tx n r = (Inr st, r1)"
    and r2: "tx_rest env L d header n tx st r1 = (Inr (), r2)"
    and r3: "whenM (MODULE_BLOCK (env_modules env)) (save_common_balance header n up tx) r2 = (Inr (), r')"
    using run unfolding process_tx_eq [OF on] by (auto simp: bindM_def split: sum.splits prod.splits)
  have "unat (r_countVal r) \<le> unat (r_countVal r1) + 1"
    using counts_instant [of L d tx n] r1 pos unfolding counts_def by blast
  then have "tx_uses tx - 1 \<le> unat (r_countVal r1)"
    using rest by simp
  then have "leaves p r1 r2" for p
    using frames_tx_rest [of tx p env L d header n st] r2 unfolding frames_def by blast
  moreover have "leaves p r2 r'" for p
    using frames_when [OF frames_common_balance [of p header n up tx]] r3 unfolding frames_def by blast
  ultimately have "leaves p r1 r'" for p
    using leaves_trans by blast
  then show ?thesis
    using pos by (intro delegate_stacks_frame [OF instant_stacks [OF ok r1 stacks full]]) auto
qed

lemma process_txs_stacks:
  assumes ok: "leveldb_ok L contents" and on: "delegations_on env"
    and "forM txs (process_tx env L d header n up) r = (Inr (), r')"
    and "delegate_stacks (contents d) k r S" and "\<forall>tx \<in> set txs. full_delegation k tx"
    and "sum_list (map tx_uses txs) \<le> unat (r_countVal r)"
  shows "delegate_stacks (contents d) k r' (fold stacks_after txs S)"
  using assms(3-6)
proof (induction txs arbitrary: r S)
  case Nil
  then show ?case by (simp add: returnM_def)
next
  case (Cons tx txs)
  obtain r1 where r1: "process_tx env L d header n up tx r = (Inr (), r1)" "forM txs (process_tx env L d header n up) r1 = (Inr (), r')"
    using Cons.prems(1) by (auto simp: bindM_def split: sum.splits prod.splits)
  have "unat (r_countVal r) \<le> unat (r_countVal r1) + tx_uses tx"
    using counts_process_tx [OF on, of tx L d header n up] r1(1) Cons.prems(4) unfolding counts_def by auto
  then have "sum_list (map tx_uses txs) \<le> unat (r_countVal r1)"
    using Cons.prems(4) by simp
  moreover have "delegate_stacks (contents d) k r1 (stacks_after tx S)"
    using process_tx_stacks [OF ok on r1(1) Cons.prems(2)] Cons.prems(3,4) by simp
  ultimately show ?case
    using Cons.IH [OF r1(2)] Cons.prems(3) by simp
qed

subsection \<open>A turn\<close>

text \<open>What follows the transactions in a turn.\<close>

definition block_rest :: "main_env \<Rightarrow> 'd leveldb \<Rightarrow> 'd \<Rightarrow> BlockInfo \<Rightarrow> u64 \<Rightarrow> unit run" where
  "block_rest env L d bi blockNumber =
     bindM (whenM (isForgingBlock (bi_header bi)) (save_forging_sums L d bi)) (\<lambda>_.
     bindM (whenM (MODULE_BALANCE (env_modules env))
       (bindM (getM r_balances) (\<lambda>balances. forM (env_parallelFor env balances) (save_balance L d blockNumber)))) (\<lambda>_.
     bindM (whenM (MODULE_BLOCK (env_modules env))
       (bindM (getM r_commonBalance) (\<lambda>commonBalance. onBatch (addCommonBalance commonBalance)))) (\<lambda>_.
     bindM (getM r_countVal) (\<lambda>countVal.
     onBatch (addMainBlock \<lparr>mb_blockNumber = blockNumber, mb_blockHash = bh_hash (bi_header bi), mb_countVal = countVal\<rparr>)))))"

lemma frames_block_rest: "frames 0 p (block_rest env L d bi n)"
proof -
  have "frames 0 p (save_balance L d n x)" and "frames 0 p (save_forging_sums L d bi)" for x
    by (simp_all add: save_balance_def save_forging_sums_def frames_rules)
  then show ?thesis
    by (simp add: block_rest_def frames_rules frames_forM0)
qed

text \<open>The stacks after a block, and the numbers it takes.\<close>

definition block_txs :: "BlockInfo \<Rightarrow> TransactionInfo list" where
  "block_txs bi = (if isForgingBlock (bi_header bi) \<or> isSimpleBlock (bi_header bi) then bi_txs bi else [])"

definition block_uses :: "BlockInfo \<Rightarrow> nat" where
  "block_uses bi = sum_list (map tx_uses (block_txs bi))"

lemma collect_block_eq:
  "collect_block env L d bi n up =
     bindM (if isForgingBlock (bi_header bi) \<or> isSimpleBlock (bi_header bi)
            then forM (bi_txs bi) (process_tx env L d (bi_header bi) n up)
            else if isStateBlock (bi_header bi) then liftM (validateStateBlock env L d bi) else returnM ())
       (\<lambda>_. block_rest env L d bi n)"
  by (simp add: collect_block_def Let_def block_rest_def)

lemma counts_collect_block:
  assumes "delegations_on env"
  shows "counts (block_uses bi) (collect_block env L d bi n up)"
proof -
  have "counts (block_uses bi + 0) (collect_block env L d bi n up)"
    unfolding collect_block_eq
    by (intro counts_bind frames_counts [OF frames_block_rest])
      (auto simp: block_uses_def block_txs_def counts_process_tx assms counts_return counts_basic intro!: counts_forM)
  then show ?thesis by simp
qed

lemma collect_block_stacks:
  assumes ok: "leveldb_ok L contents" and on: "delegations_on env"
    and run: "collect_block env L d bi n up r = (Inr (), r')"
    and stacks: "delegate_stacks (contents d) k r S" and full: "\<forall>tx \<in> set (block_txs bi). full_delegation k tx"
    and count: "block_uses bi \<le> unat (r_countVal r)"
  shows "delegate_stacks (contents d) k r' (fold stacks_after (block_txs bi) S)"
proof -
  obtain r1 where r1: "(if isForgingBlock (bi_header bi) \<or> isSimpleBlock (bi_header bi)
      then forM (bi_txs bi) (process_tx env L d (bi_header bi) n up)
      else if isStateBlock (bi_header bi) then liftM (validateStateBlock env L d bi) else returnM ()) r = (Inr (), r1)"
    and rest: "block_rest env L d bi n r1 = (Inr (), r')"
    using run unfolding collect_block_eq by (auto simp: bindM_def split: sum.splits prod.splits)
  have "delegate_stacks (contents d) k r1 (fold stacks_after (block_txs bi) S)"
  proof (cases "isForgingBlock (bi_header bi) \<or> isSimpleBlock (bi_header bi)")
    case True
    then show ?thesis
      using process_txs_stacks [OF ok on _ stacks full] r1 count by (simp add: block_txs_def block_uses_def)
  next
    case False
    then have "r1 = r"
      using r1 by (auto simp: liftM_def returnM_def split: if_splits)
    then show ?thesis
      using False stacks by (simp add: block_txs_def)
  qed
  moreover have "leaves p r1 r'" for p
    using frames_block_rest [of p env L d bi n] rest unfolding frames_def by blast
  ultimately show ?thesis
    by (rule delegate_stacks_frame)
qed

lemma stored_stacks_start:
  "stored_stacks m k (r_countVal r) S \<Longrightarrow> r_batch r = Batch_new \<Longrightarrow> r_delegateCache r = [] \<Longrightarrow> delegate_stacks m k r S"
  unfolding stored_stacks_def delegate_stacks_def using stored_stack_start by blast

lemma stored_stacks_commit:
  assumes "leveldb_ok L contents" and "addBatch L (r_batch r) d = (d', Inr ())" and "delegate_stacks (contents d) k r S"
  shows "stored_stacks (contents d') k (r_countVal r) S"
  unfolding stored_stacks_def
proof (intro allI impI)
  fix p :: bytes assume "length p = k"
  with assms(3) show "stored_stack (contents d') (r_countVal r) p (S p)"
    unfolding delegate_stacks_def by (intro stored_stack_commit [OF assms(1,2)]) simp
qed

lemma stored_stack_mono: "stored_stack m c p sts \<Longrightarrow> c' \<le> c \<Longrightarrow> stored_stack m c' p sts"
  unfolding stored_stack_def using le_less_trans by blast

lemma stored_stacks_mono: "stored_stacks m k c S \<Longrightarrow> c' \<le> c \<Longrightarrow> stored_stacks m k c' S"
  unfolding stored_stacks_def by (auto intro: stored_stack_mono)

text \<open>C2: The delegations of the node are stacks over all blocks. The database of a node that
  has processed some blocks holds one stack for every pair of addresses with full names; a turn of
  the main worker that saves a block does to them exactly what the transactions of the block say,
  in their order: a successful delegation pushes its value and hash on the stack of its pair, taking
  a delegation back pops the newest one; nothing else the turn writes touches them. A turn that
  skips the block leaves them alone, and so does one that fails before it writes. Beside the
  stacks only the counter counts, which must have enough numbers left; it goes down, so that this
  holds turn after turn, and what the database says of it after a restart is the same.\<close>

theorem turns_keep_delegation_stacks:
  assumes "leveldb_ok L contents" and "delegations_on env"
    and "worker_turn env L bi (w, d) = (out, w', d')"
    and "stored_stacks (contents d) k (wm_countVal w) S"
    and "\<forall>tx \<in> set (block_txs bi). full_delegation k tx" and "block_uses bi \<le> unat (wm_countVal w)"
  shows "(out = Saved \<longrightarrow> stored_stacks (contents d') k (wm_countVal w') (fold stacks_after (block_txs bi) S))
    \<and> (out \<noteq> Saved \<longrightarrow> d' = d \<longrightarrow> stored_stacks (contents d') k (wm_countVal w') S)
    \<and> wm_countVal w' \<le> wm_countVal w \<and> unat (wm_countVal w) \<le> unat (wm_countVal w') + block_uses bi"
proof (cases "turn_start L d (bi_header bi)")
  case (Inl e)
  then show ?thesis
    using assms(3,4) by (auto simp: worker_turn_def)
next
  case start: (Inr s)
  show ?thesis
  proof (cases s)
    case None
    then show ?thesis
      using start assms(3,4) by (auto simp: worker_turn_def)
  next
    case (Some nc)
    obtain n cb where nc: "nc = (n, cb)"
      by fastforce
    let ?r = "\<lparr>r_batch = Batch_new, r_countVal = wm_countVal w, r_delegateCache = [], r_balances = [],
      r_commonBalance = cb, r_statusCache = wm_statusCache w\<rparr>"
    obtain res r where run: "collect_block env L d bi n (cb_blockNumber cb < n) ?r = (res, r)"
      by fastforce
    note turn = assms(3) [unfolded worker_turn_def Let_def prod.case start Some nc sum.case option.case run]
    have w': "wm_countVal w' = r_countVal r"
      using turn by (auto split: sum.splits prod.splits)
    have down: "r_countVal r \<le> wm_countVal w" "unat (wm_countVal w) \<le> unat (r_countVal r) + block_uses bi"
      using counts_collect_block [OF assms(2), of bi L d n "cb_blockNumber cb < n", unfolded counts_def, rule_format, OF run] assms(6)
      by simp_all
    have same: "stored_stacks (contents d') k (wm_countVal w') S" if "d' = d"
      using stored_stacks_mono [OF assms(4) down(1)] that w' by simp
    have "stored_stacks (contents d') k (wm_countVal w') (fold stacks_after (block_txs bi) S)" if "out = Saved"
    proof -
      have commit: "addBatch L (r_batch r) d = (d', Inr ())" and res: "res = Inr ()"
        using turn that by (auto split: sum.splits prod.splits)
      have "delegate_stacks (contents d) k ?r S"
        by (rule stored_stacks_start) (use assms(4) in simp_all)
      then have "delegate_stacks (contents d) k r (fold stacks_after (block_txs bi) S)"
        by (rule collect_block_stacks [OF assms(1,2) run [unfolded res] _ assms(5)]) (use assms(6) in simp)
      from stored_stacks_commit [OF assms(1) commit this] show ?thesis
        by (simp add: w')
    qed
    then show ?thesis
      using same down w' by simp
  qed
qed

definition sample_delegation :: TransactionInfo where
  "sample_delegation = TransactionInfo_default\<lparr>tx_hash := [9], tx_fromAddress := Address_of_range [1],
     tx_toAddress := Address_of_range [2], tx_blockNumber := 1, tx_intStatus := Some 20,
     tx_filePos := \<lparr>fp_pos = 0, fp_fileNameRelative = [1]\<rparr>,
     tx_delegate := Some \<lparr>di_value = 5, di_isDelegate = True\<rparr>\<rparr>"

definition sample_delegation_block :: BlockInfo where
  "sample_delegation_block = sample_empty_block\<lparr>bi_header := (bi_header sample_empty_block)\<lparr>bh_blockType := BLOCK_TYPE\<rparr>,
     bi_txs := [sample_delegation]\<rparr>"

lemma sample_pair: "delegate_pair sample_delegation = [1, DELEGATE_KEY_PAIR_DELIMITER, 2]"
  by (simp add: delegate_pair_def sample_delegation_def db_name_def Address_of_range_def makeKeyDelegatePair_def)

theorem turns_keep_delegation_stacks_witness:
  "\<exists>w' d'. worker_turn sample_env sample_leveldb sample_delegation_block (sample_worker, []) = (Saved, w', d') \<and>
     stored_stacks (map_of d') 3 (wm_countVal w')
       ((\<lambda>p. [])([1, DELEGATE_KEY_PAIR_DELIMITER, 2] := [\<lparr>ds_value = 5, ds_hash = [9]\<rparr>]))"
proof -
  have simple: "isSimpleBlock (bi_header sample_delegation_block)" "\<not> isForgingBlock (bi_header sample_delegation_block)"
    by (simp_all add: sample_delegation_block_def isSimpleBlock_def isForgingBlock_def block_type_defs)
  have txs: "block_txs sample_delegation_block = [sample_delegation]"
    using simple by (simp add: block_txs_def) (simp add: sample_delegation_block_def)
  obtain w' d' where turn: "worker_turn sample_env sample_leveldb sample_delegation_block (sample_worker, []) = (Saved, w', d')"
  proof -
    let ?h = "bi_header sample_delegation_block" and ?c = "\<lparr>cb_money = 0, cb_blockNumber = 0\<rparr>"
    have start: "turn_start sample_leveldb [] ?h = Inr (Some (1, ?c))"
      by (simp add: turn_start_def sample_delegation_block_def sample_empty_block_def BlockHeader_default_def findMainBlock_def
          findCommonBalance_def findOneValueWithoutCheckValue_def findOneValueInternal_def sample_leveldb_def
          MainBlockInfo_deserialize_def MainBlockInfo_default_def CommonBalance_deserialize_def)
    let ?r = "\<lparr>r_batch = Batch_new, r_countVal = - 1, r_delegateCache = [], r_balances = [], r_commonBalance = ?c,
      r_statusCache = Cache_empty\<rparr>"
    obtain r1 where r1: "process_tx sample_env sample_leveldb [] ?h 1 True sample_delegation ?r = (Inr (), r1)"
      by (simp add: process_tx_def whenM_def sample_env_def Modules_none_def getInstantDelegateStatus_def
          calcTransactionStatusDelegate_def sample_delegation_def bindM_def liftM_def getBinaryString_def Address_of_range_def
          isIntStatusNotSuccess_def tx_state_defs add_delegate_def countVal_get_def Counter_get_def addDelegateKey_def
          makeKey_delegate makeKeyDelegatePair_def addKey_def DelegateState_serialize_def returnM_def toLeveldb_def
          isInitialWallet_def isIntStatusNodeTest_def Address_eq_def save_tx_records_def saveTransaction_def onBatch_def
          addTransaction_def makeKey_named TransactionInfo_serialize_def FilePosition_serialize_buf_def save_status_def
          addTransactionStatus_def TransactionStatus_serialize_def modifyM_def TransactionInfo_default_def Let_def serializeVariant_def)
    obtain r2 where r2: "block_rest sample_env sample_leveldb [] sample_delegation_block 1 r1 = (Inr (), r2)"
      using simple
      by (simp add: block_rest_def bindM_def whenM_def sample_env_def Modules_none_def returnM_def getM_def onBatch_def
          addMainBlock_def addKey_def MainBlockInfo_serialize_def) (simp add: sample_delegation_block_def sample_empty_block_def)
    have "collect_block sample_env sample_leveldb [] sample_delegation_block 1 True ?r = (Inr (), r2)"
      using simple r1 r2 unfolding collect_block_eq
      by (simp add: bindM_def returnM_def) (simp add: sample_delegation_block_def bindM_def returnM_def)
    then show ?thesis
      using that start by (simp add: worker_turn_def sample_worker_def addBatch_def sample_leveldb_def)
  qed
  have empty: "stored_stacks (map_of []) 3 (wm_countVal sample_worker) (\<lambda>p. [])"
    unfolding stored_stacks_def stored_stack_def
    by (intro allI impI exI [of _ "[]"]) (simp add: holds_entries_def)
  have on: "delegations_on sample_env"
    by (simp add: sample_env_def)
  have full: "\<forall>tx \<in> set (block_txs sample_delegation_block). full_delegation 3 tx"
    by (simp add: txs full_delegation_def sample_pair) (simp add: sample_delegation_def)
  have uses: "block_uses sample_delegation_block \<le> unat (wm_countVal sample_worker)"
    by (simp add: block_uses_def txs tx_uses_def) (simp add: sample_delegation_def TransactionInfo_default_def sample_worker_def unsigned_minus_1_eq_mask mask_eq_exp_minus_1)
  have after: "fold stacks_after (block_txs sample_delegation_block) (\<lambda>p. []) =
      (\<lambda>p. [])([1, DELEGATE_KEY_PAIR_DELIMITER, 2] := [\<lparr>ds_value = 5, ds_hash = [9]\<rparr>])"
    by (simp add: txs stacks_after_def sample_pair pushes_def)
      (simp add: sample_delegation_def isIntStatusNotSuccess_def tx_state_defs)
  from turns_keep_delegation_stacks [OF sample_leveldb_ok on turn empty full uses] turn show ?thesis
    by (auto simp: after)
qed

end
