(* ===== verification/RejectedTxs.thy ===== *)
theory RejectedTxs
  imports BlockchainRead BlockChain Database
begin

section \<open>Blocks of rejected transactions (RejectedBlockSource, Workers/RejectedTxsWorker)\<close>

text \<open>
  \<open>FileRejectedBlockSource\<close> holds the last blocks of rejected transactions that were found in the
  files: first only their place, and when they are asked for their content. \<open>RejectedTxsWorker\<close>
  polls such a source and keeps for every rejected transaction its last errors. The source is a
  parameter of the worker: what its three methods return. The locks make the methods atomic, and the
  thread is the sequence of its turns; an exception ends the thread.

  A folder is the list of its files with their contents; buffers are allocated at \<open>base\<close>.
\<close>

type_synonym disk = "(bytes \<times> bytes) list"

definition openFile :: "disk \<Rightarrow> bytes \<Rightarrow> bytes result" where
  "openFile disk name = (case map_of disk name of None \<Rightarrow> Inl (Check ''Not opened file '') | Some content \<Rightarrow> Inr content)"

subsection \<open>FileRejectedBlockSource\<close>

record HolderBlock =
  hb_dump :: bytes
  hb_info :: RejectedTxsBlockInfo
  hb_number :: u64

record BlockHolder =
  ho_minimumHeader :: RejectedTxsMinimumBlockHeader
  ho_index :: u64
  ho_block :: "HolderBlock option"

record FileRejectedBlockSource =
  fr_blocks :: "BlockHolder list"
  fr_currIndex :: u64

record RejectedBlockResult =
  rr_hash :: bytes
  rr_blockNumber :: u64
  rr_timestamp :: u64

record RejectedBlock =
  rj_block :: RejectedTxsBlockInfo
  rj_blockNumber :: u64

definition MAXIMUM_BLOCKS :: nat where "MAXIMUM_BLOCKS = 1000"

text \<open>The indices in the container are unique: \<open>emplace_back\<close> refuses one that is there.\<close>

definition rejected_addBlock :: "RejectedTxsMinimumBlockHeader \<Rightarrow> FileRejectedBlockSource \<Rightarrow> FileRejectedBlockSource" where
  "rejected_addBlock minimumHeader s =
     (let currIndex = fr_currIndex s + 1;
          blocks = (if currIndex \<in> ho_index ` set (fr_blocks s) then fr_blocks s
                    else fr_blocks s @ [\<lparr>ho_minimumHeader = minimumHeader, ho_index = currIndex, ho_block = None\<rparr>])
      in \<lparr>fr_blocks = drop (length blocks - MAXIMUM_BLOCKS) blocks, fr_currIndex = currIndex\<rparr>)"

definition getLastHolders :: "u64 \<Rightarrow> FileRejectedBlockSource \<Rightarrow> BlockHolder list" where
  "getLastHolders count s = take (min (unat count) (length (fr_blocks s))) (rev (fr_blocks s))"

definition fill_holder :: "'d lib \<Rightarrow> u64 \<Rightarrow> disk \<Rightarrow> BlockChain \<Rightarrow> BlockHolder \<Rightarrow> BlockHolder result" where
  "fill_holder l base disk blockchain h =
     (if ho_block h \<noteq> None then Inr h
      else
        let filePos = rm_filePos (ho_minimumHeader h)
        in bindE (openFile disk (fp_fileNameRelative filePos)) (\<lambda>file.
           bindE (readNextBlockDump file (fp_pos filePos) []) (\<lambda>(newPos, dump).
           bindE (CHECK (newPos \<noteq> fp_pos filePos) ''Incorrect rejected block'') (\<lambda>_.
           bindE (parseRejectedTxsBlockInfo l (fp_pos filePos) \<lparr>mem_base = base, mem_data = dump\<rparr>) (\<lambda>blockInfo.
           bindE (getBlock_hash (rh_prevHash (rb_header blockInfo)) blockchain) (\<lambda>header.
           case bh_blockNumber header of
             None \<Rightarrow> Inl (Check ''Block not found in blockchain'')
           | Some n \<Rightarrow> Inr (h\<lparr>ho_block := Some \<lparr>hb_dump = dump, hb_info = blockInfo, hb_number = n\<rparr>\<rparr>)))))))"

definition fillHolders :: "'d lib \<Rightarrow> u64 \<Rightarrow> disk \<Rightarrow> BlockChain \<Rightarrow> BlockHolder list \<Rightarrow> BlockHolder list result" where
  "fillHolders l base disk blockchain holders = mapE (fill_holder l base disk blockchain) holders"

fun replaceBlocks :: "BlockHolder list \<Rightarrow> BlockHolder list \<Rightarrow> BlockHolder list \<times> unit result" where
  "replaceBlocks [] blocks = (blocks, Inr ())"
| "replaceBlocks (h # holders) blocks =
     (if ho_index h \<notin> ho_index ` set blocks then replaceBlocks holders blocks
      else case ho_block h of
             None \<Rightarrow> (blocks, Inl (Check ''Not found block''))
           | Some b \<Rightarrow>
               replaceBlocks holders
                 (map (\<lambda>x. if ho_index x = ho_index h \<and> ho_block x = None then x\<lparr>ho_block := Some b\<rparr> else x) blocks))"

definition getLastBlocks :: "BlockHolder list \<Rightarrow> RejectedBlockResult list result" where
  "getLastBlocks holders =
     mapE (\<lambda>h. case ho_block h of
                 None \<Rightarrow> Inl Undefined
               | Some b \<Rightarrow> Inr \<lparr>rr_hash = rh_hash (rb_header (hb_info b)), rr_blockNumber = hb_number b,
                               rr_timestamp = rh_timestamp (rb_header (hb_info b))\<rparr>) holders"

definition source_calcLastBlocks ::
  "'d lib \<Rightarrow> u64 \<Rightarrow> disk \<Rightarrow> BlockChain \<Rightarrow> u64 \<Rightarrow> FileRejectedBlockSource \<Rightarrow>
   FileRejectedBlockSource \<times> RejectedBlockResult list result" where
  "source_calcLastBlocks l base disk blockchain count s =
     (if unat count > MAXIMUM_BLOCKS then (s, Inl (Check ''Incorrect count''))
      else case fillHolders l base disk blockchain (getLastHolders count s) of
             Inl e \<Rightarrow> (s, Inl e)
           | Inr holders \<Rightarrow>
               (case replaceBlocks holders (fr_blocks s) of
                  (blocks, Inl e) \<Rightarrow> (s\<lparr>fr_blocks := blocks\<rparr>, Inl e)
                | (blocks, Inr _) \<Rightarrow> (s\<lparr>fr_blocks := blocks\<rparr>, getLastBlocks holders)))"

text \<open>Blocks with the same hash are the same bytes; the first of them is taken.\<close>

definition holder_hash :: "BlockHolder \<Rightarrow> bytes option" where
  "holder_hash h = map_option (\<lambda>b. rh_hash (rb_header (hb_info b))) (ho_block h)"

fun find_holders :: "bytes list \<Rightarrow> BlockHolder list \<Rightarrow> HolderBlock list" where
  "find_holders [] blocks = []"
| "find_holders (hash # hashes) blocks =
     (case find (\<lambda>h. holder_hash h = Some hash) blocks of
        None \<Rightarrow> find_holders hashes blocks
      | Some h \<Rightarrow> the (ho_block h) # find_holders hashes blocks)"

definition source_getBlocks :: "bytes list \<Rightarrow> FileRejectedBlockSource \<Rightarrow> RejectedBlock list" where
  "source_getBlocks hashes s =
     map (\<lambda>b. \<lparr>rj_block = hb_info b, rj_blockNumber = hb_number b\<rparr>) (find_holders hashes (fr_blocks s))"

definition source_getDumps :: "bytes list \<Rightarrow> FileRejectedBlockSource \<Rightarrow> bytes list" where
  "source_getDumps hashes s = map hb_dump (find_holders hashes (fr_blocks s))"

subsection \<open>RejectedTxsWorker\<close>

record HistoryEntry =
  he_blockNumber :: u64
  he_timestamp :: u64
  he_errorCode :: u64

record RejectedTransactionHistory =
  hi_hash :: bytes
  hi_history :: "HistoryEntry list"

text \<open>Time in milliseconds.\<close>

record HistoryElement =
  hs_history :: RejectedTransactionHistory
  hs_lastUpdateTime :: nat

record RejectedTxsWorker =
  rw_currentRejectedBlocks :: "bytes list"
  rw_history :: "(bytes \<times> HistoryElement) list"
  rw_lastRejectedBlocks :: "(u64 \<times> RejectedBlockResult) list"

definition RejectedTxsWorker_new :: RejectedTxsWorker where
  "RejectedTxsWorker_new = \<lparr>rw_currentRejectedBlocks = [], rw_history = [], rw_lastRejectedBlocks = []\<rparr>"

definition MAX_HISTORY_SIZE :: nat where "MAX_HISTORY_SIZE = 10"

definition LAST_TIME_LIFE_RECORD :: nat where "LAST_TIME_LIFE_RECORD = 15 * 60 * 1000"

definition filterNewBlocks :: "RejectedBlockResult list \<Rightarrow> RejectedTxsWorker \<Rightarrow> RejectedBlockResult list" where
  "filterNewBlocks blocks w = filter (\<lambda>block. rr_hash block \<notin> set (rw_currentRejectedBlocks w)) blocks"

definition addHistory :: "nat \<Rightarrow> u64 \<Rightarrow> u64 \<Rightarrow> RejectedTransactionInfo \<Rightarrow> RejectedTxsWorker \<Rightarrow> RejectedTxsWorker" where
  "addHistory now blockNumber timestamp txInfo w =
     (let hash = rt_hash txInfo;
          element = get_or \<lparr>hs_history = \<lparr>hi_hash = hash, hi_history = []\<rparr>, hs_lastUpdateTime = 0\<rparr> (rw_history w) hash;
          history = hi_history (hs_history element) @
            [\<lparr>he_blockNumber = blockNumber, he_timestamp = timestamp, he_errorCode = rt_error txInfo\<rparr>];
          history = (if length history > MAX_HISTORY_SIZE then tl history else history)
      in w\<lparr>rw_history := map_put hash \<lparr>hs_history = (hs_history element)\<lparr>hi_history := history\<rparr>, hs_lastUpdateTime = now\<rparr>
             (rw_history w)\<rparr>)"

definition processBlocks :: "nat \<Rightarrow> RejectedBlock list \<Rightarrow> bytes list \<Rightarrow> RejectedTxsWorker \<Rightarrow> RejectedTxsWorker" where
  "processBlocks now blocks allHashes w =
     (fold (\<lambda>block. fold (addHistory now (rj_blockNumber block) (rh_timestamp (rb_header (rj_block block))))
                      (rb_txs (rj_block block))) blocks w)
     \<lparr>rw_currentRejectedBlocks := allHashes\<rparr>"

definition clearOldHistory :: "nat \<Rightarrow> RejectedTxsWorker \<Rightarrow> RejectedTxsWorker" where
  "clearOldHistory now w =
     w\<lparr>rw_history := filter (\<lambda>(hash, el). \<not> LAST_TIME_LIFE_RECORD \<le> now - hs_lastUpdateTime el) (rw_history w)\<rparr>"

text \<open>\<open>multimap::insert\<close> with a hint: as close as possible to the place before the hint; \<open>std::inserter\<close>
  then moves the hint behind the new element.\<close>

definition hint_insert :: "'k::linorder \<times> 'v \<Rightarrow> ('k \<times> 'v) list \<times> nat \<Rightarrow> ('k \<times> 'v) list \<times> nat" where
  "hint_insert e mh =
     (let (m, hint) = mh;
          lower = length (takeWhile (\<lambda>x. fst x < fst e) m);
          upper = length (takeWhile (\<lambda>x. fst x \<le> fst e) m);
          i = max lower (min hint upper)
      in (take i m @ e # drop i m, i + 1))"

definition addLastBlocks :: "RejectedBlockResult list \<Rightarrow> RejectedTxsWorker \<Rightarrow> RejectedTxsWorker" where
  "addLastBlocks newBlocks w =
     (let (m, hint) = fold (\<lambda>block. hint_insert (rr_blockNumber block, block)) newBlocks (rw_lastRejectedBlocks w, 0);
          maxCountElems = 500;
          eraseElements = (if length m > maxCountElems then length m - maxCountElems else 0)
      in w\<lparr>rw_lastRejectedBlocks := drop eraseElements m\<rparr>)"

text \<open>One turn: \<open>lastBlocks\<close> is what \<open>calcLastBlocks(100)\<close> of the source returned, \<open>getBlocks\<close> the other
  method of the source.\<close>

definition rejected_turn ::
  "nat \<Rightarrow> RejectedBlockResult list \<Rightarrow> (bytes list \<Rightarrow> RejectedBlock list result) \<Rightarrow> RejectedTxsWorker \<Rightarrow>
   RejectedTxsWorker \<times> unit result" where
  "rejected_turn now lastBlocks getBlocks w =
     (let newLastBlocks = filterNewBlocks lastBlocks w;
          hashes = map rr_hash lastBlocks;
          newHashes = map rr_hash newLastBlocks
      in case getBlocks newHashes of
           Inl e \<Rightarrow> (w, Inl e)
         | Inr blocks \<Rightarrow> (clearOldHistory now (processBlocks now blocks hashes (addLastBlocks newLastBlocks w)), Inr ()))"

definition rejected_findTx :: "bytes \<Rightarrow> RejectedTxsWorker \<Rightarrow> RejectedTransactionHistory option" where
  "rejected_findTx txHash w = map_option hs_history (map_of (rw_history w) txHash)"

definition rejected_calcLastBlocks :: "u64 \<Rightarrow> RejectedTxsWorker \<Rightarrow> RejectedBlockResult list" where
  "rejected_calcLastBlocks count w =
     (let countElements = min (length (rw_lastRejectedBlocks w)) (unat count)
      in map snd (take countElements (rev (rw_lastRejectedBlocks w))))"

subsection \<open>What the worker remembers\<close>

definition last_n :: "nat \<Rightarrow> 'a list \<Rightarrow> 'a list" where
  "last_n n xs = drop (length xs - n) xs"

lemma last_n_short: "length xs \<le> n \<Longrightarrow> last_n n xs = xs"
  by (simp add: last_n_def)

lemma length_last_n: "length (last_n n xs) = min n (length xs)"
  by (simp add: last_n_def)

lemma last_n_append: "last_n n (last_n n xs @ ys) = last_n n (xs @ ys)"
  by (cases "length xs \<le> n") (auto simp: last_n_def add.commute)

lemma last_n_snoc:
  assumes "length xs \<le> n"
  shows "(if length (xs @ [x]) > n then tl (xs @ [x]) else xs @ [x]) = last_n n (xs @ [x])"
proof (cases "length xs = n")
  case True
  have "tl (xs @ [x]) = drop 1 (xs @ [x])" by (simp only: One_nat_def drop_Suc drop_0)
  then show ?thesis using True by (simp add: last_n_def)
qed (use assms in \<open>simp add: last_n_def\<close>)

text \<open>The rejections of a list of blocks in the order the worker sees them, and those of one transaction.\<close>

definition rejections :: "RejectedBlock list \<Rightarrow> (u64 \<times> u64 \<times> RejectedTransactionInfo) list" where
  "rejections blocks =
     concat (map (\<lambda>b. map (\<lambda>t. (rj_blockNumber b, rh_timestamp (rb_header (rj_block b)), t)) (rb_txs (rj_block b))) blocks)"

definition errors_of :: "bytes \<Rightarrow> (u64 \<times> u64 \<times> RejectedTransactionInfo) list \<Rightarrow> HistoryEntry list" where
  "errors_of hash rs =
     map (\<lambda>(n, ts, t). \<lparr>he_blockNumber = n, he_timestamp = ts, he_errorCode = rt_error t\<rparr>)
       (filter (\<lambda>(n, ts, t). rt_hash t = hash) rs)"

definition known_errors :: "bytes \<Rightarrow> (bytes \<times> HistoryElement) list \<Rightarrow> HistoryEntry list" where
  "known_errors hash m = (case map_of m hash of None \<Rightarrow> [] | Some el \<Rightarrow> hi_history (hs_history el))"

text \<open>What holds between two turns.\<close>

definition histories_ok :: "(bytes \<times> HistoryElement) list \<Rightarrow> bool" where
  "histories_ok m \<longleftrightarrow> ordered m \<and>
     (\<forall>(hash, el) \<in> set m. hi_hash (hs_history el) = hash \<and> 0 < length (hi_history (hs_history el)) \<and>
        length (hi_history (hs_history el)) \<le> MAX_HISTORY_SIZE)"

definition rejected_ok :: "RejectedTxsWorker \<Rightarrow> bool" where
  "rejected_ok w \<longleftrightarrow> histories_ok (rw_history w) \<and> sorted (map fst (rw_lastRejectedBlocks w)) \<and>
     length (rw_lastRejectedBlocks w) \<le> 500"

definition add_rejection :: "nat \<Rightarrow> u64 \<times> u64 \<times> RejectedTransactionInfo \<Rightarrow> RejectedTxsWorker \<Rightarrow> RejectedTxsWorker" where
  "add_rejection now r = (case r of (n, ts, t) \<Rightarrow> addHistory now n ts t)"

lemma fold_concat_map: "fold f (concat (map g xs)) = fold (\<lambda>x. fold f (g x)) xs"
  by (induction xs) auto

lemma processBlocks_rejections:
  "rw_history (processBlocks now blocks hashes w) = rw_history (fold (add_rejection now) (rejections blocks) w)"
  by (simp add: processBlocks_def rejections_def fold_concat_map fold_map comp_def add_rejection_def)

lemma ordered_map_of: "ordered m \<Longrightarrow> map_of m k = Some v \<longleftrightarrow> (k, v) \<in> set m"
  unfolding ordered_def by (rule map_of_eq_Some_iff) (auto simp: strict_sorted_iff)

lemma histories_okD:
  assumes "histories_ok m" and "map_of m k = Some el"
  shows "hi_hash (hs_history el) = k" and "length (hi_history (hs_history el)) \<le> MAX_HISTORY_SIZE"
    and "0 < length (hi_history (hs_history el))"
  using map_of_SomeD [OF assms(2)] assms(1) by (auto simp: histories_ok_def)

lemma known_errors_bound: "histories_ok m \<Longrightarrow> length (known_errors k m) \<le> MAX_HISTORY_SIZE"
  using histories_okD(2) [of m k] by (auto simp: known_errors_def split: option.splits)

lemma rw_history_addHistory:
  assumes "histories_ok (rw_history w)"
  shows "rw_history (addHistory now n ts t w) =
    map_put (rt_hash t)
      \<lparr>hs_history = \<lparr>hi_hash = rt_hash t, hi_history = last_n MAX_HISTORY_SIZE (known_errors (rt_hash t) (rw_history w) @
          [\<lparr>he_blockNumber = n, he_timestamp = ts, he_errorCode = rt_error t\<rparr>])\<rparr>, hs_lastUpdateTime = now\<rparr> (rw_history w)"
proof (cases "map_of (rw_history w) (rt_hash t)")
  case None
  then show ?thesis
    by (simp add: addHistory_def get_or_def known_errors_def last_n_def MAX_HISTORY_SIZE_def Let_def)
next
  case (Some el)
  have "hs_history el = \<lparr>hi_hash = rt_hash t, hi_history = hi_history (hs_history el)\<rparr>"
    using histories_okD(1) [OF assms Some] by simp
  then show ?thesis
    using last_n_snoc [OF histories_okD(2) [OF assms Some]] Some
    by (simp add: addHistory_def get_or_def known_errors_def Let_def del: append_assoc)
      (metis RejectedTransactionHistory.update_convs(2))
qed

lemma histories_ok_put:
  assumes "histories_ok m" and "0 < length h" and "length h \<le> MAX_HISTORY_SIZE"
  shows "histories_ok (map_put k \<lparr>hs_history = \<lparr>hi_hash = k, hi_history = h\<rparr>, hs_lastUpdateTime = now\<rparr> m)"
proof -
  have o: "ordered m" using assms(1) by (simp add: histories_ok_def)
  show ?thesis
    unfolding histories_ok_def
  proof (intro conjI ballI)
    fix x assume x: "x \<in> set (map_put k \<lparr>hs_history = \<lparr>hi_hash = k, hi_history = h\<rparr>, hs_lastUpdateTime = now\<rparr> m)"
    obtain k' el where [simp]: "x = (k', el)" by force
    have "((map_of m)(k \<mapsto> \<lparr>hs_history = \<lparr>hi_hash = k, hi_history = h\<rparr>, hs_lastUpdateTime = now\<rparr>)) k' = Some el"
      using x ordered_map_of [OF ordered_put [OF o], of k _ k' el] map_of_put [OF o, of k] by simp
    then show "case x of (hash, el) \<Rightarrow> hi_hash (hs_history el) = hash \<and> 0 < length (hi_history (hs_history el)) \<and>
        length (hi_history (hs_history el)) \<le> MAX_HISTORY_SIZE"
      using assms(2,3) histories_okD [OF assms(1), of k' el] by (auto split: if_splits)
  qed (rule ordered_put [OF o])
qed

lemma histories_ok_addHistory:
  assumes "histories_ok (rw_history w)"
  shows "histories_ok (rw_history (addHistory now n ts t w))"
  unfolding rw_history_addHistory [OF assms]
  by (rule histories_ok_put [OF assms]) (auto simp: length_last_n MAX_HISTORY_SIZE_def)

lemma map_of_rejections:
  assumes "histories_ok (rw_history w)"
  shows "histories_ok (rw_history (fold (add_rejection now) rs w)) \<and>
     map_of (rw_history (fold (add_rejection now) rs w)) h =
       (if errors_of h rs = [] then map_of (rw_history w) h
        else Some \<lparr>hs_history = \<lparr>hi_hash = h,
            hi_history = last_n MAX_HISTORY_SIZE (known_errors h (rw_history w) @ errors_of h rs)\<rparr>, hs_lastUpdateTime = now\<rparr>)"
  using assms
proof (induction rs arbitrary: w)
  case Nil
  then show ?case by (simp add: errors_of_def)
next
  case (Cons r rs)
  obtain n ts t where r: "r = (n, ts, t)" by (cases r)
  let ?w = "addHistory now n ts t w"
  let ?e = "\<lparr>he_blockNumber = n, he_timestamp = ts, he_errorCode = rt_error t\<rparr>"
  have ok: "histories_ok (rw_history ?w)"
    by (rule histories_ok_addHistory [OF Cons.prems])
  have o: "ordered (rw_history w)" using Cons.prems by (simp add: histories_ok_def)
  have errs: "errors_of h (r # rs) = (if rt_hash t = h then ?e # errors_of h rs else errors_of h rs)"
    by (simp add: errors_of_def r)
  have at_h: "map_of (rw_history ?w) h =
      (if rt_hash t = h then Some \<lparr>hs_history = \<lparr>hi_hash = h,
          hi_history = last_n MAX_HISTORY_SIZE (known_errors h (rw_history w) @ [?e])\<rparr>, hs_lastUpdateTime = now\<rparr>
       else map_of (rw_history w) h)"
    by (auto simp: rw_history_addHistory [OF Cons.prems] map_of_put [OF o])
  have known: "known_errors h (rw_history ?w) =
      (if rt_hash t = h then last_n MAX_HISTORY_SIZE (known_errors h (rw_history w) @ [?e]) else known_errors h (rw_history w))"
    by (simp add: known_errors_def [of _ "rw_history ?w"] at_h) (simp add: known_errors_def)
  have step: "fold (add_rejection now) (r # rs) w = fold (add_rejection now) rs ?w"
    by (simp add: add_rejection_def r)
  show ?case
    unfolding step errs Cons.IH [OF ok, THEN conjunct2] known at_h
    using Cons.IH [OF ok, THEN conjunct1] last_n_append [of MAX_HISTORY_SIZE "known_errors h (rw_history w) @ [?e]" "errors_of h rs"]
    by (cases "errors_of h rs = []"; cases "rt_hash t = h") simp_all
qed

text \<open>The blocks stay sorted by number, whatever the hint.\<close>

lemma hint_insert_sorted:
  fixes e :: "u64 \<times> 'v"
  assumes "sorted (map fst m)"
  shows "sorted (map fst (fst (hint_insert e (m, hint))))"
proof -
  let ?lower = "length (takeWhile (\<lambda>x. fst x < fst e) m)"
  let ?upper = "length (takeWhile (\<lambda>x. fst x \<le> fst e) m)"
  define i where "i = max ?lower (min hint ?upper)"
  have lu: "?lower \<le> ?upper"
    by (induction m) auto
  have before: "fst x \<le> fst e" if "x \<in> set (take i m)" for x
  proof -
    have "x \<in> set (take ?upper m)"
      using that set_take_subset_set_take [of i ?upper m] lu by (auto simp: i_def)
    then show ?thesis
      by (auto simp flip: takeWhile_eq_take dest: set_takeWhileD)
  qed
  have behind: "fst e \<le> fst x" if "x \<in> set (drop i m)" for x
  proof -
    have "x \<in> set (drop ?lower m)"
      using that set_drop_subset_set_drop [of ?lower i m] by (auto simp: i_def)
    then have x: "x \<in> set (dropWhile (\<lambda>x. fst x < fst e) m)"
      by (simp add: dropWhile_eq_drop)
    have "sorted (map fst (dropWhile (\<lambda>x. fst x < fst e) m))"
      using assms by (simp add: dropWhile_eq_drop drop_map flip: sorted_wrt_drop) (simp add: sorted_wrt_drop flip: drop_map)
    then show ?thesis
      using x hd_dropWhile [of "\<lambda>x. fst x < fst e" m]
      by (cases "dropWhile (\<lambda>x. fst x < fst e) m") (auto simp: not_less intro: order_trans)
  qed
  have split: "sorted (map fst (take i m @ drop i m))"
    using assms by simp
  have "sorted (map fst (take i m @ e # drop i m))"
    using split before behind by (simp only: map_append list.map sorted_append sorted_simps) (auto 0 4)
  then show ?thesis
    by (simp add: hint_insert_def Let_def i_def)
qed

lemma sorted_hint_inserts:
  fixes f :: "RejectedBlockResult \<Rightarrow> u64 \<times> RejectedBlockResult"
  shows "sorted (map fst (fst mh)) \<Longrightarrow> sorted (map fst (fst (fold (\<lambda>b. hint_insert (f b)) bs mh)))"
proof (induction bs arbitrary: mh)
  case (Cons b bs)
  show ?case
    using Cons.IH [of "hint_insert (f b) mh"] hint_insert_sorted [of "fst mh" "f b" "snd mh"] Cons.prems by simp
qed simp

lemma addLastBlocks_keeps:
  assumes "sorted (map fst (rw_lastRejectedBlocks w))"
  shows "sorted (map fst (rw_lastRejectedBlocks (addLastBlocks bs w)))"
    and "length (rw_lastRejectedBlocks (addLastBlocks bs w)) \<le> 500"
    and "rw_history (addLastBlocks bs w) = rw_history w"
proof -
  obtain m hint where m: "fold (\<lambda>block. hint_insert (rr_blockNumber block, block)) bs (rw_lastRejectedBlocks w, 0) = (m, hint)"
    by force
  have "sorted (map fst m)"
    using sorted_hint_inserts [of "(rw_lastRejectedBlocks w, 0)" "\<lambda>block. (rr_blockNumber block, block)" bs] assms m by simp
  then show "sorted (map fst (rw_lastRejectedBlocks (addLastBlocks bs w)))"
    by (simp add: addLastBlocks_def m Let_def sorted_wrt_drop flip: drop_map)
qed (auto simp: addLastBlocks_def Let_def split: prod.splits)

lemma rejected_turn_keeps:
  assumes "rejected_ok w"
  shows "rejected_ok (fst (rejected_turn now lastBlocks getBlocks w))"
proof (cases "getBlocks (map rr_hash (filterNewBlocks lastBlocks w))")
  case (Inr blocks)
  let ?w = "addLastBlocks (filterNewBlocks lastBlocks w) w"
  have ok: "histories_ok (rw_history ?w)"
    using assms addLastBlocks_keeps(3) by (simp add: rejected_ok_def)
  have keeps: "rw_lastRejectedBlocks (fold (add_rejection now) rs v) = rw_lastRejectedBlocks v" for rs v
    by (induction rs arbitrary: v) (auto simp: add_rejection_def addHistory_def Let_def split: prod.splits)
  have proc: "processBlocks now blocks hs v = fold (add_rejection now) (rejections blocks) v\<lparr>rw_currentRejectedBlocks := hs\<rparr>" for hs v
    by (simp add: processBlocks_def rejections_def fold_concat_map fold_map comp_def add_rejection_def)
  have filtered: "histories_ok m \<Longrightarrow> histories_ok (filter P m)" for m P
    by (auto simp: histories_ok_def ordered_def sorted_wrt_map intro: sorted_wrt_filter)
  show ?thesis
    using assms Inr addLastBlocks_keeps(1,2) map_of_rejections [OF ok]
    by (auto simp: rejected_turn_def Let_def clearOldHistory_def proc rejected_ok_def keeps intro: filtered)
qed (use assms in \<open>simp add: rejected_turn_def Let_def\<close>)

text \<open>The worker after a sequence of turns; a failing turn leaves it as it is (and ends the thread).\<close>

type_synonym rejected_input = "nat \<times> RejectedBlockResult list \<times> (bytes list \<Rightarrow> RejectedBlock list result)"

definition rejected_turns :: "rejected_input list \<Rightarrow> RejectedTxsWorker \<Rightarrow> RejectedTxsWorker" where
  "rejected_turns turns w = fold (\<lambda>(now, lastBlocks, getBlocks) w. fst (rejected_turn now lastBlocks getBlocks w)) turns w"

lemma rejected_turns_ok: "rejected_ok w \<Longrightarrow> rejected_ok (rejected_turns turns w)"
  by (induction turns arbitrary: w) (auto simp: rejected_turns_def intro: rejected_turn_keeps)

lemma rejected_ok_new: "rejected_ok RejectedTxsWorker_new"
  by (simp add: RejectedTxsWorker_new_def rejected_ok_def histories_ok_def)

text \<open>C25: After any sequence of turns the worker of the rejected transactions keeps its bounds: the
  histories are filed under the hash of their transaction, each holds at least one and at most ten
  errors, and at most 500 blocks are remembered, sorted by number.\<close>

theorem rejected_worker_bounded:
  "rejected_ok (rejected_turns turns RejectedTxsWorker_new)"
  by (rule rejected_turns_ok [OF rejected_ok_new])

lemma filter_map_of:
  "ordered m \<Longrightarrow> map_of (filter (\<lambda>(k, v). P v) m) k =
     (case map_of m k of Some v \<Rightarrow> if P v then Some v else None | None \<Rightarrow> None)"
proof (induction m)
  case (Cons x m)
  then show ?case
    by (cases x) (fastforce simp: ordered_Cons map_of_None_fst split: option.splits)
qed simp

text \<open>What is known of a rejected transaction after a turn, in whatever state earlier turns have
  left the worker: when the new blocks reject it, its last errors, the new ones appended in the order
  of the blocks and the oldest dropped beyond ten; otherwise what was known before, unless its last
  error is fifteen minutes old, and then nothing.\<close>

theorem rejected_turn_history:
  assumes "w = rejected_turns turns RejectedTxsWorker_new"
    and "getBlocks (map rr_hash (filterNewBlocks lastBlocks w)) = Inr blocks"
    and "new = errors_of txHash (rejections blocks)"
  shows "rejected_findTx txHash (fst (rejected_turn now lastBlocks getBlocks w)) =
    (case map_of (rw_history w) txHash of
       None \<Rightarrow> if new = [] then None else Some \<lparr>hi_hash = txHash, hi_history = last_n MAX_HISTORY_SIZE new\<rparr>
     | Some old \<Rightarrow>
         if new \<noteq> [] then Some \<lparr>hi_hash = txHash, hi_history = last_n MAX_HISTORY_SIZE (hi_history (hs_history old) @ new)\<rparr>
         else if LAST_TIME_LIFE_RECORD \<le> now - hs_lastUpdateTime old then None
         else rejected_findTx txHash w)"
proof -
  have rok: "rejected_ok w"
    using rejected_turns_ok [OF rejected_ok_new] assms(1) by simp
  let ?w = "addLastBlocks (filterNewBlocks lastBlocks w) w"
  have hist: "rw_history ?w = rw_history w"
    using rok by (simp add: rejected_ok_def addLastBlocks_keeps(3))
  have ok: "histories_ok (rw_history ?w)"
    using rok hist by (simp add: rejected_ok_def)
  note after = map_of_rejections [OF ok, of now "rejections blocks" txHash, folded assms(3)]
  have o: "ordered (rw_history (fold (add_rejection now) (rejections blocks) ?w))"
    using after by (simp add: histories_ok_def)
  have "0 < LAST_TIME_LIFE_RECORD"
    by (simp add: LAST_TIME_LIFE_RECORD_def)
  then show ?thesis
    using assms(2) after
    by (simp add: rejected_turn_def Let_def rejected_findTx_def clearOldHistory_def processBlocks_rejections
        filter_map_of [OF o] hist known_errors_def split: option.splits)
qed

text \<open>The second turn sees the block of the first again, and a new one with another rejection.\<close>

definition sample_rejection :: "u64 \<Rightarrow> u64 \<Rightarrow> RejectedBlock" where
  "sample_rejection n code = \<lparr>rj_block = \<lparr>rb_header = \<lparr>rh_blockSize = 0, rh_timestamp = 7,
      rh_filePos = \<lparr>fp_pos = 0, fp_fileNameRelative = []\<rparr>, rh_hash = [2], rh_prevHash = [], rh_txsSign = [], rh_txsPubkey = []\<rparr>,
     rb_txs = [\<lparr>rt_hash = [1], rt_error = code\<rparr>]\<rparr>, rj_blockNumber = n\<rparr>"

definition sample_result :: "byte \<Rightarrow> RejectedBlockResult" where
  "sample_result h = \<lparr>rr_hash = [h], rr_blockNumber = 4, rr_timestamp = 7\<rparr>"

theorem rejected_turn_history_witness:
  "rejected_findTx [1] (fst (rejected_turn 2000 [sample_result 2, sample_result 3] (\<lambda>_. Inr [sample_rejection 5 8])
     (rejected_turns [(1000, [sample_result 2], \<lambda>_. Inr [sample_rejection 4 6])] RejectedTxsWorker_new))) =
   Some \<lparr>hi_hash = [1], hi_history =
     [\<lparr>he_blockNumber = 4, he_timestamp = 7, he_errorCode = 6\<rparr>, \<lparr>he_blockNumber = 5, he_timestamp = 7, he_errorCode = 8\<rparr>]\<rparr>"
proof -
  let ?w = "rejected_turns [(1000, [sample_result 2], \<lambda>_. Inr [sample_rejection 4 6])] RejectedTxsWorker_new"
  have "map_of (rw_history ?w) [1] = Some \<lparr>hs_history = \<lparr>hi_hash = [1], hi_history =
      [\<lparr>he_blockNumber = 4, he_timestamp = 7, he_errorCode = 6\<rparr>]\<rparr>, hs_lastUpdateTime = 1000\<rparr>"
    by (simp add: rejected_turns_def rejected_turn_def Let_def clearOldHistory_def processBlocks_def addLastBlocks_def
        filterNewBlocks_def RejectedTxsWorker_new_def sample_rejection_def sample_result_def addHistory_def get_or_def
        LAST_TIME_LIFE_RECORD_def MAX_HISTORY_SIZE_def hint_insert_def)
  moreover have "errors_of [1] (rejections [sample_rejection 5 8]) = [\<lparr>he_blockNumber = 5, he_timestamp = 7, he_errorCode = 8\<rparr>]"
    by (simp add: errors_of_def rejections_def sample_rejection_def)
  ultimately show ?thesis
    using rejected_turn_history [OF refl, of "\<lambda>_. Inr [sample_rejection 5 8]" "[sample_result 2, sample_result 3]"
        "[(1000, [sample_result 2], \<lambda>_. Inr [sample_rejection 4 6])]" "[sample_rejection 5 8]" _ "[1]" 2000, OF refl refl]
    by (simp add: last_n_def MAX_HISTORY_SIZE_def)
qed

end
