(* ===== verification/FileSource.thy ===== *)
theory FileSource
  imports RejectedTxs
begin

section \<open>Blocks from files (utils/FileSystem, BlockSource/FileBlockSource)\<close>

text \<open>
  \<open>FileBlockSource\<close> delivers the blocks of all files of a folder: the files in the order of their
  names, the blocks of a file in their order, blocks of rejected transactions set aside. How far each
  file was read is kept in memory and, once a block is confirmed, in the database.

  The folder is the list of its entries with their contents at the time of the call; a stream that is
  open on a file is the name of the file. One turn of the loop of \<open>process\<close> is a function of the
  state; the loop itself may run forever, so it is a partial function: \<open>None\<close> is a call that does not
  return.
\<close>

subsection \<open>FileSystem\<close>

text \<open>\<open>fs::path::filename\<close>: what is behind the last slash; a dot for a path that ends in a slash.\<close>

definition getBasename :: "bytes \<Rightarrow> bytes" where
  "getBasename path =
     (let name = rev (takeWhile (\<lambda>c. c \<noteq> 47) (rev path))
      in if name = [] \<and> path \<noteq> [] then (if list_all (\<lambda>c. c = 47) path then lit ''/'' else lit ''.'') else name)"

definition CroppedFileName_new :: "bytes \<Rightarrow> bytes" where
  "CroppedFileName_new name = getBasename name"

definition getFullPath :: "bytes \<Rightarrow> bytes \<Rightarrow> bytes" where
  "getFullPath fileName folder =
     (if folder \<noteq> [] \<and> last folder \<noteq> 47 then folder @ lit ''/'' @ fileName else folder @ fileName)"

text \<open>\<open>std::string::find\<close> has found something.\<close>

fun string_contains :: "bytes \<Rightarrow> bytes \<Rightarrow> bool" where
  "string_contains pattern [] = (pattern = [])"
| "string_contains pattern (c # s) = (take (length pattern) (c # s) = pattern \<or> string_contains pattern s)"

definition FileInfo_new :: FileInfo where
  "FileInfo_new = \<lparr>fi_filePos = \<lparr>fp_pos = 0, fp_fileNameRelative = []\<rparr>\<rparr>"

definition block_files :: "disk \<Rightarrow> bytes list" where
  "block_files disk = sort (remdups (filter (string_contains (lit ''.blk'')) (map (\<lambda>(name, _). CroppedFileName_new name) disk)))"

fun first_unread :: "(bytes \<times> FileInfo) list \<Rightarrow> disk \<Rightarrow> bytes list \<Rightarrow> FileInfo" where
  "first_unread processedFiles disk [] = FileInfo_new"
| "first_unread processedFiles disk (file # files) =
     (case map_of processedFiles file of
        None \<Rightarrow> \<lparr>fi_filePos = \<lparr>fp_pos = 0, fp_fileNameRelative = file\<rparr>\<rparr>
      | Some fileInfo \<Rightarrow>
          if fp_pos (fi_filePos fileInfo) < size_of (get_or [] disk file) then fileInfo
          else first_unread processedFiles disk files)"

definition getNextFile :: "(bytes \<times> FileInfo) list \<Rightarrow> disk \<Rightarrow> FileInfo" where
  "getNextFile processedFiles disk = first_unread processedFiles disk (block_files disk)"

subsection \<open>FileBlockSource\<close>

record FileBlockSource =
  fs_allFiles :: "(bytes \<times> FileInfo) list"
  fs_currPos :: u64
  fs_file :: "bytes option"
  fs_fileName :: bytes

definition FileBlockSource_new :: FileBlockSource where
  "FileBlockSource_new = \<lparr>fs_allFiles = [], fs_currPos = 0, fs_file = None, fs_fileName = []\<rparr>"

text \<open>What \<open>process\<close> works on: the source, and the database and the source of rejected blocks that it
  holds by reference.\<close>

record 'd file_state =
  ff_source :: FileBlockSource
  ff_rejected :: FileRejectedBlockSource
  ff_leveldb :: 'd

definition source_initialize :: "'d leveldb \<Rightarrow> 'd \<Rightarrow> FileBlockSource \<Rightarrow> FileBlockSource result" where
  "source_initialize L d s = bindE (getAllFiles L getBasename d) (\<lambda>allFiles. Inr (s\<lparr>fs_allFiles := allFiles\<rparr>))"

definition source_doProcess :: "u64 \<Rightarrow> u64" where
  "source_doProcess count = 0"

definition confirmBlockImpl :: "'d leveldb \<Rightarrow> FileInfo \<Rightarrow> 'd \<Rightarrow> 'd \<times> unit result" where
  "confirmBlockImpl L filepos d =
     (case addFileMetadata (CroppedFileName_new (fp_fileNameRelative (fi_filePos filepos))) filepos Batch_new of
        Inl e \<Rightarrow> (d, Inl e)
      | Inr batch \<Rightarrow> addBatch L batch d)"

definition confirmBlock :: "'d leveldb \<Rightarrow> FileInfo \<Rightarrow> 'd \<Rightarrow> 'd \<times> unit result" where
  "confirmBlock L filepos d = confirmBlockImpl L filepos d"

fun NextBlock_applyFileName :: "bytes \<Rightarrow> NextBlock \<Rightarrow> NextBlock" where
  "NextBlock_applyFileName fileName (SimpleBlock b) = SimpleBlock (BlockInfo_applyFileNameRelative fileName b)"
| "NextBlock_applyFileName fileName (SignBlock b) = SignBlock (SignBlockInfo_applyFileNameRelative fileName b)"
| "NextBlock_applyFileName fileName (RejectedBlock b) =
     RejectedBlock (RejectedTxsMinimumBlockHeader_applyFileNameRelative fileName b)"

text \<open>How a turn of the loop ends: by an exception, by returning false, with a block (and its dump), or
  with the next turn (with the dump read so far).\<close>

datatype file_turn = Turn_throws error | Turn_false | Turn_block NextBlock bytes | Turn_continues bytes

definition opened :: "disk \<Rightarrow> FileBlockSource \<Rightarrow> bytes result" where
  "opened disk s =
     (case fs_file s of None \<Rightarrow> Inl (Check ''File not opened'') | Some name \<Rightarrow> Inr (get_or [] disk name))"

text \<open>The first lines of the loop: a file is opened when none is. \<open>None\<close> when there is no file to read.\<close>

definition file_select :: "disk \<Rightarrow> FileBlockSource \<Rightarrow> FileBlockSource \<times> unit option result" where
  "file_select disk s =
     (if fs_fileName s \<noteq> [] then (s, Inr (Some ()))
      else
        let fi = fi_filePos (getNextFile (fs_allFiles s) disk);
            s = s\<lparr>fs_fileName := fp_fileNameRelative fi\<rparr>
        in if fs_fileName s = [] then (s, Inr None)
           else case openFile disk (fs_fileName s) of
                  Inl e \<Rightarrow> (s\<lparr>fs_file := None\<rparr>, Inl e)
                | Inr _ \<Rightarrow> (s\<lparr>fs_file := Some (fs_fileName s), fs_currPos := fp_pos fi\<rparr>, Inr (Some ())))"

definition set_position :: "bytes \<Rightarrow> u64 \<Rightarrow> FileBlockSource \<Rightarrow> FileBlockSource" where
  "set_position fileName nextCurrPos s =
     s\<lparr>fs_currPos := nextCurrPos,
       fs_allFiles := AList.update (CroppedFileName_new fileName)
         \<lparr>fi_filePos = \<lparr>fp_pos = nextCurrPos, fp_fileNameRelative = fileName\<rparr>\<rparr> (fs_allFiles s)\<rparr>"

definition file_rejected :: "'d leveldb \<Rightarrow> RejectedTxsMinimumBlockHeader \<Rightarrow> bytes \<Rightarrow> 'd file_state \<Rightarrow> 'd file_state \<times> file_turn" where
  "file_rejected L bi dump st =
     (case RejectedTxsMinimumBlockHeader_endBlockPos bi of
        Inl e \<Rightarrow> (st, Turn_throws e)
      | Inr endPos \<Rightarrow>
          let fi = \<lparr>fi_filePos = \<lparr>fp_pos = endPos, fp_fileNameRelative = fp_fileNameRelative (rm_filePos bi)\<rparr>\<rparr>
          in case confirmBlockImpl L fi (ff_leveldb st) of
               (d, Inl e) \<Rightarrow> (st\<lparr>ff_leveldb := d\<rparr>, Turn_throws e)
             | (d, Inr _) \<Rightarrow>
                 (st\<lparr>ff_leveldb := d, ff_rejected := rejected_addBlock bi (ff_rejected st)\<rparr>, Turn_continues dump))"

definition file_block :: "'d leveldb \<Rightarrow> NextBlock \<Rightarrow> bytes \<Rightarrow> 'd file_state \<Rightarrow> 'd file_state \<times> file_turn" where
  "file_block L b dump st =
     (case b of
        RejectedBlock bi \<Rightarrow> file_rejected L bi dump st
      | _ \<Rightarrow> (st, Turn_block b dump))"

definition file_read ::
  "'d leveldb \<Rightarrow> 'j lib \<Rightarrow> u64 \<Rightarrow> disk \<Rightarrow> bool \<Rightarrow> bytes \<Rightarrow> 'd file_state \<Rightarrow> 'd file_state \<times> file_turn" where
  "file_read L l base disk isValidate binaryDump st =
     (let s = ff_source st
      in case bindE (opened disk s) (\<lambda>content. readNextBlockDump content (fs_currPos s) binaryDump) of
           Inl e \<Rightarrow> (st, Turn_throws e)
         | Inr (nextCurrPos, dump) \<Rightarrow>
             if fs_currPos s = nextCurrPos
             then (st\<lparr>ff_source := s\<lparr>fs_file := None, fs_fileName := []\<rparr>\<rparr>, Turn_continues dump)
             else case parseNextBlockInfo l (fs_currPos s) isValidate False 0 0 \<lparr>mem_base = base, mem_data = dump\<rparr> of
                    Inl e \<Rightarrow> (st, Turn_throws e)
                  | Inr b \<Rightarrow>
                      file_block L (NextBlock_applyFileName (fs_fileName s) b) dump
                        (st\<lparr>ff_source := set_position (fs_fileName s) nextCurrPos s\<rparr>))"

definition file_loop_turn ::
  "'d leveldb \<Rightarrow> 'j lib \<Rightarrow> u64 \<Rightarrow> disk \<Rightarrow> bool \<Rightarrow> bytes \<Rightarrow> 'd file_state \<Rightarrow> 'd file_state \<times> file_turn" where
  "file_loop_turn L l base disk isValidate binaryDump st =
     (case file_select disk (ff_source st) of
        (s, Inl e) \<Rightarrow> (st\<lparr>ff_source := s\<rparr>, Turn_throws e)
      | (s, Inr None) \<Rightarrow> (st\<lparr>ff_source := s\<rparr>, Turn_false)
      | (s, Inr (Some _)) \<Rightarrow> file_read L l base disk isValidate binaryDump (st\<lparr>ff_source := s\<rparr>))"

text \<open>\<open>process\<close>: the block and its dump, or \<open>None\<close> for the value false.\<close>

partial_function (option) file_process ::
  "'d leveldb \<Rightarrow> 'j lib \<Rightarrow> u64 \<Rightarrow> disk \<Rightarrow> bool \<Rightarrow> bytes \<Rightarrow> 'd file_state \<Rightarrow>
   ('d file_state \<times> (NextBlock \<times> bytes) option result) option" where
  "file_process L l base disk isValidate binaryDump st =
     (case file_loop_turn L l base disk isValidate binaryDump st of
        (st', Turn_throws e) \<Rightarrow> Some (st', Inl e)
      | (st', Turn_false) \<Rightarrow> Some (st', Inr None)
      | (st', Turn_block b dump) \<Rightarrow> Some (st', Inr (Some (b, dump)))
      | (st', Turn_continues dump) \<Rightarrow> file_process L l base disk isValidate dump st')"

definition setBlockNumbers :: "u64 option \<Rightarrow> bytes \<Rightarrow> TransactionInfo list \<Rightarrow> TransactionInfo list result" where
  "setBlockNumbers blockNumber fileName txs =
     mapE (\<lambda>tx. case blockNumber of
                  None \<Rightarrow> Inl OutOfRange
                | Some n \<Rightarrow> Inr (tx\<lparr>tx_filePos := (tx_filePos tx)\<lparr>fp_fileNameRelative := fileName\<rparr>, tx_blockNumber := n\<rparr>)) txs"

definition getExistingBlockS ::
  "'j lib \<Rightarrow> u64 \<Rightarrow> disk \<Rightarrow> BlockHeader \<Rightarrow> bytes \<Rightarrow> bool \<Rightarrow> (BlockInfo \<times> bytes) result" where
  "getExistingBlockS l base disk bh blockDump isValidate =
     (let fileName = fp_fileNameRelative (bh_filePos bh); pos = fp_pos (bh_filePos bh)
      in bindE (CHECK (fileName \<noteq> []) ''Incorrect file name'') (\<lambda>_.
         bindE (openFile disk fileName) (\<lambda>file.
         bindE (readNextBlockDump file pos blockDump) (\<lambda>(nextCurrPos, blockDump).
         bindE (CHECK (nextCurrPos \<noteq> pos) ''Incorrect existing block'') (\<lambda>_.
         bindE (parseNextBlockInfo l pos isValidate False 0 0 \<lparr>mem_base = base, mem_data = blockDump\<rparr>) (\<lambda>b.
         case b of
           SimpleBlock bi \<Rightarrow>
             bindE (setBlockNumbers (bh_blockNumber bh) fileName (bi_txs bi)) (\<lambda>txs.
             Inr (\<lparr>bi_header = (bi_header bi)\<lparr>bh_filePos := (bh_filePos (bi_header bi))\<lparr>fp_fileNameRelative := fileName\<rparr>,
                     bh_blockNumber := bh_blockNumber bh\<rparr>, bi_txs = txs\<rparr>, blockDump))
         | _ \<Rightarrow> Inl (Check ''Incorrect blockinfo'')))))))"

subsection \<open>Files of whole blocks\<close>

text \<open>A folder given by the blocks of its files, and the positions that are at the end of a block.\<close>

definition frame :: "bytes \<Rightarrow> bytes" where
  "frame d = le_bytes 8 (size_of d) @ d"

definition disk_of :: "(bytes \<times> bytes list) list \<Rightarrow> disk" where
  "disk_of F = map (\<lambda>(name, ds). (name, concat (map frame ds))) F"

fun at_boundary :: "nat \<Rightarrow> bytes list \<Rightarrow> bool" where
  "at_boundary p [] = (p = 0)"
| "at_boundary p (d # ds) = (p = 0 \<or> length (frame d) \<le> p \<and> at_boundary (p - length (frame d)) ds)"

fun skip_blocks :: "nat \<Rightarrow> bytes list \<Rightarrow> bytes list" where
  "skip_blocks p [] = []"
| "skip_blocks p (d # ds) = (if p = 0 then d # ds else skip_blocks (p - length (frame d)) ds)"

lemma frame_pos: "0 < length (frame d)"
  by (simp add: frame_def)

lemma boundary_split:
  "at_boundary p ds \<Longrightarrow> \<exists>pre. ds = pre @ skip_blocks p ds \<and> p = length (concat (map frame pre))"
proof (induction p ds rule: at_boundary.induct)
  case (2 p d ds)
  show ?case
  proof (cases "p = 0")
    case False
    then obtain pre where "ds = pre @ skip_blocks (p - length (frame d)) ds"
        "p - length (frame d) = length (concat (map frame pre))" and le: "length (frame d) \<le> p"
      using 2 by auto
    then show ?thesis
      using False by (intro exI [of _ "d # pre"]) simp
  qed (intro exI [of _ "[]"], simp)
qed simp

lemma boundary_intro:
  "at_boundary (length (concat (map frame pre))) (pre @ ds) \<and> skip_blocks (length (concat (map frame pre))) (pre @ ds) = ds"
proof (induction pre)
  case Nil
  show ?case by (cases ds) auto
next
  case (Cons d pre)
  then show ?case using frame_pos [of d] by simp
qed

lemma read_next:
  assumes "at_boundary (unat pos) ds" and "skip_blocks (unat pos) ds = d # rest" and "d \<noteq> []"
    and "length (concat (map frame ds)) < 2 ^ 63"
  shows "\<exists>pos'. readNextBlockDump (concat (map frame ds)) pos dump = Inr (pos', d) \<and> pos' \<noteq> pos \<and>
     at_boundary (unat pos') ds \<and> skip_blocks (unat pos') ds = rest"
proof -
  obtain pre where ds: "ds = pre @ d # rest" and p: "unat pos = length (concat (map frame pre))"
    using boundary_split [OF assms(1)] assms(2) by auto
  let ?bs = "concat (map frame pre)"
  have save: "saveBlockToFileBinary ?bs d = (?bs @ frame d, pos)"
    using p by (simp add: saveBlockToFileBinary_def frame_def size_of_def flip: p)
  have u: "unat (size_of (?bs @ frame d)) = length (concat (map frame (pre @ [d])))"
    using assms(4) by (simp add: ds unat_size_of)
  have "readNextBlockDump (concat (map frame ds)) pos dump = Inr (size_of (?bs @ frame d), d)"
    using readNextBlockDump_saved [OF assms(3) save, of "concat (map frame rest)" dump] assms(4) by (simp add: ds)
  moreover have "size_of (?bs @ frame d) \<noteq> pos"
    using u p frame_pos [of d] by auto
  ultimately show ?thesis
    using boundary_intro [of "pre @ [d]" rest] u by (auto simp: ds)
qed

lemma read_end:
  assumes "at_boundary (unat pos) ds" and "skip_blocks (unat pos) ds = []" and "length (concat (map frame ds)) < 2 ^ 63"
  shows "readNextBlockDump (concat (map frame ds)) pos dump = Inr (pos, dump)" and "unat pos = length (concat (map frame ds))"
proof -
  show p: "unat pos = length (concat (map frame ds))"
    using boundary_split [OF assms(1)] assms(2) by auto
  have "unat (pos + 8) = unat pos + 8"
    using unat_add_u64 [of pos 8] p assms(3) by simp
  then have "size_of (concat (map frame ds)) < pos + BLOCK_SIZE_SIZE"
    using assms(3) p by (simp add: word_less_nat_alt BLOCK_SIZE_SIZE_def unat_size_of)
  then show "readNextBlockDump (concat (map frame ds)) pos dump = Inr (pos, dump)"
    by (simp add: readNextBlockDump_def getBlockDump_def)
qed

subsection \<open>What is left to read\<close>

definition file_names :: "(bytes \<times> bytes list) list \<Rightarrow> bytes list" where
  "file_names F = sort (map fst F)"

definition folder_ok :: "(bytes \<times> bytes list) list \<Rightarrow> bool" where
  "folder_ok F \<longleftrightarrow> distinct (map fst F) \<and>
     (\<forall>(name, ds) \<in> set F. name \<noteq> [] \<and> 47 \<notin> set name \<and> string_contains (lit ''.blk'') name \<and>
        ds \<noteq> [] \<and> [] \<notin> set ds \<and> length (concat (map frame ds)) < 2 ^ 63)"

definition read_position :: "FileBlockSource \<Rightarrow> bytes \<Rightarrow> nat" where
  "read_position s name = (case map_of (fs_allFiles s) name of None \<Rightarrow> 0 | Some fi \<Rightarrow> unat (fp_pos (fi_filePos fi)))"

definition rest_of :: "(bytes \<times> bytes list) list \<Rightarrow> FileBlockSource \<Rightarrow> bytes \<Rightarrow> (bytes \<times> bytes) list" where
  "rest_of F s name = map (Pair name) (skip_blocks (read_position s name) (get_or [] F name))"

text \<open>The blocks \<open>process\<close> has not delivered yet, with their files: those of the open file, then those of
  the other files in the order of the names.\<close>

definition pending :: "(bytes \<times> bytes list) list \<Rightarrow> FileBlockSource \<Rightarrow> (bytes \<times> bytes) list" where
  "pending F s =
     (if fs_fileName s = [] then [] else rest_of F s (fs_fileName s)) @
     concat (map (rest_of F s) (filter (\<lambda>name. name \<noteq> fs_fileName s) (file_names F)))"

definition source_ok :: "(bytes \<times> bytes list) list \<Rightarrow> FileBlockSource \<Rightarrow> bool" where
  "source_ok F s \<longleftrightarrow>
     (\<forall>(name, ds) \<in> set F. at_boundary (read_position s name) ds \<and>
        (\<forall>fi. map_of (fs_allFiles s) name = Some fi \<longrightarrow> fp_fileNameRelative (fi_filePos fi) = name)) \<and>
     (fs_fileName s \<noteq> [] \<longrightarrow> fs_fileName s \<in> fst ` set F \<and> fs_file s = Some (fs_fileName s) \<and>
        unat (fs_currPos s) = read_position s (fs_fileName s))"

lemma basename_file: "47 \<notin> set name \<Longrightarrow> getBasename name = name"
proof -
  assume "47 \<notin> set name"
  then have "takeWhile (\<lambda>c. c \<noteq> 47) (rev name) = rev name"
    by (auto intro: takeWhile_eq_all_conv [THEN iffD2])
  from this [symmetric] show ?thesis
    by (simp add: getBasename_def Let_def)
qed

lemma block_files_disk: "folder_ok F \<Longrightarrow> block_files (disk_of F) = file_names F"
proof -
  assume F: "folder_ok F"
  have "filter (string_contains (lit ''.blk'')) (map (\<lambda>(name, _). CroppedFileName_new name) (disk_of F)) = map fst F"
    using F unfolding folder_ok_def disk_of_def
    by (induction F) (auto simp: CroppedFileName_new_def basename_file simp del: lit_Cons)
  then show ?thesis
    using F by (simp add: block_files_def file_names_def folder_ok_def distinct_remdups_id)
qed

lemma folder_file:
  assumes "folder_ok F" and "name \<in> fst ` set F"
  obtains ds where "(name, ds) \<in> set F" "get_or [] F name = ds" "get_or [] (disk_of F) name = concat (map frame ds)"
    "map_of (disk_of F) name = Some (concat (map frame ds))" "name \<noteq> []" "47 \<notin> set name" "ds \<noteq> []" "[] \<notin> set ds"
    "length (concat (map frame ds)) < 2 ^ 63"
proof -
  obtain ds where ds: "(name, ds) \<in> set F" using assms(2) by auto
  then have m: "map_of F name = Some ds" using assms(1) by (simp add: folder_ok_def)
  have "map_of (disk_of F) name = Some (concat (map frame ds))"
    using m by (induction F) (auto simp: disk_of_def split: if_splits)
  then show thesis
    using that [of ds] ds m assms(1) by (auto simp: folder_ok_def get_or_def)
qed

lemma set_file_names [simp]: "set (file_names F) = fst ` set F"
  by (simp add: file_names_def)

lemma distinct_file_names: "folder_ok F \<Longrightarrow> distinct (file_names F)"
  by (simp add: file_names_def folder_ok_def)

lemma source_ok_boundary:
  "source_ok F s \<Longrightarrow> (name, ds) \<in> set F \<Longrightarrow> at_boundary (read_position s name) ds"
  by (auto simp: source_ok_def)

lemma first_unread_spec:
  assumes "folder_ok F" and "source_ok F s" and "set names \<subseteq> fst ` set F"
  shows "case concat (map (rest_of F s) names) of
      [] \<Rightarrow> first_unread (fs_allFiles s) (disk_of F) names = FileInfo_new
    | (name, d) # _ \<Rightarrow>
        fp_fileNameRelative (fi_filePos (first_unread (fs_allFiles s) (disk_of F) names)) = name \<and>
        unat (fp_pos (fi_filePos (first_unread (fs_allFiles s) (disk_of F) names))) = read_position s name \<and>
        name \<in> set names \<and>
        (distinct names \<longrightarrow> concat (map (rest_of F s) names) =
           rest_of F s name @ concat (map (rest_of F s) (filter (\<lambda>n. n \<noteq> name) names)))"
  using assms(3)
proof (induction names)
  case (Cons n names)
  obtain ds where ds: "(n, ds) \<in> set F" "get_or [] F n = ds" "get_or [] (disk_of F) n = concat (map frame ds)"
      "ds \<noteq> []" "length (concat (map frame ds)) < 2 ^ 63" "n \<noteq> []"
    using folder_file [OF assms(1), of n] Cons.prems by auto
  note b = source_ok_boundary [OF assms(2) ds(1)]
  have others: "distinct (n # names) \<Longrightarrow> filter (\<lambda>m. m \<noteq> n) (n # names) = names"
    by (auto simp: filter_id_conv)
  show ?case
  proof (cases "skip_blocks (read_position s n) ds")
    case Nil
    then have r: "rest_of F s n = []" by (simp add: rest_of_def ds(2))
    have "read_position s n = length (concat (map frame ds))"
      using boundary_split [OF b] Nil by auto
    then have m: "\<exists>fi. map_of (fs_allFiles s) n = Some fi \<and> \<not> fp_pos (fi_filePos fi) < size_of (concat (map frame ds))"
      using ds(4,5) frame_pos by (cases ds) (auto simp: read_position_def word_less_nat_alt unat_size_of split: option.splits)
    have "first_unread (fs_allFiles s) (disk_of F) (n # names) = first_unread (fs_allFiles s) (disk_of F) names"
      using m ds(3) by auto
    moreover have "concat (map (rest_of F s) (n # names)) = concat (map (rest_of F s) names)"
      using r by simp
    ultimately show ?thesis
      using Cons r by (cases "concat (map (rest_of F s) names)") (auto simp del: concat_eq_Nil_conv)
  next
    case (Cons d rest)
    then have r: "rest_of F s n = (n, d) # map (Pair n) rest" by (simp add: rest_of_def ds(2))
    obtain pre where "ds = pre @ d # rest" "read_position s n = length (concat (map frame pre))"
      using boundary_split [OF b] Cons by auto
    then have less: "read_position s n < length (concat (map frame ds))"
      using frame_pos [of d] by simp
    have "fp_fileNameRelative (fi_filePos (first_unread (fs_allFiles s) (disk_of F) (n # names))) = n \<and>
        unat (fp_pos (fi_filePos (first_unread (fs_allFiles s) (disk_of F) (n # names)))) = read_position s n"
      using less ds(1,3,5) assms(2)
      by (auto simp: read_position_def word_less_nat_alt unat_size_of source_ok_def split: option.splits)
    then show ?thesis
      using r others by simp
  qed
qed simp

lemma pending_closed: "fs_fileName s = [] \<Longrightarrow> folder_ok F \<Longrightarrow> pending F s = concat (map (rest_of F s) (file_names F))"
proof -
  assume "fs_fileName s = []" and F: "folder_ok F"
  moreover have "filter (\<lambda>name. name \<noteq> []) (file_names F) = file_names F"
    using F by (subst filter_id_conv) (auto simp: folder_ok_def)
  ultimately show ?thesis
    by (simp add: pending_def)
qed

lemma concat_rest_filter:
  "rest_of F s name = [] \<Longrightarrow> concat (map (rest_of F s) (filter (\<lambda>n. n \<noteq> name) names)) = concat (map (rest_of F s) names)"
  by (induction names) auto

text \<open>Opening the next file does not change what is left.\<close>

lemma file_select_ok:
  assumes "folder_ok F" and "source_ok F s" and "file_select (disk_of F) s = (s', r)"
  shows "source_ok F s' \<and> pending F s' = pending F s \<and>
     (r = Inr None \<and> fs_fileName s' = [] \<and> pending F s = [] \<or>
      r = Inr (Some ()) \<and> fs_fileName s' \<noteq> [] \<and> (fs_fileName s = [] \<longrightarrow> rest_of F s' (fs_fileName s') \<noteq> []))"
proof (cases "fs_fileName s = []")
  case True
  let ?fi = "getNextFile (fs_allFiles s) (disk_of F)"
  have fi: "?fi = first_unread (fs_allFiles s) (disk_of F) (file_names F)"
    by (simp add: getNextFile_def block_files_disk [OF assms(1)])
  note spec = first_unread_spec [OF assms(1,2), of "file_names F", folded fi]
  note pend = pending_closed [OF True assms(1)]
  show ?thesis
  proof (cases "pending F s")
    case Nil
    then have "?fi = FileInfo_new"
      using spec unfolding pend [symmetric] by simp
    then have r: "r = Inr None" and s': "s' = s"
      using assms(3) True by (auto simp: file_select_def FileInfo_new_def)
    show ?thesis
      using r s' True Nil assms(2) by simp
  next
    case (Cons nd rest)
    obtain name d where nd: "nd = (name, d)" by force
    have fi': "fp_fileNameRelative (fi_filePos ?fi) = name" "unat (fp_pos (fi_filePos ?fi)) = read_position s name"
        "name \<in> fst ` set F" "pending F s = rest_of F s name @ concat (map (rest_of F s) (filter (\<lambda>n. n \<noteq> name) (file_names F)))"
      using spec Cons pend nd distinct_file_names [OF assms(1)] by auto
    obtain ds where ds: "map_of (disk_of F) name = Some (concat (map frame ds))" "name \<noteq> []"
      using folder_file [OF assms(1) fi'(3)] by metis
    let ?s = "s\<lparr>fs_fileName := name, fs_file := Some name, fs_currPos := fp_pos (fi_filePos ?fi)\<rparr>"
    have s': "s' = ?s" and r: "r = Inr (Some ())"
      using assms(3) True fi'(1) ds by (auto simp: file_select_def openFile_def)
    have same: "read_position ?s = read_position s" "rest_of F ?s = rest_of F s"
      by (auto simp: read_position_def rest_of_def fun_eq_iff)
    have "source_ok F ?s"
      using assms(2) fi'(2,3) by (simp add: source_ok_def same)
    moreover have p: "pending F ?s = pending F s"
      using fi'(4) ds(2) by (simp add: pending_def same)
    moreover have "rest_of F s name \<noteq> []"
    proof
      assume "rest_of F s name = []"
      then have "(name, d) \<in> set (concat (map (rest_of F s) (filter (\<lambda>n. n \<noteq> name) (file_names F))))"
        using fi'(4) Cons nd by (metis append_Nil list.set_intros(1))
      then show False
        by (auto simp: rest_of_def)
    qed
    ultimately show ?thesis
      using s' r ds(2) by (simp add: same)
  qed
qed (use assms in \<open>auto simp: file_select_def\<close>)

definition rejected_dump :: "bytes \<Rightarrow> bool" where
  "rejected_dump d \<longleftrightarrow> le_val (take 8 d) = REJECTED_TXS_BLOCK_TYPE"

lemma parse_rejected:
  assumes "parseNextBlockInfo l pos v sv b c \<lparr>mem_base = base, mem_data = d\<rparr> = Inr blk"
  shows "(\<exists>h. blk = RejectedBlock h) \<longleftrightarrow> rejected_dump d"
  using assms by (auto simp: parseNextBlockInfo_def load_def rejected_dump_def result_simps Let_def SIGN_BLOCK_TYPE_def
      REJECTED_TXS_BLOCK_TYPE_def split: if_splits)

lemma fileName_set_position [simp]: "fs_fileName (set_position name pos s) = fs_fileName s"
  by (simp add: set_position_def)

lemma set_position_ok:
  assumes "folder_ok F" and "source_ok F s" and "fs_fileName s = name" and "name \<noteq> []" and "(name, ds) \<in> set F"
    and "at_boundary (unat pos) ds" and "skip_blocks (unat (fs_currPos s)) ds = d # skip_blocks (unat pos) ds"
  shows "source_ok F (set_position name pos s)" and "pending F s = (name, d) # pending F (set_position name pos s)"
proof -
  let ?s = "set_position name pos s"
  have name: "47 \<notin> set name" and uniq: "\<And>ds'. (name, ds') \<in> set F \<Longrightarrow> ds' = ds" and g: "get_or [] F name = ds"
    using assms(1,5) by (auto simp: folder_ok_def get_or_def dest: eq_key_imp_eq_value)
  have at: "read_position ?s n = (if n = name then unat pos else read_position s n)" for n
    by (simp add: read_position_def set_position_def CroppedFileName_new_def basename_file [OF name])
  have rest: "rest_of F ?s n = (if n = name then map (Pair name) (skip_blocks (unat pos) ds) else rest_of F s n)" for n
    by (simp add: rest_of_def at g)
  have fn: "fs_fileName ?s = name" "fs_file ?s = fs_file s" "fs_currPos ?s = pos"
    using assms(3) by (simp_all add: set_position_def)
  show "source_ok F ?s"
    unfolding source_ok_def
  proof (intro conjI impI)
    show "\<forall>(n, ds') \<in> set F. at_boundary (read_position ?s n) ds' \<and>
        (\<forall>fi. map_of (fs_allFiles ?s) n = Some fi \<longrightarrow> fp_fileNameRelative (fi_filePos fi) = n)"
    proof (clarify, intro conjI allI impI)
      fix n ds' assume n: "(n, ds') \<in> set F"
      show "at_boundary (read_position ?s n) ds'"
        using n uniq assms(6) source_ok_boundary [OF assms(2) n] by (auto simp: at)
      fix fi assume "map_of (fs_allFiles ?s) n = Some fi"
      then show "fp_fileNameRelative (fi_filePos fi) = n"
        using n assms(2) by (auto simp: set_position_def CroppedFileName_new_def basename_file [OF name] source_ok_def split: if_splits)
    qed
  qed (use assms in \<open>auto simp: source_ok_def fn at\<close>)
  have same: "map (rest_of F ?s) (filter (\<lambda>n. n \<noteq> name) ns) = map (rest_of F s) (filter (\<lambda>n. n \<noteq> name) ns)" for ns
    by (simp add: rest)
  have "rest_of F s name = (name, d) # rest_of F ?s name"
    using assms(2,3,4,7) by (simp add: rest_of_def at g source_ok_def)
  then show "pending F s = (name, d) # pending F ?s"
    using assms(3,4) by (simp add: pending_def fn same)
qed

definition turn_delivers ::
  "'j lib \<Rightarrow> u64 \<Rightarrow> bool \<Rightarrow> (bytes \<times> bytes list) list \<Rightarrow> FileBlockSource \<Rightarrow> FileBlockSource \<Rightarrow> file_turn \<Rightarrow> bool" where
  "turn_delivers l base v F s s' t \<longleftrightarrow>
     (\<exists>name d ps. pending F s = (name, d) # ps \<and> fs_fileName s' = name \<and> name \<noteq> [] \<and>
        (case t of
           Turn_throws e \<Rightarrow> pending F s' = pending F s \<or> rejected_dump d \<and> pending F s' = ps
         | Turn_false \<Rightarrow> False
         | Turn_block b dump \<Rightarrow> dump = d \<and> \<not> rejected_dump d \<and> pending F s' = ps \<and>
             (\<exists>pos b0. parseNextBlockInfo l pos v False 0 0 \<lparr>mem_base = base, mem_data = d\<rparr> = Inr b0 \<and>
                b = NextBlock_applyFileName name b0)
         | Turn_continues dump \<Rightarrow> rejected_dump d \<and> pending F s' = ps))"

lemma file_rejected_spec:
  "ff_source (fst (file_rejected L bi d st)) = ff_source st \<and>
     (snd (file_rejected L bi d st) = Turn_continues d \<or> (\<exists>e. snd (file_rejected L bi d st) = Turn_throws e))"
  by (auto simp: file_rejected_def Let_def split: sum.splits prod.splits)

lemma file_read_ok:
  assumes F: "folder_ok F" and ok: "source_ok F (ff_source st)" and ne: "fs_fileName (ff_source st) \<noteq> []"
    and read: "file_read L l base (disk_of F) v bd st = (st', t)"
  shows "source_ok F (ff_source st') \<and>
     (t = Turn_continues bd \<and> fs_fileName (ff_source st') = [] \<and> pending F (ff_source st') = pending F (ff_source st) \<and>
        rest_of F (ff_source st) (fs_fileName (ff_source st)) = [] \<or>
      turn_delivers l base v F (ff_source st) (ff_source st') t)"
proof -
  let ?s = "ff_source st"
  define name where "name = fs_fileName ?s"
  have opn: "name \<in> fst ` set F" "fs_file ?s = Some name" "unat (fs_currPos ?s) = read_position ?s name"
    using ok ne by (auto simp: source_ok_def name_def)
  obtain ds where ds: "(name, ds) \<in> set F" "get_or [] F name = ds" "get_or [] (disk_of F) name = concat (map frame ds)"
      "[] \<notin> set ds" "length (concat (map frame ds)) < 2 ^ 63"
    using folder_file [OF F opn(1)] by metis
  have b: "at_boundary (unat (fs_currPos ?s)) ds"
    using source_ok_boundary [OF ok ds(1)] opn(3) by simp
  show ?thesis
  proof (cases "skip_blocks (unat (fs_currPos ?s)) ds")
    case Nil
    have rest: "rest_of F ?s name = []" using Nil by (simp add: rest_of_def ds(2) flip: opn(3))
    let ?c = "?s\<lparr>fs_file := None, fs_fileName := []\<rparr>"
    have st': "st' = st\<lparr>ff_source := ?c\<rparr>" "t = Turn_continues bd"
      using read read_end(1) [OF b Nil ds(5), of bd] by (auto simp: file_read_def opened_def opn(2) ds(3))
    have same: "read_position ?c = read_position ?s" "rest_of F ?c = rest_of F ?s"
      by (auto simp: read_position_def rest_of_def fun_eq_iff)
    have "pending F ?c = pending F ?s"
      using pending_closed [of ?c, OF _ F] concat_rest_filter [OF rest] ne rest
      by (simp add: same pending_def [of F ?s] flip: name_def)
    then show ?thesis
      using ok st' rest by (simp add: source_ok_def same name_def)
  next
    case (Cons d rest)
    have "d \<in> set ds"
      using boundary_split [OF b] Cons by (metis in_set_conv_decomp)
    then obtain pos where pos: "readNextBlockDump (concat (map frame ds)) (fs_currPos ?s) bd = Inr (pos, d)"
        "pos \<noteq> fs_currPos ?s" "at_boundary (unat pos) ds" "skip_blocks (unat pos) ds = rest"
      using read_next [OF b Cons _ ds(5)] ds(4) by metis
    note upd = set_position_ok [OF F ok name_def [symmetric] ne [folded name_def] ds(1) pos(3) Cons [folded pos(4)]]
    note step = read [unfolded file_read_def opened_def Let_def opn(2) option.case ds(3) bindE.simps pos(1) sum.case prod.case
        if_not_P [OF pos(2) [symmetric]]]
    show ?thesis
    proof (cases "parseNextBlockInfo l (fs_currPos ?s) v False 0 0 \<lparr>mem_base = base, mem_data = d\<rparr>")
      case (Inl e)
      then show ?thesis
        using step ok upd(2) ne by (auto simp: turn_delivers_def name_def)
    next
      case (Inr b0)
      note rej = parse_rejected [OF Inr]
      show ?thesis
      proof (cases "\<exists>h. b0 = RejectedBlock h")
        case False
        then have r: "st' = st\<lparr>ff_source := set_position name pos ?s\<rparr>" "t = Turn_block (NextBlock_applyFileName name b0) d"
          using step Inr by (cases b0; simp add: file_block_def name_def)+
        have "turn_delivers l base v F ?s (ff_source st') t"
          unfolding turn_delivers_def r file_turn.case using False rej upd(2) ne Inr
          by (intro exI [of _ name] exI [of _ d]) (auto simp: name_def)
        then show ?thesis
          using upd(1) by (simp add: r(1))
      next
        case True
        then obtain h where h: "b0 = RejectedBlock h" by blast
        let ?st = "st\<lparr>ff_source := set_position name pos ?s\<rparr>"
        let ?h = "RejectedTxsMinimumBlockHeader_applyFileNameRelative name h"
        have r: "file_rejected L ?h d ?st = (st', t)"
          using step Inr h by (simp add: file_block_def flip: name_def)
        show ?thesis
          using file_rejected_spec [of L ?h d ?st] upd rej h ne unfolding r
          by (auto simp: turn_delivers_def name_def)
      qed
    qed
  qed
qed

lemma turn_delivers_pending: "pending F s1 = pending F s \<Longrightarrow> turn_delivers l base v F s1 s' t = turn_delivers l base v F s s' t"
  unfolding turn_delivers_def by (erule ssubst) (rule refl)

text \<open>One turn: the loop ends, or goes on with less to do.\<close>

lemma file_turn_cases:
  assumes F: "folder_ok F" and ok: "source_ok F (ff_source st)"
    and turn: "file_loop_turn L l base (disk_of F) v bd st = (st', t)"
  shows "source_ok F (ff_source st') \<and>
     (t = Turn_false \<and> pending F (ff_source st) = [] \<and> pending F (ff_source st') = [] \<or>
      t = Turn_continues bd \<and> fs_fileName (ff_source st) \<noteq> [] \<and> fs_fileName (ff_source st') = [] \<and>
        pending F (ff_source st') = pending F (ff_source st) \<or>
      turn_delivers l base v F (ff_source st) (ff_source st') t)"
proof -
  let ?s = "ff_source st"
  obtain s1 r where sel: "file_select (disk_of F) ?s = (s1, r)" by force
  note opn = file_select_ok [OF F ok sel]
  show ?thesis
  proof (cases "r = Inr None")
    case True
    then show ?thesis using turn sel opn by (auto simp: file_loop_turn_def)
  next
    case False
    then have r: "r = Inr (Some ())" and ne: "fs_fileName s1 \<noteq> []" using opn by auto
    have read: "file_read L l base (disk_of F) v bd (st\<lparr>ff_source := s1\<rparr>) = (st', t)"
      using turn sel r by (simp add: file_loop_turn_def)
    have same: "fs_fileName ?s \<noteq> [] \<Longrightarrow> s1 = ?s"
      using sel by (simp add: file_select_def)
    show ?thesis
      using file_read_ok [OF F _ _ read] opn ne r same turn_delivers_pending [of F s1 ?s l base v "ff_source st'" t] by auto
  qed
qed

definition process_delivers ::
  "'j lib \<Rightarrow> u64 \<Rightarrow> bool \<Rightarrow> (bytes \<times> bytes list) list \<Rightarrow> FileBlockSource \<Rightarrow> FileBlockSource \<Rightarrow>
   (NextBlock \<times> bytes) option result \<Rightarrow> bool" where
  "process_delivers l base v F s s' r \<longleftrightarrow> source_ok F s' \<and>
     (\<exists>aside. list_all (\<lambda>(name, d). rejected_dump d) aside \<and>
        (case r of
           Inl e \<Rightarrow> pending F s = aside @ pending F s'
         | Inr None \<Rightarrow> pending F s = aside \<and> pending F s' = []
         | Inr (Some (b, dump)) \<Rightarrow> pending F s = aside @ (fs_fileName s', dump) # pending F s' \<and> \<not> rejected_dump dump \<and>
             (\<exists>pos b0. parseNextBlockInfo l pos v False 0 0 \<lparr>mem_base = base, mem_data = dump\<rparr> = Inr b0 \<and>
                b = NextBlock_applyFileName (fs_fileName s') b0)))"

lemma process_delivers_later:
  assumes "process_delivers l base v F s1 s' r" and "pending F s = aside @ pending F s1"
    and "list_all (\<lambda>(name, d). rejected_dump d) aside"
  shows "process_delivers l base v F s s' r"
proof -
  obtain aside' where a: "list_all (\<lambda>(name, d). rejected_dump d) aside'"
    and r: "case r of
           Inl e \<Rightarrow> pending F s1 = aside' @ pending F s'
         | Inr None \<Rightarrow> pending F s1 = aside' \<and> pending F s' = []
         | Inr (Some (b, dump)) \<Rightarrow> pending F s1 = aside' @ (fs_fileName s', dump) # pending F s' \<and> \<not> rejected_dump dump \<and>
             (\<exists>pos b0. parseNextBlockInfo l pos v False 0 0 \<lparr>mem_base = base, mem_data = dump\<rparr> = Inr b0 \<and>
                b = NextBlock_applyFileName (fs_fileName s') b0)"
    using assms(1) unfolding process_delivers_def by blast
  have "list_all (\<lambda>(name, d). rejected_dump d) (aside @ aside')"
    using a assms(3) by simp
  then show ?thesis
    using assms(1,2) r unfolding process_delivers_def
    by (intro conjI exI [of _ "aside @ aside'"]) (auto split: sum.splits option.splits)
qed


definition sample_folder :: "(bytes \<times> bytes list) list" where
  "sample_folder = [(lit ''b.blk'', [le_bytes 8 REJECTED_TXS_BLOCK_TYPE]),
     (lit ''a.blk'', [le_bytes 8 REJECTED_TXS_BLOCK_TYPE @ [7], le_bytes 8 REJECTED_TXS_BLOCK_TYPE])]"

lemma le_bytes_8_not_Nil: "le_bytes 8 v \<noteq> []"
  by (metis length_le_bytes list.size(3) zero_neq_numeral)

lemma sample_folder_ok: "folder_ok sample_folder"
  by (simp add: folder_ok_def sample_folder_def frame_def le_bytes_8_not_Nil le_bytes_8_not_Nil [symmetric])

definition sample_source :: "sample_store file_state" where
  "sample_source = \<lparr>ff_source = FileBlockSource_new, ff_rejected = \<lparr>fr_blocks = [], fr_currIndex = 0\<rparr>, ff_leveldb = []\<rparr>"


subsection \<open>A block that is not complete\<close>

definition stuck_at :: "disk \<Rightarrow> FileBlockSource \<Rightarrow> bool" where
  "stuck_at disk s \<longleftrightarrow>
     (let fi = fi_filePos (getNextFile (fs_allFiles s) disk)
      in fs_fileName s = [] \<and> fp_fileNameRelative fi \<noteq> [] \<and>
         (\<exists>content. map_of disk (fp_fileNameRelative fi) = Some content \<and>
            (\<forall>dump. readNextBlockDump content (fp_pos fi) dump = Inr (fp_pos fi, dump))))"

lemma stuck_turn:
  assumes "stuck_at disk (ff_source st)"
  shows "\<exists>st'. file_loop_turn L l base disk v bd st = (st', Turn_continues bd) \<and> stuck_at disk (ff_source st')"
  using assms
  by (auto simp: stuck_at_def Let_def file_loop_turn_def file_select_def openFile_def file_read_def opened_def get_or_def)

lemma incomplete_read:
  assumes "unat pos \<le> length content" and "length content < 2 ^ 63"
    and "block_size = le_val (take 8 (drop (unat pos) content))"
    and "length content < unat pos + 8 \<or> length content < unat pos + 8 + unat block_size \<and> unat pos + 8 + unat block_size < 2 ^ 64"
  shows "readNextBlockDump content pos dump = Inr (pos, dump)"
proof -
  have pos8: "unat (pos + 8) = unat pos + 8"
    using assms(1,2) unat_add_u64 [of pos 8] by simp
  have len: "unat (size_of content) = length content"
    using assms(2) by (simp add: unat_size_of)
  have "getBlockDump content pos 0 max_u64 = Inr (0, [])"
  proof (cases "length content < unat pos + 8")
    case True
    then show ?thesis
      using pos8 len by (simp add: getBlockDump_def BLOCK_SIZE_SIZE_def word_less_nat_alt)
  next
    case False
    then have head: "fread content pos 8 = take 8 (drop (unat pos) content)"
      by (simp add: fread_def)
    have "unat (block_size + 8 + pos) = unat pos + 8 + unat block_size"
      using assms(4) False unat_add_u64 [of "pos + 8" "unat block_size"] pos8 by (simp add: algebra_simps)
    then show ?thesis
      using assms False pos8 len
      by (simp add: getBlockDump_def BLOCK_SIZE_SIZE_def word_less_nat_alt seek_def head)
  qed
  then show ?thesis
    by (simp add: readNextBlockDump_def)
qed

lemma stuck_never_returns:
  assumes "file_process L l base disk v bd st = Some y"
  shows "\<not> stuck_at disk (ff_source st)"
proof (rule file_process.raw_induct [OF _ assms, where P = "\<lambda>L l base disk v bd st y. \<not> stuck_at disk (ff_source st)"], rule notI)
  fix f L l base disk v bd st y
  assume IH: "\<And>L l base disk v bd st y. f L l base disk v bd st = Some y \<Longrightarrow> \<not> stuck_at disk (ff_source st)"
    and body: "(case file_loop_turn L l base disk v bd st of
        (st', Turn_throws e) \<Rightarrow> Some (st', Inl e)
      | (st', Turn_false) \<Rightarrow> Some (st', Inr None)
      | (st', Turn_block b dump) \<Rightarrow> Some (st', Inr (Some (b, dump)))
      | (st', Turn_continues dump) \<Rightarrow> f L l base disk v dump st') = Some y"
    and "stuck_at disk (ff_source st)"
  then obtain st' where st': "file_loop_turn L l base disk v bd st = (st', Turn_continues bd)" "stuck_at disk (ff_source st')"
    using stuck_turn by metis
  then have "f L l base disk v bd st' = Some y"
    using body by simp
  then show False
    using IH st'(2) by blast
qed

text \<open>C27: A file that does not end with a whole block makes \<open>process\<close> run forever. When the next file to
  read has fewer than eight bytes left at the position reached, or none although it is new (an empty
  file), or the beginning of a block that is longer than what is there, the file is closed, looked up
  again as the first unread one, opened at the same position, and so on.\<close>

theorem incomplete_block_never_returns:
  assumes "fs_fileName (ff_source st) = []"
    and "fi_filePos (getNextFile (fs_allFiles (ff_source st)) disk) = \<lparr>fp_pos = pos, fp_fileNameRelative = name\<rparr>"
    and "name \<noteq> []" and "map_of disk name = Some content"
    and "unat pos \<le> length content" and "length content < 2 ^ 63"
    and "block_size = le_val (take 8 (drop (unat pos) content))"
    and "length content < unat pos + 8 \<or> length content < unat pos + 8 + unat block_size \<and> unat pos + 8 + unat block_size < 2 ^ 64"
  shows "file_process L l base disk v bd st = None"
proof -
  have "readNextBlockDump content pos dump = Inr (pos, dump)" for dump
    using incomplete_read [OF assms(5-)] by simp
  then have "stuck_at disk (ff_source st)"
    using assms(1-4) by (simp add: stuck_at_def Let_def)
  then show ?thesis
    using stuck_never_returns [of L l base disk v bd st] by (cases "file_process L l base disk v bd st") auto
qed

theorem incomplete_block_never_returns_witness:
  "file_process sample_leveldb sample_lib 4096 [(lit ''a.blk'', [])] True [] sample_source = None"
  by (rule incomplete_block_never_returns [where pos = 0 and name = "lit ''a.blk''" and content = "[]", OF _ _ _ _ _ _ refl])
    (simp_all add: sample_source_def FileBlockSource_new_def getNextFile_def block_files_def CroppedFileName_new_def
      getBasename_def)

end
