(* ===== verification/SyncImpl.thy ===== *)
theory SyncImpl
  imports FileSource BlocksTimeline WorkerBase DatabaseScans
begin

section \<open>Synchronisation (SyncImpl)\<close>

text \<open>
  \<open>SyncImpl\<close> ties the parts together: it asks a source for the next block, appends it to the files,
  adds it to the chain and to the timeline, hands it to the workers, saves it in the database, and
  confirms it. After a restart it rebuilds the chain and the timeline from the database and hands the
  workers the blocks they have missed. When a block does not extend the chain it looks for the block
  where the servers' chain leaves ours.

  The state is that of the object, with the database, the files and what was put into the queues of
  the workers. A handler returns the state it leaves also when it raises.
\<close>

record 'd SyncImpl =
  sy_leveldb :: 'd
  sy_disk :: disk
  sy_blockchain :: BlockChain
  sy_timeline :: BlocksTimeline
  sy_queued :: "(BlockInfo \<times> bytes) list"

text \<open>The members that do not change: the modules, and whether blocks are written to files.\<close>

record sync_conf =
  sc_modules :: Modules
  sc_isSaveBlockToFiles :: bool

subsection \<open>Saving\<close>

definition append_to_file :: "bytes \<Rightarrow> bytes \<Rightarrow> disk \<Rightarrow> disk \<times> u64" where
  "append_to_file fileName binaryDump disk =
     (case saveBlockToFileBinary (get_or [] disk fileName) binaryDump of
        (content, currPos) \<Rightarrow> (AList.update fileName content disk, currPos))"

definition saveTransactions :: "BlockInfo \<Rightarrow> bytes \<Rightarrow> bool \<Rightarrow> disk \<Rightarrow> (disk \<times> BlockInfo) result" where
  "saveTransactions bi binaryDump saveBlockToFile disk =
     (if \<not> saveBlockToFile then Inr (disk, bi)
      else
        let fileName = fp_fileNameRelative (bh_filePos (bi_header bi))
        in bindE (CHECK (fileName \<noteq> []) ''File name not set'') (\<lambda>_.
           case append_to_file fileName binaryDump disk of
             (disk', currPos) \<Rightarrow>
               Inr (disk', bi\<lparr>bi_header := (bi_header bi)\<lparr>bh_filePos := (bh_filePos (bi_header bi))\<lparr>fp_pos := currPos\<rparr>\<rparr>,
                 bi_txs := map (\<lambda>tx. tx\<lparr>tx_filePos := \<lparr>fp_pos = fp_pos (tx_filePos tx) + currPos,
                   fp_fileNameRelative = fileName\<rparr>\<rparr>) (bi_txs bi)\<rparr>)))"

definition saveTransactionsSignBlock :: "SignBlockInfo \<Rightarrow> bytes \<Rightarrow> bool \<Rightarrow> disk \<Rightarrow> (disk \<times> SignBlockInfo) result" where
  "saveTransactionsSignBlock bi binaryDump saveBlockToFile disk =
     (if \<not> saveBlockToFile then Inr (disk, bi)
      else
        let fileName = fp_fileNameRelative (sh_filePos (sb_header bi))
        in bindE (CHECK (fileName \<noteq> []) ''File name not set'') (\<lambda>_.
           case append_to_file fileName binaryDump disk of
             (disk', currPos) \<Rightarrow>
               Inr (disk', bi\<lparr>sb_header := (sb_header bi)\<lparr>sh_filePos := (sh_filePos (sb_header bi))\<lparr>fp_pos := currPos\<rparr>\<rparr>\<rparr>)))"

definition newMetadata :: "BlocksMetadata \<Rightarrow> BlockHeader \<Rightarrow> BlocksMetadata" where
  "newMetadata metadata header =
     \<lparr>bm_blockHash =
        (if bm_prevBlockHash metadata = bh_prevHash header
         then if bm_blockHash metadata < bh_hash header then bm_blockHash metadata else bh_hash header
         else bh_hash header),
      bm_prevBlockHash = bh_prevHash header\<rparr>"

definition saveBlockToLeveldb :: "'d leveldb \<Rightarrow> Modules \<Rightarrow> BlockInfo \<Rightarrow> u64 \<Rightarrow> bytes \<Rightarrow> 'd \<Rightarrow> 'd \<times> unit result" where
  "saveBlockToLeveldb L modules bi timeLineKey timelineElement d =
     (let header = bi_header bi;
          made =
            bindE (if MODULE_BLOCK modules then addBlockHeader (bh_hash header) header Batch_new else Inr Batch_new) (\<lambda>batch.
            bindE (findBlockMetadata L d) (\<lambda>metadata.
            bindE (addBlockMetadata (newMetadata metadata header) batch) (\<lambda>batch.
            saveBlockTimeline timeLineKey timelineElement batch)))
      in case made of Inl e \<Rightarrow> (d, Inl e) | Inr batch \<Rightarrow> addBatch L batch d)"

definition saveSignBlockToLeveldb ::
  "'d leveldb \<Rightarrow> Modules \<Rightarrow> SignBlockInfo \<Rightarrow> u64 \<Rightarrow> bytes \<Rightarrow> 'd \<Rightarrow> 'd \<times> unit result" where
  "saveSignBlockToLeveldb L modules bi timeLineKey timelineElement d =
     (let header = sb_header bi;
          made =
            bindE (if MODULE_BLOCK modules then addSignBlockHeader (sh_hash header) header Batch_new else Inr Batch_new) (\<lambda>batch.
            saveBlockTimeline timeLineKey timelineElement batch)
      in case made of Inl e \<Rightarrow> (d, Inl e) | Inr batch \<Rightarrow> addBatch L batch d)"

subsection \<open>One block\<close>

text \<open>What the body of the inner loop of \<open>process\<close> does with a block: it was handled (and is to be
  confirmed up to a position of its file), or it does not extend the chain.\<close>

datatype handled = Handled FileInfo | Not_extending BlockInfo

definition save_handled :: "bytes \<Rightarrow> u64 result \<Rightarrow> 'd SyncImpl \<Rightarrow> 'd \<times> unit result \<Rightarrow> 'd SyncImpl \<times> handled result" where
  "save_handled fileName endPos s r =
     (s\<lparr>sy_leveldb := fst r\<rparr>,
      bindE (snd r) (\<lambda>_. bindE endPos (\<lambda>endPos.
      Inr (Handled \<lparr>fi_filePos = \<lparr>fp_pos = endPos, fp_fileNameRelative = fileName\<rparr>\<rparr>))))"

definition handle_added ::
  "'d leveldb \<Rightarrow> sync_conf \<Rightarrow> BlockInfo \<Rightarrow> bytes \<Rightarrow> u64 \<Rightarrow> 'd SyncImpl \<Rightarrow> 'd SyncImpl \<times> handled result" where
  "handle_added L conf bi dump currentBlockNum s =
     (if currentBlockNum = 0 then (s, Inl (Check ''Incorrect block number''))
      else
        let header = (bi_header bi)\<lparr>bh_blockNumber := Some currentBlockNum\<rparr>;
            bi = bi\<lparr>bi_header := header, bi_txs := map (\<lambda>tx. tx\<lparr>tx_blockNumber := currentBlockNum\<rparr>) (bi_txs bi)\<rparr>
        in case addSimpleBlock header (sy_timeline s) of
             (t, Inl e) \<Rightarrow> (s\<lparr>sy_timeline := t\<rparr>, Inl e)
           | (t, Inr (timelineKey, timelineElement)) \<Rightarrow>
               save_handled (fp_fileNameRelative (bh_filePos header)) (BlockHeader_endBlockPos header)
                 (s\<lparr>sy_timeline := t, sy_queued := sy_queued s @ [(bi, dump)]\<rparr>)
                 (saveBlockToLeveldb L (sc_modules conf) bi timelineKey timelineElement (sy_leveldb s)))"

definition handle_simple ::
  "'d leveldb \<Rightarrow> sync_conf \<Rightarrow> bool \<Rightarrow> BlockInfo \<Rightarrow> bytes \<Rightarrow> 'd SyncImpl \<Rightarrow> 'd SyncImpl \<times> handled result" where
  "handle_simple L conf isNoDefaultSource bi dump s =
     (case saveTransactions bi dump (sc_isSaveBlockToFiles conf \<and> \<not> isNoDefaultSource) (sy_disk s) of
        Inl e \<Rightarrow> (s, Inl e)
      | Inr (disk, bi) \<Rightarrow>
          (case addBlock (bi_header bi) (sy_blockchain s) of
             (bc, Inl e) \<Rightarrow> (s\<lparr>sy_disk := disk, sy_blockchain := bc\<rparr>, Inl e)
           | (bc, Inr None) \<Rightarrow> (s\<lparr>sy_disk := disk, sy_blockchain := bc\<rparr>, Inr (Not_extending bi))
           | (bc, Inr (Some currentBlockNum)) \<Rightarrow>
               handle_added L conf bi dump currentBlockNum (s\<lparr>sy_disk := disk, sy_blockchain := bc\<rparr>)))"

definition handle_sign ::
  "'d leveldb \<Rightarrow> sync_conf \<Rightarrow> bool \<Rightarrow> SignBlockInfo \<Rightarrow> bytes \<Rightarrow> 'd SyncImpl \<Rightarrow> 'd SyncImpl \<times> handled result" where
  "handle_sign L conf isNoDefaultSource bi dump s =
     (case saveTransactionsSignBlock bi dump (sc_isSaveBlockToFiles conf \<and> \<not> isNoDefaultSource) (sy_disk s) of
        Inl e \<Rightarrow> (s, Inl e)
      | Inr (disk, bi) \<Rightarrow>
          let header = sb_header bi; s = s\<lparr>sy_disk := disk\<rparr>
          in case addSignBlock header (sy_timeline s) of
               (t, Inl e) \<Rightarrow> (s\<lparr>sy_timeline := t\<rparr>, Inl e)
             | (t, Inr (timelineKey, timelineElement)) \<Rightarrow>
                 save_handled (fp_fileNameRelative (sh_filePos header)) (SignBlockHeader_endBlockPos header)
                   (s\<lparr>sy_timeline := t\<rparr>)
                   (saveSignBlockToLeveldb L (sc_modules conf) bi timelineKey timelineElement (sy_leveldb s)))"

fun handle_block ::
  "'d leveldb \<Rightarrow> sync_conf \<Rightarrow> bool \<Rightarrow> NextBlock \<times> bytes \<Rightarrow> 'd SyncImpl \<Rightarrow> 'd SyncImpl \<times> handled result" where
  "handle_block L conf isNoDefaultSource (SimpleBlock bi, dump) s = handle_simple L conf isNoDefaultSource bi dump s"
| "handle_block L conf isNoDefaultSource (SignBlock bi, dump) s = handle_sign L conf isNoDefaultSource bi dump s"
| "handle_block L conf isNoDefaultSource (RejectedBlock bi, dump) s = (s, Inl (Check ''Unknown block type''))"

subsection \<open>initialize\<close>

text \<open>\<open>std::bitset<7>\<close> as text, the highest bit first, and back.\<close>

definition Modules_bits :: "Modules \<Rightarrow> bool list" where
  "Modules_bits m = [MODULE_NODE_TEST m, MODULE_V8 m, MODULE_BLOCK_RAW m, MODULE_ADDR_TXS m, MODULE_BALANCE m, MODULE_TXS m,
     MODULE_BLOCK m]"

definition Modules_to_string :: "Modules \<Rightarrow> bytes" where
  "Modules_to_string m = map (\<lambda>b. if b then of_char (CHR ''1'') else of_char (CHR ''0'')) (Modules_bits m)"

definition Modules_of_string :: "bytes \<Rightarrow> bool list result" where
  "Modules_of_string str =
     (let digits = take 7 str
      in if list_all (\<lambda>c. c = of_char (CHR ''0'') \<or> c = of_char (CHR ''1'')) str
         then Inr (replicate (7 - length digits) False @ map (\<lambda>c. c = of_char (CHR ''1'')) digits)
         else Inl OutOfRange)"

definition SYNC_VERSION_DB :: bytes where
  "SYNC_VERSION_DB = lit ''v4.5''"

definition check_modules :: "'d leveldb \<Rightarrow> Modules \<Rightarrow> 'd \<Rightarrow> 'd \<times> unit result" where
  "check_modules L modules d =
     (case findModules L d of
        Inl e \<Rightarrow> (d, Inl e)
      | Inr modulesStr \<Rightarrow>
          if modulesStr \<noteq> []
          then (d, bindE (Modules_of_string modulesStr) (\<lambda>oldModules.
                   CHECK (Modules_bits modules = oldModules) ''Modules changed in this database''))
          else saveModules L (Modules_to_string modules) d)"

definition check_version :: "'d leveldb \<Rightarrow> 'd \<Rightarrow> 'd \<times> unit result" where
  "check_version L d =
     (case findVersionDb L d of
        Inl e \<Rightarrow> (d, Inl e)
      | Inr versionDb \<Rightarrow>
          if versionDb \<noteq> [] then (d, CHECK (versionDb = SYNC_VERSION_DB) ''Version database not matches'')
          else saveVersionDb L SYNC_VERSION_DB d)"

fun add_all_headers :: "bytes list \<Rightarrow> BlockChain \<Rightarrow> BlockChain \<times> unit result" where
  "add_all_headers [] bc = (bc, Inr ())"
| "add_all_headers (blockRaw # blocksRaw) bc =
     (case bindE (BlockHeader_deserialize blockRaw) (\<lambda>bh. addWithoutCalc bh bc) of
        Inl e \<Rightarrow> (bc, Inl e)
      | Inr (bc', _) \<Rightarrow> add_all_headers blocksRaw bc')"

text \<open>The chain from the database; \<open>.value()\<close> of an empty optional raises.\<close>

definition load_blockchain :: "'d leveldb \<Rightarrow> (bytes \<Rightarrow> bytes result) \<Rightarrow> 'd \<Rightarrow> BlocksMetadata \<Rightarrow> BlockChain \<Rightarrow> BlockChain \<times> unit result" where
  "load_blockchain L fromHex d metadata bc =
     (case clear fromHex bc of
        Inl e \<Rightarrow> (bc\<lparr>bc_hashes := [], bc_blocks := []\<rparr>, Inl e)
      | Inr bc \<Rightarrow>
          (case getAllBlocks L d of
             Inl e \<Rightarrow> (bc, Inl e)
           | Inr blocksRaw \<Rightarrow>
               (case add_all_headers blocksRaw bc of
                  (bc, Inl e) \<Rightarrow> (bc, Inl e)
                | (bc, Inr _) \<Rightarrow>
                    if bm_blockHash metadata = [] then (bc, Inr ())
                    else case calcBlockchain (bm_blockHash metadata) bc of
                           (bc, Inl e) \<Rightarrow> (bc, Inl e)
                         | (bc, Inr None) \<Rightarrow> (bc, Inl OutOfRange)
                         | (bc, Inr (Some count)) \<Rightarrow> (bc, Inr ()))))"

definition load_timeline :: "'d leveldb \<Rightarrow> 'd \<Rightarrow> BlocksTimeline \<Rightarrow> BlocksTimeline \<times> unit result" where
  "load_timeline L d t =
     (case findAllBlocksTimeline L d of
        Inl e \<Rightarrow> (t, Inl e)
      | Inr timeLinesSerialized \<Rightarrow>
          BlocksTimeline_deserialize timeLinesSerialized t)"

text \<open>The sources are told to initialize themselves from the database; \<open>initSources\<close> is whether that
  raises.\<close>

definition sync_initialize ::
  "'d leveldb \<Rightarrow> (bytes \<Rightarrow> bytes result) \<Rightarrow> sync_conf \<Rightarrow> ('d \<Rightarrow> unit result) \<Rightarrow> 'd SyncImpl \<Rightarrow> 'd SyncImpl \<times> unit result" where
  "sync_initialize L fromHex conf initSources s =
     (case check_modules L (sc_modules conf) (sy_leveldb s) of
        (d, Inl e) \<Rightarrow> (s\<lparr>sy_leveldb := d\<rparr>, Inl e)
      | (d, Inr _) \<Rightarrow>
          (case check_version L d of
             (d, Inl e) \<Rightarrow> (s\<lparr>sy_leveldb := d\<rparr>, Inl e)
           | (d, Inr _) \<Rightarrow>
               let s = s\<lparr>sy_leveldb := d\<rparr>
               in case bindE (findBlockMetadata L d) (\<lambda>metadata. bindE (initSources d) (\<lambda>_. Inr metadata)) of
                    Inl e \<Rightarrow> (s, Inl e)
                  | Inr metadata \<Rightarrow>
                      (case load_blockchain L fromHex d metadata (sy_blockchain s) of
                         (bc, Inl e) \<Rightarrow> (s\<lparr>sy_blockchain := bc\<rparr>, Inl e)
                       | (bc, Inr _) \<Rightarrow>
                           (case load_timeline L d (sy_timeline s) of
                              (t, r) \<Rightarrow> (s\<lparr>sy_blockchain := bc, sy_timeline := t\<rparr>, r)))))"

subsection \<open>makeWorkers: the blocks the workers have missed\<close>

text \<open>A worker is its \<open>getInitBlockNumber\<close>. The comparison of \<open>std::min_element\<close>, which returns the first
  of the smallest elements.\<close>

fun init_less :: "u64 option \<Rightarrow> u64 option \<Rightarrow> bool" where
  "init_less None second = False"
| "init_less (Some m) None = True"
| "init_less (Some m) (Some n) = (m < n)"

fun min_init :: "u64 option \<Rightarrow> u64 option list \<Rightarrow> u64 option" where
  "min_init smallest [] = smallest"
| "min_init smallest (w # workers) = min_init (if init_less w smallest then w else smallest) workers"

definition retry_from :: "u64 option list \<Rightarrow> u64 option" where
  "retry_from workers =
     (case workers of [] \<Rightarrow> None | w # ws \<Rightarrow> (case min_init w ws of None \<Rightarrow> None | Some n \<Rightarrow> Some (n + 1)))"

definition retry_block ::
  "'j lib \<Rightarrow> u64 \<Rightarrow> disk \<Rightarrow> bool \<Rightarrow> (BlockHeader \<Rightarrow> (BlockInfo \<times> bytes) result) \<Rightarrow> BlockChain \<Rightarrow> u64 \<Rightarrow> (BlockInfo \<times> bytes) result" where
  "retry_block l base disk isValidate getExistingBlock bc blockNumber =
     bindE (getBlock_number blockNumber bc) (\<lambda>bh.
     case getExistingBlockS l base disk bh [] isValidate of
       Inr r \<Rightarrow> Inr r
     | Inl _ \<Rightarrow> getExistingBlock bh)"

text \<open>The loop from \<open>blockNumber\<close> to \<open>countBlocks()\<close>: what is put into the queue of each worker.\<close>

definition push_block :: "u64 option list \<Rightarrow> u64 \<Rightarrow> BlockInfo \<times> bytes \<Rightarrow> (BlockInfo \<times> bytes) list list \<Rightarrow> (BlockInfo \<times> bytes) list list" where
  "push_block workers blockNumber b queues =
     map2 (\<lambda>w q. case w of None \<Rightarrow> q | Some n \<Rightarrow> if n < blockNumber then q @ [b] else q) workers queues"

function retry_loop ::
  "(u64 \<Rightarrow> (BlockInfo \<times> bytes) result) \<Rightarrow> u64 option list \<Rightarrow> u64 \<Rightarrow> nat \<Rightarrow> (BlockInfo \<times> bytes) list list \<Rightarrow>
   (BlockInfo \<times> bytes) list list \<times> unit result" where
  "retry_loop block workers count blockNumber queues =
     (if unat count < blockNumber then (queues, Inr ())
      else case block (of_nat blockNumber) of
             Inl e \<Rightarrow> (queues, Inl e)
           | Inr b \<Rightarrow>
               retry_loop block workers count (Suc blockNumber) (push_block workers (of_nat blockNumber) b queues))"
  by auto
termination
  by (relation "measure (\<lambda>(_, _, count, blockNumber, _). Suc (unat count) - blockNumber)") auto

declare retry_loop.simps [simp del]

definition retry_workers ::
  "'j lib \<Rightarrow> u64 \<Rightarrow> bool \<Rightarrow> (BlockHeader \<Rightarrow> (BlockInfo \<times> bytes) result) \<Rightarrow> u64 option list \<Rightarrow> 'd SyncImpl \<Rightarrow>
   (BlockInfo \<times> bytes) list list \<times> unit result" where
  "retry_workers l base isValidate getExistingBlock workers s =
     (let queues = map (\<lambda>_. []) workers
      in case retry_from workers of
           None \<Rightarrow> (queues, Inr ())
         | Some fromBlockNumber \<Rightarrow>
             retry_loop (retry_block l base (sy_disk s) isValidate getExistingBlock (sy_blockchain s)) workers
               (countBlocks (sy_blockchain s)) (unat fromBlockNumber) queues)"

subsection \<open>findCommonAncestor\<close>

text \<open>The source answers with the block of the server that has the height of ours; it may change its
  state. The loop may run forever.\<close>

definition is_known :: "bytes \<Rightarrow> BlockChain \<Rightarrow> bool result" where
  "is_known hash bc = bindE (getBlock_hash hash bc) (\<lambda>b. Inr (bh_blockNumber b \<noteq> None))"

datatype ancestor_turn = Same_number | Number_below | Ancestor_found

definition ancestor_test :: "BlockHeader \<Rightarrow> BlockChain \<Rightarrow> ancestor_turn result" where
  "ancestor_test header bc =
     bindE (is_known (bh_hash header) bc) (\<lambda>known.
     if known then Inr Same_number
     else bindE (is_known (bh_prevHash header) bc) (\<lambda>parentKnown.
          Inr (if parentKnown then Ancestor_found else Number_below)))"

partial_function (option) find_ancestor ::
  "('s \<Rightarrow> BlockHeader \<Rightarrow> 's \<times> (BlockInfo \<times> bytes) result) \<Rightarrow> BlockChain \<Rightarrow> u64 \<Rightarrow> 's \<Rightarrow>
   ('s \<times> (u64 \<times> BlockInfo \<times> bytes) result) option" where
  "find_ancestor getExistingBlock bc currentBlockNum st =
     (case getBlock_number currentBlockNum bc of
        Inl e \<Rightarrow> Some (st, Inl e)
      | Inr bh \<Rightarrow>
          (case getExistingBlock st bh of
             (st', Inl e) \<Rightarrow> Some (st', Inl e)
           | (st', Inr (bi, blockDump)) \<Rightarrow>
               (case ancestor_test (bi_header bi) bc of
                  Inl e \<Rightarrow> Some (st', Inl e)
                | Inr Same_number \<Rightarrow> find_ancestor getExistingBlock bc currentBlockNum st'
                | Inr Ancestor_found \<Rightarrow> Some (st', Inr (currentBlockNum, bi, blockDump))
                | Inr Number_below \<Rightarrow> find_ancestor getExistingBlock bc (currentBlockNum - 1) st')))"

text \<open>The servers are asked for their block of that number: \<open>answers\<close> are the hashes of those that
  answered. More of them must have the other block than ours.\<close>

record ConflictBlocksInfo =
  ci_ourConflictedBlock :: BlockHeader
  ci_serverConflictedBlock :: BlockHeader
  ci_blockDump :: bytes

definition count_votes :: "bytes \<Rightarrow> bytes \<Rightarrow> bytes list \<Rightarrow> nat \<times> nat" where
  "count_votes hashServer hashCurr answers =
     fold (\<lambda>hash (countHashServers, countHashOur).
        if hash = hashServer then (countHashServers + 1, countHashOur)
        else if hash = hashCurr then (countHashServers, countHashOur + 1)
        else (countHashServers, countHashOur)) answers (0, 0)"

definition findCommonAncestor ::
  "('s \<Rightarrow> BlockHeader \<Rightarrow> 's \<times> (BlockInfo \<times> bytes) result) \<Rightarrow> (u64 \<Rightarrow> bytes list) \<Rightarrow> BlockChain \<Rightarrow> 's \<Rightarrow>
   ('s \<times> ConflictBlocksInfo option result) option" where
  "findCommonAncestor getExistingBlock broadcast bc st =
     map_option (\<lambda>(st', found).
       (st', bindE found (\<lambda>(currentBlockNum, bi, blockDump).
             bindE (getBlock_number currentBlockNum bc) (\<lambda>bh.
             case count_votes (bh_hash (bi_header bi)) (bh_hash bh) (broadcast currentBlockNum) of
               (countHashServers, countHashOur) \<Rightarrow>
                 Inr (if countHashServers > countHashOur
                      then Some \<lparr>ci_ourConflictedBlock = bh, ci_serverConflictedBlock = bi_header bi, ci_blockDump = blockDump\<rparr>
                      else None)))))
       (find_ancestor getExistingBlock bc (countBlocks bc) st)"

subsection \<open>A conflict is resolved (main)\<close>

text \<open>\<open>main\<close> cuts the file of our block at its position, removes the later files and the database, appends
  the dump of the servers' block, and stops the program. The names that \<open>getAllFilesRelativeInDir\<close>
  returns are what is left of the paths behind \<open>dirPath\<close>: they begin with a slash when \<open>dirPath\<close> does not
  end in one.\<close>

definition resizeFile :: "bytes \<Rightarrow> u64 \<Rightarrow> disk \<Rightarrow> disk" where
  "resizeFile fileName newSize disk =
     (let content = get_or [] disk fileName
      in AList.update fileName (take (unat newSize) content @ replicate (unat newSize - length content) 0) disk)"

definition relative_name :: "bytes \<Rightarrow> bytes \<Rightarrow> bytes" where
  "relative_name dirPath name = (if dirPath \<noteq> [] \<and> last dirPath = 47 then name else 47 # name)"

definition getAllFilesRelativeInDir :: "bytes \<Rightarrow> disk \<Rightarrow> bytes list" where
  "getAllFilesRelativeInDir dirPath disk = map (\<lambda>(name, _). relative_name dirPath name) disk"

text \<open>\<open>removeFile\<close> of a name with a leading slash finds the file too.\<close>

definition removeFile :: "bytes \<Rightarrow> disk \<Rightarrow> disk" where
  "removeFile fileName disk = filter (\<lambda>(name, _). name \<noteq> fileName \<and> 47 # name \<noteq> fileName) disk"

definition removeFiles :: "bytes \<Rightarrow> bytes \<Rightarrow> u64 \<Rightarrow> disk \<Rightarrow> disk" where
  "removeFiles pathToFolder relativeFileName pos disk =
     (let disk = resizeFile relativeFileName pos disk;
          filesInFolder = sort (getAllFilesRelativeInDir pathToFolder disk);
          found = dropWhile (\<lambda>name. \<not> relativeFileName < name) filesInFolder
      in fold removeFile found disk)"

definition resolve_conflict :: "bytes \<Rightarrow> ConflictBlocksInfo \<Rightarrow> disk \<Rightarrow> disk" where
  "resolve_conflict pathToFolder result disk =
     (let filePos = bh_filePos (ci_ourConflictedBlock result);
          fileName = fp_fileNameRelative filePos;
          disk = removeFiles pathToFolder fileName (fp_pos filePos) disk;
          loadedFile = get_or [] disk fileName @ ci_blockDump result
      in AList.update fileName loadedFile disk)"

subsection \<open>Signed dumps of blocks (PrivateKey, getBlockDump)\<close>

text \<open>A private key is what its methods return. \<open>makeAddressFromSecpKey\<close> (secp256k1) is a parameter.\<close>

record PrivateKey =
  pk_sign :: "bytes \<Rightarrow> bytes result"
  pk_public_key :: bytes
  pk_address :: bytes

definition makeFirstPartBlockSign :: "u64 \<Rightarrow> bytes" where
  "makeFirstPartBlockSign blockSize = serializeInt blockSize"

definition makeBlockSign :: "PrivateKey \<Rightarrow> bytes \<Rightarrow> bytes result" where
  "makeBlockSign privateKey blockDump =
     bindE (pk_sign privateKey blockDump) (\<lambda>sign.
     Inr (serializeString sign @ serializeString (pk_public_key privateKey) @ serializeString (pk_address privateKey)))"

record BlockSignatureCheckResult =
  bs_block :: bytes
  bs_sign :: bytes
  bs_pubkey :: bytes
  bs_address :: bytes

definition checkSignatureBlock :: "crypto \<Rightarrow> (bytes \<Rightarrow> bytes result) \<Rightarrow> bytes \<Rightarrow> BlockSignatureCheckResult result" where
  "checkSignatureBlock cr makeAddressFromSecpKey blockDump =
     bindE (bindP deserializeString (\<lambda>block.
            bindP deserializeString (\<lambda>sign.
            bindP deserializeString (\<lambda>pubkey.
            bindP deserializeString (\<lambda>address.
            returnP \<lparr>bs_block = block, bs_sign = sign, bs_pubkey = pubkey, bs_address = address\<rparr>)))) blockDump 0) (\<lambda>(result, _).
     bindE (CHECK (crypto_check_sign_data cr (bs_sign result) (bs_pubkey result) (bs_block result)) ''Not validate'') (\<lambda>_.
     case bindE (makeAddressFromSecpKey (bs_pubkey result)) (\<lambda>calculated.
            CHECK (calculated = bs_address result) ''Not validate'') of
       Inr _ \<Rightarrow> Inr result
     | Inl _ \<Rightarrow>
         bindE (get_address cr (bs_pubkey result)) (\<lambda>calculated.
         bindE (CHECK (calculated = bs_address result) ''Not validate'') (\<lambda>_.
         Inr result))))"

text \<open>\<open>getBlockDump\<close>: the part of a block that was asked for, from the cache or from the file. \<open>substr\<close>
  raises when the part begins behind the end.\<close>

definition dump_from_file :: "disk \<Rightarrow> FilePosition \<Rightarrow> u64 \<Rightarrow> u64 \<Rightarrow> bool \<Rightarrow> (bytes \<times> u64 \<times> bytes) result" where
  "dump_from_file disk filePos fromByte toByte isSign =
     bindE (CHECK (fp_fileNameRelative filePos \<noteq> []) ''Empty file name in block header'') (\<lambda>_.
     bindE (openFile disk (fp_fileNameRelative filePos)) (\<lambda>file.
     bindE (getBlockDump file (fp_pos filePos) fromByte toByte) (\<lambda>(size_block, res).
     if isSign \<and> toByte \<ge> size_block
     then if fromByte = 0 then Inr (res, size_block, res)
          else bindE (getBlockDump file (fp_pos filePos) 0 toByte) (\<lambda>(_, full). Inr (res, size_block, full))
     else Inr (res, size_block, []))))"

definition dump_from_cache :: "bytes \<Rightarrow> u64 \<Rightarrow> u64 \<Rightarrow> bool \<Rightarrow> (bytes \<times> u64 \<times> bytes) result" where
  "dump_from_cache element fromByte toByte isSign =
     bindE (substr element fromByte (toByte - fromByte)) (\<lambda>res.
     Inr (res, size_of element, if isSign \<and> toByte \<ge> size_of element then element else []))"

definition sign_part :: "PrivateKey option \<Rightarrow> u64 \<Rightarrow> u64 \<Rightarrow> bytes \<times> u64 \<times> bytes \<Rightarrow> bytes result" where
  "sign_part privateKey fromByte toByte r =
     (case r of (res, realSizeBlock, fullBlockDump) \<Rightarrow>
        (case privateKey of
           None \<Rightarrow> Inl (Check ''Private key not set'')
         | Some key \<Rightarrow>
             let res = (if fromByte = 0 then makeFirstPartBlockSign realSizeBlock @ res else res)
             in if toByte \<ge> realSizeBlock then bindE (makeBlockSign key fullBlockDump) (\<lambda>sign. Inr (res @ sign)) else Inr res))"

definition sync_getBlockDump ::
  "Modules \<Rightarrow> (bytes \<Rightarrow> bytes) \<Rightarrow> PrivateKey option \<Rightarrow> bytes Cache \<Rightarrow> disk \<Rightarrow> bytes \<Rightarrow> FilePosition \<Rightarrow> u64 \<Rightarrow> u64 \<Rightarrow> bool \<Rightarrow> bool \<Rightarrow>
   bytes result" where
  "sync_getBlockDump modules toHex privateKey blockDumpCache disk hash filePos fromByte toByte isHex isSign =
     bindE (CHECK (MODULE_BLOCK modules \<and> MODULE_BLOCK_RAW modules) ''modules not set'') (\<lambda>_.
     bindE (case getValue hash blockDumpCache of
              None \<Rightarrow> dump_from_file disk filePos fromByte toByte isSign
            | Some element \<Rightarrow> dump_from_cache element fromByte toByte isSign) (\<lambda>(res, realSizeBlock, fullBlockDump).
     bindE (if isSign then sign_part privateKey fromByte toByte (res, realSizeBlock, fullBlockDump) else Inr res) (\<lambda>res.
     Inr (if isHex then toHex res else res))))"

definition readSignBlockInfo :: "'j lib \<Rightarrow> u64 \<Rightarrow> disk \<Rightarrow> MinimumSignBlockHeader \<Rightarrow> SignBlockInfo result" where
  "readSignBlockInfo l base disk bh =
     (let filePos = ms_filePos bh
      in bindE (CHECK (fp_fileNameRelative filePos \<noteq> []) ''Empty file name in block header'') (\<lambda>_.
         bindE (openFile disk (fp_fileNameRelative filePos)) (\<lambda>file.
         bindE (readNextBlockDump file (fp_pos filePos) []) (\<lambda>(nextPos, tmp).
         bindE (parseNextBlockInfo l (fp_pos filePos) False False 0 max_u64 \<lparr>mem_base = base, mem_data = tmp\<rparr>) (\<lambda>b.
         bindE (CHECK (nextPos \<noteq> fp_pos filePos) ''Ups'') (\<lambda>_.
         case b of SignBlock s \<Rightarrow> Inr s | _ \<Rightarrow> Inl (Check ''Incorrect block type'')))))))"

definition findSignBlock :: "'j lib \<Rightarrow> u64 \<Rightarrow> 'd SyncImpl \<Rightarrow> BlockHeader \<Rightarrow> SignTransactionInfo list result" where
  "findSignBlock l base s bh =
     bindE (findSignForBlock (bh_hash bh) (sy_timeline s)) (\<lambda>signBlockHeader.
     case signBlockHeader of
       None \<Rightarrow> Inr []
     | Some h \<Rightarrow> bindE (readSignBlockInfo l base (sy_disk s) h) (\<lambda>signBlockInfo. Inr (sb_txs signBlockInfo)))"

end
