(* ===== verification/SyncProps.thy ===== *)
theory SyncProps
  imports SyncImpl
begin

section \<open>Properties of the synchronisation\<close>

text \<open>
  The search for the common ancestor: it finds the fork, and it runs forever when the server agrees
  with us. The blocks the workers are handed again after a start. The signed dump that is sent to other
  nodes. What the resolution of a conflict leaves in the files.
\<close>

subsection \<open>The common ancestor\<close>

lemma is_known_eq: "hash \<noteq> [] \<Longrightarrow> is_known hash bc = Inr (bh_blockNumber (getBlockImpl_hash hash bc) \<noteq> None)"
  by (simp add: is_known_def getBlock_hash_def)

text \<open>In every state of the source that satisfies \<open>P\<close> its answer is a block of our chain.\<close>

definition keeps_agreeing ::
  "('s \<Rightarrow> BlockHeader \<Rightarrow> 's \<times> (BlockInfo \<times> bytes) result) \<Rightarrow> BlockChain \<Rightarrow> BlockHeader \<Rightarrow> ('s \<Rightarrow> bool) \<Rightarrow> bool" where
  "keeps_agreeing getExisting bc bh P \<longleftrightarrow>
     (\<forall>st. P st \<longrightarrow> (\<exists>st' bi dump. getExisting st bh = (st', Inr (bi, dump)) \<and> P st' \<and>
        bh_hash (bi_header bi) \<noteq> [] \<and> bh_blockNumber (getBlockImpl_hash (bh_hash (bi_header bi)) bc) \<noteq> None))"

lemma agreeing_never_returns:
  assumes "find_ancestor getExisting bc n st = Some y"
  shows "\<not> (getBlock_number n bc = Inr bh \<and> P st \<and> keeps_agreeing getExisting bc bh P)"
proof (rule find_ancestor.raw_induct [OF _ assms, where
    P = "\<lambda>getExisting bc n st y. \<not> (getBlock_number n bc = Inr bh \<and> P st \<and> keeps_agreeing getExisting bc bh P)"], rule notI)
  fix f getExisting bc n st y
  assume IH: "\<And>getExisting bc n st y. f getExisting bc n st = Some y \<Longrightarrow>
        \<not> (getBlock_number n bc = Inr bh \<and> P st \<and> keeps_agreeing getExisting bc bh P)"
    and body: "(case getBlock_number n bc of
        Inl e \<Rightarrow> Some (st, Inl e)
      | Inr bh \<Rightarrow>
          (case getExisting st bh of
             (st', Inl e) \<Rightarrow> Some (st', Inl e)
           | (st', Inr (bi, blockDump)) \<Rightarrow>
               (case ancestor_test (bi_header bi) bc of
                  Inl e \<Rightarrow> Some (st', Inl e)
                | Inr Same_number \<Rightarrow> f getExisting bc n st'
                | Inr Number_below \<Rightarrow> f getExisting bc (n - 1) st'
                | Inr Ancestor_found \<Rightarrow> Some (st', Inr (n, bi :: BlockInfo, blockDump :: bytes))))) = Some y"
    and stays: "getBlock_number n bc = Inr bh \<and> P st \<and> keeps_agreeing getExisting bc bh P"
  then obtain st' bi dump where g: "getExisting st bh = (st', Inr (bi, dump))" "P st'"
      "bh_hash (bi_header bi) \<noteq> []" "bh_blockNumber (getBlockImpl_hash (bh_hash (bi_header bi)) bc) \<noteq> None"
    unfolding keeps_agreeing_def by blast
  then have "ancestor_test (bi_header bi) bc = Inr Same_number"
    by (simp add: ancestor_test_def is_known_eq)
  then have "f getExisting bc n st' = Some y"
    using body stays g(1) by simp
  then show False
    using IH [of getExisting bc n st' y] stays g(2) by blast
qed

text \<open>C33: A defect of the search for the common ancestor: when the server's block of our height is a block
  of our chain, the search goes on at the same height, and as long as the server answers the same way it
  never ends. This is what happens when the block that did not extend the chain came from elsewhere,
  or the server has changed its mind.\<close>

theorem agreeing_server_never_ends:
  assumes "getBlock_number n bc = Inr bh" and "keeps_agreeing getExisting bc bh P" and "P st"
  shows "find_ancestor getExisting bc n st = None"
proof (cases "find_ancestor getExisting bc n st")
  case (Some y)
  then show ?thesis
    using agreeing_never_returns [OF Some, of bh P] assms by blast
qed

definition sample_agreeing :: "unit \<Rightarrow> BlockHeader \<Rightarrow> unit \<times> (BlockInfo \<times> bytes) result" where
  "sample_agreeing st bh = ((), Inr (\<lparr>bi_header = bh, bi_txs = []\<rparr>, []))"

theorem agreeing_server_never_ends_witness:
  "find_ancestor sample_agreeing sample_loaded (countBlocks sample_loaded) () = None"
proof (rule agreeing_server_never_ends)
  let ?b = "case getBlock_number (countBlocks sample_loaded) sample_loaded of Inr b \<Rightarrow> b"
  show "getBlock_number (countBlocks sample_loaded) sample_loaded = Inr ?b"
    by code_simp
  have "bh_hash ?b \<noteq> [] \<and> bh_blockNumber (getBlockImpl_hash (bh_hash ?b) sample_loaded) \<noteq> None"
    by code_simp
  then show "keeps_agreeing sample_agreeing sample_loaded ?b (\<lambda>_. True)"
    by (simp add: keeps_agreeing_def sample_agreeing_def)
qed simp

text \<open>The other case. The server's chain \<open>server\<close> (by height) shares the block \<open>a\<close> with ours and leaves
  it there: its blocks above are linked and not among ours.\<close>

definition forks_at :: "(u64 \<Rightarrow> BlockInfo) \<Rightarrow> BlockChain \<Rightarrow> nat \<Rightarrow> nat \<Rightarrow> bool" where
  "forks_at server bc a n \<longleftrightarrow> a < n \<and>
     (\<forall>i \<in> {a<..n}. bh_hash (bi_header (server (of_nat i))) \<noteq> [] \<and> bh_prevHash (bi_header (server (of_nat i))) \<noteq> [] \<and>
        bh_blockNumber (getBlockImpl_hash (bh_hash (bi_header (server (of_nat i)))) bc) = None \<and>
        (if i = Suc a then bh_blockNumber (getBlockImpl_hash (bh_prevHash (bi_header (server (of_nat i)))) bc) \<noteq> None
         else bh_prevHash (bi_header (server (of_nat i))) = bh_hash (bi_header (server (of_nat (i - 1))))))"

lemma ancestor_of_fork:
  assumes "chain_inv bc" and "forks_at server bc a n" and "n < length (bc_hashes bc)"
    and "\<And>st bh. getExisting st bh = (st, Inr (server (the (bh_blockNumber bh)), dump (the (bh_blockNumber bh))))"
  shows "find_ancestor getExisting bc (of_nat n) st =
     Some (st, Inr (of_nat (Suc a), server (of_nat (Suc a)), dump (of_nat (Suc a))))"
  using assms(2,3)
proof (induction n)
  case (Suc n)
  let ?s = "bi_header (server (of_nat (Suc n)))"
  obtain bh where "map_of (bc_blocks bc) (bc_hashes bc ! Suc n) = Some bh" "bh_blockNumber bh = Some (of_nat (Suc n))"
    using chain_invD [OF assms(1) Suc.prems(2)] by blast
  moreover have small: "Suc n < 2 ^ 64"
    using Suc.prems(2) assms(1) by (simp add: chain_inv_def)
  ultimately have bh: "getBlock_number (of_nat (Suc n)) bc = Inr bh" "bh_blockNumber bh = Some (of_nat (Suc n))"
    using Suc.prems(2) unat_length_hashes [OF assms(1)] unat_of_nat_u64 [OF small]
    by (simp_all add: getBlock_number_def getBlockImpl_number_def deref_def word_le_nat_alt del: of_nat_Suc)
  have in_fork: "Suc n \<in> {a<..Suc n}"
    using Suc.prems(1) by (simp add: forks_at_def)
  have s: "bh_hash ?s \<noteq> []" "bh_prevHash ?s \<noteq> []" "bh_blockNumber (getBlockImpl_hash (bh_hash ?s) bc) = None"
    using Suc.prems(1) in_fork unfolding forks_at_def by blast+
  have below: "of_nat (Suc n) - 1 = (of_nat n :: u64)"
    by simp
  note unf = find_ancestor.simps [of getExisting bc "of_nat (Suc n)" st] bh assms(4) below
  show ?case
  proof (cases "n = a")
    case True
    then have "bh_blockNumber (getBlockImpl_hash (bh_prevHash ?s) bc) \<noteq> None"
      using Suc.prems(1) in_fork unfolding forks_at_def by fastforce
    then have "ancestor_test ?s bc = Inr Ancestor_found"
      using s by (simp add: ancestor_test_def is_known_eq)
    then have "find_ancestor getExisting bc (of_nat (Suc n)) st =
        Some (st, Inr (of_nat (Suc n), server (of_nat (Suc n)), dump (of_nat (Suc n))))"
      unfolding unf(1) by (simp add: unf(2-) del: of_nat_Suc)
    then show ?thesis
      using True by simp
  next
    case False
    then have an: "a < n" and n_in: "n \<in> {a<..Suc n}"
      using Suc.prems(1) by (auto simp: forks_at_def)
    have "bh_prevHash ?s = bh_hash (bi_header (server (of_nat n)))"
      using Suc.prems(1) in_fork False unfolding forks_at_def by fastforce
    moreover have "bh_blockNumber (getBlockImpl_hash (bh_hash (bi_header (server (of_nat n)))) bc) = None"
      using Suc.prems(1) n_in unfolding forks_at_def by blast
    ultimately have "ancestor_test ?s bc = Inr Number_below"
      using s by (simp add: ancestor_test_def is_known_eq)
    moreover have "{a<..n} \<subseteq> {a<..Suc n}"
      by auto
    then have "forks_at server bc a n"
      using Suc.prems(1) an unfolding forks_at_def by blast
    then have "find_ancestor getExisting bc (of_nat n) st =
        Some (st, Inr (of_nat (Suc a), server (of_nat (Suc a)), dump (of_nat (Suc a))))"
      using Suc.prems(2) by (intro Suc.IH) simp_all
    ultimately show ?thesis
      unfolding unf(1) by (simp add: unf(2-) del: of_nat_Suc)
  qed
qed (simp add: forks_at_def)


definition sample_fork :: "u64 \<Rightarrow> BlockInfo" where
  "sample_fork n = \<lparr>bi_header = sample_block (20 + ucast n) (if n = 2 then 1 else 19 + ucast n) BLOCK_TYPE, bi_txs = []\<rparr>"


subsection \<open>The blocks the workers have missed\<close>

lemma min_element_least:
  "case min_init w ws of None \<Rightarrow> \<forall>x \<in> set (w # ws). x = None | Some n \<Rightarrow> \<forall>k. Some k \<in> set (w # ws) \<longrightarrow> n \<le> k"
proof (induction w ws rule: min_init.induct)
  case (1 smallest)
  then show ?case
    by (cases smallest) auto
next
  case (2 smallest w ws)
  then show ?case
    by (cases w; cases smallest) (auto split: option.splits if_splits intro: order_trans)
qed

lemma min_element_in: "min_init w ws \<in> set (w # ws)"
  by (induction w ws rule: min_init.induct) (auto split: if_splits)

definition missed :: "(nat \<Rightarrow> 'b) \<Rightarrow> nat \<Rightarrow> nat \<Rightarrow> u64 option \<Rightarrow> 'b list" where
  "missed blk first count w = (case w of None \<Rightarrow> [] | Some k \<Rightarrow> map blk (filter (\<lambda>n. unat k < n) [first..<Suc count]))"

lemma push_missed:
  assumes "m \<le> count" and "count < 2 ^ 64" and "length queues = length workers"
  shows "map2 (\<lambda>w q. q @ missed blk (Suc m) count w) workers (push_block workers (of_nat m) (blk m) queues) =
     map2 (\<lambda>w q. q @ missed blk m count w) workers queues"
proof (rule nth_equalityI)
  fix i
  assume "i < length (map2 (\<lambda>w q. q @ missed blk (Suc m) count w) workers (push_block workers (of_nat m) (blk m) queues))"
  then have i: "i < length workers" "i < length queues"
    using assms(3) by (simp_all add: push_block_def)
  have less: "k < of_nat m \<longleftrightarrow> unat k < m" for k :: u64
    using unat_of_nat_u64 [of m] assms(1,2) by (simp add: word_less_nat_alt)
  have "[m..<Suc count] = m # [Suc m..<Suc count]"
    using assms(1) by (simp add: upt_conv_Cons)
  then show "map2 (\<lambda>w q. q @ missed blk (Suc m) count w) workers (push_block workers (of_nat m) (blk m) queues) ! i =
      map2 (\<lambda>w q. q @ missed blk m count w) workers queues ! i"
    using i assms(3) by (simp add: push_block_def missed_def less split: option.splits)
qed (simp add: push_block_def assms(3))

lemma retry_loop_delivers:
  assumes "\<And>n. m \<le> n \<Longrightarrow> n \<le> unat count \<Longrightarrow> block (of_nat n) = Inr (blk n)" and "length queues = length workers"
  shows "retry_loop block workers count m queues = (map2 (\<lambda>w q. q @ missed blk m (unat count) w) workers queues, Inr ())"
  using assms
proof (induction "Suc (unat count) - m" arbitrary: m queues)
  case 0
  then have over: "unat count < m" by simp
  have "map2 (\<lambda>w q. q @ missed blk m (unat count) w) workers queues = queues"
    using "0.prems"(2) over by (intro nth_equalityI) (auto simp: missed_def split: option.splits)
  then show ?case
    using over by (simp add: retry_loop.simps [of block])
next
  case (Suc d)
  have m: "m \<le> unat count"
    using Suc.hyps(2) by simp
  have len: "length (push_block workers (of_nat m) (blk m) queues) = length workers"
    using Suc.prems(2) by (simp add: push_block_def)
  have "retry_loop block workers count m queues =
      retry_loop block workers count (Suc m) (push_block workers (of_nat m) (blk m) queues)"
    using m Suc.prems(1) [of m] by (simp add: retry_loop.simps [of block _ _ m])
  also have "\<dots> = (map2 (\<lambda>w q. q @ missed blk (Suc m) (unat count) w) workers (push_block workers (of_nat m) (blk m) queues), Inr ())"
    using Suc.hyps(2) Suc.prems(1) len by (intro Suc.hyps(1)) simp_all
  finally show ?case
    using push_missed [OF m unat_u64_less Suc.prems(2), of blk] by simp
qed

text \<open>C23: After a start every worker is handed exactly the blocks it has missed: when the blocks of the
  chain can be read (from the files or, failing that, from the source), the worker that has got to the
  block \<open>k\<close> is handed the blocks \<open>k + 1\<close> up to the last one, each once and in order, whatever the other
  workers have missed; a worker without a number is handed none.\<close>

theorem retry_hands_over_missed_blocks:
  assumes "\<And>n. n \<le> unat (countBlocks (sy_blockchain s)) \<Longrightarrow>
      retry_block l base (sy_disk s) v getExisting (sy_blockchain s) (of_nat n) = Inr (blk n)"
    and "\<And>k. Some k \<in> set workers \<Longrightarrow> k < max_u64"
  shows "retry_workers l base v getExisting workers s =
     (map (\<lambda>w. case w of None \<Rightarrow> []
                | Some k \<Rightarrow> map blk [Suc (unat k)..<Suc (unat (countBlocks (sy_blockchain s)))]) workers, Inr ())"
proof -
  let ?count = "unat (countBlocks (sy_blockchain s))"
  have all: "missed blk m ?count w = (case w of None \<Rightarrow> [] | Some k \<Rightarrow> map blk [Suc (unat k)..<Suc ?count])"
    if "\<And>k. w = Some k \<Longrightarrow> m \<le> Suc (unat k)" for m w
  proof (cases w)
    case (Some k)
    have "filter (\<lambda>n. unat k < n) [m..<Suc ?count] = [Suc (unat k)..<Suc ?count]"
    proof (rule sorted_distinct_set_unique)
      show "set (filter (\<lambda>n. unat k < n) [m..<Suc ?count]) = set [Suc (unat k)..<Suc ?count]"
        using that [OF Some] by auto
    qed (simp_all del: upt_Suc add: sorted_wrt_filter)
    then show ?thesis
      by (simp add: missed_def Some)
  qed (simp add: missed_def)
  show ?thesis
  proof (cases "retry_from workers")
    case None
    have none: "w = None" if "w \<in> set workers" for w
    proof (cases workers)
      case (Cons w0 ws)
      then show ?thesis
        using None that min_element_least [of w0 ws] by (auto simp: retry_from_def split: option.splits)
    qed (use that in simp)
    have "map (\<lambda>_. []) workers = map (\<lambda>w. case w of None \<Rightarrow> []
                | Some k \<Rightarrow> map blk [Suc (unat k)..<Suc ?count]) workers"
      by (intro map_cong) (auto dest!: none)
    then show ?thesis
      using None by (simp add: retry_workers_def)
  next
    case (Some f)
    then obtain w0 ws n where ws: "workers = w0 # ws" "min_init w0 ws = Some n" "f = n + 1"
      by (auto simp: retry_from_def split: list.splits option.splits)
    have le: "n \<le> k" if "Some k \<in> set workers" for k
      using min_element_least [of w0 ws, unfolded ws(2) option.case] that [unfolded ws(1)] by blast
    have "n < max_u64"
      using min_element_in [of w0 ws] ws assms(2) [of n] by simp
    then have f: "unat f = Suc (unat n)"
      using unat_add_u64 [of n 1] by (simp add: ws(3) word_less_nat_alt unsigned_minus_1_eq_mask mask_eq_exp_minus_1)
    have first: "unat f \<le> Suc (unat k)" if "w \<in> set workers" "w = Some k" for w k
      using le [of k] that f by (simp add: word_le_nat_alt)
    have "retry_workers l base v getExisting workers s =
        (map2 (\<lambda>w q. q @ missed blk (unat f) ?count w) workers (map (\<lambda>_. []) workers), Inr ())"
      using Some retry_loop_delivers [of "unat f" "countBlocks (sy_blockchain s)"
          "retry_block l base (sy_disk s) v getExisting (sy_blockchain s)" blk "map (\<lambda>_. []) workers" workers] assms(1)
      by (simp add: retry_workers_def Let_def)
    also have "map2 (\<lambda>w q. q @ missed blk (unat f) ?count w) workers (map (\<lambda>_. []) workers) =
        map (missed blk (unat f) ?count) workers"
      by (induction workers) auto
    also have "\<dots> = map (\<lambda>w. case w of None \<Rightarrow> []
                | Some k \<Rightarrow> map blk [Suc (unat k)..<Suc ?count]) workers"
      using first by (intro map_cong refl all) blast+
    finally show ?thesis .
  qed
qed

theorem retry_hands_over_missed_blocks_witness:
  "retry_workers sample_lib 4096 True (\<lambda>bh. Inr (\<lparr>bi_header = bh, bi_txs = []\<rparr>, [1])) [None, Some 0, Some 1, Some 2]
     \<lparr>sy_leveldb = (), sy_disk = [], sy_blockchain = sample_loaded, sy_timeline = BlocksTimeline_empty, sy_queued = []\<rparr> =
   ([[], map (\<lambda>n. (\<lparr>bi_header = (case getBlock_number (of_nat n) sample_loaded of Inr b \<Rightarrow> b), bi_txs = []\<rparr>, [1])) [1, 2],
     map (\<lambda>n. (\<lparr>bi_header = (case getBlock_number (of_nat n) sample_loaded of Inr b \<Rightarrow> b), bi_txs = []\<rparr>, [1])) [2], []], Inr ())"
proof -
  let ?s = "\<lparr>sy_leveldb = (), sy_disk = [], sy_blockchain = sample_loaded, sy_timeline = BlocksTimeline_empty, sy_queued = []\<rparr> :: unit SyncImpl"
  let ?blk = "\<lambda>n. (\<lparr>bi_header = (case getBlock_number (of_nat n) sample_loaded of Inr b \<Rightarrow> b), bi_txs = []\<rparr>, [1 :: byte])"
  let ?ex = "\<lambda>bh. Inr (\<lparr>bi_header = bh, bi_txs = []\<rparr>, [1]) :: (BlockInfo \<times> bytes) result"
  have count: "unat (countBlocks sample_loaded) = 2"
    by (simp add: countBlocks_def sample_loaded_def)
  have blk: "retry_block sample_lib 4096 [] True ?ex sample_loaded (of_nat n) = Inr (?blk n)" if "n \<le> 2" for n
  proof -
    have "n \<in> {0, 1, 2}"
      using that by auto
    then show ?thesis
      by (auto simp: retry_block_def getBlock_number_def getBlockImpl_number_def deref_def sample_loaded_def
          getExistingBlockS_def Let_def sample_block_def BlockHeader_default_def openFile_def word_le_nat_alt)
  qed
  have "retry_block sample_lib 4096 (sy_disk ?s) True ?ex (sy_blockchain ?s) (of_nat n) = Inr (?blk n)"
    if "n \<le> unat (countBlocks (sy_blockchain ?s))" for n
    using that blk by (simp add: count)
  moreover have "k < max_u64" if "Some k \<in> set [None, Some 0, Some 1, Some 2]" for k :: u64
    using that by (auto simp: word_less_nat_alt unsigned_minus_1_eq_mask mask_eq_exp_minus_1)
  ultimately have "retry_workers sample_lib 4096 True ?ex [None, Some 0, Some 1, Some 2] ?s =
     (map (\<lambda>w :: u64 option. case w of None \<Rightarrow> [] | Some k \<Rightarrow> map ?blk [Suc (unat k)..<Suc (unat (countBlocks (sy_blockchain ?s)))])
        [None, Some 0, Some 1, Some 2], Inr ())"
    by (rule retry_hands_over_missed_blocks)
  then show ?thesis
    using count by (simp add: upt_rec del: upt_Suc)
qed

subsection \<open>Signed dumps\<close>

lemma getBlockDump_saved:
  assumes "saveBlockToFileBinary file data = (file', pos)" and "length (file' @ later) < 2 ^ 63"
    and "unat lo < length data" and "lo \<le> hi"
  shows "getBlockDump (file' @ later) pos lo hi =
     Inr (size_of data, take (unat (min hi (size_of data) - lo)) (drop (unat lo) data))"
proof -
  let ?f = "file @ le_bytes 8 (size_of data) @ data @ later"
  have f: "file' @ later = ?f" and pos: "pos = size_of file"
    using assms(1) by (auto simp: saveBlockToFileBinary_def)
  have len: "length file + 8 + length data + length later < 2 ^ 63"
    using assms(2) by (simp add: f)
  have u: "unat (size_of data) = length data" "unat (size_of file) = length file"
      "unat (size_of ?f) = length file + 8 + length data + length later"
    using len by (simp_all add: unat_size_of)
  have t64: "take_bit 64 v = (v :: u64)" for v
    by (rule take_bit_word_eq_self) simp
  have head: "fread ?f (size_of file) 8 = le_bytes 8 (size_of data)"
    by (simp add: fread_def u)
  have sum: "unat (size_of file + 8) = length file + 8"
      "unat (size_of data + 8 + size_of file) = length data + 8 + length file"
      "unat (size_of file + 8 + lo) = length file + 8 + unat lo"
    using len assms(3) unat_add_u64 [of "size_of file" 8] unat_add_u64 [of "size_of file" "8 + length data"]
      unat_add_u64 [of "size_of file + 8" "unat lo"] u
    by (simp_all add: size_of_def algebra_simps)
  define upto where "upto = (if size_of data < hi then size_of data else hi)"
  have min: "min hi (size_of data) = upto"
    by (auto simp: upto_def min_def)
  have le: "\<not> size_of ?f < size_of file + 8" "\<not> size_of ?f < size_of data + 8 + size_of file" "\<not> size_of data \<le> lo"
    using len assms(3) by (simp_all add: word_less_nat_alt word_le_nat_alt sum u)
  have "lo \<le> upto"
    using assms(3,4) u(1) by (simp add: upto_def word_le_nat_alt word_less_nat_alt)
  then have n: "unat lo + unat (upto - lo) \<le> length data"
    using u(1) by (simp add: unat_sub word_le_nat_alt upto_def word_less_nat_alt)
  then have body: "fread ?f (size_of file + 8 + lo) (upto - lo) = take (unat (upto - lo)) (drop (unat lo) data)"
    by (simp add: fread_def sum drop_append)
  have small: "unat (upto - lo) < 2 ^ 63"
    using n len by linarith
  show ?thesis
  proof (cases "size_of data < hi")
    case True
    then have "upto = size_of data" by (simp add: upto_def)
    then show ?thesis
      unfolding f pos min getBlockDump_def Let_def BLOCK_SIZE_SIZE_def head le_val_le_bytes
      using len le n small body assms(3) True by (simp add: seek_def buffer_size_def u sum t64)
  next
    case False
    then have "upto = hi" by (simp add: upto_def)
    then show ?thesis
      unfolding f pos min getBlockDump_def Let_def BLOCK_SIZE_SIZE_def head le_val_le_bytes
      using len le n small body assms(3) False by (simp add: seek_def buffer_size_def u sum t64)
  qed
qed

definition key_accepted :: "crypto \<Rightarrow> (bytes \<Rightarrow> bytes result) \<Rightarrow> PrivateKey \<Rightarrow> bytes \<Rightarrow> bytes \<Rightarrow> bool" where
  "key_accepted cr makeAddress key data sign \<longleftrightarrow> pk_sign key data = Inr sign \<and>
     crypto_check_sign_data cr sign (pk_public_key key) data \<and> makeAddress (pk_public_key key) = Inr (pk_address key)"

lemma check_signed:
  assumes "key_accepted cr makeAddress key data sign"
    and "length (serializeString data @ serializeString sign @ serializeString (pk_public_key key) @
      serializeString (pk_address key)) < 2 ^ 64"
  shows "checkSignatureBlock cr makeAddress (serializeString data @ serializeString sign @ serializeString (pk_public_key key) @
      serializeString (pk_address key)) =
    Inr \<lparr>bs_block = data, bs_sign = sign, bs_pubkey = pk_public_key key, bs_address = pk_address key\<rparr>"
proof -
  have "decodes (bindP deserializeString (\<lambda>block.
            bindP deserializeString (\<lambda>sign.
            bindP deserializeString (\<lambda>pubkey.
            bindP deserializeString (\<lambda>address.
            returnP \<lparr>bs_block = block, bs_sign = sign, bs_pubkey = pubkey, bs_address = address\<rparr>)))))
      (serializeString data @ serializeString sign @ serializeString (pk_public_key key) @ serializeString (pk_address key))
      \<lparr>bs_block = data, bs_sign = sign, bs_pubkey = pk_public_key key, bs_address = pk_address key\<rparr>"
    by (rule decodes_string decodes_map decodes_bind)+
  from decodes_whole [OF this assms(2)] show ?thesis
    using assms(1) by (simp add: checkSignatureBlock_def key_accepted_def)
qed

text \<open>Whether the block comes from the cache or from the file.\<close>

definition block_available :: "bytes Cache \<Rightarrow> disk \<Rightarrow> bytes \<Rightarrow> FilePosition \<Rightarrow> bytes \<Rightarrow> bool" where
  "block_available cache disk hash filePos data \<longleftrightarrow>
     (case getValue hash cache of
        Some element \<Rightarrow> element = data
      | None \<Rightarrow> fp_fileNameRelative filePos \<noteq> [] \<and>
          (\<exists>file file' later. map_of disk (fp_fileNameRelative filePos) = Some (file' @ later) \<and>
             saveBlockToFileBinary file data = (file', fp_pos filePos) \<and> length (file' @ later) < 2 ^ 63))"

lemma available_part:
  assumes "block_available cache disk hash filePos data" and "unat lo < length data" and "lo \<le> hi" and "length data < 2 ^ 63"
  shows "(case getValue hash cache of
       None \<Rightarrow> dump_from_file disk filePos lo hi isSign
     | Some element \<Rightarrow> dump_from_cache element lo hi isSign) =
     Inr (take (unat (hi - lo)) (drop (unat lo) data), size_of data, if isSign \<and> hi \<ge> size_of data then data else [])"
proof -
  have len: "unat (size_of data) = length data"
    using assms(4) by (simp add: unat_size_of)
  have part: "take (unat (min hi (size_of data) - lo)) (drop (unat lo) data) = take (unat (hi - lo)) (drop (unat lo) data)"
    using assms(2,3) len by (auto simp: min_def unat_sub word_le_nat_alt)
  show ?thesis
  proof (cases "getValue hash cache")
    case (Some element)
    then show ?thesis
      using assms len by (auto simp: block_available_def dump_from_cache_def substr_def word_less_nat_alt)
  next
    case None
    then obtain old new later where m: "fp_fileNameRelative filePos \<noteq> []"
        "map_of disk (fp_fileNameRelative filePos) = Some (new @ later)"
        "saveBlockToFileBinary old data = (new, fp_pos filePos)" "length (new @ later) < 2 ^ 63"
      using assms(1) by (auto simp: block_available_def)
    note dump = getBlockDump_saved [OF m(3,4)]
    have "getBlockDump (new @ later) (fp_pos filePos) 0 hi = Inr (size_of data, take (unat (min hi (size_of data))) data)"
      using dump [of 0 hi] assms(2) by (cases "data = []") simp_all
    moreover have "take (unat (min hi (size_of data))) data = data" if "size_of data \<le> hi"
      using that len by (simp add: min_def)
    moreover have "take (unat hi) data = data" if "size_of data \<le> hi"
      using that len by (simp add: word_le_nat_alt)
    ultimately show ?thesis
      using None m(1,2) dump [OF assms(2,3)] part
      by (auto simp: dump_from_file_def openFile_def)
  qed
qed

text \<open>C24: A signed block reaches the other node. The node asks for a block in two parts (the second one may
  reach beyond the end); whether the block is in the cache or in its file, the parts together are a
  signed dump that \<open>checkSignatureBlock\<close> accepts, and it returns the block, the signature, the key and
  the address.\<close>

theorem signed_dump_accepted:
  assumes "MODULE_BLOCK modules" and "MODULE_BLOCK_RAW modules" and "block_available cache disk hash filePos data"
    and "key_accepted cr makeAddress key data sign" and "0 < mid" and "mid < size_of data" and "size_of data \<le> hi"
    and "length data + length sign + length (pk_public_key key) + length (pk_address key) + 32 < 2 ^ 63"
  shows "\<exists>part1 part2. sync_getBlockDump modules toHex (Some key) cache disk hash filePos 0 mid False True = Inr part1 \<and>
     sync_getBlockDump modules toHex (Some key) cache disk hash filePos mid hi False True = Inr part2 \<and>
     checkSignatureBlock cr makeAddress (part1 @ part2) =
       Inr \<lparr>bs_block = data, bs_sign = sign, bs_pubkey = pk_public_key key, bs_address = pk_address key\<rparr>"
proof -
  have len: "length data < 2 ^ 63" and u: "unat (size_of data) = length data"
    using assms(8) by (simp_all add: unat_size_of)
  have mid: "unat mid < length data" "mid \<le> hi" "\<not> size_of data \<le> mid" "mid \<noteq> 0"
    using assms(5-7) u by (auto simp: word_less_nat_alt word_le_nat_alt)
  have part1: "sync_getBlockDump modules toHex (Some key) cache disk hash filePos 0 mid False True =
      Inr (serializeInt (size_of data) @ take (unat mid) data)"
    using available_part [OF assms(3) _ _ len, of 0 mid True] mid assms(1,2)
    by (cases "data = []") (simp_all add: sync_getBlockDump_def sign_part_def makeFirstPartBlockSign_def)
  have "take (unat (hi - mid)) (drop (unat mid) data) = drop (unat mid) data"
    using mid assms(7) u by (simp add: unat_sub word_le_nat_alt)
  then have part2: "sync_getBlockDump modules toHex (Some key) cache disk hash filePos mid hi False True =
      Inr (drop (unat mid) data @ serializeString sign @ serializeString (pk_public_key key) @ serializeString (pk_address key))"
    using available_part [OF assms(3) mid(1,2) len, of True] mid assms(1,2,4,7)
    by (simp add: sync_getBlockDump_def sign_part_def makeBlockSign_def key_accepted_def)
  have whole: "(serializeInt (size_of data) @ take (unat mid) data) @ drop (unat mid) data @ rest = serializeString data @ rest" for rest
    by (simp add: serializeString_def)
  have "checkSignatureBlock cr makeAddress ((serializeInt (size_of data) @ take (unat mid) data) @ drop (unat mid) data @
        serializeString sign @ serializeString (pk_public_key key) @ serializeString (pk_address key)) =
      Inr \<lparr>bs_block = data, bs_sign = sign, bs_pubkey = pk_public_key key, bs_address = pk_address key\<rparr>"
    unfolding whole using assms(8) by (intro check_signed [OF assms(4)]) simp
  with part1 part2 show ?thesis
    by blast
qed

definition sample_key :: PrivateKey where
  "sample_key = \<lparr>pk_sign = (\<lambda>d. Inr [4, 2]), pk_public_key = [8], pk_address = [9, 9]\<rparr>"

theorem signed_dump_accepted_witness:
  "\<exists>part1 part2.
     sync_getBlockDump (Modules_none\<lparr>MODULE_BLOCK := True, MODULE_BLOCK_RAW := True\<rparr>) (\<lambda>s. s) (Some sample_key) Cache_empty
       [([1], fst (saveBlockToFileBinary [3] [7, 6, 5]) @ [2])] [] \<lparr>fp_pos = 1, fp_fileNameRelative = [1]\<rparr> 0 2 False True = Inr part1 \<and>
     sync_getBlockDump (Modules_none\<lparr>MODULE_BLOCK := True, MODULE_BLOCK_RAW := True\<rparr>) (\<lambda>s. s) (Some sample_key) Cache_empty
       [([1], fst (saveBlockToFileBinary [3] [7, 6, 5]) @ [2])] [] \<lparr>fp_pos = 1, fp_fileNameRelative = [1]\<rparr> 2 9 False True = Inr part2 \<and>
     checkSignatureBlock sample_crypto (\<lambda>_. Inr [9, 9]) (part1 @ part2) =
       Inr \<lparr>bs_block = [7, 6, 5], bs_sign = [4, 2], bs_pubkey = [8], bs_address = [9, 9]\<rparr>"
proof -
  let ?new = "fst (saveBlockToFileBinary [3] [7, 6, 5])"
  have "saveBlockToFileBinary [3] [7, 6, 5] = (?new, 1) \<and> length (?new @ [2]) < 2 ^ 63"
    by (simp add: saveBlockToFileBinary_def size_of_def)
  then have av: "block_available Cache_empty [([1], ?new @ [2])] [] \<lparr>fp_pos = 1, fp_fileNameRelative = [1]\<rparr> [7, 6, 5]"
    unfolding block_available_def
    by (simp only: getValue_def Cache_empty_def Cache.select_convs map_of.simps option.case)
      (rule conjI, simp, intro exI [of _ "[3]"] exI [of _ ?new] exI [of _ "[2]"], simp)
  have key: "key_accepted sample_crypto (\<lambda>_. Inr [9, 9]) sample_key [7, 6, 5] [4, 2]"
    by (simp add: key_accepted_def sample_key_def crypto_check_sign_data_def check_sign_def CheckBufferSignature_def sample_crypto_def)
  show ?thesis
    using signed_dump_accepted [OF _ _ av key, of "Modules_none\<lparr>MODULE_BLOCK := True, MODULE_BLOCK_RAW := True\<rparr>" 2 9 "\<lambda>s. s"]
    by (simp add: size_of_def sample_key_def)
qed

subsection \<open>After a conflict\<close>

lemma dropWhile_greater:
  fixes name :: bytes
  shows "sorted ns \<Longrightarrow> n \<in> set (dropWhile (\<lambda>n. \<not> name < n) ns) \<Longrightarrow> name < n"
  by (induction ns) (auto split: if_splits intro: less_le_trans)

lemma keys_update: "fst ` set (AList.update k v al) = insert k (fst ` set al)"
  by (induction al) auto

lemma removeFiles_keeps:
  assumes "map_of disk name = Some content" and "unat pos \<le> length content" and "path \<noteq> []" and "last path = 47"
    and "\<forall>(n, c) \<in> set disk. 47 \<notin> set n"
  shows "map_of (removeFiles path name pos disk) name = Some (take (unat pos) content)"
proof -
  let ?disk = "resizeFile name pos disk"
  let ?found = "dropWhile (\<lambda>n. \<not> name < n) (sort (getAllFilesRelativeInDir path ?disk))"
  have at: "map_of ?disk name = Some (take (unat pos) content)"
    using assms(1,2) by (simp add: resizeFile_def get_or_def)
  have "fst ` set ?disk = insert name (fst ` set disk)"
    unfolding resizeFile_def Let_def by (rule keys_update)
  moreover have "\<forall>n \<in> insert name (fst ` set disk). 47 \<notin> set n"
    using assms(5) map_of_SomeD [OF assms(1)] by fastforce
  ultimately have "\<forall>n \<in> fst ` set ?disk. 47 \<notin> set n"
    by (simp only:)
  then have clean: "\<forall>n \<in> set (getAllFilesRelativeInDir path ?disk). 47 \<notin> set n"
    using assms(3,4) by (auto simp: getAllFilesRelativeInDir_def relative_name_def)
  have "name < n" if "n \<in> set ?found" for n
    using dropWhile_greater [OF _ that] by simp
  moreover have "n \<noteq> 47 # name" if "n \<in> set ?found" for n
    using clean set_dropWhileD [OF that] by auto
  ultimately have other: "\<forall>n \<in> set ?found. n \<noteq> name \<and> n \<noteq> 47 # name"
    by blast
  have "map_of (fold removeFile ns d) name = map_of d name" if "\<forall>n \<in> set ns. n \<noteq> name \<and> n \<noteq> 47 # name" for ns and d :: disk
    using that
  proof (induction ns arbitrary: d)
    case (Cons n ns)
    have "map_of (removeFile n d) name = map_of d name"
      using Cons.prems by (induction d) (auto simp: removeFile_def)
    then show ?case
      using Cons by simp
  qed simp
  from this [OF other] at show ?thesis
    by (simp add: removeFiles_def Let_def)
qed

text \<open>C26: A defect of the resolution of conflicts: \<open>main\<close> appends the dump of the servers' block to the cut
  file without the eight bytes of its size. After the restart the file source reads the type of that
  block, with which the dump begins, as its size; types are larger than any file, so the block seems
  incomplete, and the first call of \<open>process\<close> that gets there never returns.\<close>

theorem resolved_conflict_stops_file_source:
  assumes "fp_fileNameRelative (bh_filePos (ci_ourConflictedBlock conflict)) = name"
    and "fp_pos (bh_filePos (ci_ourConflictedBlock conflict)) = pos" and "name \<noteq> []"
    and "map_of disk name = Some content" and "unat pos \<le> length content"
    and "path \<noteq> []" and "last path = 47" and "\<forall>(n, c) \<in> set disk. 47 \<notin> set n"
    and "block_type = le_val (take 8 (ci_blockDump conflict))" and "length (ci_blockDump conflict) < 8 + unat block_type"
    and "unat pos + 8 + unat block_type < 2 ^ 64" and "unat pos + length (ci_blockDump conflict) < 2 ^ 63"
    and "fs_fileName (ff_source st) = []"
    and "fi_filePos (getNextFile (fs_allFiles (ff_source st)) (resolve_conflict path conflict disk)) =
      \<lparr>fp_pos = pos, fp_fileNameRelative = name\<rparr>"
  shows "file_process L l base (resolve_conflict path conflict disk) v bd st = None"
proof -
  let ?disk = "resolve_conflict path conflict disk"
  let ?content = "take (unat pos) content @ ci_blockDump conflict"
  have loaded: "map_of ?disk name = Some ?content"
    using removeFiles_keeps [OF assms(4-8)] assms(1,2) by (simp add: resolve_conflict_def Let_def get_or_def)
  have len: "length ?content = unat pos + length (ci_blockDump conflict)"
    using assms(5) by simp
  have "readNextBlockDump ?content pos dump = Inr (pos, dump)" for dump
    by (rule incomplete_read [where block_size = block_type]) (use assms(5,9-12) len in simp_all)
  then have "stuck_at ?disk (ff_source st)"
    using assms(3,13,14) loaded unfolding stuck_at_def Let_def by auto
  then show ?thesis
    using stuck_never_returns [of L l base ?disk v bd st] by (cases "file_process L l base ?disk v bd st") auto
qed

definition sample_conflict :: ConflictBlocksInfo where
  "sample_conflict = \<lparr>ci_ourConflictedBlock = BlockHeader_default\<lparr>bh_filePos := \<lparr>fp_pos = 0, fp_fileNameRelative = lit ''a.blk''\<rparr>\<rparr>,
     ci_serverConflictedBlock = BlockHeader_default, ci_blockDump = le_bytes 8 BLOCK_TYPE_COMMON @ [1, 2, 3]\<rparr>"

theorem resolved_conflict_stops_file_source_witness:
  "file_process sample_leveldb sample_lib 4096
     (resolve_conflict (lit ''blocks/'') sample_conflict [(lit ''a.blk'', frame [5, 6]), (lit ''b.blk'', frame [7])]) True [] sample_source = None"
proof (rule resolved_conflict_stops_file_source)
  show "fi_filePos (getNextFile (fs_allFiles (ff_source sample_source))
      (resolve_conflict (lit ''blocks/'') sample_conflict [(lit ''a.blk'', frame [5, 6]), (lit ''b.blk'', frame [7])])) =
      \<lparr>fp_pos = 0, fp_fileNameRelative = lit ''a.blk''\<rparr>"
    by code_simp
  show "unat 0 + 8 + unat BLOCK_TYPE_COMMON < 2 ^ 64" "length (ci_blockDump sample_conflict) < 8 + unat BLOCK_TYPE_COMMON"
    by (simp_all add: BLOCK_TYPE_COMMON_def sample_conflict_def)
  have "take_bit 64 BLOCK_TYPE_COMMON = BLOCK_TYPE_COMMON"
    by (rule take_bit_word_eq_self) simp
  then show "BLOCK_TYPE_COMMON = le_val (take 8 (ci_blockDump sample_conflict))"
    by (simp add: sample_conflict_def le_val_le_bytes)
qed (simp_all add: sample_conflict_def sample_source_def FileBlockSource_new_def)

end
