(* ===== verification/SyncRestart.thy ===== *)
theory SyncRestart
  imports SyncImpl
begin

section \<open>A restart rebuilds the chain\<close>

text \<open>
  While blocks are handled, the headers and the metadata in the database keep up with the chain in
  memory; \<open>initialize\<close> in the next run rebuilds that chain from them. Everything else that is written
  to the database in between, by the workers or for signature blocks, is under other prefixes.
\<close>

subsection \<open>Reading the headers\<close>

lemma set_insort_inserts: "set (fold List.insort_insert xs acc) = set xs \<union> set acc"
  by (induction xs arbitrary: acc) (auto simp: set_insort_insert)

definition header_at :: "BlockChain \<Rightarrow> bytes \<Rightarrow> BlockHeader" where
  "header_at bc k = (the (map_of (bc_blocks bc) k))\<lparr>bh_blockNumber := None\<rparr>"

lemma add_all_headers_spec:
  assumes "\<forall>raw \<in> set raws. \<exists>k. BlockHeader_deserialize raw = Inr (f k) \<and> bh_hash (f k) = k \<and> k \<noteq> []"
  shows "\<exists>bc'. add_all_headers raws bc = (bc', Inr ()) \<and> bc_hashes bc' = bc_hashes bc \<and>
     bc_lastStateBlock bc' = bc_lastStateBlock bc \<and>
     (\<forall>k. map_of (bc_blocks bc') k =
        (case map_of (bc_blocks bc) k of
           Some b \<Rightarrow> Some b
         | None \<Rightarrow> if bh_hash (f k) = k \<and> (\<exists>raw \<in> set raws. BlockHeader_deserialize raw = Inr (f k)) then Some (f k) else None))"
  using assms
proof (induction raws arbitrary: bc)
  case (Cons raw raws)
  obtain k where k: "BlockHeader_deserialize raw = Inr (f k)" "bh_hash (f k) = k" "k \<noteq> []"
    using Cons.prems by auto
  define bc1 where "bc1 = (case map_of (bc_blocks bc) k of Some _ \<Rightarrow> bc
      | None \<Rightarrow> bc\<lparr>bc_blocks := AList.update k (f k) (bc_blocks bc)\<rparr>)"
  have step: "add_all_headers (raw # raws) bc = add_all_headers raws bc1"
    using k by (auto simp: addWithoutCalc_def bc1_def split: option.splits)
  have bc1: "bc_hashes bc1 = bc_hashes bc" "bc_lastStateBlock bc1 = bc_lastStateBlock bc"
      "map_of (bc_blocks bc1) k' = (if map_of (bc_blocks bc) k' = None \<and> k' = k then Some (f k) else map_of (bc_blocks bc) k')" for k'
    by (auto simp: bc1_def split: option.splits)
  have same: "BlockHeader_deserialize raw = Inr (f k') \<and> bh_hash (f k') = k' \<longleftrightarrow> k' = k" for k'
    using k by auto
  obtain bc' where bc': "add_all_headers raws bc1 = (bc', Inr ())" "bc_hashes bc' = bc_hashes bc1"
      "bc_lastStateBlock bc' = bc_lastStateBlock bc1"
      "\<And>k. map_of (bc_blocks bc') k =
        (case map_of (bc_blocks bc1) k of
           Some b \<Rightarrow> Some b
         | None \<Rightarrow> if bh_hash (f k) = k \<and> (\<exists>raw \<in> set raws. BlockHeader_deserialize raw = Inr (f k)) then Some (f k) else None)"
    using Cons.IH [of bc1] Cons.prems by auto
  have "map_of (bc_blocks bc') k' =
        (case map_of (bc_blocks bc) k' of
           Some b \<Rightarrow> Some b
         | None \<Rightarrow> if bh_hash (f k') = k' \<and> (\<exists>raw \<in> set (raw # raws). BlockHeader_deserialize raw = Inr (f k')) then Some (f k') else None)" for k'
    using bc'(4) [of k'] bc1(3) [of k'] same [of k'] by (auto split: option.splits)
  then show ?case
    using step bc' bc1 by simp
qed (auto split: option.splits)

text \<open>\<open>getAllBlocks\<close> returns all the values under the prefix of the blocks.\<close>

definition block_split :: "bytes \<times> byte" where
  "block_split = (lit ''b'', of_char (CHR ''_''))"

lemma block_prefix:
  "BLOCK_PREFIX = fst block_split @ [snd block_split]"
  "prefix_end BLOCK_PREFIX = fst block_split @ [snd block_split + 1]"
  "snd block_split \<noteq> - 1"
  by (simp_all add: block_split_def prefix_defs prefix_end_def)

lemma block_range: "BLOCK_PREFIX \<le> k \<and> k < prefix_end BLOCK_PREFIX \<longleftrightarrow> (\<exists>s. k = BLOCK_PREFIX @ s)"
proof -
  have "fst block_split @ snd block_split # s = BLOCK_PREFIX @ s" for s
    by (simp add: block_prefix(1))
  then show ?thesis
    using byte_prefix_range [OF block_prefix(3), of "fst block_split" k]
    unfolding block_prefix(1) [symmetric] block_prefix(2) [symmetric] by metis
qed

lemma getAllBlocks_values:
  assumes ok: "leveldb_ok L contents" and n: "\<forall>s v. contents d (BLOCK_PREFIX @ s) = Some v \<longrightarrow> s \<in> set hs" "length hs < 2 ^ 64"
  shows "\<exists>raws. getAllBlocks L d = Inr raws \<and> set raws = {v. \<exists>s. contents d (BLOCK_PREFIX @ s) = Some v}"
proof -
  let ?es = "takeWhile (\<lambda>e. fst e < prefix_end BLOCK_PREFIX) (db_Seek L BLOCK_PREFIX d)"
  have ord: "ordered (db_Seek L BLOCK_PREFIX d)"
    by (rule leveldb_okD(4) [OF ok])
  have es: "?es = filter (\<lambda>e. fst e < prefix_end BLOCK_PREFIX) (db_Seek L BLOCK_PREFIX d)"
    by (rule takeWhile_ordered [OF ord])
  have mem: "(k, v) \<in> set ?es \<longleftrightarrow> (\<exists>s. k = BLOCK_PREFIX @ s) \<and> contents d k = Some v" for k v
    unfolding es using block_range [of k] leveldb_okD(5) [OF ok, of k v BLOCK_PREFIX d] by auto
  have "distinct (map fst ?es)"
    unfolding es by (rule distinct_map_filter [OF ordered_distinct [OF ord]])
  then have "length ?es = card (fst ` set ?es)"
    using distinct_card [of "map fst ?es"] by simp
  moreover have sub: "fst ` set ?es \<subseteq> (\<lambda>s. BLOCK_PREFIX @ s) ` set hs"
    using mem n(1) by force
  have "card (fst ` set ?es) \<le> card ((\<lambda>s. BLOCK_PREFIX @ s) ` set hs)"
    by (rule card_mono [OF _ sub]) simp
  moreover have "card ((\<lambda>s. BLOCK_PREFIX @ s) ` set hs) \<le> length hs"
    by (rule order_trans [OF card_image_le card_length]) simp
  ultimately have "length ?es < 2 ^ 64"
    using n(2) by linarith
  then have "findKey L BLOCK_PREFIX (prefix_end BLOCK_PREFIX) 0 0 d = mapE (\<lambda>iter. Inr (snd iter)) ?es"
    unfolding findKey_def using findKeyInternal_window [OF refl, of "prefix_end BLOCK_PREFIX" L BLOCK_PREFIX d 0 0] by simp
  also have "\<dots> = Inr (map snd ?es)"
    using mapE_Inr [of ?es "\<lambda>iter. Inr (snd iter)" snd] by simp
  finally have "getAllBlocks L d = Inr (fold List.insort_insert (map snd ?es) [])"
    by (simp add: getAllBlocks_def)
  moreover have "v \<in> snd ` set ?es \<longleftrightarrow> (\<exists>s. contents d (BLOCK_PREFIX @ s) = Some v)" for v
    using mem by (metis (no_types, lifting) imageE imageI prod.collapse snd_conv)
  then have "set (fold List.insort_insert (map snd ?es) []) = {v. \<exists>s. contents d (BLOCK_PREFIX @ s) = Some v}"
    unfolding set_insort_inserts by auto
  ultimately show ?thesis
    by blast
qed

subsection \<open>What the database holds of the chain\<close>

definition genesis_block :: "bytes \<Rightarrow> BlockHeader" where
  "genesis_block h = BlockHeader_default\<lparr>bh_hash := h, bh_blockNumber := Some 0\<rparr>"

definition small_records :: "(bytes \<rightharpoonup> bytes) \<Rightarrow> bool" where
  "small_records m \<longleftrightarrow> (\<forall>k v. m k = Some v \<longrightarrow> length v < 2 ^ 64)"

definition chain_metadata :: "bytes list \<Rightarrow> bytes option" where
  "chain_metadata hs =
     (if length hs \<le> 1 then None else Some (serializeVector (last hs) @ serializeVector (last (butlast hs))))"

definition stored_chain :: "(bytes \<rightharpoonup> bytes) \<Rightarrow> bytes \<Rightarrow> BlockChain \<Rightarrow> bool" where
  "stored_chain m h0 bc \<longleftrightarrow> chain_inv bc \<and> closed_chain bc \<and> bc_hashes bc = h0 # tl (bc_hashes bc) \<and>
     map_of (bc_blocks bc) h0 = Some (genesis_block h0) \<and> chained (bc_blocks bc) h0 (tl (bc_hashes bc)) \<and>
     (\<forall>k \<in> set (tl (bc_hashes bc)). \<exists>b bs. map_of (bc_blocks bc) k = Some b \<and> BlockHeader_serialize b = Inr bs \<and>
        m (BLOCK_PREFIX @ k) = Some bs) \<and>
     (\<forall>k. k \<notin> set (tl (bc_hashes bc)) \<longrightarrow> m (BLOCK_PREFIX @ k) = None) \<and>
     m KEY_BLOCK_METADATA = chain_metadata (bc_hashes bc)"

lemma BlockHeader_serialize_number [simp]: "BlockHeader_serialize (b\<lparr>bh_blockNumber := n\<rparr>) = BlockHeader_serialize b"
  by (simp add: BlockHeader_serialize_def)

lemma decodes_run: "decodes d bs x \<Longrightarrow> length bs < 2 ^ 64 \<Longrightarrow> bindE (d bs 0) (\<lambda>(result, from). Inr result) = Inr x"
  using decodesD [of d bs x bs 0 "[]"] at_zero [of bs] by simp

lemma BlockHeader_read:
  assumes "BlockHeader_serialize b = Inr bs" and "length bs < 2 ^ 64"
  shows "BlockHeader_deserialize bs = Inr (b\<lparr>bh_blockNumber := None\<rparr>)"
  unfolding BlockHeader_deserialize_def by (rule decodes_run [OF decodes_BlockHeader [OF assms(1)] assms(2)])

lemma BlocksMetadata_read:
  assumes "length (serializeVector h @ serializeVector p) < 2 ^ 64"
  shows "BlocksMetadata_deserialize (serializeVector h @ serializeVector p) = Inr \<lparr>bm_blockHash = h, bm_prevBlockHash = p\<rparr>"
proof -
  have "decodes (bindP deserializeVector (\<lambda>h. bindP deserializeVector (\<lambda>p. returnP \<lparr>bm_blockHash = h, bm_prevBlockHash = p\<rparr>)))
      (serializeVector h @ serializeVector p) \<lparr>bm_blockHash = h, bm_prevBlockHash = p\<rparr>"
    by (rule decodes_vector decodes_map decodes_bind)+
  from decodes_run [OF this assms] have "serializeVector h @ serializeVector p \<noteq> [] \<Longrightarrow> ?thesis"
    by (simp only: BlocksMetadata_deserialize_def if_False)
  moreover have "serializeVector h @ serializeVector p \<noteq> []"
    using length_serializeInt_u64 [of "size_of h"] by (auto simp: serializeVector_def simp del: length_serializeInt_u64)
  ultimately show ?thesis
    by blast
qed

subsection \<open>Blocks and other records are written\<close>

lemma saved_prefixes:
  "BLOCK_PREFIX \<in> set all_prefixes" "KEY_BLOCK_METADATA \<in> set all_prefixes" "KEY_BLOCK_METADATA \<noteq> BLOCK_PREFIX"
  by (simp_all add: all_prefixes_def) (simp add: prefix_defs)

lemma batch_frame:
  assumes "batch_writes ws b = Inr b'" and "p \<in> set all_prefixes" and "\<forall>w \<in> set ws. wr_prefix w \<noteq> p"
  shows "fold write_effect (wb_batch b') m (p @ s) = fold write_effect (wb_batch b) m (p @ s)"
  using assms(1,3)
proof (induction ws arbitrary: b)
  case (Cons w ws)
  obtain b1 where b1: "batch_write w b = Inr b1" "batch_writes ws b1 = Inr b'"
    using Cons.prems(1) by (auto simp: bindE_Inr_iff)
  obtain v where "wb_batch b1 = wb_batch b @ [wr_op (wr_prefix w @ wr_rest w) v]"
    using batch_write_op [OF b1(1)] by blast
  moreover have "wr_prefix w @ wr_rest w \<noteq> p @ s"
    using Cons.prems(2) by (intro other_prefix assms(2)) simp
  ultimately show ?case
    using Cons.IH [OF b1(2)] Cons.prems(2) by (simp add: write_effect_wr_op)
qed simp

lemma bindE_batch_nil [simp]: "bindE m (batch_writes []) = m"
  by (cases m) simp_all

lemma batch_writes_last [simp]: "batch_writes [WBlockTimeline n el] = saveBlockTimeline n el"
  by (rule ext) simp

lemma stored_chain_frame:
  assumes "stored_chain m h0 bc" and "\<forall>k. m' (BLOCK_PREFIX @ k) = m (BLOCK_PREFIX @ k)"
    and "m' KEY_BLOCK_METADATA = m KEY_BLOCK_METADATA"
  shows "stored_chain m' h0 bc"
  using assms by (simp add: stored_chain_def)

lemma stored_chain_batch:
  assumes "leveldb_ok L contents" and "stored_chain (contents d) h0 bc" and "batch_writes ws Batch_new = Inr b"
    and "\<forall>w \<in> set ws. wr_prefix w \<noteq> BLOCK_PREFIX \<and> wr_prefix w \<noteq> KEY_BLOCK_METADATA" and "addBatch L b d = (d', Inr ())"
  shows "stored_chain (contents d') h0 bc"
proof (rule stored_chain_frame [OF assms(2)])
  have "contents d' = fold write_effect (wb_batch b) (contents d)"
    by (rule addBatch_contents [OF assms(1,5)])
  then have keep: "contents d' (p @ s) = contents d (p @ s)" if "p = BLOCK_PREFIX \<or> p = KEY_BLOCK_METADATA" for p s
    using batch_frame [OF assms(3), of p "contents d" s] saved_prefixes assms(4) that by (auto simp: Batch_new_def)
  then show "\<forall>k. contents d' (BLOCK_PREFIX @ k) = contents d (BLOCK_PREFIX @ k)"
    and "contents d' KEY_BLOCK_METADATA = contents d KEY_BLOCK_METADATA"
    using keep [of KEY_BLOCK_METADATA "[]"] by auto
qed

text \<open>The batch of a signature block and that of a block.\<close>

lemma saved_sign_block:
  assumes "leveldb_ok L contents" and "stored_chain (contents d) h0 bc"
    and "saveSignBlockToLeveldb L modules bi n el d = (d', Inr ())"
  shows "stored_chain (contents d') h0 bc"
proof -
  let ?ws = "(if MODULE_BLOCK modules then [WSignBlockHeader (sh_hash (sb_header bi)) (sb_header bi)] else []) @ [WBlockTimeline n el]"
  have "saveSignBlockToLeveldb L modules bi n el d =
      (case batch_writes ?ws Batch_new of Inl e \<Rightarrow> (d, Inl e) | Inr batch \<Rightarrow> addBatch L batch d)"
    by (cases "addSignBlockHeader (sh_hash (sb_header bi)) (sb_header bi) Batch_new")
      (simp_all add: saveSignBlockToLeveldb_def Let_def)
  then obtain b where "batch_writes ?ws Batch_new = Inr b" "addBatch L b d = (d', Inr ())"
    using assms(3) by (auto split: sum.splits)
  moreover have "\<forall>w \<in> set ?ws. wr_prefix w \<noteq> BLOCK_PREFIX \<and> wr_prefix w \<noteq> KEY_BLOCK_METADATA"
    by (simp add: prefix_defs)
  ultimately show ?thesis
    using stored_chain_batch [OF assms(1,2)] by blast
qed

lemma saved_block_contents:
  assumes "leveldb_ok L contents" and "MODULE_BLOCK modules" and "saveBlockToLeveldb L modules bi n el d = (d', Inr ())"
  obtains bs md mbs where "BlockHeader_serialize (bi_header bi) = Inr bs" and "findBlockMetadata L d = Inr md"
    and "BlocksMetadata_serialize (newMetadata md (bi_header bi)) = Inr mbs"
    and "\<And>k. contents d' (BLOCK_PREFIX @ k) = (if k = bh_hash (bi_header bi) then Some bs else contents d (BLOCK_PREFIX @ k))"
    and "contents d' KEY_BLOCK_METADATA = Some mbs"
proof -
  obtain md where md: "findBlockMetadata L d = Inr md"
    using assms(3) by (auto simp: saveBlockToLeveldb_def Let_def bindE_Inr_iff split: sum.splits)
  let ?ws = "[WBlockHeader (bh_hash (bi_header bi)) (bi_header bi), WBlockMetadata (newMetadata md (bi_header bi)), WBlockTimeline n el]"
  have "saveBlockToLeveldb L modules bi n el d =
      (case batch_writes ?ws Batch_new of Inl e \<Rightarrow> (d, Inl e) | Inr batch \<Rightarrow> addBatch L batch d)"
    using assms(2) md
    by (cases "addBlockHeader (bh_hash (bi_header bi)) (bi_header bi) Batch_new")
      (simp_all add: saveBlockToLeveldb_def Let_def bindE_assoc)
  then obtain b where b: "batch_writes ?ws Batch_new = Inr b" "addBatch L b d = (d', Inr ())"
    using assms(3) by (auto split: sum.splits)
  have eff: "contents d' = fold write_effect (wb_batch b) (contents d)"
    by (rule addBatch_contents [OF assms(1) b(2)])
  obtain bs mbs where v: "BlockHeader_serialize (bi_header bi) = Inr bs"
      "BlocksMetadata_serialize (newMetadata md (bi_header bi)) = Inr mbs"
      and ops: "wb_batch b = [Put (BLOCK_PREFIX @ bh_hash (bi_header bi)) bs, Put KEY_BLOCK_METADATA mbs,
        Put (BLOCKS_TIMELINE_PREFIX @ serializeInt n) el]"
    using b(1) by (auto simp: batch_defs addKey_Inr makeKey_Inr bindE_Inr_iff Batch_new_def addKeyInternal_def)
  have ne: "BLOCKS_TIMELINE_PREFIX @ serializeInt n \<noteq> BLOCK_PREFIX @ k" "KEY_BLOCK_METADATA \<noteq> BLOCK_PREFIX @ k"
      "BLOCKS_TIMELINE_PREFIX @ serializeInt n \<noteq> KEY_BLOCK_METADATA" for k
    by (simp_all add: prefix_defs)
  show ?thesis
    by (rule that [OF v(1) md v(2)]) (use ne ne [symmetric] in \<open>simp_all add: eff ops\<close>)
qed

text \<open>A block that was added to the chain and saved.\<close>

lemma addBlock_fresh:
  assumes "addBlock block bc = (bc', Inr r)" and "bh_blockNumber block = None"
  shows "fresh_block block bc"
  using assms by (auto simp: fresh_block_def addBlock_def addWithoutCalc_def CHECK_def split: option.splits if_splits)

lemma last_Cons_tl: "hs = h0 # tl hs \<Longrightarrow> last hs = last (h0 # tl hs)"
  by simp

lemma find_chain_metadata:
  assumes "leveldb_ok L contents" and "small_records (contents d)" and "contents d KEY_BLOCK_METADATA = chain_metadata hs"
  shows "findBlockMetadata L d = Inr (if length hs \<le> 1 then \<lparr>bm_blockHash = [], bm_prevBlockHash = []\<rparr>
     else \<lparr>bm_blockHash = last hs, bm_prevBlockHash = last (butlast hs)\<rparr>)"
proof (cases "length hs \<le> 1")
  case True
  then show ?thesis
    using assms(3) by (simp add: findBlockMetadata_def findValue_contents [OF assms(1)] chain_metadata_def BlocksMetadata_deserialize_def)
next
  case False
  let ?bs = "serializeVector (last hs) @ serializeVector (last (butlast hs))"
  have c: "contents d KEY_BLOCK_METADATA = Some ?bs"
    using False assms(3) by (simp add: chain_metadata_def)
  then have "length ?bs < 2 ^ 64"
    using assms(2) unfolding small_records_def by blast
  then show ?thesis
    using False c BlocksMetadata_read by (simp add: findBlockMetadata_def findValue_contents [OF assms(1)] del: length_append)
qed

lemma chained_map: "\<forall>k \<in> set ks. map_of bl' k = map_of bl k \<Longrightarrow> chained bl' p ks = chained bl p ks"
  by (induction ks arbitrary: p) (auto split: option.splits)

lemma stored_chain_step:
  assumes ok: "leveldb_ok L contents" and st: "stored_chain (contents d) h0 bc" and small: "small_records (contents d)"
    and add: "addBlock block bc = (bc', Inr (Some n))" "bh_blockNumber block = None"
    and first: "length (bc_hashes bc) = 1 \<Longrightarrow> bh_prevHash block = h0" and len: "length (bc_hashes bc) + 1 < 2 ^ 64"
    and save: "MODULE_BLOCK modules" "bi_header bi = block\<lparr>bh_blockNumber := m\<rparr>" "saveBlockToLeveldb L modules bi tk el d = (d', Inr ())"
  shows "stored_chain (contents d') h0 bc'"
proof -
  let ?h = "bh_hash block" and ?hs = "bc_hashes bc"
  have inv: "chain_inv bc" "closed_chain bc" and hs: "?hs = h0 # tl ?hs"
    and g: "map_of (bc_blocks bc) h0 = Some (genesis_block h0)" and ch: "chained (bc_blocks bc) h0 (tl ?hs)"
    and saved: "\<And>k. k \<in> set (tl ?hs) \<Longrightarrow> \<exists>b bs. map_of (bc_blocks bc) k = Some b \<and> BlockHeader_serialize b = Inr bs \<and>
        contents d (BLOCK_PREFIX @ k) = Some bs"
      "\<And>k. k \<notin> set (tl ?hs) \<Longrightarrow> contents d (BLOCK_PREFIX @ k) = None"
    and meta: "contents d KEY_BLOCK_METADATA = chain_metadata ?hs"
    using st unfolding stored_chain_def by blast+
  have fresh: "fresh_block block bc"
    by (rule addBlock_fresh [OF add])
  have inv': "chain_inv bc'" "closed_chain bc'"
    using addBlock_invariant [OF inv fresh len] add(1) by simp_all
  have p: "bh_prevHash block \<noteq> []" and ext: "extends block bc"
    using addBlock_closed [OF inv fresh] add(1) by (auto split: if_splits)
  have bc': "bc_hashes bc' = ?hs @ [?h]"
      "bc_blocks bc' = bc_blocks bc @ [(?h, block\<lparr>bh_blockNumber := Some (of_nat (length ?hs))\<rparr>)]"
    using addBlock_closed [OF inv fresh] add(1) p ext by (auto split: if_splits)
  have new: "map_of (bc_blocks bc) ?h = None" and h: "?h \<noteq> []"
    using fresh by (simp_all add: fresh_block_def)
  have at': "map_of (bc_blocks bc') k = (if k = ?h then Some (block\<lparr>bh_blockNumber := Some (of_nat (length ?hs))\<rparr>)
      else map_of (bc_blocks bc) k)" for k
    using new by (simp add: bc'(2) map_add_def split: option.splits)
  have prev: "bh_prevHash block = last ?hs"
    using ext first hs by (auto simp: extends_def) (metis last_ConsL length_0_conv list.size(4) add_is_1 )
  have hnew: "?h \<notin> set ?hs"
    using saved(1) new g hs by (metis option.distinct(1) set_ConsD)
  have tl: "tl (bc_hashes bc') = tl ?hs @ [?h]"
    using hs by (metis bc'(1) list.sel(3) append_Cons)
  obtain bs md mbs where w: "BlockHeader_serialize (bi_header bi) = Inr bs" "findBlockMetadata L d = Inr md"
      "BlocksMetadata_serialize (newMetadata md (bi_header bi)) = Inr mbs"
      "\<And>k. contents d' (BLOCK_PREFIX @ k) = (if k = bh_hash (bi_header bi) then Some bs else contents d (BLOCK_PREFIX @ k))"
      "contents d' KEY_BLOCK_METADATA = Some mbs"
    using saved_block_contents [OF ok save(1,3)] by blast
  have ser: "BlockHeader_serialize block = Inr bs" and hash: "bh_hash (bi_header bi) = ?h" "bh_prevHash (bi_header bi) = last ?hs"
    using w(1) by (simp_all add: save(2) prev)
  have "bm_prevBlockHash md \<noteq> last ?hs"
  proof (cases "length ?hs \<le> 1")
    case True
    then show ?thesis
      using w(2) p prev find_chain_metadata [OF ok small meta] by auto
  next
    case False
    have "last (butlast ?hs) \<in> set (butlast ?hs)"
      using False by (intro last_in_set) (auto simp: butlast_conv_take)
    then have "last (butlast ?hs) \<noteq> last ?hs"
      using hashes_distinct [OF inv(1)] False
      by (metis append_butlast_last_id distinct_butlast distinct_append disjoint_iff list.set_intros(1) list.size(3) zero_le)
    then show ?thesis
      using False w(2) find_chain_metadata [OF ok small meta] by auto
  qed
  then have "newMetadata md (bi_header bi) = \<lparr>bm_blockHash = ?h, bm_prevBlockHash = last ?hs\<rparr>"
    using hash by (simp add: newMetadata_def)
  then have mbs: "mbs = serializeVector ?h @ serializeVector (last ?hs)"
    using w(3) by (auto simp: BlocksMetadata_serialize_def bindE_Inr_iff)
  have "chained (bc_blocks bc') h0 (tl ?hs)"
    using ch chained_map [of "tl ?hs" "bc_blocks bc'" "bc_blocks bc"] hnew at' hs
    by (metis list.set_sel(2) list.sel(2) emptyE empty_set)
  then have "chained (bc_blocks bc') h0 (tl ?hs @ [?h])"
    using at' h prev last_Cons_tl [OF hs] by (simp add: chained_snoc)
  moreover have "\<forall>k \<in> set (tl ?hs @ [?h]). \<exists>b bs. map_of (bc_blocks bc') k = Some b \<and> BlockHeader_serialize b = Inr bs \<and>
      contents d' (BLOCK_PREFIX @ k) = Some bs"
    using saved(1) ser at' w(4) hash(1) by auto
  moreover have "\<forall>k. k \<notin> set (tl ?hs @ [?h]) \<longrightarrow> contents d' (BLOCK_PREFIX @ k) = None"
    using saved(2) w(4) hash(1) by auto
  moreover have "contents d' KEY_BLOCK_METADATA = chain_metadata (?hs @ [?h])"
    using w(5) mbs inv(1) by (simp add: chain_metadata_def chain_inv_def)
  moreover have "map_of (bc_blocks bc') h0 = Some (genesis_block h0)"
    using at' g new by auto
  moreover have "?hs @ [?h] = h0 # (tl ?hs @ [?h])"
    by (subst hs) simp
  ultimately show ?thesis
    unfolding stored_chain_def tl using inv' by (simp only: bc'(1) simp_thms)
qed

lemma stored_chain_refused:
  assumes "stored_chain m h0 bc" and "addBlock block bc = (bc', Inr None)" and "bh_blockNumber block = None"
    and "length (bc_hashes bc) + 1 < 2 ^ 64"
  shows "stored_chain m h0 bc'"
proof -
  have inv: "chain_inv bc" "closed_chain bc"
    using assms(1) by (simp_all add: stored_chain_def)
  have fresh: "fresh_block block bc"
    by (rule addBlock_fresh [OF assms(2,3)])
  have "bc_hashes bc' = bc_hashes bc" "bc_blocks bc' = bc_blocks bc"
    using addBlock_closed [OF inv fresh] assms(2) by (auto split: if_splits)
  then show ?thesis
    using assms(1) addBlock_invariant [OF inv fresh assms(4)] assms(2) by (simp add: stored_chain_def)
qed

subsection \<open>Loading\<close>

lemma same_chain:
  assumes "chain_inv bc" and "chain_inv bc'" and "bc_hashes bc' = bc_hashes bc" and "links (bc_blocks bc') = links (bc_blocks bc)"
    and "k \<in> set (bc_hashes bc)"
  shows "map_of (bc_blocks bc') k = map_of (bc_blocks bc) k"
proof -
  obtain i where i: "i < length (bc_hashes bc)" "k = bc_hashes bc ! i"
    using assms(5) by (auto simp: in_set_conv_nth)
  obtain b where b: "map_of (bc_blocks bc) k = Some b" "bh_blockNumber b = Some (of_nat i)"
    using chain_invD [OF assms(1) i(1)] i(2) by metis
  obtain b' where b': "map_of (bc_blocks bc') k = Some b'" "bh_blockNumber b' = Some (of_nat i)"
    using chain_invD [OF assms(2), of i] i assms(3) by metis
  have "b'\<lparr>bh_blockNumber := None\<rparr> = b\<lparr>bh_blockNumber := None\<rparr>"
    using fun_cong [OF assms(4), of k] b(1) b'(1) by (simp add: links_def)
  then have "b'\<lparr>bh_blockNumber := None\<rparr>\<lparr>bh_blockNumber := Some (of_nat i)\<rparr> = b\<lparr>bh_blockNumber := None\<rparr>\<lparr>bh_blockNumber := Some (of_nat i)\<rparr>"
    by (rule arg_cong)
  then have "b' = b"
    using b(2) b'(2) by (cases b, cases b') simp
  then show ?thesis
    using b b' by simp
qed

lemma stored_chain_loaded:
  assumes ok: "leveldb_ok L contents" and st: "stored_chain (contents d) h0 bc" and small: "small_records (contents d)"
    and hex: "fromHex GENESIS_BLOCK_HASH = Inr h0" and new: "BlockChain_new fromHex = Inr bc0"
  shows "\<exists>md bc'. findBlockMetadata L d = Inr md \<and> load_blockchain L fromHex d md bc0 = (bc', Inr ()) \<and>
     bc_hashes bc' = bc_hashes bc \<and> (\<forall>k \<in> set (bc_hashes bc). map_of (bc_blocks bc') k = map_of (bc_blocks bc) k)"
proof -
  let ?ks = "tl (bc_hashes bc)" and ?g = "genesis_block h0"
  have inv: "chain_inv bc" "closed_chain bc" and hs: "bc_hashes bc = h0 # ?ks"
    and g: "map_of (bc_blocks bc) h0 = Some ?g" and ch: "chained (bc_blocks bc) h0 ?ks"
    and saved: "\<And>k. k \<in> set ?ks \<Longrightarrow> \<exists>b bs. map_of (bc_blocks bc) k = Some b \<and> BlockHeader_serialize b = Inr bs \<and>
        contents d (BLOCK_PREFIX @ k) = Some bs"
      "\<And>k. k \<notin> set ?ks \<Longrightarrow> contents d (BLOCK_PREFIX @ k) = None"
    and meta: "contents d KEY_BLOCK_METADATA = chain_metadata (bc_hashes bc)"
    using st unfolding stored_chain_def by blast+
  have h0: "h0 \<noteq> []" and disj: "h0 \<notin> set ?ks"
    using chain_invD [OF inv(1), of 0] hashes_distinct [OF inv(1)] hs
    by (metis length_greater_0_conv list.distinct(1) nth_Cons_0, metis distinct.simps(2))
  define bc1 where "bc1 = \<lparr>bc_blocks = [(h0, ?g)], bc_hashes = [h0], bc_lastStateBlock = 0\<rparr>"
  have clear: "clear fromHex bc0 = Inr bc1"
    using hex new by (auto simp: clear_def BlockChain_new_def initialize_def BlockChain_empty_def Let_def bc1_def genesis_block_def)
  have inv1: "chain_inv bc1" "state_inv bc1"
    using h0 by (simp_all add: bc1_def chain_inv_def state_inv_def entry_ok_def genesis_block_def)
  have read: "BlockHeader_deserialize raw = Inr (header_at bc k) \<and> bh_hash (header_at bc k) = k \<and> k \<noteq> []"
    if raw: "contents d (BLOCK_PREFIX @ k) = Some raw" for raw k
  proof -
    have k: "k \<in> set ?ks"
      using saved(2) raw by force
    then obtain b where b: "map_of (bc_blocks bc) k = Some b" "BlockHeader_serialize b = Inr raw"
      using saved(1) [OF k] raw by auto
    obtain i where "i < length (bc_hashes bc)" "k = bc_hashes bc ! i"
      using k hs by (metis in_set_conv_nth list.set_intros(2))
    then have "bh_hash b = k" "k \<noteq> []"
      using chain_invD [OF inv(1)] b(1) by (metis option.inject)+
    moreover have "length raw < 2 ^ 64"
      using small raw unfolding small_records_def by blast
    ultimately show ?thesis
      using BlockHeader_read [OF b(2)] b(1) by (simp add: header_at_def)
  qed
  obtain raws where raws: "getAllBlocks L d = Inr raws" "set raws = {v. \<exists>s. contents d (BLOCK_PREFIX @ s) = Some v}"
    using getAllBlocks_values [OF ok, of d ?ks] saved(2) inv(1) by (force simp: chain_inv_def)
  have known: "bh_hash (header_at bc k) = k \<and> (\<exists>raw \<in> set raws. BlockHeader_deserialize raw = Inr (header_at bc k)) \<longleftrightarrow>
      k \<in> set ?ks" for k
  proof
    assume "bh_hash (header_at bc k) = k \<and> (\<exists>raw \<in> set raws. BlockHeader_deserialize raw = Inr (header_at bc k))"
    then obtain s raw where "contents d (BLOCK_PREFIX @ s) = Some raw" "BlockHeader_deserialize raw = Inr (header_at bc k)"
        "bh_hash (header_at bc k) = k"
      using raws(2) by auto
    then show "k \<in> set ?ks"
      using read [of s raw] saved(2) [of k] by (cases "k \<in> set ?ks") auto
  next
    assume "k \<in> set ?ks"
    then obtain raw where "contents d (BLOCK_PREFIX @ k) = Some raw"
      using saved(1) by blast
    then show "bh_hash (header_at bc k) = k \<and> (\<exists>raw \<in> set raws. BlockHeader_deserialize raw = Inr (header_at bc k))"
      using read [of k raw] raws(2) by blast
  qed
  have "\<forall>raw \<in> set raws. \<exists>k. BlockHeader_deserialize raw = Inr (header_at bc k) \<and> bh_hash (header_at bc k) = k \<and> k \<noteq> []"
    using raws(2) read by blast
  from add_all_headers_spec [OF this, of bc1] obtain bc2 where add: "add_all_headers raws bc1 = (bc2, Inr ())"
      and bc2: "bc_hashes bc2 = [h0]" "bc_lastStateBlock bc2 = 0"
      and at2: "\<And>k. map_of (bc_blocks bc2) k = (if k = h0 then Some ?g else if k \<in> set ?ks then Some (header_at bc k) else None)"
    unfolding known by (auto simp: bc1_def)
  have "bc2 = bc1\<lparr>bc_blocks := bc_blocks bc2\<rparr>"
    using bc2 by (simp add: bc1_def)
  then have inv2: "chain_inv bc2" "state_inv bc2"
    using inv_frame [of bc1 "bc_blocks bc2"] inv1 at2 by (simp_all add: bc1_def)
  have links: "links (bc_blocks bc2) k = links (bc_blocks bc) k" for k
  proof -
    consider "k = h0" | "k \<noteq> h0" "k \<in> set ?ks" | "k \<notin> set (bc_hashes bc)"
      using hs by (metis set_ConsD)
    then show ?thesis
    proof cases
      case 3
      then have "map_of (bc_blocks bc) k = None"
        using inv(2) by (auto simp: closed_chain_def map_of_None_fst)
      moreover have "k \<noteq> h0" "k \<notin> set ?ks"
        using 3 hs by (metis list.set_intros(1), metis list.set_intros(2))
      ultimately show ?thesis
        using at2 by (simp add: links_def)
    next
      case 2
      then show ?thesis
        using at2 [of k] saved(1) [of k] by (auto simp: links_def header_at_def)
    qed (use at2 g in \<open>simp add: links_def\<close>)
  qed
  have loaded: "load_blockchain L fromHex d md bc0 =
      (if bm_blockHash md = [] then (bc2, Inr ())
       else case calcBlockchain (bm_blockHash md) bc2 of
              (bc, Inl e) \<Rightarrow> (bc, Inl e) | (bc, Inr None) \<Rightarrow> (bc, Inl OutOfRange) | (bc, Inr (Some count)) \<Rightarrow> (bc, Inr ()))" for md
    by (simp add: load_blockchain_def clear raws(1) add)
  let ?md = "if length (bc_hashes bc) \<le> 1 then \<lparr>bm_blockHash = [], bm_prevBlockHash = []\<rparr>
     else \<lparr>bm_blockHash = last (bc_hashes bc), bm_prevBlockHash = last (butlast (bc_hashes bc))\<rparr>"
  have "\<exists>bc'. load_blockchain L fromHex d ?md bc0 = (bc', Inr ()) \<and> chain_inv bc' \<and> bc_hashes bc' = bc_hashes bc \<and>
      links (bc_blocks bc') = links (bc_blocks bc)"
  proof (cases "?ks = []")
    case True
    then have "bc_hashes bc = [h0]"
      using hs by simp
    then show ?thesis
      using inv2(1) bc2(1) links by (auto simp: loaded)
  next
    case False
    have last: "last (bc_hashes bc) = last ?ks" and len: "\<not> length (bc_hashes bc) \<le> 1"
      using hs False by (metis last_ConsR, metis length_0_conv length_tl diff_is_0_eq)
    have "last ?ks \<noteq> []"
      using saved(1) [OF last_in_set [OF False]] read by blast
    have path: "chained (bc_blocks bc2) (last (bc_hashes bc2)) ?ks"
      using chained_cong [of "bc_blocks bc" "bc_blocks bc2" h0 ?ks] links ch bc2(1) by (simp add: fun_eq_iff)
    have unnum: "\<forall>k \<in> set ?ks. not_numbered (bc_blocks bc2) k"
      using at2 disj by (auto simp: not_numbered_def header_at_def)
    note calc = calcBlockchain_path [OF inv2(1) path unnum False]
    let ?bc = "bc2\<lparr>bc_blocks := number_all 0 (rev ?ks) (bc_blocks bc2)\<rparr>"
    have "chained (bc_blocks ?bc) (last (bc_hashes ?bc)) ?ks"
      using chained_cong [OF calc(5) [symmetric] path] by simp
    moreover have "length (bc_hashes bc2) + length ?ks < 2 ^ 64"
      using inv(1) bc2(1) hs by (metis chain_inv_def length_Cons list.size(3) add.commute plus_1_eq_Suc One_nat_def)
    ultimately show ?thesis
      using fold_append_block [of ?bc ?ks] calc inv_frame [OF calc(4)] inv2 bc2(1) hs last len \<open>last ?ks \<noteq> []\<close> links
      by (simp add: loaded fun_eq_iff)
  qed
  then show ?thesis
    using find_chain_metadata [OF ok small meta] same_chain [OF inv(1)] by blast
qed

subsection \<open>Runs\<close>

text \<open>
  A run of the synchronisation on an empty database: blocks are handled, and the workers commit
  their batches, which hold neither headers of blocks nor the metadata. A handler that raises is not
  a step: \<open>process\<close> logs the exception and asks for the next block, and from then on the chain in
  memory may be ahead of the database. The first block follows the genesis block.
\<close>

definition first_block_linked :: "bytes \<Rightarrow> BlockChain \<Rightarrow> NextBlock \<Rightarrow> bool" where
  "first_block_linked h0 bc nb =
     (case nb of
        SimpleBlock bi \<Rightarrow> bh_blockNumber (bi_header bi) = None \<and>
          (length (bc_hashes bc) = 1 \<longrightarrow> bh_prevHash (bi_header bi) = h0)
      | _ \<Rightarrow> True)"

definition worker_writes :: "db_write list \<Rightarrow> bool" where
  "worker_writes ws \<longleftrightarrow> (\<forall>w \<in> set ws. wr_prefix w \<noteq> BLOCK_PREFIX \<and> wr_prefix w \<noteq> KEY_BLOCK_METADATA)"

inductive sync_run ::
  "'d leveldb \<Rightarrow> ('d \<Rightarrow> bytes \<rightharpoonup> bytes) \<Rightarrow> (bytes \<Rightarrow> bytes result) \<Rightarrow> sync_conf \<Rightarrow> bytes \<Rightarrow> 'd SyncImpl \<Rightarrow> bool"
  for L contents fromHex conf h0 where
  start: "BlockChain_new fromHex = Inr (sy_blockchain s) \<Longrightarrow> contents (sy_leveldb s) = (\<lambda>_. None) \<Longrightarrow>
    sync_run L contents fromHex conf h0 s"
| block: "sync_run L contents fromHex conf h0 s \<Longrightarrow> first_block_linked h0 (sy_blockchain s) nb \<Longrightarrow>
    length (bc_hashes (sy_blockchain s)) + 1 < 2 ^ 64 \<Longrightarrow>
    handle_block L conf isNoDefaultSource (nb, dump) s = (s', Inr h) \<Longrightarrow> small_records (contents (sy_leveldb s')) \<Longrightarrow>
    sync_run L contents fromHex conf h0 s'"
| worker: "sync_run L contents fromHex conf h0 s \<Longrightarrow> worker_writes ws \<Longrightarrow> batch_writes ws Batch_new = Inr b \<Longrightarrow>
    addBatch L b (sy_leveldb s) = (d', Inr ()) \<Longrightarrow> small_records (contents d') \<Longrightarrow>
    sync_run L contents fromHex conf h0 (s\<lparr>sy_leveldb := d'\<rparr>)"

lemma stored_chain_new:
  assumes "BlockChain_new fromHex = Inr bc" and "fromHex GENESIS_BLOCK_HASH = Inr h0" and "h0 \<noteq> []"
  shows "stored_chain (\<lambda>_. None) h0 bc"
  using assms new_chain [of fromHex h0 bc]
  by (auto simp: stored_chain_def BlockChain_new_def initialize_def BlockChain_empty_def Let_def genesis_block_def chain_metadata_def)

lemma handle_simple_chain:
  assumes "handle_simple L conf nd bi dump s = (s', Inr h)"
  obtains (refused) bi' :: BlockInfo where "bh_hash (bi_header bi') = bh_hash (bi_header bi)" and "bh_prevHash (bi_header bi') = bh_prevHash (bi_header bi)"
      and "bh_blockNumber (bi_header bi') = bh_blockNumber (bi_header bi)"
      and "addBlock (bi_header bi') (sy_blockchain s) = (sy_blockchain s', Inr None)" and "sy_leveldb s' = sy_leveldb s"
    | (extended) bi' bi'' :: BlockInfo and n tk el where "bh_hash (bi_header bi') = bh_hash (bi_header bi)" and "bh_prevHash (bi_header bi') = bh_prevHash (bi_header bi)"
      and "bh_blockNumber (bi_header bi') = bh_blockNumber (bi_header bi)"
      and "addBlock (bi_header bi') (sy_blockchain s) = (sy_blockchain s', Inr (Some n))"
      and "bi_header bi'' = (bi_header bi')\<lparr>bh_blockNumber := Some n\<rparr>"
      and "saveBlockToLeveldb L (sc_modules conf) bi'' tk el (sy_leveldb s) = (sy_leveldb s', Inr ())"
proof -
  obtain disk bi' where bi': "saveTransactions bi dump (sc_isSaveBlockToFiles conf \<and> \<not> nd) (sy_disk s) = Inr (disk, bi')"
    using assms by (auto simp: handle_simple_def split: sum.splits)
  have same: "bh_hash (bi_header bi') = bh_hash (bi_header bi)" "bh_prevHash (bi_header bi') = bh_prevHash (bi_header bi)"
      "bh_blockNumber (bi_header bi') = bh_blockNumber (bi_header bi)"
    using bi' by (auto simp: saveTransactions_def bindE_Inr_iff Let_def split: if_splits prod.splits)
  obtain bc r where add: "addBlock (bi_header bi') (sy_blockchain s) = (bc, Inr r)"
    using assms bi' by (auto simp: handle_simple_def split: prod.splits sum.splits option.splits)
  show ?thesis
  proof (cases r)
    case None
    then show ?thesis
      using assms bi' add same by (intro refused [of bi']) (auto simp: handle_simple_def)
  next
    case (Some n)
    let ?bi = "bi'\<lparr>bi_header := (bi_header bi')\<lparr>bh_blockNumber := Some n\<rparr>,
      bi_txs := map (\<lambda>tx. tx\<lparr>tx_blockNumber := n\<rparr>) (bi_txs bi')\<rparr>"
    obtain tk el where "snd (saveBlockToLeveldb L (sc_modules conf) ?bi tk el (sy_leveldb s)) = Inr ()"
          "sy_leveldb s' = fst (saveBlockToLeveldb L (sc_modules conf) ?bi tk el (sy_leveldb s))" "sy_blockchain s' = bc"
      using Some assms bi' add
      by (auto simp: handle_simple_def handle_added_def save_handled_def Let_def bindE_Inr_iff split: if_splits prod.splits sum.splits)
    then show ?thesis
      using Some add same by (intro extended [of bi' n ?bi tk el]) (simp_all add: prod_eq_iff)
  qed
qed

lemma handle_sign_chain:
  assumes "leveldb_ok L contents" and "handle_sign L conf nd bi dump s = (s', Inr h)"
    and "stored_chain (contents (sy_leveldb s)) h0 (sy_blockchain s)"
  shows "stored_chain (contents (sy_leveldb s')) h0 (sy_blockchain s')"
proof -
  obtain bi' tk el where "snd (saveSignBlockToLeveldb L (sc_modules conf) bi' tk el (sy_leveldb s)) = Inr ()"
      and "sy_leveldb s' = fst (saveSignBlockToLeveldb L (sc_modules conf) bi' tk el (sy_leveldb s))"
      and "sy_blockchain s' = sy_blockchain s"
    using assms(2) by (auto simp: handle_sign_def save_handled_def Let_def bindE_Inr_iff split: prod.splits sum.splits)
  then show ?thesis
    using saved_sign_block [OF assms(1,3)] by (metis prod.collapse)
qed

lemma handle_block_chain:
  assumes ok: "leveldb_ok L contents" "MODULE_BLOCK (sc_modules conf)"
    and st: "stored_chain (contents (sy_leveldb s)) h0 (sy_blockchain s)" "small_records (contents (sy_leveldb s))"
    and nb: "first_block_linked h0 (sy_blockchain s) nb" "length (bc_hashes (sy_blockchain s)) + 1 < 2 ^ 64"
    and step: "handle_block L conf nd (nb, dump) s = (s', Inr h)"
  shows "stored_chain (contents (sy_leveldb s')) h0 (sy_blockchain s')"
proof (cases nb)
  case (SimpleBlock bi)
  have first: "bh_blockNumber (bi_header bi) = None" "length (bc_hashes (sy_blockchain s)) = 1 \<Longrightarrow> bh_prevHash (bi_header bi) = h0"
    using nb(1) SimpleBlock by (simp_all add: first_block_linked_def)
  have "handle_simple L conf nd bi dump s = (s', Inr h)"
    using step SimpleBlock by simp
  then show ?thesis
  proof (cases rule: handle_simple_chain)
    case (refused bi')
    then show ?thesis
      using stored_chain_refused [OF st(1) _ _ nb(2)] first(1) by simp
  next
    case (extended bi' bi'' n tk el)
    then show ?thesis
      using stored_chain_step [OF ok(1) st extended(4) _ _ nb(2) ok(2) extended(5,6)] first by simp
  qed
next
  case (SignBlock bi)
  then show ?thesis
    using handle_sign_chain [OF ok(1) _ st(1)] step by simp
next
  case (RejectedBlock bi)
  then show ?thesis
    using step by simp
qed

lemma sync_run_stored:
  assumes "sync_run L contents fromHex conf h0 s" and "leveldb_ok L contents" and "MODULE_BLOCK (sc_modules conf)"
    and "fromHex GENESIS_BLOCK_HASH = Inr h0" and "h0 \<noteq> []"
  shows "stored_chain (contents (sy_leveldb s)) h0 (sy_blockchain s) \<and> small_records (contents (sy_leveldb s))"
  using assms(1)
proof induction
  case (start s)
  then show ?case
    using stored_chain_new [of fromHex "sy_blockchain s" h0] assms(4,5) by (simp add: small_records_def)
next
  case (block s nb nd dump s' h)
  then show ?case
    using handle_block_chain [OF assms(2,3)] by blast
next
  case (worker s ws b d')
  then show ?case
    using stored_chain_batch [OF assms(2) _ worker(3) _ worker(4)] by (simp add: worker_writes_def)
qed

subsection \<open>Properties\<close>


definition sample_next :: NextBlock where
  "sample_next = SimpleBlock \<lparr>bi_header = BlockHeader_default\<lparr>bh_hash := [1], bh_prevHash := [9], bh_txsHash := [2], bh_blockSize := 3,
     bh_blockType := 1, bh_filePos := \<lparr>fp_pos = 0, fp_fileNameRelative = [7]\<rparr>\<rparr>, bi_txs = []\<rparr>"

definition sample_sync :: "sample_store SyncImpl" where
  "sample_sync = \<lparr>sy_leveldb = [], sy_disk = [],
     sy_blockchain = \<lparr>bc_blocks = [([9], genesis_block [9])], bc_hashes = [[9]], bc_lastStateBlock = 0\<rparr>,
     sy_timeline = BlocksTimeline_empty, sy_queued = []\<rparr>"

definition sample_conf :: sync_conf where
  "sample_conf = \<lparr>sc_modules = Modules_none\<lparr>MODULE_BLOCK := True\<rparr>, sc_isSaveBlockToFiles = False\<rparr>"

definition sample_handled :: "sample_store SyncImpl \<times> handled result" where
  "sample_handled = handle_block sample_leveldb sample_conf False (sample_next, []) sample_sync"


end
