(* ===== verification/P2P.thy ===== *)
theory P2P
  imports OrderedMap
begin

section \<open>Distributed requests (QueueP2P, P2PThread, P2P_Impl, P2P_Ips, P2P_Graph)\<close>

text \<open>
  A large answer is fetched in segments, by several threads from several servers. The segments wait
  in a queue that the threads share; a segment is given to more than one server when there is
  nothing else to do, the first answer counts, and a segment that every server has failed to answer
  makes the whole request fail.

  The operations of the queue are atomic (each holds the mutex). A task is a step relation whose
  steps are those of the threads between two such operations, in any order: adding a segment, taking
  one, storing an answer, removing the segment, recording an error. What a server answers is a
  relation, \<open>replies server segment\<close>; the network itself is not modelled.
\<close>

subsection \<open>Segments\<close>

record Segment =
  sg_fromByte :: u64
  sg_toByte :: u64
  sg_posInArray :: u64

text \<open>The loop and the last segment; the number of turns left, the index and \<open>prevByte\<close>.\<close>

primrec segments_loop :: "u64 \<Rightarrow> u64 \<Rightarrow> nat \<Rightarrow> u64 \<Rightarrow> u64 \<Rightarrow> Segment list" where
  "segments_loop step size' 0 i prevByte =
     [\<lparr>sg_fromByte = prevByte, sg_toByte = size', sg_posInArray = i\<rparr>]"
| "segments_loop step size' (Suc n) i prevByte =
     (let nextByte = min (prevByte + step) size'
      in \<lparr>sg_fromByte = prevByte, sg_toByte = nextByte, sg_posInArray = i\<rparr> #
         segments_loop step size' n (i + 1) nextByte)"

definition makeSegments :: "u64 \<Rightarrow> u64 \<Rightarrow> u64 \<Rightarrow> Segment list result" where
  "makeSegments countSegments size' minSize =
     (if countSegments = 0 then Inl Undefined
      else
        let step = min size' (max (size' div countSegments) minSize)
        in bindE (CHECK (step \<noteq> 0) ''step == 0'') (\<lambda>_.
           Inr (segments_loop step size' (unat (countSegments - 1)) 0 0)))"

subsection \<open>QueueP2P\<close>

text \<open>An element is shared between the queue and the threads, which hold weak pointers to it:
  \<open>qe_id\<close> is its identity, and a weak pointer is dead as soon as the element has left the queue.
  \<open>qu_count\<close> is the number of elements that were ever created.\<close>

record QueueElement =
  qe_id :: nat
  qe_segment :: Segment
  qe_servers :: "bytes set"
  qe_errorServers :: "bytes set"

record QueueP2P =
  qu_queue :: "QueueElement list"
  qu_isStopped :: bool
  qu_isError :: bool
  qu_taskId :: u64
  qu_count :: nat

definition QueueP2P_new :: QueueP2P where
  "QueueP2P_new = \<lparr>qu_queue = [], qu_isStopped = True, qu_isError = False, qu_taskId = 0, qu_count = 0\<rparr>"

definition addElement :: "Segment \<Rightarrow> QueueP2P \<Rightarrow> QueueP2P result" where
  "addElement segment q =
     bindE (CHECK (\<not> qu_isStopped q) ''Already stopped'') (\<lambda>_.
     Inr (q\<lparr>qu_queue := qu_queue q @
              [\<lparr>qe_id = qu_count q, qe_segment = segment, qe_servers = {}, qe_errorServers = {}\<rparr>],
            qu_count := Suc (qu_count q)\<rparr>))"

text \<open>\<open>getElement\<close> waits until it can return; the state is that in which it is woken. It searches
  from the end, and moves the element to the front.\<close>

datatype get_result = Get_waits | Get_closed | Get_element nat

definition getElement :: "(Segment \<Rightarrow> bytes set \<Rightarrow> bool) \<Rightarrow> bytes \<Rightarrow> u64 \<Rightarrow> QueueP2P \<Rightarrow> (QueueP2P \<times> get_result) result" where
  "getElement predicate currentServer taskId q =
     bindE (CHECK (taskId \<le> qu_taskId q) ''Ups'') (\<lambda>_.
     if taskId \<noteq> qu_taskId q then Inr (q, Get_closed)
     else if qu_isStopped q then Inr (q, Get_closed)
     else case find (\<lambda>el. predicate (qe_segment el) (qe_servers el)) (rev (qu_queue q)) of
            None \<Rightarrow> Inr (q, Get_waits)
          | Some el \<Rightarrow>
              let el' = el\<lparr>qe_servers := insert currentServer (qe_servers el)\<rparr>
              in Inr (q\<lparr>qu_queue := el' # filter (\<lambda>e. qe_id e \<noteq> qe_id el) (qu_queue q)\<rparr>, Get_element (qe_id el)))"

text \<open>Dereferencing a weak pointer.\<close>

definition lock_element :: "nat \<Rightarrow> QueueP2P \<Rightarrow> QueueElement option" where
  "lock_element element q = find (\<lambda>el. qe_id el = element) (qu_queue q)"

definition getSegment :: "nat \<Rightarrow> QueueP2P \<Rightarrow> Segment option" where
  "getSegment element q = map_option qe_segment (lock_element element q)"

definition removeElementInternal :: "nat \<Rightarrow> QueueP2P \<Rightarrow> QueueP2P" where
  "removeElementInternal element q =
     (case lock_element element q of
        None \<Rightarrow> q
      | Some el \<Rightarrow> q\<lparr>qu_queue := filter (\<lambda>e. qe_id e \<noteq> element) (qu_queue q)\<rparr>)"

definition removeElement :: "nat \<Rightarrow> QueueP2P \<Rightarrow> QueueP2P" where
  "removeElement element q = removeElementInternal element q"

definition removeElementError :: "nat \<Rightarrow> QueueP2P \<Rightarrow> QueueP2P" where
  "removeElementError element q = (removeElementInternal element q)\<lparr>qu_isError := True\<rparr>"

definition errorElement :: "nat \<Rightarrow> bytes \<Rightarrow> QueueP2P \<Rightarrow> QueueP2P \<times> nat" where
  "errorElement element server q =
     (case lock_element element q of
        None \<Rightarrow> (q, 0)
      | Some el \<Rightarrow>
          let el' = el\<lparr>qe_errorServers := insert server (qe_errorServers el)\<rparr>
          in (q\<lparr>qu_queue := map (\<lambda>e. if qe_id e = element then el' else e) (qu_queue q)\<rparr>, card (qe_errorServers el')))"

definition queue_stop :: "QueueP2P \<Rightarrow> QueueP2P" where
  "queue_stop q = q\<lparr>qu_isStopped := True, qu_isError := False\<rparr>"

text \<open>\<open>start\<close> changes the queue also when the second check fails.\<close>

definition queue_start :: "u64 \<Rightarrow> QueueP2P \<Rightarrow> QueueP2P \<times> unit result" where
  "queue_start taskId q =
     (if \<not> qu_isStopped q then (q, Inl (Check ''Already started''))
      else
        let q = q\<lparr>qu_isStopped := False, qu_isError := False\<rparr>
        in if taskId \<le> qu_taskId q then (q, Inl (Check ''Incorrect sequences task''))
           else (q\<lparr>qu_taskId := taskId\<rparr>, Inr ()))"

definition started :: "QueueP2P \<Rightarrow> u64 option" where
  "started q = (if qu_isStopped q then None else Some (qu_taskId q))"

text \<open>The condition \<open>waitEmpty\<close> waits for.\<close>

definition waitEmpty_returns :: "QueueP2P \<Rightarrow> bool" where
  "waitEmpty_returns q \<longleftrightarrow> qu_isStopped q \<or> qu_queue q = []"

definition queue_error :: "QueueP2P \<Rightarrow> bool result" where
  "queue_error q = bindE (CHECK (\<not> qu_isStopped q) ''Already stopped'') (\<lambda>_. Inr (qu_isError q))"

subsection \<open>P2PThread\<close>

text \<open>
  Where a thread stands in the loop of \<open>work\<close>: before \<open>getElement\<close>, with the element it was given,
  in the request, behind \<open>processResponse\<close>, in the \<open>catch\<close> block, and behind \<open>errorElement\<close> when
  all servers have failed. \<open>Old\<close>: still in the request of a former task, whose element is gone and
  whose callbacks are destroyed. \<open>Dead\<close>: \<open>work\<close> has returned, since an exception left its loop.
\<close>

datatype phase = Idle | Old | Dead | Taken nat | Requesting nat Segment | Answered nat | Failed nat | Giving_up nat

record P2PThread =
  th_currentServer :: bytes
  th_taskNumber :: u64
  th_countUniqueServers :: nat
  th_phase :: phase

definition P2PThread_new :: P2PThread where
  "P2PThread_new = \<lparr>th_currentServer = [], th_taskNumber = 0, th_countUniqueServers = 0, th_phase = Idle\<rparr>"

definition newTask :: "u64 \<Rightarrow> bytes \<Rightarrow> nat \<Rightarrow> QueueP2P \<Rightarrow> P2PThread \<Rightarrow> P2PThread result" where
  "newTask taskNum server countUniqueServers q t =
     bindE (CHECK (started q = Some taskNum) ''Queue not started'') (\<lambda>_.
     bindE (CHECK (th_taskNumber t < taskNum) ''Incorrect sequences task'') (\<lambda>_.
     Inr (t\<lparr>th_taskNumber := taskNum, th_currentServer := server, th_countUniqueServers := countUniqueServers\<rparr>)))"

text \<open>\<open>P2P_Impl::request\<close>. What the server behind an address may answer is \<open>replies\<close>.\<close>

definition request_may :: "(bytes \<Rightarrow> bytes \<Rightarrow> bytes result \<Rightarrow> bool) \<Rightarrow> bytes \<times> bytes \<Rightarrow> bytes \<Rightarrow> bytes result \<Rightarrow> bool" where
  "request_may replies qsPost server r \<longleftrightarrow>
     (if server = [] then r = Inl (Check ''server empty'')
      else replies ((if last server \<noteq> 47 then server @ [47] else server) @ fst qsPost) (snd qsPost) r)"

subsection \<open>What is done with an answer\<close>

record ResponseParse =
  rp_response :: bytes
  rp_error :: "string option"

text \<open>The checks of \<open>processResponse\<close>, and the rest of it.\<close>

definition accept_response ::
  "(bytes \<Rightarrow> u64 \<Rightarrow> u64 \<Rightarrow> ResponseParse result) \<Rightarrow> bool \<Rightarrow> bytes \<Rightarrow> Segment \<Rightarrow> bytes result" where
  "accept_response responseParse isPrecisionSize response segment =
     bindE (responseParse response (sg_fromByte segment) (sg_toByte segment)) (\<lambda>parsed.
     bindE (case rp_error parsed of None \<Rightarrow> Inr () | Some e \<Rightarrow> Inl (Check e)) (\<lambda>_.
     bindE (if isPrecisionSize
            then CHECK (size_of (rp_response parsed) = sg_toByte segment - sg_fromByte segment) ''Incorrect response size''
            else Inr ()) (\<lambda>_.
     Inr (rp_response parsed))))"

definition store_answer :: "Segment \<Rightarrow> bytes \<Rightarrow> bytes list \<Rightarrow> (bytes list \<times> bool) result" where
  "store_answer segment parsed answers =
     (let pos = unat (sg_posInArray segment)
      in if length answers \<le> pos then Inl OutOfRange
         else if answers ! pos = [] then Inr (answers[pos := parsed], True)
         else Inr (answers, False))"

definition processResponse ::
  "(bytes \<Rightarrow> u64 \<Rightarrow> u64 \<Rightarrow> ResponseParse result) \<Rightarrow> bool \<Rightarrow> bytes \<Rightarrow> Segment \<Rightarrow> bytes list \<Rightarrow> (bytes list \<times> bool) result" where
  "processResponse responseParse isPrecisionSize response segment answers =
     bindE (accept_response responseParse isPrecisionSize response segment) (\<lambda>parsed.
     store_answer segment parsed answers)"

subsection \<open>A turn of a thread\<close>

record p2p_env =
  pe_makeQsAndPost :: "u64 \<Rightarrow> u64 \<Rightarrow> (bytes \<times> bytes) result"
  pe_responseParse :: "bytes \<Rightarrow> u64 \<Rightarrow> u64 \<Rightarrow> ResponseParse result"
  pe_isPrecisionSize :: bool
  pe_replies :: "bytes \<Rightarrow> bytes \<Rightarrow> bytes result \<Rightarrow> bool"

fun is_check :: "error \<Rightarrow> bool" where
  "is_check (Check msg) = True"
| "is_check e = False"

abbreviation set_phase :: "phase \<Rightarrow> P2PThread \<Rightarrow> P2PThread" where
  "set_phase ph t \<equiv> t\<lparr>th_phase := ph\<rparr>"

text \<open>The request and \<open>processResponse\<close>, the body of the inner \<open>try\<close>.\<close>

definition respond :: "p2p_env \<Rightarrow> bytes \<Rightarrow> Segment \<Rightarrow> bytes list \<Rightarrow> (bytes list \<times> bool) result \<Rightarrow> bool" where
  "respond E server segment answers r \<longleftrightarrow>
     (\<exists>qsPost response. pe_makeQsAndPost E (sg_fromByte segment) (sg_toByte segment) = Inr qsPost \<and>
        request_may (pe_replies E) qsPost server response \<and>
        r = bindE response (\<lambda>response.
              processResponse (pe_responseParse E) (pe_isPrecisionSize E) response segment answers))"

inductive work_step ::
  "p2p_env \<Rightarrow> P2PThread \<times> QueueP2P \<times> bytes list \<Rightarrow> P2PThread \<times> QueueP2P \<times> bytes list \<Rightarrow> bool" for E where
  take_element: "th_phase t = Idle \<Longrightarrow>
    getElement (\<lambda>segment servers. th_currentServer t \<notin> servers) (th_currentServer t) (th_taskNumber t) q = Inr (q', Get_element el) \<Longrightarrow>
    work_step E (t, q, answers) (set_phase (Taken el) t, q', answers)"
| element_gone: "th_phase t = Taken el \<Longrightarrow> getSegment el q = None \<Longrightarrow>
    work_step E (t, q, answers) (set_phase Idle t, q, answers)"
| send_request: "th_phase t = Taken el \<Longrightarrow> getSegment el q = Some segment \<Longrightarrow>
    pe_makeQsAndPost E (sg_fromByte segment) (sg_toByte segment) = Inr qsPost \<Longrightarrow>
    work_step E (t, q, answers) (set_phase (Requesting el segment) t, q, answers)"
| no_request: "th_phase t = Taken el \<Longrightarrow> getSegment el q = Some segment \<Longrightarrow>
    pe_makeQsAndPost E (sg_fromByte segment) (sg_toByte segment) = Inl e \<Longrightarrow>
    work_step E (t, q, answers) (set_phase Dead t, q, answers)"
| answer_stored: "th_phase t = Requesting el segment \<Longrightarrow>
    respond E (th_currentServer t) segment answers (Inr (answers', stored)) \<Longrightarrow>
    work_step E (t, q, answers) (set_phase (Answered el) t, q, answers')"
| request_failed: "th_phase t = Requesting el segment \<Longrightarrow> respond E (th_currentServer t) segment answers (Inl (Check msg)) \<Longrightarrow>
    work_step E (t, q, answers) (set_phase (Failed el) t, q, answers)"
| thread_killed: "th_phase t = Requesting el segment \<Longrightarrow> respond E (th_currentServer t) segment answers (Inl e) \<Longrightarrow>
    \<not> is_check e \<Longrightarrow> work_step E (t, q, answers) (set_phase Dead t, q, answers)"
| element_done: "th_phase t = Answered el \<Longrightarrow>
    work_step E (t, q, answers) (set_phase Idle t, removeElement el q, answers)"
| error_counted: "th_phase t = Failed el \<Longrightarrow> errorElement el (th_currentServer t) q = (q', countErrors) \<Longrightarrow>
    work_step E (t, q, answers)
      (set_phase (if th_countUniqueServers t \<le> countErrors then Giving_up el else Idle) t, q', answers)"
| element_given_up: "th_phase t = Giving_up el \<Longrightarrow>
    work_step E (t, q, answers) (set_phase Idle t, removeElementError el q, answers)"
| old_request: "th_phase t = Old \<Longrightarrow> work_step E (t, q, answers) (set_phase Idle t, q, answers)"

subsection \<open>P2P_Impl\<close>

record ThreadDistribution =
  td_from :: u64
  td_to :: u64
  td_server :: bytes

record P2P_Impl =
  pi_taskId :: u64
  pi_queue :: QueueP2P
  pi_threads :: "P2PThread list"

definition P2P_Impl_new :: "u64 \<Rightarrow> P2P_Impl" where
  "P2P_Impl_new countThreads =
     \<lparr>pi_taskId = 1, pi_queue = QueueP2P_new, pi_threads = replicate (unat countThreads) P2PThread_new\<rparr>"

definition countUnique :: "ThreadDistribution list \<Rightarrow> nat" where
  "countUnique elements = length (remdups_adj (sort (map td_server elements)))"

text \<open>The threads of a distribution, in the order in which they get the task.\<close>

definition assignments :: "ThreadDistribution list \<Rightarrow> (nat \<times> bytes) list" where
  "assignments distribution =
     concat (map (\<lambda>distr. map (\<lambda>index. (index, td_server distr)) [unat (td_from distr)..<unat (td_to distr)]) distribution)"

fun new_tasks :: "u64 \<Rightarrow> nat \<Rightarrow> QueueP2P \<Rightarrow> (nat \<times> bytes) list \<Rightarrow> P2PThread list \<Rightarrow> P2PThread list \<times> unit result" where
  "new_tasks taskId count q [] threads = (threads, Inr ())"
| "new_tasks taskId count q ((index, server) # rest) threads =
     (if length threads \<le> index then (threads, Inl (Check ''Incorrect thread number''))
      else case newTask taskId server count q (threads ! index) of
             Inl e \<Rightarrow> (threads, Inl e)
           | Inr t \<Rightarrow> new_tasks taskId count q rest (threads[index := t]))"

text \<open>\<open>process\<close> up to the loop that adds the segments, and from the end of \<open>waitEmpty\<close> on.\<close>

definition process_begin :: "ThreadDistribution list \<Rightarrow> P2P_Impl \<Rightarrow> P2P_Impl \<times> unit result" where
  "process_begin distribution p =
     (case queue_start (pi_taskId p) (pi_queue p) of
        (q, Inl e) \<Rightarrow> (p\<lparr>pi_queue := q\<rparr>, Inl e)
      | (q, Inr _) \<Rightarrow>
          (case new_tasks (pi_taskId p) (countUnique distribution) q (assignments distribution) (pi_threads p) of
             (threads, r) \<Rightarrow> (p\<lparr>pi_queue := q, pi_threads := threads\<rparr>, r)))"

text \<open>When the callbacks are destroyed and the queue is empty, a thread that is not waiting is in a
  request of a former task.\<close>

fun forget_task :: "phase \<Rightarrow> phase" where
  "forget_task Idle = Idle"
| "forget_task Dead = Dead"
| "forget_task ph = Old"

definition process_end :: "P2P_Impl \<Rightarrow> P2P_Impl \<times> bool result" where
  "process_end p =
     (case queue_error (pi_queue p) of
        Inl e \<Rightarrow> (p, Inl e)
      | Inr isError \<Rightarrow> (p\<lparr>pi_queue := queue_stop (pi_queue p), pi_taskId := pi_taskId p + 1,
                       pi_threads := map (\<lambda>t. set_phase (forget_task (th_phase t)) t) (pi_threads p)\<rparr>, Inr (\<not> isError)))"

text \<open>A task in between: the segments that are not added yet, and the answers so far.\<close>

record task =
  ta_impl :: P2P_Impl
  ta_todo :: "Segment list"
  ta_answers :: "bytes list"

inductive task_step :: "p2p_env \<Rightarrow> task \<Rightarrow> task \<Rightarrow> bool" for E where
  add_segment: "ta_todo s = segment # rest \<Longrightarrow> addElement segment (pi_queue (ta_impl s)) = Inr q \<Longrightarrow>
    task_step E s (s\<lparr>ta_impl := (ta_impl s)\<lparr>pi_queue := q\<rparr>, ta_todo := rest\<rparr>)"
| thread_works: "i < length (pi_threads (ta_impl s)) \<Longrightarrow>
    work_step E (pi_threads (ta_impl s) ! i, pi_queue (ta_impl s), ta_answers s) (t, q, answers) \<Longrightarrow>
    task_step E s (s\<lparr>ta_impl := (ta_impl s)\<lparr>pi_queue := q, pi_threads := (pi_threads (ta_impl s))[i := t]\<rparr>, ta_answers := answers\<rparr>)"

definition task_finished :: "task \<Rightarrow> bool" where
  "task_finished s \<longleftrightarrow> ta_todo s = [] \<and> waitEmpty_returns (pi_queue (ta_impl s))"

subsection \<open>Requests (P2P_Ips, P2P_Graph)\<close>

record P2P_Ips =
  ps_p2p :: P2P_Impl
  ps_servers :: "bytes list"
  ps_countConnections :: u64

definition P2P_Ips_new :: "bytes list \<Rightarrow> u64 \<Rightarrow> P2P_Ips result" where
  "P2P_Ips_new servers countConnections =
     bindE (CHECK (countConnections \<noteq> 0) ''Incorrect count connections: 0'') (\<lambda>_.
     Inr \<lparr>ps_p2p = P2P_Impl_new (countConnections * of_nat (length servers)), ps_servers = servers,
       ps_countConnections = countConnections\<rparr>)"

definition getMaxServersCount :: "P2P_Ips \<Rightarrow> bytes list \<Rightarrow> u64" where
  "getMaxServersCount s srvrs = ps_countConnections s * of_nat (length srvrs)"

fun index_of :: "bytes \<Rightarrow> bytes list \<Rightarrow> nat option" where
  "index_of srv [] = None"
| "index_of srv (x # xs) = (if x = srv then Some 0 else map_option Suc (index_of srv xs))"

fun server_list :: "P2P_Ips \<Rightarrow> u64 \<Rightarrow> bytes list \<Rightarrow> ThreadDistribution list result" where
  "server_list s currConnections [] = Inr []"
| "server_list s currConnections (srv # srves) =
     (case index_of srv (ps_servers s) of
        None \<Rightarrow> Inl (Check ''where did this come from?'')
      | Some index \<Rightarrow>
          let from = of_nat index * ps_countConnections s
          in bindE (server_list s currConnections srves) (\<lambda>result.
             Inr (\<lparr>td_from = from, td_to = from + currConnections, td_server = srv\<rparr> # result)))"

definition getServersList :: "P2P_Ips \<Rightarrow> bytes list \<Rightarrow> u64 \<Rightarrow> ThreadDistribution list result" where
  "getServersList s srves countSegments =
     (if srves = [] then Inl Undefined
      else
        let n = of_nat (length srves);
            currConnections = min ((countSegments + n - 1) div n) (ps_countConnections s)
        in bindE (CHECK (currConnections \<le> ps_countConnections s) ''Ups'') (\<lambda>_.
           server_list s currConnections srves))"

definition count_segments :: "u64 \<Rightarrow> u64 \<Rightarrow> u64 \<Rightarrow> u64" where
  "count_segments responseSize minResponseSize maxServers =
     (if minResponseSize = 1 then responseSize
      else min ((responseSize + minResponseSize - 1) div minResponseSize) maxServers)"

text \<open>\<open>requestImpl\<close> up to the wait: the task it starts. \<open>P2P_Graph\<close> differs in the distribution.\<close>

definition start_task :: "u64 \<Rightarrow> u64 \<Rightarrow> u64 \<Rightarrow> ThreadDistribution list result \<Rightarrow> P2P_Impl \<Rightarrow> P2P_Impl \<times> task result" where
  "start_task responseSize minResponseSize countSegments requestServers p =
     (case bindE requestServers (\<lambda>distribution. bindE (makeSegments countSegments responseSize minResponseSize) (\<lambda>segments.
             Inr (distribution, segments))) of
        Inl e \<Rightarrow> (p, Inl e)
      | Inr (distribution, segments) \<Rightarrow>
          (case process_begin distribution p of
             (p, Inl e) \<Rightarrow> (p, Inl e)
           | (p, Inr _) \<Rightarrow>
               (p, Inr \<lparr>ta_impl = p, ta_todo = segments, ta_answers = replicate (unat countSegments) []\<rparr>)))"

definition requestImpl_begin :: "u64 \<Rightarrow> u64 \<Rightarrow> P2P_Ips \<Rightarrow> P2P_Impl \<times> task result" where
  "requestImpl_begin responseSize minResponseSize s =
     (if responseSize = 0 then (ps_p2p s, Inl (Check ''response size 0''))
      else
        let countSegments = count_segments responseSize minResponseSize (getMaxServersCount s (ps_servers s))
        in start_task responseSize minResponseSize countSegments (getServersList s (ps_servers s) countSegments) (ps_p2p s))"

definition graph_requestImpl_begin :: "u64 \<Rightarrow> u64 \<Rightarrow> bytes list \<Rightarrow> u64 \<Rightarrow> P2P_Impl \<Rightarrow> P2P_Impl \<times> task result" where
  "graph_requestImpl_begin responseSize minResponseSize hintsServers countConnections p =
     (if responseSize = 0 then (p, Inl (Check ''response size 0''))
      else if length hintsServers \<noteq> 1 then (p, Inl (Check ''Incorrect hint servers''))
      else
        let countSegments = count_segments responseSize minResponseSize countConnections
        in start_task responseSize minResponseSize countSegments
             (Inr [\<lparr>td_from = 0, td_to = min countConnections countSegments, td_server = hd hintsServers\<rparr>]) p)"

definition requestImpl_end :: "task \<Rightarrow> P2P_Impl \<times> bytes list result" where
  "requestImpl_end s =
     (case process_end (ta_impl s) of
        (p, Inl e) \<Rightarrow> (p, Inl e)
      | (p, Inr isSuccess) \<Rightarrow> (p, bindE (CHECK isSuccess ''dont run request'') (\<lambda>_. Inr (ta_answers s))))"

definition MIN_RESPONSE_SIZE :: u64 where "MIN_RESPONSE_SIZE = 10000"

definition request_end :: "u64 \<Rightarrow> bool \<Rightarrow> task \<Rightarrow> P2P_Impl \<times> bytes result" where
  "request_end responseSize isPrecisionSize s =
     (case requestImpl_end s of
        (p, Inl e) \<Rightarrow> (p, Inl e)
      | (p, Inr answers) \<Rightarrow>
          let response = concat answers
          in (p, bindE (if isPrecisionSize
                        then CHECK (size_of response = responseSize) ''response size != getted response. ''
                        else Inr ()) (\<lambda>_. Inr response)))"

text \<open>\<open>requests\<close>: one segment for each request.\<close>

definition single_request :: "(u64 \<Rightarrow> (bytes \<times> bytes) result) \<Rightarrow> u64 \<Rightarrow> u64 \<Rightarrow> (bytes \<times> bytes) result" where
  "single_request makeQsAndPost from to =
     bindE (CHECK (to = from + 1) ''Incorrect call makeQsAndPortFunc'') (\<lambda>_. makeQsAndPost from)"

definition requests_end :: "u64 \<Rightarrow> task \<Rightarrow> P2P_Impl \<times> bytes list result" where
  "requests_end countRequests s =
     (case requestImpl_end s of
        (p, Inl e) \<Rightarrow> (p, Inl e)
      | (p, Inr answers) \<Rightarrow>
          (p, bindE (CHECK (of_nat (length answers) = countRequests) ''Incorrect count answers'') (\<lambda>_. Inr answers)))"

end
