(* ===== verification/P2PTask.thy ===== *)
theory P2PTask
  imports P2PProps
begin

section \<open>The answers of a distributed request\<close>

text \<open>
  The invariants of a whole task: every segment is still to be added, in the queue, answered, or has
  failed at every server; an answer that is stored is one that was accepted for its segment. From
  these: no state of a task is stuck, a finished one has all answers or the error, and with one
  server that never fails there is no error.
\<close>

subsection \<open>What the servers and the callbacks do\<close>

text \<open>The callbacks can be called for each segment, and with whatever happens only the exception that
  the threads catch is thrown; \<open>accepted\<close> is what is known of an answer that passes the checks.\<close>

definition env_ok :: "p2p_env \<Rightarrow> Segment list \<Rightarrow> bytes set \<Rightarrow> (Segment \<Rightarrow> bytes \<Rightarrow> bool) \<Rightarrow> bool" where
  "env_ok E segments S accepted \<longleftrightarrow>
     (\<forall>sg \<in> set segments. \<exists>qsPost. pe_makeQsAndPost E (sg_fromByte sg) (sg_toByte sg) = Inr qsPost \<and>
        (\<forall>server \<in> S. \<exists>r. request_may (pe_replies E) qsPost server r) \<and>
        (\<forall>server \<in> S. \<forall>e. request_may (pe_replies E) qsPost server (Inl e) \<longrightarrow> is_check e) \<and>
        (\<forall>server \<in> S. \<forall>response. request_may (pe_replies E) qsPost server (Inr response) \<longrightarrow>
           (case accept_response (pe_responseParse E) (pe_isPrecisionSize E) response sg of
              Inl e \<Rightarrow> is_check e | Inr parsed \<Rightarrow> accepted sg parsed)))"

text \<open>A server whose answers to these segments are all accepted.\<close>

definition good_server :: "p2p_env \<Rightarrow> Segment list \<Rightarrow> bytes \<Rightarrow> bool" where
  "good_server E segments server \<longleftrightarrow>
     (\<forall>sg \<in> set segments. \<forall>qsPost r. pe_makeQsAndPost E (sg_fromByte sg) (sg_toByte sg) = Inr qsPost \<longrightarrow>
        request_may (pe_replies E) qsPost server r \<longrightarrow>
        (\<exists>response parsed. r = Inr response \<and> accept_response (pe_responseParse E) (pe_isPrecisionSize E) response sg = Inr parsed))"

definition answered :: "(Segment \<Rightarrow> bytes \<Rightarrow> bool) \<Rightarrow> bytes list \<Rightarrow> Segment \<Rightarrow> bool" where
  "answered accepted answers sg \<longleftrightarrow> accepted sg (answers ! unat (sg_posInArray sg))"

definition positions_ok :: "Segment list \<Rightarrow> bool" where
  "positions_ok segments \<longleftrightarrow> (\<forall>i < length segments. unat (sg_posInArray (segments ! i)) = i)"

lemma position_unique:
  assumes "positions_ok segments" and "sg \<in> set segments" and "sg' \<in> set segments"
    and "unat (sg_posInArray sg) = unat (sg_posInArray sg')"
  shows "sg = sg'"
  using assms unfolding positions_ok_def in_set_conv_nth by metis

lemma position_less:
  assumes "positions_ok segments" and "sg \<in> set segments"
  shows "unat (sg_posInArray sg) < length segments"
  using assms unfolding positions_ok_def in_set_conv_nth by auto

lemma respond_Inr:
  assumes "env_ok E segments S accepted" and "sg \<in> set segments" and "server \<in> S"
    and "respond E server sg answers (Inr (answers', stored))"
  obtains parsed where "accepted sg parsed"
    and "answers' = (if answers ! unat (sg_posInArray sg) = [] then answers[unat (sg_posInArray sg) := parsed] else answers)"
    and "unat (sg_posInArray sg) < length answers"
proof -
  obtain qsPost r where r: "pe_makeQsAndPost E (sg_fromByte sg) (sg_toByte sg) = Inr qsPost" "request_may (pe_replies E) qsPost server r"
      "bindE r (\<lambda>response. processResponse (pe_responseParse E) (pe_isPrecisionSize E) response sg answers) = Inr (answers', stored)"
    using assms(4) unfolding respond_def by metis
  obtain response parsed where p: "r = Inr response"
      "accept_response (pe_responseParse E) (pe_isPrecisionSize E) response sg = Inr parsed"
      "store_answer sg parsed answers = Inr (answers', stored)"
    using r(3) by (auto simp: processResponse_def bindE_Inr_iff)
  have "accepted sg parsed"
    using assms(1-3) r(1,2) p(1,2) unfolding env_ok_def by fastforce
  then show ?thesis
    using that [of parsed] p(3) by (auto simp: store_answer_def Let_def split: if_splits)
qed

lemma respond_check:
  assumes "env_ok E segments S accepted" and "sg \<in> set segments" and "server \<in> S"
    and "unat (sg_posInArray sg) < length answers" and "respond E server sg answers (Inl e)"
  shows "is_check e"
proof -
  obtain qsPost r where r: "pe_makeQsAndPost E (sg_fromByte sg) (sg_toByte sg) = Inr qsPost" "request_may (pe_replies E) qsPost server r"
      "bindE r (\<lambda>response. processResponse (pe_responseParse E) (pe_isPrecisionSize E) response sg answers) = Inl e"
    using assms(5) unfolding respond_def by metis
  show ?thesis
  proof (cases r)
    case (Inl e')
    then show ?thesis
      using assms(1-3) r unfolding env_ok_def by fastforce
  next
    case (Inr response)
    have "store_answer sg parsed answers \<noteq> Inl e" for parsed
      using assms(4) by (simp add: store_answer_def Let_def)
    then have "accept_response (pe_responseParse E) (pe_isPrecisionSize E) response sg = Inl e"
      using r(3) Inr by (cases "accept_response (pe_responseParse E) (pe_isPrecisionSize E) response sg") (auto simp: processResponse_def)
    then show ?thesis
      using assms(1-3) r(1,2) Inr unfolding env_ok_def by fastforce
  qed
qed

lemma respond_total:
  assumes "env_ok E segments S accepted" and "sg \<in> set segments" and "server \<in> S"
  shows "\<exists>r. respond E server sg answers r"
  using assms unfolding env_ok_def respond_def by metis

subsection \<open>The invariant\<close>

definition phase_ok :: "Segment list \<Rightarrow> (Segment \<Rightarrow> bytes \<Rightarrow> bool) \<Rightarrow> QueueP2P \<Rightarrow> bytes list \<Rightarrow> phase \<Rightarrow> bool" where
  "phase_ok segments accepted q answers ph \<longleftrightarrow>
     (case ph of
        Requesting el sg \<Rightarrow> sg \<in> set segments \<and> (\<forall>e \<in> set (qu_queue q). qe_id e = el \<longrightarrow> qe_segment e = sg)
      | Answered el \<Rightarrow> \<forall>e \<in> set (qu_queue q). qe_id e = el \<longrightarrow> answered accepted answers (qe_segment e)
      | Dead \<Rightarrow> False
      | _ \<Rightarrow> True)"

definition inv_answers ::
  "Segment list \<Rightarrow> (Segment \<Rightarrow> bytes \<Rightarrow> bool) \<Rightarrow> Segment list \<Rightarrow> QueueP2P \<Rightarrow> P2PThread list \<Rightarrow> bytes list \<Rightarrow> bool" where
  "inv_answers segments accepted todo q ths answers \<longleftrightarrow>
     positions_ok segments \<and> length answers = length segments \<and> set todo \<subseteq> set segments \<and>
     qe_segment ` set (qu_queue q) \<subseteq> set segments \<and>
     (\<forall>i < length ths. phase_ok segments accepted q answers (th_phase (ths ! i))) \<and>
     (\<forall>sg \<in> set segments. answers ! unat (sg_posInArray sg) = [] \<or> answered accepted answers sg) \<and>
     (\<forall>sg \<in> set segments. sg \<in> set todo \<or> sg \<in> qe_segment ` set (qu_queue q) \<or> answered accepted answers sg \<or> qu_isError q)"

lemma inv_answersD:
  assumes "inv_answers segments accepted todo q ths answers"
  shows "positions_ok segments" and "length answers = length segments" and "set todo \<subseteq> set segments"
    and "e \<in> set (qu_queue q) \<Longrightarrow> qe_segment e \<in> set segments"
    and "i < length ths \<Longrightarrow> phase_ok segments accepted q answers (th_phase (ths ! i))"
    and "sg \<in> set segments \<Longrightarrow> answers ! unat (sg_posInArray sg) = [] \<or> answered accepted answers sg"
    and "sg \<in> set segments \<Longrightarrow> sg \<in> set todo \<or> sg \<in> qe_segment ` set (qu_queue q) \<or> answered accepted answers sg \<or> qu_isError q"
  using assms unfolding inv_answers_def by auto

lemma phase_ok_mono:
  assumes "phase_ok segments accepted q answers ph"
    and "\<And>e'. e' \<in> set (qu_queue q') \<Longrightarrow> element_of ph = Some (qe_id e') \<Longrightarrow>
           \<exists>e \<in> set (qu_queue q). qe_id e = qe_id e' \<and> qe_segment e = qe_segment e'"
    and "\<And>e. e \<in> set (qu_queue q) \<Longrightarrow> answered accepted answers (qe_segment e) \<Longrightarrow> answered accepted answers' (qe_segment e)"
  shows "phase_ok segments accepted q' answers' ph"
proof (cases ph)
  case (Requesting el sg)
  then show ?thesis
    using assms(1,2) by (fastforce simp: phase_ok_def element_of_def)
next
  case (Answered el)
  then show ?thesis
    using assms by (simp add: phase_ok_def element_of_def) metis
qed (use assms(1) in \<open>simp_all add: phase_ok_def\<close>)

lemma inv_answers_step:
  assumes inv: "inv_answers segments accepted todo q ths answers" and i: "i < length ths"
    and elems: "\<And>e'. e' \<in> set (qu_queue q') \<Longrightarrow> \<exists>e \<in> set (qu_queue q). qe_id e = qe_id e' \<and> qe_segment e = qe_segment e'"
    and len: "length answers' = length answers"
    and mono: "\<And>sg. sg \<in> set segments \<Longrightarrow> answered accepted answers sg \<Longrightarrow> answered accepted answers' sg"
    and sound: "\<And>sg. sg \<in> set segments \<Longrightarrow> answers' ! unat (sg_posInArray sg) = [] \<or> answered accepted answers' sg"
    and ph: "phase_ok segments accepted q' answers' ph"
    and removed: "\<And>e. e \<in> set (qu_queue q) \<Longrightarrow>
      qe_segment e \<in> qe_segment ` set (qu_queue q') \<or> answered accepted answers' (qe_segment e) \<or> qu_isError q'"
    and err: "qu_isError q \<Longrightarrow> qu_isError q'"
  shows "inv_answers segments accepted todo q' (ths[i := set_phase ph (ths ! i)]) answers'"
proof -
  have "phase_ok segments accepted q' answers' (th_phase (ths[i := set_phase ph (ths ! i)] ! j))" if j: "j < length ths" for j
  proof (cases "j = i")
    case False
    then show ?thesis
      using elems mono inv_answersD(4) [OF inv]
      by (simp add: nth_update_phase [OF i]) (rule phase_ok_mono [OF inv_answersD(5) [OF inv j]], blast+)
  qed (simp add: ph i)
  moreover have "sg \<in> set todo \<or> sg \<in> qe_segment ` set (qu_queue q') \<or> answered accepted answers' sg \<or> qu_isError q'"
    if sg: "sg \<in> set segments" for sg
    using inv_answersD(7) [OF inv sg] mono [OF sg] err removed by blast
  moreover have "qe_segment ` set (qu_queue q') \<subseteq> set segments"
    using elems inv_answersD(4) [OF inv] by force
  ultimately show ?thesis
    using inv_answersD(1-3) [OF inv] len sound unfolding inv_answers_def by simp
qed

lemma answers_stored:
  assumes "positions_ok segments" and "length answers = length segments" and "sg \<in> set segments" and "accepted sg parsed"
    and sound: "\<And>sg. sg \<in> set segments \<Longrightarrow> answers ! unat (sg_posInArray sg) = [] \<or> answered accepted answers sg"
    and answers': "answers' = (if answers ! unat (sg_posInArray sg) = [] then answers[unat (sg_posInArray sg) := parsed] else answers)"
  shows "length answers' = length answers" and "answered accepted answers' sg"
    and "sg' \<in> set segments \<Longrightarrow> answered accepted answers sg' \<Longrightarrow> answered accepted answers' sg'"
    and "sg' \<in> set segments \<Longrightarrow> answers' ! unat (sg_posInArray sg') = [] \<or> answered accepted answers' sg'"
proof -
  have pos: "unat (sg_posInArray sg) < length answers"
    using position_less [OF assms(1,3)] assms(2) by simp
  show "length answers' = length answers" "answered accepted answers' sg"
    using assms(4) sound [OF assms(3)] pos by (auto simp: answers' answered_def)
  have other: "sg' = sg \<or> answers' ! unat (sg_posInArray sg') = answers ! unat (sg_posInArray sg')" if "sg' \<in> set segments"
    using position_unique [OF assms(1) that assms(3)] unfolding answers'
    by (cases "unat (sg_posInArray sg') = unat (sg_posInArray sg)") auto
  show "answered accepted answers sg' \<Longrightarrow> answered accepted answers' sg'" if "sg' \<in> set segments"
    using other [OF that] \<open>answered accepted answers' sg\<close> by (auto simp: answered_def)
  show "answers' ! unat (sg_posInArray sg') = [] \<or> answered accepted answers' sg'" if "sg' \<in> set segments"
    using other [OF that] \<open>answered accepted answers' sg\<close> sound [OF that] by (auto simp: answered_def)
qed

lemma lock_segment:
  assumes "getSegment el q = Some sg" and "queue_ok q"
  shows "\<exists>e \<in> set (qu_queue q). qe_id e = el \<and> qe_segment e = sg"
    and "e \<in> set (qu_queue q) \<Longrightarrow> qe_id e = el \<Longrightarrow> qe_segment e = sg"
  using assms lock_element_Some [of el q] queue_ok_unique [OF assms(2)] by (auto simp: getSegment_def)

lemma work_step_alive:
  assumes env: "env_ok E segments S accepted" and inv: "inv_threads S q ths" and ans: "inv_answers segments accepted todo q ths answers"
    and i: "i < length ths" and step: "work_step E (ths ! i, q, answers) (t, q', answers')"
  shows "th_phase t \<noteq> Dead"
  using step
proof (cases rule: work_step.cases)
  case (no_request el sg e)
  then obtain e' where "e' \<in> set (qu_queue q)" "qe_segment e' = sg"
    using lock_segment(1) [OF _ inv_threadsD(1) [OF inv]] by blast
  then have "sg \<in> set segments"
    using inv_answersD(4) [OF ans] by blast
  then show ?thesis
    using env no_request unfolding env_ok_def by force
next
  case (thread_killed el sg e)
  have sg: "sg \<in> set segments"
    using inv_answersD(5) [OF ans i] thread_killed(4) by (simp add: phase_ok_def)
  have "is_check e"
    using respond_check [OF env sg _ _ thread_killed(5)] phase_active [OF inv i] thread_killed(4)
      position_less [OF inv_answersD(1) [OF ans] sg] inv_answersD(2) [OF ans] by simp
  then show ?thesis
    using thread_killed by simp
qed (use inv_answersD(5) [OF ans i] in \<open>auto simp: phase_ok_def split: if_splits\<close>)

lemma work_step_answers:
  assumes env: "env_ok E segments S accepted" and inv: "inv_threads S q ths" and ans: "inv_answers segments accepted todo q ths answers"
    and i: "i < length ths" and step: "work_step E (ths ! i, q, answers) (t, q', answers')"
  shows "inv_answers segments accepted todo q' (ths[i := t]) answers'"
proof -
  note alive = work_step_alive [OF assms]
  note same = inv_answersD(6) [OF ans] and now = inv_answersD(5) [OF ans i]
  show ?thesis
    using step
  proof (cases rule: work_step.cases)
    case (take_element el)
    then obtain server where q': "set (qu_queue q') = give server el ` set (qu_queue q)" "qu_isError q' = qu_isError q"
      using getElement_element [OF take_element(4) inv_threadsD(1) [OF inv]] by metis
    show ?thesis
      unfolding take_element(1,2) using same
      by (intro inv_answers_step [OF ans i]) (auto simp: q' image_image phase_ok_def)
  next
    case (element_gone el)
    show ?thesis
      unfolding element_gone(1,2,3) using same
      by (intro inv_answers_step [OF ans i]) (auto simp: phase_ok_def)
  next
    case (send_request el sg qsPost)
    have "sg \<in> set segments" "\<forall>e \<in> set (qu_queue q). qe_id e = el \<longrightarrow> qe_segment e = sg"
      using lock_segment [OF send_request(5) inv_threadsD(1) [OF inv]] inv_answersD(4) [OF ans] by blast+
    then show ?thesis
      unfolding send_request(1,2,3) using same
      by (intro inv_answers_step [OF ans i]) (auto simp: phase_ok_def)
  next
    case (answer_stored el sg stored)
    have sg: "sg \<in> set segments" and el: "\<forall>e \<in> set (qu_queue q). qe_id e = el \<longrightarrow> qe_segment e = sg"
      using now answer_stored(3) by (simp_all add: phase_ok_def)
    have "th_currentServer (ths ! i) \<in> S"
      using phase_active [OF inv i] answer_stored(3) by simp
    then obtain parsed where parsed: "accepted sg parsed"
        "answers' = (if answers ! unat (sg_posInArray sg) = [] then answers[unat (sg_posInArray sg) := parsed] else answers)"
      by (rule respond_Inr [OF env sg _ answer_stored(4)])
    note st = answers_stored [OF inv_answersD(1,2) [OF ans] sg parsed(1) same parsed(2), simplified]
    show ?thesis
      unfolding answer_stored(1,2)
      by (intro inv_answers_step [OF ans i] st(1,3,4)) (use st(2) el in \<open>auto simp: phase_ok_def\<close>)
  next
    case (request_failed el sg msg)
    show ?thesis
      unfolding request_failed(1,2,3) using same
      by (intro inv_answers_step [OF ans i]) (auto simp: phase_ok_def)
  next
    case (element_done el)
    note sel = removeElementInternal_sel [OF inv_threadsD(1) [OF inv], of el, folded removeElement_def]
    have "answered accepted answers (qe_segment e)" if "e \<in> set (qu_queue q)" "qe_id e = el" for e
      using now element_done(4) that by (simp add: phase_ok_def)
    then show ?thesis
      unfolding element_done(1,2,3) using same
      by (intro inv_answers_step [OF ans i]) (auto simp: sel phase_ok_def)
  next
    case (error_counted el countErrors)
    note sel = errorElement_sel [OF error_counted(4) inv_threadsD(1) [OF inv]]
    show ?thesis
      unfolding error_counted(1,2) using same
      by (intro inv_answers_step [OF ans i]) (auto simp: sel image_image phase_ok_def)
  next
    case (element_given_up el)
    show ?thesis
      unfolding element_given_up(1,2,3) using same
      by (intro inv_answers_step [OF ans i])
        (auto simp: removeElementError_def removeElementInternal_sel [OF inv_threadsD(1) [OF inv]] phase_ok_def)
  next
    case old_request
    show ?thesis
      unfolding old_request(1,2,3) using same
      by (intro inv_answers_step [OF ans i]) (auto simp: phase_ok_def)
  qed (use alive in auto)
qed

lemma inv_answers_add:
  assumes ans: "inv_answers segments accepted (sg # rest) q ths answers" and inv: "inv_threads S q ths"
    and add: "addElement sg q = Inr q'"
  shows "inv_answers segments accepted rest q' ths answers"
proof -
  note sel = addElement_Inr [OF add inv_threadsD(1) [OF inv]]
  have "phase_ok segments accepted q' answers (th_phase (ths ! i))" if i: "i < length ths" for i
    using phase_below [OF inv i]
    by (intro phase_ok_mono [OF inv_answersD(5) [OF ans i]]) (fastforce simp: sel)+
  then show ?thesis
    using inv_answersD(1-3) [OF ans] inv_answersD(4,6,7) [OF ans] unfolding inv_answers_def sel(1,5) by (auto simp: image_iff)
qed

text \<open>Every server has a thread.\<close>

definition staffed :: "bytes set \<Rightarrow> u64 \<Rightarrow> P2PThread list \<Rightarrow> bool" where
  "staffed S taskId ths \<longleftrightarrow> (\<forall>s \<in> S. \<exists>i < length ths. th_currentServer (ths ! i) = s \<and> th_taskNumber (ths ! i) = taskId)"

definition inv_task :: "Segment list \<Rightarrow> bytes set \<Rightarrow> (Segment \<Rightarrow> bytes \<Rightarrow> bool) \<Rightarrow> task \<Rightarrow> bool" where
  "inv_task segments S accepted s \<longleftrightarrow>
     inv_threads S (pi_queue (ta_impl s)) (pi_threads (ta_impl s)) \<and>
     inv_answers segments accepted (ta_todo s) (pi_queue (ta_impl s)) (pi_threads (ta_impl s)) (ta_answers s) \<and>
     staffed S (qu_taskId (pi_queue (ta_impl s))) (pi_threads (ta_impl s))"

lemma inv_taskD:
  assumes "inv_task segments S accepted s"
  shows "inv_threads S (pi_queue (ta_impl s)) (pi_threads (ta_impl s))"
    and "inv_answers segments accepted (ta_todo s) (pi_queue (ta_impl s)) (pi_threads (ta_impl s)) (ta_answers s)"
    and "staffed S (qu_taskId (pi_queue (ta_impl s))) (pi_threads (ta_impl s))"
  using assms by (simp_all add: inv_task_def)

lemma work_step_same:
  assumes "work_step E (t, q, answers) (t', q', answers')"
  shows "qu_taskId q' = qu_taskId q" and "th_currentServer t' = th_currentServer t" and "th_taskNumber t' = th_taskNumber t"
  using assms
  by (cases rule: work_step.cases;
      auto simp: getElement_def CHECK_def Let_def removeElement_def removeElementError_def removeElementInternal_def errorElement_def
        split: if_splits option.splits)+

lemma inv_task_step:
  assumes env: "env_ok E segments S accepted" and inv: "inv_task segments S accepted s" and step: "task_step E s s'"
  shows "inv_task segments S accepted s'"
  using step
proof (cases rule: task_step.cases)
  case (add_segment sg rest q)
  then show ?thesis
    using inv_threads_add [OF inv_taskD(1) [OF inv] add_segment(3)] inv_answers_add [OF _ inv_taskD(1) [OF inv] add_segment(3)]
      inv_taskD(2,3) [OF inv] addElement_Inr(6) [OF add_segment(3) inv_threadsD(1) [OF inv_taskD(1) [OF inv]]]
    by (simp add: inv_task_def)
next
  case (thread_works i t q answers)
  note step = thread_works(3)
  have "inv_threads S q ((pi_threads (ta_impl s))[i := t])"
    by (rule inv_threads_step [OF inv_taskD(1) [OF inv] thread_works(2) step
        work_step_alive [OF env inv_taskD(1,2) [OF inv] thread_works(2) step]])
  moreover have "inv_answers segments accepted (ta_todo s) q ((pi_threads (ta_impl s))[i := t]) answers"
    by (rule work_step_answers [OF env inv_taskD(1,2) [OF inv] thread_works(2) step])
  moreover have "staffed S (qu_taskId q) ((pi_threads (ta_impl s))[i := t])"
    using inv_taskD(3) [OF inv] work_step_same [OF step] thread_works(2) unfolding staffed_def length_list_update
    by (metis nth_list_update nth_list_update_neq)
  ultimately show ?thesis
    by (simp add: thread_works(1) inv_task_def)
qed

subsection \<open>No state is stuck\<close>

lemma thread_moves:
  assumes env: "env_ok E segments S accepted" and inv: "inv_threads S q ths" and ans: "inv_answers segments accepted todo q ths answers"
    and i: "i < length ths"
    and ph: "th_phase (ths ! i) \<noteq> Idle \<or>
      (\<exists>e \<in> set (qu_queue q). th_taskNumber (ths ! i) = qu_taskId q \<and> th_currentServer (ths ! i) \<notin> qe_servers e)"
  shows "\<exists>t q' answers'. work_step E (ths ! i, q, answers) (t, q', answers')"
proof (cases "th_phase (ths ! i)")
  case Idle
  then obtain e where e: "e \<in> set (qu_queue q)" "th_taskNumber (ths ! i) = qu_taskId q" "th_currentServer (ths ! i) \<notin> qe_servers e"
    using ph by blast
  obtain q' el where "getElement (\<lambda>sg servers. th_currentServer (ths ! i) \<notin> servers) (th_currentServer (ths ! i))
      (th_taskNumber (ths ! i)) q = Inr (q', Get_element el)"
    using getElement_gets [where P = "\<lambda>sg servers. th_currentServer (ths ! i) \<notin> servers" and server = "th_currentServer (ths ! i)",
      OF e(1,3) inv_threadsD(2) [OF inv] e(2)] by metis
  then show ?thesis
    using work_step.take_element [OF Idle] by blast
next
  case (Taken el)
  show ?thesis
  proof (cases "getSegment el q")
    case None
    then show ?thesis
      using work_step.element_gone [OF Taken] by blast
  next
    case (Some sg)
    then obtain e' where "e' \<in> set (qu_queue q)" "qe_segment e' = sg"
      using lock_segment(1) [OF _ inv_threadsD(1) [OF inv]] by blast
    then have "sg \<in> set segments"
      using inv_answersD(4) [OF ans] by blast
    then obtain qsPost where "pe_makeQsAndPost E (sg_fromByte sg) (sg_toByte sg) = Inr qsPost"
      using env unfolding env_ok_def by blast
    then show ?thesis
      using work_step.send_request [OF Taken Some] by blast
  qed
next
  case (Requesting el sg)
  then have sg: "sg \<in> set segments"
    using inv_answersD(5) [OF ans i] by (simp add: phase_ok_def)
  have "th_currentServer (ths ! i) \<in> S"
    using phase_active [OF inv i] Requesting by simp
  then obtain r where r: "respond E (th_currentServer (ths ! i)) sg answers r"
    using respond_total [OF env sg] by blast
  show ?thesis
  proof (cases r)
    case (Inl e)
    show ?thesis
    proof (cases "is_check e")
      case True
      then show ?thesis
        using r Inl work_step.request_failed [OF Requesting] by (cases e) (simp_all, blast)
    next
      case False
      then show ?thesis
        using r Inl work_step.thread_killed [OF Requesting] by blast
    qed
  next
    case (Inr a)
    then show ?thesis
      using r work_step.answer_stored [OF Requesting] by (cases a) blast
  qed
next
  case (Failed el)
  then show ?thesis
    using work_step.error_counted [OF Failed] by (cases "errorElement el (th_currentServer (ths ! i)) q") blast
next
  case Dead
  then show ?thesis
    using inv_answersD(5) [OF ans i] by (simp add: phase_ok_def)
next
  case Old
  then show ?thesis
    using work_step.old_request by blast
next
  case (Answered el)
  then show ?thesis
    using work_step.element_done by blast
next
  case (Giving_up el)
  then show ?thesis
    using work_step.element_given_up by blast
qed

lemma task_moves:
  assumes env: "env_ok E segments S accepted" and inv: "inv_task segments S accepted s" and nf: "\<not> task_finished s"
  shows "\<exists>s'. task_step E s s'"
proof (cases "ta_todo s")
  case (Cons sg rest)
  have "\<exists>q. addElement sg (pi_queue (ta_impl s)) = Inr q"
    using inv_threadsD(2) [OF inv_taskD(1) [OF inv]] by (simp add: addElement_def)
  then show ?thesis
    using task_step.add_segment [OF Cons] by blast
next
  case Nil
  let ?q = "pi_queue (ta_impl s)" and ?ths = "pi_threads (ta_impl s)"
  obtain e where e: "e \<in> set (qu_queue ?q)"
    using nf Nil by (cases "qu_queue ?q") (auto simp: task_finished_def waitEmpty_returns_def)
  note el = inv_threadsD(6) [OF inv_taskD(1) [OF inv] e]
  have "\<exists>i < length ?ths. th_phase (?ths ! i) \<noteq> Idle \<or>
      (\<exists>e \<in> set (qu_queue ?q). th_taskNumber (?ths ! i) = qu_taskId ?q \<and> th_currentServer (?ths ! i) \<notin> qe_servers e)"
  proof (cases "qe_servers e - qe_errorServers e = {}")
    case False
    then obtain i where "i < length ?ths" "works_on (qe_id e) (th_phase (?ths ! i))"
      using elem_invD(3) [OF el] by blast
    then show ?thesis
      by (intro exI [of _ i]) (auto simp: works_on_def)
  next
    case True
    then have same: "qe_errorServers e = qe_servers e"
      using elem_invD(1) [OF el] by blast
    show ?thesis
    proof (cases "qe_servers e = S")
      case True
      then obtain i where "i < length ?ths" "th_phase (?ths ! i) = Giving_up (qe_id e)"
        using elem_invD(4) [OF el] same by auto
      then show ?thesis
        by (intro exI [of _ i]) auto
    next
      case False
      then obtain srv where "srv \<in> S" "srv \<notin> qe_servers e"
        using elem_invD(2) [OF el] by blast
      then show ?thesis
        using inv_taskD(3) [OF inv] e unfolding staffed_def by metis
    qed
  qed
  then obtain i t q' answers' where "i < length ?ths" "work_step E (?ths ! i, ?q, ta_answers s) (t, q', answers')"
    using thread_moves [OF env inv_taskD(1,2) [OF inv]] by metis
  then show ?thesis
    using task_step.thread_works by blast
qed

end
