(* ===== verification/P2PRequest.thy ===== *)
theory P2PRequest
  imports P2PTask
begin

section \<open>A distributed request from its start to its result\<close>

text \<open>
  Why a request fails: one segment that every server failed. Where a task starts: the segments put
  together are the whole answer, and each server of the distribution has a thread. The properties of
  a request are at the end.
\<close>

subsection \<open>Errors\<close>

definition fails :: "p2p_env \<Rightarrow> bytes \<Rightarrow> Segment \<Rightarrow> bool" where
  "fails E server sg \<longleftrightarrow>
     (\<exists>qsPost r. pe_makeQsAndPost E (sg_fromByte sg) (sg_toByte sg) = Inr qsPost \<and> request_may (pe_replies E) qsPost server r \<and>
        (\<forall>response parsed. r = Inr response \<longrightarrow>
           accept_response (pe_responseParse E) (pe_isPrecisionSize E) response sg \<noteq> Inr parsed))"

definition lost :: "p2p_env \<Rightarrow> Segment list \<Rightarrow> bytes set \<Rightarrow> bool" where
  "lost E segments S \<longleftrightarrow> (\<exists>sg \<in> set segments. \<forall>server \<in> S. fails E server sg)"

lemma good_server_fails:
  assumes "good_server E segments server" and "sg \<in> set segments"
  shows "\<not> fails E server sg"
  using assms unfolding good_server_def fails_def by metis

lemma respond_fails:
  assumes "respond E server sg answers (Inl e)" and "unat (sg_posInArray sg) < length answers"
  shows "fails E server sg"
proof -
  obtain qsPost r where r: "pe_makeQsAndPost E (sg_fromByte sg) (sg_toByte sg) = Inr qsPost" "request_may (pe_replies E) qsPost server r"
      "bindE r (\<lambda>response. processResponse (pe_responseParse E) (pe_isPrecisionSize E) response sg answers) = Inl e"
    using assms(1) unfolding respond_def by metis
  have "store_answer sg parsed answers \<noteq> Inl e" for parsed
    using assms(2) by (simp add: store_answer_def Let_def)
  then have "accept_response (pe_responseParse E) (pe_isPrecisionSize E) response sg \<noteq> Inr parsed" if "r = Inr response" for response parsed
    using r(3) that by (auto simp: processResponse_def)
  then show ?thesis
    using r(1,2) unfolding fails_def by blast
qed

definition phase_blame :: "p2p_env \<Rightarrow> Segment list \<Rightarrow> bytes set \<Rightarrow> QueueP2P \<Rightarrow> bytes \<Rightarrow> phase \<Rightarrow> bool" where
  "phase_blame E segments S q server ph \<longleftrightarrow>
     (case ph of
        Failed el \<Rightarrow> \<forall>e \<in> set (qu_queue q). qe_id e = el \<longrightarrow> fails E server (qe_segment e)
      | Giving_up el \<Rightarrow> lost E segments S
      | _ \<Rightarrow> True)"

definition inv_errors :: "p2p_env \<Rightarrow> Segment list \<Rightarrow> bytes set \<Rightarrow> QueueP2P \<Rightarrow> P2PThread list \<Rightarrow> bool" where
  "inv_errors E segments S q ths \<longleftrightarrow>
     (\<forall>e \<in> set (qu_queue q). \<forall>server \<in> qe_errorServers e. fails E server (qe_segment e)) \<and>
     (\<forall>i < length ths. phase_blame E segments S q (th_currentServer (ths ! i)) (th_phase (ths ! i))) \<and>
     (qu_isError q \<longrightarrow> lost E segments S)"

lemma inv_errorsD:
  assumes "inv_errors E segments S q ths"
  shows "e \<in> set (qu_queue q) \<Longrightarrow> server \<in> qe_errorServers e \<Longrightarrow> fails E server (qe_segment e)"
    and "i < length ths \<Longrightarrow> phase_blame E segments S q (th_currentServer (ths ! i)) (th_phase (ths ! i))"
    and "qu_isError q \<Longrightarrow> lost E segments S"
  using assms unfolding inv_errors_def by simp_all

lemma phase_blame_mono:
  assumes "phase_blame E segments S q server ph"
    and "\<And>e'. e' \<in> set (qu_queue q') \<Longrightarrow> element_of ph = Some (qe_id e') \<Longrightarrow>
           \<exists>e \<in> set (qu_queue q). qe_id e = qe_id e' \<and> qe_segment e = qe_segment e'"
  shows "phase_blame E segments S q' server ph"
proof (cases ph)
  case (Failed el)
  then show ?thesis
    using assms by (simp add: phase_blame_def element_of_def) metis
qed (use assms(1) in \<open>simp_all add: phase_blame_def\<close>)

lemma inv_errors_step:
  assumes inv: "inv_errors E segments S q ths" and i: "i < length ths"
    and elems: "\<And>e'. e' \<in> set (qu_queue q') \<Longrightarrow> \<exists>e \<in> set (qu_queue q). qe_id e = qe_id e' \<and> qe_segment e = qe_segment e'"
    and blamed: "\<And>e' server. e' \<in> set (qu_queue q') \<Longrightarrow> server \<in> qe_errorServers e' \<Longrightarrow> fails E server (qe_segment e')"
    and ph: "phase_blame E segments S q' (th_currentServer (ths ! i)) ph"
    and err: "qu_isError q' \<Longrightarrow> qu_isError q \<or> lost E segments S"
  shows "inv_errors E segments S q' (ths[i := set_phase ph (ths ! i)])"
proof -
  have "phase_blame E segments S q' (th_currentServer (ths ! j)) (if j = i then ph else th_phase (ths ! j))" if j: "j < length ths" for j
    using ph phase_blame_mono [OF inv_errorsD(2) [OF inv j]] elems by simp
  then show ?thesis
    using blamed err inv_errorsD(3) [OF inv] unfolding inv_errors_def by (auto simp: nth_update_phase [OF i])
qed

lemma work_step_errors:
  assumes inv: "inv_threads S q ths" and ans: "inv_answers segments accepted todo q ths answers" and errs: "inv_errors E segments S q ths"
    and i: "i < length ths" and step: "work_step E (ths ! i, q, answers) (t, q', answers')"
  shows "inv_errors E segments S q' (ths[i := t])"
proof -
  note old = inv_errorsD(1) [OF errs] and now = inv_errorsD(2) [OF errs i]
  note phase_ok_now = inv_answersD(5) [OF ans i]
  have plain: "inv_errors E segments S q (ths[i := set_phase ph (ths ! i)])"
    if "phase_blame E segments S q (th_currentServer (ths ! i)) ph" for ph
    using that old by (intro inv_errors_step [OF errs i]) auto
  show ?thesis
    using step
  proof (cases rule: work_step.cases)
    case (take_element el)
    then obtain server where q': "set (qu_queue q') = give server el ` set (qu_queue q)" "qu_isError q' = qu_isError q"
      using getElement_element [OF take_element(4) inv_threadsD(1) [OF inv]] by metis
    show ?thesis
      unfolding take_element(1,2) using old
      by (intro inv_errors_step [OF errs i]) (auto simp: q' phase_blame_def)
  next
    case (request_failed el sg msg)
    have sg: "sg \<in> set segments" and el: "\<forall>e \<in> set (qu_queue q). qe_id e = el \<longrightarrow> qe_segment e = sg"
      using phase_ok_now request_failed(4) by (simp_all add: phase_ok_def)
    have "fails E (th_currentServer (ths ! i)) sg"
      using respond_fails [OF request_failed(5)] position_less [OF inv_answersD(1) [OF ans] sg] inv_answersD(2) [OF ans] by simp
    then show ?thesis
      unfolding request_failed(1,2,3) using old el
      by (intro inv_errors_step [OF errs i]) (auto simp: phase_blame_def)
  next
    case (element_done el)
    note sel = removeElementInternal_sel [OF inv_threadsD(1) [OF inv], of el, folded removeElement_def]
    show ?thesis
      unfolding element_done(1,2,3) using old
      by (intro inv_errors_step [OF errs i]) (auto simp: sel phase_blame_def)
  next
    case (element_given_up el)
    then have "lost E segments S"
      using now by (simp add: phase_blame_def)
    then show ?thesis
      unfolding element_given_up(1,2,3) using old
      by (intro inv_errors_step [OF errs i])
        (auto simp: removeElementError_def removeElementInternal_sel [OF inv_threadsD(1) [OF inv]] phase_blame_def)
  next
    case (error_counted el countErrors)
    note sel = errorElement_sel [OF error_counted(4) inv_threadsD(1) [OF inv]]
    let ?s = "th_currentServer (ths ! i)"
    have failed: "fails E ?s (qe_segment e)" if "e \<in> set (qu_queue q)" "qe_id e = el" for e
      using now error_counted(3) that by (simp add: phase_blame_def)
    have "lost E segments S" if many: "th_countUniqueServers (ths ! i) \<le> countErrors"
    proof -
      have S: "?s \<in> S" "card S \<le> countErrors" "0 < card S"
        using phase_active [OF inv i] error_counted(3) many inv_threadsD(3,4) [OF inv] by (simp_all add: card_gt_0_iff)
      then obtain e where e: "e \<in> set (qu_queue q)" "qe_id e = el" "countErrors = card (insert ?s (qe_errorServers e))"
        using sel(7) by auto
      have "insert ?s (qe_errorServers e) \<subseteq> S"
        using S(1) elem_invD(1,2) [OF inv_threadsD(6) [OF inv e(1)]] by blast
      then have "insert ?s (qe_errorServers e) = S"
        using S(2) e(3) inv_threadsD(3) [OF inv] by (intro card_seteq) simp_all
      then have "fails E server (qe_segment e)" if "server \<in> S" for server
        using old [OF e(1)] failed [OF e(1,2)] that by blast
      then show ?thesis
        using inv_answersD(4) [OF ans e(1)] unfolding lost_def by blast
    qed
    then show ?thesis
      unfolding error_counted(1,2) using old failed
      by (intro inv_errors_step [OF errs i]) (auto simp: sel phase_blame_def split: if_splits)
  qed (auto intro!: plain simp: phase_blame_def)
qed

lemma inv_errors_add:
  assumes errs: "inv_errors E segments S q ths" and inv: "inv_threads S q ths" and add: "addElement sg q = Inr q'"
  shows "inv_errors E segments S q' ths"
proof -
  note sel = addElement_Inr [OF add inv_threadsD(1) [OF inv]]
  have "phase_blame E segments S q' (th_currentServer (ths ! i)) (th_phase (ths ! i))" if i: "i < length ths" for i
    using phase_below [OF inv i]
    by (intro phase_blame_mono [OF inv_errorsD(2) [OF errs i]]) (fastforce simp: sel)+
  then show ?thesis
    using inv_errorsD(1,3) [OF errs] unfolding inv_errors_def sel(1,5) by auto
qed

lemma task_step_errors:
  assumes inv: "inv_task segments S accepted s"
    and errs: "inv_errors E segments S (pi_queue (ta_impl s)) (pi_threads (ta_impl s))" and step: "task_step E s s'"
  shows "inv_errors E segments S (pi_queue (ta_impl s')) (pi_threads (ta_impl s'))"
  using step
proof (cases rule: task_step.cases)
  case (add_segment sg rest q)
  then show ?thesis
    using inv_errors_add [OF errs inv_taskD(1) [OF inv] add_segment(3)] by simp
next
  case (thread_works i t q answers)
  then show ?thesis
    using work_step_errors [OF inv_taskD(1,2) [OF inv] errs thread_works(2,3)] by simp
qed

text \<open>What holds in every state of a run.\<close>

definition run_inv :: "p2p_env \<Rightarrow> Segment list \<Rightarrow> bytes set \<Rightarrow> (Segment \<Rightarrow> bytes \<Rightarrow> bool) \<Rightarrow> task \<Rightarrow> bool" where
  "run_inv E segments S accepted s \<longleftrightarrow>
     inv_task segments S accepted s \<and> inv_errors E segments S (pi_queue (ta_impl s)) (pi_threads (ta_impl s))"

lemma run_inv_steps:
  assumes "(task_step E)\<^sup>*\<^sup>* s s'" and "env_ok E segments S accepted" and "run_inv E segments S accepted s"
  shows "run_inv E segments S accepted s'"
  using assms(1,3)
  by (induction rule: rtranclp_induct) (auto simp: run_inv_def intro: inv_task_step [OF assms(2)] task_step_errors)

lemma run_length:
  assumes "(task_step E ^^ n) s s'" and "env_ok E segments S accepted" and "run_inv E segments S accepted s"
  shows "n + task_weight S s' \<le> task_weight S s"
  using assms(1)
proof (induction n arbitrary: s')
  case (Suc n)
  then obtain s'' where s'': "(task_step E ^^ n) s s''" "task_step E s'' s'"
    by auto
  have "run_inv E segments S accepted s''"
    using run_inv_steps [OF _ assms(2,3)] relpowp_imp_rtranclp [OF s''(1)] by blast
  then have "task_weight S s' < task_weight S s''"
    using task_step_weight [OF _ s''(2)] by (simp add: run_inv_def inv_task_def)
  then show ?case
    using Suc.IH [OF s''(1)] by simp
qed simp

lemma finished_answers:
  assumes "run_inv E segments S accepted s" and "task_finished s"
  shows "if qu_isError (pi_queue (ta_impl s)) then lost E segments S else (\<forall>sg \<in> set segments. answered accepted (ta_answers s) sg)"
proof -
  have inv: "inv_task segments S accepted s"
    and errs: "inv_errors E segments S (pi_queue (ta_impl s)) (pi_threads (ta_impl s))"
    using assms(1) by (simp_all add: run_inv_def)
  have "ta_todo s = []" "qu_queue (pi_queue (ta_impl s)) = []"
    using assms(2) inv_threadsD(2) [OF inv_taskD(1) [OF inv]] by (simp_all add: task_finished_def waitEmpty_returns_def)
  then show ?thesis
    using inv_answersD(7) [OF inv_taskD(2) [OF inv]] inv_errorsD(3) [OF errs] by auto
qed

subsection \<open>Segments\<close>

definition slice :: "bytes \<Rightarrow> Segment \<Rightarrow> bytes" where
  "slice data sg = take (unat (sg_toByte sg) - unat (sg_fromByte sg)) (drop (unat (sg_fromByte sg)) data)"

lemma slices_meet: "(a::nat) \<le> b \<Longrightarrow> b \<le> c \<Longrightarrow> take (b - a) (drop a xs) @ take (c - b) (drop b xs) = take (c - a) (drop a xs)"
  using take_add [of "b - a" "c - b" "drop a xs"] by simp

lemma segments_loop_length [simp]: "length (segments_loop step size' n i prev) = Suc n"
  by (induction n arbitrary: i prev) (simp_all add: Let_def)

lemma segments_loop_position:
  assumes "j \<le> n" and "unat i + n < 2 ^ 64"
  shows "unat (sg_posInArray (segments_loop step size' n i prev ! j)) = unat i + j"
  using assms
proof (induction n arbitrary: i prev j)
  case (Suc n)
  then have "unat (i + 1) = unat i + 1"
    using unat_add_u64 [of i 1] by simp
  then show ?case
    using Suc by (cases j) (simp_all add: Let_def)
qed simp

lemma segments_loop_slices:
  assumes "prev \<le> size'" and "unat size' + unat step < 2 ^ 64"
  shows "concat (map (slice data) (segments_loop step size' n i prev)) = take (unat size' - unat prev) (drop (unat prev) data)"
  using assms(1)
proof (induction n arbitrary: i prev)
  case (Suc n)
  let ?x = "min (prev + step) size'"
  have "unat (prev + step) = unat prev + unat step"
    using Suc.prems assms(2) by (simp add: unat_add_lem [THEN iffD1] word_le_nat_alt)
  then have "prev \<le> ?x" "?x \<le> size'"
    using Suc.prems by (auto simp: min_def word_le_nat_alt)
  then have "unat prev \<le> unat ?x" "unat ?x \<le> unat size'"
    by (simp_all only: word_le_nat_alt)
  then show ?case
    using Suc.IH [of ?x "i + 1"] \<open>?x \<le> size'\<close> slices_meet by (simp add: Let_def slice_def)
qed (simp add: slice_def)

lemma makeSegments_ok:
  assumes "makeSegments countSegments size' minSize = Inr segments" and "2 * unat size' < 2 ^ 64"
  shows "length segments = unat countSegments" and "positions_ok segments" and "countSegments \<noteq> 0" and "size' \<noteq> 0"
    and "concat (map (slice data) segments) = take (unat size') data"
proof -
  let ?step = "min size' (max (size' div countSegments) minSize)"
  have segs: "segments = segments_loop ?step size' (unat (countSegments - 1)) 0 0" and nz: "countSegments \<noteq> 0" "?step \<noteq> 0"
    using assms(1) by (auto simp: makeSegments_def Let_def CHECK_def split: if_splits)
  show "countSegments \<noteq> 0" "size' \<noteq> 0"
    using nz by auto
  have n: "Suc (unat (countSegments - 1)) = unat countSegments"
    using nz(1) unat_gt_0 [of countSegments] by (simp add: unat_pred_u64)
  then show "length segments = unat countSegments"
    by (simp add: segs)
  show "positions_ok segments"
    using segments_loop_position [of _ "unat (countSegments - 1)" 0] unat_u64_less [of countSegments] n
    by (simp add: segs positions_ok_def)
  have "unat ?step \<le> unat size'"
    by (simp add: word_le_nat_alt [symmetric])
  then show "concat (map (slice data) segments) = take (unat size') data"
    using segments_loop_slices [of 0 size' ?step data] assms(2) by (simp add: segs)
qed

lemma makeSegments_Inr:
  assumes "countSegments \<noteq> 0" and "size' \<noteq> 0" and "minSize \<noteq> 0"
  shows "\<exists>segments. makeSegments countSegments size' minSize = Inr segments"
  using assms by (auto simp: makeSegments_def Let_def CHECK_def min_def max_def)

subsection \<open>The start of a task\<close>

lemma sorted_remdups_adj_distinct: "sorted xs \<Longrightarrow> distinct (remdups_adj xs)" for xs :: "'a::linorder list"
proof (induction xs rule: remdups_adj.induct)
  case (3 x y xs)
  then show ?case
    by (cases "x = y") (auto simp: antisym)
qed simp_all

lemma countUnique_card: "countUnique distribution = card (td_server ` set distribution)"
  using distinct_card [OF sorted_remdups_adj_distinct [OF sorted_sort, of "map td_server distribution"]]
  by (simp add: countUnique_def)

text \<open>Between two tasks; and a distribution that gives every server some thread, and no thread twice.\<close>

definition resting :: "P2P_Impl \<Rightarrow> bool" where
  "resting p \<longleftrightarrow> qu_isStopped (pi_queue p) \<and> qu_queue (pi_queue p) = [] \<and> qu_taskId (pi_queue p) < pi_taskId p \<and>
     (\<forall>t \<in> set (pi_threads p). th_taskNumber t < pi_taskId p \<and> (th_phase t = Idle \<or> th_phase t = Old))"

definition distribution_ok :: "nat \<Rightarrow> ThreadDistribution list \<Rightarrow> bool" where
  "distribution_ok countThreads distribution \<longleftrightarrow> distribution \<noteq> [] \<and> distinct (map fst (assignments distribution)) \<and>
     (\<forall>(i, server) \<in> set (assignments distribution). i < countThreads) \<and> (\<forall>d \<in> set distribution. td_from d < td_to d)"

lemma resting_new: "resting (P2P_Impl_new n)"
  by (simp add: resting_def P2P_Impl_new_def QueueP2P_new_def P2PThread_new_def)

lemma new_tasks_Inr:
  assumes "distinct (map fst as)" and "\<forall>(i, server) \<in> set as. i < length ths \<and> th_taskNumber (ths ! i) < taskId"
    and "started q = Some taskId"
  shows "\<exists>ths'. new_tasks taskId count q as ths = (ths', Inr ()) \<and> length ths' = length ths \<and>
     (\<forall>(i, server) \<in> set as. ths' ! i =
        (ths ! i)\<lparr>th_taskNumber := taskId, th_currentServer := server, th_countUniqueServers := count\<rparr>) \<and>
     (\<forall>i. i \<notin> fst ` set as \<longrightarrow> ths' ! i = ths ! i)"
  using assms(1,2)
proof (induction as arbitrary: ths)
  case (Cons a as)
  obtain i server where a: "a = (i, server)"
    by (cases a)
  let ?t = "(ths ! i)\<lparr>th_taskNumber := taskId, th_currentServer := server, th_countUniqueServers := count\<rparr>"
  have i: "i < length ths" "th_taskNumber (ths ! i) < taskId" "i \<notin> fst ` set as"
    using Cons.prems a by auto
  have others: "j \<noteq> i" if "(j, server') \<in> set as" for j server'
    using i(3) that by force
  have "\<exists>ths'. new_tasks taskId count q as (ths[i := ?t]) = (ths', Inr ()) \<and> length ths' = length (ths[i := ?t]) \<and>
      (\<forall>(j, server) \<in> set as. ths' ! j =
        (ths[i := ?t] ! j)\<lparr>th_taskNumber := taskId, th_currentServer := server, th_countUniqueServers := count\<rparr>) \<and>
      (\<forall>j. j \<notin> fst ` set as \<longrightarrow> ths' ! j = ths[i := ?t] ! j)"
    using Cons.prems others by (intro Cons.IH) force+
  then obtain ths' where ths': "new_tasks taskId count q as (ths[i := ?t]) = (ths', Inr ())" "length ths' = length ths"
      "\<forall>(j, server) \<in> set as. ths' ! j =
        (ths[i := ?t] ! j)\<lparr>th_taskNumber := taskId, th_currentServer := server, th_countUniqueServers := count\<rparr>"
      "\<forall>j. j \<notin> fst ` set as \<longrightarrow> ths' ! j = ths[i := ?t] ! j"
    by auto
  have "newTask taskId server count q (ths ! i) = Inr ?t"
    using assms(3) i(2) by (simp add: newTask_def)
  then have "new_tasks taskId count q (a # as) ths = (ths', Inr ())"
    using i(1) ths'(1) by (simp add: a)
  moreover have "ths' ! i = ?t"
    using ths'(4) i(1,3) by simp
  moreover have "ths' ! j = (ths ! j)\<lparr>th_taskNumber := taskId, th_currentServer := server', th_countUniqueServers := count\<rparr>"
    if "(j, server') \<in> set as" for j server'
    using bspec [OF ths'(3) that] others [OF that] by simp
  moreover have "ths' ! j = ths ! j" if "j \<notin> fst ` set (a # as)" for j
    using ths'(4) that by (simp add: a)
  ultimately show ?case
    using ths'(2) by (intro exI [of _ ths'] conjI) (auto simp: a)
qed simp

lemma assignments_server: "(i, server) \<in> set (assignments distribution) \<Longrightarrow> server \<in> td_server ` set distribution"
  by (auto simp: assignments_def)

lemma server_assigned:
  assumes "distribution_ok n distribution" and "server \<in> td_server ` set distribution"
  shows "\<exists>i. (i, server) \<in> set (assignments distribution)"
proof -
  obtain d where d: "d \<in> set distribution" "server = td_server d"
    using assms(2) by blast
  then have "unat (td_from d) < unat (td_to d)"
    using assms(1) by (auto simp: distribution_ok_def word_less_nat_alt)
  then show ?thesis
    using d by (intro exI [of _ "unat (td_from d)"]) (force simp: assignments_def)
qed

lemma process_begin_ok:
  assumes rest: "resting p" and distr: "distribution_ok (length (pi_threads p)) distribution"
  obtains p' where "process_begin distribution p = (p', Inr ())" and "pi_taskId p' = pi_taskId p"
    and "pi_queue p' = (pi_queue p)\<lparr>qu_isStopped := False, qu_isError := False, qu_taskId := pi_taskId p\<rparr>"
    and "length (pi_threads p') = length (pi_threads p)"
    and "\<And>i. i < length (pi_threads p) \<Longrightarrow> th_phase (pi_threads p' ! i) = th_phase (pi_threads p ! i)"
    and "inv_threads (td_server ` set distribution) (pi_queue p') (pi_threads p')"
    and "staffed (td_server ` set distribution) (qu_taskId (pi_queue p')) (pi_threads p')"
proof -
  let ?S = "td_server ` set distribution" and ?ths = "pi_threads p"
  let ?q = "(pi_queue p)\<lparr>qu_isStopped := False, qu_isError := False, qu_taskId := pi_taskId p\<rparr>"
  have old: "th_taskNumber (?ths ! i) < pi_taskId p" "th_phase (?ths ! i) = Idle \<or> th_phase (?ths ! i) = Old" if "i < length ?ths" for i
    using rest nth_mem [OF that] by (auto simp: resting_def)
  have start: "queue_start (pi_taskId p) (pi_queue p) = (?q, Inr ())"
    using rest by (simp add: resting_def queue_start_def not_le Let_def)
  have as: "distinct (map fst (assignments distribution))"
      "\<forall>(i, server) \<in> set (assignments distribution). i < length ?ths \<and> th_taskNumber (?ths ! i) < pi_taskId p"
    using distr old(1) by (auto simp: distribution_ok_def)
  obtain ths' where ths': "new_tasks (pi_taskId p) (countUnique distribution) ?q (assignments distribution) ?ths = (ths', Inr ())"
      "length ths' = length ?ths"
    and got: "\<forall>(i, server) \<in> set (assignments distribution). ths' ! i =
        (?ths ! i)\<lparr>th_taskNumber := pi_taskId p, th_currentServer := server, th_countUniqueServers := countUnique distribution\<rparr>"
    and others: "\<forall>i. i \<notin> fst ` set (assignments distribution) \<longrightarrow> ths' ! i = ?ths ! i"
    using new_tasks_Inr [OF as, where q = ?q and count = "countUnique distribution"] by (auto simp: started_def)
  have new: "th_phase (ths' ! i) = th_phase (?ths ! i) \<and>
      (if th_taskNumber (ths' ! i) = pi_taskId p
       then th_currentServer (ths' ! i) \<in> ?S \<and> th_countUniqueServers (ths' ! i) = card ?S
       else th_taskNumber (ths' ! i) < pi_taskId p)" if i: "i < length ?ths" for i
  proof (cases "i \<in> fst ` set (assignments distribution)")
    case True
    then obtain server where "(i, server) \<in> set (assignments distribution)"
      by auto
    then show ?thesis
      using bspec [OF got, of "(i, server)"] assignments_server countUnique_card [of distribution] by simp
  next
    case False
    then have "ths' ! i = ?ths ! i" "th_taskNumber (?ths ! i) \<noteq> pi_taskId p"
      using others old(1) [OF i] by auto
    then show ?thesis
      using old(1) [OF i] by simp
  qed
  have "thread_ok ?S (pi_taskId p) (qu_count (pi_queue p)) t" if t: "t \<in> set ths'" for t
  proof -
    obtain i where i: "i < length ?ths" "t = ths' ! i"
      using t ths'(2) by (auto simp: in_set_conv_nth)
    then have "th_phase t = Idle \<or> th_phase t = Old"
      using new old(2) by simp
    then show ?thesis
      using new [OF i(1)] unfolding thread_ok_def i(2) by (auto simp: element_of_def)
  qed
  then have "inv_threads ?S ?q ths'"
    using distr rest by (simp add: inv_threads_def queue_ok_def resting_def distribution_ok_def)
  moreover have "staffed ?S (pi_taskId p) ths'"
    unfolding staffed_def
  proof (intro ballI)
    fix server
    assume "server \<in> ?S"
    then obtain i where i: "(i, server) \<in> set (assignments distribution)"
      using server_assigned [OF distr] by blast
    then show "\<exists>i < length ths'. th_currentServer (ths' ! i) = server \<and> th_taskNumber (ths' ! i) = pi_taskId p"
      using bspec [OF got i] bspec [OF as(2) i] ths'(2) by (intro exI [of _ i]) auto
  qed
  ultimately show ?thesis
    using that [of "p\<lparr>pi_queue := ?q, pi_threads := ths'\<rparr>"] start ths' new by (simp add: process_begin_def)
qed

lemma start_task_ok:
  assumes rest: "resting p" and distr: "distribution_ok (length (pi_threads p)) distribution"
    and segs: "makeSegments countSegments responseSize minSize = Inr segments" "2 * unat responseSize < 2 ^ 64"
  obtains p' s where "start_task responseSize minSize countSegments (Inr distribution) p = (p', Inr s)"
    and "run_inv E segments (td_server ` set distribution) accepted s" and "pi_taskId (ta_impl s) = pi_taskId p"
    and "task_weight (td_server ` set distribution) s
      \<le> length segments * (5 * card (td_server ` set distribution) + 1) + length (pi_threads p)"
    and "ta_todo s = segments" and "length (pi_threads (ta_impl s)) = length (pi_threads p)"
    and "qu_taskId (pi_queue (ta_impl s)) = pi_taskId p"
proof -
  let ?S = "td_server ` set distribution"
  obtain p' where p': "process_begin distribution p = (p', Inr ())" "pi_taskId p' = pi_taskId p"
      "pi_queue p' = (pi_queue p)\<lparr>qu_isStopped := False, qu_isError := False, qu_taskId := pi_taskId p\<rparr>"
      "length (pi_threads p') = length (pi_threads p)"
      "\<And>i. i < length (pi_threads p) \<Longrightarrow> th_phase (pi_threads p' ! i) = th_phase (pi_threads p ! i)"
      "inv_threads ?S (pi_queue p') (pi_threads p')" "staffed ?S (qu_taskId (pi_queue p')) (pi_threads p')"
    using process_begin_ok [OF rest distr] by metis
  let ?s = "\<lparr>ta_impl = p', ta_todo = segments, ta_answers = replicate (unat countSegments) []\<rparr>"
  have q: "qu_queue (pi_queue p') = []" "\<not> qu_isError (pi_queue p')"
    using rest p'(3) by (simp_all add: resting_def)
  have ph: "th_phase (pi_threads p' ! i) = Idle \<or> th_phase (pi_threads p' ! i) = Old" if "i < length (pi_threads p')" for i
    using rest p'(4,5) that nth_mem [of i "pi_threads p"] by (auto simp: resting_def)
  note sg = makeSegments_ok [OF segs]
  have "inv_answers segments accepted segments (pi_queue p') (pi_threads p') (replicate (unat countSegments) [])"
    using ph sg(1,2) position_less [OF sg(2)] by (fastforce simp: inv_answers_def q phase_ok_def)
  moreover have "inv_errors E segments ?S (pi_queue p') (pi_threads p')"
    using ph by (fastforce simp: inv_errors_def q phase_blame_def)
  ultimately have "run_inv E segments ?S accepted ?s"
    using p'(6,7) by (simp add: run_inv_def inv_task_def)
  moreover have "phase_weight (th_phase t) \<le> 1" if "t \<in> set (pi_threads p')" for t
    using ph that by (force simp: in_set_conv_nth)
  then have "sum_list (map (\<lambda>t. phase_weight (th_phase t)) (pi_threads p')) \<le> sum_list (map (\<lambda>t. 1) (pi_threads p'))"
    by (intro sum_list_mono)
  then have "task_weight ?S ?s \<le> length segments * (5 * card ?S + 1) + length (pi_threads p)"
    by (simp add: task_weight_def q p'(4) sum_list_triv)
  ultimately show ?thesis
    using that [of p' ?s] segs(1) p'(1-4) by (simp add: start_task_def)
qed

end
