(* ===== verification/P2PResult.thy ===== *)
theory P2PResult
  imports P2PRequest
begin

section \<open>Requests to all servers\<close>

text \<open>
  The distribution of \<open>P2P_Ips\<close> and of \<open>P2P_Graph\<close>, and the properties of a whole request.
\<close>

subsection \<open>The distributions\<close>

lemma index_of_nth: "distinct xs \<Longrightarrow> i < length xs \<Longrightarrow> index_of (xs ! i) xs = Some i"
proof (induction xs arbitrary: i)
  case (Cons x xs)
  then show ?case
    by (cases i) auto
qed simp

lemma server_list_indices:
  assumes "\<forall>i \<in> set is. index_of (f i) (ps_servers s) = Some i"
  shows "server_list s c (map f is) =
    Inr (map (\<lambda>i. \<lparr>td_from = of_nat i * ps_countConnections s, td_to = of_nat i * ps_countConnections s + c, td_server = f i\<rparr>) is)"
  using assms by (induction "is") (auto simp: Let_def)

lemma distinct_blocks:
  assumes "c \<le> C"
  shows "distinct (concat (map (\<lambda>i. [i * C..<i * C + c]) [0..<n])) \<and> (\<forall>j \<in> set (concat (map (\<lambda>i. [i * C..<i * C + c]) [0..<n])). j < n * C)"
proof (induction n)
  case (Suc n)
  then show ?case
    using assms by (fastforce simp: distinct_append)
qed simp

lemma map_fst_assignments:
  "map fst (assignments distribution) = concat (map (\<lambda>d. [unat (td_from d)..<unat (td_to d)]) distribution)"
  by (simp add: assignments_def map_concat comp_def)

text \<open>The servers of a \<open>P2P_Ips\<close> are distinct, and each has its own threads.\<close>

definition ips_ok :: "P2P_Ips \<Rightarrow> bool" where
  "ips_ok s \<longleftrightarrow> resting (ps_p2p s) \<and> distinct (ps_servers s) \<and> ps_servers s \<noteq> [] \<and> ps_countConnections s \<noteq> 0 \<and>
     length (pi_threads (ps_p2p s)) = length (ps_servers s) * unat (ps_countConnections s) \<and>
     length (pi_threads (ps_p2p s)) < 2 ^ 63"

lemma P2P_Ips_new_ok:
  assumes "P2P_Ips_new servers n = Inr s" and "distinct servers" and "servers \<noteq> []" and "length servers * unat n < 2 ^ 63"
  shows "ips_ok s"
proof -
  have s: "n \<noteq> 0" "s = \<lparr>ps_p2p = P2P_Impl_new (n * of_nat (length servers)), ps_servers = servers, ps_countConnections = n\<rparr>"
    using assms(1) by (auto simp: P2P_Ips_new_def CHECK_def split: if_splits)
  have "0 < unat n"
    using s(1) unat_gt_0 by blast
  then have "length servers \<le> length servers * unat n"
    by simp
  from this assms(4) have "length servers < 2 ^ 63"
    by (rule le_less_trans)
  then have "length servers < 2 ^ 64"
    by simp
  then have "unat (of_nat (length servers) :: u64) = length servers"
    by (rule unat_of_nat_u64)
  then have "unat (n * of_nat (length servers)) = unat n * length servers"
    using assms(4) unat_mult_lem [of n "of_nat (length servers)"] by (simp add: mult.commute)
  then have "length (pi_threads (P2P_Impl_new (n * of_nat (length servers)))) = length servers * unat n"
    by (simp add: P2P_Impl_new_def mult.commute)
  then show ?thesis
    using assms(2-4) s resting_new by (simp add: ips_ok_def)
qed

lemma getServersList_ok:
  assumes ok: "ips_ok s" and "countSegments \<noteq> 0" and "unat countSegments < 2 ^ 63"
  obtains distribution where "getServersList s (ps_servers s) countSegments = Inr distribution"
    and "distribution_ok (length (pi_threads (ps_p2p s))) distribution" and "td_server ` set distribution = set (ps_servers s)"
proof -
  let ?xs = "ps_servers s" and ?C = "ps_countConnections s"
  let ?n = "of_nat (length ?xs) :: u64"
  let ?c = "min ((countSegments + ?n - 1) div ?n) ?C"
  have s: "distinct ?xs" "?xs \<noteq> []" "?C \<noteq> 0" "length (pi_threads (ps_p2p s)) = length ?xs * unat ?C"
      "length ?xs * unat ?C < 2 ^ 63"
    using ok by (simp_all add: ips_ok_def)
  have C: "0 < unat ?C"
    using s(3) unat_gt_0 by blast
  then have "length ?xs \<le> length ?xs * unat ?C"
    by simp
  then have len: "length ?xs < 2 ^ 63"
    using s(5) by linarith
  then have n: "unat ?n = length ?xs"
    by (intro unat_of_nat_u64) simp
  have count: "0 < unat countSegments"
    using assms(2) unat_gt_0 by blast
  have "unat (countSegments + ?n) = unat countSegments + length ?xs"
    using assms(3) len n unat_add_lem [of countSegments ?n] by (simp add: )
  then have "unat (countSegments + ?n - 1) = unat countSegments + length ?xs - 1"
    using count by (subst unat_pred_u64) auto
  then have "unat ((countSegments + ?n - 1) div ?n) = (unat countSegments + length ?xs - 1) div length ?xs"
    using n by (simp add: unat_div)
  moreover have "0 < (unat countSegments + length ?xs - 1) div length ?xs"
    using s(2) count by (intro div_greater_zero_iff [THEN iffD2]) (cases ?xs, auto)
  ultimately have c: "0 < unat ?c" "unat ?c \<le> unat ?C"
    using C by (simp_all add: min_def word_le_nat_alt)
  let ?d = "map (\<lambda>i. \<lparr>td_from = of_nat i * ?C, td_to = of_nat i * ?C + ?c, td_server = ?xs ! i\<rparr>) [0..<length ?xs]"
  have idx: "unat (of_nat i * ?C) = i * unat ?C" "unat (of_nat i * ?C + ?c) = i * unat ?C + unat ?c" if i: "i < length ?xs" for i
  proof -
    have "i * unat ?C + unat ?C \<le> length ?xs * unat ?C"
      using mult_le_mono1 [of "Suc i" "length ?xs" "unat ?C"] i by simp
    then have "i * unat ?C + unat ?c < 2 ^ 64"
      using c(2) s(5) by simp
    moreover have "unat (of_nat i :: u64) = i"
      using i len by (intro unat_of_nat_u64) simp
    ultimately show "unat (of_nat i * ?C) = i * unat ?C" "unat (of_nat i * ?C + ?c) = i * unat ?C + unat ?c"
      using unat_mult_lem [of "of_nat i" ?C] unat_add_lem [of "of_nat i * ?C" ?c] by simp_all
  qed
  have "server_list s ?c (map (\<lambda>i. ?xs ! i) [0..<length ?xs]) = Inr ?d"
    using index_of_nth [OF s(1)] by (intro server_list_indices) simp
  then have "getServersList s ?xs countSegments = Inr ?d"
    using s(2) by (simp add: getServersList_def map_nth Let_def)
  moreover have "map fst (assignments ?d) = concat (map (\<lambda>i. [i * unat ?C..<i * unat ?C + unat ?c]) [0..<length ?xs])"
    unfolding map_fst_assignments map_map using idx by (intro arg_cong [of _ _ concat] map_cong) simp_all
  then have "distinct (map fst (assignments ?d)) \<and> (\<forall>j \<in> set (map fst (assignments ?d)). j < length ?xs * unat ?C)"
    using distinct_blocks [OF c(2)] by simp
  then have "distribution_ok (length (pi_threads (ps_p2p s))) ?d"
    using s(2,4) c(1) idx by (auto simp: distribution_ok_def word_less_nat_alt)
  moreover have "td_server ` set ?d = set ?xs"
    by (auto simp: image_image in_set_conv_nth)
  ultimately show ?thesis
    using that by blast
qed

lemma count_segments_ok:
  assumes "responseSize \<noteq> 0" and "minSize \<noteq> 0" and "unat responseSize < 2 ^ 62" and "unat minSize < 2 ^ 62"
    and "maxServers \<noteq> 0" and "unat maxServers < 2 ^ 63"
  shows "count_segments responseSize minSize maxServers \<noteq> 0" and "unat (count_segments responseSize minSize maxServers) < 2 ^ 63"
proof -
  have pos: "0 < unat responseSize" "0 < unat minSize"
    using assms(1,2) unat_gt_0 by blast+
  have "unat (responseSize + minSize) = unat responseSize + unat minSize"
    using assms(3,4) unat_add_lem [of responseSize minSize] by simp
  then have "unat (responseSize + minSize - 1) = unat responseSize + unat minSize - 1"
    using pos by (subst unat_pred_u64) auto
  then have "unat ((responseSize + minSize - 1) div minSize) = (unat responseSize + unat minSize - 1) div unat minSize"
    by (simp add: unat_div)
  moreover have "0 < (unat responseSize + unat minSize - 1) div unat minSize"
    using pos by (simp add: div_greater_zero_iff)
  ultimately have "(responseSize + minSize - 1) div minSize \<noteq> 0"
    by (metis unat_0 less_irrefl)
  then show "count_segments responseSize minSize maxServers \<noteq> 0"
    using assms(1,5) by (auto simp: count_segments_def min_def)
  have "unat (min x maxServers) < 2 ^ 63" for x
    using assms(6) by (auto simp: min_def word_le_nat_alt)
  then show "unat (count_segments responseSize minSize maxServers) < 2 ^ 63"
    using assms(3) by (auto simp: count_segments_def)
qed

lemma requestImpl_begin_ok:
  assumes ok: "ips_ok s" and sizes: "responseSize \<noteq> 0" "minSize \<noteq> 0" "unat responseSize < 2 ^ 62" "unat minSize < 2 ^ 62"
  obtains p t0 where "requestImpl_begin responseSize minSize s = (p, Inr t0)"
    and "run_inv E (ta_todo t0) (set (ps_servers s)) accepted t0" and "pi_taskId (ta_impl t0) = pi_taskId (ps_p2p s)"
    and "length (pi_threads (ta_impl t0)) = length (pi_threads (ps_p2p s))"
    and "qu_taskId (pi_queue (ta_impl t0)) = pi_taskId (ps_p2p s)"
    and "task_weight (set (ps_servers s)) t0
      \<le> length (ta_todo t0) * (5 * length (ps_servers s) + 1) + length (pi_threads (ps_p2p s))"
    and "concat (map (slice data) (ta_todo t0)) = take (unat responseSize) data"
proof -
  let ?max = "getMaxServersCount s (ps_servers s)"
  let ?count = "count_segments responseSize minSize ?max"
  have s: "ps_servers s \<noteq> []" "ps_countConnections s \<noteq> 0" "length (ps_servers s) * unat (ps_countConnections s) < 2 ^ 63"
      "distinct (ps_servers s)" "resting (ps_p2p s)"
    using ok by (simp_all add: ips_ok_def)
  have conn: "0 < unat (ps_countConnections s)"
    using s(2) unat_gt_0 by blast
  then have "length (ps_servers s) \<le> length (ps_servers s) * unat (ps_countConnections s)"
    by simp
  from this s(3) have "length (ps_servers s) < 2 ^ 63"
    by (rule le_less_trans)
  then have "unat (of_nat (length (ps_servers s)) :: u64) = length (ps_servers s)"
    by (intro unat_of_nat_u64) simp
  then have max: "unat ?max = length (ps_servers s) * unat (ps_countConnections s)"
    using s(3) unat_mult_lem [of "ps_countConnections s" "of_nat (length (ps_servers s))"]
    by (simp add: getMaxServersCount_def mult.commute)
  then have "0 < unat ?max"
    using s(1) conn by simp
  then have "?max \<noteq> 0" "unat ?max < 2 ^ 63"
    using s(3) max by (auto simp del: unat_gt_0)
  then have count: "?count \<noteq> 0" "unat ?count < 2 ^ 63"
    using count_segments_ok [OF sizes] by blast+
  obtain segments where segs: "makeSegments ?count responseSize minSize = Inr segments"
    using makeSegments_Inr [OF count(1) sizes(1,2)] by blast
  have small: "2 * unat responseSize < 2 ^ 64"
    using sizes(3) by simp
  obtain distribution where d: "getServersList s (ps_servers s) ?count = Inr distribution"
      "distribution_ok (length (pi_threads (ps_p2p s))) distribution" "td_server ` set distribution = set (ps_servers s)"
    by (rule getServersList_ok [OF ok count])
  obtain p t0 where t0: "start_task responseSize minSize ?count (Inr distribution) (ps_p2p s) = (p, Inr t0)"
      "run_inv E segments (set (ps_servers s)) accepted t0" "pi_taskId (ta_impl t0) = pi_taskId (ps_p2p s)"
      "task_weight (set (ps_servers s)) t0
        \<le> length segments * (5 * card (set (ps_servers s)) + 1) + length (pi_threads (ps_p2p s))"
      "ta_todo t0 = segments" "length (pi_threads (ta_impl t0)) = length (pi_threads (ps_p2p s))"
      "qu_taskId (pi_queue (ta_impl t0)) = pi_taskId (ps_p2p s)"
    using start_task_ok [OF s(5) d(2) segs small] unfolding d(3) by metis
  show ?thesis
    using that [of p t0] t0 d(1) sizes(1) makeSegments_ok(5) [OF segs small] distinct_card [OF s(4)]
    by (simp add: requestImpl_begin_def Let_def)
qed

subsection \<open>The end of a request\<close>

lemma task_step_same:
  assumes "task_step E s s'"
  shows "pi_taskId (ta_impl s') = pi_taskId (ta_impl s) \<and> length (pi_threads (ta_impl s')) = length (pi_threads (ta_impl s))"
  using assms by (cases rule: task_step.cases) auto

lemma task_steps_same:
  assumes "(task_step E)\<^sup>*\<^sup>* s s'"
  shows "pi_taskId (ta_impl s') = pi_taskId (ta_impl s) \<and> length (pi_threads (ta_impl s')) = length (pi_threads (ta_impl s))"
  using assms by (induction rule: rtranclp_induct) (simp_all add: task_step_same)

lemma addElement_taskId: "addElement sg q = Inr q' \<Longrightarrow> qu_taskId q' = qu_taskId q"
  by (auto simp: addElement_def CHECK_def split: if_splits)

lemma task_steps_queue:
  assumes "(task_step E)\<^sup>*\<^sup>* s s'"
  shows "qu_taskId (pi_queue (ta_impl s')) = qu_taskId (pi_queue (ta_impl s))"
  using assms
proof (induction rule: rtranclp_induct)
  case (step s1 s2)
  show ?case
    using step(2)
    by (cases rule: task_step.cases) (simp_all add: step(3) addElement_taskId work_step_same)
qed simp

text \<open>The queue is stopped and the next number is taken, whatever the result.\<close>

lemma process_end_resting:
  assumes inv: "run_inv E segments S accepted s" and fin: "task_finished s"
    and id: "qu_taskId (pi_queue (ta_impl s)) = pi_taskId (ta_impl s)" "pi_taskId (ta_impl s) \<noteq> max_u64"
  obtains p where "process_end (ta_impl s) = (p, Inr (\<not> qu_isError (pi_queue (ta_impl s))))" and "resting p"
    and "length (pi_threads p) = length (pi_threads (ta_impl s))" and "pi_taskId p = pi_taskId (ta_impl s) + 1"
proof -
  let ?p = "ta_impl s"
  let ?ths = "map (\<lambda>t. set_phase (forget_task (th_phase t)) t) (pi_threads ?p)"
  have inv_t: "inv_task segments S accepted s"
    using inv by (simp add: run_inv_def)
  note thr = inv_taskD(1) [OF inv_t]
  have "1 + pi_taskId ?p \<noteq> 0"
    using id(2) by (metis add.commute eq_neg_iff_add_eq_0)
  then have "unat (pi_taskId ?p + 1) = Suc (unat (pi_taskId ?p))"
    by (metis add.commute unatSuc)
  then have next_id: "x \<le> pi_taskId ?p \<Longrightarrow> x < pi_taskId ?p + 1" for x
    by (simp add: word_le_nat_alt word_less_nat_alt)
  have ph: "forget_task (th_phase t) = Idle \<or> forget_task (th_phase t) = Old" if t: "t \<in> set (pi_threads ?p)" for t
  proof -
    obtain i where "i < length (pi_threads ?p)" "t = pi_threads ?p ! i"
      using t by (auto simp: in_set_conv_nth)
    then have "phase_ok segments accepted (pi_queue ?p) (ta_answers s) (th_phase t)"
      using inv_answersD(5) [OF inv_taskD(2) [OF inv_t]] by blast
    then show ?thesis
      by (cases "th_phase t") (simp_all add: phase_ok_def)
  qed
  have num: "th_taskNumber t \<le> pi_taskId ?p" if "t \<in> set (pi_threads ?p)" for t
    using inv_threadsD(5) [OF thr that] id(1) by (auto simp: thread_ok_def split: if_splits)
  have "qu_queue (pi_queue ?p) = []"
    using fin inv_threadsD(2) [OF thr] by (simp add: task_finished_def waitEmpty_returns_def)
  then have "resting (?p\<lparr>pi_queue := queue_stop (pi_queue ?p), pi_taskId := pi_taskId ?p + 1, pi_threads := ?ths\<rparr>)"
    using ph num next_id id(1) by (auto simp: resting_def queue_stop_def)
  then show ?thesis
    using that inv_threadsD(2) [OF thr] by (simp add: process_end_def queue_error_def)
qed

lemma finished_reachable:
  assumes env: "env_ok E segments S accepted" and inv: "run_inv E segments S accepted s"
  shows "\<exists>t. (task_step E)\<^sup>*\<^sup>* s t \<and> task_finished t"
  using inv
proof (induction "task_weight S s" arbitrary: s rule: less_induct)
  case less
  show ?case
  proof (cases "task_finished s")
    case False
    have inv_t: "inv_task segments S accepted s"
      using less.prems by (simp add: run_inv_def)
    obtain s' where s': "task_step E s s'"
      using task_moves [OF env inv_t False] by blast
    have "task_weight S s' < task_weight S s"
      by (rule task_step_weight [OF inv_taskD(1) [OF inv_t] s'])
    moreover have "(task_step E)\<^sup>*\<^sup>* s s'"
      using s' by blast
    then have "run_inv E segments S accepted s'"
      by (rule run_inv_steps [OF _ env less.prems])
    ultimately obtain t where "(task_step E)\<^sup>*\<^sup>* s' t" "task_finished t"
      using less.hyps by blast
    then show ?thesis
      using s' by (meson converse_rtranclp_into_rtranclp)
  qed blast
qed

text \<open>What is left of the object behind a finished task.\<close>

lemma request_done:
  assumes ok: "ips_ok s" and sizes: "responseSize \<noteq> 0" "minSize \<noteq> 0" "unat responseSize < 2 ^ 62" "unat minSize < 2 ^ 62"
    and begin': "requestImpl_begin responseSize minSize s = (p, Inr t0)"
    and env: "env_ok E (ta_todo t0) (set (ps_servers s)) accepted" and id: "pi_taskId (ps_p2p s) \<noteq> max_u64"
    and run: "(task_step E)\<^sup>*\<^sup>* t0 t" "task_finished t"
  obtains p' where "requestImpl_end t = (p', if qu_isError (pi_queue (ta_impl t)) then Inl (Check ''dont run request'') else Inr (ta_answers t))"
    and "ips_ok (s\<lparr>ps_p2p := p'\<rparr>)" and "run_inv E (ta_todo t0) (set (ps_servers s)) accepted t"
    and "pi_taskId p' = pi_taskId (ps_p2p s) + 1"
proof -
  obtain p1 t1 where t1: "requestImpl_begin responseSize minSize s = (p1, Inr t1)"
      "run_inv E (ta_todo t1) (set (ps_servers s)) accepted t1" "pi_taskId (ta_impl t1) = pi_taskId (ps_p2p s)"
      "length (pi_threads (ta_impl t1)) = length (pi_threads (ps_p2p s))"
      "qu_taskId (pi_queue (ta_impl t1)) = pi_taskId (ps_p2p s)"
    by (rule requestImpl_begin_ok [OF ok sizes])
  have [simp]: "t1 = t0"
    using begin' t1(1) by simp
  have inv: "run_inv E (ta_todo t0) (set (ps_servers s)) accepted t"
    using run_inv_steps [OF run(1) env] t1(2) by simp
  have same: "pi_taskId (ta_impl t) = pi_taskId (ps_p2p s)" "length (pi_threads (ta_impl t)) = length (pi_threads (ps_p2p s))"
      "qu_taskId (pi_queue (ta_impl t)) = pi_taskId (ta_impl t)"
    using task_steps_same [OF run(1)] task_steps_queue [OF run(1)] t1(3-5) by simp_all
  obtain p' where "process_end (ta_impl t) = (p', Inr (\<not> qu_isError (pi_queue (ta_impl t))))" "resting p'"
      "length (pi_threads p') = length (pi_threads (ta_impl t))" "pi_taskId p' = pi_taskId (ta_impl t) + 1"
    using process_end_resting [OF inv run(2) same(3)] id same(1) by auto
  then show ?thesis
    using that [of p'] inv ok same by (simp add: requestImpl_end_def ips_ok_def CHECK_def)
qed

subsection \<open>A sample request\<close>

text \<open>Two servers, of which the second, or both, are down.\<close>

definition sample_ips :: P2P_Ips where
  "sample_ips = \<lparr>ps_p2p = P2P_Impl_new 2, ps_servers = [[1], [2]], ps_countConnections = 1\<rparr>"

definition sample_env :: "bool \<Rightarrow> p2p_env" where
  "sample_env up =
     \<lparr>pe_makeQsAndPost = \<lambda>from to. Inr ([], []),
      pe_responseParse = \<lambda>response from to. Inr \<lparr>rp_response = response, rp_error = None\<rparr>,
      pe_isPrecisionSize = True,
      pe_replies = \<lambda>url post r. r = (if up \<and> url = [1, 47] then Inr [7, 8, 9] else Inl (Check ''down''))\<rparr>"

lemma sample_ips_ok: "ips_ok sample_ips"
  by (simp add: ips_ok_def sample_ips_def resting_new) (simp add: P2P_Impl_new_def)

lemma sample_begin:
  obtains p t0 where "requestImpl_begin 3 5 sample_ips = (p, Inr t0)"
    and "ta_todo t0 = [\<lparr>sg_fromByte = 0, sg_toByte = 3, sg_posInArray = 0\<rparr>]"
proof -
  have "case requestImpl_begin 3 5 sample_ips of (p, Inl e) \<Rightarrow> False
      | (p, Inr t0) \<Rightarrow> ta_todo t0 = [\<lparr>sg_fromByte = 0, sg_toByte = 3, sg_posInArray = 0\<rparr>]"
    by code_simp
  then show ?thesis
    using that by (cases "requestImpl_begin 3 5 sample_ips") (auto split: sum.splits)
qed

lemma sample_env_sel:
  "pe_makeQsAndPost (sample_env up) from to = Inr ([], [])"
  "pe_isPrecisionSize (sample_env up)"
  "pe_responseParse (sample_env up) response from to = Inr \<lparr>rp_response = response, rp_error = None\<rparr>"
  "pe_replies (sample_env up) url post r \<longleftrightarrow> r = (if up \<and> url = [1, 47] then Inr [7, 8, 9] else Inl (Check ''down''))"
  by (simp_all add: sample_env_def)

lemma sample_env_ok:
  "env_ok (sample_env up) [\<lparr>sg_fromByte = 0, sg_toByte = 3, sg_posInArray = 0\<rparr>] (set (ps_servers sample_ips))
     (\<lambda>sg answer. up \<and> answer = slice [7, 8, 9] sg)"
  by (auto simp: env_ok_def sample_env_sel sample_ips_def request_may_def accept_response_def size_of_def slice_def split: sum.splits)

lemma sample_good_server: "good_server (sample_env True) [\<lparr>sg_fromByte = 0, sg_toByte = 3, sg_posInArray = 0\<rparr>] [1]"
  by (simp add: good_server_def sample_env_sel request_may_def accept_response_def size_of_def)

text \<open>A run of it to its end.\<close>

lemma sample_run:
  assumes "requestImpl_begin 3 5 sample_ips = (p, Inr t0)"
    and "ta_todo t0 = [\<lparr>sg_fromByte = 0, sg_toByte = 3, sg_posInArray = 0\<rparr>]"
  shows "\<exists>t. (task_step (sample_env up))\<^sup>*\<^sup>* t0 t \<and> task_finished t"
proof -
  let ?accepted = "\<lambda>sg answer. up \<and> answer = slice [7, 8, 9] sg"
  obtain p1 t1 where "requestImpl_begin 3 5 sample_ips = (p1, Inr t1)"
      "run_inv (sample_env up) (ta_todo t1) (set (ps_servers sample_ips)) ?accepted t1"
    by (rule requestImpl_begin_ok [OF sample_ips_ok, of 3 5]) simp_all
  then show ?thesis
    using finished_reachable [OF sample_env_ok] assms by simp
qed

subsection \<open>Properties of a request\<close>

text \<open>C8: A distributed request always ends. In whatever order the threads run, whatever each server
  answers and however it fails, every run of the task has at most
  \<open>segments * (5 * servers + 1) + threads\<close> steps, and no state before the end is stuck.\<close>

theorem distributed_request_ends:
  assumes "ips_ok s" and "responseSize \<noteq> 0" and "minSize \<noteq> 0" and "unat responseSize < 2 ^ 62" and "unat minSize < 2 ^ 62"
    and "requestImpl_begin responseSize minSize s = (p, Inr t0)"
    and "env_ok E (ta_todo t0) (set (ps_servers s)) accepted" and "(task_step E ^^ n) t0 t"
  shows "n \<le> length (ta_todo t0) * (5 * length (ps_servers s) + 1) + length (pi_threads (ps_p2p s)) \<and>
     (task_finished t \<or> (\<exists>t'. task_step E t t'))"
proof -
  obtain p1 t1 where "requestImpl_begin responseSize minSize s = (p1, Inr t1)"
      "run_inv E (ta_todo t1) (set (ps_servers s)) accepted t1"
      "task_weight (set (ps_servers s)) t1
        \<le> length (ta_todo t1) * (5 * length (ps_servers s) + 1) + length (pi_threads (ps_p2p s))"
    by (rule requestImpl_begin_ok [OF assms(1-5)])
  then have inv: "run_inv E (ta_todo t0) (set (ps_servers s)) accepted t0"
    and weight: "task_weight (set (ps_servers s)) t0
        \<le> length (ta_todo t0) * (5 * length (ps_servers s) + 1) + length (pi_threads (ps_p2p s))"
    using assms(6) by simp_all
  have "run_inv E (ta_todo t0) (set (ps_servers s)) accepted t"
    by (rule run_inv_steps [OF relpowp_imp_rtranclp [OF assms(8)] assms(7) inv])
  then have "task_finished t \<or> (\<exists>t'. task_step E t t')"
    using task_moves [OF assms(7)] by (auto simp: run_inv_def)
  then show ?thesis
    using run_length [OF assms(8,7) inv] weight by simp
qed

theorem distributed_request_ends_witness:
  "\<exists>p t0 n t. requestImpl_begin 3 5 sample_ips = (p, Inr t0) \<and> (task_step (sample_env True) ^^ n) t0 t \<and> task_finished t \<and> n \<le> 13"
proof -
  obtain p t0 where t0: "requestImpl_begin 3 5 sample_ips = (p, Inr t0)"
      "ta_todo t0 = [\<lparr>sg_fromByte = 0, sg_toByte = 3, sg_posInArray = 0\<rparr>]"
    by (rule sample_begin)
  obtain n t where t: "(task_step (sample_env True) ^^ n) t0 t" "task_finished t"
    using sample_run [OF t0] rtranclp_imp_relpowp by metis
  have "n \<le> length (ta_todo t0) * (5 * length (ps_servers sample_ips) + 1) + length (pi_threads (ps_p2p sample_ips))"
    using distributed_request_ends [OF sample_ips_ok _ _ _ _ t0(1) _ t(1)] sample_env_ok [of True] unfolding t0(2) by simp
  then show ?thesis
    using t0 t by (auto simp: sample_ips_def P2P_Impl_new_def)
qed

text \<open>C7: A distributed request succeeds as long as one server does: if some server of the list never
  fails, and every answer that passes the checks is the segment that was asked for, then a finished
  task returns the whole data, each byte once and in order, and leaves the object ready for the next
  request. The other servers may fail as they like; a time-out is a failure.\<close>

theorem distributed_request_result:
  assumes "ips_ok s" and "responseSize \<noteq> 0" and "minSize \<noteq> 0" and "unat responseSize < 2 ^ 62" and "unat minSize < 2 ^ 62"
    and "requestImpl_begin responseSize minSize s = (p, Inr t0)"
    and "env_ok E (ta_todo t0) (set (ps_servers s)) (\<lambda>sg answer. answer = slice data sg)" and "pi_taskId (ps_p2p s) \<noteq> max_u64"
    and "(task_step E)\<^sup>*\<^sup>* t0 t" and "task_finished t"
    and "server \<in> set (ps_servers s)" and "good_server E (ta_todo t0) server" and "length data = unat responseSize"
  shows "\<exists>p'. request_end responseSize isPrecisionSize t = (p', Inr data) \<and> ips_ok (s\<lparr>ps_p2p := p'\<rparr>)"
proof -
  let ?segs = "ta_todo t0"
  obtain p' where p': "requestImpl_end t = (p', if qu_isError (pi_queue (ta_impl t)) then Inl (Check ''dont run request'') else Inr (ta_answers t))"
      "ips_ok (s\<lparr>ps_p2p := p'\<rparr>)" and inv: "run_inv E ?segs (set (ps_servers s)) (\<lambda>sg answer. answer = slice data sg) t"
    by (rule request_done [OF assms(1-10)])
  obtain p1 t1 where "requestImpl_begin responseSize minSize s = (p1, Inr t1)"
      "concat (map (slice data) (ta_todo t1)) = take (unat responseSize) data"
    by (rule requestImpl_begin_ok [OF assms(1-5)])
  then have whole: "concat (map (slice data) ?segs) = data"
    using assms(6,13) by simp
  have "\<not> lost E ?segs (set (ps_servers s))"
    using assms(11) good_server_fails [OF assms(12)] unfolding lost_def by blast
  then have no_error: "\<not> qu_isError (pi_queue (ta_impl t))"
    and all: "\<forall>sg \<in> set ?segs. ta_answers t ! unat (sg_posInArray sg) = slice data sg"
    using finished_answers [OF inv assms(10)] by (auto simp: answered_def split: if_splits)
  have ans: "inv_answers ?segs (\<lambda>sg answer. answer = slice data sg) (ta_todo t) (pi_queue (ta_impl t)) (pi_threads (ta_impl t)) (ta_answers t)"
    using inv by (simp add: run_inv_def inv_task_def)
  have "ta_answers t ! i = slice data (?segs ! i)" if "i < length ?segs" for i
    using bspec [OF all nth_mem [OF that]] inv_answersD(1) [OF ans] that by (simp add: positions_ok_def)
  then have "ta_answers t = map (slice data) ?segs"
    using inv_answersD(2) [OF ans] by (intro nth_equalityI) simp_all
  moreover have "size_of data = responseSize"
    using assms(13) by (simp add: size_of_def)
  ultimately show ?thesis
    using p' no_error whole by (simp add: request_end_def Let_def)
qed

theorem distributed_request_result_witness:
  "\<exists>p t0 t p'. requestImpl_begin 3 5 sample_ips = (p, Inr t0) \<and> (task_step (sample_env True))\<^sup>*\<^sup>* t0 t \<and> task_finished t \<and>
     request_end 3 True t = (p', Inr [7, 8, 9])"
proof -
  obtain p t0 where t0: "requestImpl_begin 3 5 sample_ips = (p, Inr t0)"
      "ta_todo t0 = [\<lparr>sg_fromByte = 0, sg_toByte = 3, sg_posInArray = 0\<rparr>]"
    by (rule sample_begin)
  obtain t where t: "(task_step (sample_env True))\<^sup>*\<^sup>* t0 t" "task_finished t"
    using sample_run [OF t0] by blast
  have "\<exists>p'. request_end 3 True t = (p', Inr [7, 8, 9]) \<and> ips_ok (sample_ips\<lparr>ps_p2p := p'\<rparr>)"
    by (rule distributed_request_result [OF sample_ips_ok _ _ _ _ t0(1) _ _ t, of "[7, 8, 9]" "[1]"])
      (use sample_env_ok [of True] sample_good_server in \<open>simp_all add: t0(2) sample_ips_def P2P_Impl_new_def\<close>)
  then show ?thesis
    using t0 t by blast
qed

text \<open>C29: A distributed request fails for one reason only. If a finished task reports an error, there
  is a segment that every server of the list has failed to answer, the error is the exception
  \<open>dont run request\<close>, and the object is ready for the next request all the same.\<close>

theorem distributed_request_fails:
  assumes "ips_ok s" and "responseSize \<noteq> 0" and "minSize \<noteq> 0" and "unat responseSize < 2 ^ 62" and "unat minSize < 2 ^ 62"
    and "requestImpl_begin responseSize minSize s = (p, Inr t0)"
    and "env_ok E (ta_todo t0) (set (ps_servers s)) accepted" and "pi_taskId (ps_p2p s) \<noteq> max_u64"
    and "(task_step E)\<^sup>*\<^sup>* t0 t" and "task_finished t" and "requestImpl_end t = (p', Inl e)"
  shows "e = Check ''dont run request'' \<and> ips_ok (s\<lparr>ps_p2p := p'\<rparr>) \<and>
     (\<exists>sg \<in> set (ta_todo t0). \<forall>server \<in> set (ps_servers s). fails E server sg)"
proof -
  obtain p'' where p'': "requestImpl_end t = (p'', if qu_isError (pi_queue (ta_impl t)) then Inl (Check ''dont run request'') else Inr (ta_answers t))"
      "ips_ok (s\<lparr>ps_p2p := p''\<rparr>)" and inv: "run_inv E (ta_todo t0) (set (ps_servers s)) accepted t"
    by (rule request_done [OF assms(1-10)])
  have err: "qu_isError (pi_queue (ta_impl t))" "e = Check ''dont run request''" "p'' = p'"
    using p''(1) assms(11) by (auto split: if_splits)
  then show ?thesis
    using finished_answers [OF inv assms(10)] p''(2) by (simp add: lost_def)
qed

theorem distributed_request_fails_witness:
  "\<exists>p t0 t p'. requestImpl_begin 3 5 sample_ips = (p, Inr t0) \<and> (task_step (sample_env False))\<^sup>*\<^sup>* t0 t \<and> task_finished t \<and>
     requestImpl_end t = (p', Inl (Check ''dont run request'')) \<and> ips_ok (sample_ips\<lparr>ps_p2p := p'\<rparr>)"
proof -
  obtain p t0 where t0: "requestImpl_begin 3 5 sample_ips = (p, Inr t0)"
      "ta_todo t0 = [\<lparr>sg_fromByte = 0, sg_toByte = 3, sg_posInArray = 0\<rparr>]"
    by (rule sample_begin)
  obtain t where t: "(task_step (sample_env False))\<^sup>*\<^sup>* t0 t" "task_finished t"
    using sample_run [OF t0] by blast
  have sizes: "(3 :: u64) \<noteq> 0" "(5 :: u64) \<noteq> 0" "unat (3 :: u64) < 2 ^ 62" "unat (5 :: u64) < 2 ^ 62"
    and id: "pi_taskId (ps_p2p sample_ips) \<noteq> max_u64"
    and env: "env_ok (sample_env False) (ta_todo t0) (set (ps_servers sample_ips)) (\<lambda>sg answer. False)"
    using sample_env_ok [of False] by (simp_all add: t0(2) sample_ips_def P2P_Impl_new_def)
  obtain p' where p': "requestImpl_end t = (p', if qu_isError (pi_queue (ta_impl t)) then Inl (Check ''dont run request'') else Inr (ta_answers t))"
    and inv: "run_inv (sample_env False) (ta_todo t0) (set (ps_servers sample_ips)) (\<lambda>sg answer. False) t"
    by (rule request_done [OF sample_ips_ok sizes t0(1) env id t])
  have "requestImpl_end t = (p', Inl (Check ''dont run request''))"
    using p' finished_answers [OF inv t(2)] by (auto simp: t0(2) answered_def split: if_splits)
  then show ?thesis
    using distributed_request_fails [OF sample_ips_ok sizes t0(1) env id t] t0(1) t by blast
qed

text \<open>C32: A request that cannot give its threads the task leaves the queue started: \<open>process\<close> throws
  between \<open>start\<close> and \<open>stop\<close>, and every later request of the same object is refused.\<close>

theorem failed_begin_blocks_requests:
  assumes "resting p" and "process_begin distribution p = (p', Inl e)"
  shows "process_begin distribution' p' = (p', Inl (Check ''Already started''))"
proof -
  let ?q = "(pi_queue p)\<lparr>qu_isStopped := False, qu_isError := False, qu_taskId := pi_taskId p\<rparr>"
  have "queue_start (pi_taskId p) (pi_queue p) = (?q, Inr ())"
    using assms(1) by (simp add: resting_def queue_start_def not_le Let_def)
  then have "\<not> qu_isStopped (pi_queue p')"
    using assms(2) by (auto simp: process_begin_def split: prod.splits)
  then show ?thesis
    by (simp add: process_begin_def queue_start_def)
qed

theorem failed_begin_blocks_requests_witness:
  "case P2P_Ips_new [[1], [1]] 1 of Inl e \<Rightarrow> False | Inr s \<Rightarrow>
     (case getServersList s (ps_servers s) 2 of Inl e \<Rightarrow> False | Inr distribution \<Rightarrow>
       (case process_begin distribution (ps_p2p s) of (p', r) \<Rightarrow>
          r = Inl (Check ''Incorrect sequences task'') \<and>
          process_begin distribution p' = (p', Inl (Check ''Already started''))))"
proof -
  let ?s = "\<lparr>ps_p2p = P2P_Impl_new 2, ps_servers = [[1], [1]], ps_countConnections = 1\<rparr>"
  let ?d = "[\<lparr>td_from = 0, td_to = 1, td_server = [1 :: 8 word]\<rparr>, \<lparr>td_from = 0, td_to = 1, td_server = [1]\<rparr>]"
  have s: "P2P_Ips_new [[1], [1]] 1 = Inr ?s" "getServersList ?s (ps_servers ?s) 2 = Inr ?d"
    by code_simp+
  have "snd (process_begin ?d (P2P_Impl_new 2)) = Inl (Check ''Incorrect sequences task'')"
    by code_simp
  then obtain p' where p': "process_begin ?d (P2P_Impl_new 2) = (p', Inl (Check ''Incorrect sequences task''))"
    by (cases "process_begin ?d (P2P_Impl_new 2)") simp
  then show ?thesis
    using failed_begin_blocks_requests [OF resting_new p', of ?d] s by simp
qed

end
