(* ===== verification/Json.thy ===== *)
theory Json
  imports Serialize Address Reader
begin

section \<open>Compression (utils/compress)\<close>

text \<open>
  LZ4 is a library: \<open>lz_compress\<close> is what it writes to a buffer of the size \<open>LZ4_compressBound\<close>, empty
  when it returns 0; \<open>lz_decompress\<close> what it writes to a buffer of the given size, \<open>None\<close> for a
  negative result, and \<open>lz_buffer\<close> what the buffer holds then. The size of the data, truncated to 32
  bits, stands in front of it.
\<close>

record lz4 =
  lz_compress :: "bytes \<Rightarrow> bytes"
  lz_decompress :: "bytes \<Rightarrow> nat \<Rightarrow> bytes option"
  lz_buffer :: "bytes \<Rightarrow> nat \<Rightarrow> bytes"

definition LZ4_MAX_INPUT_SIZE :: nat where "LZ4_MAX_INPUT_SIZE = 0x7E000000"

definition LZ4_compressBound :: "nat \<Rightarrow> nat" where
  "LZ4_compressBound isize = (if isize > LZ4_MAX_INPUT_SIZE then 0 else isize + isize div 255 + 16)"

definition compress :: "lz4 \<Rightarrow> bytes \<Rightarrow> bytes" where
  "compress Z src =
     (if src = [] then []
      else
        let isize = length src mod 2 ^ 32;
            bound_size = LZ4_compressBound isize
        in if bound_size = 0 then []
           else
             let out = lz_compress Z (take isize src)
             in if out = [] then replicate (bound_size + 4) 0
                else le_bytes 4 (size_of src) @ out)"

definition decompress :: "lz4 \<Rightarrow> bytes \<Rightarrow> bytes" where
  "decompress Z src =
     (if length src \<le> 4 then []
      else
        let orig_size = unat (le_val (take 4 src))
        in case lz_decompress Z (drop 4 src) orig_size of None \<Rightarrow> lz_buffer Z (drop 4 src) orig_size | Some out \<Rightarrow> out)"

definition lz4_ok :: "lz4 \<Rightarrow> bool" where
  "lz4_ok Z \<longleftrightarrow> (\<forall>s. s \<noteq> [] \<longrightarrow> length s \<le> LZ4_MAX_INPUT_SIZE \<longrightarrow>
     lz_compress Z s \<noteq> [] \<and> lz_decompress Z (lz_compress Z s) (length s) = Some s)"

lemma decompress_compress:
  assumes "lz4_ok Z" and "length s \<le> LZ4_MAX_INPUT_SIZE"
  shows "decompress Z (compress Z s) = s"
proof (cases "s = []")
  case False
  have small: "length s < 2 ^ 32"
    using assms(2) by (simp add: LZ4_MAX_INPUT_SIZE_def)
  have ok: "lz_compress Z s \<noteq> []" "lz_decompress Z (lz_compress Z s) (length s) = Some s"
    using assms False by (simp_all add: lz4_ok_def)
  have n: "unat (size_of s) = length s"
    unfolding size_of_def using small by (intro unat_of_nat_u64) simp
  then have "take_bit (8 * 4) (size_of s) = size_of s"
    using small by (intro take_bit_less) (simp add: word_less_nat_alt)
  then have "unat (take_bit (8 * 4) (size_of s)) = length s"
    using n by simp
  then show ?thesis
    using False ok small assms(2)
    by (simp add: compress_def decompress_def Let_def LZ4_compressBound_def le_val_le_bytes)
qed (simp add: compress_def decompress_def)

section \<open>JSON documents (rapidjson)\<close>

text \<open>
  The documents that are read and written, as \<open>rapidjson::Value\<close> has them: the members of an object
  in the order in which they were added, possibly with the same name twice; a number is an integer or
  something else. The accessors have the assertions of the library: their failure is undefined.

  Parsing and printing, the helpers of \<open>jsonUtils\<close> and the conversion to hexadecimal are not part of
  this repository: \<open>json_lib\<close>.
\<close>

datatype json =
    JNull
  | JBool bool
  | JInt int
  | JNumber bytes
  | JString bytes
  | JArray "json list"
  | JObject "(bytes \<times> json) list"

text \<open>\<open>jl_print\<close> takes the second argument of \<open>jsonToString\<close>, when it is given.\<close>

record json_lib =
  jl_parse :: "bytes \<Rightarrow> json option"
  jl_print :: "bool option \<Rightarrow> json \<Rightarrow> bytes"
  jl_message :: "json \<Rightarrow> string"
  jl_strToJson :: "bytes \<Rightarrow> json"
  jl_getString :: "json \<Rightarrow> bytes result"
  jl_getArray :: "json \<Rightarrow> bytes \<Rightarrow> json list result"
  jl_toHex :: "bytes \<Rightarrow> bytes"
  jl_lz4 :: lz4

text \<open>What is documented of them: a printed document is parsed back when its integers fit into 64 bits, an
  empty text is not a document.\<close>

fun json_fits :: "json \<Rightarrow> bool" where
  "json_fits (JInt i) = (- (2 ^ 63) \<le> i \<and> i < 2 ^ 64)"
| "json_fits (JArray xs) = (\<forall>x \<in> set xs. json_fits x)"
| "json_fits (JObject ms) = (\<forall>m \<in> set ms. json_fits (snd m))"
| "json_fits _ = True"

definition json_lib_ok :: "json_lib \<Rightarrow> bool" where
  "json_lib_ok J \<longleftrightarrow>
     (\<forall>f v. json_fits v \<longrightarrow> jl_parse J (jl_print J f v) = Some v) \<and> (\<forall>f v. 0 \<notin> set (jl_print J f v)) \<and> jl_parse J [] = None \<and>
     (\<forall>s. jl_strToJson J s = JString s \<and> jl_getString J (JString s) = Inr s) \<and>
     (\<forall>ms name xs. map_of ms name = Some (JArray xs) \<longrightarrow> jl_getArray J (JObject ms) name = Inr xs) \<and>
     (\<forall>s. 0 \<notin> set (jl_toHex J s)) \<and> inj (jl_toHex J) \<and> lz4_ok (jl_lz4 J)"

subsection \<open>Accessors\<close>

text \<open>A C string ends at the first zero byte.\<close>

definition c_str :: "bytes \<Rightarrow> bytes" where
  "c_str s = takeWhile (\<lambda>c. c \<noteq> 0) s"

definition HasMember :: "bytes \<Rightarrow> json \<Rightarrow> bool result" where
  "HasMember name v = (case v of JObject ms \<Rightarrow> Inr (map_of ms name \<noteq> None) | _ \<Rightarrow> Inl Undefined)"

definition json_at :: "bytes \<Rightarrow> json \<Rightarrow> json result" where
  "json_at name v =
     (case v of JObject ms \<Rightarrow> (case map_of ms name of None \<Rightarrow> Inl Undefined | Some x \<Rightarrow> Inr x) | _ \<Rightarrow> Inl Undefined)"

fun IsNull :: "json \<Rightarrow> bool" where
  "IsNull JNull = True"
| "IsNull _ = False"

fun IsString :: "json \<Rightarrow> bool" where
  "IsString (JString s) = True"
| "IsString _ = False"

fun IsArray :: "json \<Rightarrow> bool" where
  "IsArray (JArray xs) = True"
| "IsArray _ = False"

fun IsObject :: "json \<Rightarrow> bool" where
  "IsObject (JObject ms) = True"
| "IsObject _ = False"

fun IsInt :: "json \<Rightarrow> bool" where
  "IsInt (JInt i) = (- (2 ^ 31) \<le> i \<and> i < 2 ^ 31)"
| "IsInt _ = False"

fun IsInt64 :: "json \<Rightarrow> bool" where
  "IsInt64 (JInt i) = (- (2 ^ 63) \<le> i \<and> i < 2 ^ 63)"
| "IsInt64 _ = False"

text \<open>\<open>GetInt\<close> and \<open>GetInt64\<close>, converted to \<open>size_t\<close>; \<open>GetString\<close>, converted to \<open>std::string\<close>.\<close>

fun GetInt :: "json \<Rightarrow> u64" where
  "GetInt (JInt i) = word_of_int i"
| "GetInt _ = 0"

fun GetString :: "json \<Rightarrow> bytes" where
  "GetString (JString s) = c_str s"
| "GetString _ = []"

fun GetArray :: "json \<Rightarrow> json list" where
  "GetArray (JArray xs) = xs"
| "GetArray _ = []"

fun AddMember :: "bytes \<Rightarrow> json \<Rightarrow> json \<Rightarrow> json" where
  "AddMember name x (JObject ms) = JObject (ms @ [(name, x)])"
| "AddMember name x v = v"

text \<open>\<open>RemoveMember\<close> puts the last member in the place of the removed one.\<close>

fun remove_member :: "bytes \<Rightarrow> (bytes \<times> json) list \<Rightarrow> (bytes \<times> json) list" where
  "remove_member name [] = []"
| "remove_member name ((n, x) # ms) =
     (if n = name then (if ms = [] then [] else last ms # butlast ms) else (n, x) # remove_member name ms)"

fun RemoveMember :: "bytes \<Rightarrow> json \<Rightarrow> json" where
  "RemoveMember name (JObject ms) = JObject (remove_member name ms)"
| "RemoveMember name v = v"

text \<open>Changing the first member of a name in place: a reference returned by \<open>operator[]\<close>.\<close>

fun change_member :: "bytes \<Rightarrow> (json \<Rightarrow> json) \<Rightarrow> (bytes \<times> json) list \<Rightarrow> (bytes \<times> json) list option" where
  "change_member name f [] = None"
| "change_member name f ((n, x) # ms) =
     (if n = name then Some ((n, f x) # ms) else map_option (\<lambda>ms. (n, x) # ms) (change_member name f ms))"

definition json_change :: "bytes \<Rightarrow> (json \<Rightarrow> json) \<Rightarrow> json \<Rightarrow> json result" where
  "json_change name f v =
     (case v of
        JObject ms \<Rightarrow> (case change_member name f ms of None \<Rightarrow> Inl Undefined | Some ms \<Rightarrow> Inr (JObject ms))
      | _ \<Rightarrow> Inl Undefined)"

subsection \<open>Numbers as text\<close>

fun nat_to_string :: "nat \<Rightarrow> bytes" where
  "nat_to_string n = (if n < 10 then [of_nat (48 + n)] else nat_to_string (n div 10) @ [of_nat (48 + n mod 10)])"

declare nat_to_string.simps [simp del]

definition int_to_string :: "int \<Rightarrow> bytes" where
  "int_to_string i = (if i < 0 then lit ''-'' @ nat_to_string (nat (- i)) else nat_to_string (nat i))"

definition to_string :: "u64 \<Rightarrow> bytes" where
  "to_string n = nat_to_string (unat n)"

text \<open>\<open>intOrString\<close>, on the value of an integer of any type.\<close>

definition intOrString :: "json_lib \<Rightarrow> bool \<Rightarrow> int \<Rightarrow> json" where
  "intOrString J isString i = (if isString then jl_strToJson J (int_to_string i) else JInt i)"

lemma nat_to_string_nonempty [simp]: "nat_to_string n \<noteq> []"
  by (subst nat_to_string.simps) simp

lemma json_lib_okD:
  assumes "json_lib_ok J"
  shows "json_fits v \<Longrightarrow> jl_parse J (jl_print J f v) = Some v" and "jl_parse J [] = None" and "c_str (jl_print J f v) = jl_print J f v"
    and "jl_strToJson J s = JString s" and "jl_getString J (JString s) = Inr s"
    and "map_of ms name = Some (JArray xs) \<Longrightarrow> jl_getArray J (JObject ms) name = Inr xs"
    and "c_str (jl_toHex J s) = jl_toHex J s" and "jl_toHex J s = jl_toHex J t \<longleftrightarrow> s = t"
    and "lz4_ok (jl_lz4 J)"
proof -
  have "0 \<notin> set (jl_print J f v)" "0 \<notin> set (jl_toHex J s)"
    using assms by (simp_all add: json_lib_ok_def)
  then show "c_str (jl_print J f v) = jl_print J f v" "c_str (jl_toHex J s) = jl_toHex J s"
    by (auto simp: c_str_def takeWhile_eq_all_conv)
  show "jl_toHex J s = jl_toHex J t \<longleftrightarrow> s = t"
    using assms by (auto simp: json_lib_ok_def inj_def)
qed (use assms in \<open>simp_all add: json_lib_ok_def\<close>)

end
