(* ===== verification/NewBlocksMessages.thy ===== *)
theory NewBlocksMessages
  imports Json OrderedMap
begin

section \<open>Messages between nodes: the side that asks (get_new_blocks_messages)\<close>

text \<open>
  The requests for blocks as texts, and what is made of the answers: counts of blocks, headers of
  blocks, dumps of blocks, and the block of data that holds all of them at once (\<open>pre-load\<close>).
  A \<open>std::set\<close> of strings is a strictly increasing list.
\<close>

subsection \<open>Requests\<close>

definition bool_text :: "bool \<Rightarrow> bytes" where
  "bool_text b = (if b then lit ''true'' else lit ''false'')"

definition makeGetCountBlocksMessage :: bytes where
  "makeGetCountBlocksMessage = lit ''{\"method\": \"get-count-blocks\", \"params\": {\"type\": \"forP2P\"}}''"

definition makePreloadBlocksMessage :: "u64 \<Rightarrow> bool \<Rightarrow> bool \<Rightarrow> u64 \<Rightarrow> u64 \<Rightarrow> bytes" where
  "makePreloadBlocksMessage currentBlock isCompress isSign preloadBlocks maxBlockSize =
     lit ''{\"method\": \"pre-load\", \"id\": 1, \"params\": {\"currentBlock\": '' @ to_string currentBlock @
     lit '', \"compress\": '' @ bool_text isCompress @ lit '', \"isSign\": '' @ bool_text isSign @
     lit '', \"preLoad\": '' @ to_string preloadBlocks @ lit '', \"maxBlockSize\": '' @ to_string maxBlockSize @ lit ''}}''"

definition makeGetBlocksMessage :: "u64 \<Rightarrow> u64 \<Rightarrow> bytes" where
  "makeGetBlocksMessage beginBlock countBlocks =
     lit ''{\"method\": \"get-blocks\", \"id\": 1, \"params\": {\"beginBlock\": '' @ to_string beginBlock @
     lit '', \"countBlocks\": '' @ to_string countBlocks @ lit '', \"type\": \"forP2P\", \"direction\": \"forward\"}}''"

definition makeGetBlockByNumberMessage :: "u64 \<Rightarrow> bytes" where
  "makeGetBlockByNumberMessage blockNumber =
     lit ''{\"method\": \"get-block-by-number\", \"id\": 1, \"params\": {\"number\": '' @ to_string blockNumber @
     lit '', \"type\": \"forP2P\"}}''"

definition makeGetDumpBlockMessage_part :: "bytes \<Rightarrow> u64 \<Rightarrow> u64 \<Rightarrow> bool \<Rightarrow> bool \<Rightarrow> bytes" where
  "makeGetDumpBlockMessage_part blockHash fromByte toByte isSign isCompress =
     lit ''{\"method\": \"get-dump-block-by-hash\", \"id\": 1, \"params\": {\"hash\": \"'' @ blockHash @
     lit ''\" , \"fromByte\": '' @ to_string fromByte @ lit '', \"toByte\": '' @ to_string toByte @
     lit '', \"isHex\": false, \"compress\": '' @ bool_text isCompress @ lit '', \"isSign\": '' @ bool_text isSign @ lit ''}}''"

definition makeGetDumpBlockMessage :: "bytes \<Rightarrow> bool \<Rightarrow> bool \<Rightarrow> bytes" where
  "makeGetDumpBlockMessage blockHash isSign isCompress =
     lit ''{\"method\": \"get-dump-block-by-hash\", \"id\": 1, \"params\": {\"hash\": \"'' @ blockHash @
     lit ''\", \"isHex\": false, \"compress\": '' @ bool_text isCompress @ lit '', \"isSign\": '' @ bool_text isSign @ lit ''}}''"

fun quoted_list :: "bool \<Rightarrow> bytes list \<Rightarrow> bytes" where
  "quoted_list isFirst [] = []"
| "quoted_list isFirst (hash # hashes) =
     (if isFirst then [] else lit '', '') @ lit ''\"'' @ hash @ lit ''\"'' @ quoted_list False hashes"

definition makeGetDumpsBlocksMessage :: "bytes list \<Rightarrow> bool \<Rightarrow> bool \<Rightarrow> bytes" where
  "makeGetDumpsBlocksMessage hashes isSign isCompress =
     lit ''{\"method\": \"get-dumps-blocks-by-hash\", \"id\":1,\"params\":{\"hashes\": ['' @ quoted_list True hashes @
     lit ''], \"isSign\": '' @ bool_text isSign @ lit '', \"compress\": '' @ bool_text isCompress @ lit ''}}''"

subsection \<open>Answers\<close>

definition parse_document :: "json_lib \<Rightarrow> bytes \<Rightarrow> json result" where
  "parse_document J response =
     (case jl_parse J (c_str response) of None \<Rightarrow> Inl (Check ''rapidjson parse error. Data: '') | Some doc \<Rightarrow> Inr doc)"

text \<open>\<open>CHECK(!doc.HasMember("error") || doc["error"].IsNull(), ...)\<close>.\<close>

definition check_no_error :: "json_lib \<Rightarrow> json \<Rightarrow> unit result" where
  "check_no_error J doc =
     bindE (HasMember (lit ''error'') doc) (\<lambda>has.
     if \<not> has then Inr ()
     else bindE (json_at (lit ''error'') doc) (\<lambda>error. CHECK (IsNull error) (jl_message J error)))"

text \<open>\<open>CHECK(v.HasMember(name) && v[name].IsX(), ...)\<close>, and then the member.\<close>

definition checked_member :: "(json \<Rightarrow> bool) \<Rightarrow> string \<Rightarrow> bytes \<Rightarrow> json \<Rightarrow> json result" where
  "checked_member is msg name v =
     bindE (HasMember name v) (\<lambda>has.
     bindE (CHECK has msg) (\<lambda>_.
     bindE (json_at name v) (\<lambda>x.
     bindE (CHECK (is x) msg) (\<lambda>_. Inr x))))"

fun getStrings :: "json_lib \<Rightarrow> json list \<Rightarrow> bytes list result" where
  "getStrings J [] = Inr []"
| "getStrings J (x # xs) = bindE (jl_getString J x) (\<lambda>s. bindE (getStrings J xs) (\<lambda>ss. Inr (s # ss)))"

text \<open>The optional array of hashes of a document, as a set.\<close>

definition extra_blocks :: "json_lib \<Rightarrow> bytes \<Rightarrow> json \<Rightarrow> bytes list result" where
  "extra_blocks J name v =
     bindE (HasMember name v) (\<lambda>has.
     if \<not> has then Inr []
     else bindE (json_at name v) (\<lambda>x.
       if \<not> IsArray x then Inr []
       else bindE (getStrings J (GetArray x)) (\<lambda>ss. Inr (fold List.insort_insert ss []))))"

definition parseCountBlocksMessage :: "json_lib \<Rightarrow> bytes \<Rightarrow> (u64 \<times> bytes list) result" where
  "parseCountBlocksMessage J response =
     bindE (parse_document J response) (\<lambda>doc.
     bindE (check_no_error J doc) (\<lambda>_.
     bindE (checked_member IsObject ''result field not found'' (lit ''result'') doc) (\<lambda>resultJson.
     bindE (checked_member IsInt ''count_blocks field not found'' (lit ''count_blocks'') resultJson) (\<lambda>countBlocks.
     bindE (extra_blocks J (lit ''next_extra_blocks'') resultJson) (\<lambda>nextExtraBlocks.
     Inr (GetInt countBlocks, nextExtraBlocks))))))"

record PreloadBlocksResponse =
  pl_countBlocks :: u64
  pl_blockHeaders :: bytes
  pl_additingBlocksHashes :: bytes
  pl_blockDumps :: bytes
  pl_error :: "string option"

definition preload_error :: "json_lib \<Rightarrow> bytes \<Rightarrow> string option result" where
  "preload_error J response =
     (if length response \<le> 320
      then case jl_parse J (c_str response) of
             None \<Rightarrow> Inr None
           | Some doc \<Rightarrow>
               bindE (HasMember (lit ''error'') doc) (\<lambda>has.
               bindE (CHECK has ''Unknown response'') (\<lambda>_.
               bindE (json_at (lit ''error'') doc) (\<lambda>error.
               bindE (CHECK (\<not> IsNull error) ''Unknown response'') (\<lambda>_.
               Inr (Some (jl_message J error))))))
      else Inr None)"

text \<open>One of the three parts behind the sizes.\<close>

definition preload_part :: "bytes \<Rightarrow> u64 \<Rightarrow> u64 \<Rightarrow> (bytes \<times> u64) result" where
  "preload_part response size' pos =
     bindE (CHECK (pos + size' \<le> size_of response) ''Incorrect response'') (\<lambda>_.
     bindE (substr response pos size') (\<lambda>part. Inr (part, pos + size')))"

definition parsePreloadBlocksMessage :: "json_lib \<Rightarrow> bytes \<Rightarrow> PreloadBlocksResponse result" where
  "parsePreloadBlocksMessage J response =
     bindE (preload_error J response) (\<lambda>error.
     if error \<noteq> None
     then Inr \<lparr>pl_countBlocks = 0, pl_blockHeaders = [], pl_additingBlocksHashes = [], pl_blockDumps = [], pl_error = error\<rparr>
     else
       bindE (deserializeInt response 0) (\<lambda>(sizeHeaders, pos).
       bindE (deserializeInt response pos) (\<lambda>(sizeAdditingBlocksHashes, pos).
       bindE (deserializeInt response pos) (\<lambda>(sizeBlocks, pos).
       bindE (deserializeInt response pos) (\<lambda>(countBlocks, pos).
       bindE (preload_part response sizeHeaders pos) (\<lambda>(blockHeaders, pos).
       bindE (preload_part response sizeAdditingBlocksHashes pos) (\<lambda>(additingBlocksHashes, pos).
       bindE (preload_part response sizeBlocks pos) (\<lambda>(blockDumps, pos).
       bindE (CHECK (pos = size_of response) ''Incorrect response'') (\<lambda>_.
       Inr \<lparr>pl_countBlocks = countBlocks, pl_blockHeaders = blockHeaders,
            pl_additingBlocksHashes = additingBlocksHashes, pl_blockDumps = blockDumps, pl_error = None\<rparr>)))))))))"

definition parseDumpBlockBinary :: "json_lib \<Rightarrow> bool \<Rightarrow> bytes \<Rightarrow> bytes" where
  "parseDumpBlockBinary J isCompress response = (if \<not> isCompress then response else decompress (jl_lz4 J) response)"

text \<open>The loop may go round in circles when a length wraps around; \<open>None\<close> is a loop that does not end.\<close>

partial_function (option) read_dumps :: "bytes \<Rightarrow> u64 \<Rightarrow> bytes list result option" where
  [code]: "read_dumps r from =
     (if from < size_of r
      then case deserializeString r from of
             Inl e \<Rightarrow> Some (Inl e)
           | Inr (s, from) \<Rightarrow>
               Option.bind (read_dumps r from) (\<lambda>res. Some (bindE res (\<lambda>res. Inr (s # res))))
      else Some (Inr []))"

definition parseDumpBlocksBinary :: "json_lib \<Rightarrow> bool \<Rightarrow> bytes \<Rightarrow> bytes list result option" where
  "parseDumpBlocksBinary J isCompress response = read_dumps (if isCompress then decompress (jl_lz4 J) response else response) 0"

definition parseAdditionalBlockHashes :: "json_lib \<Rightarrow> bytes \<Rightarrow> bytes list result" where
  "parseAdditionalBlockHashes J response =
     (if response = [] then Inr []
      else
        bindE (parse_document J response) (\<lambda>doc.
        bindE (check_no_error J doc) (\<lambda>_.
        bindE (jl_getArray J doc (lit ''result'')) (\<lambda>jsonArray.
        getStrings J jsonArray))))"

record MinimumBlockHeader =
  mh_number :: u64
  mh_blockSize :: u64
  mh_hash :: bytes
  mh_parentHash :: bytes
  mh_fileName :: bytes
  mh_prevExtraBlocks :: "bytes list"
  mh_nextExtraBlocks :: "bytes list"

definition header_of_json :: "json_lib \<Rightarrow> json \<Rightarrow> MinimumBlockHeader result" where
  "header_of_json J v =
     bindE (checked_member IsInt64 ''number field not found'' (lit ''number'') v) (\<lambda>number.
     bindE (checked_member IsString ''hash field not found'' (lit ''hash'') v) (\<lambda>hash.
     bindE (checked_member IsString ''prev_hash field not found'' (lit ''prev_hash'') v) (\<lambda>prevHash.
     bindE (checked_member IsInt64 ''size field not found'' (lit ''size'') v) (\<lambda>blockSize.
     bindE (checked_member IsString ''fileName field not found'' (lit ''fileName'') v) (\<lambda>fileName.
     bindE (extra_blocks J (lit ''prev_extra_blocks'') v) (\<lambda>prevExtraBlocks.
     bindE (extra_blocks J (lit ''next_extra_blocks'') v) (\<lambda>nextExtraBlocks.
     Inr \<lparr>mh_number = GetInt number, mh_blockSize = GetInt blockSize, mh_hash = GetString hash,
          mh_parentHash = GetString prevHash, mh_fileName = GetString fileName,
          mh_prevExtraBlocks = prevExtraBlocks, mh_nextExtraBlocks = nextExtraBlocks\<rparr>)))))))"

definition parseBlockHeader :: "json_lib \<Rightarrow> bytes \<Rightarrow> MinimumBlockHeader result" where
  "parseBlockHeader J response =
     bindE (parse_document J response) (\<lambda>doc.
     bindE (check_no_error J doc) (\<lambda>_.
     bindE (checked_member IsObject ''result field not found'' (lit ''result'') doc) (\<lambda>resultJson.
     header_of_json J resultJson)))"

fun headers_of_json :: "json_lib \<Rightarrow> json list \<Rightarrow> MinimumBlockHeader list result" where
  "headers_of_json J [] = Inr []"
| "headers_of_json J (v # vs) =
     bindE (CHECK (IsObject v) ''result field not found'') (\<lambda>_.
     bindE (header_of_json J v) (\<lambda>h.
     bindE (headers_of_json J vs) (\<lambda>hs. Inr (h # hs))))"

definition parseBlocksHeader :: "json_lib \<Rightarrow> bytes \<Rightarrow> MinimumBlockHeader list result" where
  "parseBlocksHeader J response =
     bindE (parse_document J response) (\<lambda>doc.
     bindE (check_no_error J doc) (\<lambda>_.
     bindE (checked_member IsArray ''result field not found'' (lit ''result'') doc) (\<lambda>resultJson.
     headers_of_json J (GetArray resultJson))))"

definition checkErrorGetBlockResponse :: "json_lib \<Rightarrow> bytes \<Rightarrow> u64 \<Rightarrow> string option result" where
  "checkErrorGetBlockResponse J response countBlocks =
     (case jl_parse J (c_str response) of
        None \<Rightarrow> Inr (Some ''result not parsed'')
      | Some doc \<Rightarrow>
          bindE (HasMember (lit ''error'') doc) (\<lambda>has.
          bindE (if has then json_at (lit ''error'') doc else Inr JNull) (\<lambda>error.
          if has \<and> \<not> IsNull error then Inr (Some (jl_message J error))
          else bindE (json_at (lit ''result'') doc) (\<lambda>resultJson.
            if IsArray resultJson
            then Inr (if of_nat (length (GetArray resultJson)) \<noteq> countBlocks then Some ''Not all blocks'' else None)
            else Inr (if countBlocks \<noteq> 1 then Some ''Not all blocks'' else None)))))"

text \<open>Only the exceptions of the \<open>CHECK\<close>s are caught.\<close>

definition checkErrorGetBlockDumpResponse ::
  "json_lib \<Rightarrow> bytes \<Rightarrow> bool \<Rightarrow> bool \<Rightarrow> bool \<Rightarrow> u64 \<Rightarrow> string option result" where
  "checkErrorGetBlockDumpResponse J response manyBlocks isSign isCompress sizeDump =
     (let checked =
        (if response \<noteq> [] \<and> length response \<le> 512 \<and> hd response = of_char (CHR ''{'') \<and> last response = of_char (CHR ''}'')
         then bindE (parse_document J response) (check_no_error J)
         else Inr ())
      in case checked of
           Inl (Check msg) \<Rightarrow> Inr (Some msg)
         | Inl e \<Rightarrow> Inl e
         | Inr _ \<Rightarrow>
             Inr (if \<not> manyBlocks \<and> \<not> isSign \<and> \<not> isCompress \<and> size_of response \<noteq> sizeDump
                  then Some ''Incorrect response'' else None))"

end
