(* ===== verification/NewBlocks.thy ===== *)
theory NewBlocks
  imports NewBlocksMessages P2P "HOL-Library.AList"
begin

section \<open>Blocks from the servers (GetNewBlocksFromServer)\<close>

text \<open>
  The number of the last block, headers and dumps of blocks are fetched from the servers, ahead of
  their use and in batches, and kept in two caches. The network is the interface \<open>P2P\<close> of the
  source: what a call returns depends on the state of the network, which the call changes. The
  answers to a broadcast are given in the order in which its callback was called.

  Exceptions other than those of a \<open>CHECK\<close> are not caught by \<open>catch (const exception &)\<close>. A loop that
  does not end is the error \<open>Diverges\<close>.
\<close>

type_synonym make_request = "u64 \<Rightarrow> u64 \<Rightarrow> (bytes \<times> bytes) result"
type_synonym parse_response = "bytes \<Rightarrow> u64 \<Rightarrow> u64 \<Rightarrow> ResponseParse result"

record 'n p2p =
  pp_broadcast :: "bytes \<Rightarrow> bytes \<Rightarrow> bytes \<Rightarrow> 'n \<Rightarrow> 'n \<times> (bytes \<times> bytes \<times> string option) list"
  pp_request :: "u64 \<Rightarrow> bool \<Rightarrow> make_request \<Rightarrow> bytes \<Rightarrow> parse_response \<Rightarrow> bytes list \<Rightarrow> 'n \<Rightarrow> 'n \<times> bytes result"
  pp_requests :: "u64 \<Rightarrow> (u64 \<Rightarrow> (bytes \<times> bytes) result) \<Rightarrow> bytes \<Rightarrow> parse_response \<Rightarrow> bytes list \<Rightarrow> 'n \<Rightarrow> 'n \<times> bytes list result"
  pp_runOneRequest :: "bytes \<Rightarrow> bytes \<Rightarrow> bytes \<Rightarrow> bytes \<Rightarrow> 'n \<Rightarrow> 'n \<times> bytes result"

definition ESTIMATE_SIZE_SIGNATURE :: u64 where "ESTIMATE_SIZE_SIGNATURE = 250"
definition MAX_BLOCK_SIZE_WITHOUT_ADVANCE :: u64 where "MAX_BLOCK_SIZE_WITHOUT_ADVANCE = 100 * 1000"

subsection \<open>The last block\<close>

text \<open>\<open>lastBlock\<close> is not initialised when there is an error.\<close>

record LastBlockResponse =
  lb_servers :: "bytes list"
  lb_lastBlock :: u64
  lb_extraBlocks :: "bytes list"
  lb_error :: "string option"

record last_block_answers =
  la_lastBlock :: "u64 option"
  la_error :: string
  la_servers :: "bytes list"
  la_extraBlocks :: "bytes list"

definition count_answer :: "json_lib \<Rightarrow> bytes \<times> bytes \<times> string option \<Rightarrow> last_block_answers \<Rightarrow> last_block_answers result" where
  "count_answer J a acc =
     (case a of (server, result, curlException) \<Rightarrow>
        (case curlException of
           Some message \<Rightarrow> Inr (acc\<lparr>la_error := message\<rparr>)
         | None \<Rightarrow>
             (case parseCountBlocksMessage J result of
                Inl (Check message) \<Rightarrow> Inr (acc\<lparr>la_error := message\<rparr>)
              | Inl e \<Rightarrow> Inl e
              | Inr (countBlocks, extraBlocks) \<Rightarrow>
                  let lastBlock = (case la_lastBlock acc of None \<Rightarrow> 0 | Some n \<Rightarrow> n)
                  in Inr (if lastBlock < countBlocks
                          then acc\<lparr>la_lastBlock := Some countBlocks, la_servers := [server], la_extraBlocks := extraBlocks\<rparr>
                          else if lastBlock = countBlocks
                          then acc\<lparr>la_lastBlock := Some lastBlock, la_servers := la_servers acc @ [server],
                                 la_extraBlocks := fold List.insort_insert extraBlocks (la_extraBlocks acc)\<rparr>
                          else acc\<lparr>la_lastBlock := Some lastBlock\<rparr>))))"

fun count_answers :: "json_lib \<Rightarrow> (bytes \<times> bytes \<times> string option) list \<Rightarrow> last_block_answers \<Rightarrow> last_block_answers result" where
  "count_answers J [] acc = Inr acc"
| "count_answers J (a # as) acc = bindE (count_answer J a acc) (count_answers J as)"

definition getLastBlock_net :: "json_lib \<Rightarrow> 'n p2p \<Rightarrow> 'n \<Rightarrow> 'n \<times> LastBlockResponse result" where
  "getLastBlock_net J N net =
     (case pp_broadcast N [] makeGetCountBlocksMessage [] net of (net, answers) \<Rightarrow>
        (net,
         bindE (count_answers J answers \<lparr>la_lastBlock = None, la_error = [], la_servers = [], la_extraBlocks = []\<rparr>) (\<lambda>acc.
         Inr (case la_lastBlock acc of
                Some n \<Rightarrow> \<lparr>lb_servers = la_servers acc, lb_lastBlock = n, lb_extraBlocks = la_extraBlocks acc, lb_error = None\<rparr>
              | None \<Rightarrow> \<lparr>lb_servers = [], lb_lastBlock = 0, lb_extraBlocks = [], lb_error = Some (la_error acc)\<rparr>))))"

record LastBlockPreLoadResponse =
  lp_servers :: "bytes list"
  lp_lastBlock :: "u64 option"
  lp_error :: "string option"
  lp_blockHeaders :: bytes
  lp_additionalBlockHashes :: bytes
  lp_blocksDumps :: bytes

text \<open>The local variable \<open>error\<close> is kept beside the answer.\<close>

definition preload_answer ::
  "json_lib \<Rightarrow> bytes \<times> bytes \<times> string option \<Rightarrow> string \<times> LastBlockPreLoadResponse \<Rightarrow> (string \<times> LastBlockPreLoadResponse) result" where
  "preload_answer J a acc =
     (case a of (server, result, curlException) \<Rightarrow>
        (case curlException of
           Some message \<Rightarrow> Inr (message, snd acc)
         | None \<Rightarrow>
             (case parsePreloadBlocksMessage J result of
                Inl (Check message) \<Rightarrow> Inr (message, snd acc)
              | Inl e \<Rightarrow> Inl e
              | Inr response \<Rightarrow>
                  (case pl_error response of
                     Some message \<Rightarrow> Inr (message, snd acc)
                   | None \<Rightarrow>
                       let r = snd acc;
                           lastBlock = (case lp_lastBlock r of None \<Rightarrow> 0 | Some n \<Rightarrow> n)
                       in Inr (fst acc,
                            if lastBlock < pl_countBlocks response
                            then r\<lparr>lp_lastBlock := Some (pl_countBlocks response), lp_servers := [server],
                                   lp_blockHeaders := pl_blockHeaders response,
                                   lp_additionalBlockHashes := pl_additingBlocksHashes response,
                                   lp_blocksDumps := pl_blockDumps response\<rparr>
                            else if lastBlock = pl_countBlocks response
                            then r\<lparr>lp_lastBlock := Some lastBlock, lp_servers := lp_servers r @ [server]\<rparr>
                            else r\<lparr>lp_lastBlock := Some lastBlock\<rparr>)))))"

fun preload_answers ::
  "json_lib \<Rightarrow> (bytes \<times> bytes \<times> string option) list \<Rightarrow> string \<times> LastBlockPreLoadResponse \<Rightarrow> (string \<times> LastBlockPreLoadResponse) result" where
  "preload_answers J [] acc = Inr acc"
| "preload_answers J (a # as) acc = bindE (preload_answer J a acc) (preload_answers J as)"

definition preLoadBlocks :: "json_lib \<Rightarrow> 'n p2p \<Rightarrow> bool \<Rightarrow> u64 \<Rightarrow> bool \<Rightarrow> 'n \<Rightarrow> 'n \<times> LastBlockPreLoadResponse result" where
  "preLoadBlocks J N isCompress currentBlock isSign net =
     (case pp_broadcast N [] (makePreloadBlocksMessage currentBlock isCompress isSign 5 100000) [] net of (net, answers) \<Rightarrow>
        (net,
         bindE (preload_answers J answers ([], \<lparr>lp_servers = [], lp_lastBlock = None, lp_error = None, lp_blockHeaders = [],
             lp_additionalBlockHashes = [], lp_blocksDumps = []\<rparr>)) (\<lambda>(error, r).
         Inr (if lp_lastBlock r = None then r\<lparr>lp_error := Some error\<rparr> else r))))"

subsection \<open>The caches\<close>

record GetNewBlocksFromServer =
  gb_maxAdvancedLoadBlocks :: u64
  gb_countBlocksInBatch :: u64
  gb_isCompress :: bool
  gb_headers :: "(u64 \<times> MinimumBlockHeader) list"
  gb_dumps :: "(bytes \<times> bytes) list"

definition GetNewBlocksFromServer_new :: "u64 \<Rightarrow> u64 \<Rightarrow> bool \<Rightarrow> GetNewBlocksFromServer" where
  "GetNewBlocksFromServer_new maxAdvancedLoadBlocks countBlocksInBatch isCompress =
     \<lparr>gb_maxAdvancedLoadBlocks = maxAdvancedLoadBlocks, gb_countBlocksInBatch = countBlocksInBatch,
      gb_isCompress = isCompress, gb_headers = [], gb_dumps = []\<rparr>"

definition clearAdvanced :: "GetNewBlocksFromServer \<Rightarrow> GetNewBlocksFromServer" where
  "clearAdvanced g = g\<lparr>gb_headers := [], gb_dumps := []\<rparr>"

definition cache_header :: "u64 \<Rightarrow> MinimumBlockHeader \<Rightarrow> GetNewBlocksFromServer \<Rightarrow> GetNewBlocksFromServer" where
  "cache_header number header g = g\<lparr>gb_headers := gb_headers g @ [(number, header)]\<rparr>"

definition cache_dump :: "bytes \<Rightarrow> bytes \<Rightarrow> GetNewBlocksFromServer \<Rightarrow> GetNewBlocksFromServer" where
  "cache_dump hash dump g = g\<lparr>gb_dumps := AList.update hash dump (gb_dumps g)\<rparr>"

definition parse_dumps :: "json_lib \<Rightarrow> bool \<Rightarrow> bytes \<Rightarrow> bytes list result" where
  "parse_dumps J isCompress response =
     (case parseDumpBlocksBinary J isCompress response of None \<Rightarrow> Inl Diverges | Some r \<Rightarrow> r)"

text \<open>The first loop of \<open>addPreLoadBlocks\<close>; \<open>operator[]\<close> of a vector has no check.\<close>

fun preload_headers ::
  "u64 \<Rightarrow> nat \<Rightarrow> MinimumBlockHeader list \<Rightarrow> bytes list \<Rightarrow> GetNewBlocksFromServer \<Rightarrow> GetNewBlocksFromServer \<times> unit result" where
  "preload_headers fromBlock j [] dumps g = (g, Inr ())"
| "preload_headers fromBlock j (h # hs) dumps g =
     (if mh_number h \<noteq> fromBlock + of_nat j then (g, Inl (Check ''Incorrect block number in answer: ''))
      else
        let g = cache_header (fromBlock + of_nat j) h g
        in if length dumps \<le> j then (g, Inl Undefined)
           else preload_headers fromBlock (Suc j) hs dumps (cache_dump (mh_hash h) (dumps ! j) g))"

text \<open>The other two loops, over all the hashes; the index behind the last one.\<close>

fun preload_extra ::
  "nat \<Rightarrow> bytes list \<Rightarrow> bytes list \<Rightarrow> GetNewBlocksFromServer \<Rightarrow> GetNewBlocksFromServer \<times> nat result" where
  "preload_extra i [] dumps g = (g, Inr i)"
| "preload_extra i (hash # hashes) dumps g =
     (if length dumps \<le> i then (g, Inl (Check ''Incorrect index''))
      else preload_extra (Suc i) hashes dumps (cache_dump hash (dumps ! i) g))"

definition preload_all ::
  "json_lib \<Rightarrow> u64 \<Rightarrow> bytes \<Rightarrow> bytes \<Rightarrow> bytes \<Rightarrow> GetNewBlocksFromServer \<Rightarrow> GetNewBlocksFromServer \<times> bytes list result" where
  "preload_all J fromBlock blockHeadersStr additionalBlockHashsesStr blockDumpsStr g =
     (case bindE (parseBlocksHeader J blockHeadersStr) (\<lambda>headers.
           bindE (parseAdditionalBlockHashes J additionalBlockHashsesStr) (\<lambda>hashes.
           bindE (parse_dumps J (gb_isCompress g) blockDumpsStr) (\<lambda>dumps. Inr (headers, hashes, dumps)))) of
        Inl e \<Rightarrow> (g, Inl e)
      | Inr (headers, hashes, dumps) \<Rightarrow>
          (case preload_headers fromBlock 0 headers dumps g of
             (g, Inl e) \<Rightarrow> (g, Inl e)
           | (g, Inr _) \<Rightarrow>
               (case preload_extra (length headers) (concat (map mh_prevExtraBlocks headers) @ hashes) dumps g of
                  (g, Inl e) \<Rightarrow> (g, Inl e)
                | (g, Inr i) \<Rightarrow> (g, bindE (CHECK (i = length dumps) ''Incorrect blocks dumps array'') (\<lambda>_. Inr hashes)))))"

definition addPreLoadBlocks ::
  "json_lib \<Rightarrow> u64 \<Rightarrow> bytes \<Rightarrow> bytes \<Rightarrow> bytes \<Rightarrow> GetNewBlocksFromServer \<Rightarrow> GetNewBlocksFromServer \<times> bytes list result" where
  "addPreLoadBlocks J fromBlock blockHeadersStr additionalBlockHashsesStr blockDumpsStr g =
     (case preload_all J fromBlock blockHeadersStr additionalBlockHashsesStr blockDumpsStr g of
        (g, Inl (Check message)) \<Rightarrow> (g, Inr [])
      | (g, r) \<Rightarrow> (g, r))"

subsection \<open>Headers\<close>

text \<open>The first block of a part and the number of its blocks.\<close>

definition calcBlockIndexes :: "u64 \<Rightarrow> u64 \<Rightarrow> u64 \<Rightarrow> u64 \<Rightarrow> u64 \<times> u64" where
  "calcBlockIndexes blockNum countBlocksInBatch maxCountBlocks number =
     (blockNum + number * countBlocksInBatch, min countBlocksInBatch (maxCountBlocks - number * countBlocksInBatch))"

definition header_request :: "u64 \<times> u64 \<Rightarrow> (bytes \<times> bytes) result" where
  "header_request part =
     Inr ([], if snd part \<noteq> 1 then makeGetBlocksMessage (fst part) (snd part) else makeGetBlockByNumberMessage (fst part))"

definition parse_checked :: "string option result \<Rightarrow> bytes \<Rightarrow> ResponseParse result" where
  "parse_checked checked result =
     bindE checked (\<lambda>checked.
     Inr (case checked of Some e \<Rightarrow> \<lparr>rp_response = [], rp_error = Some e\<rparr> | None \<Rightarrow> \<lparr>rp_response = result, rp_error = None\<rparr>))"

fun store_headers :: "u64 \<Rightarrow> nat \<Rightarrow> MinimumBlockHeader list \<Rightarrow> GetNewBlocksFromServer \<Rightarrow> GetNewBlocksFromServer \<times> unit result" where
  "store_headers currBlockNum j [] g = (g, Inr ())"
| "store_headers currBlockNum j (h # hs) g =
     (if mh_number h \<noteq> currBlockNum + of_nat j then (g, Inl (Check ''Incorrect block number in answer: ''))
      else store_headers currBlockNum (Suc j) hs (cache_header (currBlockNum + of_nat j) h g))"

definition store_header_part ::
  "json_lib \<Rightarrow> u64 \<times> u64 \<Rightarrow> bytes \<Rightarrow> GetNewBlocksFromServer \<Rightarrow> GetNewBlocksFromServer \<times> unit result" where
  "store_header_part J part answer g =
     (if snd part \<noteq> 1
      then case bindE (parseBlocksHeader J answer) (\<lambda>blocks.
                bindE (CHECK (of_nat (length blocks) = snd part) ''Incorrect answers'') (\<lambda>_. Inr blocks)) of
             Inl e \<Rightarrow> (g, Inl e)
           | Inr blocks \<Rightarrow> store_headers (fst part) 0 blocks g
      else case parseBlockHeader J answer of
             Inl e \<Rightarrow> (g, Inl e)
           | Inr header \<Rightarrow> store_headers (fst part) 0 [header] g)"

fun store_header_parts ::
  "json_lib \<Rightarrow> (u64 \<Rightarrow> u64 \<times> u64) \<Rightarrow> nat \<Rightarrow> bytes list \<Rightarrow> GetNewBlocksFromServer \<Rightarrow> GetNewBlocksFromServer \<times> unit result" where
  "store_header_parts J parts i [] g = (g, Inr ())"
| "store_header_parts J parts i (answer # answers) g =
     (case store_header_part J (parts (of_nat i)) answer g of
        (g, Inl e) \<Rightarrow> (g, Inl e)
      | (g, Inr _) \<Rightarrow> store_header_parts J parts (Suc i) answers g)"

definition load_headers ::
  "json_lib \<Rightarrow> 'n p2p \<Rightarrow> u64 \<Rightarrow> u64 \<Rightarrow> bytes list \<Rightarrow> GetNewBlocksFromServer \<times> 'n \<Rightarrow> (GetNewBlocksFromServer \<times> 'n) \<times> unit result" where
  "load_headers J N blockNum maxBlockNum servers st =
     (let g = (fst st)\<lparr>gb_headers := []\<rparr>;
          countBlocks = min (maxBlockNum - blockNum + 1) (gb_maxAdvancedLoadBlocks g);
          batch = gb_countBlocksInBatch g
      in if batch = 0 then ((g, snd st), Inl Undefined)
         else
           let countParts = (countBlocks + batch - 1) div batch;
               parts = calcBlockIndexes blockNum batch countBlocks
           in if countBlocks = 0 \<or> countParts = 0 then ((g, snd st), Inl (Check ''Incorrect count blocks''))
              else
                (case pp_requests N countParts (\<lambda>number. header_request (parts number)) []
                       (\<lambda>result from to. parse_checked (checkErrorGetBlockResponse J result (snd (parts from))) result)
                       servers (snd st) of
                   (net, Inl e) \<Rightarrow> ((g, net), Inl e)
                 | (net, Inr answers) \<Rightarrow>
                     if of_nat (length answers) \<noteq> countParts then ((g, net), Inl (Check ''Incorrect answer''))
                     else case store_header_parts J parts 0 answers g of (g, r) \<Rightarrow> ((g, net), r)))"

definition getBlockHeader ::
  "json_lib \<Rightarrow> 'n p2p \<Rightarrow> u64 \<Rightarrow> u64 \<Rightarrow> bytes list \<Rightarrow> GetNewBlocksFromServer \<times> 'n \<Rightarrow>
     (GetNewBlocksFromServer \<times> 'n) \<times> MinimumBlockHeader result" where
  "getBlockHeader J N blockNum maxBlockNum servers st =
     (case find (\<lambda>pair. fst pair = blockNum) (gb_headers (fst st)) of
        Some pair \<Rightarrow> (st, Inr (snd pair))
      | None \<Rightarrow>
          (case load_headers J N blockNum maxBlockNum servers st of
             (st, Inl e) \<Rightarrow> (st, Inl e)
           | (st, Inr _) \<Rightarrow>
               (st, case gb_headers (fst st) of [] \<Rightarrow> Inl Undefined | pair # _ \<Rightarrow> Inr (snd pair))))"

definition getBlockHeaderWithoutAdvanceLoad ::
  "json_lib \<Rightarrow> 'n p2p \<Rightarrow> u64 \<Rightarrow> bytes \<Rightarrow> 'n \<Rightarrow> 'n \<times> MinimumBlockHeader result" where
  "getBlockHeaderWithoutAdvanceLoad J N blockNum server net =
     (case pp_runOneRequest N server [] (makeGetBlockByNumberMessage blockNum) [] net of
        (net, r) \<Rightarrow> (net, bindE r (parseBlockHeader J)))"

subsection \<open>Dumps\<close>

abbreviation count_of :: "'a list \<Rightarrow> u64" where
  "count_of xs \<equiv> of_nat (length xs)"

definition makeRequestForDumpBlock :: "bytes \<Rightarrow> u64 \<Rightarrow> u64 \<Rightarrow> bytes \<times> bytes" where
  "makeRequestForDumpBlock blockHash fromByte toByte = ([], makeGetDumpBlockMessage_part blockHash fromByte toByte False False)"

definition makeRequestForDumpBlock2 :: "bytes \<Rightarrow> bytes \<times> bytes" where
  "makeRequestForDumpBlock2 blockHash = ([], makeGetDumpBlockMessage blockHash False False)"

definition makeRequestForDumpBlockSign :: "bytes \<Rightarrow> u64 \<Rightarrow> u64 \<Rightarrow> bytes \<times> bytes" where
  "makeRequestForDumpBlockSign blockHash fromByte toByte = ([], makeGetDumpBlockMessage_part blockHash fromByte toByte True False)"

definition makeRequestForDumpBlockSign2 :: "bytes \<Rightarrow> bytes \<times> bytes" where
  "makeRequestForDumpBlockSign2 blockHash = ([], makeGetDumpBlockMessage blockHash True False)"

definition parseDumpBlockResponse ::
  "json_lib \<Rightarrow> bool \<Rightarrow> bool \<Rightarrow> bool \<Rightarrow> bytes \<Rightarrow> u64 \<Rightarrow> u64 \<Rightarrow> ResponseParse result" where
  "parseDumpBlockResponse J manyBlocks isSign isCompress result fromByte toByte =
     (if result = [] then Inr \<lparr>rp_response = [], rp_error = None\<rparr>
      else parse_checked (checkErrorGetBlockDumpResponse J result manyBlocks isSign isCompress (toByte - fromByte)) result)"

definition getBlockDump_sized ::
  "json_lib \<Rightarrow> 'n p2p \<Rightarrow> bytes \<Rightarrow> u64 \<Rightarrow> bool \<Rightarrow> bytes list \<Rightarrow> bool \<Rightarrow> 'n \<Rightarrow> 'n \<times> bytes result" where
  "getBlockDump_sized J N blockHash blockSize isPrecisionSize hintsServers isSign net =
     (if \<not> isSign
      then pp_request N blockSize isPrecisionSize (\<lambda>from to. Inr (makeRequestForDumpBlock blockHash from to)) []
             (parseDumpBlockResponse J False isSign False) hintsServers net
      else pp_request N (blockSize + ESTIMATE_SIZE_SIGNATURE) False (\<lambda>from to. Inr (makeRequestForDumpBlockSign blockHash from to)) []
             (parseDumpBlockResponse J False isSign False) hintsServers net)"

definition getBlockDump_whole ::
  "json_lib \<Rightarrow> 'n p2p \<Rightarrow> bytes \<Rightarrow> bytes list \<Rightarrow> bool \<Rightarrow> 'n \<Rightarrow> 'n \<times> bytes result" where
  "getBlockDump_whole J N blockHash hintsServers isSign net =
     (case pp_requests N 1 (\<lambda>_. Inr (if isSign then makeRequestForDumpBlockSign2 blockHash else makeRequestForDumpBlock2 blockHash)) []
             (parseDumpBlockResponse J True isSign False) hintsServers net of
        (net, r) \<Rightarrow> (net, bindE r (\<lambda>answers. case answers of [] \<Rightarrow> Inl Undefined | a # _ \<Rightarrow> Inr a)))"

definition dumps_request :: "bytes list \<Rightarrow> bool \<Rightarrow> bool \<Rightarrow> u64 \<Rightarrow> u64 \<Rightarrow> (bytes \<times> bytes) result" where
  "dumps_request blocksHashs isSign isCompress batch number =
     bindE (CHECK (count_of blocksHashs > number * batch) ''Incorrect number'') (\<lambda>_.
     let beginBlock = number * batch;
         countBlocks = min batch (count_of blocksHashs - beginBlock)
     in Inr ([], if countBlocks = 1 then makeGetDumpBlockMessage (blocksHashs ! unat beginBlock) isSign isCompress
                 else makeGetDumpsBlocksMessage (take (unat countBlocks) (drop (unat beginBlock) blocksHashs)) isSign isCompress))"

text \<open>The blocks of one answer: the first of them, and how many.\<close>

definition store_dump_part ::
  "json_lib \<Rightarrow> bytes list \<Rightarrow> u64 \<Rightarrow> u64 \<Rightarrow> bytes \<Rightarrow> GetNewBlocksFromServer \<Rightarrow> GetNewBlocksFromServer \<times> unit result" where
  "store_dump_part J blocksHashs beginBlock blocksInPart response g =
     (if blocksInPart = 1
      then if count_of blocksHashs \<le> beginBlock then (g, Inl (Check ''Incorrect answer''))
           else (cache_dump (blocksHashs ! unat beginBlock) (parseDumpBlockBinary J (gb_isCompress g) response) g, Inr ())
      else case bindE (parse_dumps J (gb_isCompress g) response) (\<lambda>blocks.
                bindE (CHECK (count_of blocks = blocksInPart) ''Incorrect answer'') (\<lambda>_.
                bindE (CHECK (beginBlock + count_of blocks \<le> count_of blocksHashs) ''Incorrect answer'') (\<lambda>_. Inr blocks))) of
             Inl e \<Rightarrow> (g, Inl e)
           | Inr blocks \<Rightarrow>
               (fold (\<lambda>(hash, dump). cache_dump hash dump) (zip (drop (unat beginBlock) blocksHashs) blocks) g, Inr ()))"

fun store_dump_parts ::
  "json_lib \<Rightarrow> bytes list \<Rightarrow> nat \<Rightarrow> bytes list \<Rightarrow> GetNewBlocksFromServer \<Rightarrow> GetNewBlocksFromServer \<times> unit result" where
  "store_dump_parts J blocksHashs i [] g = (g, Inr ())"
| "store_dump_parts J blocksHashs i (response # responses) g =
     (let batch = gb_countBlocksInBatch g;
          beginBlock = of_nat i * batch;
          blocksInPart = min batch (count_of blocksHashs - beginBlock)
      in case store_dump_part J blocksHashs beginBlock blocksInPart response g of
           (g, Inl e) \<Rightarrow> (g, Inl e)
         | (g, Inr _) \<Rightarrow> store_dump_parts J blocksHashs (Suc i) responses g)"

definition loadBlockDumpsToCache ::
  "json_lib \<Rightarrow> 'n p2p \<Rightarrow> bytes list \<Rightarrow> bytes list \<Rightarrow> bool \<Rightarrow> GetNewBlocksFromServer \<times> 'n \<Rightarrow>
     (GetNewBlocksFromServer \<times> 'n) \<times> unit result" where
  "loadBlockDumpsToCache J N blocksHashs hintsServers isSign st =
     (if blocksHashs = [] then (st, Inr ())
      else
        let g = fst st; batch = gb_countBlocksInBatch g
        in if batch = 0 then (st, Inl Undefined)
           else
             let countParts = (count_of blocksHashs + batch - 1) div batch
             in (case pp_requests N countParts (dumps_request blocksHashs isSign (gb_isCompress g) batch) []
                        (parseDumpBlockResponse J True isSign (gb_isCompress g)) hintsServers (snd st) of
                   (net, Inl e) \<Rightarrow> ((g, net), Inl e)
                 | (net, Inr responses) \<Rightarrow>
                     if count_of responses \<noteq> countParts then ((g, net), Inl (Check ''Incorrect responses''))
                     else case store_dump_parts J blocksHashs 0 responses g of (g, r) \<Rightarrow> ((g, net), r)))"

text \<open>The blocks that are fetched together with a block: those of its header in the cache and of all
  headers behind it, but no large transaction blocks.\<close>

definition header_holds :: "bytes \<Rightarrow> MinimumBlockHeader \<Rightarrow> bool" where
  "header_holds blockHash h \<longleftrightarrow>
     mh_hash h = blockHash \<or> blockHash \<in> set (mh_prevExtraBlocks h) \<or> blockHash \<in> set (mh_nextExtraBlocks h)"

definition hashes_of_header :: "MinimumBlockHeader \<Rightarrow> bytes list" where
  "hashes_of_header h =
     (if mh_blockSize h \<le> MAX_BLOCK_SIZE_WITHOUT_ADVANCE then [mh_hash h] else []) @ mh_prevExtraBlocks h @ mh_nextExtraBlocks h"

definition hashes_to_load :: "bytes \<Rightarrow> (u64 \<times> MinimumBlockHeader) list \<Rightarrow> bytes list" where
  "hashes_to_load blockHash headers =
     concat (map (\<lambda>pair. hashes_of_header (snd pair)) (dropWhile (\<lambda>pair. \<not> header_holds blockHash (snd pair)) headers))"

definition getter_getBlockDump ::
  "json_lib \<Rightarrow> 'n p2p \<Rightarrow> bytes \<Rightarrow> u64 \<Rightarrow> bool \<Rightarrow> bool \<Rightarrow> bytes list \<Rightarrow> bool \<Rightarrow> GetNewBlocksFromServer \<times> 'n \<Rightarrow>
     (GetNewBlocksFromServer \<times> 'n) \<times> bytes result" where
  "getter_getBlockDump J N blockHash blockSize isPrecisionSize loadAll hintsServers isSign st =
     (case map_of (gb_dumps (fst st)) blockHash of
        Some dump \<Rightarrow> (st, Inr dump)
      | None \<Rightarrow>
          (case loadBlockDumpsToCache J N (hashes_to_load blockHash (gb_headers (fst st))) hintsServers isSign st of
             (st, Inl e) \<Rightarrow> (st, Inl e)
           | (st, Inr _) \<Rightarrow>
               (case map_of (gb_dumps (fst st)) blockHash of
                  Some dump \<Rightarrow> (st, Inr dump)
                | None \<Rightarrow>
                    (case (if loadAll then getBlockDump_whole J N blockHash hintsServers isSign (snd st)
                           else getBlockDump_sized J N blockHash blockSize isPrecisionSize hintsServers isSign (snd st)) of
                       (net, r) \<Rightarrow> ((fst st, net), r)))))"

end
