(* ===== verification/GenerateJson.thy ===== *)
theory GenerateJson
  imports Json BalanceInfo BlockChain BlockchainRead WorkerRecords RejectedTxs
begin

section \<open>Answers of the server as JSON (generate_json)\<close>

text \<open>
  How the server writes what was found: transactions, balances, headers of blocks, statistics of
  nodes, errors. A document is a \<^typ>\<open>json\<close> value, and the text that is sent is what the library prints;
  an exception is an error. Integers of any type are given by their mathematical value. The statistic
  with the load of the processor, a floating-point number, is left out.
\<close>

subsection \<open>Parts that all answers share\<close>

record RequestId =
  rq_id :: "bytes + u64"
  rq_isSet :: bool

datatype JsonVersion = V1 | V2

datatype BlockTypeInfo = ForP2P | Small | Simple | Hashes | Full

definition id_member :: "json_lib \<Rightarrow> RequestId \<Rightarrow> (bytes \<times> json) list" where
  "id_member J rq =
     (if \<not> rq_isSet rq then []
      else case rq_id rq of Inl s \<Rightarrow> [(lit ''id'', jl_strToJson J s)] | Inr n \<Rightarrow> [(lit ''id'', JInt (uint n))])"

definition answer :: "json_lib \<Rightarrow> RequestId \<Rightarrow> bool \<Rightarrow> json \<Rightarrow> bytes" where
  "answer J rq isFormat v = jl_print J (Some isFormat) (JObject (id_member J rq @ [(lit ''result'', v)]))"

definition unsignedJson :: "json_lib \<Rightarrow> JsonVersion \<Rightarrow> u64 \<Rightarrow> json" where
  "unsignedJson J version n = intOrString J (version = V2) (uint n)"

definition signedJson :: "json_lib \<Rightarrow> JsonVersion \<Rightarrow> u64 \<Rightarrow> json" where
  "signedJson J version n = intOrString J (version = V2) (sint n)"

definition hexJson :: "json_lib \<Rightarrow> bytes \<Rightarrow> json" where
  "hexJson J bs = jl_strToJson J (jl_toHex J bs)"

definition addressJson :: "json_lib \<Rightarrow> Address \<Rightarrow> json result" where
  "addressJson J a = bindE (calcHexString (jl_toHex J) a) (\<lambda>s. Inr (jl_strToJson J s))"

fun map_json :: "('a \<Rightarrow> json result) \<Rightarrow> 'a list \<Rightarrow> json list result" where
  "map_json f [] = Inr []"
| "map_json f (x # xs) = bindE (f x) (\<lambda>v. bindE (map_json f xs) (\<lambda>vs. Inr (v # vs)))"

definition error_document :: "json_lib \<Rightarrow> RequestId \<Rightarrow> int \<Rightarrow> bytes \<Rightarrow> bytes" where
  "error_document J rq code error =
     jl_print J (Some False) (JObject (id_member J rq @
       [(lit ''error'', JObject [(lit ''code'', JInt code), (lit ''message'', jl_strToJson J error)])]))"

definition genErrorResponse :: "json_lib \<Rightarrow> RequestId \<Rightarrow> int \<Rightarrow> bytes \<Rightarrow> bytes" where
  "genErrorResponse J rq code error = error_document J rq code error"

definition genStatusResponse :: "json_lib \<Rightarrow> RequestId \<Rightarrow> bytes \<Rightarrow> bytes \<Rightarrow> bytes" where
  "genStatusResponse J rq version gitHash =
     jl_print J (Some False) (JObject (id_member J rq @
       [(lit ''result'', jl_strToJson J (lit ''ok'')), (lit ''version'', jl_strToJson J version),
        (lit ''git_hash'', jl_strToJson J gitHash)]))"

definition genStatisticResponse :: "json_lib \<Rightarrow> u64 \<Rightarrow> bytes" where
  "genStatisticResponse J statistic = jl_print J (Some False) (JObject [(lit ''result'', JInt (uint statistic))])"

definition genInfoResponse :: "json_lib \<Rightarrow> RequestId \<Rightarrow> bytes \<Rightarrow> bytes \<Rightarrow> bytes \<Rightarrow> bytes" where
  "genInfoResponse J rq version type privkey =
     answer J rq False (JObject [(lit ''version'', jl_strToJson J version), (lit ''type'', jl_strToJson J type),
       (lit ''mh_addr'', jl_strToJson J privkey)])"

definition genTransactionNotFoundResponse :: "json_lib \<Rightarrow> RequestId \<Rightarrow> bytes \<Rightarrow> bytes" where
  "genTransactionNotFoundResponse J rq transaction =
     error_document J rq (- 32603) (lit ''Transaction '' @ jl_toHex J transaction @ lit '' not found'')"

definition incorrect_block_number :: "json_lib \<Rightarrow> RequestId \<Rightarrow> bytes" where
  "incorrect_block_number J rq =
     genErrorResponse J rq (- 32603) (lit ''Incorrect block number: 0. Genesis block begin with number 1'')"

subsection \<open>Transactions\<close>

definition delegate_members :: "json_lib \<Rightarrow> JsonVersion \<Rightarrow> DelegateInfo \<Rightarrow> (bytes \<times> json) list" where
  "delegate_members J version d =
     [(lit ''delegate'', if di_isDelegate d then signedJson J version (di_value d) else intOrString J (version = V2) 0),
      (lit ''isDelegate'', JBool (di_isDelegate d))]"

definition addUnDelegateInfo :: "json_lib \<Rightarrow> JsonVersion \<Rightarrow> u64 \<Rightarrow> bytes \<Rightarrow> json \<Rightarrow> json" where
  "addUnDelegateInfo J version value delegateHash v =
     AddMember (lit ''delegateHash'') (hexJson J delegateHash)
       (AddMember (lit ''delegate'') (signedJson J version value) (RemoveMember (lit ''delegate'') v))"

definition script_members :: "json_lib \<Rightarrow> bool \<Rightarrow> bool \<Rightarrow> bool \<Rightarrow> Address \<Rightarrow> (bytes \<times> json) list result" where
  "script_members J isSuccess isServerError isScriptError contract =
     bindE (isEmpty contract) (\<lambda>empty.
     bindE (if empty then Inr []
            else bindE (addressJson J contract) (\<lambda>a. Inr [(lit ''contractAddress'', a)])) (\<lambda>addressMember.
     Inr ((if \<not> isSuccess \<and> isServerError then [(lit ''isServerError'', JBool True)] else []) @
          (if \<not> isSuccess \<and> isScriptError then [(lit ''isScriptError'', JBool True)] else []) @ addressMember)))"

fun script_type_name :: "ScriptType \<Rightarrow> string" where
  "script_type_name compile = ''compile''"
| "script_type_name pay = ''pay''"
| "script_type_name run = ''run''"
| "script_type_name unknown = ''unknown''"

text \<open>The branch for \<open>BurnTokens\<close> is missing in the source: the last \<open>else\<close> throws.\<close>

fun token_members :: "json_lib \<Rightarrow> JsonVersion \<Rightarrow> TransactionInfo \<Rightarrow> TokenInfo \<Rightarrow> (bytes \<times> json) list result" where
  "token_members J version info (Create c) =
     bindE (addressJson J (ct_owner c)) (\<lambda>owner.
     Inr [(lit ''create_token'', JObject
       [(lit ''type'', jl_strToJson J (ct_type c)), (lit ''name'', jl_strToJson J (ct_name c)),
        (lit ''symbol'', jl_strToJson J (ct_symbol c)), (lit ''owner'', owner),
        (lit ''decimals'', JInt (sint (ct_decimals c))), (lit ''total'', signedJson J version (tx_value info)),
        (lit ''emission'', JBool (ct_emission c))])])"
| "token_members J version info (ChangeOwner a) =
     bindE (addressJson J a) (\<lambda>newOwner.
     Inr [(lit ''change_token_owner'', JObject [(lit ''newOwner'', newOwner)])])"
| "token_members J version info (ChangeEmission b) =
     Inr [(lit ''change_emission_owner'', JObject [(lit ''newEmission'', JBool b)])]"
| "token_members J version info (AddTokens a n) =
     bindE (addressJson J a) (\<lambda>toAddress.
     Inr [(lit ''add_tokens'', JObject [(lit ''toAddress'', toAddress), (lit ''value'', unsignedJson J version n)])])"
| "token_members J version info (MoveTokens a n) =
     bindE (addressJson J a) (\<lambda>toAddress.
     Inr [(lit ''move_tokens'', JObject [(lit ''toAddress'', toAddress), (lit ''value'', unsignedJson J version n)])])"
| "token_members J version info (BurnTokens n) = Inl (Check ''Unknown tokeninfo type'')"

definition add_status :: "json_lib \<Rightarrow> JsonVersion \<Rightarrow> TransactionInfo \<Rightarrow> json \<Rightarrow> json result" where
  "add_status J version info v =
     (let status = \<lambda>s. AddMember (lit ''status'') (jl_strToJson J (lit s)) v
      in if \<not> isStatusNeed info
         then Inr (status (if tx_intStatus info = None \<or> \<not> isIntStatusNotSuccess info then ''ok'' else ''error''))
         else case tx_status info of
           None \<Rightarrow> Inr (status (if tx_isModuleNotSet info then ''module_not_set'' else ''pending''))
         | Some st \<Rightarrow>
             let v = status (if ts_isSuccess st then ''ok'' else ''error'')
             in (case ts_status st of
                   UnDelegate value delegateHash \<Rightarrow>
                     json_change (lit ''delegate_info'') (addUnDelegateInfo J version value delegateHash)
                       (addUnDelegateInfo J version value delegateHash v)
                 | V8Status isServerError isScriptError contract \<Rightarrow>
                     bindE (json_at (lit ''script_info'') v) (\<lambda>_.
                     bindE (script_members J (ts_isSuccess st) isServerError isScriptError contract) (\<lambda>ms.
                     json_change (lit ''script_info'') (\<lambda>x. fold (\<lambda>(n, m). AddMember n m) ms x) v))
                 | _ \<Rightarrow> Inr v))"

definition full_transaction :: "json_lib \<Rightarrow> TransactionInfo \<Rightarrow> BlockHeader \<Rightarrow> JsonVersion \<Rightarrow> json result" where
  "full_transaction J info bh version =
     bindE (addressJson J (tx_fromAddress info)) (\<lambda>from.
     bindE (addressJson J (tx_toAddress info)) (\<lambda>to.
     bindE (getBlockType bh) (\<lambda>type.
     bindE (realFee info) (\<lambda>realFee.
     bindE (case tx_tokenInfo info of None \<Rightarrow> Inr [] | Some t \<Rightarrow> token_members J version info t) (\<lambda>tokens.
     add_status J version info (JObject
       ([(lit ''from'', from), (lit ''to'', to), (lit ''value'', signedJson J version (tx_value info)),
         (lit ''transaction'', hexJson J (tx_hash info)), (lit ''data'', hexJson J (tx_data info)),
         (lit ''timestamp'', unsignedJson J version (bh_timestamp bh)), (lit ''type'', jl_strToJson J (lit type)),
         (lit ''blockNumber'', unsignedJson J version (tx_blockNumber info)),
         (lit ''blockIndex'', unsignedJson J version (tx_blockIndex info)), (lit ''signature'', hexJson J (tx_sign info)),
         (lit ''publickey'', hexJson J (tx_pubKey info)), (lit ''fee'', signedJson J version (tx_fees info)),
         (lit ''realFee'', unsignedJson J version realFee), (lit ''nonce'', unsignedJson J version (tx_nonce info))] @
        (case tx_intStatus info of None \<Rightarrow> [] | Some n \<Rightarrow> [(lit ''intStatus'', JInt (uint n))]) @
        (case tx_delegate info of None \<Rightarrow> []
         | Some d \<Rightarrow> delegate_members J version d @ [(lit ''delegate_info'', JObject (delegate_members J version d))]) @
        (case tx_scriptInfo info of None \<Rightarrow> []
         | Some s \<Rightarrow> [(lit ''script_info'', JObject [(lit ''type'', jl_strToJson J (lit (script_type_name (si_type s))))])]) @
        tokens)))))))"

definition transactionInfoToJson :: "json_lib \<Rightarrow> TransactionInfo \<Rightarrow> BlockHeader \<Rightarrow> BlockTypeInfo \<Rightarrow> JsonVersion \<Rightarrow> json result" where
  "transactionInfoToJson J info bh type version =
     (case type of
        Full \<Rightarrow> full_transaction J info bh version
      | Hashes \<Rightarrow> Inr (hexJson J (tx_hash info))
      | _ \<Rightarrow> Inl (Check ''Incorrect transaction info type''))"

definition signTransactionInfoToJson :: "json_lib \<Rightarrow> SignTransactionInfo \<Rightarrow> json result" where
  "signTransactionInfoToJson J info =
     bindE (addressJson J (st_address info)) (\<lambda>address.
     Inr (JObject [(lit ''blockHash'', hexJson J (st_blockHash info)), (lit ''signature'', hexJson J (st_sign info)),
       (lit ''publickey'', hexJson J (st_pubkey info)), (lit ''address'', address)]))"

definition transactionToJson ::
  "json_lib \<Rightarrow> RequestId \<Rightarrow> TransactionInfo \<Rightarrow> BlockChain \<Rightarrow> u64 \<Rightarrow> u64 \<Rightarrow> bool \<Rightarrow> JsonVersion \<Rightarrow> bytes result" where
  "transactionToJson J rq info blockchain count knwonBlock isFormat version =
     bindE (getBlock_number (tx_blockNumber info) blockchain) (\<lambda>bh.
     bindE (CHECK (bh_blockNumber bh \<noteq> None) ''Block not found: '') (\<lambda>_.
     bindE (transactionInfoToJson J info bh Full version) (\<lambda>tx.
     Inr (answer J rq isFormat (JObject
       [(lit ''transaction'', tx), (lit ''countBlocks'', JInt (uint count)), (lit ''knownBlocks'', JInt (uint knwonBlock))])))))"

text \<open>The transactions of a list, each with the header of its block.\<close>

definition transactions_with_blocks :: "json_lib \<Rightarrow> TransactionInfo list \<Rightarrow> BlockChain \<Rightarrow> JsonVersion \<Rightarrow> json list result" where
  "transactions_with_blocks J infos blockchain version =
     map_json (\<lambda>tx. bindE (getBlock_number (tx_blockNumber tx) blockchain) (\<lambda>bh. transactionInfoToJson J tx bh Full version)) infos"

definition transactionsToJson ::
  "json_lib \<Rightarrow> RequestId \<Rightarrow> TransactionInfo list \<Rightarrow> BlockChain \<Rightarrow> bool \<Rightarrow> JsonVersion \<Rightarrow> bytes result" where
  "transactionsToJson J rq infos blockchain isFormat version =
     bindE (transactions_with_blocks J infos blockchain version) (\<lambda>txs. Inr (answer J rq isFormat (JArray txs)))"

definition addressesInfoToJson ::
  "json_lib \<Rightarrow> RequestId \<Rightarrow> TransactionInfo list \<Rightarrow> BlockChain \<Rightarrow> bool \<Rightarrow> JsonVersion \<Rightarrow> bytes result" where
  "addressesInfoToJson J rq infos blockchain isFormat version =
     bindE (transactions_with_blocks J infos blockchain version) (\<lambda>txs. Inr (answer J rq isFormat (JArray txs)))"

definition addressesInfoToJsonFilter ::
  "json_lib \<Rightarrow> RequestId \<Rightarrow> TransactionInfo list \<Rightarrow> u64 \<Rightarrow> BlockChain \<Rightarrow> bool \<Rightarrow> JsonVersion \<Rightarrow> bytes result" where
  "addressesInfoToJsonFilter J rq infos nextFrom blockchain isFormat version =
     bindE (transactions_with_blocks J infos blockchain version) (\<lambda>txs.
     Inr (answer J rq isFormat (JObject [(lit ''txs'', JArray txs), (lit ''nextFrom'', JInt (uint nextFrom))])))"

definition tokenToJson :: "json_lib \<Rightarrow> RequestId \<Rightarrow> Token \<Rightarrow> bool \<Rightarrow> bytes result" where
  "tokenToJson J rq info isFormat =
     (if isSet (tk_owner info)
      then bindE (addressJson J (tk_owner info)) (\<lambda>owner.
        Inr (answer J rq isFormat (JObject
          [(lit ''type'', jl_strToJson J (tk_type info)), (lit ''name'', jl_strToJson J (tk_name info)),
           (lit ''symbol'', jl_strToJson J (tk_symbol info)), (lit ''owner'', owner),
           (lit ''decimals'', JInt (sint (tk_decimals info))), (lit ''emission'', JInt (uint (tk_allValue info)))])))
      else Inr (answer J rq isFormat (JObject [])))"

subsection \<open>Balances\<close>

definition hash_member :: "json_lib \<Rightarrow> BalanceInfo \<Rightarrow> (bytes \<times> json) list" where
  "hash_member J b = (case b_hash b of None \<Rightarrow> [] | Some h \<Rightarrow> [(lit ''hash'', intOrString J True (uint h))])"

definition token_block_member :: "json_lib \<Rightarrow> JsonVersion \<Rightarrow> BalanceInfo \<Rightarrow> (bytes \<times> json) list" where
  "token_block_member J version b =
     (case b_tokenBlockNumber b of None \<Rightarrow> [] | Some n \<Rightarrow> [(lit ''token_block_number'', unsignedJson J version n)])"

definition delegated_members :: "json_lib \<Rightarrow> JsonVersion \<Rightarrow> BalanceInfo \<Rightarrow> (bytes \<times> json) list" where
  "delegated_members J version b =
     (case b_delegated b of
        None \<Rightarrow> []
      | Some d \<Rightarrow>
          [(lit ''countDelegatedOps'', unsignedJson J version (db_countOp d)),
           (lit ''delegate'', unsignedJson J version (el_spent (db_delegate d))),
           (lit ''undelegate'', unsignedJson J version (el_received (db_delegate d))),
           (lit ''delegated'', unsignedJson J version (el_received (db_delegated d))),
           (lit ''undelegated'', unsignedJson J version (el_spent (db_delegated d))),
           (lit ''reserved'', unsignedJson J version (db_reserved d))])"

definition forged_members :: "json_lib \<Rightarrow> JsonVersion \<Rightarrow> BalanceInfo \<Rightarrow> (bytes \<times> json) list" where
  "forged_members J version b =
     (case b_forged b of
        None \<Rightarrow> []
      | Some f \<Rightarrow> [(lit ''countForgedOps'', unsignedJson J version (fb_countOp f)), (lit ''forged'', unsignedJson J version (fb_forged f))])"

definition balance_json :: "json_lib \<Rightarrow> bytes \<Rightarrow> BalanceInfo \<Rightarrow> u64 \<Rightarrow> JsonVersion \<Rightarrow> json" where
  "balance_json J address b currentBlock version =
     JObject
       ([(lit ''address'', jl_strToJson J address), (lit ''received'', unsignedJson J version (el_received (b_balance b))),
         (lit ''spent'', unsignedJson J version (el_spent (b_balance b))),
         (lit ''count_received'', unsignedJson J version (b_countReceived b)),
         (lit ''count_spent'', unsignedJson J version (b_countSpent b)), (lit ''count_txs'', unsignedJson J version (b_countTxs b)),
         (lit ''block_number'', unsignedJson J version (b_blockNumber b)),
         (lit ''currentBlock'', unsignedJson J version currentBlock)] @
        hash_member J b @ delegated_members J version b @ forged_members J version b @ token_block_member J version b)"

definition token_balance_json :: "json_lib \<Rightarrow> JsonVersion \<Rightarrow> bytes \<times> TokenBalance \<Rightarrow> json result" where
  "token_balance_json J version tb =
     bindE (addressJson J (Address_of_range (fst tb))) (\<lambda>address.
     let b = snd tb in Inr (JObject
       [(lit ''address'', address), (lit ''received'', unsignedJson J version (el_received (tb_balance b))),
        (lit ''spent'', unsignedJson J version (el_spent (tb_balance b))),
        (lit ''value'', unsignedJson J version (balance (tb_balance b))),
        (lit ''count_received'', unsignedJson J version (tb_countReceived b)),
        (lit ''count_spent'', unsignedJson J version (tb_countSpent b)), (lit ''count_txs'', unsignedJson J version (tb_countOp b))]))"

definition balance_tokens_json :: "json_lib \<Rightarrow> BalanceInfo \<Rightarrow> u64 \<Rightarrow> JsonVersion \<Rightarrow> json result" where
  "balance_tokens_json J b currentBlock version =
     bindE (map_json (token_balance_json J version) (b_tokens b)) (\<lambda>tokens.
     Inr (JObject
       ([(lit ''block_number'', unsignedJson J version (b_blockNumber b)),
         (lit ''currentBlock'', unsignedJson J version currentBlock)] @ hash_member J b @
        (if b_tokens b = [] then [] else (lit ''tokens'', JArray tokens) # token_block_member J version b))))"

definition balanceInfoToJson :: "json_lib \<Rightarrow> RequestId \<Rightarrow> bytes \<Rightarrow> BalanceInfo \<Rightarrow> u64 \<Rightarrow> bool \<Rightarrow> JsonVersion \<Rightarrow> bytes" where
  "balanceInfoToJson J rq address b currentBlock isFormat version =
     answer J rq isFormat (balance_json J address b currentBlock version)"

definition balanceTokenInfoToJson :: "json_lib \<Rightarrow> RequestId \<Rightarrow> BalanceInfo \<Rightarrow> u64 \<Rightarrow> bool \<Rightarrow> JsonVersion \<Rightarrow> bytes result" where
  "balanceTokenInfoToJson J rq b currentBlock isFormat version =
     bindE (balance_tokens_json J b currentBlock version) (\<lambda>v. Inr (answer J rq isFormat v))"

definition balancesInfoToJson ::
  "json_lib \<Rightarrow> RequestId \<Rightarrow> (bytes \<times> BalanceInfo) list \<Rightarrow> u64 \<Rightarrow> bool \<Rightarrow> JsonVersion \<Rightarrow> bytes" where
  "balancesInfoToJson J rq balances currentBlock isFormat version =
     answer J rq isFormat (JArray (map (\<lambda>(address, b). balance_json J address b currentBlock version) balances))"

subsection \<open>Blocks\<close>

type_synonym block_signatures = "TransactionInfo list + SignTransactionInfo list"

definition signatures_json :: "json_lib \<Rightarrow> BlockHeader \<Rightarrow> block_signatures \<Rightarrow> JsonVersion \<Rightarrow> json result" where
  "signatures_json J bh signatures version =
     bindE (case signatures of
              Inl txs \<Rightarrow> map_json (\<lambda>tx. transactionInfoToJson J tx bh Full version) txs
            | Inr txs \<Rightarrow> map_json (signTransactionInfoToJson J) txs) (\<lambda>vs.
     Inr (JArray vs))"

definition block_header_json :: "json_lib \<Rightarrow> BlockHeader \<Rightarrow> block_signatures \<Rightarrow> BlockTypeInfo \<Rightarrow> JsonVersion \<Rightarrow> json result" where
  "block_header_json J bh signatures type version =
     (case bh_blockNumber bh of
        None \<Rightarrow> Inl (Check ''Block header not set'')
      | Some number \<Rightarrow>
          bindE (if type = Simple then bindE (getBlockType bh) (\<lambda>t. Inr [(lit ''type'', jl_strToJson J (lit t))]) else Inr [])
            (\<lambda>typeMember.
          bindE (if type = Simple then bindE (signatures_json J bh signatures version) (\<lambda>v. Inr [(lit ''signatures'', v)]) else Inr [])
            (\<lambda>signaturesMember.
          Inr (JObject
            (typeMember @ [(lit ''hash'', hexJson J (bh_hash bh)), (lit ''prev_hash'', hexJson J (bh_prevHash bh))] @
             (if type = Simple then [(lit ''tx_hash'', hexJson J (bh_txsHash bh))] else []) @
             [(lit ''number'', unsignedJson J version number)] @
             (if type = Simple
              then [(lit ''timestamp'', unsignedJson J version (bh_timestamp bh)),
                    (lit ''count_txs'', unsignedJson J version (bh_countTxs bh)), (lit ''sign'', hexJson J (bh_signature bh))]
              else []) @
             (if type \<noteq> Small
              then [(lit ''size'', JInt (uint (bh_blockSize bh))),
                    (lit ''fileName'', jl_strToJson J (fp_fileNameRelative (bh_filePos bh)))]
              else []) @ signaturesMember)))))"

definition blockHeaderToJson ::
  "json_lib \<Rightarrow> RequestId \<Rightarrow> BlockHeader \<Rightarrow> block_signatures \<Rightarrow> bool \<Rightarrow> BlockTypeInfo \<Rightarrow> JsonVersion \<Rightarrow> bytes result" where
  "blockHeaderToJson J rq bh signatures isFormat type version =
     (if bh_blockNumber bh = Some 0 then Inr (incorrect_block_number J rq)
      else bindE (block_header_json J bh signatures type version) (\<lambda>v. Inr (answer J rq isFormat v)))"

definition makeSignatures :: "json_lib \<Rightarrow> string \<Rightarrow> bytes list \<Rightarrow> bytes \<times> json" where
  "makeSignatures J name hashes = (lit name, JArray (map (hexJson J) hashes))"

definition blockHeaderToP2PJson ::
  "json_lib \<Rightarrow> RequestId \<Rightarrow> BlockHeader \<Rightarrow> bytes list \<Rightarrow> bytes list \<Rightarrow> bool \<Rightarrow> BlockTypeInfo \<Rightarrow> JsonVersion \<Rightarrow> bytes result" where
  "blockHeaderToP2PJson J rq bh prevSignaturesBlocks nextSignaturesBlocks isFormat type version =
     (if bh_blockNumber bh = Some 0 then Inr (incorrect_block_number J rq)
      else
        bindE (block_header_json J bh (Inl []) type version) (\<lambda>v.
        Inr (answer J rq isFormat
          (case makeSignatures J ''prev_extra_blocks'' prevSignaturesBlocks of (n, p) \<Rightarrow> AddMember n p
            (case makeSignatures J ''next_extra_blocks'' nextSignaturesBlocks of (n, x) \<Rightarrow> AddMember n x v)))))"

text \<open>A block without number 0 among the headers makes the whole answer an error.\<close>

definition blockHeadersToJson ::
  "json_lib \<Rightarrow> RequestId \<Rightarrow> BlockHeader list \<Rightarrow> block_signatures list \<Rightarrow> BlockTypeInfo \<Rightarrow> bool \<Rightarrow> JsonVersion \<Rightarrow> bytes result" where
  "blockHeadersToJson J rq bhs signatures type isFormat version =
     bindE (CHECK (length bhs + 1 = length signatures) ''Incorrect signatures vect'') (\<lambda>_.
     let before = takeWhile (\<lambda>(b, _). bh_blockNumber b \<noteq> Some 0) (zip bhs (tl signatures))
     in bindE (map_json (\<lambda>(b, signature). block_header_json J b signature type version) before) (\<lambda>vals.
        Inr (if length before < length bhs then incorrect_block_number J rq else answer J rq isFormat (JArray vals))))"

text \<open>\<open>prev\<close> are the signatures in front of the next header, and \<open>rest\<close> those behind it and so on.\<close>

fun p2p_headers :: "json_lib \<Rightarrow> BlockHeader list \<Rightarrow> bytes list list \<Rightarrow> JsonVersion \<Rightarrow> json list result" where
  "p2p_headers J [] signatures version = Inr []"
| "p2p_headers J (b # bs) (prevSignature # nextSignature # rest) version =
     bindE (block_header_json J b (Inl []) ForP2P version) (\<lambda>v.
     let v = (if bs = [] then (case makeSignatures J ''next_extra_blocks'' nextSignature of (n, x) \<Rightarrow> AddMember n x v) else v);
         v = (case makeSignatures J ''prev_extra_blocks'' prevSignature of (n, x) \<Rightarrow> AddMember n x v)
     in bindE (p2p_headers J bs (nextSignature # rest) version) (\<lambda>vs. Inr (v # vs)))"
| "p2p_headers J (b # bs) signatures version = Inl Undefined"

definition blockHeadersToP2PJsonImpl :: "json_lib \<Rightarrow> BlockHeader list \<Rightarrow> bytes list list \<Rightarrow> JsonVersion \<Rightarrow> json result" where
  "blockHeadersToP2PJsonImpl J bhs blockSignatures version =
     bindE (CHECK (bhs = [] \<or> length bhs + 1 = length blockSignatures) ''Incorrect signatures vect'') (\<lambda>_.
     bindE (p2p_headers J bhs blockSignatures version) (\<lambda>vals. Inr (JArray vals)))"

definition blockHeadersToP2PJson ::
  "json_lib \<Rightarrow> RequestId \<Rightarrow> BlockHeader list \<Rightarrow> bytes list list \<Rightarrow> bool \<Rightarrow> JsonVersion \<Rightarrow> bytes result" where
  "blockHeadersToP2PJson J rq bhs blockSignatures isFormat version =
     bindE (blockHeadersToP2PJsonImpl J bhs blockSignatures version) (\<lambda>v. Inr (answer J rq isFormat v))"

definition blockInfoToJson ::
  "json_lib \<Rightarrow> RequestId \<Rightarrow> BlockInfo \<Rightarrow> block_signatures \<Rightarrow> BlockTypeInfo \<Rightarrow> bool \<Rightarrow> JsonVersion \<Rightarrow> bytes result" where
  "blockInfoToJson J rq bi signatures type isFormat version =
     (if bh_blockNumber (bi_header bi) = Some 0 then Inr (incorrect_block_number J rq)
      else
        bindE (block_header_json J (bi_header bi) signatures Simple version) (\<lambda>v.
        bindE (map_json (\<lambda>tx. transactionInfoToJson J tx (bi_header bi) type version) (bi_txs bi)) (\<lambda>txs.
        Inr (answer J rq isFormat (AddMember (lit ''txs'') (JArray txs) v)))))"

definition genCountBlockJson :: "json_lib \<Rightarrow> RequestId \<Rightarrow> u64 \<Rightarrow> bool \<Rightarrow> JsonVersion \<Rightarrow> bytes" where
  "genCountBlockJson J rq count isFormat version =
     answer J rq isFormat (JObject [(lit ''count_blocks'', unsignedJson J version count)])"

definition genCountBlockForP2PJson :: "json_lib \<Rightarrow> RequestId \<Rightarrow> u64 \<Rightarrow> bytes list \<Rightarrow> bool \<Rightarrow> JsonVersion \<Rightarrow> bytes" where
  "genCountBlockForP2PJson J rq count signaturesBlocks isFormat version =
     answer J rq isFormat (JObject [(lit ''count_blocks'', unsignedJson J version count),
       (lit ''next_extra_blocks'', JArray (map (hexJson J) signaturesBlocks))])"

subsection \<open>Dumps\<close>

definition blockHashesToJson :: "json_lib \<Rightarrow> bytes list \<Rightarrow> bytes" where
  "blockHashesToJson J hashes = jl_print J None (JObject [(lit ''result'', JArray (map (hexJson J) hashes))])"

definition genDumpBlockBinary :: "json_lib \<Rightarrow> bytes \<Rightarrow> bool \<Rightarrow> bytes" where
  "genDumpBlockBinary J block isCompress = (if \<not> isCompress then block else compress (jl_lz4 J) block)"

definition genDumpBlocksBinary :: "json_lib \<Rightarrow> bytes list \<Rightarrow> bool \<Rightarrow> bytes" where
  "genDumpBlocksBinary J blocks isCompress =
     (let res = concat (map serializeString blocks) in if \<not> isCompress then res else compress (jl_lz4 J) res)"

definition preLoadBlocksJson ::
  "json_lib \<Rightarrow> u64 \<Rightarrow> BlockHeader list \<Rightarrow> bytes list list \<Rightarrow> bytes list \<Rightarrow> bool \<Rightarrow> JsonVersion \<Rightarrow> bytes result" where
  "preLoadBlocksJson J count bh blockSignatures blocks isCompress version =
     bindE (blockHeadersToP2PJsonImpl J bh blockSignatures version) (\<lambda>vals.
     let blockHeaders = jl_print J (Some False) (JObject [(lit ''result'', vals)]);
         blocksStr = genDumpBlocksBinary J blocks isCompress
     in bindE (if bh = []
               then bindE (CHECK (length blockSignatures = 0 \<or> length blockSignatures = 1) ''Incorrect block signatures'') (\<lambda>_.
                 Inr (case blockSignatures of [hashes] \<Rightarrow> blockHashesToJson J hashes | _ \<Rightarrow> []))
               else Inr []) (\<lambda>signBlocksHashes.
        Inr (serializeInt (size_of blockHeaders) @ serializeInt (size_of signBlocksHashes) @ serializeInt (size_of blocksStr) @
          serializeInt count @ blockHeaders @ signBlocksHashes @ blocksStr)))"

definition genBlockDumpJson :: "json_lib \<Rightarrow> RequestId \<Rightarrow> bytes \<Rightarrow> bool \<Rightarrow> bytes" where
  "genBlockDumpJson J rq blockDump isFormat = answer J rq isFormat (JObject [(lit ''dump'', jl_strToJson J blockDump)])"

subsection \<open>States, contracts and statistics\<close>

definition delegate_state_json :: "json_lib \<Rightarrow> JsonVersion \<Rightarrow> Address \<times> DelegateState \<Rightarrow> json result" where
  "delegate_state_json J version st =
     bindE (addressJson J (fst st)) (\<lambda>to.
     Inr (JObject [(lit ''to'', to), (lit ''value'', signedJson J version (ds_value (snd st))),
       (lit ''tx'', hexJson J (ds_hash (snd st)))]))"

definition delegateStatesToJson ::
  "json_lib \<Rightarrow> RequestId \<Rightarrow> bytes \<Rightarrow> (Address \<times> DelegateState) list \<Rightarrow> bool \<Rightarrow> JsonVersion \<Rightarrow> bytes result" where
  "delegateStatesToJson J rq address states isFormat version =
     bindE (map_json (delegate_state_json J version) states) (\<lambda>statesJson.
     Inr (answer J rq isFormat (JObject [(lit ''address'', jl_strToJson J address), (lit ''states'', JArray statesJson)])))"

text \<open>The parts of a path that repeated calls of \<open>std::getline\<close> return.\<close>

fun path_parts :: "bytes \<Rightarrow> bytes \<Rightarrow> bytes list" where
  "path_parts line [] = (if line = [] then [] else [line])"
| "path_parts line (c # s) = (if c = 47 then line # path_parts [] s else path_parts (line @ [c]) s)"

fun parseV8Details :: "json_lib \<Rightarrow> bytes list \<Rightarrow> json \<Rightarrow> bytes result" where
  "parseV8Details J [] v = Inr (jl_print J None v)"
| "parseV8Details J (line # path) v =
     (if IsObject v then bindE (json_at (c_str line) v) (parseV8Details J path)
      else if IsArray v then
        bindE (stoi line) (\<lambda>pos.
        if sint pos < 0 \<or> length (GetArray v) \<le> nat (sint pos) then Inl Undefined
        else parseV8Details J path (GetArray v ! nat (sint pos)))
      else Inl (Check ''Incorrect path: ''))"

definition genV8DetailsJson :: "json_lib \<Rightarrow> RequestId \<Rightarrow> bytes \<Rightarrow> V8Details \<Rightarrow> bytes \<Rightarrow> bool \<Rightarrow> bytes result" where
  "genV8DetailsJson J rq address details path isFormat =
     bindE (case jl_parse J (c_str (vd_details details)) of
              None \<Rightarrow> Inr (vd_details details)
            | Some v \<Rightarrow> parseV8Details J (path_parts [] path) v) (\<lambda>detailsResult.
     Inr (answer J rq isFormat (JObject
       [(lit ''details'', jl_strToJson J detailsResult), (lit ''last_error'', jl_strToJson J (vd_lastError details)),
        (lit ''address'', jl_strToJson J address)])))"

definition genCommonBalanceJson :: "json_lib \<Rightarrow> RequestId \<Rightarrow> CommonBalance \<Rightarrow> bool \<Rightarrow> JsonVersion \<Rightarrow> bytes" where
  "genCommonBalanceJson J rq b isFormat version =
     answer J rq isFormat (JObject [(lit ''balance'', unsignedJson J version (cb_money b))])"

definition genV8CodeJson :: "json_lib \<Rightarrow> RequestId \<Rightarrow> bytes \<Rightarrow> V8Code \<Rightarrow> bool \<Rightarrow> bytes" where
  "genV8CodeJson J rq address code isFormat =
     answer J rq isFormat (JObject [(lit ''code'', hexJson J (vc_code code)), (lit ''address'', jl_strToJson J address)])"

text \<open>The order of an unordered map is that of the list.\<close>

definition genForgingSumJson :: "json_lib \<Rightarrow> RequestId \<Rightarrow> ForgingSums \<Rightarrow> bool \<Rightarrow> JsonVersion \<Rightarrow> bytes" where
  "genForgingSumJson J rq sums isFormat version =
     answer J rq isFormat (JObject
       [(lit ''blockNumber'', unsignedJson J version (fs_blockNumber sums)),
        (lit ''sums'', JArray (map (\<lambda>(type, sum). JObject [(lit ''type'', JInt (uint type)),
           (lit ''value'', unsignedJson J version sum)]) (fs_sums sums)))])"

record NodeTestResult =
  nr_serverAddress :: bytes
  nr_testerAddress :: Address
  nr_typeNode :: bytes
  nr_result :: bytes
  nr_ip :: bytes
  nr_geo :: bytes
  nr_rps :: u64
  nr_success :: bool
  nr_isForwardSort :: bool
  nr_day :: u64
  nr_timestamp :: u64
  nr_avgRps :: u64

record NodeTestExtendedStat =
  ns_count :: NodeTestCount2
  ns_type :: bytes
  ns_ip :: bytes

definition genNodeStatResultJson ::
  "json_lib \<Rightarrow> RequestId \<Rightarrow> bytes \<Rightarrow> u64 \<Rightarrow> NodeTestResult \<Rightarrow> bool \<Rightarrow> JsonVersion \<Rightarrow> bytes" where
  "genNodeStatResultJson J rq address lastBlockTimestamp result isFormat version =
     answer J rq isFormat (JObject
       [(lit ''address'', jl_strToJson J address), (lit ''type'', jl_strToJson J (nr_typeNode result)),
        (lit ''avgRps'', jl_strToJson J (to_string (if nr_avgRps result \<noteq> 0 then nr_avgRps result - 1 else 0))),
        (lit ''isLatency'', JBool (\<not> nr_isForwardSort result)), (lit ''ip'', jl_strToJson J (nr_ip result)),
        (lit ''geo'', jl_strToJson J (nr_geo result)), (lit ''state'', jl_strToJson J (nr_result result)),
        (lit ''timestamp'', unsignedJson J version (nr_timestamp result)), (lit ''success'', JBool (nr_success result)),
        (lit ''lastBlockTimestamp'', unsignedJson J version lastBlockTimestamp)])"

definition genNodeStatTrustJson ::
  "json_lib \<Rightarrow> RequestId \<Rightarrow> bytes \<Rightarrow> u64 \<Rightarrow> NodeTestTrust \<Rightarrow> bool \<Rightarrow> JsonVersion \<Rightarrow> bytes" where
  "genNodeStatTrustJson J rq address lastBlockTimestamp result isFormat version =
     answer J rq isFormat (JObject
       [(lit ''address'', jl_strToJson J address), (lit ''trust'', intOrString J (version = V2) (sint (nt_trust result))),
        (lit ''data'', jl_strToJson J (nt_trustJson result)), (lit ''timestamp'', unsignedJson J version (nt_timestamp result)),
        (lit ''lastBlockTimestamp'', unsignedJson J version lastBlockTimestamp)])"

definition genNodeStatCountJson ::
  "json_lib \<Rightarrow> RequestId \<Rightarrow> bytes \<Rightarrow> u64 \<Rightarrow> NodeTestCount2 \<Rightarrow> bool \<Rightarrow> JsonVersion \<Rightarrow> bytes" where
  "genNodeStatCountJson J rq address lastBlockDay result isFormat version =
     answer J rq isFormat (JObject
       [(lit ''address'', jl_strToJson J address), (lit ''day'', unsignedJson J version (nc_day result)),
        (lit ''count'', unsignedJson J version (countSuccess result)), (lit ''countAll'', unsignedJson J version (nc_countAll result)),
        (lit ''testers'', intOrString J (version = V2) 1), (lit ''lastBlockDay'', unsignedJson J version lastBlockDay)])"

definition genAllNodesStatsCountJson ::
  "json_lib \<Rightarrow> RequestId \<Rightarrow> u64 \<Rightarrow> (bytes \<times> NodeTestExtendedStat) list \<Rightarrow> bool \<Rightarrow> JsonVersion \<Rightarrow> bytes" where
  "genAllNodesStatsCountJson J rq lastBlockDay result isFormat version =
     answer J rq isFormat (JObject
       [(lit ''nodes'', JArray (map (\<lambda>(node, stat). JObject
           [(lit ''node'', jl_strToJson J node), (lit ''ip'', jl_strToJson J (ns_ip stat)),
            (lit ''type'', jl_strToJson J (ns_type stat)), (lit ''count'', unsignedJson J version (nc_countAll (ns_count stat)))]) result)),
        (lit ''day'', unsignedJson J version (case result of [] \<Rightarrow> 0 | (node, stat) # _ \<Rightarrow> nc_day (ns_count stat))),
        (lit ''lastBlockDay'', unsignedJson J version lastBlockDay)])"

definition genNodesRaitingJson ::
  "json_lib \<Rightarrow> RequestId \<Rightarrow> bytes \<Rightarrow> u32 \<Rightarrow> u64 \<Rightarrow> u64 \<Rightarrow> bool \<Rightarrow> JsonVersion \<Rightarrow> bytes" where
  "genNodesRaitingJson J rq address raiting day lastBlockDay isFormat version =
     answer J rq isFormat (JObject
       [(lit ''address'', jl_strToJson J address), (lit ''raiting'', JInt (sint raiting)),
        (lit ''day'', unsignedJson J version day), (lit ''lastBlockDay'', unsignedJson J version lastBlockDay)])"

definition genTestSignStringJson :: "json_lib \<Rightarrow> RequestId \<Rightarrow> bytes \<Rightarrow> bytes" where
  "genTestSignStringJson J rq responseHex = answer J rq False (JObject [(lit ''data'', jl_strToJson J responseHex)])"

definition genRandomAddressesJson :: "json_lib \<Rightarrow> RequestId \<Rightarrow> Address list \<Rightarrow> bool \<Rightarrow> bytes result" where
  "genRandomAddressesJson J rq addresses isFormat =
     bindE (map_json (addressJson J) addresses) (\<lambda>nodesJson.
     Inr (answer J rq isFormat (JObject [(lit ''addresses'', JArray nodesJson)])))"

definition genRejectedTxHistoryJson :: "json_lib \<Rightarrow> RequestId \<Rightarrow> RejectedTransactionHistory option \<Rightarrow> bool \<Rightarrow> bytes" where
  "genRejectedTxHistoryJson J rq history isFormat =
     answer J rq isFormat
       (case history of
          None \<Rightarrow> jl_strToJson J (lit ''NotFound'')
        | Some h \<Rightarrow> JObject
            [(lit ''history'', JArray (map (\<lambda>element. JObject
                [(lit ''blockNumber'', JInt (uint (he_blockNumber element))), (lit ''timestamp'', JInt (uint (he_timestamp element))),
                 (lit ''code'', JInt (uint (he_errorCode element)))]) (hi_history h))),
             (lit ''hash'', hexJson J (hi_hash h))])"

definition genRejectedBlocksInfo :: "json_lib \<Rightarrow> RejectedBlockResult list \<Rightarrow> bytes" where
  "genRejectedBlocksInfo J info =
     jl_print J (Some False) (JObject [(lit ''result'', JObject [(lit ''elements'', JArray (map (\<lambda>element. JObject
       [(lit ''blockNumber'', JInt (uint (rr_blockNumber element))), (lit ''timestamp'', JInt (uint (rr_timestamp element))),
        (lit ''hash'', hexJson J (rr_hash element))]) info))])])"

end
