(* ===== verification/PreloadProps.thy ===== *)
theory PreloadProps
  imports NewBlocks GenerateJson "HOL-Library.Countable"
begin

section \<open>What a server answers is what a client reads\<close>

text \<open>
  The answer to \<open>pre-load\<close> that \<open>generate_json.cpp\<close> makes, read by the functions of
  \<open>get_new_blocks_messages.cpp\<close>: the headers, the extra blocks and the dumps come back as they were
  sent. A crafted answer makes the reader of the dumps loop; answers that hold a burnt token cannot be
  made at all.
\<close>

subsection \<open>Headers\<close>

text \<open>The header a client reads for a header of the server and the extra blocks around it.\<close>

definition minimum_header :: "json_lib \<Rightarrow> BlockHeader \<Rightarrow> bytes list \<Rightarrow> bytes list \<Rightarrow> MinimumBlockHeader" where
  "minimum_header J bh prev next' =
     \<lparr>mh_number = the (bh_blockNumber bh), mh_blockSize = bh_blockSize bh, mh_hash = jl_toHex J (bh_hash bh),
      mh_parentHash = jl_toHex J (bh_prevHash bh), mh_fileName = fp_fileNameRelative (bh_filePos bh),
      mh_prevExtraBlocks = fold List.insort_insert (map (jl_toHex J) prev) [],
      mh_nextExtraBlocks = fold List.insort_insert (map (jl_toHex J) next') []\<rparr>"

fun minimum_headers :: "json_lib \<Rightarrow> BlockHeader list \<Rightarrow> bytes list list \<Rightarrow> MinimumBlockHeader list" where
  "minimum_headers J (b # bs) (prev # next' # rest) =
     minimum_header J b prev (if bs = [] then next' else []) # minimum_headers J bs (next' # rest)"
| "minimum_headers J bs signatures = []"

text \<open>Numbers that fit into a signed integer, and a file name without a zero byte.\<close>

definition sendable :: "BlockHeader \<Rightarrow> bool" where
  "sendable b \<longleftrightarrow> (\<exists>n. bh_blockNumber b = Some n \<and> unat n < 2 ^ 63) \<and> unat (bh_blockSize b) < 2 ^ 63 \<and>
     0 \<notin> set (fp_fileNameRelative (bh_filePos b))"

lemma checked_member_found:
  assumes "map_of ms name = Some x" and "is x"
  shows "checked_member is msg name (JObject ms) = Inr x"
  using assms by (simp add: checked_member_def HasMember_def json_at_def)

lemma getStrings_hex: "json_lib_ok J \<Longrightarrow> getStrings J (map (hexJson J) hashes) = Inr (map (jl_toHex J) hashes)"
  by (induction hashes) (simp_all add: hexJson_def json_lib_okD)

lemma extra_blocks_found:
  assumes "json_lib_ok J" and "map_of ms name = Some (JArray (map (hexJson J) hashes))"
  shows "extra_blocks J name (JObject ms) = Inr (fold List.insort_insert (map (jl_toHex J) hashes) [])"
  using assms by (simp add: extra_blocks_def HasMember_def json_at_def getStrings_hex)

lemma extra_blocks_absent: "map_of ms name = None \<Longrightarrow> extra_blocks J name (JObject ms) = Inr []"
  by (simp add: extra_blocks_def HasMember_def)

lemma GetString_text: "0 \<notin> set s \<Longrightarrow> GetString (JString s) = s"
  by (auto simp: c_str_def takeWhile_eq_all_conv)

lemma GetString_hex: "json_lib_ok J \<Longrightarrow> GetString (hexJson J s) = jl_toHex J s"
  by (simp add: hexJson_def json_lib_okD)

lemma uint_above: "- (2 ^ 63) \<le> uint (n :: u64)"
  by (rule order.trans [OF _ uint_ge_0]) simp

lemma IsInt64_unsigned:
  assumes "unat (n :: u64) < 2 ^ 63"
  shows "IsInt64 (JInt (uint n))"
proof -
  have "nat (uint n) < 2 ^ 63"
    using assms unfolding unat_eq_nat_uint .
  then have "uint n < 2 ^ 63"
    by (simp only: nat_less_iff [OF uint_ge_0] of_nat_power of_nat_numeral)
  then show ?thesis
    unfolding IsInt64.simps using uint_above by blast
qed

lemma json_fits_unsigned: "json_fits (JInt (uint (n :: u64)))"
proof -
  have "uint n < 2 ^ 64"
    using unsigned_less [of n, where 'a = int] by simp
  then show ?thesis
    unfolding json_fits.simps using uint_above by blast
qed

definition p2p_members :: "json_lib \<Rightarrow> BlockHeader \<Rightarrow> bytes list \<Rightarrow> bytes list option \<Rightarrow> (bytes \<times> json) list" where
  "p2p_members J b prev next' =
     [(lit ''hash'', hexJson J (bh_hash b)), (lit ''prev_hash'', hexJson J (bh_prevHash b)),
      (lit ''number'', JInt (uint (the (bh_blockNumber b)))), (lit ''size'', JInt (uint (bh_blockSize b))),
      (lit ''fileName'', JString (fp_fileNameRelative (bh_filePos b)))] @
     (case next' of None \<Rightarrow> [] | Some hs \<Rightarrow> [(lit ''next_extra_blocks'', JArray (map (hexJson J) hs))]) @
     [(lit ''prev_extra_blocks'', JArray (map (hexJson J) prev))]"

lemma p2p_members_of:
  "map_of (p2p_members J b prev next') (lit ''hash'') = Some (hexJson J (bh_hash b))"
  "map_of (p2p_members J b prev next') (lit ''prev_hash'') = Some (hexJson J (bh_prevHash b))"
  "map_of (p2p_members J b prev next') (lit ''number'') = Some (JInt (uint (the (bh_blockNumber b))))"
  "map_of (p2p_members J b prev next') (lit ''size'') = Some (JInt (uint (bh_blockSize b)))"
  "map_of (p2p_members J b prev next') (lit ''fileName'') = Some (JString (fp_fileNameRelative (bh_filePos b)))"
  "map_of (p2p_members J b prev next') (lit ''prev_extra_blocks'') = Some (JArray (map (hexJson J) prev))"
  "map_of (p2p_members J b prev (Some hs)) (lit ''next_extra_blocks'') = Some (JArray (map (hexJson J) hs))"
  "map_of (p2p_members J b prev None) (lit ''next_extra_blocks'') = None"
  by (simp_all add: p2p_members_def split: option.splits)

lemma header_of_p2p_members:
  assumes "json_lib_ok J" and "sendable b"
  shows "header_of_json J (JObject (p2p_members J b prev next')) =
    Inr (minimum_header J b prev (case next' of None \<Rightarrow> [] | Some hs \<Rightarrow> hs))"
proof -
  let ?v = "JObject (p2p_members J b prev next')"
  obtain n where n: "bh_blockNumber b = Some n" "unat n < 2 ^ 63"
    using assms(2) by (auto simp: sendable_def)
  have sz: "unat (bh_blockSize b) < 2 ^ 63" and name: "0 \<notin> set (fp_fileNameRelative (bh_filePos b))"
    using assms(2) by (simp_all add: sendable_def)
  have "IsString (hexJson J s)" for s
    by (simp add: hexJson_def json_lib_okD [OF assms(1)])
  moreover have "extra_blocks J (lit ''next_extra_blocks'') ?v =
      Inr (fold List.insort_insert (map (jl_toHex J) (case next' of None \<Rightarrow> [] | Some hs \<Rightarrow> hs)) [])"
    using extra_blocks_found [OF assms(1) p2p_members_of(7)] extra_blocks_absent [OF p2p_members_of(8)]
    by (cases next') simp_all
  ultimately show ?thesis
    using n(1) IsInt64_unsigned [OF n(2)] IsInt64_unsigned [OF sz]
    by (simp del: lit_Cons IsInt64.simps GetString.simps
        add: header_of_json_def checked_member_found [OF p2p_members_of(1)] checked_member_found [OF p2p_members_of(2)]
        checked_member_found [OF p2p_members_of(3)] checked_member_found [OF p2p_members_of(4)]
        checked_member_found [OF p2p_members_of(5)] extra_blocks_found [OF assms(1) p2p_members_of(6)]
        minimum_header_def GetString_text [OF name] GetString_hex [OF assms(1)])
qed

lemma block_header_json_p2p:
  assumes "json_lib_ok J" and "bh_blockNumber b = Some n"
  shows "block_header_json J b (Inl []) ForP2P V1 = Inr (JObject
    [(lit ''hash'', hexJson J (bh_hash b)), (lit ''prev_hash'', hexJson J (bh_prevHash b)), (lit ''number'', JInt (uint n)),
     (lit ''size'', JInt (uint (bh_blockSize b))), (lit ''fileName'', JString (fp_fileNameRelative (bh_filePos b)))])"
  using assms(2) by (simp add: block_header_json_def unsignedJson_def intOrString_def json_lib_okD [OF assms(1)] del: lit_Cons)

lemma p2p_members_fit: "json_lib_ok J \<Longrightarrow> json_fits (JObject (p2p_members J b prev next'))"
  using json_fits_unsigned by (auto simp del: json_fits.simps(1) simp: p2p_members_def hexJson_def json_lib_okD split: option.splits)

lemma p2p_headers_parsed:
  assumes "json_lib_ok J" and "\<forall>b \<in> set bs. sendable b" and "length sigs = length bs + 1 \<or> bs = []"
  shows "\<exists>vs. p2p_headers J bs sigs V1 = Inr vs \<and> headers_of_json J vs = Inr (minimum_headers J bs sigs) \<and>
    (\<forall>v \<in> set vs. json_fits v)"
  using assms(2,3)
proof (induction bs arbitrary: sigs)
  case (Cons b bs)
  obtain prev next' rest where sigs: "sigs = prev # next' # rest"
    using Cons.prems(2) by (cases sigs; cases "tl sigs") auto
  obtain vs where vs: "p2p_headers J bs (next' # rest) V1 = Inr vs" "headers_of_json J vs = Inr (minimum_headers J bs (next' # rest))"
      "\<forall>v \<in> set vs. json_fits v"
    using Cons.IH [of "next' # rest"] Cons.prems sigs by auto
  obtain n where n: "bh_blockNumber b = Some n"
    using Cons.prems(1) by (auto simp: sendable_def)
  let ?next = "if bs = [] then Some next' else None"
  let ?v = "JObject (p2p_members J b prev ?next)"
  have "p2p_headers J (b # bs) sigs V1 = Inr (?v # vs)"
    by (simp add: sigs vs(1) block_header_json_p2p [OF assms(1) n] Let_def makeSignatures_def p2p_members_def n del: lit_Cons)
  moreover have "header_of_json J ?v = Inr (minimum_header J b prev (if bs = [] then next' else []))"
    using header_of_p2p_members [OF assms(1), of b prev ?next] Cons.prems(1) by (simp split: if_splits)
  ultimately show ?case
    using vs p2p_members_fit [OF assms(1), of b prev ?next] by (simp add: sigs del: json_fits.simps)
qed simp

text \<open>A document with a result and no error.\<close>

lemma parse_document_printed:
  assumes "json_lib_ok J" and "json_fits v"
  shows "parse_document J (jl_print J f v) = Inr v"
  using assms by (simp add: parse_document_def json_lib_okD)

lemma check_no_error_result: "check_no_error J (JObject [(lit ''result'', v)]) = Inr ()"
  by (simp add: check_no_error_def HasMember_def)

lemma parseBlocksHeader_printed:
  assumes "json_lib_ok J" and "\<forall>v \<in> set vs. json_fits v"
  shows "parseBlocksHeader J (jl_print J f (JObject [(lit ''result'', JArray vs)])) = headers_of_json J vs"
proof -
  have "json_fits (JObject [(lit ''result'', JArray vs)])"
    using assms(2) by simp
  then show ?thesis
    by (simp add: parseBlocksHeader_def parse_document_printed [OF assms(1)] check_no_error_result checked_member_found del: lit_Cons)
qed

lemma parseAdditionalBlockHashes_empty: "parseAdditionalBlockHashes J [] = Inr []"
  by (simp add: parseAdditionalBlockHashes_def)

lemma parseAdditionalBlockHashes_printed:
  assumes "json_lib_ok J"
  shows "parseAdditionalBlockHashes J (blockHashesToJson J hashes) = Inr (map (jl_toHex J) hashes)"
proof -
  let ?v = "JObject [(lit ''result'', JArray (map (hexJson J) hashes))]"
  have fits: "json_fits ?v"
    by (simp add: hexJson_def json_lib_okD [OF assms])
  then have "jl_print J None ?v \<noteq> []"
    using json_lib_okD(1,2) [OF assms] by (metis option.distinct(1))
  then show ?thesis
    by (simp add: parseAdditionalBlockHashes_def blockHashesToJson_def parse_document_printed [OF assms fits] check_no_error_result
        json_lib_okD(6) [OF assms] getStrings_hex [OF assms] del: lit_Cons)
qed

subsection \<open>Dumps\<close>

lemma read_dumps_at: "at r p (concat (map serializeString blocks)) \<Longrightarrow> read_dumps r p = Some (Inr blocks)"
proof (induction blocks arbitrary: p)
  case Nil
  then show ?case
    using at_size_less [of r p "[]"] by (subst read_dumps.simps) simp
next
  case (Cons b bs)
  have a: "at r p (serializeString b @ concat (map serializeString bs))"
    using Cons.prems by simp
  have "serializeString b @ concat (map serializeString bs) \<noteq> []"
    using length_serializeString [of b] by force
  then have "p < size_of r"
    using at_size_less [OF a] by blast
  then show ?case
    using decodesD [OF decodes_string a] Cons.IH [OF at_adv [OF a]] by (subst read_dumps.simps) simp
qed

lemma dumps_parsed:
  assumes "lz4_ok (jl_lz4 J)" and "length (concat (map serializeString blocks)) < 2 ^ 64"
    and "isCompress \<longrightarrow> length (concat (map serializeString blocks)) \<le> LZ4_MAX_INPUT_SIZE"
  shows "parseDumpBlocksBinary J isCompress (genDumpBlocksBinary J blocks isCompress) = Some (Inr blocks)"
  using read_dumps_at [OF at_zero [OF assms(2)]] decompress_compress [OF assms(1)] assms(3)
  by (simp add: parseDumpBlocksBinary_def genDumpBlocksBinary_def Let_def)

subsection \<open>The frame\<close>

lemma be_bytes_small: "v < 256 ^ n \<Longrightarrow> be_bytes (Suc n) v = 0 # be_bytes n v"
proof (induction n arbitrary: v)
  case (Suc n)
  then have "v div 256 < 256 ^ n"
    by (simp add: less_mult_imp_div_less mult.commute)
  then have "be_bytes (Suc n) (v div 256) = 0 # be_bytes n (v div 256)"
    by (rule Suc.IH)
  then have "be_bytes (Suc (Suc n)) v = (0 # be_bytes n (v div 256)) @ [of_nat (v mod 256)]"
    by (simp only: be_bytes.simps(2) [of "Suc n"])
  then show ?case
    by simp
qed simp

text \<open>The first byte of the frame is the highest one of a small size: for \<open>c_str\<close> the text is empty.\<close>

lemma frame_is_no_text: "unat (n :: u64) < 2 ^ 56 \<Longrightarrow> c_str (serializeInt n @ rest) = []"
  using be_bytes_small [of "unat n" 7]
  by (simp add: c_str_def serializeInt_def toBinaryStringBigEndian_eq sizeof_def)

lemma preload_part_at:
  assumes "at response pos (part @ rest)"
  shows "preload_part response (size_of part) pos = Inr (part, adv pos part)" and "at response (adv pos part) rest"
proof -
  show rest: "at response (adv pos part) rest"
    by (rule at_adv [OF assms])
  have "unat (pos + size_of part) = unat pos + length part"
    using at_unat_adv [OF assms] by (simp add: adv_def size_of_def)
  moreover have "unat pos + length part \<le> length response" "length response < 2 ^ 64" "length part < 2 ^ 64"
    using assms at_length [OF assms] by (simp_all add: at_def)
  ultimately show "preload_part response (size_of part) pos = Inr (part, adv pos part)"
    using assms
    by (simp add: preload_part_def substr_def word_le_nat_alt word_less_nat_alt unat_size_of adv_def size_of_def [symmetric] at_def)
qed

lemma frame_parsed:
  assumes "json_lib_ok J" and "length (h @ a @ d) + 32 < 2 ^ 56"
  shows "parsePreloadBlocksMessage J
      (serializeInt (size_of h) @ serializeInt (size_of a) @ serializeInt (size_of d) @ serializeInt count @ h @ a @ d) =
    Inr \<lparr>pl_countBlocks = count, pl_blockHeaders = h, pl_additingBlocksHashes = a, pl_blockDumps = d, pl_error = None\<rparr>"
    (is "parsePreloadBlocksMessage J ?r = _")
proof -
  have "unat (size_of h) < 2 ^ 56"
    using assms(2) by (simp add: unat_size_of)
  then have noerror: "preload_error J ?r = Inr None"
    by (simp add: preload_error_def frame_is_no_text json_lib_okD(2) [OF assms(1)])
  have a0: "at ?r 0 ?r"
    using assms(2) by (intro at_zero) simp
  note a1 = at_adv [OF a0]
  note a2 = at_adv [OF a1]
  note a3 = at_adv [OF a2]
  note a4 = at_adv [OF a3]
  note p1 = preload_part_at [OF a4]
  note p2 = preload_part_at [OF p1(2)]
  have a5: "at ?r (adv (adv (adv (adv (adv (adv 0 (serializeInt (size_of h))) (serializeInt (size_of a))) (serializeInt (size_of d)))
      (serializeInt count)) h) a) (d @ [])"
    using p2(2) by simp
  note p3 = preload_part_at [OF a5]
  have "adv (adv (adv (adv (adv (adv (adv 0 (serializeInt (size_of h))) (serializeInt (size_of a))) (serializeInt (size_of d)))
      (serializeInt count)) h) a) d = size_of ?r"
    by (simp add: adv_def size_of_def)
  then show ?thesis
    by (simp add: parsePreloadBlocksMessage_def noerror decodesD [OF decodes_u64 a0] decodesD [OF decodes_u64 a1]
        decodesD [OF decodes_u64 a2] decodesD [OF decodes_u64 a3] p1(1) p2(1) p3(1))
qed

text \<open>
  C6: The answer to a preload request is read as it was sent. Whatever headers, extra blocks and dumps
  \<open>preLoadBlocksJson\<close> puts into an answer (of less than 2^56 bytes; compressed dumps up to the limit of
  LZ4), the client finds the count of blocks, the headers with the hashes in hexadecimal and the extra
  blocks as sets, the hashes behind the last block, and the dumps in order.
\<close>

theorem preload_roundtrip:
  assumes "json_lib_ok J" and "\<forall>b \<in> set bh. sendable b"
    and "preLoadBlocksJson J count bh signatures blocks isCompress V1 = Inr response" and "length response < 2 ^ 56"
    and "isCompress \<longrightarrow> length (concat (map serializeString blocks)) \<le> LZ4_MAX_INPUT_SIZE"
  shows "\<exists>p. parsePreloadBlocksMessage J response = Inr p \<and> pl_error p = None \<and> pl_countBlocks p = count \<and>
    parseBlocksHeader J (pl_blockHeaders p) = Inr (minimum_headers J bh signatures) \<and>
    parseAdditionalBlockHashes J (pl_additingBlocksHashes p) =
      Inr (case (bh, signatures) of ([], [hashes]) \<Rightarrow> map (jl_toHex J) hashes | _ \<Rightarrow> []) \<and>
    parseDumpBlocksBinary J isCompress (pl_blockDumps p) = Some (Inr blocks)"
proof -
  have shape: "length signatures = length bh + 1 \<or> bh = []"
    using assms(3) by (auto simp: preLoadBlocksJson_def blockHeadersToP2PJsonImpl_def CHECK_def split: if_splits)
  obtain vs where vs: "p2p_headers J bh signatures V1 = Inr vs" "headers_of_json J vs = Inr (minimum_headers J bh signatures)"
      "\<forall>v \<in> set vs. json_fits v"
    using p2p_headers_parsed [OF assms(1,2) shape] by blast
  let ?h = "jl_print J (Some False) (JObject [(lit ''result'', JArray vs)])"
  let ?d = "genDumpBlocksBinary J blocks isCompress"
  let ?a = "case (bh, signatures) of ([], [hashes]) \<Rightarrow> blockHashesToJson J hashes | _ \<Rightarrow> []"
  have impl: "blockHeadersToP2PJsonImpl J bh signatures V1 = Inr (JArray vs)"
    using shape vs(1) by (auto simp: blockHeadersToP2PJsonImpl_def)
  have response: "response = serializeInt (size_of ?h) @ serializeInt (size_of ?a) @ serializeInt (size_of ?d) @ serializeInt count @
      ?h @ ?a @ ?d"
    using assms(3) by (auto simp: preLoadBlocksJson_def impl Let_def result_simps simp del: lit_Cons split: if_splits list.splits)
  have len: "length (?h @ ?a @ ?d) + 32 < 2 ^ 56"
    using assms(4) unfolding response by simp
  have dumps: "length (concat (map serializeString blocks)) < 2 ^ 64"
    using len assms(5) by (cases isCompress) (auto simp: LZ4_MAX_INPUT_SIZE_def genDumpBlocksBinary_def)
  have "parseAdditionalBlockHashes J ?a = Inr (case (bh, signatures) of ([], [hashes]) \<Rightarrow> map (jl_toHex J) hashes | _ \<Rightarrow> [])"
    using parseAdditionalBlockHashes_printed [OF assms(1)] by (simp add: parseAdditionalBlockHashes_empty split: list.splits)
  then show ?thesis
    unfolding response frame_parsed [OF assms(1) len]
    using parseBlocksHeader_printed [OF assms(1) vs(3)] vs(2) dumps_parsed [OF json_lib_okD(9) [OF assms(1)] dumps assms(5)]
    by simp
qed

text \<open>
  Libraries with the documented behaviour: one document is printed as a single byte, all others are
  numbered and printed in unary; hexadecimal digits are counted from one.
\<close>

fun sample_toHex :: "bytes \<Rightarrow> bytes" where
  "sample_toHex [] = []"
| "sample_toHex (b # bs) = of_nat (unat b div 16 + 1) # of_nat (unat b mod 16 + 1) # sample_toHex bs"

lemma sample_digit:
  assumes "n < 16"
  shows "unat (of_nat (n + 1) :: byte) = n + 1"
  by (subst unat_of_nat) (use assms in simp)

lemma sample_toHex_nonzero: "0 \<notin> set (sample_toHex s)"
proof (induction s)
  case (Cons b bs)
  have "unat b div 16 < 16"
    using unsigned_less [of b, where 'a = nat] by simp
  then have "unat (of_nat (unat b div 16 + 1) :: byte) \<noteq> 0" "unat (of_nat (unat b mod 16 + 1) :: byte) \<noteq> 0"
    using sample_digit [of "unat b div 16"] sample_digit [of "unat b mod 16"] by simp_all
  then show ?case
    using Cons by (metis sample_toHex.simps(2) set_ConsD unsigned_0)
qed simp

lemma sample_toHex_inject: "sample_toHex s = sample_toHex t \<Longrightarrow> s = t"
proof (induction s arbitrary: t)
  case Nil
  then show ?case
    by (cases t) simp_all
next
  case (Cons b bs)
  then obtain c cs where t: "t = c # cs"
    by (cases t) auto
  have small: "unat x div 16 < 16" for x :: byte
    using unsigned_less [of x, where 'a = nat] by simp
  have "unat (of_nat (unat b div 16 + 1) :: byte) = unat (of_nat (unat c div 16 + 1) :: byte)"
      "unat (of_nat (unat b mod 16 + 1) :: byte) = unat (of_nat (unat c mod 16 + 1) :: byte)"
    using Cons.prems by (simp_all only: t sample_toHex.simps list.inject)
  then have "unat b div 16 = unat c div 16" "unat b mod 16 = unat c mod 16"
    using sample_digit [OF small] sample_digit [of "unat b mod 16"] sample_digit [of "unat c mod 16"] by simp_all
  then have "unat b = unat c"
    by (metis div_mult_mod_eq)
  then have "b = c"
    by (rule unsigned_word_eqI)
  then show ?case
    using Cons by (simp add: t)
qed

definition sample_document :: json where
  "sample_document = JObject [(lit ''result'', JArray [JObject
     [(lit ''hash'', JString [1, 2]), (lit ''prev_hash'', JString [1, 10]), (lit ''number'', JInt 6), (lit ''size'', JInt 2),
      (lit ''fileName'', JString (lit ''a'')), (lit ''next_extra_blocks'', JArray []),
      (lit ''prev_extra_blocks'', JArray [JString [1, 6]])]])]"

instance json :: countable
  by countable_datatype

definition sample_json_lib :: json_lib where
  "sample_json_lib = \<lparr>
     jl_parse = (\<lambda>s. if s = [] then None else if s = [2] then Some sample_document else Some (from_nat (length s - 1))),
     jl_print = (\<lambda>_ v. if v = sample_document then [2] else replicate (Suc (to_nat v)) 1), jl_message = (\<lambda>_. []),
     jl_strToJson = JString, jl_getString = (\<lambda>v. case v of JString s \<Rightarrow> Inr s | _ \<Rightarrow> Inl (Check ''Not a string'')),
     jl_getArray = (\<lambda>v name. bindE (json_at name v) (\<lambda>a. Inr (GetArray a))), jl_toHex = sample_toHex,
     jl_lz4 = \<lparr>lz_compress = (\<lambda>s. s), lz_decompress = (\<lambda>s n. Some s), lz_buffer = (\<lambda>s n. s)\<rparr>\<rparr>"

lemma sample_json_lib_ok: "json_lib_ok sample_json_lib"
proof -
  have "inj sample_toHex"
    by (rule injI) (rule sample_toHex_inject)
  then show ?thesis
    by (auto simp: json_lib_ok_def sample_json_lib_def lz4_ok_def json_at_def sample_toHex_nonzero)
qed

definition sample_header :: BlockHeader where
  "sample_header = BlockHeader_default\<lparr>bh_hash := [1], bh_prevHash := [9], bh_blockNumber := Some 6, bh_blockSize := 2,
     bh_filePos := \<lparr>fp_pos = 0, fp_fileNameRelative = lit ''a''\<rparr>\<rparr>"

theorem preload_roundtrip_witness:
  "\<exists>response p. preLoadBlocksJson sample_json_lib 6 [sample_header] [[[5]], []] [[1, 2], [3]] False V1 = Inr response \<and>
     parsePreloadBlocksMessage sample_json_lib response = Inr p \<and> pl_countBlocks p = 6 \<and>
     parseBlocksHeader sample_json_lib (pl_blockHeaders p) =
       Inr [\<lparr>mh_number = 6, mh_blockSize = 2, mh_hash = [1, 2], mh_parentHash = [1, 10], mh_fileName = lit ''a'',
             mh_prevExtraBlocks = [[1, 6]], mh_nextExtraBlocks = []\<rparr>] \<and>
     parseDumpBlocksBinary sample_json_lib False (pl_blockDumps p) = Some (Inr [[1, 2], [3]])"
proof -
  let ?response = "serializeInt (1 :: u64) @ serializeInt (0 :: u64) @ serializeInt (19 :: u64) @ serializeInt (6 :: u64) @ [2] @
    serializeString [1, 2] @ serializeString [3]"
  have "\<forall>b \<in> set [sample_header]. sendable b"
    by (simp add: sendable_def sample_header_def)
  moreover have response: "preLoadBlocksJson sample_json_lib 6 [sample_header] [[[5]], []] [[1, 2], [3]] False V1 = Inr ?response"
    by (simp add: preLoadBlocksJson_def blockHeadersToP2PJsonImpl_def block_header_json_def makeSignatures_def Let_def
        sample_json_lib_def sample_document_def sample_header_def unsignedJson_def intOrString_def hexJson_def genDumpBlocksBinary_def
        size_of_def)
  moreover have "length ?response < 2 ^ 56"
    by simp
  ultimately show ?thesis
    using preload_roundtrip [OF sample_json_lib_ok, of "[sample_header]" 6 "[[[5]], []]" "[[1, 2], [3]]" False ?response]
    by (auto simp: minimum_header_def sample_header_def sample_json_lib_def List.insort_insert_key_def)
qed

subsection \<open>An answer of sixteen bytes\<close>

definition endless_dumps :: bytes where
  "endless_dumps = serializeInt (0 :: u64) @ serializeInt (- 16 :: u64)"

lemma endless_steps:
  "deserializeString endless_dumps 0 = Inr ([], 8)" "deserializeString endless_dumps 8 = Inr ([], 0)"
  "0 < size_of endless_dumps" "8 < size_of endless_dumps"
proof -
  have a0: "at endless_dumps 0 (serializeString [] @ serializeInt (- 16 :: u64))"
    using at_zero [of endless_dumps] by (simp add: endless_dumps_def serializeString_def size_of_def)
  have p8: "adv 0 (serializeString []) = 8"
    by (simp add: adv_def)
  have a8: "at endless_dumps 8 (serializeInt (- 16 :: u64) @ [])"
    using at_adv [OF a0] p8 by simp
  have "deserializeInt_end endless_dumps 8 = Inr (- 16 :: u64, 16)"
    using decodesD [OF decodes_fromBinary [where 'a = 64 and v = "- 16"], of endless_dumps 8 "[]"] a8
    by (simp add: deserializeInt_end_def serializeInt_def [symmetric] adv_def)
  moreover have "substr endless_dumps 16 (- 16) = Inr []"
    by (simp add: substr_def endless_dumps_def size_of_def)
  ultimately show "deserializeString endless_dumps 8 = Inr ([], 0)"
    by (simp add: deserializeString_def deserializeString_end_def)
  show "deserializeString endless_dumps 0 = Inr ([], 8)"
    using decodesD [OF decodes_string a0] p8 by simp
qed (simp_all add: endless_dumps_def size_of_def)

lemma endless_loop:
  assumes "read_dumps r p = Some y"
  shows "\<not> (r = endless_dumps \<and> (p = 0 \<or> p = 8))"
proof (rule read_dumps.raw_induct [OF _ assms, where P = "\<lambda>r p y. \<not> (r = endless_dumps \<and> (p = 0 \<or> p = 8))"], rule notI)
  fix f :: "bytes \<Rightarrow> u64 \<Rightarrow> bytes list result option" and r p y
  assume IH: "\<And>r p y. f r p = Some y \<Longrightarrow> \<not> (r = endless_dumps \<and> (p = 0 \<or> p = 8))"
    and body: "(if p < size_of r
        then case deserializeString r p of Inl e \<Rightarrow> Some (Inl e)
           | Inr (s, p) \<Rightarrow> Option.bind (f r p) (\<lambda>res. Some (bindE res (\<lambda>res. Inr (s # res))))
        else Some (Inr [])) = Some y"
    and "r = endless_dumps \<and> (p = 0 \<or> p = 8)"
  then show False
    by (auto simp: endless_steps bind_eq_Some_conv dest: IH)
qed

text \<open>
  C34: A defect: an answer of sixteen bytes, an empty dump and a size of 2^64 - 16, keeps the client busy
  for ever. The size brings the position back to the begin of the answer, so \<open>parseDumpBlocksBinary\<close>
  reads the two dumps again and again.
\<close>

theorem crafted_dumps_never_end:
  "parseDumpBlocksBinary J False (serializeInt (0 :: u64) @ serializeInt (- 16 :: u64)) = None"
  using endless_loop [of endless_dumps 0] by (cases "read_dumps endless_dumps 0") (auto simp: parseDumpBlocksBinary_def endless_dumps_def)

subsection \<open>Burnt tokens\<close>

lemma map_json_fails: "x \<in> set xs \<Longrightarrow> f x = Inl e \<Longrightarrow> \<exists>e. map_json f xs = Inl e"
proof (induction xs)
  case (Cons y ys)
  show ?case
  proof (cases "f y")
    case (Inr v)
    then obtain e' where "map_json f ys = Inl e'"
      using Cons by auto
    then show ?thesis
      using Inr by simp
  qed simp
qed simp

lemma burnt_token_fails:
  assumes "tx_tokenInfo tx = Some (BurnTokens n)"
  shows "\<exists>e. full_transaction J tx bh version = Inl e"
  using assms by (cases "full_transaction J tx bh version") (auto simp: full_transaction_def result_simps)

text \<open>
  A defect: one transaction that burns tokens makes every answer that would hold it an error, the
  history of an address as well as the list of transactions, in both versions of the interface.
\<close>

theorem burnt_tokens_hide_history:
  assumes "tx \<in> set infos" and "tx_tokenInfo tx = Some (BurnTokens n)"
  shows "(\<exists>e. addressesInfoToJson J rq infos blockchain isFormat version = Inl e) \<and>
    (\<exists>e. addressesInfoToJsonFilter J rq infos nextFrom blockchain isFormat version = Inl e) \<and>
    (\<exists>e. transactionsToJson J rq infos blockchain isFormat version = Inl e)"
proof -
  let ?f = "\<lambda>tx. bindE (getBlock_number (tx_blockNumber tx) blockchain) (\<lambda>bh. transactionInfoToJson J tx bh Full version)"
  obtain e where "?f tx = Inl e"
    using burnt_token_fails [OF assms(2), of J _ version]
    by (cases "getBlock_number (tx_blockNumber tx) blockchain") (auto simp: transactionInfoToJson_def)
  then obtain e' where "transactions_with_blocks J infos blockchain version = Inl e'"
    using map_json_fails [OF assms(1), of ?f] by (auto simp: transactions_with_blocks_def)
  then show ?thesis
    by (simp add: addressesInfoToJson_def addressesInfoToJsonFilter_def transactionsToJson_def)
qed

theorem burnt_tokens_hide_history_witness:
  "\<exists>e. transactionsToJson sample_json_lib \<lparr>rq_id = Inr 1, rq_isSet = True\<rparr>
     [TransactionInfo_default\<lparr>tx_tokenInfo := Some (BurnTokens 3)\<rparr>] BlockChain_empty False V1 = Inl e"
  using burnt_tokens_hide_history [of "TransactionInfo_default\<lparr>tx_tokenInfo := Some (BurnTokens 3)\<rparr>"
      "[TransactionInfo_default\<lparr>tx_tokenInfo := Some (BurnTokens 3)\<rparr>]" 3 sample_json_lib] by simp

end
