(* ===== verification/LastBlock.thy ===== *)
theory LastBlock
  imports NewBlocks PreloadProps
begin

section \<open>The last block of the network\<close>

text \<open>
  \<open>getLastBlock\<close> asks all servers. Its answer is determined by the answers that could be read: the
  greatest count of blocks, the servers that have it, and all their extra blocks.
\<close>

text \<open>The answers that could be read, in the order in which they came.\<close>

definition readable :: "json_lib \<Rightarrow> (bytes \<times> bytes \<times> string option) list \<Rightarrow> (bytes \<times> u64 \<times> bytes list) list" where
  "readable J answers = List.map_filter (\<lambda>(server, result, curlException).
     if curlException \<noteq> None then None
     else case parseCountBlocksMessage J result of Inl e \<Rightarrow> None | Inr (n, extra) \<Rightarrow> Some (server, n, extra)) answers"

text \<open>The part of the answers with a given count of blocks.\<close>

definition with_count :: "u64 \<Rightarrow> (bytes \<times> u64 \<times> bytes list) list \<Rightarrow> (bytes \<times> u64 \<times> bytes list) list" where
  "with_count n oks = filter (\<lambda>(server, m, extra). m = n) oks"

definition extra_of :: "(bytes \<times> u64 \<times> bytes list) list \<Rightarrow> bytes set" where
  "extra_of oks = (\<Union>(server, n, extra) \<in> set oks. set extra)"

lemma readable_simps:
  "readable J [] = []"
  "readable J (a # as) = readable J [a] @ readable J as"
  by (simp_all add: readable_def map_filter_simps split: option.splits)

lemma with_count_append [simp]: "with_count n (xs @ ys) = with_count n xs @ with_count n ys"
  by (simp add: with_count_def)

lemma extra_of_append [simp]: "extra_of (xs @ ys) = extra_of xs \<union> extra_of ys"
  by (simp add: extra_of_def)

text \<open>What has been collected after some answers.\<close>

definition collected :: "(bytes \<times> u64 \<times> bytes list) list \<Rightarrow> last_block_answers \<Rightarrow> bool" where
  "collected oks acc \<longleftrightarrow>
     (case la_lastBlock acc of
        None \<Rightarrow> oks = [] \<and> la_servers acc = [] \<and> la_extraBlocks acc = []
      | Some n \<Rightarrow>
          with_count n oks \<noteq> [] \<and> (\<forall>(server, m, extra) \<in> set oks. m \<le> n) \<and>
          la_servers acc = map fst (with_count n oks) \<and> set (la_extraBlocks acc) = extra_of (with_count n oks))"

lemma set_insort_fold: "set (fold List.insort_insert xs ys) = set xs \<union> set ys"
  by (induction xs arbitrary: ys) (auto simp: set_insort_insert)

lemma collected_answer:
  assumes "collected oks acc" and "count_answer J a acc = Inr acc'"
  shows "collected (oks @ readable J [a]) acc'"
proof -
  obtain server result curlException where a: "a = (server, result, curlException)"
    by (cases a)
  show ?thesis
  proof (cases "curlException = None \<and> (\<exists>ok. parseCountBlocksMessage J result = Inr ok)")
    case False
    then have "readable J [a] = []"
      by (auto simp: a readable_def map_filter_simps split: sum.splits)
    moreover have "la_lastBlock acc' = la_lastBlock acc \<and> la_servers acc' = la_servers acc \<and> la_extraBlocks acc' = la_extraBlocks acc"
      using False assms(2) by (auto simp: a count_answer_def split: option.splits sum.splits error.splits)
    ultimately show ?thesis
      using assms(1) by (cases "la_lastBlock acc") (simp_all add: collected_def)
  next
    case True
    then obtain n extra where ok: "curlException = None" "parseCountBlocksMessage J result = Inr (n, extra)"
      by auto
    then have a': "a = (server, result, None)"
      by (simp add: a)
    have readable: "readable J [(server, result, None)] = [(server, n, extra)]"
      using ok by (simp add: readable_def map_filter_simps)
    show ?thesis
    proof (cases "la_lastBlock acc")
      case None
      then show ?thesis
        using assms ok
        by (auto simp: a' readable collected_def count_answer_def Let_def with_count_def extra_of_def set_insort_fold word_gt_0 split: if_splits)
    next
      case (Some m)
      have old: "with_count m oks \<noteq> []" "\<forall>(server, m', extra) \<in> set oks. m' \<le> m" "la_servers acc = map fst (with_count m oks)"
          "set (la_extraBlocks acc) = extra_of (with_count m oks)"
        using assms(1) Some by (simp_all add: collected_def)
      have greater: "with_count n oks = []" if "m < n"
        using old(2) that by (fastforce simp: with_count_def filter_empty_conv)
      consider "m < n" | "m = n" | "n < m"
        by (rule linorder_cases)
      then show ?thesis
      proof cases
        case 1
        then show ?thesis
          using assms(2) ok Some old(2) greater
          by (fastforce simp: a' readable collected_def count_answer_def with_count_def extra_of_def)
      next
        case 2
        then show ?thesis
          using assms(2) ok Some old
          by (auto simp: a' readable collected_def count_answer_def with_count_def extra_of_def set_insort_fold)
      next
        case 3
        then show ?thesis
          using assms(2) ok Some old
          by (auto simp: a' readable collected_def count_answer_def with_count_def extra_of_def)
      qed
    qed
  qed
qed

lemma collected_answers:
  assumes "collected oks acc" and "count_answers J as acc = Inr acc'"
  shows "collected (oks @ readable J as) acc'"
  using assms
proof (induction as arbitrary: oks acc)
  case (Cons a as)
  then obtain acc1 where "count_answer J a acc = Inr acc1" "count_answers J as acc1 = Inr acc'"
    by (auto simp: result_simps)
  then show ?case
    using Cons.IH [OF collected_answer [OF Cons.prems(1)]] by (simp add: readable_simps(2) [of J a as])
qed (simp add: readable_simps)

text \<open>
  C21: The last block is what the servers say. The result of \<open>getLastBlock\<close> is an error exactly when no
  answer could be read. Otherwise it holds the greatest count of blocks among the answers that could be
  read, the servers that gave it, in the order of their answers, and the union of the extra blocks
  they know, however the answers are ordered.
\<close>

theorem last_block_of_answers:
  assumes "pp_broadcast N [] makeGetCountBlocksMessage [] net = (net', answers)"
    and "getLastBlock_net J N net = (net', Inr r)"
  shows "if readable J answers = [] then lb_error r \<noteq> None
    else lb_error r = None \<and> lb_lastBlock r = Max ((\<lambda>(server, n, extra). n) ` set (readable J answers)) \<and>
      lb_servers r = map fst (with_count (lb_lastBlock r) (readable J answers)) \<and>
      set (lb_extraBlocks r) = extra_of (with_count (lb_lastBlock r) (readable J answers))"
proof -
  let ?start = "\<lparr>la_lastBlock = None, la_error = [], la_servers = [], la_extraBlocks = []\<rparr>"
  obtain acc where acc: "count_answers J answers ?start = Inr acc"
    using assms by (auto simp: getLastBlock_net_def result_simps)
  have "collected [] ?start"
    by (simp add: collected_def)
  from collected_answers [OF this acc] have col: "collected (readable J answers) acc"
    by simp
  show ?thesis
  proof (cases "la_lastBlock acc")
    case None
    then show ?thesis
      using assms acc col by (auto simp: getLastBlock_net_def collected_def)
  next
    case (Some n)
    have all: "with_count n (readable J answers) \<noteq> []" "\<forall>(server, m, extra) \<in> set (readable J answers). m \<le> n"
      using col Some by (simp_all add: collected_def)
    then have "n \<in> (\<lambda>(server, n, extra). n) ` set (readable J answers)"
      by (force simp: with_count_def filter_empty_conv)
    then have "Max ((\<lambda>(server, n, extra). n) ` set (readable J answers)) = n"
      using all(2) by (intro Max_eqI) auto
    moreover have "readable J answers \<noteq> []"
      using all(1) by (auto simp: with_count_def)
    ultimately show ?thesis
      using assms acc col Some by (auto simp: getLastBlock_net_def collected_def)
  qed
qed

text \<open>Three servers, of which one does not answer; the length of an answer is its count of blocks.\<close>

definition counting_lib :: json_lib where
  "counting_lib = sample_json_lib\<lparr>jl_parse := (\<lambda>s.
     Some (JObject [(lit ''result'', JObject [(lit ''count_blocks'', JInt (int (length s)))])]))\<rparr>"

definition counting_p2p :: "unit p2p" where
  "counting_p2p = \<lparr>
     pp_broadcast = (\<lambda>_ _ _ net. (net, [(lit ''a'', [1], None), (lit ''b'', [], Some ''timeout''), (lit ''c'', [1, 1], None),
       (lit ''d'', [2, 2], None)])),
     pp_request = (\<lambda>_ _ _ _ _ _ net. (net, Inl (Check []))), pp_requests = (\<lambda>_ _ _ _ _ net. (net, Inl (Check []))),
     pp_runOneRequest = (\<lambda>_ _ _ _ net. (net, Inl (Check [])))\<rparr>"

theorem last_block_of_answers_witness:
  "\<exists>r. getLastBlock_net counting_lib counting_p2p () = ((), Inr r) \<and> lb_error r = None \<and> lb_lastBlock r = 2 \<and>
     lb_servers r = [lit ''c'', lit ''d'']"
proof -
  let ?answers = "[(lit ''a'', [1], None), (lit ''b'', [], Some ''timeout''), (lit ''c'', [1, 1], None), (lit ''d'', [2, 2], None)]"
  have parse: "parseCountBlocksMessage counting_lib [1] = Inr (1, [])" "parseCountBlocksMessage counting_lib [1, 1] = Inr (2, [])"
      "parseCountBlocksMessage counting_lib [2, 2] = Inr (2, [])"
    by code_simp+
  then have readable: "readable counting_lib ?answers = [(lit ''a'', 1, []), (lit ''c'', 2, []), (lit ''d'', 2, [])]"
    by (simp add: readable_def map_filter_simps del: lit_Cons)
  have broadcast: "pp_broadcast counting_p2p [] makeGetCountBlocksMessage [] () = ((), ?answers)"
    by (simp add: counting_p2p_def)
  obtain r where r: "getLastBlock_net counting_lib counting_p2p () = ((), Inr r)"
    by (simp add: getLastBlock_net_def broadcast count_answer_def parse Let_def del: lit_Cons)
  have "Max ((\<lambda>(server, n, extra). n) ` set (readable counting_lib ?answers)) = 2"
    by (simp add: readable del: lit_Cons)
  then show ?thesis
    using last_block_of_answers [OF broadcast r] r unfolding readable by (auto simp: with_count_def)
qed

end
