(* ===== verification/WorkerQueries.thy ===== *)
theory WorkerQueries
  imports WorkerMain BlockchainRead BlockChain DatabaseScans RejectedTxs
begin

section \<open>The main worker: queries (Workers/WorkerMain, Workers/WorkerCache)\<close>

text \<open>
  What the node answers from the database, the caches and the block files: histories of addresses,
  transactions, balances, whole blocks, sums of forging. The worker of the caches fills them from the
  blocks it is given and forgets those of an older block. A query reads the members of \<open>main_queries\<close>;
  none of them changes one.

  The order that \<open>std::sort\<close> gives to transactions of the same block, \<open>std::hash\<close> and random numbers are
  parameters. A \<open>std::get\<close> of the wrong alternative and a \<open>value()\<close> of an empty optional throw a standard
  exception, \<open>OutOfRange\<close> here.
\<close>

subsection \<open>The caches\<close>

text \<open>The third cache, \<open>txsStatusCache\<close>, is \<open>wm_statusCache\<close> of the main worker, which fills it.\<close>

record AllCaches =
  ac_maxCountElementsBlockCache :: u64
  ac_maxCountElementsTxsCache :: u64
  ac_macLocalCacheElements :: u64
  ac_blockDumpCache :: "bytes Cache"
  ac_txsCache :: "TransactionInfo Cache"

definition cache_dump_of_block :: "BlockInfo \<Rightarrow> bytes \<Rightarrow> u64 \<Rightarrow> AllCaches \<Rightarrow> AllCaches" where
  "cache_dump_of_block bi blockDump blockNumber c =
     (if ac_maxCountElementsBlockCache c = 0 then c
      else c\<lparr>ac_blockDumpCache :=
        Cache_remove (to_string (blockNumber - ac_maxCountElementsBlockCache c))
          (addValue (bh_hash (bi_header bi)) (to_string blockNumber) blockDump (ac_blockDumpCache c))\<rparr>)"

definition cache_txs_of_block :: "BlockInfo \<Rightarrow> u64 \<Rightarrow> AllCaches \<Rightarrow> AllCaches" where
  "cache_txs_of_block bi blockNumber c =
     (if ac_maxCountElementsTxsCache c = 0 then c
      else c\<lparr>ac_txsCache :=
        Cache_remove (to_string (blockNumber - ac_maxCountElementsTxsCache c))
          (fold (\<lambda>tx. if isIntStatusNodeTest tx then (\<lambda>ch. ch) else addValue (tx_hash tx) (to_string blockNumber) tx) (bi_txs bi)
            (ac_txsCache c))\<rparr>)"

text \<open>One turn of the loop of \<open>WorkerCache\<close>.\<close>

definition cache_turn :: "BlockInfo \<Rightarrow> bytes \<Rightarrow> AllCaches \<Rightarrow> AllCaches \<times> unit result" where
  "cache_turn bi blockDump c =
     (case bh_blockNumber (bi_header bi) of
        None \<Rightarrow> (c, Inl OutOfRange)
      | Some blockNumber \<Rightarrow> (cache_txs_of_block bi blockNumber (cache_dump_of_block bi blockDump blockNumber c), Inr ()))"

subsection \<open>What a query reads\<close>

record ('d, 'j) main_queries =
  mq_leveldb :: "'d leveldb"
  mq_database :: 'd
  mq_disk :: disk
  mq_lib :: "'j lib"
  mq_base1 :: u64
  mq_base2 :: u64
  mq_env :: main_env
  mq_caches :: AllCaches
  mq_worker :: WorkerMain
  mq_blockchain :: BlockChain
  mq_sort :: "TransactionInfo list \<Rightarrow> TransactionInfo list"
  mq_hash :: "bytes \<Rightarrow> u64"

definition check_module :: "(Modules \<Rightarrow> bool) \<Rightarrow> string \<Rightarrow> ('d, 'j) main_queries \<Rightarrow> unit result" where
  "check_module m msg q = CHECK (m (env_modules (mq_env q))) msg"

subsection \<open>Histories\<close>

text \<open>\<open>readTxs\<close>: \<open>currFile\<close> is the name and the content of the file that is open.\<close>

definition read_tx_at :: "('d, 'j) main_queries \<Rightarrow> bytes option \<Rightarrow> AddressInfo \<Rightarrow> TransactionInfo result" where
  "read_tx_at q file a =
     bindE (case file of None \<Rightarrow> Inl (Check ''File not opened'') | Some content \<Rightarrow> Inr content) (\<lambda>content.
     bindE (readOneSimpleTransactionInfo (mq_lib q) (mq_base1 q) (mq_base2 q) content (fp_pos (ai_filePos a)) TransactionInfo_default False)
       (\<lambda>(res, tx).
     bindE (CHECK res ''Incorrect read transaction info'') (\<lambda>_.
     let tx = tx\<lparr>tx_blockNumber := ai_blockNumber a, tx_blockIndex := ai_blockIndex a\<rparr>
     in case ai_undelegateValue a of
          None \<Rightarrow> Inr tx
        | Some value \<Rightarrow>
            (case tx_delegate tx of
               Some d \<Rightarrow>
                 bindE (CHECK (\<not> di_isDelegate d) ''Incorrect delegate transaction'') (\<lambda>_.
                 Inr (tx\<lparr>tx_delegate := Some (d\<lparr>di_value := value\<rparr>)\<rparr>))
             | None \<Rightarrow> Inl (Check ''Incorrect delegate transaction'')))))"

fun readTxs_loop ::
  "('d, 'j) main_queries \<Rightarrow> bytes \<times> bytes option \<Rightarrow> AddressInfo list \<Rightarrow> TransactionInfo list result" where
  "readTxs_loop q currFile [] = Inr []"
| "readTxs_loop q currFile (a # as) =
     bindE (if fp_fileNameRelative (ai_filePos a) \<noteq> fst currFile
            then bindE (openFile (mq_disk q) (fp_fileNameRelative (ai_filePos a))) (\<lambda>content.
              Inr (fp_fileNameRelative (ai_filePos a), Some content))
            else Inr currFile) (\<lambda>currFile.
     bindE (read_tx_at q (snd currFile) a) (\<lambda>tx.
     bindE (readTxs_loop q currFile as) (\<lambda>txs. Inr (tx # txs))))"

definition readTxs :: "('d, 'j) main_queries \<Rightarrow> AddressInfo list \<Rightarrow> TransactionInfo list result" where
  "readTxs q foundResults = readTxs_loop q ([], None) foundResults"

definition getTxsForAddressWithoutStatuses ::
  "('d, 'j) main_queries \<Rightarrow> Address \<Rightarrow> u64 \<Rightarrow> u64 \<Rightarrow> u64 \<Rightarrow> TransactionInfo list result" where
  "getTxsForAddressWithoutStatuses q address from count limitTxs =
     (let countLimited = min (if count = 0 then limitTxs + 10 else count) (limitTxs + 10)
      in bindE (toBdString address) (\<lambda>bd.
         bindE (findAddress (mq_leveldb q) bd from countLimited (mq_database q)) (\<lambda>foundResults.
         bindE (CHECK (of_nat (length foundResults) < limitTxs) ''Too many transactions in history. Please, request a history with chunks'') (\<lambda>_.
         bindE (readTxs q foundResults) (\<lambda>txs.
         Inr (mq_sort q txs))))))"

datatype FilterType = FilterNone | FilterTrue | FilterFalse

record TransactionsFilters =
  tf_isTest :: FilterType
  tf_isForging :: FilterType
  tf_isInput :: FilterType
  tf_isOutput :: FilterType
  tf_isDelegate :: FilterType
  tf_isSuccess :: FilterType
  tf_isTokens :: FilterType

text \<open>Whether a transaction is removed.\<close>

definition filter_removes :: "TransactionsFilters \<Rightarrow> Address \<Rightarrow> TransactionInfo \<Rightarrow> bool result" where
  "filter_removes f address tx =
     bindE (if tf_isInput f = FilterTrue then bindE (Address_eq (tx_toAddress tx) address) (\<lambda>same. Inr (\<not> same)) else Inr False) (\<lambda>notInput.
     if notInput then Inr True
     else
       bindE (if tf_isOutput f = FilterTrue then bindE (Address_eq (tx_fromAddress tx) address) (\<lambda>same. Inr (\<not> same)) else Inr False) (\<lambda>notOutput.
       if notOutput then Inr True
       else if tf_isSuccess f = FilterTrue \<and> isIntStatusNotSuccess tx then Inr True
       else if tf_isTokens f = FilterTrue then Inr False
       else if tf_isDelegate f = FilterNone \<and> tf_isForging f = FilterNone \<and> tf_isTest f = FilterNone then Inr False
       else if tf_isDelegate f = FilterTrue \<and> tx_delegate tx \<noteq> None then Inr False
       else if tf_isForging f = FilterTrue \<and> isIntStatusForging tx then Inr False
       else if tf_isTest f = FilterTrue \<and> isIntStatusNodeTest tx then Inr False
       else Inr True))"

fun filterTxs :: "TransactionsFilters \<Rightarrow> Address \<Rightarrow> TransactionInfo list \<Rightarrow> TransactionInfo list result" where
  "filterTxs f address [] = Inr []"
| "filterTxs f address (tx # txs) =
     bindE (filter_removes f address tx) (\<lambda>remove.
     bindE (filterTxs f address txs) (\<lambda>rest. Inr (if remove then rest else tx # rest)))"

text \<open>One turn of the loop over the pages: \<open>Inr None\<close> leaves the loop, otherwise the new \<open>result\<close> and \<open>from\<close>.\<close>

definition filtered_page ::
  "('d, 'j) main_queries \<Rightarrow> bytes \<Rightarrow> Address \<Rightarrow> u64 \<Rightarrow> TransactionsFilters \<Rightarrow> TransactionInfo list \<Rightarrow> u64 \<Rightarrow>
     (TransactionInfo list \<times> u64) option result" where
  "filtered_page q bd address limitTxs f result from =
     bindE ((if tf_isTokens f = FilterTrue then findAddressTokens else findAddress) (mq_leveldb q) bd from
              (limitTxs - of_nat (length result)) (mq_database q)) (\<lambda>foundResults.
     if foundResults = [] then Inr None
     else
       bindE (CHECK (of_nat (length foundResults) \<le> limitTxs) ''Too many transactions in history. Please, request a history with chunks'') (\<lambda>_.
       bindE (readTxs q foundResults) (\<lambda>txs.
       bindE (filterTxs f address txs) (\<lambda>txs.
       Inr (Some (result @ txs, from + of_nat (length foundResults)))))))"

partial_function (option) filtered_pages ::
  "('d, 'j) main_queries \<Rightarrow> bytes \<Rightarrow> Address \<Rightarrow> u64 \<Rightarrow> u64 \<Rightarrow> TransactionsFilters \<Rightarrow> TransactionInfo list \<Rightarrow> u64 \<Rightarrow>
     (TransactionInfo list \<times> u64) result option" where
  [code]: "filtered_pages q bd address count limitTxs f result from =
     (case filtered_page q bd address limitTxs f result from of
        Inl e \<Rightarrow> Some (Inl e)
      | Inr None \<Rightarrow> Some (Inr (result, from))
      | Inr (Some (result, from)) \<Rightarrow>
          if count \<le> of_nat (length result) then Some (Inr (result, from))
          else filtered_pages q bd address count limitTxs f result from)"

text \<open>With the filters \<open>from\<close> is a reference: its new value is returned.\<close>

definition getTxsForAddressWithoutStatuses_filtered ::
  "('d, 'j) main_queries \<Rightarrow> Address \<Rightarrow> u64 \<Rightarrow> u64 \<Rightarrow> u64 \<Rightarrow> TransactionsFilters \<Rightarrow> (TransactionInfo list \<times> u64) result option" where
  "getTxsForAddressWithoutStatuses_filtered q address from count limitTxs f =
     (case toBdString address of
        Inl e \<Rightarrow> Some (Inl e)
      | Inr bd \<Rightarrow>
          map_option (\<lambda>r. bindE r (\<lambda>(result, from). Inr (mq_sort q (take (unat count) result), from)))
            (filtered_pages q bd address count limitTxs f [] from))"

definition getStatusesForAddress :: "('d, 'j) main_queries \<Rightarrow> Address \<Rightarrow> TransactionStatus list result" where
  "getStatusesForAddress q address =
     bindE (toBdString address) (\<lambda>bd. findAddressStatus (mq_leveldb q) bd (mq_database q))"

definition getTransactionsFillCache ::
  "('d, 'j) main_queries \<Rightarrow> Address \<Rightarrow> u64 \<Rightarrow> u64 \<Rightarrow> u64 \<Rightarrow> TransactionInfo list result" where
  "getTransactionsFillCache q address from count limitTxs =
     bindE (check_module MODULE_ADDR_TXS ''module addr_txs not set'' q) (\<lambda>_.
     getTxsForAddressWithoutStatuses q address from count limitTxs)"

definition getTransactionsStatusFillCache :: "('d, 'j) main_queries \<Rightarrow> Address \<Rightarrow> TransactionStatus list result" where
  "getTransactionsStatusFillCache q address =
     bindE (check_module MODULE_ADDR_TXS ''module addr_txs not set'' q) (\<lambda>_. getStatusesForAddress q address)"

text \<open>The first status of each hash counts.\<close>

definition with_status :: "TransactionStatus list \<Rightarrow> TransactionInfo \<Rightarrow> TransactionInfo" where
  "with_status statusesVect tx =
     (if isStatusNeed tx
      then case find (\<lambda>st. ts_transaction st = tx_hash tx) statusesVect of
             None \<Rightarrow> tx | Some st \<Rightarrow> tx\<lparr>tx_status := Some st\<rparr>
      else tx)"

definition getTxsForAddress ::
  "('d, 'j) main_queries \<Rightarrow> Address \<Rightarrow> u64 \<Rightarrow> u64 \<Rightarrow> u64 \<Rightarrow> TransactionInfo list result" where
  "getTxsForAddress q address from count limitTxs =
     bindE (check_module MODULE_ADDR_TXS ''module addr_txs not set'' q) (\<lambda>_.
     bindE (getTransactionsFillCache q address from count limitTxs) (\<lambda>txs.
     bindE (getTransactionsStatusFillCache q address) (\<lambda>statusesVect.
     Inr (map (with_status statusesVect) txs))))"

definition getTxsForAddress_filtered ::
  "('d, 'j) main_queries \<Rightarrow> Address \<Rightarrow> u64 \<Rightarrow> u64 \<Rightarrow> u64 \<Rightarrow> TransactionsFilters \<Rightarrow> (TransactionInfo list \<times> u64) result option" where
  "getTxsForAddress_filtered q address from count limitTxs f =
     (case check_module MODULE_ADDR_TXS ''module addr_txs not set'' q of
        Inl e \<Rightarrow> Some (Inl e)
      | Inr _ \<Rightarrow>
          map_option (\<lambda>r.
            bindE r (\<lambda>(txs, from).
            bindE (getTransactionsStatusFillCache q address) (\<lambda>statusesVect.
            Inr (map (with_status statusesVect) txs, from))))
          (getTxsForAddressWithoutStatuses_filtered q address from count limitTxs f))"

subsection \<open>Transactions\<close>

definition readTransactionInFile :: "('d, 'j) main_queries \<Rightarrow> TransactionInfo \<Rightarrow> TransactionInfo result" where
  "readTransactionInFile q tx =
     bindE (openFile (mq_disk q) (fp_fileNameRelative (tx_filePos tx))) (\<lambda>file.
     bindE (readOneSimpleTransactionInfo (mq_lib q) (mq_base1 q) (mq_base2 q) file (fp_pos (tx_filePos tx)) tx False) (\<lambda>(res, tx').
     bindE (CHECK res ''Incorrect read transaction info'') (\<lambda>_.
     bindE (CHECK (tx_hash tx = tx_hash tx') ''Incorrect transaction'') (\<lambda>_. Inr tx'))))"

definition findTransaction :: "('d, 'j) main_queries \<Rightarrow> bytes \<Rightarrow> TransactionInfo option result" where
  "findTransaction q txHash =
     bindE (check_module MODULE_TXS ''module addr_txs not set'' q) (\<lambda>_.
     case getValue txHash (ac_txsCache (mq_caches q)) of
       Some tx \<Rightarrow> Inr (Some tx)
     | None \<Rightarrow>
         bindE (findTx (mq_leveldb q) txHash (mq_database q)) (\<lambda>found.
         case found of
           None \<Rightarrow> Inr None
         | Some txInfo \<Rightarrow> bindE (readTransactionInFile q (txInfo\<lparr>tx_hash := txHash\<rparr>)) (\<lambda>tx. Inr (Some tx))))"

definition fillStatusTransaction :: "('d, 'j) main_queries \<Rightarrow> TransactionInfo \<Rightarrow> TransactionInfo result" where
  "fillStatusTransaction q info =
     (if \<not> isStatusNeed info then Inr info
      else case getValue (tx_hash info) (wm_statusCache (mq_worker q)) of
        Some status \<Rightarrow> Inr (info\<lparr>tx_status := Some status\<rparr>)
      | None \<Rightarrow>
          bindE (findTxStatus (mq_leveldb q) (tx_hash info) (mq_database q)) (\<lambda>found.
          Inr (case found of None \<Rightarrow> info | Some status \<Rightarrow> info\<lparr>tx_status := Some status\<rparr>)))"

definition getTransaction :: "('d, 'j) main_queries \<Rightarrow> bytes \<Rightarrow> TransactionInfo option result" where
  "getTransaction q txHash =
     bindE (check_module MODULE_TXS ''module addr_txs not set'' q) (\<lambda>_.
     bindE (findTransaction q txHash) (\<lambda>result.
     case result of
       None \<Rightarrow> Inr None
     | Some tx \<Rightarrow> bindE (fillStatusTransaction q tx) (\<lambda>tx. Inr (Some tx))))"

subsection \<open>Balances, blocks, sums\<close>

definition readBalance :: "('d, 'j) main_queries \<Rightarrow> Address \<Rightarrow> BalanceInfo result" where
  "readBalance q address =
     bindE (toBdString address) (\<lambda>addressStr. findBalance (mq_leveldb q) addressStr (mq_database q))"

definition getBalance :: "('d, 'j) main_queries \<Rightarrow> Address \<Rightarrow> BalanceInfo result" where
  "getBalance q address =
     bindE (check_module MODULE_BALANCE ''Module balances not setted'' q) (\<lambda>_.
     bindE (readBalance q address) (\<lambda>balance.
     bindE (ZERO_ADDRESS (mq_env q)) (\<lambda>zero.
     bindE (Address_eq address zero) (\<lambda>isZero.
     let balance = (if isZero then balance\<lparr>b_balance := fill 0 0\<rparr> else balance)
     in Inr (balance\<lparr>b_hash := Some (mq_hash q (BalanceInfo_serialize balance []))\<rparr>)))))"

definition get_BlockInfo :: "NextBlock \<Rightarrow> BlockInfo result" where
  "get_BlockInfo b = (case b of SimpleBlock bi \<Rightarrow> Inr bi | _ \<Rightarrow> Inl OutOfRange)"

definition block_from_file :: "('d, 'j) main_queries \<Rightarrow> BlockHeader \<Rightarrow> u64 \<Rightarrow> u64 \<Rightarrow> BlockInfo result" where
  "block_from_file q bh beginTx countTx =
     (let pos = fp_pos (bh_filePos bh)
      in bindE (CHECK (fp_fileNameRelative (bh_filePos bh) \<noteq> []) ''Empty file name in block header'') (\<lambda>_.
         bindE (openFile (mq_disk q) (fp_fileNameRelative (bh_filePos bh))) (\<lambda>file.
         bindE (readNextBlockDump file pos []) (\<lambda>(nextPos, tmp).
         bindE (parseNextBlockInfo (mq_lib q) pos False False beginTx countTx \<lparr>mem_base = mq_base1 q, mem_data = tmp\<rparr>) (\<lambda>b.
         bindE (get_BlockInfo b) (\<lambda>bi.
         bindE (CHECK (nextPos \<noteq> pos) ''Ups'') (\<lambda>_. Inr bi)))))))"

fun fill_statuses :: "('d, 'j) main_queries \<Rightarrow> u64 \<Rightarrow> TransactionInfo list \<Rightarrow> TransactionInfo list result" where
  "fill_statuses q blockNumber [] = Inr []"
| "fill_statuses q blockNumber (tx # txs) =
     bindE (fillStatusTransaction q (tx\<lparr>tx_blockNumber := blockNumber\<rparr>)) (\<lambda>tx.
     bindE (fill_statuses q blockNumber txs) (\<lambda>txs. Inr (tx # txs)))"

definition getFullBlock :: "('d, 'j) main_queries \<Rightarrow> BlockHeader \<Rightarrow> u64 \<Rightarrow> u64 \<Rightarrow> BlockInfo result" where
  "getFullBlock q bh beginTx countTx =
     bindE (check_module MODULE_BLOCK_RAW ''module block_raw not set'' q) (\<lambda>_.
     if bh_blockNumber bh = Some 0 then Inr \<lparr>bi_header = BlockHeader_default, bi_txs = []\<rparr>
     else
       bindE (case getValue (bh_hash bh) (ac_blockDumpCache (mq_caches q)) of
                None \<Rightarrow> block_from_file q bh beginTx countTx
              | Some element \<Rightarrow>
                  bindE (parseNextBlockInfo (mq_lib q) (fp_pos (bh_filePos bh)) True False beginTx countTx
                           \<lparr>mem_base = mq_base1 q, mem_data = element\<rparr>) get_BlockInfo) (\<lambda>bi.
       bindE (if bi_txs bi = [] then Inr []
              else case bh_blockNumber bh of None \<Rightarrow> Inl OutOfRange | Some n \<Rightarrow> fill_statuses q n (bi_txs bi)) (\<lambda>txs.
       Inr (bi\<lparr>bi_header := bh, bi_txs := txs\<rparr>))))"

definition commonBalance :: "('d, 'j) main_queries \<Rightarrow> CommonBalance result" where
  "commonBalance q = findCommonBalance (mq_leveldb q) (mq_database q)"

text \<open>The loop from the last block back; \<open>num\<close> counts the forging blocks that are skipped.\<close>

fun find_forging :: "BlockChain \<Rightarrow> u64 \<Rightarrow> u64 \<Rightarrow> nat \<Rightarrow> BlockHeader option result" where
  "find_forging bc blockIndent num 0 = Inr None"
| "find_forging bc blockIndent num (Suc n) =
     bindE (getBlock_number (of_nat (Suc n)) bc) (\<lambda>bh.
     if \<not> isForgingBlock bh then find_forging bc blockIndent num n
     else if num = blockIndent then Inr (Some bh)
     else find_forging bc blockIndent (num + 1) n)"

definition getForgingSumForLastBlock :: "('d, 'j) main_queries \<Rightarrow> u64 \<Rightarrow> ForgingSums result" where
  "getForgingSumForLastBlock q blockIndent =
     bindE (find_forging (mq_blockchain q) blockIndent 0 (unat (countBlocks (mq_blockchain q)))) (\<lambda>bh.
     case bh of
       None \<Rightarrow> Inr ForgingSums_default
     | Some bh \<Rightarrow> bindE (getFullBlock q bh 0 0) makeForgingSums)"

definition getForgingSumAll :: "('d, 'j) main_queries \<Rightarrow> ForgingSums result" where
  "getForgingSumAll q = findForgingSumsAll (mq_leveldb q) (mq_database q)"

definition getTokenInfo :: "('d, 'j) main_queries \<Rightarrow> Address \<Rightarrow> Token result" where
  "getTokenInfo q address = bindE (toBdString address) (\<lambda>bd. findToken (mq_leveldb q) bd (mq_database q))"

definition getLastTxs :: "('d, 'j) main_queries \<Rightarrow> TransactionInfo list" where
  "getLastTxs q = wm_lastTxs (mq_worker q)"

text \<open>\<open>draw i n\<close> is the random number between \<open>i\<close> and \<open>n\<close>, \<open>n\<close> excluded.\<close>

definition swap_elements :: "nat \<Rightarrow> nat \<Rightarrow> 'a list \<Rightarrow> 'a list" where
  "swap_elements i j xs = xs[i := xs ! j, j := xs ! i]"

definition partial_shuffle :: "(nat \<Rightarrow> nat \<Rightarrow> nat) \<Rightarrow> nat \<Rightarrow> 'a list \<Rightarrow> 'a list" where
  "partial_shuffle draw to xs = fold (\<lambda>i xs. swap_elements i (draw i (length xs)) xs) [0..<to] xs"

definition getRandomAddresses ::
  "('d, 'j) main_queries \<Rightarrow> (nat \<Rightarrow> nat \<Rightarrow> nat) \<Rightarrow> u64 \<Rightarrow> Address list result" where
  "getRandomAddresses q draw countAddresses =
     bindE (getLastStateBlock (mq_blockchain q)) (\<lambda>bh.
     bindE (getFullBlock q bh 0 max_u64) (\<lambda>bi.
     let txs = drop (unat (bh_countSignTx (bi_header bi))) (bi_txs bi)
     in if length (bi_txs bi) < unat (bh_countSignTx (bi_header bi)) then Inl Undefined
        else
          let count = min (unat countAddresses) (length txs)
          in Inr (map tx_toAddress (take count (partial_shuffle draw count txs)))))"

end
