(* ===== verification/QueryProps.thy ===== *)
theory QueryProps
  imports WorkerQueries
begin

section \<open>What the queries answer\<close>

text \<open>
  A transaction is only ever found under its own hash, in the cache or in a file. The loop over the
  pages of a filtered history comes to an end; but what it has read beyond the requested number
  of matches is skipped by the position it returns.
\<close>

subsection \<open>The cache of transactions\<close>

inductive caches_reachable :: "AllCaches \<Rightarrow> bool" where
  created: "caches_reachable \<lparr>ac_maxCountElementsBlockCache = m, ac_maxCountElementsTxsCache = n, ac_macLocalCacheElements = k,
     ac_blockDumpCache = Cache_empty, ac_txsCache = Cache_empty\<rparr>"
| turn: "caches_reachable c \<Longrightarrow> cache_turn bi dump c = (c', r) \<Longrightarrow> caches_reachable c'"

definition cached_by_hash :: "TransactionInfo Cache \<Rightarrow> bool" where
  "cached_by_hash c \<longleftrightarrow> (\<forall>h tx. getValue h c = Some tx \<longrightarrow> tx_hash tx = h)"

lemma cached_by_hash_add: "cached_by_hash c \<Longrightarrow> cached_by_hash (addValue (tx_hash tx) a tx c)"
  by (auto simp: cached_by_hash_def getValue_addValue split: if_splits)

lemma cached_by_hash_remove: "cached_by_hash c \<Longrightarrow> cached_by_hash (Cache_remove a c)"
  by (auto simp: cached_by_hash_def getValue_remove split: if_splits)

lemma cached_by_hash_fold:
  "cached_by_hash c \<Longrightarrow>
    cached_by_hash (fold (\<lambda>tx. if isIntStatusNodeTest tx then (\<lambda>ch. ch) else addValue (tx_hash tx) a tx) txs c)"
  by (induction txs arbitrary: c) (auto intro: cached_by_hash_add)

lemma reachable_cached_by_hash: "caches_reachable c \<Longrightarrow> cached_by_hash (ac_txsCache c)"
proof (induction rule: caches_reachable.induct)
  case created
  show ?case
    by (simp add: cached_by_hash_def getValue_def Cache_empty_def)
next
  case (turn c bi dump c' r)
  then show ?case
    by (auto simp: cache_turn_def cache_txs_of_block_def cache_dump_of_block_def split: option.splits
        intro!: cached_by_hash_remove cached_by_hash_fold)
qed

subsection \<open>Sample queries\<close>

text \<open>A file with two transactions, the log of an address with both of them, and a cache that has seen a block.\<close>

definition sample_tx_dump :: bytes where
  "sample_tx_dump = [31] @ replicate 25 1 @ [5, 1, 1, 0, 0, 0]"

definition sample_tx :: TransactionInfo where
  "sample_tx = TransactionInfo_default\<lparr>tx_hash := replicate 32 32, tx_fromAddress := setEmpty Address_default,
     tx_toAddress := Address_of_range (replicate 25 1), tx_value := 5, tx_fees := 1, tx_nonce := 1, tx_sizeRawTx := 31\<rparr>"

lemma sample_read:
  assumes "pos = 0 \<or> pos = 32"
  shows "readOneSimpleTransactionInfo sample_lib 4096 4096 (sample_tx_dump @ sample_tx_dump) pos TransactionInfo_default False =
    Inr (True, sample_tx)"
proof -
  note low = readOneSimpleTransactionInfo_def readSimpleTransactionInfo_def readRawTx_def readRawHead_def readRawTail_def
    readStatus_def posR_def sample_tx_dump_def size_of_def seek_def getSizeSimpleTransaction_def fread_def mem_end_def
    readVarInt_def bindR_def load_def Let_def off_def CHECK_def buffer_size_def returnR_def readInt_def readBytes_def takeBytes_def
  note high = finish_tx_def parse_docData_def tx_sender_def sample_lib_def sample_crypto_def get_double_sha256_def
    parse_delegate_def isSignBlockTx_def isScriptAddress_def isTokenAddress_def Address_eq_def Address_of_range_def setEmpty_def
    Address_default_def first_byte_def PrevTransactionSignHelper_default_def TransactionInfo_default_def sample_tx_def
  have to: "replicate 25 (1 :: byte) = 1 # replicate 24 1"
    by (simp add: numeral_eq_Suc)
  from assms show ?thesis
  proof
    assume "pos = 0"
    then show ?thesis
      by (simp add: low high) (simp add: to)
  next
    assume "pos = 32"
    then show ?thesis
      by (simp add: low high) (simp add: to)
  qed
qed

definition sample_caches :: AllCaches where
  "sample_caches = fst (cache_turn \<lparr>bi_header = BlockHeader_default\<lparr>bh_blockNumber := Some 3\<rparr>, bi_txs = [sample_tx]\<rparr> []
     \<lparr>ac_maxCountElementsBlockCache = 0, ac_maxCountElementsTxsCache = 2, ac_macLocalCacheElements = 0, ac_blockDumpCache = Cache_empty, ac_txsCache = Cache_empty\<rparr>)"

lemma sample_cached: "getValue (replicate 32 32) (ac_txsCache sample_caches) = Some sample_tx"
proof -
  have "dec_digits 1 \<noteq> dec_digits 3"
    by (subst (1 2) dec_digits.simps) simp
  then have "to_string 1 \<noteq> to_string 3"
    by (simp add: to_string_def)
  moreover have empty: "getValue k Cache_empty = None" "ca_attributes Cache_empty = []" for k :: bytes
    by (simp_all add: getValue_def Cache_empty_def)
  ultimately show ?thesis
    by (simp add: sample_caches_def cache_turn_def cache_txs_of_block_def cache_dump_of_block_def isIntStatusNodeTest_def
        sample_tx_def TransactionInfo_default_def getValue_addValue getValue_remove attributes_addValue get_or_def empty)
qed

lemma sample_tx_need: "\<not> isStatusNeed sample_tx"
  by (simp add: isStatusNeed_def sample_tx_def TransactionInfo_default_def)

definition sample_log :: "(u64 \<times> AddressInfo) list" where
  "sample_log = [(5, AddressInfo_make 0 [1] 7 0), (8, AddressInfo_make 32 [1] 7 1)]"

definition sample_queries :: "(sample_store, unit) main_queries" where
  "sample_queries = \<lparr>mq_leveldb = sample_leveldb,
     mq_database = map (\<lambda>(n, x). (address_key [9] @ serializeInt n, entry_bytes x)) sample_log,
     mq_disk = [([1], sample_tx_dump @ sample_tx_dump)], mq_lib = sample_lib, mq_base1 = 4096, mq_base2 = 4096,
     mq_env = \<lparr>env_modules = Modules_none\<lparr>MODULE_TXS := True\<rparr>, env_validateState = False, env_maxCountElementsTxsCache = 2, env_parallelFor = (\<lambda>bs. bs),
       env_fromHex = Inr, env_toHex = (\<lambda>s. s), env_delegate_to = (\<lambda>_. None)\<rparr>,
     mq_caches = sample_caches,
     mq_worker = \<lparr>wm_lastSavedBlock = 0, wm_lastTxs = [], wm_countVal = 0, wm_statusCache = Cache_empty\<rparr>,
     mq_blockchain = BlockChain_empty, mq_sort = (\<lambda>txs. txs), mq_hash = (\<lambda>_. 0)\<rparr>"

lemma sample_holds_log: "holds_log (map_of (mq_database sample_queries)) [9] sample_log"
proof -
  let ?e = "\<lambda>n m. entry_bytes (AddressInfo_make n [1] 7 m)"
  have nil: "holds_entries Map.empty (address_key [9]) []"
    by (simp add: holds_entries_def)
  have one: "holds_entries (Map.empty(address_key [9] @ serializeInt (8 :: u64) \<mapsto> ?e 32 1)) (address_key [9]) [(8, ?e 32 1)]"
    by (rule holds_entries_put [OF nil]) simp
  have "holds_entries (Map.empty(address_key [9] @ serializeInt (8 :: u64) \<mapsto> ?e 32 1, address_key [9] @ serializeInt (5 :: u64) \<mapsto> ?e 0 0))
      (address_key [9]) [(5, ?e 0 0), (8, ?e 32 1)]"
    by (rule holds_entries_put [OF one]) simp
  then show ?thesis
    by (simp add: holds_log_def sample_queries_def sample_log_def AddressInfo_make_def AddressInfo_serialize_def FilePosition_serialize_buf_def)
qed

text \<open>C16: A transaction is found under its own hash. Whatever blocks have gone through the cache and
  whatever the database says about the place of a transaction, \<open>getTransaction\<close> never returns one
  with another hash: the cache is filled under the hashes of the transactions, and what is read from
  a file is compared with the requested hash.
\<close>

theorem getTransaction_has_hash:
  assumes "caches_reachable (mq_caches q)" and "getTransaction q txHash = Inr (Some tx)"
  shows "tx_hash tx = txHash"
proof -
  obtain tx' where found: "findTransaction q txHash = Inr (Some tx')" and filled: "fillStatusTransaction q tx' = Inr tx"
    using assms(2) by (auto simp: getTransaction_def result_simps split: option.splits)
  have "tx_hash tx' = txHash"
    using found reachable_cached_by_hash [OF assms(1)]
    by (auto simp: findTransaction_def readTransactionInFile_def cached_by_hash_def result_simps split: option.splits)
  moreover have "tx_hash tx = tx_hash tx'"
    using filled by (auto simp: fillStatusTransaction_def result_simps split: if_splits option.splits)
  ultimately show ?thesis
    by simp
qed

theorem getTransaction_has_hash_witness:
  "\<exists>tx. getTransaction sample_queries (replicate 32 32) = Inr (Some tx) \<and> tx_hash tx = replicate 32 32"
proof -
  have "cache_turn \<lparr>bi_header = BlockHeader_default\<lparr>bh_blockNumber := Some 3\<rparr>, bi_txs = [sample_tx]\<rparr> []
      \<lparr>ac_maxCountElementsBlockCache = 0, ac_maxCountElementsTxsCache = 2, ac_macLocalCacheElements = 0, ac_blockDumpCache = Cache_empty, ac_txsCache = Cache_empty\<rparr> =
      (sample_caches, Inr ())"
    by (simp add: sample_caches_def cache_turn_def)
  from caches_reachable.turn [OF caches_reachable.created this] have reachable: "caches_reachable (mq_caches sample_queries)"
    by (simp add: sample_queries_def)
  have "getTransaction sample_queries (replicate 32 32) = Inr (Some sample_tx)"
    using sample_cached
    by (simp add: getTransaction_def findTransaction_def check_module_def fillStatusTransaction_def sample_queries_def sample_tx_need)
  with getTransaction_has_hash [OF reachable this] show ?thesis
    by blast
qed

subsection \<open>Filtered histories\<close>

lemma readTxs_loop_length: "readTxs_loop q f as = Inr txs \<Longrightarrow> length txs = length as"
  by (induction as arbitrary: f txs) (auto simp: result_simps)

lemma filterTxs_length: "filterTxs f address txs = Inr kept \<Longrightarrow> length kept \<le> length txs"
  by (induction txs arbitrary: kept) (fastforce simp: result_simps split: if_splits)+

text \<open>One page of the log of an address.\<close>

lemma filtered_page_log:
  assumes "leveldb_ok (mq_leveldb q) contents" and "holds_log (contents (mq_database q)) bd xs" and "length xs < 2 ^ 64" and "bd \<noteq> []"
    and "tf_isTokens f \<noteq> FilterTrue" and "length result < unat limitTxs" and "unat from + unat limitTxs < 2 ^ 64"
  shows "filtered_page q bd address limitTxs f result from =
    (let page = take (unat limitTxs - length result) (drop (unat from) xs)
     in if page = [] then Inr None
        else bindE (readTxs q (map snd page)) (\<lambda>txs.
             bindE (filterTxs f address txs) (\<lambda>kept. Inr (Some (result @ kept, from + of_nat (length page))))))"
proof -
  have "(of_nat (length result) :: u64) \<le> limitTxs" "unat (of_nat (length result) :: u64) = length result"
    using assms(6) unat_u64_less [of limitTxs] by (simp_all add: word_le_nat_alt unat_of_nat_u64)
  then have rest: "unat (limitTxs - of_nat (length result)) = unat limitTxs - length result"
    by (simp add: unat_sub)
  then have nz: "limitTxs - of_nat (length result) \<noteq> 0"
    using assms(6) by (metis diff_is_0_eq leD unat_0)
  have "unat from + unat (limitTxs - of_nat (length result)) < 2 ^ 64"
    using assms(7) by (simp add: rest)
  note found = findAddress_log [OF assms(1,2,3) this assms(4)]
  define page where "page = take (unat limitTxs - length result) (drop (unat from) xs)"
  have found: "(if tf_isTokens f = FilterTrue then findAddressTokens else findAddress) (mq_leveldb q) bd from
      (limitTxs - of_nat (length result)) (mq_database q) = Inr (map snd page)"
    using assms(5) nz by (simp only: found rest page_def if_False)
  have "length page \<le> unat limitTxs"
    by (simp add: page_def)
  then have le: "of_nat (length page) \<le> limitTxs"
    using unat_u64_less [of limitTxs] by (simp add: word_le_nat_alt unat_of_nat_u64)
  show ?thesis
    unfolding page_def [symmetric] Let_def filtered_page_def found by (simp add: le)
qed

lemma length_readTxs: "readTxs q as = Inr txs \<Longrightarrow> length txs = length as"
  by (simp add: readTxs_def readTxs_loop_length)

lemma filtered_pages_return:
  assumes ok: "leveldb_ok (mq_leveldb q) contents" and log: "holds_log (contents (mq_database q)) bd xs" and bd: "bd \<noteq> []"
    and tokens: "tf_isTokens f \<noteq> FilterTrue" and count: "count \<le> limitTxs"
    and small: "length xs + unat limitTxs < 2 ^ 64"
    and "length result < unat limitTxs" and "unat from + unat limitTxs < 2 ^ 64"
  shows "\<exists>r. filtered_pages q bd address count limitTxs f result from = Some r"
  using assms(7,8)
proof (induction "length xs - unat from" arbitrary: result "from" rule: less_induct)
  case less
  let ?page = "take (unat limitTxs - length result) (drop (unat from) xs)"
  have "length xs < 2 ^ 64"
    using small by simp
  note page = filtered_page_log [OF ok log this bd tokens less.prems, of address]
  show ?case
  proof (cases "filtered_page q bd address limitTxs f result from")
    case (Inl e)
    then show ?thesis
      by (subst filtered_pages.simps) simp
  next
    case (Inr next')
    show ?thesis
    proof (cases next')
      case None
      then show ?thesis
        using Inr by (subst filtered_pages.simps) simp
    next
      case (Some p)
      obtain txs kept where kept: "p = (result @ kept, from + of_nat (length ?page))" "?page \<noteq> []"
          "readTxs q (map snd ?page) = Inr txs" "filterTxs f address txs = Inr kept"
        using Inr Some unfolding page Let_def by (auto simp: result_simps split: if_splits)
      have "length kept \<le> unat limitTxs - length result"
        using filterTxs_length [OF kept(4)] length_readTxs [OF kept(3)] by simp
      have "0 < length ?page" "unat from + length ?page \<le> length xs"
        using kept(2) by (auto simp: min_def)
      moreover from this have "unat (from + of_nat (length ?page)) = unat from + length ?page"
        using small by (intro unat_add_u64) linarith
      ultimately have from': "length xs - unat (from + of_nat (length ?page)) < length xs - unat from"
          "unat (from + of_nat (length ?page)) + unat limitTxs < 2 ^ 64"
        using small by linarith+
      show ?thesis
      proof (cases "count \<le> of_nat (length (result @ kept))")
        case True
        then show ?thesis
          using Inr Some kept by (subst filtered_pages.simps) simp
      next
        case False
        then have "unat (of_nat (length (result @ kept)) :: u64) < unat count"
          by (simp add: word_le_nat_alt)
        moreover have "length (result @ kept) < 2 ^ 64"
          using \<open>length kept \<le> _\<close> less.prems(1) small unfolding length_append by linarith
        ultimately have "length (result @ kept) < unat limitTxs"
          using count unat_of_nat_u64 [of "length (result @ kept)"] unfolding word_le_nat_alt by linarith
        from less.hyps [OF from'(1) this from'(2)] show ?thesis
          using Inr Some kept False by (subst filtered_pages.simps) simp
      qed
    qed
  qed
qed


definition no_filters :: TransactionsFilters where
  "no_filters = \<lparr>tf_isTest = FilterNone, tf_isForging = FilterNone, tf_isInput = FilterNone, tf_isOutput = FilterNone,
     tf_isDelegate = FilterNone, tf_isSuccess = FilterNone, tf_isTokens = FilterNone\<rparr>"


text \<open>C38: A defect of the filtered history: matches are skipped between two requests. The first page reads up
  to \<open>limitTxs\<close> entries; when more than \<open>count\<close> of them match, only \<open>count\<close> are returned, but the position
  that is returned for the next request stands behind all entries of the page.
\<close>

theorem filtered_history_skips_matches:
  assumes "leveldb_ok (mq_leveldb q) contents" and "toBdString address = Inr bd" and "bd \<noteq> []"
    and "holds_log (contents (mq_database q)) bd xs" and "length xs < 2 ^ 64" and "unat from + unat limitTxs < 2 ^ 64"
    and "tf_isTokens f \<noteq> FilterTrue" and "page = take (unat limitTxs) (drop (unat from) xs)" and "page \<noteq> []"
    and "readTxs q (map snd page) = Inr txs" and "filterTxs f address txs = Inr kept" and "unat count < length kept"
  shows "getTxsForAddressWithoutStatuses_filtered q address from count limitTxs f =
      Some (Inr (mq_sort q (take (unat count) kept), from + of_nat (length page))) \<and>
    drop (unat count) kept \<noteq> []"
proof -
  have limit: "0 < unat limitTxs"
    using assms(8,9) by (cases "unat limitTxs") auto
  then have "length ([] :: TransactionInfo list) < unat limitTxs"
    by simp
  note first = filtered_page_log [OF assms(1,4,5,3,7) this assms(6), of address]
  have "filtered_page q bd address limitTxs f [] from = Inr (Some (kept, from + of_nat (length page)))"
    unfolding first Let_def using assms(8-11) by simp
  moreover have "length kept \<le> length xs"
    using filterTxs_length [OF assms(11)] length_readTxs [OF assms(10)] by (auto simp: assms(8))
  then have "length kept < 2 ^ 64"
    using assms(5) by (rule le_less_trans)
  then have "count \<le> of_nat (length kept)"
    using assms(12) by (simp add: word_le_nat_alt unat_of_nat_u64)
  ultimately have "filtered_pages q bd address count limitTxs f [] from = Some (Inr (kept, from + of_nat (length page)))"
    by (subst filtered_pages.simps) simp
  then show ?thesis
    using assms(2,12) by (simp add: getTxsForAddressWithoutStatuses_filtered_def)
qed

theorem filtered_history_skips_matches_witness:
  "\<exists>tx. getTxsForAddressWithoutStatuses_filtered sample_queries (Address_of_range [9]) 0 1 10 no_filters = Some (Inr ([tx], 2))"
proof -
  let ?page = "sample_log"
  let ?txs = "[sample_tx\<lparr>tx_blockNumber := 7, tx_blockIndex := 0\<rparr>, sample_tx\<lparr>tx_blockNumber := 7, tx_blockIndex := 1\<rparr>]"
  have txs: "readTxs sample_queries (map snd ?page) = Inr ?txs"
    by (simp add: readTxs_def read_tx_at_def sample_queries_def sample_log_def AddressInfo_make_def openFile_def sample_read)
  have kept: "filterTxs no_filters (Address_of_range [9]) ?txs = Inr ?txs"
    by (simp add: filter_removes_def no_filters_def)
  have "leveldb_ok (mq_leveldb sample_queries) map_of"
    using sample_leveldb_ok by (simp add: sample_queries_def)
  note skips = filtered_history_skips_matches [OF this _ _ sample_holds_log _ _ _ _ _ txs kept, of 0 10 1]
  show ?thesis
    using skips by (simp add: toBdString_def getBinaryString_def Address_of_range_def no_filters_def sample_log_def)
      (simp add: sample_queries_def)
qed

end
