(* ===== verification/WorkerNodeTest.thy ===== *)
theory WorkerNodeTest
  imports WorkerMain BlockChain BlockchainRead DatabaseScans RejectedTxs GenerateJson
begin

section \<open>The worker of the node tests (Workers/WorkerNodeTest)\<close>

text \<open>
  Testers send the results of their tests of other nodes in transactions. The worker collects them by
  node and day in a database of its own: the last results, the request rates, the set of tested nodes;
  besides, the trust that state blocks give to nodes, and the registrations of nodes. A state block
  starts a new day.

  The parser of JSON documents and the helpers \<open>get\<close> and \<open>getOpt\<close> of \<open>jsonUtils\<close> are not part of the
  repository: they are members of \<open>node_test_env\<close>. An iteration over an \<open>unordered_map\<close> takes the
  entries in the order in which they were inserted; they go to different keys of the database.
\<close>

record node_test_env =
  ne_parse :: "bytes \<Rightarrow> json option"
  ne_getObject :: "json \<Rightarrow> bytes \<Rightarrow> json result"
  ne_getString :: "json \<Rightarrow> bytes \<Rightarrow> bytes result"
  ne_getOptString :: "json \<Rightarrow> bytes \<Rightarrow> bytes option result"
  ne_toHex :: "bytes \<Rightarrow> bytes"

text \<open>\<open>catch (...)\<close>: the value before the exception; undefined behaviour is not an exception.\<close>

definition caught :: "'a \<Rightarrow> 'a result \<Rightarrow> 'a result" where
  "caught old r =
     (case r of
        Inr x \<Rightarrow> Inr x
      | Inl Undefined \<Rightarrow> Inl Undefined
      | Inl Diverges \<Rightarrow> Inl Diverges
      | Inl e \<Rightarrow> Inr old)"

subsection \<open>Transactions\<close>

text \<open>\<open>v.HasMember(name) && v[name].IsString()\<close>, and the string.\<close>

definition string_member :: "bytes \<Rightarrow> json \<Rightarrow> bytes option result" where
  "string_member name v =
     bindE (HasMember name v) (\<lambda>has.
     if \<not> has then Inr None
     else bindE (json_at name v) (\<lambda>x. Inr (if IsString x then Some (GetString x) else None)))"

definition NodeTestResult_default :: NodeTestResult where
  "NodeTestResult_default = \<lparr>nr_serverAddress = [], nr_testerAddress = Address_default, nr_typeNode = [], nr_result = [],
     nr_ip = [], nr_geo = [], nr_rps = 0, nr_success = False, nr_isForwardSort = False, nr_day = 0, nr_timestamp = 0,
     nr_avgRps = 0\<rparr>"

definition parse_check_result :: "node_test_env \<Rightarrow> TransactionInfo \<Rightarrow> json \<Rightarrow> NodeTestResult result" where
  "parse_check_result env tx doc =
     bindE (ne_getObject env doc (lit ''params'')) (\<lambda>paramsJson.
     bindE (ne_getString env paramsJson (lit ''type'')) (\<lambda>type.
     bindE (ne_getString env paramsJson (lit ''ver'')) (\<lambda>version.
     bindE (ne_getString env paramsJson (lit ''address'')) (\<lambda>serverAddress.
     bindE (ne_getString env paramsJson (lit ''host'')) (\<lambda>ip.
     bindE (ne_getOptString env paramsJson (lit ''latency'')) (\<lambda>latencyStr.
     bindE (ne_getOptString env paramsJson (lit ''rps'')) (\<lambda>rpsStr.
     bindE (case rpsStr of
              Some s \<Rightarrow> stoull s
            | None \<Rightarrow> (case latencyStr of Some s \<Rightarrow> stoull s | None \<Rightarrow> Inr 0)) (\<lambda>rps.
     bindE (ne_getString env paramsJson (lit ''geo'')) (\<lambda>geo.
     bindE (ne_getString env paramsJson (lit ''success'')) (\<lambda>successStr.
     let success = (successStr = lit ''true'')
     in Inr (NodeTestResult_default\<lparr>nr_serverAddress := serverAddress, nr_testerAddress := tx_fromAddress tx, nr_typeNode := type,
          nr_result := tx_data tx, nr_ip := ip, nr_geo := geo, nr_rps := (if success then rps + 1 else 0),
          nr_success := success, nr_isForwardSort := (rpsStr \<noteq> None)\<rparr>)))))))))))"

definition parseTestNodeTransaction :: "node_test_env \<Rightarrow> TransactionInfo \<Rightarrow> NodeTestResult option result" where
  "parseTestNodeTransaction env tx =
     (case ne_parse env (tx_data tx) of
        None \<Rightarrow> Inl (Check ''rapidjson parse error. Data: '')
      | Some doc \<Rightarrow>
          bindE (string_member (lit ''method'') doc) (\<lambda>method.
          if method = Some (lit ''mhAddNodeCheckResult'')
          then bindE (parse_check_result env tx doc) (\<lambda>r. Inr (Some r))
          else Inr None))"

subsection \<open>One block\<close>

text \<open>The local variables of a turn.\<close>

record TestsOfBlock =
  tb_batchStates :: Batch
  tb_allNodesForDay :: AllTestedNodes
  tb_allNodes :: AllNodes
  tb_nodesRps :: "(bytes \<times> u64 list) list"
  tb_lastNodesTests :: "(bytes \<times> BestNodeTest) list"

definition add_test :: "TransactionInfo \<Rightarrow> u64 \<Rightarrow> BlockInfo \<Rightarrow> NodeTestResult \<Rightarrow> BestNodeTest \<Rightarrow> TestsOfBlock \<Rightarrow> TestsOfBlock" where
  "add_test tx currDay bi r found t =
     (let server = nr_serverAddress r;
          found = BestNodeTest_addElement found
            (BestNodeElement_make (bh_timestamp (bi_header bi)) (nr_geo r) (nr_rps r) (tx_filePos tx)) currDay
      in t\<lparr>tb_lastNodesTests := AList.update server (found\<lparr>bt_isMaxElement := nr_isForwardSort r\<rparr>) (tb_lastNodesTests t),
           tb_nodesRps := AList.update server (get_or [] (tb_nodesRps t) server @ [nr_rps r]) (tb_nodesRps t),
           tb_allNodesForDay := (tb_allNodesForDay t)\<lparr>an_nodes := List.insort_insert server (an_nodes (tb_allNodesForDay t))\<rparr>\<rparr>)"

definition found_tests :: "'d leveldb \<Rightarrow> 'd \<Rightarrow> bytes \<Rightarrow> TestsOfBlock \<Rightarrow> BestNodeTest result" where
  "found_tests L d serverAddress t =
     (case map_of (tb_lastNodesTests t) serverAddress of
        Some found \<Rightarrow> Inr found
      | None \<Rightarrow>
          bindE (findNodeStatLastResults L serverAddress d) (\<lambda>lastNodeTest.
          Inr (if bt_tests lastNodeTest = [] then BestNodeTest_make False else lastNodeTest)))"

definition processTestTransaction ::
  "node_test_env \<Rightarrow> 'd leveldb \<Rightarrow> 'd \<Rightarrow> u64 \<Rightarrow> BlockInfo \<Rightarrow> TransactionInfo \<Rightarrow> TestsOfBlock \<Rightarrow> TestsOfBlock result" where
  "processTestTransaction env L d currDay bi tx t =
     caught t
       (bindE (parseTestNodeTransaction env tx) (\<lambda>nodeTestResult.
        case nodeTestResult of
          None \<Rightarrow> Inr t
        | Some r \<Rightarrow>
            bindE (found_tests L d (nr_serverAddress r) t) (\<lambda>found. Inr (add_test tx currDay bi r found t))))"

definition processStateBlock :: "node_test_env \<Rightarrow> BlockInfo \<Rightarrow> TransactionInfo \<Rightarrow> Batch \<Rightarrow> Batch result" where
  "processStateBlock env bi tx batchStates =
     (case ne_parse env (tx_data tx) of
        None \<Rightarrow> Inr batchStates
      | Some doc \<Rightarrow>
          bindE (HasMember (lit ''trust'') doc) (\<lambda>has.
          if \<not> has then Inr batchStates
          else
            bindE (json_at (lit ''trust'') doc) (\<lambda>trust.
            if \<not> IsInt trust then Inr batchStates
            else
              bindE (calcHexString (ne_toHex env) (tx_toAddress tx)) (\<lambda>serverAddress.
              addNodeTestTrust serverAddress
                \<lparr>nt_trustJson = tx_data tx, nt_timestamp = bh_timestamp (bi_header bi), nt_trust = ucast (GetInt trust)\<rparr> batchStates))))"

definition register_node :: "json \<Rightarrow> AllNodes \<Rightarrow> AllNodes result" where
  "register_node doc allNodes =
     bindE (HasMember (lit ''params'') doc) (\<lambda>has.
     if \<not> has then Inr allNodes
     else
       bindE (json_at (lit ''params'') doc) (\<lambda>params.
       if \<not> IsObject params then Inr allNodes
       else
         bindE (string_member (lit ''host'') params) (\<lambda>host.
         case host of
           None \<Rightarrow> Inr allNodes
         | Some host \<Rightarrow>
             bindE (string_member (lit ''name'') params) (\<lambda>name.
             case name of
               None \<Rightarrow> Inr allNodes
             | Some name \<Rightarrow>
                 bindE (string_member (lit ''type'') params) (\<lambda>type.
                 Inr (map_put host \<lparr>nn_name = name, nn_type = (case type of None \<Rightarrow> [] | Some type \<Rightarrow> type)\<rparr> allNodes))))))"

definition processRegisterTransaction :: "node_test_env \<Rightarrow> TransactionInfo \<Rightarrow> AllNodes \<Rightarrow> AllNodes result" where
  "processRegisterTransaction env tx allNodes =
     (if tx_data tx \<noteq> [] \<and> tx_data tx ! 0 = of_char CHR ''{'' \<and> last (tx_data tx) = of_char CHR ''}''
      then case ne_parse env (tx_data tx) of
             None \<Rightarrow> Inr allNodes
           | Some doc \<Rightarrow>
               bindE (string_member (lit ''method'') doc) (\<lambda>method.
               if method = Some (lit ''mh-noderegistration'') \<or> method = Some (lit ''mhRegisterNode'')
               then register_node doc allNodes
               else Inr allNodes)
      else Inr allNodes)"

definition node_test_tx ::
  "node_test_env \<Rightarrow> 'd leveldb \<Rightarrow> 'd \<Rightarrow> u64 \<Rightarrow> BlockInfo \<Rightarrow> TransactionInfo \<Rightarrow> TestsOfBlock \<Rightarrow> TestsOfBlock result" where
  "node_test_tx env L d currDay bi tx t =
     (if isIntStatusNodeTest tx then processTestTransaction env L d currDay bi tx t
      else if isStateBlock (bi_header bi)
      then bindE (processStateBlock env bi tx (tb_batchStates t)) (\<lambda>b. Inr (t\<lparr>tb_batchStates := b\<rparr>))
      else bindE (processRegisterTransaction env tx (tb_allNodes t)) (\<lambda>a. Inr (t\<lparr>tb_allNodes := a\<rparr>)))"

fun node_test_txs ::
  "node_test_env \<Rightarrow> 'd leveldb \<Rightarrow> 'd \<Rightarrow> u64 \<Rightarrow> BlockInfo \<Rightarrow> TransactionInfo list \<Rightarrow> TestsOfBlock \<Rightarrow> TestsOfBlock result" where
  "node_test_txs env L d currDay bi [] t = Inr t"
| "node_test_txs env L d currDay bi (tx # txs) t =
     bindE (node_test_tx env L d currDay bi tx t) (node_test_txs env L d currDay bi txs)"

fun save_rps :: "'d leveldb \<Rightarrow> 'd \<Rightarrow> u64 \<Rightarrow> (bytes \<times> u64 list) list \<Rightarrow> Batch \<Rightarrow> Batch result" where
  "save_rps L d currDay [] b = Inr b"
| "save_rps L d currDay ((address, rps) # nodesRps) b =
     bindE (findNodeStatRps L address currDay d) (\<lambda>oldNodeRps.
     bindE (addNodeTestRpsForDay address (oldNodeRps @ rps) currDay b) (save_rps L d currDay nodesRps))"

fun save_last_results :: "(bytes \<times> BestNodeTest) list \<Rightarrow> Batch \<Rightarrow> Batch result" where
  "save_last_results [] b = Inr b"
| "save_last_results ((serverAddress, res) # lastNodesTests) b =
     bindE (addNodeTestLastResults serverAddress res b) (save_last_results lastNodesTests)"

text \<open>The batch of a block.\<close>

definition finish_tests :: "'d leveldb \<Rightarrow> 'd \<Rightarrow> u64 \<Rightarrow> BlockHeader \<Rightarrow> u64 \<Rightarrow> TestsOfBlock \<Rightarrow> Batch result" where
  "finish_tests L d currDay header blockNumber t =
     bindE (if isStateBlock header then addNodeTestDayNumber (currDay + 1) (tb_batchStates t) else Inr (tb_batchStates t)) (\<lambda>b.
     bindE (save_rps L d currDay (tb_nodesRps t) b) (\<lambda>b.
     bindE (save_last_results (tb_lastNodesTests t) b) (\<lambda>b.
     bindE (if an_nodes (tb_allNodesForDay t) = [] then Inr b
            else bindE (findAllTestedNodesForDay L currDay d) (\<lambda>old.
                 addAllTestedNodesForDay ((AllTestedNodes_plus old (tb_allNodesForDay t))\<lparr>an_day := currDay\<rparr>) currDay b)) (\<lambda>b.
     bindE (if tb_allNodes t = [] then Inr b
            else bindE (findAllNodes L d) (\<lambda>old. addAllNodes (AllNodes_plus old (tb_allNodes t)) b)) (\<lambda>b.
     addNodeStatBlock \<lparr>mb_blockNumber = blockNumber, mb_blockHash = bh_hash header, mb_countVal = 0\<rparr> b)))))"

definition TestsOfBlock_new :: TestsOfBlock where
  "TestsOfBlock_new = \<lparr>tb_batchStates = Batch_new, tb_allNodesForDay = AllTestedNodes_make 0, tb_allNodes = [],
     tb_nodesRps = [], tb_lastNodesTests = []\<rparr>"

text \<open>\<open>None\<close>: the block has been processed before.\<close>

definition block_tests :: "node_test_env \<Rightarrow> 'd leveldb \<Rightarrow> BlockInfo \<Rightarrow> 'd \<Rightarrow> Batch option result" where
  "block_tests env L bi d =
     bindE (findNodeStatBlock L d) (\<lambda>lastScriptBlock.
     case bh_blockNumber (bi_header bi) of
       None \<Rightarrow> Inl OutOfRange
     | Some blockNumber \<Rightarrow>
         if blockNumber \<le> mb_blockNumber lastScriptBlock then Inr None
         else
           bindE (CHECK (mb_blockHash lastScriptBlock = [] \<or> mb_blockHash lastScriptBlock = bh_prevHash (bi_header bi))
                   ''Incorrect prev hash. Expected '') (\<lambda>_.
           bindE (findNodeStatDayNumber L d) (\<lambda>currDay.
           bindE (node_test_txs env L d currDay bi (bi_txs bi) TestsOfBlock_new) (\<lambda>t.
           bindE (finish_tests L d currDay (bi_header bi) blockNumber t) (\<lambda>b. Inr (Some b))))))"

definition node_test_turn :: "node_test_env \<Rightarrow> 'd leveldb \<Rightarrow> BlockInfo \<Rightarrow> 'd \<Rightarrow> outcome \<times> 'd" where
  "node_test_turn env L bi d =
     (case block_tests env L bi d of
        Inl e \<Rightarrow> (Failed e, d)
      | Inr None \<Rightarrow> (Skipped, d)
      | Inr (Some b) \<Rightarrow> (case addBatch L b d of (d', Inl e) \<Rightarrow> (Failed e, d') | (d', Inr _) \<Rightarrow> (Saved, d')))"

definition getInitBlockNumber_tests :: "'d leveldb \<Rightarrow> 'd \<Rightarrow> u64 option result" where
  "getInitBlockNumber_tests L d =
     bindE (findNodeStatBlock L d) (\<lambda>lastScriptBlock. Inr (Some (mb_blockNumber lastScriptBlock)))"

subsection \<open>Queries\<close>

text \<open>What a query reads. \<open>std::sort\<close> does not fix the order of nodes with the same average: \<open>nq_sort\<close>.\<close>

record ('d, 'j) node_queries =
  nq_env :: node_test_env
  nq_leveldb :: "'d leveldb"
  nq_database :: 'd
  nq_blockchain :: BlockChain
  nq_disk :: disk
  nq_lib :: "'j lib"
  nq_base1 :: u64
  nq_base2 :: u64
  nq_sort :: "(bytes \<times> u64) list \<Rightarrow> (bytes \<times> u64) list"

text \<open>\<open>std::accumulate(numbers.begin(), numbers.end(), 0)\<close> computes every sum with 64 bits and stores it
  in an \<open>int\<close>, which is converted back in the division.\<close>

definition accumulate_int :: "u64 list \<Rightarrow> u32" where
  "accumulate_int numbers = fold (\<lambda>x sum. ucast ((scast sum :: u64) + x)) numbers 0"

definition findAvg :: "u64 list \<Rightarrow> u64 result" where
  "findAvg numbers =
     bindE (CHECK (numbers \<noteq> []) ''Empty numbers'') (\<lambda>_.
     Inr ((scast (accumulate_int numbers) :: u64) div of_nat (length numbers)))"

definition readNodeTestTransaction ::
  "('d, 'j) node_queries \<Rightarrow> BestNodeElement \<Rightarrow> u64 \<Rightarrow> NodeTestResult result" where
  "readNodeTestTransaction q nodeTestElement currDay =
     (if be_empty nodeTestElement then Inr NodeTestResult_default
      else
        bindE (openFile (nq_disk q) (fp_fileNameRelative (be_txPos nodeTestElement))) (\<lambda>file.
        bindE (readOneSimpleTransactionInfo (nq_lib q) (nq_base1 q) (nq_base2 q) file (fp_pos (be_txPos nodeTestElement))
                 TransactionInfo_default False) (\<lambda>(res, tx).
        bindE (CHECK res ''Incorrect read transaction info'') (\<lambda>_.
        bindE (parseTestNodeTransaction (nq_env q) tx) (\<lambda>nodeTestResult.
        case nodeTestResult of
          None \<Rightarrow> Inl (Check ''Incorrect node test transaction'')
        | Some r \<Rightarrow> Inr (r\<lparr>nr_day := currDay, nr_timestamp := be_timestamp nodeTestElement\<rparr>))))))"

definition getLastBlockDay :: "('d, 'j) node_queries \<Rightarrow> u64 result" where
  "getLastBlockDay q = findNodeStatDayNumber (nq_leveldb q) (nq_database q)"

definition getLastNodeTestResult :: "('d, 'j) node_queries \<Rightarrow> bytes \<Rightarrow> (u64 \<times> NodeTestResult) result" where
  "getLastNodeTestResult q address =
     bindE (findNodeStatLastResults (nq_leveldb q) address (nq_database q)) (\<lambda>lastNodeTests.
     bindE (getLastBlock (nq_blockchain q)) (\<lambda>lastBlock.
     if \<not> bt_deserialized lastNodeTests then Inr (bh_timestamp lastBlock, NodeTestResult_default)
     else
       bindE (getLastBlockDay q) (\<lambda>day.
       bindE (readNodeTestTransaction q (getMax lastNodeTests day) (bt_day lastNodeTests)) (\<lambda>r.
       bindE (findNodeStatRps (nq_leveldb q) address (nr_day r) (nq_database q)) (\<lambda>nodeRps.
       bindE (if nodeRps = [] then Inr r else bindE (findAvg nodeRps) (\<lambda>avgRps. Inr (r\<lparr>nr_avgRps := avgRps\<rparr>))) (\<lambda>r.
       Inr (bh_timestamp lastBlock, r)))))))"

definition getLastNodeTestTrust :: "('d, 'j) node_queries \<Rightarrow> bytes \<Rightarrow> (u64 \<times> NodeTestTrust) result" where
  "getLastNodeTestTrust q address =
     bindE (findNodeStatLastTrust (nq_leveldb q) address (nq_database q)) (\<lambda>result.
     bindE (getLastBlock (nq_blockchain q)) (\<lambda>lastBlock. Inr (bh_timestamp lastBlock, result)))"

definition getLastDayNodeTestCount :: "('d, 'j) node_queries \<Rightarrow> bytes \<Rightarrow> NodeTestCount2 result" where
  "getLastDayNodeTestCount q address =
     bindE (findNodeStatLastResults (nq_leveldb q) address (nq_database q)) (\<lambda>lastNodeTests.
     bindE (getLastBlockDay q) (\<lambda>day. Inr (countTests lastNodeTests day)))"

fun extended_stats :: "('d, 'j) node_queries \<Rightarrow> u64 \<Rightarrow> bytes list \<Rightarrow> (bytes \<times> NodeTestExtendedStat) list result" where
  "extended_stats q lastBlockDay [] = Inr []"
| "extended_stats q lastBlockDay (node # nodes) =
     bindE (findNodeStatLastResults (nq_leveldb q) node (nq_database q)) (\<lambda>lastNodeTests.
     bindE (readNodeTestTransaction q (getMax lastNodeTests lastBlockDay) (bt_day lastNodeTests)) (\<lambda>r.
     bindE (extended_stats q lastBlockDay nodes) (\<lambda>result.
     Inr ((node, \<lparr>ns_count = countTests lastNodeTests lastBlockDay, ns_type = nr_typeNode r, ns_ip = nr_ip r\<rparr>) # result))))"

definition filterLastNodes :: "('d, 'j) node_queries \<Rightarrow> u64 \<Rightarrow> (bytes \<times> NodeTestExtendedStat) list result" where
  "filterLastNodes q count =
     bindE (findAllTestedNodesForLastDay (nq_leveldb q) (nq_database q)) (\<lambda>allNodesForDay.
     bindE (getLastBlockDay q) (\<lambda>lastBlockDay.
     bindE (extended_stats q lastBlockDay (an_nodes allNodesForDay)) (\<lambda>result.
     Inr (filter (\<lambda>p. \<not> countSuccess (ns_count (snd p)) < count) result))))"

fun node_averages :: "('d, 'j) node_queries \<Rightarrow> u64 \<Rightarrow> u64 \<Rightarrow> bytes list \<Rightarrow> (bytes \<times> u64) list result" where
  "node_averages q day count [] = Inr []"
| "node_averages q day count (node # nodes) =
     bindE (findNodeStatRps (nq_leveldb q) node day (nq_database q)) (\<lambda>nodeRps.
     bindE (if count \<le> of_nat (length nodeRps)
            then bindE (findAvg nodeRps) (\<lambda>median. Inr [(node, median)])
            else Inr []) (\<lambda>avg.
     bindE (node_averages q day count nodes) (\<lambda>avgs. Inr (avg @ avgs))))"

text \<open>The group of the element at a position.\<close>

definition node_group :: "u64 \<Rightarrow> u64 \<Rightarrow> u64" where
  "node_group countNodes elementNumber =
     (let countGroups = 5;
          normalGroupSize = countNodes div countGroups;
          extendenGroupSize = normalGroupSize + 1;
          countExtendedGroups = countNodes mod countGroups;
          countNormalGroups = countGroups - countExtendedGroups;
          countElementsInNormalGroups = countNormalGroups * normalGroupSize
      in if elementNumber < countElementsInNormalGroups
         then elementNumber div normalGroupSize + 1
         else (elementNumber - countElementsInNormalGroups) div extendenGroupSize + countNormalGroups + 1)"

text \<open>The position of the first pair for an address.\<close>

fun find_position :: "bytes \<Rightarrow> (bytes \<times> u64) list \<Rightarrow> nat option" where
  "find_position address [] = None"
| "find_position address (p # ps) = (if fst p = address then Some 0 else map_option Suc (find_position address ps))"

definition calcNodeRaiting :: "('d, 'j) node_queries \<Rightarrow> bytes \<Rightarrow> u64 \<Rightarrow> (u32 \<times> u64) result" where
  "calcNodeRaiting q address count =
     bindE (CHECK (count \<noteq> 0) ''Incorrect countTests parameter'') (\<lambda>_.
     bindE (findAllTestedNodesForLastDay (nq_leveldb q) (nq_database q)) (\<lambda>allNodesForDay.
     bindE (node_averages q (an_day allNodesForDay) count (an_nodes allNodesForDay)) (\<lambda>avgs.
     let avgs = nq_sort q avgs
     in Inr (case find_position address avgs of
               None \<Rightarrow> (0, an_day allNodesForDay)
             | Some elementNumber \<Rightarrow>
                 (ucast (node_group (of_nat (length avgs)) (of_nat elementNumber)), an_day allNodesForDay)))))"

definition getAllNodes :: "('d, 'j) node_queries \<Rightarrow> AllNodes result" where
  "getAllNodes q = findAllNodes (nq_leveldb q) (nq_database q)"

end
