(* ===== verification/NodeTestProps.thy ===== *)
theory NodeTestProps
  imports WorkerNodeTest "HOL-Library.Multiset"
begin

section \<open>Facts about the worker of the node tests\<close>

text \<open>
  The averages and where their \<open>int\<close> overflows, the five groups of the ratings, the stored days, and the
  effect of one turn on the database.
\<close>

subsection \<open>Averages\<close>

lemma take_bit_sums:
  "take_bit 32 (take_bit 64 a + take_bit 64 b) = take_bit 32 (a + b :: int)"
  "take_bit 32 (signed_take_bit 31 a + b) = take_bit 32 (a + b :: int)"
  "take_bit 32 (a + take_bit 64 b) = take_bit 32 (a + b :: int)"
  "take_bit 32 (take_bit 64 a + b) = take_bit 32 (a + b :: int)"
  using take_bit_add [of 32 "take_bit 64 a" b] take_bit_add [of 32 "take_bit 64 a" "take_bit 64 b"] take_bit_add [of 32 a b] take_bit_signed_take_bit [of 32 31 a]
    take_bit_add [of 32 "signed_take_bit 31 a" b] take_bit_add [of 32 a "take_bit 64 b"]
  by simp_all

lemma ucast_sum: "ucast (a + b :: u64) = (ucast a :: u32) + ucast b"
  by transfer (simp add: take_bit_sums)

lemma int_through_u64: "ucast (scast s :: u64) = (s :: u32)"
  by transfer (simp add: take_bit_signed_take_bit)

lemma accumulate_int_sum: "accumulate_int numbers = ucast (sum_list numbers)"
proof -
  have "fold (\<lambda>x sum. ucast ((scast sum :: u64) + x)) numbers s = s + ucast (sum_list numbers)" for s :: u32
    by (induction numbers arbitrary: s) (simp_all add: int_through_u64 ucast_sum)
  then show ?thesis
    by (simp add: accumulate_int_def)
qed

lemma sum_list_u64: "sum_list numbers = (of_nat (sum_list (map unat numbers)) :: u64)"
  by (induction numbers) simp_all

lemma findAvg_sum:
  assumes "numbers \<noteq> []"
  shows "findAvg numbers = Inr (scast (of_nat (sum_list (map unat numbers)) :: u32) div of_nat (length numbers))"
proof -
  have "ucast (of_nat n :: u64) = (of_nat n :: u32)" for n
    by transfer simp
  then show ?thesis
    using assms by (simp add: findAvg_def accumulate_int_sum sum_list_u64)
qed

lemma div_u64:
  assumes "m < 2 ^ 64" and "n < 2 ^ 64"
  shows "(of_nat m :: u64) div of_nat n = of_nat (m div n)"
proof -
  have "m div n < 2 ^ 64"
    using div_le_dividend [of m n] assms(1) by (rule le_less_trans)
  then have "unat ((of_nat m :: u64) div of_nat n) = unat (of_nat (m div n) :: u64)"
    using assms by (simp only: unat_div unat_of_nat_u64)
  then show ?thesis
    by (simp only: word_unat_eq_iff)
qed

lemma scast_of_nat: "scast (of_nat n :: u32) = (word_of_int (signed_take_bit 31 (int n)) :: u64)"
  by transfer (simp add: signed_take_bit_take_bit)

lemma average_exact_below_2_31:
  assumes "numbers \<noteq> []" and "sum_list (map unat numbers) < 2 ^ 31" and "length numbers < 2 ^ 64"
  shows "findAvg numbers = Inr (of_nat (sum_list (map unat numbers) div length numbers))"
proof -
  let ?s = "sum_list (map unat numbers)"
  have "signed_take_bit 31 (int ?s) = int ?s"
    using assms(2) by (intro signed_take_bit_int_eq_self) auto
  then have "findAvg numbers = Inr (of_nat ?s div of_nat (length numbers))"
    by (simp add: findAvg_sum [OF assms(1)] scast_of_nat)
  then show ?thesis
    using assms(2,3) by (simp add: div_u64)
qed

lemma average_of_overflow:
  assumes "numbers \<noteq> []" and "2 ^ 31 \<le> sum_list (map unat numbers)" and "sum_list (map unat numbers) < 2 ^ 32"
    and "length numbers < 2 ^ 64"
  shows "findAvg numbers = Inr (of_nat ((sum_list (map unat numbers) + (2 ^ 64 - 2 ^ 32)) div length numbers))"
proof -
  let ?s = "sum_list (map unat numbers)"
  have "take_bit 32 (int ?s) = take_bit 32 (int ?s - 2 ^ 32)"
    by (simp add: take_bit_eq_mod)
  then have "signed_take_bit 31 (int ?s) = signed_take_bit 31 (int ?s - 2 ^ 32)"
    by (simp add: signed_take_bit_eq_iff_take_bit_eq)
  also have "\<dots> = int ?s - 2 ^ 32"
    using assms(2,3) by (intro signed_take_bit_int_eq_self) auto
  finally have "scast (of_nat ?s :: u32) = (word_of_int (int ?s - 2 ^ 32) :: u64)"
    by (simp only: scast_of_nat)
  also have "\<dots> = word_of_int (int ?s - 2 ^ 32 + 2 ^ 64)"
    by (simp add: word_of_int_eq_iff take_bit_eq_mod)
  also have "\<dots> = of_nat (?s + (2 ^ 64 - 2 ^ 32))"
    by (simp add: of_nat_eq_iff algebra_simps)
  finally have big: "scast (of_nat ?s :: u32) = (of_nat (?s + (2 ^ 64 - 2 ^ 32)) :: u64)" .
  show ?thesis
    unfolding findAvg_sum [OF assms(1)] big
    by (subst div_u64) (use assms(3,4) in simp_all)
qed

subsection \<open>Groups\<close>

text \<open>The group of a position without the bounds of the machine, and the position at which a group begins:
  the first \<open>5 - n mod 5\<close> groups have \<open>n div 5\<close> members, the others one more.\<close>

definition fifth :: "nat \<Rightarrow> nat \<Rightarrow> nat" where
  "fifth n i =
     (let k = n div 5; m = 5 - n mod 5
      in if i < m * k then i div k + 1 else (i - m * k) div (k + 1) + m + 1)"

definition fifth_start :: "nat \<Rightarrow> nat \<Rightarrow> nat" where
  "fifth_start n g = g * (n div 5) + (g - (5 - n mod 5))"

lemma div_eq_nat: "0 < k \<Longrightarrow> i div k = g \<longleftrightarrow> g * k \<le> i \<and> i < Suc g * k" for i k g :: nat
  by (metis div_nat_eqI dividend_less_times_div mult.commute mult_Suc_right div_times_less_eq_dividend add.commute)

lemma fifths:
  fixes n :: nat
  obtains k m where "n div 5 = k" "5 - n mod 5 = m" "m \<le> 5" "0 < m" "n = m * k + (5 - m) * (k + 1)"
proof -
  define k r where "k = n div 5" and "r = n mod 5"
  have n: "n = 5 * k + r" and "r < 5"
    by (simp_all add: k_def r_def)
  then have "r = 0 \<or> r = 1 \<or> r = 2 \<or> r = 3 \<or> r = 4"
    by linarith
  then have "5 * k + r = (5 - r) * k + (5 - (5 - r)) * (k + 1)"
    by (elim disjE) simp_all
  with n \<open>r < 5\<close> show thesis
    by (intro that [of k "5 - r"]) (simp_all add: k_def r_def)
qed

lemma fifth_iff:
  assumes "i < n"
  shows "fifth n i = Suc g \<longleftrightarrow> fifth_start n g \<le> i \<and> i < fifth_start n (Suc g) \<and> g < 5"
proof -
  obtain k m where km: "n div 5 = k" "5 - n mod 5 = m" "m \<le> 5" and n: "n = m * k + (5 - m) * (k + 1)"
    by (rule fifths)
  show ?thesis
  proof (cases "i < m * k")
    case True
    then have k: "0 < k"
      by (cases k) auto
    have "i div k < m"
      using True by (simp add: less_mult_imp_div_less)
    show ?thesis
    proof (cases "g < m")
      case True
      then show ?thesis
        using \<open>i < m * k\<close> km(3) div_eq_nat [OF k, of i g] unfolding fifth_def fifth_start_def km Let_def by auto
    next
      case False
      then have "m * k \<le> g * k"
        by (intro mult_le_mono1) simp
      then have "\<not> fifth_start n g \<le> i"
        using True unfolding fifth_start_def km by linarith
      then show ?thesis
        using True False \<open>i div k < m\<close> unfolding fifth_def km Let_def by auto
    qed
  next
    case False
    show ?thesis
    proof (cases "g < m")
      case True
      then have "Suc g * k \<le> m * k" "Suc g - m = 0"
        using True by (simp_all only: mult_le_mono1 Suc_leI diff_is_0_eq)
      then show ?thesis
        using False True unfolding fifth_def fifth_start_def km Let_def by auto
    next
      case g: False
      then obtain h where h: "g = m + h"
        using le_Suc_ex not_less by blast
      have "i - m * k < (5 - m) * (k + 1)"
        using assms False n by linarith
      then have q: "(i - m * k) div (k + 1) < 5 - m"
        by (rule less_mult_imp_div_less)
      have mk: "m * k \<le> i"
        using False by simp
      have "(i - m * k) div (k + 1) = h \<longleftrightarrow> h * (k + 1) \<le> i - m * k \<and> i - m * k < Suc h * (k + 1)"
        by (rule div_eq_nat) simp
      also have "\<dots> \<longleftrightarrow> h * (k + 1) + m * k \<le> i \<and> i < Suc h * (k + 1) + m * k"
        by (simp only: le_diff_conv2 [OF mk] less_diff_conv2 [OF mk] less_diff_conv diff_less_mono)
      also have "h * (k + 1) + m * k = fifth_start n g"
        by (simp add: fifth_start_def km h algebra_simps)
      also have "Suc h * (k + 1) + m * k = fifth_start n (Suc g)"
        by (simp add: fifth_start_def km h algebra_simps)
      finally have "(i - m * k) div (k + 1) = h \<longleftrightarrow> fifth_start n g \<le> i \<and> i < fifth_start n (Suc g)" .
      moreover have "fifth n i = Suc g \<longleftrightarrow> (i - m * k) div (k + 1) = h"
        using False unfolding fifth_def km Let_def h by simp
      ultimately show ?thesis
        using km(3) q unfolding h by fastforce
    qed
  qed
qed

lemma node_group_fifth:
  assumes "n < 2 ^ 64" and "i < n"
  shows "unat (node_group (of_nat n) (of_nat i)) = fifth n i"
proof -
  obtain k m where km: "n div 5 = k" "5 - n mod 5 = m" "m \<le> 5" and n: "n = m * k + (5 - m) * (k + 1)"
    by (rule fifths)
  define K :: u64 where "K = of_nat n div 5"
  define M :: u64 where "M = 5 - of_nat n mod 5"
  have un: "unat (of_nat n :: u64) = n" "unat (of_nat i :: u64) = i"
    using assms by (simp_all only: unat_of_nat_u64)
  have K: "unat K = k"
    by (simp add: K_def unat_div un km)
  have "unat ((of_nat n :: u64) mod 5) = n mod 5"
    by (simp add: unat_mod un)
  then have M: "unat M = m"
    unfolding M_def by (subst unat_sub) (simp_all add: word_le_nat_alt km)
  have small: "m * k < 2 ^ 64" "5 * k \<le> n"
    using n assms(1) km by linarith+
  then have "k + 1 < 2 ^ 64"
    using assms(1) by simp
  with small have MK: "unat (M * K) = m * k" "unat (K + 1) = k + 1"
    using unat_mult_lem [of M K] unat_add_u64 [of K 1] by (simp_all add: K M)
  show ?thesis
  proof (cases "i < m * k")
    case True
    then have "i div k < 5"
      using km(3) by (meson less_mult_imp_div_less less_le_trans)
    then have "unat (of_nat i div K + 1) = i div k + 1"
      using unat_add_u64 [of "of_nat i div K" 1] by (simp add: unat_div un K)
    then show ?thesis
      using True by (simp add: node_group_def fifth_def Let_def word_less_nat_alt un km MK flip: K_def M_def)
  next
    case False
    have sub: "unat (of_nat i - M * K) = i - m * k"
      using False by (subst unat_sub) (simp_all add: word_le_nat_alt MK un)
    have "i - m * k < (5 - m) * (k + 1)"
      using assms(2) False n by linarith
    then have "(i - m * k) div (k + 1) < 5 - m"
      by (rule less_mult_imp_div_less)
    then have "unat ((of_nat i - M * K) div (K + 1) + of_nat (m + 1)) = (i - m * k) div (k + 1) + (m + 1)"
      using km(3) unat_add_u64 [of "(of_nat i - M * K) div (K + 1)" "m + 1"] by (simp add: unat_div sub MK)
    moreover have "of_nat m = M"
      by (simp flip: M)
    ultimately show ?thesis
      using False by (simp add: node_group_def fifth_def Let_def word_less_nat_alt un km MK add.commute add.left_commute add.assoc flip: K_def M_def)
  qed
qed

lemma fifth_start_mono: "g \<le> h \<Longrightarrow> fifth_start n g \<le> fifth_start n h"
  unfolding fifth_start_def by (intro add_mono mult_le_mono1 diff_le_mono)

lemma fifth_pos: obtains g where "fifth n i = Suc g"
  by (cases "fifth n i") (simp_all add: fifth_def Let_def split: if_splits)

lemma fifth_mono:
  assumes "i \<le> j" and "j < n"
  shows "fifth n i \<le> fifth n j"
proof -
  obtain g h where gh: "fifth n i = Suc g" "fifth n j = Suc h"
    by (meson fifth_pos)
  have "fifth_start n g \<le> i" "j < fifth_start n (Suc h)"
    using fifth_iff [of i n g] fifth_iff [of j n h] assms gh by simp_all
  then have "\<not> Suc h \<le> g"
    using fifth_start_mono [of "Suc h" g n] assms(1) by linarith
  then show ?thesis
    by (simp add: gh)
qed

lemma fifth_le_5: "i < n \<Longrightarrow> fifth n i \<le> 5"
  using fifth_pos [of n i] fifth_iff [of i n] by (metis Suc_leI)

lemma card_fifth:
  assumes "g < 5"
  shows "card {i. i < n \<and> fifth n i = Suc g} = n div 5 + (if 5 - n mod 5 < Suc g then 1 else 0)"
proof -
  have "fifth_start n (Suc g) \<le> fifth_start n 5"
    using assms by (intro fifth_start_mono) simp
  moreover have "fifth_start n 5 = n"
  proof -
    have "n mod 5 < 5"
      by simp
    then have "5 - (5 - n mod 5) = n mod 5"
      by linarith
    then show ?thesis
      by (simp add: fifth_start_def)
  qed
  ultimately have "{i. i < n \<and> fifth n i = Suc g} = {fifth_start n g..<fifth_start n (Suc g)}"
    using assms fifth_iff [of _ n g] by auto
  then show ?thesis
    by (auto simp: fifth_start_def)
qed

lemma find_position_iff:
  "distinct (map fst ps) \<Longrightarrow> find_position a ps = Some i \<longleftrightarrow> i < length ps \<and> fst (ps ! i) = a"
proof (induction ps arbitrary: i)
  case (Cons p ps)
  have "fst (ps ! j) \<in> fst ` set ps" if "j < length ps" for j
    using that by simp
  moreover have "fst p \<notin> fst ` set ps"
    using Cons.prems by simp
  ultimately have "fst (ps ! j) \<noteq> fst p" if "j < length ps" for j
    using that by metis
  then show ?case
    using Cons by (cases i) auto
qed simp

lemma find_position_None: "find_position a ps = None \<longleftrightarrow> a \<notin> fst ` set ps"
  by (induction ps) auto

lemma node_averages_nodes:
  assumes "node_averages q day minTests nodes = Inr avgs" and "distinct nodes"
  shows "distinct (map fst avgs) \<and> fst ` set avgs \<subseteq> set nodes"
  using assms
proof (induction nodes arbitrary: avgs)
  case (Cons node nodes)
  then show ?case
    by (fastforce simp: result_simps split: if_splits)
qed simp

definition rating_in :: "(bytes \<times> u64) list \<Rightarrow> bytes \<Rightarrow> nat" where
  "rating_in ps node = (case find_position node ps of None \<Rightarrow> 0 | Some i \<Rightarrow> fifth (length ps) i)"

lemma rating_at: "distinct (map fst ps) \<Longrightarrow> i < length ps \<Longrightarrow> rating_in ps (fst (ps ! i)) = fifth (length ps) i"
  using find_position_iff [of ps "fst (ps ! i)" i] by (simp add: rating_in_def)

lemma rating_zero: "rating_in ps node = 0 \<longleftrightarrow> node \<notin> fst ` set ps"
proof (cases "find_position node ps")
  case (Some i)
  obtain g where "fifth (length ps) i = Suc g"
    by (rule fifth_pos)
  then show ?thesis
    using Some find_position_None [of node ps] by (simp add: rating_in_def)
next
  case None
  then have "node \<notin> fst ` set ps"
    by (simp only: find_position_None not_False_eq_True)
  with None show ?thesis
    by (simp add: rating_in_def)
qed

lemma rating_mono:
  assumes "distinct (map fst ps)" and "sorted (map snd ps)" and "(n1, v1) \<in> set ps" and "(n2, v2) \<in> set ps" and "v1 < v2"
  shows "rating_in ps n1 \<le> rating_in ps n2"
proof -
  obtain i j where i: "i < length ps" "ps ! i = (n1, v1)" and j: "j < length ps" "ps ! j = (n2, v2)"
    using assms(3,4) by (meson in_set_conv_nth)
  have "i \<le> j"
  proof (rule ccontr)
    assume "\<not> i \<le> j"
    then have "map snd ps ! j \<le> map snd ps ! i"
      using assms(2) i(1) by (intro sorted_nth_mono) simp_all
    then show False
      using i j assms(5) by simp
  qed
  then show ?thesis
    using rating_at [OF assms(1) i(1)] rating_at [OF assms(1) j(1)] fifth_mono [OF _ j(1), of i] i j by simp
qed

lemma card_rating:
  assumes "distinct (map fst ps)" and "g < 5"
  shows "card {node \<in> fst ` set ps. rating_in ps node = Suc g} = length ps div 5 + (if 5 - length ps mod 5 < Suc g then 1 else 0)"
proof -
  let ?I = "{i. i < length ps \<and> fifth (length ps) i = Suc g}"
  have "{node \<in> fst ` set ps. rating_in ps node = Suc g} = (\<lambda>i. fst (ps ! i)) ` ?I"
  proof (intro set_eqI iffI)
    fix node assume "node \<in> {node \<in> fst ` set ps. rating_in ps node = Suc g}"
    then obtain i where "i < length ps" "node = fst (ps ! i)" "rating_in ps node = Suc g"
      by (auto simp: in_set_conv_nth)
    then show "node \<in> (\<lambda>i. fst (ps ! i)) ` ?I"
      using rating_at [OF assms(1)] by auto
  qed (use rating_at [OF assms(1)] in auto)
  moreover have "inj_on (\<lambda>i. fst (ps ! i)) ?I"
    using assms(1) by (intro inj_onI) (metis (mono_tags, lifting) length_map mem_Collect_eq nth_eq_iff_index_eq nth_map)
  ultimately show ?thesis
    using card_fifth [OF assms(2), of "length ps"] by (simp add: card_image)
qed

text \<open>C19: The rating of a node is its fifth among the tested nodes. When \<open>std::sort\<close> sorts, the nodes with
  enough tests on the last day get ratings from 1 to 5 and all others 0; a node with a greater average
  never has a lower rating; and the five groups have the same size up to one, the larger groups being
  the upper ones.\<close>

theorem rating_by_fifths:
  assumes "findAllTestedNodesForLastDay (nq_leveldb q) (nq_database q) = Inr a"
    and "node_averages q (an_day a) minTests (an_nodes a) = Inr avgs"
    and "distinct (an_nodes a)" and "length avgs < 2 ^ 64" and "minTests \<noteq> 0"
    and "mset (nq_sort q avgs) = mset avgs" and "sorted (map snd (nq_sort q avgs))"
  shows "\<exists>rating. (\<forall>node. calcNodeRaiting q node minTests = Inr (of_nat (rating node), an_day a) \<and> rating node \<le> 5 \<and>
        (rating node = 0 \<longleftrightarrow> node \<notin> fst ` set avgs)) \<and>
     (\<forall>(n1, v1) \<in> set avgs. \<forall>(n2, v2) \<in> set avgs. v1 < v2 \<longrightarrow> rating n1 \<le> rating n2) \<and>
     (\<forall>g < 5. card {node \<in> fst ` set avgs. rating node = Suc g} = length avgs div 5 + (if 5 - length avgs mod 5 < Suc g then 1 else 0))"
proof -
  let ?ps = "nq_sort q avgs"
  have same: "set ?ps = set avgs" "length ?ps = length avgs"
    using mset_eq_setD [OF assms(6)] mset_eq_length [OF assms(6)] by simp_all
  have "distinct (map fst avgs)"
    using node_averages_nodes [OF assms(2,3)] by simp
  then have d: "distinct (map fst ?ps)"
    using assms(6) by (metis mset_eq_imp_distinct_iff mset_map)
  have small: "rating_in ?ps node \<le> 5" for node
    using find_position_iff [OF d, of node] by (auto simp: rating_in_def fifth_le_5 split: option.split)
  have calc: "calcNodeRaiting q node minTests = Inr (of_nat (rating_in ?ps node), an_day a)" for node
  proof (cases "find_position node ?ps")
    case (Some i)
    then have "i < length avgs"
      using find_position_iff [OF d, of node] same by simp
    then have "node_group (of_nat (length avgs)) (of_nat i) = of_nat (fifth (length avgs) i)"
      by (simp flip: node_group_fifth [OF assms(4) \<open>i < length avgs\<close>])
    moreover have "ucast (of_nat n :: u64) = (of_nat n :: u32)" for n
      by transfer simp
    ultimately show ?thesis
      using Some assms(1,2,5) by (simp add: calcNodeRaiting_def rating_in_def Let_def same)
  qed (use assms(1,2,5) in \<open>simp add: calcNodeRaiting_def rating_in_def\<close>)
  show ?thesis
  proof (intro exI [of _ "rating_in ?ps"] conjI allI impI ballI)
    fix x y assume "x \<in> set avgs" "y \<in> set avgs"
    then show "case x of (n1, v1) \<Rightarrow> \<forall>(n2, v2) \<in> set avgs. v1 < v2 \<longrightarrow> rating_in ?ps n1 \<le> rating_in ?ps n2"
      using rating_mono [OF d assms(7)] by (auto simp: same)
  qed (use calc small card_rating [OF d] rating_zero [of ?ps] in \<open>simp_all add: same\<close>)
qed

definition days_key :: bytes where
  "days_key = NODES_TESTED_STATS_ALL_DAY @ [NODES_TESTED_STATS_ALL_DAY_POSTFIX]"

definition sample_tested :: AllTestedNodes where
  "sample_tested = \<lparr>an_nodes = [[1], [2]], an_day = 3\<rparr>"

definition rps_key :: "bytes \<Rightarrow> u64 \<Rightarrow> bytes" where
  "rps_key address day = NODE_STAT_RPS_PREFIX @ address @ NODE_STAT_RPS_POSTFIX # serializeInt (- day)"

definition sample_ratings :: "(sample_store, unit) node_queries" where
  "sample_ratings = \<lparr>nq_env = \<lparr>ne_parse = (\<lambda>_. None), ne_getObject = (\<lambda>_ _. Inl OutOfRange), ne_getString = (\<lambda>_ _. Inl OutOfRange),
       ne_getOptString = (\<lambda>_ _. Inr None), ne_toHex = (\<lambda>s. s)\<rparr>,
     nq_leveldb = sample_leveldb,
     nq_database = [(days_key @ serializeInt (- 3 :: u64), AllTestedNodes_serialize sample_tested []),
       (rps_key [1] 3, NodeRps_serialize [4, 6] []), (rps_key [2] 3, NodeRps_serialize [9] [])],
     nq_blockchain = BlockChain_empty, nq_disk = [], nq_lib = sample_lib, nq_base1 = 4096, nq_base2 = 4096,
     nq_sort = sort_key snd\<rparr>"

lemma sample_last_day:
  "findAllTestedNodesForLastDay (nq_leveldb sample_ratings) (nq_database sample_ratings) = Inr sample_tested"
proof -
  let ?m = "map_of (nq_database sample_ratings)"
  have "?m (days_key @ s) = (if s = serializeInt (- 3 :: u64) then Some (AllTestedNodes_serialize sample_tested []) else None)" for s
    by (simp add: sample_ratings_def days_key_def rps_key_def prefix_defs)
  then have "holds_entries ?m days_key [(- 3, AllTestedNodes_serialize sample_tested [])]"
    by (auto simp: holds_entries_def)
  from findFirstOf_entries [OF sample_leveldb_ok _ this [unfolded days_key_def]]
  have "findFirstOf sample_leveldb days_key [] (nq_database sample_ratings) =
      (days_key @ serializeInt (- 3 :: u64), AllTestedNodes_serialize sample_tested [])"
    by (simp add: days_key_def postfix_defs)
  moreover have "AllTestedNodes_deserialize (AllTestedNodes_serialize sample_tested []) = Inr sample_tested"
    by (rule AllTestedNodes_roundtrip) (simp_all add: sample_tested_def AllTestedNodes_serialize_def)
  ultimately show ?thesis
    by (simp add: findAllTestedNodesForLastDay_def makeKey_def days_key_def NODE_STAT_COUNT_POSTFIX_def
        NODES_TESTED_STATS_ALL_DAY_POSTFIX_def sample_ratings_def)
qed

lemma findNodeStatRps_contents:
  assumes "leveldb_ok L contents" and "a \<noteq> []"
  shows "findNodeStatRps L a day d = NodeRps_deserialize (case contents d (rps_key a day) of None \<Rightarrow> [] | Some v \<Rightarrow> v)"
proof -
  have "makeKey [Str NODE_STAT_RPS_PREFIX, Str a, Chr NODE_STAT_RPS_POSTFIX, SerInt (- day)] = Inr (rps_key a day)"
    using assms(2) by (simp add: makeKey_Inr rps_key_def NODE_STAT_RPS_PREFIX_def)
  then show ?thesis
    by (simp add: findNodeStatRps_def findValue_contents [OF assms(1)])
qed

lemma sample_averages:
  "node_averages sample_ratings 3 1 [[1], [2]] = Inr [([1], 5), ([2], 9)]"
proof -
  have "NodeRps_deserialize (NodeRps_serialize rps []) = Inr rps" if "rps = [4, 6] \<or> rps = [9]" for rps
    using that by (intro NodeRps_roundtrip) (auto simp: NodeRps_serialize_def)
  then show ?thesis
    using findNodeStatRps_contents [OF sample_leveldb_ok]
    by (simp add: sample_ratings_def rps_key_def days_key_def prefix_defs average_exact_below_2_31) (simp flip: numeral_2_eq_2)
qed

theorem rating_by_fifths_witness:
  "\<exists>g h. calcNodeRaiting sample_ratings [1] 1 = Inr (of_nat g, 3) \<and> calcNodeRaiting sample_ratings [2] 1 = Inr (of_nat h, 3) \<and>
     0 < g \<and> g \<le> h \<and> h \<le> 5"
proof -
  let ?avgs = "[([1], 5), ([2], 9)] :: (bytes \<times> u64) list"
  have avgs: "node_averages sample_ratings (an_day sample_tested) 1 (an_nodes sample_tested) = Inr ?avgs"
    and nodes: "distinct (an_nodes sample_tested)"
    using sample_averages by (simp_all add: sample_tested_def)
  have sort: "mset (nq_sort sample_ratings ?avgs) = mset ?avgs" "sorted (map snd (nq_sort sample_ratings ?avgs))"
    by (simp_all add: sample_ratings_def)
  have "length ?avgs < 2 ^ 64" "(1 :: u64) \<noteq> 0"
    by simp_all
  from rating_by_fifths [OF sample_last_day avgs nodes this sort]
  obtain rating where
    all: "\<forall>node. calcNodeRaiting sample_ratings node 1 = Inr (of_nat (rating node), an_day sample_tested) \<and> rating node \<le> 5 \<and>
        (rating node = 0 \<longleftrightarrow> node \<notin> fst ` set ?avgs)" and
    mono: "\<forall>(n1, v1) \<in> set ?avgs. \<forall>(n2, v2) \<in> set ?avgs. v1 < v2 \<longrightarrow> rating n1 \<le> rating n2"
    by (elim exE conjE) (rule that)
  have "calcNodeRaiting sample_ratings [1] 1 = Inr (of_nat (rating [1]), 3)" "calcNodeRaiting sample_ratings [2] 1 = Inr (of_nat (rating [2]), 3)"
    "rating [1] \<noteq> 0" "rating [2] \<le> 5"
    using all by (simp_all add: sample_tested_def)
  moreover have "rating [1] \<le> rating [2]"
    using mono by simp
  ultimately show ?thesis
    by blast
qed



subsection \<open>The day zero\<close>

text \<open>C37: A defect of the last day. The tested nodes of a day are stored under the negated number of the day, so
  that the first key is the last day; but 0 is its own negation. Once nodes have been tested on day 0,
  before the first state block, their set is what every later query for the last day finds, whatever is
  stored for later days: ratings and lists of nodes stay those of day 0.\<close>

theorem day_zero_hides_later_days:
  assumes "leveldb_ok (nq_leveldb q) contents" and "holds_entries (contents (nq_database q)) days_key es" and "0 \<in> fst ` set es"
  shows "findAllTestedNodesForLastDay (nq_leveldb q) (nq_database q) = findAllTestedNodesForDay (nq_leveldb q) 0 (nq_database q) \<and>
    (\<forall>a address minTests r. findAllTestedNodesForDay (nq_leveldb q) 0 (nq_database q) = Inr a \<longrightarrow>
       calcNodeRaiting q address minTests = Inr r \<longrightarrow> snd r = an_day a)"
proof -
  obtain n v es' where es: "es = (n, v) # es'"
    using assms(3) by (cases es) auto
  have "n = 0"
    using assms(2,3) unfolding es holds_entries_def by auto
  have "contents (nq_database q) (days_key @ serializeInt n) = Some v"
    by (rule holds_entriesD [OF assms(2)]) (simp add: es)
  moreover have "findFirstOf (nq_leveldb q) days_key [] (nq_database q) = (days_key @ serializeInt n, v)"
    using findFirstOf_entries [OF assms(1) _ assms(2) [unfolded days_key_def]] by (simp add: es days_key_def postfix_defs)
  ultimately have "findAllTestedNodesForLastDay (nq_leveldb q) (nq_database q) = findAllTestedNodesForDay (nq_leveldb q) 0 (nq_database q)"
    by (simp add: findAllTestedNodesForLastDay_def findAllTestedNodesForDay_def makeKey_def findValue_contents [OF assms(1)]
        NODE_STAT_COUNT_POSTFIX_def NODES_TESTED_STATS_ALL_DAY_POSTFIX_def days_key_def \<open>n = 0\<close>)
  then show ?thesis
    by (auto simp: calcNodeRaiting_def result_simps Let_def split: option.splits)
qed

theorem day_zero_hides_later_days_witness:
  "\<exists>d. map_of d (days_key @ serializeInt (- 9 :: u64)) = Some [2] \<and>
     findAllTestedNodesForLastDay sample_leveldb d = findAllTestedNodesForDay sample_leveldb 0 d"
proof -
  let ?d = "[(days_key @ serializeInt (0 :: u64), [1]), (days_key @ serializeInt (- 9 :: u64), [2])]"
  have nil: "holds_entries Map.empty days_key []"
    by (simp add: holds_entries_def)
  have one: "holds_entries (Map.empty(days_key @ serializeInt (- 9 :: u64) \<mapsto> [2])) days_key [(- 9, [2])]"
    by (rule holds_entries_put [OF nil]) simp
  have "holds_entries (Map.empty(days_key @ serializeInt (- 9 :: u64) \<mapsto> [2], days_key @ serializeInt (0 :: u64) \<mapsto> [1])) days_key
      [(0, [1]), (- 9, [2])]"
    by (rule holds_entries_put [OF one]) (simp add: word_gt_0)
  then have entries: "holds_entries (map_of (nq_database (sample_ratings\<lparr>nq_database := ?d\<rparr>))) days_key [(0, [1]), (- 9, [2])]"
    by simp
  have ok: "leveldb_ok (nq_leveldb (sample_ratings\<lparr>nq_database := ?d\<rparr>)) map_of"
    using sample_leveldb_ok by (simp add: sample_ratings_def)
  have "0 \<in> fst ` set [(0 :: u64, [1 :: byte]), (- 9, [2])]"
    by simp
  from conjunct1 [OF day_zero_hides_later_days [OF ok entries this]]
  have "findAllTestedNodesForLastDay sample_leveldb ?d = findAllTestedNodesForDay sample_leveldb 0 ?d"
    by (simp add: sample_ratings_def)
  moreover have "map_of ?d (days_key @ serializeInt (- 9 :: u64)) = Some [2]"
    by (simp add: serializeInt_inject)
  ultimately show ?thesis
    by blast
qed

subsection \<open>One turn\<close>

fun node_stat_write :: "db_write \<Rightarrow> NodeStatBlockInfo option" where
  "node_stat_write (WNodeStatBlock v) = Some v"
| "node_stat_write _ = None"

fun day_write :: "db_write \<Rightarrow> u64 option" where
  "day_write (WNodeTestDayNumber v) = Some v"
| "day_write _ = None"

text \<open>\<open>b'\<close> is \<open>b\<close> after some writes of other records than the day and the progress of the worker.\<close>

definition other_writes :: "Batch \<Rightarrow> Batch \<Rightarrow> bool" where
  "other_writes b b' \<longleftrightarrow> (\<exists>ws. batch_writes ws b = Inr b' \<and> (\<forall>w \<in> set ws. node_stat_write w = None \<and> day_write w = None))"

lemma batch_writes_append: "batch_writes (ws @ ws') b = bindE (batch_writes ws b) (batch_writes ws')"
proof (induction ws arbitrary: b)
  case (Cons w ws)
  then show ?case
    by (cases "batch_write w b") simp_all
qed simp

lemma other_writes_refl [simp]: "other_writes b b"
  unfolding other_writes_def by (intro exI [of _ "[]"]) simp

lemma other_writes_trans: "other_writes b b1 \<Longrightarrow> other_writes b1 b2 \<Longrightarrow> other_writes b b2"
  unfolding other_writes_def by (metis (no_types, lifting) Un_iff batch_writes_append bindE.simps(2) set_append)

lemma other_write: "batch_write w b = Inr b' \<Longrightarrow> node_stat_write w = None \<Longrightarrow> day_write w = None \<Longrightarrow> other_writes b b'"
  unfolding other_writes_def by (intro exI [of _ "[w]"]) simp

lemma state_block_writes: "processStateBlock env bi tx b = Inr b' \<Longrightarrow> other_writes b b'"
  by (auto simp: processStateBlock_def result_simps split: option.splits if_splits intro: other_write [of "WNodeTestTrust _ _"])

lemma caught_Inr: "caught old r = Inr x \<Longrightarrow> x = old \<or> r = Inr x"
  by (simp add: caught_def split: sum.splits error.splits)

lemma add_test_batch [simp]: "tb_batchStates (add_test tx currDay bi r found t) = tb_batchStates t"
  by (simp add: add_test_def Let_def)

lemma test_tx_batch:
  assumes "processTestTransaction env L d currDay bi tx t = Inr t'"
  shows "tb_batchStates t' = tb_batchStates t"
proof -
  consider "t' = t" | r found where "t' = add_test tx currDay bi r found t"
    using caught_Inr [OF assms [unfolded processTestTransaction_def]] by (auto simp: bindE_Inr_iff split: option.splits)
  then show ?thesis
    by cases simp_all
qed

lemma node_test_txs_writes: "node_test_txs env L d currDay bi txs t = Inr t' \<Longrightarrow> other_writes (tb_batchStates t) (tb_batchStates t')"
proof (induction txs arbitrary: t)
  case (Cons tx txs)
  obtain t1 where t1: "node_test_tx env L d currDay bi tx t = Inr t1" "node_test_txs env L d currDay bi txs t1 = Inr t'"
    using Cons.prems by (auto simp: result_simps)
  have "other_writes (tb_batchStates t) (tb_batchStates t1)"
    using t1(1) test_tx_batch [of env L d currDay bi tx t]
    by (auto simp: node_test_tx_def result_simps split: if_splits intro: state_block_writes)
  then show ?case
    using Cons.IH [OF t1(2)] by (rule other_writes_trans)
qed simp

lemma save_rps_writes: "save_rps L d currDay rs b = Inr b' \<Longrightarrow> other_writes b b'"
proof (induction L d currDay rs b rule: save_rps.induct)
  case (2 L d currDay address rps rs b)
  obtain old b1 where b1: "addNodeTestRpsForDay address (old @ rps) currDay b = Inr b1" "save_rps L d currDay rs b1 = Inr b'"
    and old: "findNodeStatRps L address currDay d = Inr old"
    using "2.prems" by (auto simp: bindE_Inr_iff)
  have "other_writes b b1"
    using b1(1) by (intro other_write [of "WNodeTestRpsForDay address (old @ rps) currDay"]) simp_all
  then show ?case
    using "2.IH" [OF b1(2)] by (rule other_writes_trans)
qed simp

lemma save_last_results_writes: "save_last_results rs b = Inr b' \<Longrightarrow> other_writes b b'"
proof (induction rs b rule: save_last_results.induct)
  case (2 address res rs b)
  obtain b1 where b1: "addNodeTestLastResults address res b = Inr b1" "save_last_results rs b1 = Inr b'"
    using "2.prems" by (auto simp: bindE_Inr_iff)
  have "other_writes b b1"
    using b1(1) by (intro other_write [of "WNodeTestLastResults address res"]) simp_all
  then show ?case
    using "2.IH" [OF b1(2)] by (rule other_writes_trans)
qed simp

lemma last_write_append: "last_write sel (ws @ ws') = (case last_write sel ws' of None \<Rightarrow> last_write sel ws | Some v \<Rightarrow> Some v)"
  by (induction ws' rule: rev_induct) (auto simp: last_write_snoc simp flip: append_assoc split: option.splits, simp add: last_write_def)

lemma last_write_short: "last_write sel [] = None" "last_write sel [w] = sel w"
  by (simp_all add: last_write_def split: option.split)

lemma last_write_none: "\<forall>w \<in> set ws. sel w = None \<Longrightarrow> last_write sel ws = None"
  by (induction ws rule: rev_induct) (simp_all add: last_write_snoc, simp add: last_write_def)

lemma finish_tests_writes:
  assumes "finish_tests L d day h n t = Inr b" and "other_writes Batch_new (tb_batchStates t)"
  shows "\<exists>ws. batch_writes ws Batch_new = Inr b \<and>
    last_write node_stat_write ws = Some \<lparr>mb_blockNumber = n, mb_blockHash = bh_hash h, mb_countVal = 0\<rparr> \<and>
    last_write day_write ws = (if isStateBlock h then Some (day + 1) else None)"
proof -
  let ?v = "\<lparr>mb_blockNumber = n, mb_blockHash = bh_hash h, mb_countVal = 0\<rparr>"
  obtain b1 b2 b3 b4 b5 where
    b1: "(if isStateBlock h then addNodeTestDayNumber (day + 1) (tb_batchStates t) else Inr (tb_batchStates t)) = Inr b1" and
    b2: "save_rps L d day (tb_nodesRps t) b1 = Inr b2" and b3: "save_last_results (tb_lastNodesTests t) b2 = Inr b3" and
    b4: "(if an_nodes (tb_allNodesForDay t) = [] then Inr b3
            else bindE (findAllTestedNodesForDay L day d) (\<lambda>old.
                 addAllTestedNodesForDay ((AllTestedNodes_plus old (tb_allNodesForDay t))\<lparr>an_day := day\<rparr>) day b3)) = Inr b4" and
    b5: "(if tb_allNodes t = [] then Inr b4
            else bindE (findAllNodes L d) (\<lambda>old. addAllNodes (AllNodes_plus old (tb_allNodes t)) b4)) = Inr b5" and
    b: "addNodeStatBlock ?v b5 = Inr b"
    using assms(1) unfolding finish_tests_def by (auto simp only: bindE_Inr_iff)
  obtain ws0 where ws0: "batch_writes ws0 Batch_new = Inr (tb_batchStates t)"
      "\<forall>w \<in> set ws0. node_stat_write w = None \<and> day_write w = None"
    using assms(2) unfolding other_writes_def by blast
  let ?day = "if isStateBlock h then [WNodeTestDayNumber (day + 1)] else []"
  have day: "batch_writes ?day (tb_batchStates t) = Inr b1"
    using b1 by (simp split: if_splits)
  have "other_writes b3 b4"
    using b4 by (auto simp: bindE_Inr_iff split: if_splits intro: other_write [of "WAllTestedNodesForDay _ _"])
  moreover have "other_writes b4 b5"
    using b5 by (auto simp: bindE_Inr_iff split: if_splits intro: other_write [of "WAllNodes _"])
  ultimately have "other_writes b1 b5"
    using save_rps_writes [OF b2] save_last_results_writes [OF b3] other_writes_trans by blast
  then obtain ws1 where ws1: "batch_writes ws1 b1 = Inr b5" "\<forall>w \<in> set ws1. node_stat_write w = None \<and> day_write w = None"
    unfolding other_writes_def by blast
  have none: "last_write node_stat_write ws0 = None" "last_write day_write ws0 = None"
    "last_write node_stat_write ws1 = None" "last_write day_write ws1 = None"
    using ws0(2) ws1(2) by (simp_all add: last_write_none)
  let ?ws = "ws0 @ ?day @ ws1 @ [WNodeStatBlock ?v]"
  have "batch_writes ?ws Batch_new = Inr b"
    using b by (simp only: batch_writes_append ws0(1) day ws1(1) bindE.simps) simp
  moreover have "last_write node_stat_write ?ws = Some ?v" "last_write day_write ?ws = (if isStateBlock h then Some (day + 1) else None)"
    by (simp_all add: last_write_append none last_write_short)
  ultimately show ?thesis
    by blast
qed

lemma block_tests_writes:
  assumes "block_tests env L bi d = Inr (Some b)" and "findNodeStatDayNumber L d = Inr day"
  shows "\<exists>n last ws. bh_blockNumber (bi_header bi) = Some n \<and> findNodeStatBlock L d = Inr last \<and> mb_blockNumber last < n \<and>
    (mb_blockHash last = [] \<or> mb_blockHash last = bh_prevHash (bi_header bi)) \<and> batch_writes ws Batch_new = Inr b \<and>
    last_write node_stat_write ws = Some \<lparr>mb_blockNumber = n, mb_blockHash = bh_hash (bi_header bi), mb_countVal = 0\<rparr> \<and>
    last_write day_write ws = (if isStateBlock (bi_header bi) then Some (day + 1) else None)"
proof -
  obtain last n t where last: "findNodeStatBlock L d = Inr last" and n: "bh_blockNumber (bi_header bi) = Some n"
    "mb_blockNumber last < n" "mb_blockHash last = [] \<or> mb_blockHash last = bh_prevHash (bi_header bi)" and
    t: "node_test_txs env L d day bi (bi_txs bi) TestsOfBlock_new = Inr t" and b: "finish_tests L d day (bi_header bi) n t = Inr b"
    using assms unfolding block_tests_def
    by (auto simp: bindE_Inr_iff CHECK_Inr_iff not_le split: option.splits if_splits)
  have "other_writes Batch_new (tb_batchStates t)"
    using node_test_txs_writes [OF t] by (simp add: TestsOfBlock_new_def)
  from finish_tests_writes [OF b this] last n show ?thesis
    by blast
qed

lemma node_stat_key: "wr_prefix w = NODE_STAT_BLOCK_NUMBER_PREFIX \<and> wr_rest w = [] \<longleftrightarrow> node_stat_write w \<noteq> None"
  and day_key: "wr_prefix w = NODE_STAT_DAY_NUMBER \<and> wr_rest w = [] \<longleftrightarrow> day_write w \<noteq> None"
  by (cases w; simp add: prefix_defs)+

lemma node_stat_value: "node_stat_write w = Some v \<Longrightarrow> wr_value w = bindE (NodeStatBlockInfo_serialize v) (\<lambda>bs. Inr (Some bs))"
  and day_value: "day_write w = Some n \<Longrightarrow> wr_value w = bindE (Inr (NodeTestDayNumber_serialize n)) (\<lambda>bs. Inr (Some bs))"
  by (cases w; simp)+

text \<open>C18: A block is counted once, and a state block ends the day. When a turn has saved a block, its number
  and hash are the stored progress of the worker, the number was greater than the stored one and the
  parent the stored block; the day has advanced by one exactly if it was a state block; and every further
  turn with this block or one before it changes nothing, also after a restart, which reads the progress
  from the same database.\<close>

theorem node_tests_counted_once:
  assumes "leveldb_ok L contents" and "node_test_turn env L bi d = (Saved, d')" and "findNodeStatDayNumber L d = Inr day"
    and "length (bh_hash (bi_header bi)) < 2 ^ 63"
  shows "\<exists>n last. bh_blockNumber (bi_header bi) = Some n \<and> findNodeStatBlock L d = Inr last \<and> mb_blockNumber last < n \<and>
     (mb_blockHash last = [] \<or> mb_blockHash last = bh_prevHash (bi_header bi)) \<and>
     findNodeStatBlock L d' = Inr \<lparr>mb_blockNumber = n, mb_blockHash = bh_hash (bi_header bi), mb_countVal = 0\<rparr> \<and>
     findNodeStatDayNumber L d' = Inr (if isStateBlock (bi_header bi) then day + 1 else day) \<and>
     getInitBlockNumber_tests L d' = Inr (Some n) \<and>
     (\<forall>bi' m. bh_blockNumber (bi_header bi') = Some m \<longrightarrow> m \<le> n \<longrightarrow> node_test_turn env L bi' d' = (Skipped, d'))"
proof -
  obtain b where b: "block_tests env L bi d = Inr (Some b)" "addBatch L b d = (d', Inr ())"
    using assms(2) unfolding node_test_turn_def by (auto split: sum.splits option.splits prod.splits)
  obtain n last ws where n: "bh_blockNumber (bi_header bi) = Some n" "findNodeStatBlock L d = Inr last" "mb_blockNumber last < n"
      "mb_blockHash last = [] \<or> mb_blockHash last = bh_prevHash (bi_header bi)" and ws: "batch_writes ws Batch_new = Inr b"
      "last_write node_stat_write ws = Some \<lparr>mb_blockNumber = n, mb_blockHash = bh_hash (bi_header bi), mb_countVal = 0\<rparr>"
      "last_write day_write ws = (if isStateBlock (bi_header bi) then Some (day + 1) else None)"
    using block_tests_writes [OF b(1) assms(3)] by blast
  let ?v = "\<lparr>mb_blockNumber = n, mb_blockHash = bh_hash (bi_header bi), mb_countVal = 0\<rparr>"
  note commit = assms(1) ws(1) b(2)
  have known: "NODE_STAT_BLOCK_NUMBER_PREFIX \<in> set all_prefixes" "NODE_STAT_DAY_NUMBER \<in> set all_prefixes"
    by (simp_all add: all_prefixes_def)
  have "bindE (NodeStatBlockInfo_serialize ?v) (\<lambda>bs. Inr (Some bs)) = Inr (contents d' (NODE_STAT_BLOCK_NUMBER_PREFIX @ []))"
    by (rule batch_contents(2) [OF commit known(1) node_stat_key node_stat_value ws(2)])
  then obtain bs where bs: "NodeStatBlockInfo_serialize ?v = Inr bs"
    by (cases "NodeStatBlockInfo_serialize ?v") auto
  have "length bs < 2 ^ 64"
    using bs assms(4) by (auto simp: NodeStatBlockInfo_serialize_def serializeVector_def result_simps)
  from NodeStatBlockInfo_roundtrip [OF bs this]
  have stat: "findNodeStatBlock L d' = Inr ?v"
    using batch_reread [OF commit known(1) node_stat_key node_stat_value, where des = NodeStatBlockInfo_deserialize] ws(2) bs
    by (simp add: findNodeStatBlock_def reread_def)
  have "NodeTestDayNumber_deserialize (NodeTestDayNumber_serialize m) = Inr m" for m
    using decodes_whole [OF decodes_u64, of m]
    by (auto simp: NodeTestDayNumber_deserialize_def NodeTestDayNumber_serialize_def)
  then have days: "findNodeStatDayNumber L d' = Inr (if isStateBlock (bi_header bi) then day + 1 else day)"
    using batch_reread [OF commit known(2) day_key day_value, where des = NodeTestDayNumber_deserialize] ws(3) assms(3)
    by (simp add: findNodeStatDayNumber_def reread_def split: if_splits)
  have "node_test_turn env L bi' d' = (Skipped, d')" if "bh_blockNumber (bi_header bi') = Some m" "m \<le> n" for bi' m
    using that by (simp add: node_test_turn_def block_tests_def stat)
  then show ?thesis
    using n stat days by (simp add: getInitBlockNumber_tests_def)
qed

definition sample_state_block :: BlockInfo where
  "sample_state_block = \<lparr>bi_header = BlockHeader_default\<lparr>bh_blockNumber := Some 1, bh_hash := [7], bh_blockType := BLOCK_TYPE_STATE\<rparr>, bi_txs = []\<rparr>"

theorem node_tests_counted_once_witness:
  "\<exists>d. node_test_turn (nq_env sample_ratings) sample_leveldb sample_state_block [] = (Saved, d) \<and>
     findNodeStatDayNumber sample_leveldb d = Inr 1 \<and>
     node_test_turn (nq_env sample_ratings) sample_leveldb sample_state_block d = (Skipped, d)"
proof -
  have day: "findNodeStatDayNumber sample_leveldb [] = Inr 0"
    by (simp add: findNodeStatDayNumber_def findValue_contents [OF sample_leveldb_ok] NodeTestDayNumber_deserialize_def)
  have stat: "findNodeStatBlock sample_leveldb [] = Inr MainBlockInfo_default"
    by (simp add: findNodeStatBlock_def findValue_contents [OF sample_leveldb_ok] NodeStatBlockInfo_deserialize_def)
  have "\<exists>b. block_tests (nq_env sample_ratings) sample_leveldb sample_state_block [] = Inr (Some b)"
    by (simp add: block_tests_def stat day sample_state_block_def MainBlockInfo_default_def finish_tests_def TestsOfBlock_new_def
        isStateBlock_def AllTestedNodes_make_def batch_defs addKey_def NodeStatBlockInfo_serialize_def)
  then obtain b where "block_tests (nq_env sample_ratings) sample_leveldb sample_state_block [] = Inr (Some b)" by blast
  then have turn: "node_test_turn (nq_env sample_ratings) sample_leveldb sample_state_block [] = (Saved, fold store_apply (wb_batch b) [])"
    by (simp add: node_test_turn_def addBatch_def sample_leveldb_def)
  from node_tests_counted_once [OF sample_leveldb_ok turn day] turn show ?thesis
    by (auto simp: sample_state_block_def isStateBlock_def)
qed

end
