(* ===== verification/WorkerScript.thy ===== *)
theory WorkerScript
  imports WorkerMain Json
begin

section \<open>The V8 server (generate\_json\_v8)\<close>

text \<open>
  Contracts are compiled and run by a separate server. The network is a state that every request
  changes; \<open>v8_request\<close> takes the address and the data of a POST request. The address of the server is
  a static variable, here an argument.
\<close>

record 'n v8_net =
  v8_request :: "bytes \<Rightarrow> bytes \<Rightarrow> 'n \<Rightarrow> 'n \<times> bytes result"
  v8_json :: json_lib
  v8_fromHex :: "bytes \<Rightarrow> bytes result"

definition setV8Server :: "'n v8_net \<Rightarrow> bytes \<Rightarrow> bool \<Rightarrow> 'n \<Rightarrow> 'n \<times> bytes result" where
  "setV8Server N server isCheck net =
     (if server = [] then (net, Inl Undefined)
      else
        let v8server = (if last server \<noteq> of_char CHR ''/'' then server @ lit ''/'' else server)
        in if isCheck
           then case v8_request N (v8server @ lit ''?act=status'') [] net of
                  (net, answer) \<Rightarrow>
                    (net, bindE answer (\<lambda>answer. bindE (CHECK (answer \<noteq> []) ''v8 server not found'') (\<lambda>_. Inr v8server)))
           else (net, Inr v8server))"

definition requestCurl :: "'n v8_net \<Rightarrow> bytes \<Rightarrow> bytes \<Rightarrow> bytes \<Rightarrow> 'n \<Rightarrow> 'n \<times> json result" where
  "requestCurl N v8server getData postData net =
     (case bindE (CHECK (v8server \<noteq> []) ''v8server not set'') (\<lambda>_.
           CHECK (getData \<noteq> [] \<and> hd getData \<noteq> of_char CHR ''/'') ''Incorrect get data'') of
        Inl e \<Rightarrow> (net, Inl e)
      | Inr _ \<Rightarrow>
          (case v8_request N (v8server @ getData) postData net of
             (net, answer) \<Rightarrow>
               (net, bindE answer (\<lambda>buffer.
                     case jl_parse (v8_json N) (c_str buffer) of
                       None \<Rightarrow> Inl (Check ''rapidjson parse error. Data: '')
                     | Some doc \<Rightarrow> Inr doc))))"

text \<open>\<open>v.HasMember(name) && v[name].Is...()\<close>, and the member.\<close>

definition member_if :: "(json \<Rightarrow> bool) \<Rightarrow> bytes \<Rightarrow> json \<Rightarrow> json option result" where
  "member_if is name v =
     bindE (HasMember name v) (\<lambda>has.
     if \<not> has then Inr None
     else bindE (json_at name v) (\<lambda>x. Inr (if is x then Some x else None)))"

definition need_member :: "(json \<Rightarrow> bool) \<Rightarrow> bytes \<Rightarrow> string \<Rightarrow> json \<Rightarrow> json result" where
  "need_member is name msg v =
     bindE (member_if is name v) (\<lambda>x. case x of None \<Rightarrow> Inl (Check msg) | Some x \<Rightarrow> Inr x)"

definition parse_state_result :: "'n v8_net \<Rightarrow> json \<Rightarrow> V8State result" where
  "parse_state_result N doc =
     bindE (json_at (lit ''result'') doc) (\<lambda>paramsJson.
     bindE (CHECK (IsObject paramsJson) ''result field not found'') (\<lambda>_.
     bindE (need_member IsString (lit ''state'') ''state field not found'' paramsJson) (\<lambda>st.
     bindE (member_if IsString (lit ''address'') paramsJson) (\<lambda>hex.
     bindE (case hex of
              None \<Rightarrow> Inr Address_default
            | Some hex \<Rightarrow>
                if GetString hex = [] then Inr Address_default else Address_of_hex (v8_fromHex N) (GetString hex)) (\<lambda>address.
     bindE (member_if IsObject (lit ''contractdump'') paramsJson) (\<lambda>dump.
     Inr ((V8State_make 0)\<lparr>vs_state := GetString st, vs_address := address,
       vs_details := (case dump of None \<Rightarrow> [] | Some dump \<Rightarrow> jl_print (v8_json N) None dump)\<rparr>)))))))"

definition parse_state_error :: "json \<Rightarrow> V8State result" where
  "parse_state_error doc =
     bindE (need_member IsObject (lit ''error'') ''error field not found'' doc) (\<lambda>errorJson.
     bindE (need_member IsInt (lit ''code'') ''code field not found'' errorJson) (\<lambda>code.
     bindE (need_member IsString (lit ''message'') ''message field not found'' errorJson) (\<lambda>message.
     let errorCode = GetInt code;
         result = (V8State_make 0)\<lparr>vs_errorCode := errorCode, vs_errorMessage := GetString message\<rparr>
     in if 1000 \<le> errorCode \<and> errorCode < 2000 then Inr (result\<lparr>vs_errorType := USER_ERROR\<rparr>)
        else if 2000 \<le> errorCode \<and> errorCode < 3000 then Inr (result\<lparr>vs_errorType := SCRIPT_ERROR\<rparr>)
        else if 3000 \<le> errorCode \<and> errorCode < 4000 then Inr (result\<lparr>vs_errorType := SERVER_ERROR\<rparr>)
        else Inl (Check ''Incorrect error code: ''))))"

definition parseState :: "'n v8_net \<Rightarrow> json \<Rightarrow> V8State result" where
  "parseState N doc =
     bindE (HasMember (lit ''result'') doc) (\<lambda>has.
     if has then parse_state_result N doc else parse_state_error doc)"

definition v8_message :: "'n v8_net \<Rightarrow> bytes \<Rightarrow> bytes \<Rightarrow> bytes \<Rightarrow> bytes \<Rightarrow> bytes \<Rightarrow> json \<Rightarrow> bytes" where
  "v8_message N method transaction hexAddress pubkey sign stateJson =
     (let J = v8_json N; hex = (\<lambda>s. jl_strToJson J (jl_toHex J s))
      in jl_print J (Some False) (JObject
           [(lit ''id'', JInt 1), (lit ''version'', JString (lit ''1.0.0'')), (lit ''method'', JString method),
            (lit ''params'', JObject
              [(lit ''transaction'', hex transaction), (lit ''sign'', hex sign), (lit ''pubkey'', hex pubkey),
               (lit ''address'', jl_strToJson J hexAddress), (lit ''state'', stateJson), (lit ''isDetails'', JBool True)])]))"

definition requestTransaction ::
  "'n v8_net \<Rightarrow> bytes \<Rightarrow> bytes \<Rightarrow> bytes \<Rightarrow> bytes \<Rightarrow> Address \<Rightarrow> bytes \<Rightarrow> bytes \<Rightarrow> json \<Rightarrow> 'n \<Rightarrow> 'n \<times> V8State result" where
  "requestTransaction N v8server get method transaction address pubkey sign stateJson net =
     (case calcHexString (jl_toHex (v8_json N)) address of
        Inl e \<Rightarrow> (net, Inl e)
      | Inr hexAddress \<Rightarrow>
          (case requestCurl N v8server get (v8_message N method transaction hexAddress pubkey sign stateJson) net of
             (net, doc) \<Rightarrow> (net, bindE doc (parseState N))))"

definition requestCompileTransaction ::
  "'n v8_net \<Rightarrow> bytes \<Rightarrow> bytes \<Rightarrow> Address \<Rightarrow> bytes \<Rightarrow> bytes \<Rightarrow> 'n \<Rightarrow> 'n \<times> V8State result" where
  "requestCompileTransaction N v8server transaction address pubkey sign net =
     requestTransaction N v8server (lit ''?act=compile'') (lit ''compile'') transaction address pubkey sign (JString []) net"

definition requestRunTransaction ::
  "'n v8_net \<Rightarrow> bytes \<Rightarrow> V8State \<Rightarrow> bytes \<Rightarrow> Address \<Rightarrow> bytes \<Rightarrow> bytes \<Rightarrow> 'n \<Rightarrow> 'n \<times> V8State result" where
  "requestRunTransaction N v8server st transaction address pubkey sign net =
     requestTransaction N v8server (lit ''?act=cmdrun'') (lit ''cmdrun'') transaction address pubkey sign
       (jl_strToJson (v8_json N) (vs_state st)) net"

section \<open>The worker of contracts (Workers/WorkerScript)\<close>

text \<open>
  The worker keeps the states of the contracts in a database of its own. The status of a transaction is
  written to the database of the node at once, not with the batch: another worker may rewrite its cache.

  A step of a turn changes the network, the database of the node, the cache of statuses and the batch;
  it may read the database of the contracts.
\<close>

record 'd script_env =
  se_leveldb :: "'d leveldb"
  se_modules :: Modules
  se_v8server :: bytes

record ('n, 'd) ScriptRun =
  sr_net :: 'n
  sr_leveldb :: 'd
  sr_statusCache :: "TransactionStatus Cache"
  sr_batchStates :: Batch

type_synonym ('n, 'd, 'a) script_step = "('n, 'd) ScriptRun \<Rightarrow> 'a result \<times> ('n, 'd) ScriptRun"

definition returnS :: "'a \<Rightarrow> ('n, 'd, 'a) script_step" where
  "returnS x s = (Inr x, s)"

definition bindS :: "('n, 'd, 'a) script_step \<Rightarrow> ('a \<Rightarrow> ('n, 'd, 'b) script_step) \<Rightarrow> ('n, 'd, 'b) script_step" where
  "bindS f g s = (case f s of (Inl e, s') \<Rightarrow> (Inl e, s') | (Inr x, s') \<Rightarrow> g x s')"

definition liftS :: "'a result \<Rightarrow> ('n, 'd, 'a) script_step" where
  "liftS r s = (r, s)"

definition requestS :: "('n \<Rightarrow> 'n \<times> 'a result) \<Rightarrow> ('n, 'd, 'a) script_step" where
  "requestS f s = (case f (sr_net s) of (net, r) \<Rightarrow> (r, s\<lparr>sr_net := net\<rparr>))"

definition saveS :: "('d \<Rightarrow> 'd \<times> 'a result) \<Rightarrow> ('n, 'd, 'a) script_step" where
  "saveS f s = (case f (sr_leveldb s) of (d, r) \<Rightarrow> (r, s\<lparr>sr_leveldb := d\<rparr>))"

definition batchS :: "(Batch \<Rightarrow> Batch result) \<Rightarrow> ('n, 'd, unit) script_step" where
  "batchS f s = (case f (sr_batchStates s) of Inl e \<Rightarrow> (Inl e, s) | Inr b \<Rightarrow> (Inr (), s\<lparr>sr_batchStates := b\<rparr>))"

text \<open>\<open>v8StateToTxStatus\<close>: a script error and a server error.\<close>

definition v8StateToTxStatus :: "V8State \<Rightarrow> (bool \<times> bool) result" where
  "v8StateToTxStatus st =
     bindE (CHECK (vs_errorType st \<noteq> USER_ERROR) ''User error '') (\<lambda>_.
     Inr (vs_errorType st = SCRIPT_ERROR, vs_errorType st = SERVER_ERROR))"

definition findV8StateF :: "'d leveldb \<Rightarrow> 'd \<Rightarrow> Address \<Rightarrow> ('n, 'd, bool \<times> V8State) script_step" where
  "findV8StateF L d address =
     bindS (liftS (getBinaryString address)) (\<lambda>key s.
       (bindE (Batch_findV8State key (sr_batchStates s)) (\<lambda>found.
        case found of
          Some st \<Rightarrow> Inr (True, st)
        | None \<Rightarrow> bindE (findV8State L key d) (\<lambda>st. Inr (False, st))), s))"

definition addDetails :: "Address \<Rightarrow> bytes \<Rightarrow> bytes \<Rightarrow> ('n, 'd, unit) script_step" where
  "addDetails address details lastError =
     bindS (liftS (toBdString address)) (\<lambda>key.
     batchS (addV8Details key \<lparr>vd_details = details, vd_lastError = lastError\<rparr>))"

text \<open>The block has been processed before, in another run: \<open>continue\<close>.\<close>

definition is_old :: "u64 \<Rightarrow> bool \<Rightarrow> V8State \<Rightarrow> bool" where
  "is_old blockNumber isBatch prevV8State =
     (vs_state prevV8State \<noteq> [] \<and> blockNumber \<le> vs_blockNumber prevV8State \<and> \<not> isBatch)"

text \<open>The three branches return the status of the transaction, \<open>None\<close> for \<open>continue\<close>.\<close>

definition compile_tx ::
  "'n v8_net \<Rightarrow> 'd script_env \<Rightarrow> 'd \<Rightarrow> u64 \<Rightarrow> TransactionInfo \<Rightarrow> bytes \<Rightarrow> ('n, 'd, StatusVariant option) script_step" where
  "compile_tx N env d blockNumber tx txRaw =
     bindS (requestS (requestCompileTransaction N (se_v8server env) txRaw (tx_fromAddress tx) (tx_pubKey tx) (tx_sign tx))) (\<lambda>answer.
     let isOk = (vs_errorType answer = V8_OK);
         compileState = answer\<lparr>vs_blockNumber := blockNumber, vs_address := (if isOk then vs_address answer else tx_toAddress tx)\<rparr>;
         address = vs_address compileState
     in
     bindS (liftS (isEmpty address)) (\<lambda>empty.
     bindS (liftS (CHECK (\<not> empty) ''Empty calculated contract address'')) (\<lambda>_.
     bindS (liftS (v8StateToTxStatus compileState)) (\<lambda>(scriptError, serverError).
     bindS (findV8StateF (se_leveldb env) d address) (\<lambda>(isBatch, prevV8State).
     if is_old blockNumber isBatch prevV8State then returnS None
     else if vs_state prevV8State \<noteq> []
     then bindS (addDetails address (vs_details prevV8State) (lit ''status exist on tx'')) (\<lambda>_.
          returnS (Some (V8Status serverError True address)))
     else if \<not> isOk
     then bindS (addDetails address (vs_details prevV8State) (vs_errorMessage compileState)) (\<lambda>_.
          returnS (Some (V8Status serverError scriptError address)))
     else
       bindS (liftS (toBdString address)) (\<lambda>key.
       bindS (batchS (addV8State key compileState)) (\<lambda>_.
       bindS (addDetails address (vs_details compileState) []) (\<lambda>_.
       bindS (batchS (addV8Code key \<lparr>vc_code = tx_data tx\<rparr>)) (\<lambda>_.
       returnS (Some (V8Status serverError scriptError address)))))))))))"

definition not_found :: "u64 \<Rightarrow> bytes \<Rightarrow> V8State" where
  "not_found blockNumber message = (V8State_make blockNumber)\<lparr>vs_errorMessage := message, vs_errorType := SCRIPT_ERROR\<rparr>"

definition run_tx ::
  "'n v8_net \<Rightarrow> 'd script_env \<Rightarrow> 'd \<Rightarrow> u64 \<Rightarrow> TransactionInfo \<Rightarrow> bytes \<Rightarrow> ('n, 'd, StatusVariant option) script_step" where
  "run_tx N env d blockNumber tx txRaw =
     (let contractAddress = tx_toAddress tx
      in
      bindS (findV8StateF (se_leveldb env) d contractAddress) (\<lambda>(isBatch, prevState).
      if is_old blockNumber isBatch prevState then returnS None
      else
        bindS (if vs_state prevState \<noteq> []
               then bindS (requestS (requestRunTransaction N (se_v8server env) prevState txRaw (tx_fromAddress tx) (tx_pubKey tx) (tx_sign tx)))
                      (\<lambda>answer. returnS (answer\<lparr>vs_blockNumber := blockNumber\<rparr>))
               else bindS (liftS (calcHexString (jl_toHex (v8_json N)) contractAddress)) (\<lambda>hex.
                    returnS (not_found blockNumber (lit ''Not found compile transaction on address '' @ hex)))) (\<lambda>runState.
        bindS (liftS (v8StateToTxStatus runState)) (\<lambda>(scriptError, serverError).
        bindS (if vs_errorType runState \<noteq> V8_OK
               then addDetails contractAddress (vs_details prevState) (vs_errorMessage runState)
               else
                 bindS (liftS (toBdString contractAddress)) (\<lambda>key.
                 bindS (batchS (addV8State key runState)) (\<lambda>_.
                 addDetails contractAddress (vs_details runState) []))) (\<lambda>_.
        returnS (Some (V8Status serverError scriptError contractAddress)))))))"

definition unknown_tx ::
  "'n v8_net \<Rightarrow> 'd script_env \<Rightarrow> 'd \<Rightarrow> u64 \<Rightarrow> TransactionInfo \<Rightarrow> ('n, 'd, StatusVariant option) script_step" where
  "unknown_tx N env d blockNumber tx =
     (let contractAddress = tx_toAddress tx
      in
      bindS (liftS (calcHexString (jl_toHex (v8_json N)) contractAddress)) (\<lambda>hex.
      let runState = not_found blockNumber (lit ''Not found body contract on address '' @ hex)
      in
      bindS (liftS (v8StateToTxStatus runState)) (\<lambda>(scriptError, serverError).
      bindS (findV8StateF (se_leveldb env) d contractAddress) (\<lambda>(isBatch, prevState).
      if is_old blockNumber isBatch prevState then returnS None
      else
        bindS (addDetails contractAddress (vs_details prevState) (vs_errorMessage runState)) (\<lambda>_.
        returnS (Some (V8Status serverError scriptError contractAddress)))))))"

definition status_toLeveldb :: "'d script_env \<Rightarrow> Address \<Rightarrow> TransactionInfo \<Rightarrow> TransactionStatus \<Rightarrow> ('n, 'd, unit) script_step" where
  "status_toLeveldb env address tx status =
     bindS (liftS (isInitialWallet address)) (\<lambda>initial.
     if initial then returnS ()
     else
       bindS (liftS (toBdString address)) (\<lambda>addrString.
       if MODULE_ADDR_TXS (se_modules env)
       then saveS (saveAddressStatus (se_leveldb env) (makeAddressStatusKey addrString (tx_hash tx)) status)
       else returnS ()))"

definition save_tx_status ::
  "'d script_env \<Rightarrow> u64 \<Rightarrow> TransactionInfo \<Rightarrow> StatusVariant \<Rightarrow> ('n, 'd, unit) script_step" where
  "save_tx_status env blockNumber tx status =
     (let txStatus = \<lparr>ts_isSuccess = (\<not> v8_isScriptError status \<and> \<not> v8_isServerError status), ts_transaction = tx_hash tx,
            ts_blockNumber = tx_blockNumber tx, ts_status = status\<rparr>
      in
      bindS (status_toLeveldb env (tx_fromAddress tx) tx txStatus) (\<lambda>_.
      bindS (liftS (Address_eq (tx_fromAddress tx) (tx_toAddress tx))) (\<lambda>same.
      bindS (if same then returnS () else status_toLeveldb env (tx_toAddress tx) tx txStatus) (\<lambda>_.
      if MODULE_TXS (se_modules env)
      then bindS (\<lambda>s. (Inr (), s\<lparr>sr_statusCache := addValue (tx_hash tx) (WorkerBase.to_string blockNumber) txStatus (sr_statusCache s)\<rparr>)) (\<lambda>_.
           saveS (saveTransactionStatus (se_leveldb env) (tx_hash tx) txStatus))
      else returnS ()))))"

definition script_tx ::
  "'n v8_net \<Rightarrow> 'd script_env \<Rightarrow> 'd \<Rightarrow> u64 \<Rightarrow> TransactionInfo \<Rightarrow> ('n, 'd, unit) script_step" where
  "script_tx N env d blockNumber tx =
     (case tx_scriptInfo tx of
        None \<Rightarrow> returnS ()
      | Some info \<Rightarrow>
          bindS (case si_type info of
                   compile \<Rightarrow> compile_tx N env d blockNumber tx (si_txRaw info)
                 | run \<Rightarrow> run_tx N env d blockNumber tx (si_txRaw info)
                 | pay \<Rightarrow> run_tx N env d blockNumber tx (si_txRaw info)
                 | unknown \<Rightarrow> unknown_tx N env d blockNumber tx) (\<lambda>status.
          case status of None \<Rightarrow> returnS () | Some status \<Rightarrow> save_tx_status env blockNumber tx status))"

fun script_txs ::
  "'n v8_net \<Rightarrow> 'd script_env \<Rightarrow> 'd \<Rightarrow> u64 \<Rightarrow> TransactionInfo list \<Rightarrow> ('n, 'd, unit) script_step" where
  "script_txs N env d blockNumber [] = returnS ()"
| "script_txs N env d blockNumber (tx # txs) =
     bindS (script_tx N env d blockNumber tx) (\<lambda>_. script_txs N env d blockNumber txs)"

text \<open>Whether the block is new.\<close>

definition script_start :: "'d leveldb \<Rightarrow> BlockInfo \<Rightarrow> 'd \<Rightarrow> u64 option result" where
  "script_start L bi d =
     bindE (findScriptBlock L d) (\<lambda>lastScriptBlock.
     case bh_blockNumber (bi_header bi) of
       None \<Rightarrow> Inl OutOfRange
     | Some blockNumber \<Rightarrow>
         if blockNumber \<le> mb_blockNumber lastScriptBlock then Inr None
         else
           bindE (CHECK (mb_blockHash lastScriptBlock = [] \<or> mb_blockHash lastScriptBlock = bh_prevHash (bi_header bi))
                   ''Incorrect prev hash. Expected '') (\<lambda>_. Inr (Some blockNumber)))"

text \<open>What outlives a turn: the network, both databases and the cache.\<close>

record ('n, 'd) ScriptState =
  sw_net :: 'n
  sw_leveldbV8 :: 'd
  sw_leveldb :: 'd
  sw_statusCache :: "TransactionStatus Cache"

definition script_turn ::
  "'n v8_net \<Rightarrow> 'd script_env \<Rightarrow> BlockInfo \<Rightarrow> ('n, 'd) ScriptState \<Rightarrow> outcome \<times> ('n, 'd) ScriptState" where
  "script_turn N env bi w =
     (let L = se_leveldb env; d = sw_leveldbV8 w
      in case script_start L bi d of
           Inl e \<Rightarrow> (Failed e, w)
         | Inr None \<Rightarrow> (Skipped, w)
         | Inr (Some blockNumber) \<Rightarrow>
             (case bindS (if isSimpleBlock (bi_header bi) then script_txs N env d blockNumber (bi_txs bi) else returnS ()) (\<lambda>_.
                   batchS (addScriptBlock \<lparr>mb_blockNumber = blockNumber, mb_blockHash = bh_hash (bi_header bi), mb_countVal = 0\<rparr>))
                   \<lparr>sr_net = sw_net w, sr_leveldb = sw_leveldb w, sr_statusCache = sw_statusCache w, sr_batchStates = Batch_new\<rparr> of
                (r, s) \<Rightarrow>
                  let w = w\<lparr>sw_net := sr_net s, sw_leveldb := sr_leveldb s, sw_statusCache := sr_statusCache s\<rparr>
                  in case r of
                       Inl e \<Rightarrow> (Failed e, w)
                     | Inr _ \<Rightarrow>
                         (case addBatch L (sr_batchStates s) d of
                            (d', Inl e) \<Rightarrow> (Failed e, w\<lparr>sw_leveldbV8 := d'\<rparr>)
                          | (d', Inr _) \<Rightarrow> (Saved, w\<lparr>sw_leveldbV8 := d'\<rparr>))))"

definition getInitBlockNumber_script :: "'d leveldb \<Rightarrow> 'd \<Rightarrow> u64 option result" where
  "getInitBlockNumber_script L d =
     bindE (findScriptBlock L d) (\<lambda>lastScriptBlock. Inr (Some (mb_blockNumber lastScriptBlock)))"

definition getContractDetails :: "'d leveldb \<Rightarrow> 'd \<Rightarrow> Address \<Rightarrow> V8Details result" where
  "getContractDetails L d contractAddress =
     bindE (getBinaryString contractAddress) (\<lambda>key. findV8DetailsAddress L key d)"

definition getContractCode :: "'d leveldb \<Rightarrow> 'd \<Rightarrow> Address \<Rightarrow> V8Code result" where
  "getContractCode L d contractAddress =
     bindE (toBdString contractAddress) (\<lambda>key. findV8CodeAddress L key d)"

end
