(* ===== verification/ScriptProps.thy ===== *)
theory ScriptProps
  imports WorkerScript DatabaseScans
begin

section \<open>What stops the worker of contracts\<close>

text \<open>
  A turn that fails does not save the progress of the worker, and the next block does not fit to the
  stored one: one exception ends the work on contracts. And a contract is not known in the block in
  which it is compiled.
\<close>

fun script_turns ::
  "'n v8_net \<Rightarrow> 'd script_env \<Rightarrow> BlockInfo list \<Rightarrow> ('n, 'd) ScriptState \<Rightarrow> outcome list \<times> ('n, 'd) ScriptState" where
  "script_turns N env [] w = ([], w)"
| "script_turns N env (bi # bis) w =
     (case script_turn N env bi w of
        (r, w) \<Rightarrow> (case script_turns N env bis w of (rs, w) \<Rightarrow> (r # rs, w)))"

definition failed :: "outcome \<Rightarrow> bool" where
  "failed r = (\<exists>e. r = Failed e)"

text \<open>A block behind the stored one whose parent is another block.\<close>

definition misses_parent :: "MainBlockInfo \<Rightarrow> BlockInfo \<Rightarrow> bool" where
  "misses_parent lastBlock bi \<longleftrightarrow> mb_blockHash lastBlock \<noteq> [] \<and> mb_blockHash lastBlock \<noteq> bh_prevHash (bi_header bi) \<and>
     (\<exists>n. bh_blockNumber (bi_header bi) = Some n \<and> mb_blockNumber lastBlock < n)"

lemma turn_misses_parent:
  assumes "findScriptBlock (se_leveldb env) (sw_leveldbV8 w) = Inr lastBlock" and "misses_parent lastBlock bi"
  shows "script_turn N env bi w = (Failed (Check ''Incorrect prev hash. Expected ''), w)"
  using assms by (auto simp: script_turn_def script_start_def misses_parent_def Let_def)

lemma turns_miss_parent:
  assumes "findScriptBlock (se_leveldb env) (sw_leveldbV8 w) = Inr lastBlock" and "\<forall>bi \<in> set bis. misses_parent lastBlock bi"
  shows "\<exists>rs. script_turns N env bis w = (rs, w) \<and> (\<forall>r \<in> set rs. failed r)"
  using assms(2)
proof (induction bis)
  case (Cons bi bis)
  then show ?case
    using turn_misses_parent [OF assms(1), of bi N] by (auto simp: failed_def)
qed simp

subsection \<open>Sample server\<close>

text \<open>A server with one answer, and a transaction with a script.\<close>

definition sample_v8 :: "json \<Rightarrow> unit v8_net" where
  "sample_v8 doc = \<lparr>v8_request = (\<lambda>_ _ net. (net, Inr [1])),
     v8_json = \<lparr>jl_parse = (\<lambda>_. Some doc), jl_print = (\<lambda>_ _. []), jl_message = (\<lambda>_. []), jl_strToJson = JString,
       jl_getString = (\<lambda>_. Inr []), jl_getArray = (\<lambda>_ _. Inr []), jl_toHex = (\<lambda>s. s),
       jl_lz4 = \<lparr>lz_compress = (\<lambda>s. s), lz_decompress = (\<lambda>s _. Some s), lz_buffer = (\<lambda>s _. s)\<rparr>\<rparr>,
     v8_fromHex = (\<lambda>_. Inr [9])\<rparr>"

definition sample_script_env :: "sample_store script_env" where
  "sample_script_env = \<lparr>se_leveldb = sample_leveldb, se_modules = Modules_none, se_v8server = [1]\<rparr>"

definition sample_script_tx :: "ScriptType \<Rightarrow> TransactionInfo" where
  "sample_script_tx type = TransactionInfo_default\<lparr>tx_fromAddress := Address_of_range [8], tx_toAddress := Address_of_range [9],
     tx_scriptInfo := Some \<lparr>si_txRaw = [], si_type = type\<rparr>\<rparr>"


definition sample_script_block :: "u64 \<Rightarrow> bytes \<Rightarrow> BlockInfo" where
  "sample_script_block n prevHash = \<lparr>bi_header = BlockHeader_default\<lparr>bh_blockNumber := Some n, bh_hash := [8], bh_prevHash := prevHash,
     bh_blockType := BLOCK_TYPE\<rparr>, bi_txs = [sample_script_tx compile]\<rparr>"

definition sample_script_state :: "(unit, sample_store) ScriptState" where
  "sample_script_state = \<lparr>sw_net = (),
     sw_leveldbV8 = [(SCRIPT_BLOCK_NUMBER_PREFIX, serializeVector [7] @ serializeInt (5 :: u64) @ serializeInt (0 :: u64))],
     sw_leveldb = [], sw_statusCache = Cache_empty\<rparr>"


subsection \<open>Compiled and run in one block\<close>

lemma bindS_Inr: "bindS f g s = (Inr x, s2) \<longleftrightarrow> (\<exists>y s1. f s = (Inr y, s1) \<and> g y s1 = (Inr x, s2))"
  by (auto simp: bindS_def split: prod.splits sum.splits)

lemma liftS_Inr: "liftS r s = (Inr x, s2) \<longleftrightarrow> r = Inr x \<and> s2 = s"
  by (auto simp: liftS_def)

lemma returnS_Inr: "returnS y s = (Inr x, s2) \<longleftrightarrow> y = x \<and> s2 = s"
  by (auto simp: returnS_def)

lemma batchS_Inr: "batchS f s = (Inr u, s2) \<longleftrightarrow> (\<exists>b. f (sr_batchStates s) = Inr b \<and> s2 = s\<lparr>sr_batchStates := b\<rparr>)"
  by (auto simp: batchS_def split: sum.splits)

lemmas script_step_simps = bindS_Inr liftS_Inr returnS_Inr batchS_Inr

text \<open>Whether the batch knows a state of a contract.\<close>

definition knows_state :: "bytes \<Rightarrow> Batch \<Rightarrow> bool" where
  "knows_state key b \<longleftrightarrow> map_of (wb_save b) (V8_STATE_PREFIX @ key) \<noteq> None"

lemma knows_state_found: "key \<noteq> [] \<Longrightarrow> \<not> knows_state key b \<Longrightarrow> Batch_findV8State key b = Inr None"
  by (simp add: Batch_findV8State_def makeKey_named knows_state_def findValueInBatch_def V8_STATE_PREFIX_def)

lemma emplace_other: "k' \<noteq> k \<Longrightarrow> map_of (emplace k v m) k' = map_of m k'"
  by (simp add: map_of_emplace split: option.split)

lemma knows_state_adds:
  "addV8State a st b = Inr b' \<Longrightarrow> knows_state key b' = knows_state key b"
  "addV8Details a x b = Inr b' \<Longrightarrow> knows_state key b' = knows_state key b"
  "addV8Code a c b = Inr b' \<Longrightarrow> knows_state key b' = knows_state key b"
  by (auto simp: addV8State_def addV8Details_def addV8Code_def makeKey_Inr addKey_Inr addKeyInternal_def knows_state_def
      emplace_other bindE_Inr_iff prefix_defs Let_def)

text \<open>A step that does not change what the batch knows of a contract.\<close>

definition keeps :: "bytes \<Rightarrow> ('n, 'd, 'a) script_step \<Rightarrow> bool" where
  "keeps key m \<longleftrightarrow> (\<forall>s. knows_state key (sr_batchStates (snd (m s))) = knows_state key (sr_batchStates s))"

lemma keeps_bind: "keeps key f \<Longrightarrow> (\<And>x. keeps key (g x)) \<Longrightarrow> keeps key (bindS f g)"
  unfolding keeps_def bindS_def by (simp add: case_prod_beta split: sum.split)

lemma keeps_simple:
  "keeps key (returnS x)" "keeps key (liftS r)" "keeps key (requestS h)"
  by (simp_all add: keeps_def returnS_def liftS_def requestS_def case_prod_beta)

lemma keeps_batch: "(\<And>b b'. f b = Inr b' \<Longrightarrow> knows_state key b' = knows_state key b) \<Longrightarrow> keeps key (batchS f)"
  by (simp add: keeps_def batchS_def split: sum.split)

lemma keeps_adds: "keeps key (batchS (addV8State a st))" "keeps key (batchS (addV8Details a x))" "keeps key (batchS (addV8Code a c))"
  by (rule keeps_batch, erule knows_state_adds)+

lemma keeps_find: "keeps key (findV8StateF L d a)"
  unfolding findV8StateF_def by (rule keeps_bind, rule keeps_simple) (simp add: keeps_def)

lemma keeps_details: "keeps key (addDetails a x y)"
  unfolding addDetails_def by (rule keeps_bind, rule keeps_simple) (rule keeps_adds)

lemma keeps_if: "keeps key f \<Longrightarrow> keeps key g \<Longrightarrow> keeps key (if b then f else g)"
  by simp

lemma keeps_prod: "(\<And>a b. keeps key (f a b)) \<Longrightarrow> keeps key (case_prod f p)"
  by (cases p) simp

lemmas keeps_intros = keeps_bind keeps_simple keeps_adds keeps_find keeps_details keeps_if keeps_prod

lemma compile_tx_keeps: "keeps key (compile_tx N env d n tx raw)"
  unfolding compile_tx_def Let_def by (intro keeps_intros)

lemma getBinaryString_set: "getBinaryString a = Inr key \<Longrightarrow> isSet a \<and> key \<noteq> []"
  by (auto simp: getBinaryString_def bindE_Inr_iff CHECK_Inr_iff split: if_splits)

lemma findV8StateF_new:
  assumes "getBinaryString a = Inr key" and "findV8State L key d = Inr p" and "\<not> knows_state key (sr_batchStates s)"
  shows "findV8StateF L d a s = (Inr (False, p), s)"
  using assms getBinaryString_set [OF assms(1)] by (simp add: findV8StateF_def bindS_def liftS_def knows_state_found)

lemma addDetails_ok:
  assumes "getBinaryString a = Inr key"
  shows "\<exists>s'. addDetails a x y s = (Inr (), s') \<and> sr_net s' = sr_net s"
  using assms getBinaryString_set [OF assms]
  by (simp add: addDetails_def bindS_def liftS_def toBdString_def batchS_def addV8Details_def makeKey_named V8_DETAILS_PREFIX_def addKey_def)

lemma compile_tx_ok:
  assumes "requestCompileTransaction N (se_v8server env) raw (tx_fromAddress tx) (tx_pubKey tx) (tx_sign tx) (sr_net s) = (net, Inr st)"
    and "vs_errorType st = V8_OK" and "getBinaryString (vs_address st) = Inr key" and "addr (vs_address st) \<noteq> []"
    and "findV8State (se_leveldb env) key d = Inr p" and "vs_state p = []" and "\<not> knows_state key (sr_batchStates s)" and "n \<noteq> 0"
  shows "\<exists>s'. compile_tx N env d n tx raw s = (Inr (Some (V8Status False False (vs_address st))), s')"
proof -
  let ?a = "vs_address st" and ?s = "s\<lparr>sr_net := net\<rparr>" and ?st = "st\<lparr>vs_blockNumber := n\<rparr>"
  have key: "isSet ?a" "key \<noteq> []"
    using getBinaryString_set [OF assms(3)] by simp_all
  have request: "requestS (requestCompileTransaction N (se_v8server env) raw (tx_fromAddress tx) (tx_pubKey tx) (tx_sign tx)) s = (Inr st, ?s)"
    by (simp add: requestS_def assms(1))
  have new: "findV8StateF (se_leveldb env) d ?a ?s = (Inr (False, p), ?s)"
    by (rule findV8StateF_new [OF assms(3,5)]) (simp add: assms(7))
  obtain s1 where s1: "batchS (addV8State key ?st) ?s = (Inr (), s1)"
    using key assms(8) by (simp add: batchS_def addV8State_def makeKey_named V8_STATE_PREFIX_def addKey_def V8State_serialize_def)
  obtain s2 where s2: "addDetails ?a (vs_details st) [] s1 = (Inr (), s2)"
    using addDetails_ok [OF assms(3)] by blast
  obtain s3 where s3: "batchS (addV8Code key \<lparr>vc_code = tx_data tx\<rparr>) s2 = (Inr (), s3)"
    using key by (simp add: batchS_def addV8Code_def makeKey_named V8_CODE_PREFIX_def addKey_def)
  have st: "st\<lparr>vs_blockNumber := n, vs_address := ?a\<rparr> = ?st"
    by simp
  have "compile_tx N env d n tx raw s = (Inr (Some (V8Status False False ?a)), s3)"
    using key assms(2-4,6)
    by (simp add: compile_tx_def bindS_def request new s1 s2 s3 st liftS_def returnS_def isEmpty_def v8StateToTxStatus_def is_old_def
        toBdString_def Let_def)
  then show ?thesis
    by blast
qed

text \<open>C31: A defect of the worker of contracts: a contract cannot be used in the block in which it is compiled.
  The batch does not keep the states that are added to it for look-up; so after a compile transaction
  that succeeded, a transaction to the new contract in the same block finds no state, neither in the batch
  nor in the database. The server is not asked, and the transaction gets the status of a script error.\<close>

theorem contract_unknown_in_its_block:
  assumes "compile_tx N env d n tx raw s = (Inr (Some (V8Status False False (tx_toAddress tx2))), s')"
    and "getBinaryString (tx_toAddress tx2) = Inr key" and "findV8State (se_leveldb env) key d = Inr p" and "vs_state p = []"
    and "\<not> knows_state key (sr_batchStates s)"
  shows "\<exists>s2. run_tx N env d n tx2 raw2 s' = (Inr (Some (V8Status False True (tx_toAddress tx2))), s2) \<and> sr_net s2 = sr_net s'"
proof -
  have set: "isSet (tx_toAddress tx2)"
    using getBinaryString_set [OF assms(2)] by simp
  have "\<not> knows_state key (sr_batchStates s')"
    using compile_tx_keeps [of key N env d n tx raw] assms(1,5) unfolding keeps_def by (metis snd_conv)
  note found = findV8StateF_new [OF assms(2,3) this]
  obtain hex where hex: "calcHexString (jl_toHex (v8_json N)) (tx_toAddress tx2) = Inr hex"
    using set by (auto simp: calcHexString_def)
  let ?msg = "lit ''Not found compile transaction on address '' @ hex"
  obtain s2 where s2: "addDetails (tx_toAddress tx2) (vs_details p) ?msg s' = (Inr (), s2)" "sr_net s2 = sr_net s'"
    using addDetails_ok [OF assms(2)] by blast
  have "run_tx N env d n tx2 raw2 s' = (Inr (Some (V8Status False True (tx_toAddress tx2))), s2)"
    by (simp add: run_tx_def found hex s2(1) assms(4) bindS_def liftS_def returnS_def is_old_def not_found_def v8StateToTxStatus_def
        Let_def del: lit_Cons)
  with s2(2) show ?thesis
    by blast
qed

theorem contract_unknown_in_its_block_witness:
  "\<exists>N s1 s2. compile_tx (N :: unit v8_net) sample_script_env [] 6 (sample_script_tx compile) []
       \<lparr>sr_net = (), sr_leveldb = [], sr_statusCache = Cache_empty, sr_batchStates = Batch_new\<rparr> =
       (Inr (Some (V8Status False False (Address_of_range [9]))), s1) \<and>
     run_tx N sample_script_env [] 6 (sample_script_tx run) [] s1 =
       (Inr (Some (V8Status False True (Address_of_range [9]))), s2)"
proof -
  let ?N = "sample_v8 (JObject [(lit ''result'', JObject [(lit ''state'', JString [5]), (lit ''address'', JString (lit ''0x09''))])])"
  let ?s = "\<lparr>sr_net = (), sr_leveldb = [], sr_statusCache = Cache_empty, sr_batchStates = Batch_new\<rparr>"
  let ?to = "tx_toAddress (sample_script_tx run)"
  let ?st = "(V8State_make 0)\<lparr>vs_state := [5], vs_address := Address_of_range [9]\<rparr>"
  have to: "?to = Address_of_range [9]" "getBinaryString ?to = Inr [9]" "tx_toAddress (sample_script_tx compile) = Address_of_range [9]"
    by (simp_all add: sample_script_tx_def getBinaryString_def Address_of_range_def)
  have none: "findV8State (se_leveldb sample_script_env) [9] [] = Inr (V8State_make 0)"
    by (simp add: findV8State_def sample_script_env_def findValue_contents [OF sample_leveldb_ok] makeKey_named V8_STATE_PREFIX_def
        V8State_deserialize_def)
  have answer: "requestCompileTransaction ?N [1] [] (Address_of_range [8]) [] [] () = ((), Inr ?st)"
    by (simp add: requestCompileTransaction_def requestTransaction_def sample_v8_def calcHexString_def Address_of_range_def
        requestCurl_def parseState_def HasMember_def parse_state_result_def need_member_def member_if_def json_at_def
        Address_of_hex_def c_str_def V8State_make_def)
  have "requestCompileTransaction ?N (se_v8server sample_script_env) [] (tx_fromAddress (sample_script_tx compile))
      (tx_pubKey (sample_script_tx compile)) (tx_sign (sample_script_tx compile)) (sr_net ?s) = ((), Inr ?st)"
    using answer by (simp add: sample_script_env_def sample_script_tx_def TransactionInfo_default_def)
  from compile_tx_ok [OF this _ _ _ none] to(2)
  have "\<exists>s1. compile_tx ?N sample_script_env [] 6 (sample_script_tx compile) [] ?s = (Inr (Some (V8Status False False ?to)), s1)"
    by (simp add: to(1) knows_state_def Batch_new_def V8State_make_def) (simp add: Address_of_range_def)
  then obtain s1 where s1: "compile_tx ?N sample_script_env [] 6 (sample_script_tx compile) [] ?s = (Inr (Some (V8Status False False ?to)), s1)"
    by blast
  have "\<not> knows_state [9] (sr_batchStates ?s)"
    by (simp add: knows_state_def Batch_new_def)
  from contract_unknown_in_its_block [OF s1 to(2) none _ this, of "[]"] s1 show ?thesis
    by (auto simp: to V8State_make_def)
qed

end
