(* ===== verification/NetworkSource.thy ===== *)
theory NetworkSource
  imports NewBlocks SyncImpl "HOL-Library.Product_Lexorder"
begin

section \<open>Blocks from the network (NetworkBlockSource)\<close>

text \<open>
  Up to eight blocks are fetched and parsed at a time, with the signature blocks in front of and
  behind each of them, and then handed out one by one in the order of their keys. An exception while
  a block is fetched or parsed is kept with the block, and thrown when its turn comes.

  The map \<open>advancedBlocks\<close> is a list of pairs with increasing keys; the iterator
  \<open>currentProcessedBlock\<close> is the rest of the map from it on, the empty list for \<open>end()\<close>. A block whose
  header could not be fetched has a number that was never initialised: \<open>lib_uninit\<close>. Behaviour that is
  undefined, or a loop that does not end, cannot be caught.
\<close>

subsection \<open>Keys\<close>

datatype BlockPos = BeforeBlock | Block | AfterBlock

fun pos_rank :: "BlockPos \<Rightarrow> nat" where
  "pos_rank BeforeBlock = 0"
| "pos_rank Block = 1"
| "pos_rank AfterBlock = 2"

lemma pos_rank_inject: "pos_rank p = pos_rank q \<longleftrightarrow> p = q"
  by (cases p; cases q) simp_all

instantiation BlockPos :: linorder
begin

definition less_eq_BlockPos :: "BlockPos \<Rightarrow> BlockPos \<Rightarrow> bool" where
  "less_eq_BlockPos p q \<longleftrightarrow> pos_rank p \<le> pos_rank q"

definition less_BlockPos :: "BlockPos \<Rightarrow> BlockPos \<Rightarrow> bool" where
  "less_BlockPos p q \<longleftrightarrow> pos_rank p < pos_rank q"

instance
  by standard (auto simp: less_eq_BlockPos_def less_BlockPos_def pos_rank_inject)

end

type_synonym block_key = "u64 \<times> BlockPos \<times> bytes"

text \<open>The comparison of keys is the order of the library on triples.\<close>

definition Key_less :: "block_key \<Rightarrow> block_key \<Rightarrow> bool" where
  "Key_less k second =
     (let (number, pos, hash) = k; (number2, pos2, hash2) = second
      in number < number2 \<or> number = number2 \<and> (pos_rank pos < pos_rank pos2 \<or> pos = pos2 \<and> hash < hash2))"

lemma Key_less_iff: "Key_less k l \<longleftrightarrow> k < l"
  by (cases k; cases l) (auto simp: Key_less_def less_BlockPos_def less_eq_BlockPos_def pos_rank_inject le_less)

record AdvancedBlock =
  ab_pos :: BlockPos
  ab_header :: MinimumBlockHeader
  ab_bi :: "NextBlock option"
  ab_dump :: bytes
  ab_exception :: "error option"

definition AdvancedBlock_key :: "AdvancedBlock \<Rightarrow> block_key" where
  "AdvancedBlock_key a = (mh_number (ab_header a), ab_pos a, mh_hash (ab_header a))"

record AfterBlocksAdditings =
  af_cleared :: bool
  af_blockNumber :: u64
  af_file :: bytes
  af_hashes :: "bytes list"

record AdditingBlock =
  ad_type :: BlockPos
  ad_number :: u64
  ad_hash :: bytes
  ad_fileName :: bytes

record 'n NetworkBlockSource =
  nb_getter :: GetNewBlocksFromServer
  nb_net :: 'n
  nb_nextBlockToRead :: u64
  nb_servers :: "bytes list"
  nb_lastBlockInBlockchain :: u64
  nb_advancedBlocks :: "(block_key \<times> AdvancedBlock) list"
  nb_current :: "(block_key \<times> AdvancedBlock) list"
  nb_afterBlocksAdditings :: AfterBlocksAdditings
  nb_lastFileName :: bytes

text \<open>What does not change: the libraries, the place of buffers in memory, the timeline of the node and
  the settings.\<close>

record ('n, 'j) network_conf =
  nc_json :: json_lib
  nc_p2p :: "'n p2p"
  nc_lib :: "'j lib"
  nc_makeAddress :: "bytes \<Rightarrow> bytes result"
  nc_base :: u64
  nc_timeline :: BlocksTimeline
  nc_saveAllTx :: bool
  nc_isValidate :: bool
  nc_isVerifySign :: bool
  nc_isPreLoad :: bool

definition COUNT_ADVANCED_BLOCKS :: u64 where "COUNT_ADVANCED_BLOCKS = 8"

definition NetworkBlockSource_new :: "u64 \<Rightarrow> u64 \<Rightarrow> bool \<Rightarrow> 'n \<Rightarrow> 'n NetworkBlockSource" where
  "NetworkBlockSource_new maxAdvancedLoadBlocks countBlocksInBatch isCompress net =
     \<lparr>nb_getter = GetNewBlocksFromServer_new maxAdvancedLoadBlocks countBlocksInBatch isCompress, nb_net = net,
      nb_nextBlockToRead = 0, nb_servers = [], nb_lastBlockInBlockchain = 0, nb_advancedBlocks = [], nb_current = [],
      nb_afterBlocksAdditings = \<lparr>af_cleared = True, af_blockNumber = 0, af_file = [], af_hashes = []\<rparr>, nb_lastFileName = []\<rparr>"

subsection \<open>doProcess\<close>

text \<open>The extra blocks behind our last block, when we have all blocks.\<close>

definition set_last_block :: "u64 \<Rightarrow> bytes list \<Rightarrow> bytes list \<Rightarrow> 'n NetworkBlockSource \<Rightarrow> 'n NetworkBlockSource" where
  "set_last_block lastBlock servers hashes s =
     s\<lparr>nb_lastBlockInBlockchain := lastBlock, nb_servers := servers,
       nb_afterBlocksAdditings :=
         (if lastBlock = nb_nextBlockToRead s - 1
          then \<lparr>af_cleared = False, af_blockNumber = lastBlock, af_file = nb_lastFileName s, af_hashes = hashes\<rparr>
          else nb_afterBlocksAdditings s)\<rparr>"

definition doProcess_clear :: "u64 \<Rightarrow> 'n NetworkBlockSource \<Rightarrow> 'n NetworkBlockSource" where
  "doProcess_clear count s =
     s\<lparr>nb_nextBlockToRead := count + 1, nb_advancedBlocks := [], nb_getter := clearAdvanced (nb_getter s), nb_current := [],
       nb_afterBlocksAdditings := (nb_afterBlocksAdditings s)\<lparr>af_cleared := True\<rparr>\<rparr>"

definition doProcess_last :: "('n, 'j) network_conf \<Rightarrow> 'n NetworkBlockSource \<Rightarrow> 'n NetworkBlockSource \<times> u64 result" where
  "doProcess_last c s =
     (case getLastBlock_net (nc_json c) (nc_p2p c) (nb_net s) of
        (net, Inl e) \<Rightarrow> (s\<lparr>nb_net := net\<rparr>, Inl e)
      | (net, Inr lastBlock) \<Rightarrow>
          let s = s\<lparr>nb_net := net\<rparr>
          in case lb_error lastBlock of
               Some message \<Rightarrow> (s, Inl (Check message))
             | None \<Rightarrow> (set_last_block (lb_lastBlock lastBlock) (lb_servers lastBlock) (lb_extraBlocks lastBlock) s,
                        Inr (lb_lastBlock lastBlock)))"

definition doProcess_preload :: "('n, 'j) network_conf \<Rightarrow> u64 \<Rightarrow> 'n NetworkBlockSource \<Rightarrow> 'n NetworkBlockSource \<times> u64 result" where
  "doProcess_preload c count s =
     (case preLoadBlocks (nc_json c) (nc_p2p c) (gb_isCompress (nb_getter s)) count (nc_isVerifySign c) (nb_net s) of
        (net, Inl e) \<Rightarrow> (s\<lparr>nb_net := net\<rparr>, Inl e)
      | (net, Inr r) \<Rightarrow>
          let s = s\<lparr>nb_net := net\<rparr>
          in case (lp_error r, lp_lastBlock r) of
               (Some message, _) \<Rightarrow> (s, Inl (Check message))
             | (None, None) \<Rightarrow> (s, Inl (Check ''Last block not setted''))
             | (None, Some lastBlock) \<Rightarrow>
                 let s = s\<lparr>nb_lastBlockInBlockchain := lastBlock, nb_servers := lp_servers r\<rparr>
                 in case addPreLoadBlocks (nc_json c) (nb_nextBlockToRead s) (lp_blockHeaders r) (lp_additionalBlockHashes r)
                           (lp_blocksDumps r) (nb_getter s) of
                      (g, Inl e) \<Rightarrow> (s\<lparr>nb_getter := g\<rparr>, Inl e)
                    | (g, Inr hashes) \<Rightarrow> (set_last_block lastBlock (lp_servers r) hashes (s\<lparr>nb_getter := g\<rparr>), Inr lastBlock))"

definition network_doProcess :: "('n, 'j) network_conf \<Rightarrow> u64 \<Rightarrow> 'n NetworkBlockSource \<Rightarrow> 'n NetworkBlockSource \<times> u64 result" where
  "network_doProcess c count s =
     (let s = doProcess_clear count s
      in if \<not> nc_isPreLoad c then doProcess_last c s else doProcess_preload c count s)"

subsection \<open>Loading\<close>

definition is_thrown :: "error \<Rightarrow> bool" where
  "is_thrown e \<longleftrightarrow> (case e of Check _ \<Rightarrow> True | OutOfRange \<Rightarrow> True | _ \<Rightarrow> False)"

text \<open>The body of the \<open>try\<close> block for one transaction block.\<close>

definition fetch_block ::
  "('n, 'j) network_conf \<Rightarrow> u64 \<Rightarrow> 'n NetworkBlockSource \<Rightarrow> 'n NetworkBlockSource \<times> AdvancedBlock result" where
  "fetch_block c currBlock s =
     (let fresh = \<lparr>ab_pos = Block,
            ab_header = \<lparr>mh_number = lib_uninit (nc_lib c), mh_blockSize = lib_uninit (nc_lib c), mh_hash = [], mh_parentHash = [],
                         mh_fileName = [], mh_prevExtraBlocks = [], mh_nextExtraBlocks = []\<rparr>,
            ab_bi = None, ab_dump = [], ab_exception = None\<rparr>
      in case getBlockHeader (nc_json c) (nc_p2p c) currBlock (nb_lastBlockInBlockchain s) (nb_servers s) (nb_getter s, nb_net s) of
           ((g, net), Inl e) \<Rightarrow>
             (s\<lparr>nb_getter := g, nb_net := net\<rparr>, if is_thrown e then Inr (fresh\<lparr>ab_exception := Some e\<rparr>) else Inl e)
         | ((g, net), Inr header) \<Rightarrow>
             (case getter_getBlockDump (nc_json c) (nc_p2p c) (mh_hash header) (mh_blockSize header) True False (nb_servers s)
                     (nc_isVerifySign c) (g, net) of
                ((g, net), r) \<Rightarrow>
                  (s\<lparr>nb_getter := g, nb_net := net\<rparr>,
                   case r of
                     Inl e \<Rightarrow> if is_thrown e then Inr (fresh\<lparr>ab_header := header, ab_exception := Some e\<rparr>) else Inl e
                   | Inr dump \<Rightarrow> Inr (fresh\<lparr>ab_header := header, ab_dump := dump\<rparr>))))"

definition emplace_advanced :: "AdvancedBlock \<Rightarrow> 'n NetworkBlockSource \<Rightarrow> 'n NetworkBlockSource" where
  "emplace_advanced a s = s\<lparr>nb_advancedBlocks := map_emplace (AdvancedBlock_key a) a (nb_advancedBlocks s)\<rparr>"

fun fetch_blocks :: "('n, 'j) network_conf \<Rightarrow> u64 list \<Rightarrow> 'n NetworkBlockSource \<Rightarrow> 'n NetworkBlockSource \<times> unit result" where
  "fetch_blocks c [] s = (s, Inr ())"
| "fetch_blocks c (currBlock # rest) s =
     (case fetch_block c currBlock s of
        (s, Inl e) \<Rightarrow> (s, Inl e)
      | (s, Inr a) \<Rightarrow>
          if currBlock \<noteq> mh_number (ab_header a) then (s, Inl (Check ''Incorrect data''))
          else fetch_blocks c rest (emplace_advanced a s))"

definition extra_of_block :: "AdvancedBlock \<Rightarrow> AdditingBlock list" where
  "extra_of_block a =
     (let h = ab_header a;
          make = \<lambda>type hash. \<lparr>ad_type = type, ad_number = mh_number h, ad_hash = hash, ad_fileName = mh_fileName h\<rparr>
      in map (make BeforeBlock) (mh_prevExtraBlocks h) @ map (make AfterBlock) (mh_nextExtraBlocks h))"

text \<open>The first block with each hash.\<close>

fun first_of_hash :: "bytes set \<Rightarrow> AdditingBlock list \<Rightarrow> AdditingBlock list" where
  "first_of_hash existing [] = []"
| "first_of_hash existing (b # bs) =
     (if ad_hash b \<in> existing then first_of_hash existing bs else b # first_of_hash (insert (ad_hash b) existing) bs)"

fun with_binary_hash :: "(bytes \<Rightarrow> bytes result) \<Rightarrow> AdditingBlock list \<Rightarrow> (AdditingBlock \<times> bytes) list result" where
  "with_binary_hash fromHex [] = Inr []"
| "with_binary_hash fromHex (b # bs) =
     bindE (fromHex (ad_hash b)) (\<lambda>h. bindE (with_binary_hash fromHex bs) (\<lambda>rest. Inr ((b, h) # rest)))"

fun fetch_extra :: "('n, 'j) network_conf \<Rightarrow> AdditingBlock list \<Rightarrow> 'n NetworkBlockSource \<Rightarrow> 'n NetworkBlockSource \<times> unit result" where
  "fetch_extra c [] s = (s, Inr ())"
| "fetch_extra c (b # bs) s =
     (case getter_getBlockDump (nc_json c) (nc_p2p c) (ad_hash b) 0 False True (nb_servers s) (nc_isVerifySign c)
             (nb_getter s, nb_net s) of
        ((g, net), Inl e) \<Rightarrow> (s\<lparr>nb_getter := g, nb_net := net\<rparr>, Inl e)
      | ((g, net), Inr dump) \<Rightarrow>
          fetch_extra c bs (emplace_advanced
            \<lparr>ab_pos = (if ad_type b = AfterBlock then AfterBlock else BeforeBlock),
             ab_header = \<lparr>mh_number = ad_number b, mh_blockSize = size_of dump, mh_hash = ad_hash b, mh_parentHash = [],
                          mh_fileName = ad_fileName b, mh_prevExtraBlocks = [], mh_nextExtraBlocks = []\<rparr>,
             ab_bi = None, ab_dump = dump, ab_exception = None\<rparr>
            (s\<lparr>nb_getter := g, nb_net := net\<rparr>)))"

definition processAdditingBlocks ::
  "('n, 'j) network_conf \<Rightarrow> AdditingBlock list \<Rightarrow> 'n NetworkBlockSource \<Rightarrow> 'n NetworkBlockSource \<times> unit result" where
  "processAdditingBlocks c additingBlocks s =
     (case with_binary_hash (lib_fromHex (nc_lib c)) (first_of_hash {} additingBlocks) of
        Inl e \<Rightarrow> (s, Inl e)
      | Inr blocks \<Rightarrow> fetch_extra c (map fst (filter_known snd blocks (nc_timeline c))) s)"

subsection \<open>Parsing\<close>

definition no_sender :: BlockSignatureCheckResult where
  "no_sender = \<lparr>bs_block = [], bs_sign = [], bs_pubkey = [], bs_address = []\<rparr>"

text \<open>What is done with a parsed block: the hash that was asked for is checked.\<close>

fun accept_block :: "('n, 'j) network_conf \<Rightarrow> BlockSignatureCheckResult \<Rightarrow> bytes \<Rightarrow> bytes \<Rightarrow> NextBlock \<Rightarrow> NextBlock result" where
  "accept_block c signer hash fileName (SimpleBlock b) =
     bindE (CHECK (bh_hash (bi_header b) = hash) ''Incorrect block dump'') (\<lambda>_.
     let b = BlockInfo_saveFilePath (getBasename fileName) b
     in Inr (SimpleBlock (if nc_isVerifySign c
                          then BlockInfo_saveSenderInfo (bs_sign signer) (bs_pubkey signer) (bs_address signer) b else b)))"
| "accept_block c signer hash fileName (SignBlock b) =
     bindE (CHECK (sh_hash (sb_header b) = hash) ''Incorrect block dump'') (\<lambda>_.
     let b = SignBlockInfo_saveFilePath (getBasename fileName) b
     in Inr (SignBlock (if nc_isVerifySign c
                        then SignBlockInfo_saveSenderInfo (bs_sign signer) (bs_pubkey signer) (bs_address signer) b else b)))"
| "accept_block c signer hash fileName (RejectedBlock b) = Inl (Check ''Incorrect block type'')"

definition parse_dump :: "('n, 'j) network_conf \<Rightarrow> BlockSignatureCheckResult \<Rightarrow> AdvancedBlock \<Rightarrow> NextBlock result" where
  "parse_dump c signer a =
     bindE (CHECK (size_of (ab_dump a) = mh_blockSize (ab_header a)) ''binaryDump.size() == nextBlockHeader.blockSize'') (\<lambda>_.
     bindE (lib_fromHex (nc_lib c) (mh_hash (ab_header a))) (\<lambda>hash.
     bindE (parseNextBlockInfo (nc_lib c) 0 (nc_isValidate c) (nc_saveAllTx c) 0 0 \<lparr>mem_base = nc_base c, mem_data = ab_dump a\<rparr>)
       (accept_block c signer hash (mh_fileName (ab_header a)))))"

text \<open>The body of the loop of \<open>parseBlockInfo\<close>: the dump without its signature, and the block or the
  exception.\<close>

definition parse_advanced :: "('n, 'j) network_conf \<Rightarrow> AdvancedBlock \<Rightarrow> AdvancedBlock result" where
  "parse_advanced c a =
     (if ab_exception a \<noteq> None then Inr a
      else
        case (if nc_isVerifySign c then checkSignatureBlock (lib_crypto (nc_lib c)) (nc_makeAddress c) (ab_dump a)
              else Inr no_sender) of
          Inl e \<Rightarrow> if is_thrown e then Inr (a\<lparr>ab_exception := Some e\<rparr>) else Inl e
        | Inr signer \<Rightarrow>
            let a = (if nc_isVerifySign c then a\<lparr>ab_dump := bs_block signer\<rparr> else a)
            in case parse_dump c signer a of
                 Inl e \<Rightarrow> if is_thrown e then Inr (a\<lparr>ab_exception := Some e\<rparr>) else Inl e
               | Inr b \<Rightarrow> Inr (a\<lparr>ab_bi := Some b\<rparr>))"

fun parse_all :: "('n, 'j) network_conf \<Rightarrow> (block_key \<times> AdvancedBlock) list \<Rightarrow> (block_key \<times> AdvancedBlock) list result" where
  "parse_all c [] = Inr []"
| "parse_all c ((key, a) # rest) =
     bindE (parse_advanced c a) (\<lambda>a. bindE (parse_all c rest) (\<lambda>rest. Inr ((key, a) # rest)))"

definition parseBlockInfo :: "('n, 'j) network_conf \<Rightarrow> 'n NetworkBlockSource \<Rightarrow> 'n NetworkBlockSource \<times> unit result" where
  "parseBlockInfo c s =
     (case parse_all c (nb_advancedBlocks s) of
        Inl e \<Rightarrow> (s, Inl e)
      | Inr blocks \<Rightarrow> (s\<lparr>nb_advancedBlocks := blocks, nb_current := blocks\<rparr>, Inr ()))"

subsection \<open>process\<close>

definition processAdvanced :: "'n NetworkBlockSource \<Rightarrow> 'n NetworkBlockSource \<times> (NextBlock \<times> bytes) option result" where
  "processAdvanced s =
     (case nb_current s of
        [] \<Rightarrow> (s, Inl Undefined)
      | (key, a) # rest \<Rightarrow>
          (case (ab_exception a, ab_bi a) of
             (Some e, _) \<Rightarrow> (s, Inl e)
           | (None, None) \<Rightarrow> (s, Inl Undefined)
           | (None, Some bi) \<Rightarrow>
               (s\<lparr>nb_lastFileName := mh_fileName (ab_header a), nb_current := rest,
                  nb_nextBlockToRead := (if ab_pos a = Block then nb_nextBlockToRead s + 1 else nb_nextBlockToRead s)\<rparr>,
                Inr (Some (bi, ab_dump a)))))"

text \<open>The blocks that are fetched next, and the extra blocks to fetch with them.\<close>

definition load_batch :: "('n, 'j) network_conf \<Rightarrow> 'n NetworkBlockSource \<Rightarrow> 'n NetworkBlockSource \<times> AdditingBlock list result" where
  "load_batch c s =
     (if af_cleared (nb_afterBlocksAdditings s)
      then
        if nb_lastBlockInBlockchain s < nb_nextBlockToRead s then (s, Inl (Check ''New blocks absent''))
        else
          let s = s\<lparr>nb_advancedBlocks := []\<rparr>;
              countAdvanced = min COUNT_ADVANCED_BLOCKS (nb_lastBlockInBlockchain s - nb_nextBlockToRead s + 1)
          in if nb_servers s = [] then (s, Inl (Check ''Servers empty''))
             else case fetch_blocks c (map (\<lambda>i. nb_nextBlockToRead s + of_nat i) [0..<unat countAdvanced]) s of
                    (s, Inl e) \<Rightarrow> (s, Inl e)
                  | (s, Inr _) \<Rightarrow> (s, Inr (concat (map (\<lambda>(key, a). extra_of_block a) (nb_advancedBlocks s))))
      else
        if nb_advancedBlocks s \<noteq> [] then (s, Inl (Check ''Incorrect advanced blocks''))
        else
          let af = nb_afterBlocksAdditings s
          in (s\<lparr>nb_afterBlocksAdditings := af\<lparr>af_cleared := True\<rparr>\<rparr>,
              Inr (map (\<lambda>hash. \<lparr>ad_type = AfterBlock, ad_number = af_blockNumber af, ad_hash = hash, ad_fileName = af_file af\<rparr>)
                (af_hashes af))))"

definition network_process ::
  "('n, 'j) network_conf \<Rightarrow> 'n NetworkBlockSource \<Rightarrow> 'n NetworkBlockSource \<times> (NextBlock \<times> bytes) option result" where
  "network_process c s =
     (if nb_current s = [] \<and> af_cleared (nb_afterBlocksAdditings s) \<and> nb_lastBlockInBlockchain s < nb_nextBlockToRead s
      then (s, Inr None)
      else if nb_current s \<noteq> [] then processAdvanced s
      else
        case load_batch c s of
          (s, Inl e) \<Rightarrow> (s, Inl e)
        | (s, Inr additingBlocks) \<Rightarrow>
            (case processAdditingBlocks c additingBlocks s of
               (s, Inl e) \<Rightarrow> (s, Inl e)
             | (s, Inr _) \<Rightarrow>
                 (case parseBlockInfo c s of
                    (s, Inl e) \<Rightarrow> (s, Inl e)
                  | (s, Inr _) \<Rightarrow> if nb_current s \<noteq> [] then processAdvanced s else (s, Inr None))))"

definition network_confirmBlock :: "FileInfo \<Rightarrow> 'n NetworkBlockSource \<Rightarrow> 'n NetworkBlockSource" where
  "network_confirmBlock filepos s = s"

subsection \<open>getExistingBlock\<close>

definition existing_block ::
  "('n, 'j) network_conf \<Rightarrow> BlockHeader \<Rightarrow> u64 \<Rightarrow> MinimumBlockHeader \<Rightarrow> bytes \<Rightarrow> (BlockInfo \<times> bytes) result" where
  "existing_block c bh number h dump =
     bindE (if nc_isVerifySign c
            then bindE (checkSignatureBlock (lib_crypto (nc_lib c)) (nc_makeAddress c) dump) (\<lambda>signer. Inr (bs_block signer))
            else Inr dump) (\<lambda>blockDump.
     bindE (CHECK (size_of blockDump = mh_blockSize h) ''binaryDump.size() == nextBlockHeader.blockSize'') (\<lambda>_.
     bindE (parseNextBlockInfo (nc_lib c) (fp_pos (bh_filePos bh)) (nc_isValidate c) (nc_saveAllTx c) 0 0
              \<lparr>mem_base = nc_base c, mem_data = blockDump\<rparr>) (\<lambda>b.
     case b of
       SimpleBlock bi \<Rightarrow>
         let name = fp_fileNameRelative (bh_filePos bh)
         in Inr (bi\<lparr>bi_header := (bi_header bi)\<lparr>bh_filePos := (bh_filePos (bi_header bi))\<lparr>fp_fileNameRelative := name\<rparr>,
                      bh_blockNumber := bh_blockNumber bh\<rparr>,
                    bi_txs := map (\<lambda>tx. tx\<lparr>tx_filePos := (tx_filePos tx)\<lparr>fp_fileNameRelative := name\<rparr>, tx_blockNumber := number\<rparr>)
                      (bi_txs bi)\<rparr>, blockDump)
     | _ \<Rightarrow> Inl (Check ''Incorrect blockinfo''))))"

definition network_getExistingBlock ::
  "('n, 'j) network_conf \<Rightarrow> BlockHeader \<Rightarrow> 'n NetworkBlockSource \<Rightarrow> 'n NetworkBlockSource \<times> (BlockInfo \<times> bytes) result" where
  "network_getExistingBlock c bh s =
     (case bh_blockNumber bh of
        None \<Rightarrow> (s, Inl (Check ''Block number not set''))
      | Some number \<Rightarrow>
          (case getLastBlock_net (nc_json c) (nc_p2p c) (nb_net s) of
             (net, Inl e) \<Rightarrow> (s\<lparr>nb_net := net\<rparr>, Inl e)
           | (net, Inr lastBlock) \<Rightarrow>
               (case (lb_error lastBlock, lb_servers lastBlock) of
                  (Some message, _) \<Rightarrow> (s\<lparr>nb_net := net\<rparr>, Inl (Check message))
                | (None, []) \<Rightarrow> (s\<lparr>nb_net := net\<rparr>, Inl Undefined)
                | (None, server # _) \<Rightarrow>
                    (case getBlockHeaderWithoutAdvanceLoad (nc_json c) (nc_p2p c) number server net of
                       (net, Inl e) \<Rightarrow> (s\<lparr>nb_net := net\<rparr>, Inl e)
                     | (net, Inr h) \<Rightarrow>
                         (case getBlockDump_sized (nc_json c) (nc_p2p c) (mh_hash h) (mh_blockSize h) True (lb_servers lastBlock)
                                 (nc_isVerifySign c) net of
                            (net, r) \<Rightarrow> (s\<lparr>nb_net := net\<rparr>, bindE r (existing_block c bh number h)))))))"

end
