(* ===== verification/NetworkProps.thy ===== *)
theory NetworkProps
  imports NetworkSource
begin

section \<open>The network delivers block after block\<close>

text \<open>
  In every state that calls of \<open>doProcess\<close> and \<open>process\<close> can reach, whatever the network answered and
  whichever of the calls failed, the blocks that are loaded stand in the order of their keys, the
  transaction blocks among them are exactly the next ones, and a block that is handed out has the hash
  that was asked for.
\<close>

subsection \<open>Blocks in the map\<close>

definition block_hash :: "NextBlock \<Rightarrow> bytes" where
  "block_hash b = (case b of SimpleBlock b \<Rightarrow> bh_hash (bi_header b) | SignBlock b \<Rightarrow> sh_hash (sb_header b) | RejectedBlock b \<Rightarrow> [])"

definition is_block :: "block_key \<times> AdvancedBlock \<Rightarrow> bool" where
  "is_block x \<longleftrightarrow> fst (snd (fst x)) = Block"

definition number_of :: "block_key \<times> AdvancedBlock \<Rightarrow> u64" where
  "number_of x = fst (fst x)"

definition keyed :: "(block_key \<times> AdvancedBlock) list \<Rightarrow> bool" where
  "keyed m \<longleftrightarrow> ordered m \<and> (\<forall>(k, a) \<in> set m. k = AdvancedBlock_key a)"

lemma keyed_Nil [simp]: "keyed []"
  by (simp add: keyed_def)

lemma keyedD: "x \<in> set m \<Longrightarrow> keyed m \<Longrightarrow> fst x = AdvancedBlock_key (snd x)"
  by (cases x) (auto simp: keyed_def)

lemma set_map_emplace_subset: "set (map_emplace k v m) \<subseteq> insert (k, v) (set m)"
proof -
  have "set (map_put k v m) \<subseteq> insert (k, v) (set m)"
    by (induction k v m rule: map_put.induct) auto
  then show ?thesis
    by (auto simp: map_emplace_def split: option.splits)
qed

lemma keyed_emplace: "keyed m \<Longrightarrow> keyed (map_emplace (AdvancedBlock_key a) a m)"
  using set_map_emplace_subset [of "AdvancedBlock_key a" a m] ordered_emplace unfolding keyed_def by fastforce

lemma filter_map_put_other: "\<not> P (k, v) \<Longrightarrow> map_of m k = None \<Longrightarrow> filter P (map_put k v m) = filter P m"
  by (induction k v m rule: map_put.induct) (auto split: if_splits)

lemma filter_emplace_other: "\<not> P (k, v) \<Longrightarrow> filter P (map_emplace k v m) = filter P m"
  by (simp add: map_emplace_def filter_map_put_other split: option.splits)

lemma map_put_last: "\<forall>k' \<in> fst ` set m. k' < k \<Longrightarrow> map_put k v m = m @ [(k, v)]"
  by (induction k v m rule: map_put.induct) auto

lemma emplace_last: "\<forall>k' \<in> fst ` set m. k' < k \<Longrightarrow> map_emplace k v m = m @ [(k, v)]"
proof -
  assume all: "\<forall>k' \<in> fst ` set m. k' < k"
  then have "map_of m k = None"
    by (auto simp: map_of_eq_None_iff)
  then show ?thesis
    using all by (simp add: map_emplace_def map_put_last)
qed

subsection \<open>Loading\<close>

text \<open>What loading leaves as it is.\<close>

definition same_position :: "'n NetworkBlockSource \<Rightarrow> 'n NetworkBlockSource \<Rightarrow> bool" where
  "same_position s s' \<longleftrightarrow> nb_nextBlockToRead s' = nb_nextBlockToRead s \<and> nb_current s' = nb_current s \<and>
     nb_lastBlockInBlockchain s' = nb_lastBlockInBlockchain s"

lemma same_position_refl [simp]: "same_position s s"
  by (simp add: same_position_def)

lemma same_position_trans: "same_position s s' \<Longrightarrow> same_position s' s'' \<Longrightarrow> same_position s s''"
  by (simp add: same_position_def)

lemma fetch_block_same:
  assumes "fetch_block c n s = (s', r)"
  shows "same_position s s' \<and> nb_advancedBlocks s' = nb_advancedBlocks s \<and> (\<forall>a. r = Inr a \<longrightarrow> ab_pos a = Block)"
  using assms
  by (auto simp: fetch_block_def Let_def same_position_def split: prod.splits sum.splits if_splits)

lemma fetch_blocks_ok:
  assumes "fetch_blocks c ns s = (s', r)" and "sorted_wrt (<) ns" and "keyed (nb_advancedBlocks s)"
    and "\<forall>x \<in> set (nb_advancedBlocks s). is_block x \<and> (\<forall>n \<in> set ns. number_of x < n)"
  shows "same_position s s' \<and> keyed (nb_advancedBlocks s') \<and> (\<forall>x \<in> set (nb_advancedBlocks s'). is_block x) \<and>
     (r = Inr () \<longrightarrow> map number_of (nb_advancedBlocks s') = map number_of (nb_advancedBlocks s) @ ns)"
  using assms
proof (induction ns arbitrary: s)
  case (Cons n ns)
  obtain s1 r1 where s1: "fetch_block c n s = (s1, r1)"
    by (cases "fetch_block c n s")
  note same = fetch_block_same [OF s1]
  show ?case
  proof (cases r1)
    case (Inl e)
    then show ?thesis
      using Cons.prems same s1 by auto
  next
    case (Inr a)
    show ?thesis
    proof (cases "n = mh_number (ab_header a)")
      case False
      then show ?thesis
        using Cons.prems same s1 Inr by auto
    next
      case True
      let ?s = "emplace_advanced a s1"
      have key: "AdvancedBlock_key a = (n, Block, mh_hash (ab_header a))"
        using same Inr True by (simp add: AdvancedBlock_key_def)
      have "\<forall>k' \<in> fst ` set (nb_advancedBlocks s). k' < AdvancedBlock_key a"
        using Cons.prems(4) by (force simp: key number_of_def less_prod_def)
      then have adv: "nb_advancedBlocks ?s = nb_advancedBlocks s @ [(AdvancedBlock_key a, a)]"
        using same by (simp add: emplace_advanced_def emplace_last)
      have num: "number_of (AdvancedBlock_key a, a) = n"
        by (simp add: key number_of_def)
      have "keyed (nb_advancedBlocks ?s)"
        using keyed_emplace [OF Cons.prems(3), of a] same by (simp add: emplace_advanced_def)
      moreover have "\<forall>x \<in> set (nb_advancedBlocks ?s). is_block x \<and> (\<forall>n \<in> set ns. number_of x < n)"
        using Cons.prems(2,4) by (auto simp: adv key is_block_def number_of_def)
      moreover have "fetch_blocks c ns ?s = (s', r)"
        using Cons.prems(1) s1 Inr True by simp
      ultimately have "same_position ?s s' \<and> keyed (nb_advancedBlocks s') \<and> (\<forall>x \<in> set (nb_advancedBlocks s'). is_block x) \<and>
          (r = Inr () \<longrightarrow> map number_of (nb_advancedBlocks s') = map number_of (nb_advancedBlocks ?s) @ ns)"
        using Cons.prems(2) by (intro Cons.IH) auto
      moreover have "same_position s ?s"
        using same by (simp add: same_position_def emplace_advanced_def)
      ultimately show ?thesis
        using same_position_trans [of s ?s s'] adv num by simp
    qed
  qed
qed auto

text \<open>An extra block in front of its parsing: its size is that of its dump.\<close>

definition fresh_extra :: "AdvancedBlock \<Rightarrow> bool" where
  "fresh_extra a \<longleftrightarrow> ab_exception a = None \<and> mh_blockSize (ab_header a) = size_of (ab_dump a)"

lemma fetch_extra_ok:
  assumes "fetch_extra c bs s = (s', r)" and "keyed (nb_advancedBlocks s)"
    and "\<forall>x \<in> set (nb_advancedBlocks s). \<not> is_block x \<longrightarrow> fresh_extra (snd x)"
  shows "same_position s s' \<and> keyed (nb_advancedBlocks s') \<and>
     (\<forall>x \<in> set (nb_advancedBlocks s'). \<not> is_block x \<longrightarrow> fresh_extra (snd x)) \<and>
     filter is_block (nb_advancedBlocks s') = filter is_block (nb_advancedBlocks s)"
  using assms
proof (induction bs arbitrary: s)
  case (Cons b bs)
  let ?call = "getter_getBlockDump (nc_json c) (nc_p2p c) (ad_hash b) 0 False True (nb_servers s) (nc_isVerifySign c) (nb_getter s, nb_net s)"
  obtain g net r1 where call: "?call = ((g, net), r1)"
    by (cases ?call) auto
  show ?case
  proof (cases r1)
    case (Inl e)
    then show ?thesis
      using Cons.prems call by (auto simp: same_position_def)
  next
    case (Inr dump)
    let ?a = "\<lparr>ab_pos = (if ad_type b = AfterBlock then AfterBlock else BeforeBlock),
             ab_header = \<lparr>mh_number = ad_number b, mh_blockSize = size_of dump, mh_hash = ad_hash b, mh_parentHash = [],
                          mh_fileName = ad_fileName b, mh_prevExtraBlocks = [], mh_nextExtraBlocks = []\<rparr>,
             ab_bi = None, ab_dump = dump, ab_exception = None\<rparr>"
    let ?s = "emplace_advanced ?a (s\<lparr>nb_getter := g, nb_net := net\<rparr>)"
    have adv: "nb_advancedBlocks ?s = map_emplace (AdvancedBlock_key ?a) ?a (nb_advancedBlocks s)"
      by (simp add: emplace_advanced_def)
    have no: "\<not> is_block (AdvancedBlock_key ?a, ?a)"
      by (simp add: is_block_def AdvancedBlock_key_def)
    have kd: "keyed (nb_advancedBlocks ?s)"
      unfolding adv by (rule keyed_emplace [OF Cons.prems(2)])
    have fresh: "\<forall>x \<in> set (nb_advancedBlocks ?s). \<not> is_block x \<longrightarrow> fresh_extra (snd x)"
      using Cons.prems(3) set_map_emplace_subset [of "AdvancedBlock_key ?a" ?a "nb_advancedBlocks s"]
      unfolding adv by (auto simp: fresh_extra_def)
    have run: "fetch_extra c bs ?s = (s', r)"
      using Cons.prems(1) call Inr by simp
    have blocks: "filter is_block (nb_advancedBlocks ?s) = filter is_block (nb_advancedBlocks s)"
      unfolding adv by (rule filter_emplace_other [where P = is_block, OF no])
    have pos: "same_position s ?s"
      by (simp add: same_position_def emplace_advanced_def)
    note IH = Cons.IH [OF run kd fresh, unfolded blocks]
    show ?thesis
      using same_position_trans [OF pos conjunct1 [OF IH]] conjunct2 [OF IH] by (rule conjI)
  qed
qed auto

subsection \<open>Parsing\<close>

definition parsed_ok :: "('n, 'j) network_conf \<Rightarrow> AdvancedBlock \<Rightarrow> bool" where
  "parsed_ok c a \<longleftrightarrow>
     (ab_exception a = None \<longrightarrow> (\<exists>bi. ab_bi a = Some bi \<and> lib_fromHex (nc_lib c) (mh_hash (ab_header a)) = Inr (block_hash bi)))"

lemma accept_block_hash: "accept_block c sender hash name b = Inr b' \<Longrightarrow> block_hash b' = hash"
  by (cases b) (auto simp: CHECK_def Let_def block_hash_def BlockInfo_saveFilePath_def BlockInfo_saveSenderInfo_def
      SignBlockInfo_saveFilePath_def SignBlockInfo_saveSenderInfo_def split: if_splits)

lemma parse_dump_Inr:
  assumes "parse_dump c sender a = Inr b"
  shows "lib_fromHex (nc_lib c) (mh_hash (ab_header a)) = Inr (block_hash b)" and "size_of (ab_dump a) = mh_blockSize (ab_header a)"
  using assms by (auto simp: parse_dump_def bindE_Inr_iff CHECK_def dest: accept_block_hash split: if_splits)

lemma parse_advanced_ok:
  assumes "parse_advanced c a = Inr a'"
  shows "AdvancedBlock_key a' = AdvancedBlock_key a \<and> (ab_exception a = None \<longrightarrow> parsed_ok c a')"
  using assms
  by (auto simp: parse_advanced_def Let_def AdvancedBlock_key_def parsed_ok_def split: if_splits sum.splits dest: parse_dump_Inr(1))

lemma parse_advanced_exception: "ab_exception a \<noteq> None \<Longrightarrow> parse_advanced c a = Inr a"
  by (simp add: parse_advanced_def)

lemma parse_advanced_parsed: "parse_advanced c a = Inr a' \<Longrightarrow> parsed_ok c a'"
proof (cases "ab_exception a = None")
  case True
  then show "parse_advanced c a = Inr a' \<Longrightarrow> parsed_ok c a'"
    using parse_advanced_ok by blast
next
  case False
  then show "parse_advanced c a = Inr a' \<Longrightarrow> parsed_ok c a'"
    by (auto simp: parse_advanced_exception parsed_ok_def)
qed

lemma parse_all_ok:
  assumes "parse_all c m = Inr m'"
  shows "map fst m' = map fst m \<and> (\<forall>x \<in> set m'. parsed_ok c (snd x)) \<and>
     list_all2 (\<lambda>x x'. parse_advanced c (snd x) = Inr (snd x')) m m'"
  using assms
proof (induction m arbitrary: m')
  case (Cons x m)
  obtain k a where x: "x = (k, a)"
    by (cases x)
  obtain a' rest where a': "parse_advanced c a = Inr a'" "parse_all c m = Inr rest" "m' = (k, a') # rest"
    using Cons.prems by (auto simp: x bindE_Inr_iff)
  then show ?case
    using Cons.IH [OF a'(2)] parse_advanced_parsed [OF a'(1)] by (simp add: x)
qed simp

lemma keyed_parsed:
  assumes "parse_all c m = Inr m'" and "keyed m"
  shows "keyed m'"
proof -
  note all = parse_all_ok [OF assms(1)]
  have keys: "fst x' = AdvancedBlock_key (snd x')" if x': "x' \<in> set m'" for x'
  proof -
    obtain i where i: "i < length m'" "x' = m' ! i"
      using x' by (auto simp: in_set_conv_nth)
    have len: "length m = length m'"
      by (rule list_all2_lengthD [OF conjunct2 [OF conjunct2 [OF all]]])
    have run: "parse_advanced c (snd (m ! i)) = Inr (snd x')"
      using conjunct2 [OF conjunct2 [OF all]] i len by (simp add: list_all2_conv_all_nth)
    have "map fst m' ! i = map fst m ! i"
      using conjunct1 [OF all] by simp
    then have "fst x' = fst (m ! i)"
      using i len by simp
    moreover have "m ! i \<in> set m"
      using i(1) len by simp
    then have "fst (m ! i) = AdvancedBlock_key (snd (m ! i))"
      using assms(2) by (rule keyedD)
    ultimately show ?thesis
      using conjunct1 [OF parse_advanced_ok [OF run]] by simp
  qed
  then show ?thesis
    using assms(2) all by (auto simp: keyed_def ordered_def dest: keys)
qed

lemma filter_is_block_keys: "map fst m' = map fst m \<Longrightarrow> map number_of (filter is_block m') = map number_of (filter is_block m)"
proof (induction m arbitrary: m')
  case (Cons x m)
  obtain x' rest where m': "m' = x' # rest"
    using Cons.prems by (cases m') auto
  have "fst x' = fst x" "map fst rest = map fst m"
    using Cons.prems by (simp_all add: m')
  then show ?case
    using Cons.IH [of rest] by (simp add: m' is_block_def number_of_def)
qed simp

subsection \<open>The invariant\<close>

definition next_numbers :: "u64 \<Rightarrow> u64 list \<Rightarrow> bool" where
  "next_numbers n ns \<longleftrightarrow> (\<forall>i < length ns. ns ! i = n + of_nat i)"

lemma next_numbers_Nil [simp]: "next_numbers n []"
  by (simp add: next_numbers_def)

lemma next_numbers_Cons: "next_numbers n (m # ns) \<longleftrightarrow> m = n \<and> next_numbers (n + 1) ns"
proof -
  have "(\<forall>i < length (m # ns). (m # ns) ! i = n + of_nat i) \<longleftrightarrow> m = n \<and> (\<forall>i < length ns. ns ! i = n + of_nat (Suc i))"
    by (simp add: All_less_Suc2)
  then show ?thesis
    by (simp add: next_numbers_def add.commute add.left_commute)
qed

definition source_ok :: "('n, 'j) network_conf \<Rightarrow> 'n NetworkBlockSource \<Rightarrow> bool" where
  "source_ok c s \<longleftrightarrow> keyed (nb_current s) \<and> (\<forall>x \<in> set (nb_current s). parsed_ok c (snd x)) \<and>
     next_numbers (nb_nextBlockToRead s) (map number_of (filter is_block (nb_current s)))"

lemma source_ok_empty: "nb_current s = [] \<Longrightarrow> source_ok c s"
  by (simp add: source_ok_def)

text \<open>What is known of a block that is handed out.\<close>

definition delivers :: "('n, 'j) network_conf \<Rightarrow> 'n NetworkBlockSource \<Rightarrow> AdvancedBlock \<Rightarrow> NextBlock \<Rightarrow> bytes \<Rightarrow> 'n NetworkBlockSource \<Rightarrow> bool" where
  "delivers c s a bi dump s' \<longleftrightarrow>
     ab_bi a = Some bi \<and> ab_dump a = dump \<and> lib_fromHex (nc_lib c) (mh_hash (ab_header a)) = Inr (block_hash bi) \<and>
     (if ab_pos a = Block then mh_number (ab_header a) = nb_nextBlockToRead s \<and> nb_nextBlockToRead s' = nb_nextBlockToRead s + 1
      else nb_nextBlockToRead s' = nb_nextBlockToRead s) \<and>
     (\<forall>x \<in> set (nb_current s'). AdvancedBlock_key a < fst x)"

lemma processAdvanced_ok:
  assumes ok: "source_ok c s" and run: "processAdvanced s = (s', r)"
  shows "source_ok c s' \<and> (\<forall>bi dump. r = Inr (Some (bi, dump)) \<longrightarrow> (\<exists>a. delivers c s a bi dump s'))"
proof (cases "nb_current s")
  case Nil
  then show ?thesis
    using assms by (auto simp: processAdvanced_def)
next
  case (Cons x rest)
  obtain key a where x: "x = (key, a)"
    by (cases x)
  have key: "key = AdvancedBlock_key a" and parsed: "parsed_ok c a"
    and after: "\<forall>y \<in> set rest. AdvancedBlock_key a < fst y" "keyed rest" "\<forall>y \<in> set rest. parsed_ok c (snd y)"
    using ok by (auto simp: source_ok_def keyed_def Cons x ordered_Cons)
  have blk: "is_block x \<longleftrightarrow> ab_pos a = Block" "number_of x = mh_number (ab_header a)"
    by (simp_all add: is_block_def number_of_def x key AdvancedBlock_key_def)
  have nums: "next_numbers (nb_nextBlockToRead s) (map number_of (filter is_block (x # rest)))"
    using ok by (simp add: source_ok_def Cons)
  show ?thesis
  proof (cases "ab_exception a")
    case (Some e)
    then show ?thesis
      using ok run by (auto simp: processAdvanced_def Cons x)
  next
    case None
    then obtain bi where bi: "ab_bi a = Some bi" "lib_fromHex (nc_lib c) (mh_hash (ab_header a)) = Inr (block_hash bi)"
      using parsed by (auto simp: parsed_ok_def)
    let ?s = "s\<lparr>nb_lastFileName := mh_fileName (ab_header a), nb_current := rest,
                nb_nextBlockToRead := (if ab_pos a = Block then nb_nextBlockToRead s + 1 else nb_nextBlockToRead s)\<rparr>"
    have s': "s' = ?s" "r = Inr (Some (bi, ab_dump a))"
      using run None bi(1) by (auto simp: processAdvanced_def Cons x)
    have "source_ok c ?s"
      using after(2,3) nums blk by (auto simp: source_ok_def next_numbers_Cons split: if_splits)
    moreover have "delivers c s a bi (ab_dump a) ?s"
      using bi after(1) nums blk by (auto simp: delivers_def next_numbers_Cons split: if_splits)
    ultimately show ?thesis
      using s' by auto
  qed
qed

text \<open>The numbers of a batch do not wrap around.\<close>

lemma batch_numbers:
  fixes n l :: u64
  assumes "n \<le> l" and "i < unat (min COUNT_ADVANCED_BLOCKS (l - n + 1))"
  shows "unat (n + of_nat i) = unat n + i"
proof -
  have "unat (l - n + 1) \<le> unat (l - n) + 1"
    by (simp add: unat_word_ariths)
  moreover have "unat (l - n) = unat l - unat n"
    using assms(1) by (rule unat_sub)
  moreover have "unat (min COUNT_ADVANCED_BLOCKS (l - n + 1)) \<le> unat (l - n + 1)"
    by (simp add: min_def word_le_nat_alt)
  ultimately have i: "i \<le> unat l - unat n"
    using assms(2) by linarith
  moreover have "unat n \<le> unat l"
    using assms(1) by (simp add: word_le_nat_alt)
  moreover have l: "unat l < 2 ^ 64"
    using unsigned_less [of l, where 'a = nat] by simp
  ultimately have "unat n + i < 2 ^ 64" and "i < 2 ^ 64"
    by linarith+
  then show ?thesis
    by (simp add: unat_word_ariths unsigned_of_nat take_bit_nat_eq_self)
qed

lemma load_batch_ok:
  assumes "load_batch c s = (s', r)"
  shows "same_position s s' \<and> (\<forall>extra. r = Inr extra \<longrightarrow> keyed (nb_advancedBlocks s') \<and>
    (\<forall>x \<in> set (nb_advancedBlocks s'). is_block x) \<and> next_numbers (nb_nextBlockToRead s) (map number_of (nb_advancedBlocks s')))"
proof (cases "af_cleared (nb_afterBlocksAdditings s) \<and> nb_nextBlockToRead s \<le> nb_lastBlockInBlockchain s \<and> nb_servers s \<noteq> []")
  case True
  let ?ns = "map (\<lambda>i. nb_nextBlockToRead s + of_nat i)
    [0..<unat (min COUNT_ADVANCED_BLOCKS (nb_lastBlockInBlockchain s - nb_nextBlockToRead s + 1))]"
  let ?s = "s\<lparr>nb_advancedBlocks := []\<rparr>"
  obtain s1 r1 where run: "fetch_blocks c ?ns ?s = (s1, r1)"
    by (cases "fetch_blocks c ?ns ?s")
  have cond: "af_cleared (nb_afterBlocksAdditings s)" "\<not> nb_lastBlockInBlockchain s < nb_nextBlockToRead s" "nb_servers s \<noteq> []"
    using True by (simp_all add: not_less)
  have "(s', r) = (case fetch_blocks c ?ns ?s of (s, Inl e) \<Rightarrow> (s, Inl e)
      | (s, Inr _) \<Rightarrow> (s, Inr (concat (map (\<lambda>(key, a). extra_of_block a) (nb_advancedBlocks s)))))"
    using cond unfolding assms [symmetric] load_batch_def Let_def by simp
  then have s': "s' = s1" "r = Inr extra \<Longrightarrow> r1 = Inr ()" for extra
    unfolding run by (auto split: sum.splits)
  have "sorted_wrt (<) ?ns"
    using True by (auto simp: sorted_wrt_map sorted_wrt_iff_nth_less word_less_nat_alt batch_numbers)
  then have "same_position ?s s1 \<and> keyed (nb_advancedBlocks s1) \<and> (\<forall>x \<in> set (nb_advancedBlocks s1). is_block x) \<and>
     (r1 = Inr () \<longrightarrow> map number_of (nb_advancedBlocks s1) = map number_of (nb_advancedBlocks ?s) @ ?ns)"
    by (rule fetch_blocks_ok [OF run]) auto
  then show ?thesis
    using s' by (auto simp: same_position_def next_numbers_def)
next
  case False
  then show ?thesis
    using assms by (auto simp: load_batch_def Let_def same_position_def split: if_splits)
qed

lemma processAdditingBlocks_ok:
  assumes "processAdditingBlocks c extra s = (s', r)" and "keyed (nb_advancedBlocks s)"
    and "\<forall>x \<in> set (nb_advancedBlocks s). is_block x"
  shows "same_position s s' \<and> keyed (nb_advancedBlocks s') \<and>
     (\<forall>x \<in> set (nb_advancedBlocks s'). \<not> is_block x \<longrightarrow> fresh_extra (snd x)) \<and>
     filter is_block (nb_advancedBlocks s') = nb_advancedBlocks s"
proof (cases "with_binary_hash (lib_fromHex (nc_lib c)) (first_of_hash {} extra)")
  case (Inl e)
  then show ?thesis
    using assms by (simp add: processAdditingBlocks_def)
next
  case (Inr blocks)
  have "fetch_extra c (map fst (filter_known snd blocks (nc_timeline c))) s = (s', r)"
    using assms(1) Inr by (simp add: processAdditingBlocks_def)
  from fetch_extra_ok [OF this assms(2)] show ?thesis
    using assms(3) by simp
qed

lemma network_process_ok:
  assumes ok: "source_ok c s" and run: "network_process c s = (s', r)"
  shows "source_ok c s' \<and> (\<forall>bi dump. r = Inr (Some (bi, dump)) \<longrightarrow> (\<exists>a. delivers c s a bi dump s'))"
proof (cases "nb_current s = []")
  case False
  then have "processAdvanced s = (s', r)"
    using run by (simp add: network_process_def)
  then show ?thesis
    using processAdvanced_ok [OF ok] by blast
next
  case empty: True
  show ?thesis
  proof (cases "af_cleared (nb_afterBlocksAdditings s) \<and> nb_lastBlockInBlockchain s < nb_nextBlockToRead s")
    case True
    then show ?thesis
      using run ok empty by (auto simp: network_process_def)
  next
    case False
    obtain s1 r1 where s1: "load_batch c s = (s1, r1)"
      by (cases "load_batch c s")
    note load = load_batch_ok [OF s1]
    show ?thesis
    proof (cases r1)
      case (Inl e)
      then show ?thesis
        using load run empty False s1 by (auto simp: network_process_def same_position_def intro: source_ok_empty)
    next
      case extra: (Inr extra)
      have k1: "keyed (nb_advancedBlocks s1)" "\<forall>x \<in> set (nb_advancedBlocks s1). is_block x"
        and n1: "next_numbers (nb_nextBlockToRead s) (map number_of (nb_advancedBlocks s1))"
        using load extra by simp_all
      obtain s2 r2 where s2: "processAdditingBlocks c extra s1 = (s2, r2)"
        by (cases "processAdditingBlocks c extra s1")
      note adding = processAdditingBlocks_ok [OF s2 k1]
      have pos: "nb_nextBlockToRead s2 = nb_nextBlockToRead s" "nb_current s2 = []"
        using load adding empty by (simp_all add: same_position_def)
      show ?thesis
      proof (cases r2)
        case (Inl e)
        then show ?thesis
          using run empty False s1 extra s2 pos by (auto simp: network_process_def intro: source_ok_empty)
      next
        case (Inr u)
        show ?thesis
        proof (cases "parse_all c (nb_advancedBlocks s2)")
          case (Inl e)
          then show ?thesis
            using run empty False s1 extra s2 Inr pos
            by (auto simp: network_process_def parseBlockInfo_def intro: source_ok_empty)
        next
          case parsed: (Inr m)
          let ?s = "s2\<lparr>nb_advancedBlocks := m, nb_current := m\<rparr>"
          have "map number_of (filter is_block m) = map number_of (nb_advancedBlocks s1)"
            using filter_is_block_keys [OF conjunct1 [OF parse_all_ok [OF parsed]]] adding by simp
          then have ok': "source_ok c ?s"
            using keyed_parsed [OF parsed] parse_all_ok [OF parsed] adding n1 pos by (simp add: source_ok_def)
          show ?thesis
          proof (cases "m = []")
            case True
            then show ?thesis
              using run empty False s1 extra s2 Inr parsed
              by (auto simp: network_process_def parseBlockInfo_def intro: source_ok_empty)
          next
            case nonempty: False
            have "processAdvanced ?s = (s', r)"
              using run empty False s1 extra s2 Inr parsed nonempty by (simp add: network_process_def parseBlockInfo_def)
            note delivered = processAdvanced_ok [OF ok' this]
            have "delivers c ?s a bi dump s' \<longleftrightarrow> delivers c s a bi dump s'" for a bi dump
              using pos(1) by (simp add: delivers_def)
            with delivered show ?thesis
              by blast
          qed
        qed
      qed
    qed
  qed
qed

subsection \<open>Reachable states\<close>

inductive network_reachable :: "('n, 'j) network_conf \<Rightarrow> 'n NetworkBlockSource \<Rightarrow> bool" for c where
  created: "network_reachable c (NetworkBlockSource_new maxAdvancedLoadBlocks countBlocksInBatch isCompress net)"
| doProcess: "network_reachable c s \<Longrightarrow> network_doProcess c count s = (s', r) \<Longrightarrow> network_reachable c s'"
| process: "network_reachable c s \<Longrightarrow> network_process c s = (s', r) \<Longrightarrow> network_reachable c s'"

lemma doProcess_current: "network_doProcess c count s = (s', r) \<Longrightarrow> nb_current s' = []"
  by (auto simp: network_doProcess_def doProcess_last_def doProcess_preload_def doProcess_clear_def set_last_block_def Let_def
      split: if_splits prod.splits sum.splits option.splits)

lemma reachable_source_ok: "network_reachable c s \<Longrightarrow> source_ok c s"
proof (induction rule: network_reachable.induct)
  case created
  show ?case
    by (rule source_ok_empty) (simp add: NetworkBlockSource_new_def)
next
  case doProcess
  then show ?case
    using doProcess_current by (intro source_ok_empty)
next
  case process
  then show ?case
    using network_process_ok by blast
qed


definition sample_network_json :: json_lib where
  "sample_network_json = \<lparr>
     jl_parse = (\<lambda>s.
       if s = [1] then Some (JObject [(lit ''result'', JObject [(lit ''count_blocks'', JInt 1)])])
       else if s = [2] then Some (JObject [(lit ''result'', JObject [(lit ''number'', JInt 1), (lit ''hash'', JString (replicate 32 32)),
              (lit ''prev_hash'', JString []), (lit ''size'', JInt 49), (lit ''fileName'', JString (lit ''a''))])])
       else None),
     jl_print = (\<lambda>_ _. []), jl_message = (\<lambda>_. []), jl_strToJson = JString, jl_getString = (\<lambda>v. Inr (GetString v)),
     jl_getArray = (\<lambda>v name. bindE (json_at name v) (\<lambda>a. Inr (GetArray a))), jl_toHex = (\<lambda>s. s),
     jl_lz4 = \<lparr>lz_compress = (\<lambda>s. s), lz_decompress = (\<lambda>s n. Some s), lz_buffer = (\<lambda>s n. s)\<rparr>\<rparr>"

definition sample_dump :: bytes where
  "sample_dump = sign_block_bytes 9 (replicate 32 1) []"

text \<open>A network of one server, counting the requests.\<close>

definition sample_p2p :: "nat p2p" where
  "sample_p2p = \<lparr>pp_broadcast = (\<lambda>_ _ _ n. (n, [(lit ''s'', [1], None)])),
     pp_request = (\<lambda>_ _ _ _ _ _ n. (n, Inl (Check []))),
     pp_requests = (\<lambda>_ _ _ _ _ n. (Suc n, Inr [if n = 0 then [2] else sample_dump])),
     pp_runOneRequest = (\<lambda>_ _ _ _ n. (n, Inl (Check [])))\<rparr>"

definition sample_network :: "(nat, unit) network_conf" where
  "sample_network = \<lparr>nc_json = sample_network_json, nc_p2p = sample_p2p, nc_lib = sample_lib\<lparr>lib_fromHex := Inr\<rparr>,
     nc_makeAddress = Inr, nc_base = 4096, nc_timeline = BlocksTimeline_empty, nc_saveAllTx = True, nc_isValidate = True,
     nc_isVerifySign = False, nc_isPreLoad = False\<rparr>"

definition sample_network_source :: "nat NetworkBlockSource" where
  "sample_network_source = fst (network_doProcess sample_network 0 (NetworkBlockSource_new 1 1 False 0))"


subsection \<open>Extra blocks of a signed source\<close>

lemma deserializeString_shorter:
  assumes "length raw < 2 ^ 64" and "deserializeString raw 0 = Inr (str, endPos)"
  shows "length str + 8 \<le> length raw"
proof (cases "8 \<le> length raw")
  case True
  then show ?thesis
    using assms fromBinary_fits [of raw 0]
    by (auto simp: deserializeString_def deserializeString_end_def deserializeInt_end_def substr_def result_simps split: if_splits)
next
  case False
  then show ?thesis
    using assms fromBinary_short [of raw 0]
    by (auto simp: deserializeString_def deserializeString_end_def deserializeInt_end_def result_simps)
qed

lemma checkSignatureBlock_shorter:
  assumes "length dump < 2 ^ 64" and "checkSignatureBlock cr makeAddress dump = Inr signer"
  shows "length (bs_block signer) + 8 \<le> length dump"
proof -
  let ?parse = "bindP deserializeString (\<lambda>block.
            bindP deserializeString (\<lambda>sign.
            bindP deserializeString (\<lambda>pubkey.
            bindP deserializeString (\<lambda>address.
            returnP \<lparr>bs_block = block, bs_sign = sign, bs_pubkey = pubkey, bs_address = address\<rparr>)))) dump 0"
  obtain r endPos where parse: "?parse = Inr (r, endPos)"
    using assms(2) by (cases ?parse) (auto simp: checkSignatureBlock_def)
  have "signer = r"
    using assms(2) unfolding checkSignatureBlock_def parse
    by (cases "bindE (makeAddress (bs_pubkey r)) (\<lambda>calculated. CHECK (calculated = bs_address r) ''Not validate'')")
      (auto simp: bindE_Inr_iff)
  then obtain endPos where "deserializeString dump 0 = Inr (bs_block signer, endPos)"
    using parse by (auto simp: bindP_def returnP_def bindE_Inr_iff)
  then show ?thesis
    using deserializeString_shorter [OF assms(1)] by blast
qed


definition sample_extra :: AdvancedBlock where
  "sample_extra =
     (let dump = serializeString sample_dump @ serializeString [7] @ serializeString [3, 4] @ serializeString [3, 4]
      in \<lparr>ab_pos = AfterBlock,
          ab_header = \<lparr>mh_number = 1, mh_blockSize = size_of dump, mh_hash = replicate 32 32, mh_parentHash = [],
            mh_fileName = lit ''a'', mh_prevExtraBlocks = [], mh_nextExtraBlocks = []\<rparr>,
          ab_bi = None, ab_dump = dump, ab_exception = None\<rparr>)"


end
