(* ===== verification/Spec2Isabelle.thy ===== *)
theory Spec2Isabelle
  imports Serialize Address FilePosition StoredRecords TransactionInfo BlockInfo BalanceStore BlockChain
    BlocksTimeline BlockchainUtils Reader BlockchainRead WorkerRecords LevelDb Database DatabaseScans WorkerBase WorkerMain WorkerMainProps WorkerDelegates WorkerTurns
    RejectedTxs FileSource SyncImpl SyncProps SyncRestart P2P P2PResult PreloadProps LastBlock QueryProps NodeTestProps ScriptProps NetworkProps
begin

text \<open>
  Verification of the torrent node of MetaHash (Node-Torrent, C++): a server that fetches the blocks of
  a blockchain from files or from other nodes, keeps them in files and an index in LevelDB, runs workers
  that compute balances, histories, delegations, tokens and rejected transactions from the blocks, and
  answers requests about them. The theories are a shallow embedding of the code under \<open>src/src\<close>: pure
  functions, records for the structures and the members of the classes, explicit state passing. The
  sum type \<open>'a result\<close> holds a value or an \<open>error\<close>: an exception, a read or write that C++ leaves undefined,
  or exhausted fuel. \<open>size_t\<close> is \<^typ>\<open>64 word\<close> with its wrap-around; \<open>std::string\<close> is a list of bytes.

  \<^bold>\<open>The program and how its parts interact.\<close> \<open>SyncImpl\<close> is the centre: it takes one block after the other
  from a \<open>BlockSource\<close> (files, or the network through \<open>GetNewBlocksFromServer\<close> and the requests of \<open>P2P\<close>),
  appends it to a block file, adds it to the \<open>BlockChain\<close> and the \<open>BlocksTimeline\<close>, hands it to the workers,
  saves it with a \<open>Batch\<close> of \<open>LevelDb\<close> and confirms it to the source. The workers read blocks from their
  queues and write their records in batches of their own, each with the number of the block. After a
  restart \<open>SyncImpl\<close> rebuilds chain and timeline from the database and hands every worker what it has
  missed. A block that does not extend the chain starts the search for the common ancestor, and \<open>main\<close>
  then removes the newer files. \<open>generate_json\<close> writes the answers to requests.

  \<^bold>\<open>Theories and sources.\<close>
  \<^item> \<open>Prelude\<close>, \<open>OrderedMap\<close>, \<open>Accumulate\<close>: machine types, the error monad, positions in buffers; ordered
    maps; the locale of values that are accumulated.
  \<^item> \<open>Serialize\<close> (\<open>utils/serialize.h\<close>), \<open>Address\<close>, \<open>FilePosition\<close>, \<open>StoredRecords\<close>, \<open>TransactionInfo\<close>, \<open>BlockInfo\<close>,
    \<open>BalanceInfo\<close>, \<open>BalanceStore\<close> (\<open>blockchain_structs\<close>), \<open>WorkerRecords\<close> (\<open>Workers/*BlockInfo\<close>): the data
    and their formats in the database. Every writer is undone by its reader; the arithmetic of balances
    is a homomorphism to exact sums.
  \<^item> \<open>BlockChain\<close>, \<open>BlocksTimeline\<close>: the chain by number and hash with its invariant, the order of
    transaction and signature blocks.
  \<^item> \<open>BlockchainUtils\<close> (hex, addresses, RLP, signatures), \<open>Reader\<close>, \<open>BlockchainRead\<close> (the parser of blocks over
    raw pointers, with a bound on every loop).
  \<^item> \<open>LevelDb\<close>, \<open>Database\<close>, \<open>DatabaseScans\<close>: keys, batches, look-ups; what is committed is seen, ranges of
    keys are logs.
  \<^item> \<open>WorkerBase\<close>, \<open>WorkerMain\<close>, \<open>WorkerMainProps\<close>, \<open>WorkerDelegates\<close>, \<open>WorkerTurns\<close>, \<open>WorkerQueries\<close>,
    \<open>QueryProps\<close> (\<open>Workers/WorkerMain\<close>, \<open>Workers/WorkerCache\<close>): one turn of the main worker over the database,
    delegations as stacks over all turns, the caches, and the queries over what the turns have stored.
  \<^item> \<open>WorkerNodeTest\<close>, \<open>NodeTestProps\<close> (\<open>Workers/WorkerNodeTest\<close>): the results of node tests by day, what a turn
    saves, averages and ratings.
  \<^item> \<open>WorkerScript\<close>, \<open>ScriptProps\<close> (\<open>Workers/WorkerScript\<close>, \<open>generate_json_v8.cpp\<close>): the requests to the V8 server
    and the turn of the worker of contracts; what stops it.
  \<^item> \<open>RejectedTxs\<close> (\<open>RejectedBlockSource\<close>, \<open>Workers/RejectedTxsWorker\<close>), \<open>FileSource\<close>
    (\<open>BlockSource/FileBlockSource\<close>, \<open>utils/FileSystem\<close>).
  \<^item> \<open>SyncImpl\<close>, \<open>SyncProps\<close>, \<open>SyncRestart\<close> (\<open>SyncImpl.cpp\<close>, \<open>PrivateKey\<close>, the end of \<open>main\<close>): handling of blocks,
    restart, common ancestor, signed dumps.
  \<^item> \<open>P2P\<close>, \<open>P2PProps\<close>, \<open>P2PTask\<close>, \<open>P2PRequest\<close>, \<open>P2PResult\<close> (\<open>src/P2P\<close>): a distributed request as a step
    relation over the queue and the threads; result, termination, failure.
  \<^item> \<open>Json\<close>, \<open>NewBlocksMessages\<close>, \<open>GenerateJson\<close> (\<open>utils/compress.cpp\<close>,
    \<open>BlockSource/get_new_blocks_messages.cpp\<close>, \<open>generate_json.cpp\<close>), \<open>PreloadProps\<close>: the messages between nodes;
    what the server writes is what the client reads.
  \<^item> \<open>NewBlocks\<close>, \<open>LastBlock\<close>, \<open>NetworkSource\<close>, \<open>NetworkProps\<close>
    (\<open>BlockSource/GetNewBlocksFromServers.cpp\<close>, \<open>BlockSource/NetworkBlockSource.cpp\<close>): blocks from the servers,
    their caches, and the order of their delivery.

  \<^bold>\<open>Loops and fuel.\<close> Recursion over a list or a counter is structural. The loops of the parser and of the
  sections of a balance carry the length of the buffer as fuel; each turn consumes a byte, so the error
  \<open>Diverges\<close> never appears (\<open>parse_terminates\<close>). A loop that can run for ever is a \<open>partial_function\<close> into
  \<open>option\<close>, and \<open>None\<close> is not returning: the search of the file source, the search for the common
  ancestor, the reader of dumps, the filtered history. Where it can happen it is a theorem.

  \<^bold>\<open>Parameters.\<close> What is not in the repository is an argument: LevelDB (\<open>leveldb_ok\<close> is what its header
  promises, and \<open>sample_leveldb\<close> a store that keeps it), OpenSSL and secp256k1, rapidjson and \<open>jsonUtils\<close>
  (\<open>json_lib_ok\<close>), LZ4 (\<open>lz4_ok\<close>), the clock, and the network: a relation or a state that is changed by
  each call.

  \<^bold>\<open>Concurrency.\<close> A method that holds a mutex is one step. The threads of a distributed request are steps in
  any order; the worker threads are the sequence of their turns.

  \<^bold>\<open>Not modelled.\<close> The HTTP server and the parsing of requests (\<open>Server.cpp\<close>), which only translate;
  the local cache; the network source of rejected blocks; \<open>synchronize_blockchain\<close>, which delegates every
  call; cryptography (\<open>utils/crypto.cpp\<close>); the start of the program and its configuration; the resolution of
  host names, libevent, the test of the servers' latency; \<open>safe_ptr\<close> and \<open>ReferenceWrapper\<close>; the statistics of
  the machine; third-party code. Floating point occurs in the statistics of the server only.
\<close>

section \<open>Properties that span components\<close>

text \<open>C14: Restart. While blocks are added to the timeline and the records it returns are saved in
  batches, possibly among other writes, the database holds exactly the records of the timeline; what
  \<open>findAllBlocksTimeline\<close> reads back in any later run rebuilds the timeline that was in memory, with
  both its indices. The statement is one step of this: the database holds the records of the
  elements so far, and a batch with the records of the next ones is committed.\<close>

theorem timeline_restored_from_database:
  assumes "leveldb_ok L contents"
    and "add_elements els BlocksTimeline_empty = Inr (t, rs)" and "holds_entries (contents d) BLOCKS_TIMELINE_PREFIX rs"
    and "add_elements els' t = Inr (t', rs')" and "timeline_writes ws = rs'"
    and "batch_writes ws Batch_new = Inr b" and "addBatch L b d = (d', Inr ())"
    and "\<forall>(n, bs) \<in> set (rs @ rs'). length bs < 2 ^ 64" and "length (rs @ rs') < 2 ^ 64"
  shows "holds_entries (contents d') BLOCKS_TIMELINE_PREFIX (rs @ rs') \<and>
     bindE (findAllBlocksTimeline L d') (\<lambda>es. Inr (BlocksTimeline_deserialize es BlocksTimeline_empty)) =
       Inr (t'\<lparr>tl_initialized := True\<rparr>, Inr ())"
proof -
  have all: "add_elements (els @ els') BlocksTimeline_empty = Inr (t', rs @ rs')"
    by (rule add_elements_append [OF assms(2,4)])
  have "map fst (rs @ rs') = map of_nat [0..<length (rs @ rs')]"
    using add_elements_numbers [OF all] by (simp add: BlocksTimeline_empty_def)
  then have sorted: "sorted_wrt (<) (map fst (rs @ timeline_writes ws))"
    using assms(9) unfolding assms(5)
    by (simp only: sorted_wrt_map, intro sorted_wrt_mono_rel [OF _ sorted_wrt_upt])
      (simp add: word_less_nat_alt unat_of_nat_u64)
  have "holds_entries (contents d') BLOCKS_TIMELINE_PREFIX (rs @ rs')"
    using timeline_committed [OF assms(1,3,6,7) sorted] assms(5) by simp
  moreover have "findAllBlocksTimeline L d' = Inr (rs @ rs')"
    by (rule findAllBlocksTimeline_entries [OF assms(1) calculation assms(9)])
  ultimately show ?thesis
    using deserialize_add_elements [OF all assms(8)] by (simp add: BlocksTimeline_deserialize_def)
qed

theorem timeline_restored_from_database_witness:
  "\<exists>t rs b d'. add_elements [SimpleBlockElement [1], SignBlockElement (sample_sign 2 1)] BlocksTimeline_empty = Inr (t, rs) \<and>
     batch_writes (map (\<lambda>(n, bs). WBlockTimeline n bs) rs) Batch_new = Inr b \<and>
     addBatch sample_leveldb b [] = (d', Inr ()) \<and>
     bindE (findAllBlocksTimeline sample_leveldb d') (\<lambda>es. Inr (BlocksTimeline_deserialize es BlocksTimeline_empty)) =
       Inr (t\<lparr>tl_initialized := True\<rparr>, Inr ())"
proof -
  let ?els = "[SimpleBlockElement [1], SignBlockElement (sample_sign 2 1)]"
  have "case add_elements ?els BlocksTimeline_empty of Inl _ \<Rightarrow> False
      | Inr (t, rs) \<Rightarrow> (\<forall>(n, bs) \<in> set rs. length bs < 100) \<and> length rs < 100"
    by code_simp
  then obtain t rs where t: "add_elements ?els BlocksTimeline_empty = Inr (t, rs)"
      "\<forall>(n, bs) \<in> set ([] @ rs). length bs < 2 ^ 64" "length ([] @ rs) < 2 ^ 64"
    by (fastforce split: sum.splits)
  let ?ws = "map (\<lambda>(n, bs). WBlockTimeline n bs) rs"
  have writes: "timeline_writes ?ws = rs"
    by (induction rs) auto
  have "\<exists>b'. batch_writes (map (\<lambda>(n, bs). WBlockTimeline n bs) xs) b = Inr b'" for xs b
    by (induction xs arbitrary: b) (auto simp: saveBlockTimeline_def makeKey_def)
  then obtain b where b: "batch_writes ?ws Batch_new = Inr b" by blast
  have commit: "addBatch sample_leveldb b [] = (fold store_apply (wb_batch b) [], Inr ())"
    by (simp add: addBatch_def sample_leveldb_def)
  have empty: "add_elements [] BlocksTimeline_empty = Inr (BlocksTimeline_empty, [])"
    "holds_entries (map_of []) BLOCKS_TIMELINE_PREFIX []"
    by (simp_all add: holds_entries_def)
  from timeline_restored_from_database [OF sample_leveldb_ok empty t(1) writes b commit t(2,3)] t(1) b commit
  show ?thesis by blast
qed

end
